(* ===== verification/Prelude.thy ===== *)
theory Prelude
  imports Complex_Main "HOL-Library.Char_ord"
begin

text \<open>
  The shared vocabulary of the development: Python's strings as lists of Unicode code
  points, the parts of the standard library the components have in common
  (\<open>str.strip\<close>, \<open>dict.fromkeys\<close>, \<open>bool(...)\<close> on strings), clock readings, and the
  row-level operations a SQL statement performs on a table kept as a list of rows.
  The lemmas on those operations are collected in \<open>table_simps\<close>.
\<close>

named_theorems table_simps \<open>how selections, updates and counts of rows interact\<close>
named_theorems err_simps \<open>unfolding of the error-passing sequencing\<close>

section \<open>Strings\<close>

text \<open>A Python \<open>str\<close> is a sequence of Unicode code points.\<close>

type_synonym pystr = "int list"

definition U :: "string \<Rightarrow> pystr" where
  "U cs = map of_char cs"

text \<open>The code points \<open>str.isspace\<close> accepts, which are those \<open>str.strip\<close> removes and \<open>\s\<close> matches.\<close>

definition space_codes :: "int list" where
  "space_codes =
    [9, 10, 11, 12, 13, 28, 29, 30, 31, 32, 133, 160, 5760, 8192, 8193, 8194, 8195, 8196,
     8197, 8198, 8199, 8200, 8201, 8202, 8232, 8233, 8239, 8287, 12288]"

definition is_space :: "int \<Rightarrow> bool" where
  "is_space c = List.member space_codes c"

definition py_strip :: "pystr \<Rightarrow> pystr" where
  "py_strip s = rev (dropWhile is_space (rev (dropWhile is_space s)))"

lemma dropWhile_rev_dropWhile_hd:
  "xs \<noteq> [] \<Longrightarrow> \<not> P (hd xs) \<Longrightarrow> rev (dropWhile P (rev xs)) \<noteq> [] \<and> hd (rev (dropWhile P (rev xs))) = hd xs"
proof (induction xs rule: rev_induct)
  case Nil
  then show ?case by simp
next
  case (snoc x xs)
  show ?case
  proof (cases "xs = []")
    case True
    with snoc.prems show ?thesis by simp
  next
    case False
    with snoc show ?thesis by (cases "P x") auto
  qed
qed

lemma py_strip_nonempty_hd:
  assumes "py_strip s \<noteq> []"
  shows "\<not> is_space (hd (py_strip s))"
proof -
  let ?t = "dropWhile is_space s"
  have "?t \<noteq> []"
  proof
    assume "?t = []"
    then have "py_strip s = []" unfolding py_strip_def by (simp only: rev.simps dropWhile.simps)
    with assms show False by simp
  qed
  then have "\<not> is_space (hd ?t)" by (rule hd_dropWhile)
  with \<open>?t \<noteq> []\<close> show ?thesis
    using dropWhile_rev_dropWhile_hd [of ?t is_space] by (simp add: py_strip_def)
qed

lemma py_strip_idem [simp]: "py_strip (py_strip s) = py_strip s"
proof (cases "py_strip s = []")
  case True
  have "py_strip [] = []" by (simp add: py_strip_def)
  with True show ?thesis by simp
next
  case False
  let ?r = "dropWhile is_space (rev (dropWhile is_space s))"
  from False have "\<not> is_space (hd (py_strip s))" by (rule py_strip_nonempty_hd)
  with False have "dropWhile is_space (py_strip s) = py_strip s"
    by (cases "py_strip s") auto
  then show ?thesis by (simp add: py_strip_def dropWhile_idem)
qed

section \<open>Lists\<close>

text \<open>\<open>list(dict.fromkeys(xs))\<close>: first occurrences, in order.\<close>

fun dedup :: "'a list \<Rightarrow> 'a list" where
  "dedup [] = []"
| "dedup (x # xs) = x # filter (\<lambda>y. y \<noteq> x) (dedup xs)"

lemma set_dedup [simp]: "set (dedup xs) = set xs"
  by (induction xs) auto

lemma distinct_dedup [simp]: "distinct (dedup xs)"
  by (induction xs) auto

lemma dedup_eq_Nil [simp]: "dedup xs = [] \<longleftrightarrow> xs = []"
  by (cases xs) auto

lemma filter_dedup: "filter P (dedup xs) = dedup (filter P xs)"
proof (induction xs)
  case (Cons x xs)
  have swap: "filter P (filter (\<lambda>y. y \<noteq> x) (dedup xs)) = filter (\<lambda>y. y \<noteq> x) (dedup (filter P xs))"
    by (simp add: Cons.IH [symmetric] conj_commute)
  have "\<not> P x \<Longrightarrow> filter (\<lambda>y. y \<noteq> x) (dedup (filter P xs)) = dedup (filter P xs)"
    by (auto simp: filter_id_conv)
  with swap show ?case by (cases "P x") simp_all
qed simp

lemma dedup_distinct [simp]: "distinct xs \<Longrightarrow> dedup xs = xs"
  by (induction xs) (auto simp: filter_id_conv)

section \<open>Clock readings\<close>

text \<open>
  A timezone-aware \<open>datetime\<close> is its distance from the epoch in microseconds, the resolution
  Python's \<open>datetime\<close> has. \<open>timedelta(seconds=x)\<close> rounds \<open>x\<close> to microseconds, ties to even.
\<close>

type_synonym instant = int

definition round_half_even :: "rat \<Rightarrow> int" where
  "round_half_even x =
     (let f = \<lfloor>x\<rfloor>; d = x - of_int f
      in if d < 1 / 2 then f else if d > 1 / 2 then f + 1 else if even f then f else f + 1)"

definition timedelta_us :: "rat \<Rightarrow> int" where
  "timedelta_us secs = round_half_even (secs * 1000000)"

lemma round_half_even_of_int [simp]: "round_half_even (of_int n) = n"
  by (simp add: round_half_even_def)

lemma round_half_even_nonneg: "0 \<le> x \<Longrightarrow> 0 \<le> round_half_even x"
  by (auto simp: round_half_even_def Let_def)

lemma timedelta_us_nonneg: "0 \<le> secs \<Longrightarrow> 0 \<le> timedelta_us secs"
  by (simp add: timedelta_us_def round_half_even_nonneg)

lemma round_half_even_pos: "1 / 2 < x \<Longrightarrow> 0 < round_half_even x"
proof -
  assume x: "1 / 2 < x"
  show ?thesis
  proof (cases "x < 1")
    case True
    with x have "\<lfloor>x\<rfloor> = 0" by (simp add: floor_eq_iff)
    with x show ?thesis by (simp add: round_half_even_def)
  next
    case False
    then have "1 \<le> \<lfloor>x\<rfloor>" by simp
    then show ?thesis by (auto simp: round_half_even_def Let_def)
  qed
qed

section \<open>JSON values\<close>

text \<open>What \<open>json.loads\<close> produces and JSON columns hold; objects keep their keys' order.\<close>

datatype json =
    JNull
  | JBool bool
  | JInt int
  | JFloat rat
  | JStr pystr
  | JArr "json list"
  | JObj "(pystr \<times> json) list"

text \<open>\<open>bool(...)\<close> of such a value.\<close>

fun json_truthy :: "json \<Rightarrow> bool" where
  "json_truthy JNull = False"
| "json_truthy (JBool b) = b"
| "json_truthy (JInt n) = (n \<noteq> 0)"
| "json_truthy (JFloat x) = (x \<noteq> 0)"
| "json_truthy (JStr s) = (s \<noteq> [])"
| "json_truthy (JArr xs) = (xs \<noteq> [])"
| "json_truthy (JObj kvs) = (kvs \<noteq> [])"

section \<open>Errors as values\<close>

definition bind_err :: "'e + 'a \<Rightarrow> ('a \<Rightarrow> 'e + 'b) \<Rightarrow> 'e + 'b" where
  "bind_err m f = (case m of Inl e \<Rightarrow> Inl e | Inr x \<Rightarrow> f x)"

lemma bind_err_simps [simp, err_simps]:
  "bind_err (Inl e) f = Inl e"
  "bind_err (Inr x) f = f x"
  by (simp_all add: bind_err_def)

lemma bind_err_Inr_iff [err_simps]:
  "bind_err m f = Inr y \<longleftrightarrow> (\<exists>x. m = Inr x \<and> f x = Inr y)"
  by (cases m) auto

lemma bind_err_cong [fundef_cong]:
  "m = m' \<Longrightarrow> (\<And>x. m' = Inr x \<Longrightarrow> f x = f' x) \<Longrightarrow> bind_err m f = bind_err m' f'"
  by (cases m') auto

section \<open>Tables\<close>

text \<open>
  A table is the list of its rows in insertion order. An \<open>UPDATE ... WHERE\<close> rewrites the rows
  that satisfy the condition; its \<open>rowcount\<close> is how many do; a \<open>DELETE\<close> removes them.
\<close>

definition upd_rows :: "('r \<Rightarrow> bool) \<Rightarrow> ('r \<Rightarrow> 'r) \<Rightarrow> 'r list \<Rightarrow> 'r list" where
  "upd_rows P f rows = map (\<lambda>r. if P r then f r else r) rows"

definition rowcount :: "('r \<Rightarrow> bool) \<Rightarrow> 'r list \<Rightarrow> nat" where
  "rowcount P rows = length (filter P rows)"

definition first_row :: "('r \<Rightarrow> bool) \<Rightarrow> 'r list \<Rightarrow> 'r option" where
  "first_row P rows = List.find P rows"

lemma rowcount_0_iff [table_simps]: "rowcount P rows = 0 \<longleftrightarrow> (\<forall>r\<in>set rows. \<not> P r)"
  by (auto simp: rowcount_def filter_empty_conv)

lemma upd_rows_none [table_simps]: "rowcount P rows = 0 \<Longrightarrow> upd_rows P f rows = rows"
  by (auto simp: rowcount_0_iff upd_rows_def intro!: map_idI)

lemma length_upd_rows [simp]: "length (upd_rows P f rows) = length rows"
  by (simp add: upd_rows_def)

lemma set_upd_rows [table_simps]:
  "set (upd_rows P f rows) = {r \<in> set rows. \<not> P r} \<union> f ` {r \<in> set rows. P r}"
  by (auto simp: upd_rows_def)

lemma map_upd_rows [table_simps]:
  "(\<And>r. P r \<Longrightarrow> k (f r) = k r) \<Longrightarrow> map k (upd_rows P f rows) = map k rows"
  by (simp add: upd_rows_def)

lemma first_row_None_iff [table_simps]: "first_row P rows = None \<longleftrightarrow> (\<forall>r\<in>set rows. \<not> P r)"
  by (auto simp: first_row_def find_None_iff)

lemma first_row_SomeD: "first_row P rows = Some r \<Longrightarrow> r \<in> set rows \<and> P r"
  by (auto simp: first_row_def find_Some_iff)

lemma first_row_append [table_simps]:
  "first_row P (xs @ ys) = (case first_row P xs of None \<Rightarrow> first_row P ys | Some r \<Rightarrow> Some r)"
  by (induction xs) (auto simp: first_row_def)

lemma first_row_Nil [simp]: "first_row P [] = None"
  by (simp add: first_row_def)

lemma first_row_Cons [simp]: "first_row P (x # xs) = (if P x then Some x else first_row P xs)"
  by (simp add: first_row_def)

text \<open>An update that keeps what the selection looks at commutes with the selection.\<close>

lemma first_row_upd_rows [table_simps]:
  "(\<And>r. P r \<Longrightarrow> S (f r) = S r) \<Longrightarrow>
   first_row S (upd_rows P f rows) = map_option (\<lambda>r. if P r then f r else r) (first_row S rows)"
  by (induction rows) (auto simp: upd_rows_def)

lemma rowcount_Nil [simp]: "rowcount P [] = 0"
  by (simp add: rowcount_def)

lemma rowcount_Cons [simp]: "rowcount P (x # xs) = (if P x then 1 else 0) + rowcount P xs"
  by (simp add: rowcount_def)

lemma rowcount_append [table_simps]: "rowcount P (xs @ ys) = rowcount P xs + rowcount P ys"
  by (simp add: rowcount_def)

lemma rowcount_upd_rows_same [table_simps]:
  "(\<And>r. P r \<Longrightarrow> S (f r) = S r) \<Longrightarrow> rowcount S (upd_rows P f rows) = rowcount S rows"
  by (induction rows) (auto simp: upd_rows_def)

lemma rowcount_upd_rows_le [table_simps]:
  "(\<And>r. P r \<Longrightarrow> S (f r) \<Longrightarrow> S r) \<Longrightarrow> rowcount S (upd_rows P f rows) \<le> rowcount S rows"
  by (induction rows) (auto simp: upd_rows_def)

text \<open>With a key that is unique over the table, an update by key touches at most one row.\<close>

lemma rowcount_key_le_1:
  "distinct (map k rows) \<Longrightarrow> (\<And>r. P r \<Longrightarrow> k r = x) \<Longrightarrow> rowcount P rows \<le> 1"
proof (induction rows)
  case (Cons r rows)
  show ?case
  proof (cases "P r")
    case True
    have "rowcount P rows = 0"
    proof (simp add: rowcount_0_iff, intro ballI notI)
      fix r' assume "r' \<in> set rows" and "P r'"
      with Cons.prems True have "k r' = k r" by simp
      with Cons.prems(1) \<open>r' \<in> set rows\<close> show False by (metis distinct.simps(2) image_eqI list.set_map list.simps(9))
    qed
    with True show ?thesis by simp
  next
    case False
    with Cons show ?thesis by simp
  qed
qed simp

lemma first_row_unique:
  "distinct (map k rows) \<Longrightarrow> r \<in> set rows \<Longrightarrow> first_row (\<lambda>q. k q = k r) rows = Some r"
  by (induction rows) (auto simp: image_iff)

lemma sum_list_upd_rows_add:
  "(\<And>r. P r \<Longrightarrow> v (f r) = v r + (d::int)) \<Longrightarrow>
   sum_list (map v (upd_rows P f rows)) = sum_list (map v rows) + int (rowcount P rows) * d"
  by (induction rows) (auto simp: upd_rows_def algebra_simps)

lemma map_filter_set: "set (List.map_filter f xs) = {y. \<exists>x\<in>set xs. f x = Some y}"
  by (induction xs) (auto simp: List.map_filter_simps split: option.splits)

end
