(* ===== verification/Import_Db.thy ===== *)
theory Import_Db
  imports Prelude
begin

text \<open>
  The tables of the chat-history import (server/models.py) and the pieces every operation of
  the import repository (server/import_repository.py) shares: status sets, errors, lease
  conditions, lease windows, the lease-fenced insert and the cascade a job deletion performs.

  A table is a list of rows. The database is the record of the six tables. A repository
  operation is one transaction: it returns \<open>Inr\<close> of the committed database and its result, or
  \<open>Inl\<close> of the exception, after which the transaction is rolled back and the caller still has
  the database it started from. Clock readings and fresh UUIDs are arguments. Foreign keys are
  enforced, as PostgreSQL (the deployed database, server/db.py) does.
\<close>

section \<open>Statuses\<close>

datatype job_status =
    JUploading | JQueued | JDiscovering | JParsing | JImporting | JSyncingGraph | JCancelling
  | JCancelled | JCompleted | JCompletedWithErrors | JFailed

text \<open>
  Chunks, manifests, memory hashes and graph items share their status words: the repository's
  status sets are tested against all of them.
\<close>

datatype item_status =
    IPending | IProcessing | IRetrying | IClaimed | IReleased | IRetryable | ISplit | ISkipped
  | ICancelled | IFailed | ICompleted | IImported | ISucceeded | ISynced

datatype graph_status =
    GPending | GSyncing | GCompleted | GSynced | GDisabled | GSkipped | GFailed

definition terminal_chunk_statuses :: "item_status list" where
  "terminal_chunk_statuses = [ICompleted, IImported, ISucceeded, ISplit]"

definition succeeded_manifest_statuses :: "item_status list" where
  "succeeded_manifest_statuses = [ICompleted, IImported, ISucceeded]"

definition reclaimable_statuses :: "item_status list" where
  "reclaimable_statuses = [IFailed, IReleased, IRetryable]"

definition default_recoverable_job_statuses :: "job_status list" where
  "default_recoverable_job_statuses =
    [JUploading, JQueued, JDiscovering, JParsing, JImporting, JSyncingGraph, JCancelling]"

definition leaseable_job_statuses :: "job_status list" where
  "leaseable_job_statuses = filter (\<lambda>st. st \<noteq> JCancelling) default_recoverable_job_statuses"

definition active_job_statuses :: "job_status list" where
  "active_job_statuses = default_recoverable_job_statuses"

definition discardable_job_statuses :: "job_status list" where
  "discardable_job_statuses = [JCancelled, JCompleted, JCompletedWithErrors, JFailed]"

fun job_status_text :: "job_status \<Rightarrow> pystr" where
  "job_status_text JUploading = U ''uploading''"
| "job_status_text JQueued = U ''queued''"
| "job_status_text JDiscovering = U ''discovering''"
| "job_status_text JParsing = U ''parsing''"
| "job_status_text JImporting = U ''importing''"
| "job_status_text JSyncingGraph = U ''syncing_graph''"
| "job_status_text JCancelling = U ''cancelling''"
| "job_status_text JCancelled = U ''cancelled''"
| "job_status_text JCompleted = U ''completed''"
| "job_status_text JCompletedWithErrors = U ''completed_with_errors''"
| "job_status_text JFailed = U ''failed''"

definition workspace_discard_phase :: pystr where
  "workspace_discard_phase = U ''discarding''"

lemmas status_set_defs =
  terminal_chunk_statuses_def succeeded_manifest_statuses_def reclaimable_statuses_def
  default_recoverable_job_statuses_def leaseable_job_statuses_def active_job_statuses_def
  discardable_job_statuses_def

text \<open>A job is active or terminal, never both, and every status is one of them.\<close>

lemma active_iff_not_discardable:
  "st \<in> set active_job_statuses \<longleftrightarrow> st \<notin> set discardable_job_statuses"
  by (cases st) (simp_all add: status_set_defs)

lemma leaseable_active: "st \<in> set leaseable_job_statuses \<Longrightarrow> st \<in> set active_job_statuses"
  by (simp add: leaseable_job_statuses_def active_job_statuses_def)

section \<open>Rows\<close>

text \<open>The integer columns of a job, which \<open>increment_job\<close> treats uniformly.\<close>

datatype job_counter =
    WorkspaceBytes | TotalInputFiles | DiscoveredFiles | ParsedFiles | SkippedFiles
  | TotalConversations | TotalChunks | ProcessedChunks | ImportedChunks | SkippedChunks
  | FailedChunks | MemoriesCreated | ErrorCount | WorkerCount | CurrentConcurrency
  | ActiveWorkers | PeakWorkers | RetryCount | RetriedChunks | SplitCount | SplitChunks
  | TotalTokens | GraphAttempts | GraphPendingItems | GraphSyncedItems | GraphFailedItems

record job_row =
  j_id :: pystr
  j_project_id :: pystr
  j_status :: job_status
  j_phase :: pystr
  j_input_files :: "pystr list"
  j_entities :: "(pystr \<times> pystr) list"
  j_options :: json
  j_storage_quota_snapshot :: json
  j_workspace :: "pystr option"
  j_source_retry_required :: bool
  j_source_app :: pystr
  j_infer :: bool
  j_cancel_requested :: bool
  j_lease_owner :: "pystr option"
  j_lease_expires_at :: "instant option"
  j_count :: "job_counter \<Rightarrow> int"
  j_graph_status :: graph_status
  j_graph_error :: "pystr option"
  j_phase_durations :: "(pystr \<times> rat) list"
  j_current_file :: "pystr option"
  j_current_conversation :: "pystr option"
  j_started_at :: "instant option"
  j_finished_at :: "instant option"
  j_created_at :: instant
  j_updated_at :: instant

record chunk_row =
  c_id :: pystr
  c_job_id :: pystr
  c_project_id :: pystr
  c_import_key :: pystr
  c_conversation_id :: pystr
  c_status :: item_status
  c_attempt :: int
  c_retry_count :: int
  c_chunk_index :: int
  c_chunk_count :: int
  c_source_message_indices :: "int list"
  c_core_source_message_indices :: "int list"
  c_source_message_start :: "int option"
  c_source_message_end :: "int option"
  c_source_turn_start :: "int option"
  c_source_turn_end :: "int option"
  c_parent_import_key :: "pystr option"
  c_split_depth :: int
  c_overlap_turns :: int
  c_source_path :: "pystr option"
  c_conversation_title :: "pystr option"
  c_token_count :: int
  c_input_tokens :: int
  c_output_tokens :: int
  c_timings :: json
  c_model_used :: "pystr option"
  c_fallback_used :: bool
  c_fallback_reason :: "pystr option"
  c_audit_result :: "pystr option"
  c_audit_metadata :: json
  c_claimed_memory_hashes :: "pystr list"
  c_memory_ids :: "pystr list"
  c_error_type :: "pystr option"
  c_error_message :: "pystr option"
  c_duration_seconds :: rat
  c_next_retry_at :: "instant option"
  c_started_at :: "instant option"
  c_finished_at :: "instant option"
  c_created_at :: instant
  c_updated_at :: instant

record manifest_row =
  m_id :: pystr
  m_project_id :: pystr
  m_import_key :: pystr
  m_job_id :: "pystr option"
  m_chunk_id :: "pystr option"
  m_status :: item_status
  m_attempts :: int
  m_memory_ids :: "pystr list"
  m_last_error :: "pystr option"
  m_claimed_at :: instant
  m_completed_at :: "instant option"
  m_created_at :: instant
  m_updated_at :: instant

text \<open>The payload of a graph item, in the form \<open>_graph_payload\<close> gives it.\<close>

record graph_payload =
  gp_memory_id :: pystr
  gp_text :: json
  gp_entities :: "(pystr \<times> json) list"
  gp_metadata :: "(pystr \<times> json) list"

record graph_item_row =
  g_id :: pystr
  g_job_id :: pystr
  g_chunk_id :: pystr
  g_item_key :: pystr
  g_memory_id :: pystr
  g_payload :: graph_payload
  g_status :: item_status
  g_attempts :: int
  g_last_error :: "pystr option"
  g_next_retry_at :: "instant option"
  g_synced_at :: "instant option"
  g_created_at :: instant
  g_updated_at :: instant

record error_row =
  e_id :: pystr
  e_job_id :: pystr
  e_chunk_id :: "pystr option"
  e_source :: pystr
  e_message :: pystr
  e_phase :: "pystr option"
  e_error_type :: "pystr option"
  e_error_code :: "pystr option"
  e_attempt :: "int option"
  e_retryable :: "bool option"
  e_details :: json
  e_created_at :: instant

record hash_row =
  h_id :: pystr
  h_project_id :: pystr
  h_conversation_id :: pystr
  h_memory_hash :: pystr
  h_job_id :: "pystr option"
  h_chunk_id :: "pystr option"
  h_status :: item_status
  h_memory_id :: "pystr option"
  h_claimed_at :: instant
  h_succeeded_at :: "instant option"
  h_created_at :: instant
  h_updated_at :: instant

record import_db =
  jobs :: "job_row list"
  chunks :: "chunk_row list"
  manifests :: "manifest_row list"
  graph_items :: "graph_item_row list"
  job_errors :: "error_row list"
  hashes :: "hash_row list"

section \<open>Errors\<close>

datatype repo_error =
    ValueError pystr
  | ImportLeaseLost "pystr option" pystr
  | ImportActiveJobLimitExceeded pystr int int
  | ImportWorkspaceBudgetExceeded int int int
  | IntegrityError

type_synonym 'a repo_result = "repo_error + import_db \<times> 'a"

section \<open>Uniqueness and foreign keys\<close>

definition job_exists :: "import_db \<Rightarrow> pystr \<Rightarrow> bool" where
  "job_exists d jid = (\<exists>r\<in>set (jobs d). j_id r = jid)"

definition chunk_exists :: "import_db \<Rightarrow> pystr \<Rightarrow> bool" where
  "chunk_exists d cid = (\<exists>r\<in>set (chunks d). c_id r = cid)"

definition chunk_key :: "chunk_row \<Rightarrow> pystr \<times> pystr" where
  "chunk_key r = (c_job_id r, c_import_key r)"

definition manifest_key :: "manifest_row \<Rightarrow> pystr \<times> pystr" where
  "manifest_key r = (m_project_id r, m_import_key r)"

definition graph_key :: "graph_item_row \<Rightarrow> pystr \<times> pystr \<times> pystr" where
  "graph_key r = (g_job_id r, g_chunk_id r, g_item_key r)"

definition hash_key :: "hash_row \<Rightarrow> pystr \<times> pystr \<times> pystr" where
  "hash_key r = (h_project_id r, h_conversation_id r, h_memory_hash r)"

definition opt_ref :: "(pystr \<Rightarrow> bool) \<Rightarrow> pystr option \<Rightarrow> bool" where
  "opt_ref ex r = (case r of None \<Rightarrow> True | Some x \<Rightarrow> ex x)"

text \<open>When an insert violates a primary key, a unique constraint or a foreign key.\<close>

definition job_conflict :: "import_db \<Rightarrow> job_row \<Rightarrow> bool" where
  "job_conflict d r = job_exists d (j_id r)"

definition chunk_conflict :: "import_db \<Rightarrow> chunk_row \<Rightarrow> bool" where
  "chunk_conflict d r =
    (\<not> job_exists d (c_job_id r) \<or> c_id r \<in> set (map c_id (chunks d))
     \<or> chunk_key r \<in> set (map chunk_key (chunks d)))"

definition manifest_conflict :: "import_db \<Rightarrow> manifest_row \<Rightarrow> bool" where
  "manifest_conflict d r =
    (\<not> opt_ref (job_exists d) (m_job_id r) \<or> \<not> opt_ref (chunk_exists d) (m_chunk_id r)
     \<or> m_id r \<in> set (map m_id (manifests d)) \<or> manifest_key r \<in> set (map manifest_key (manifests d)))"

definition graph_conflict :: "import_db \<Rightarrow> graph_item_row \<Rightarrow> bool" where
  "graph_conflict d r =
    (\<not> job_exists d (g_job_id r) \<or> \<not> chunk_exists d (g_chunk_id r)
     \<or> g_id r \<in> set (map g_id (graph_items d)) \<or> graph_key r \<in> set (map graph_key (graph_items d)))"

definition error_conflict :: "import_db \<Rightarrow> error_row \<Rightarrow> bool" where
  "error_conflict d r =
    (\<not> job_exists d (e_job_id r) \<or> \<not> opt_ref (chunk_exists d) (e_chunk_id r)
     \<or> e_id r \<in> set (map e_id (job_errors d)))"

definition hash_conflict :: "import_db \<Rightarrow> hash_row \<Rightarrow> bool" where
  "hash_conflict d r =
    (\<not> opt_ref (job_exists d) (h_job_id r) \<or> \<not> opt_ref (chunk_exists d) (h_chunk_id r)
     \<or> h_id r \<in> set (map h_id (hashes d)) \<or> hash_key r \<in> set (map hash_key (hashes d)))"

lemmas conflict_defs =
  job_conflict_def chunk_conflict_def manifest_conflict_def graph_conflict_def
  error_conflict_def hash_conflict_def

section \<open>Leases\<close>

definition normalize_lease_owner :: "pystr option \<Rightarrow> repo_error + pystr option" where
  "normalize_lease_owner w =
    (case w of
       None \<Rightarrow> Inr None
     | Some x \<Rightarrow>
         let owner = py_strip x
         in if owner = [] then Inl (ValueError (U ''lease_owner must be non-empty when provided''))
            else Inr (Some owner))"

text \<open>\<open>_active_lease_conditions\<close>: the row of the job, held by the owner, not yet expired.\<close>

definition active_lease_conditions :: "pystr \<Rightarrow> pystr \<Rightarrow> instant \<Rightarrow> job_row \<Rightarrow> bool" where
  "active_lease_conditions jid owner now r =
    (j_id r = jid \<and> j_lease_owner r = Some owner \<and>
     (case j_lease_expires_at r of None \<Rightarrow> False | Some t \<Rightarrow> now < t))"

definition active_lease_exists :: "import_db \<Rightarrow> pystr \<Rightarrow> pystr \<Rightarrow> instant \<Rightarrow> bool" where
  "active_lease_exists d jid owner now = (\<exists>r\<in>set (jobs d). active_lease_conditions jid owner now r)"

definition assert_active_lease :: "import_db \<Rightarrow> pystr \<Rightarrow> pystr \<Rightarrow> instant \<Rightarrow> repo_error + unit" where
  "assert_active_lease d jid owner now =
    (if active_lease_exists d jid owner now then Inr () else Inl (ImportLeaseLost (Some jid) owner))"

definition coalesce_now :: "instant option \<Rightarrow> instant \<Rightarrow> instant" where
  "coalesce_now t clock = (case t of None \<Rightarrow> clock | Some x \<Rightarrow> x)"

definition assert_job_lease ::
  "import_db \<Rightarrow> pystr \<Rightarrow> pystr \<Rightarrow> instant option \<Rightarrow> instant \<Rightarrow> repo_error + unit" where
  "assert_job_lease d jid w tm clock =
    bind_err (normalize_lease_owner (Some w)) (\<lambda>ow.
      case ow of None \<Rightarrow> Inr ()
      | Some owner \<Rightarrow> assert_active_lease d jid owner (coalesce_now tm clock))"

text \<open>The disjunction with which several operations test that nobody holds a lease.\<close>

definition lease_free :: "job_row \<Rightarrow> instant \<Rightarrow> bool" where
  "lease_free r tm =
    (j_lease_owner r = None \<or> j_lease_expires_at r = None \<or>
     (case j_lease_expires_at r of None \<Rightarrow> False | Some t \<Rightarrow> t \<le> tm))"

definition lease_window :: "rat \<Rightarrow> instant option \<Rightarrow> instant \<Rightarrow> repo_error + instant \<times> instant" where
  "lease_window secs tm clock =
    (if secs \<le> 0 then Inl (ValueError (U ''lease_seconds must be positive''))
     else let acquired_at = coalesce_now tm clock
          in Inr (acquired_at, acquired_at + timedelta_us secs))"

text \<open>
  \<open>_insert_if_active_lease\<close>: the row comes from a \<open>SELECT\<close> that is empty unless the lease is
  active, so a lost lease is noticed before any constraint is.
\<close>

definition insert_if_active_lease ::
  "import_db \<Rightarrow> pystr \<Rightarrow> pystr \<Rightarrow> instant \<Rightarrow> bool \<Rightarrow> import_db \<Rightarrow> repo_error + import_db" where
  "insert_if_active_lease d jid owner now conflict inserted =
    (if \<not> active_lease_exists d jid owner now then Inl (ImportLeaseLost (Some jid) owner)
     else if conflict then Inl IntegrityError
     else Inr inserted)"

text \<open>An insert, fenced when there is an owner and plain (\<open>session.add\<close>) otherwise.\<close>

definition fenced_insert ::
  "import_db \<Rightarrow> pystr \<Rightarrow> pystr option \<Rightarrow> instant \<Rightarrow> bool \<Rightarrow> import_db \<Rightarrow> repo_error + import_db" where
  "fenced_insert d jid ow now conflict inserted =
    (case ow of
       None \<Rightarrow> if conflict then Inl IntegrityError else Inr inserted
     | Some owner \<Rightarrow> insert_if_active_lease d jid owner now conflict inserted)"

text \<open>The condition a fenced statement adds to its \<open>WHERE\<close>; it is absent without an owner.\<close>

definition fence :: "import_db \<Rightarrow> pystr \<Rightarrow> pystr option \<Rightarrow> instant \<Rightarrow> bool" where
  "fence d jid ow now = (case ow of None \<Rightarrow> True | Some owner \<Rightarrow> active_lease_exists d jid owner now)"

text \<open>\<open>if owner is not None and not result.rowcount: self._assert_active_lease(...)\<close>.\<close>

definition recheck ::
  "import_db \<Rightarrow> pystr \<Rightarrow> pystr option \<Rightarrow> instant \<Rightarrow> nat \<Rightarrow> repo_error + unit" where
  "recheck d jid ow now n =
    (case ow of None \<Rightarrow> Inr ()
     | Some owner \<Rightarrow> if n = 0 then assert_active_lease d jid owner now else Inr ())"

subsection \<open>Facts about leases\<close>

lemma active_lease_conditionsD:
  "active_lease_conditions jid owner now r \<Longrightarrow>
   j_id r = jid \<and> j_lease_owner r = Some owner \<and> (\<exists>t. j_lease_expires_at r = Some t \<and> now < t)"
  by (auto simp: active_lease_conditions_def split: option.splits)

lemma active_lease_not_free: "active_lease_conditions jid owner now r \<Longrightarrow> \<not> lease_free r now"
  by (auto simp: active_lease_conditions_def lease_free_def split: option.splits)

text \<open>A lease that has lapsed stays lapsed: the clock only moves forward.\<close>

lemma active_lease_antimono:
  "active_lease_exists d jid owner t' \<Longrightarrow> t \<le> t' \<Longrightarrow> active_lease_exists d jid owner t"
  by (fastforce simp: active_lease_exists_def active_lease_conditions_def split: option.splits)

text \<open>With unique job ids, two owners never hold the same job's lease at one instant.\<close>

lemma active_lease_owner_unique:
  assumes "distinct (map j_id (jobs d))"
    and "active_lease_exists d jid w t" and "active_lease_exists d jid w' t'"
  shows "w = w'"
proof -
  from assms(2,3) obtain r r' where
    r: "r \<in> set (jobs d)" "j_id r = jid" "j_lease_owner r = Some w" and
    r': "r' \<in> set (jobs d)" "j_id r' = jid" "j_lease_owner r' = Some w'"
    by (auto simp: active_lease_exists_def dest!: active_lease_conditionsD)
  from assms(1) r(1) r'(1) have "r = r'"
    by (metis distinct_map inj_onD r(2) r'(2))
  with r r' show ?thesis by simp
qed

lemma recheck_stale:
  "recheck d jid ow now n = Inr () \<Longrightarrow> \<not> fence d jid ow now \<Longrightarrow> n \<noteq> 0"
  by (auto simp: recheck_def fence_def assert_active_lease_def split: option.splits if_splits)

lemma lease_window_eq:
  "lease_window secs tm clock = Inr (a, e) \<longleftrightarrow>
   0 < secs \<and> a = coalesce_now tm clock \<and> e = a + timedelta_us secs"
  by (auto simp: lease_window_def Let_def)

section \<open>Deleting jobs\<close>

text \<open>
  \<open>DELETE\<close> of jobs with the foreign keys' actions: chunks, graph items and errors go with their
  job, graph items with their chunk; manifests, hashes and errors lose their reference to a
  deleted job or chunk.
\<close>

definition cut_ref :: "(pystr \<Rightarrow> bool) \<Rightarrow> pystr option \<Rightarrow> pystr option" where
  "cut_ref gone r = (case r of None \<Rightarrow> None | Some x \<Rightarrow> if gone x then None else Some x)"

definition delete_jobs :: "(job_row \<Rightarrow> bool) \<Rightarrow> import_db \<Rightarrow> import_db" where
  "delete_jobs P d =
    (let gone_job = (\<lambda>jid. jid \<in> set (map j_id (filter P (jobs d))));
         gone_chunk = (\<lambda>cid. cid \<in> set (map c_id (filter (\<lambda>c. gone_job (c_job_id c)) (chunks d))))
     in d\<lparr>jobs := filter (\<lambda>r. \<not> P r) (jobs d),
          chunks := filter (\<lambda>c. \<not> gone_job (c_job_id c)) (chunks d),
          manifests := map (\<lambda>m. m\<lparr>m_job_id := cut_ref gone_job (m_job_id m),
                                  m_chunk_id := cut_ref gone_chunk (m_chunk_id m)\<rparr>) (manifests d),
          graph_items := filter (\<lambda>g. \<not> gone_job (g_job_id g) \<and> \<not> gone_chunk (g_chunk_id g)) (graph_items d),
          job_errors := map (\<lambda>e. e\<lparr>e_chunk_id := cut_ref gone_chunk (e_chunk_id e)\<rparr>)
                         (filter (\<lambda>e. \<not> gone_job (e_job_id e)) (job_errors d)),
          hashes := map (\<lambda>h. h\<lparr>h_job_id := cut_ref gone_job (h_job_id h),
                               h_chunk_id := cut_ref gone_chunk (h_chunk_id h)\<rparr>) (hashes d)\<rparr>)"

section \<open>Integrity of a database\<close>

text \<open>
  The constraints of the schema: unique primary keys, unique keys, and references that resolve.
  Every operation of the repository keeps them (theory \<open>Import_Invariant\<close>).
\<close>

definition db_unique :: "import_db \<Rightarrow> bool" where
  "db_unique d \<longleftrightarrow>
    distinct (map j_id (jobs d)) \<and> distinct (map c_id (chunks d)) \<and> distinct (map chunk_key (chunks d)) \<and>
    distinct (map m_id (manifests d)) \<and> distinct (map manifest_key (manifests d)) \<and>
    distinct (map g_id (graph_items d)) \<and> distinct (map graph_key (graph_items d)) \<and>
    distinct (map e_id (job_errors d)) \<and>
    distinct (map h_id (hashes d)) \<and> distinct (map hash_key (hashes d))"

definition db_refs :: "import_db \<Rightarrow> bool" where
  "db_refs d \<longleftrightarrow>
    (\<forall>c\<in>set (chunks d). job_exists d (c_job_id c)) \<and>
    (\<forall>m\<in>set (manifests d). opt_ref (job_exists d) (m_job_id m) \<and> opt_ref (chunk_exists d) (m_chunk_id m)) \<and>
    (\<forall>g\<in>set (graph_items d). job_exists d (g_job_id g) \<and> chunk_exists d (g_chunk_id g)) \<and>
    (\<forall>e\<in>set (job_errors d). job_exists d (e_job_id e) \<and> opt_ref (chunk_exists d) (e_chunk_id e)) \<and>
    (\<forall>h\<in>set (hashes d). opt_ref (job_exists d) (h_job_id h) \<and> opt_ref (chunk_exists d) (h_chunk_id h))"

definition db_wf :: "import_db \<Rightarrow> bool" where
  "db_wf d \<longleftrightarrow> db_unique d \<and> db_refs d"

definition empty_db :: import_db where
  "empty_db = \<lparr>jobs = [], chunks = [], manifests = [], graph_items = [], job_errors = [], hashes = []\<rparr>"

lemma db_wf_empty: "db_wf empty_db"
  by (simp add: db_wf_def db_unique_def db_refs_def empty_db_def)

end
