(* ===== verification/Import_Jobs.thy ===== *)
theory Import_Jobs
  imports Import_Db "HOL-Library.List_Lexorder" "HOL-Library.Product_Lexorder"
begin

text \<open>
  The job half of the import repository (server/import_repository.py, class
  \<open>ImportRepository\<close>): creation under an active-job limit and a workspace budget, leases,
  retries, graph retries, workspace discards, cancellation, and the fenced updates of a job row.
  The laws of the lease protocol follow the operations.
\<close>

section \<open>Column assignments\<close>

text \<open>
  The keyword arguments \<open>**values\<close> of \<open>create_job\<close> and \<open>update_job\<close>, one constructor per column;
  a name that is no column (the code's \<open>TypeError\<close>) has no constructor.
\<close>

datatype job_col =
    JcId pystr | JcProjectId pystr | JcStatus job_status | JcPhase pystr
  | JcInputFiles "pystr list" | JcEntities "(pystr \<times> pystr) list" | JcOptions json
  | JcQuotaSnapshot json | JcWorkspace "pystr option" | JcSourceRetryRequired bool
  | JcSourceApp pystr | JcInfer bool | JcCancelRequested bool
  | JcLeaseOwner "pystr option" | JcLeaseExpiresAt "instant option"
  | JcCount job_counter int | JcGraphStatus graph_status | JcGraphError "pystr option"
  | JcPhaseDurations "(pystr \<times> rat) list" | JcCurrentFile "pystr option"
  | JcCurrentConversation "pystr option" | JcStartedAt "instant option"
  | JcFinishedAt "instant option" | JcCreatedAt instant | JcUpdatedAt instant

fun set_job_col :: "job_col \<Rightarrow> job_row \<Rightarrow> job_row" where
  "set_job_col (JcId x) r = r\<lparr>j_id := x\<rparr>"
| "set_job_col (JcProjectId x) r = r\<lparr>j_project_id := x\<rparr>"
| "set_job_col (JcStatus x) r = r\<lparr>j_status := x\<rparr>"
| "set_job_col (JcPhase x) r = r\<lparr>j_phase := x\<rparr>"
| "set_job_col (JcInputFiles x) r = r\<lparr>j_input_files := x\<rparr>"
| "set_job_col (JcEntities x) r = r\<lparr>j_entities := x\<rparr>"
| "set_job_col (JcOptions x) r = r\<lparr>j_options := x\<rparr>"
| "set_job_col (JcQuotaSnapshot x) r = r\<lparr>j_storage_quota_snapshot := x\<rparr>"
| "set_job_col (JcWorkspace x) r = r\<lparr>j_workspace := x\<rparr>"
| "set_job_col (JcSourceRetryRequired x) r = r\<lparr>j_source_retry_required := x\<rparr>"
| "set_job_col (JcSourceApp x) r = r\<lparr>j_source_app := x\<rparr>"
| "set_job_col (JcInfer x) r = r\<lparr>j_infer := x\<rparr>"
| "set_job_col (JcCancelRequested x) r = r\<lparr>j_cancel_requested := x\<rparr>"
| "set_job_col (JcLeaseOwner x) r = r\<lparr>j_lease_owner := x\<rparr>"
| "set_job_col (JcLeaseExpiresAt x) r = r\<lparr>j_lease_expires_at := x\<rparr>"
| "set_job_col (JcCount c x) r = r\<lparr>j_count := (j_count r)(c := x)\<rparr>"
| "set_job_col (JcGraphStatus x) r = r\<lparr>j_graph_status := x\<rparr>"
| "set_job_col (JcGraphError x) r = r\<lparr>j_graph_error := x\<rparr>"
| "set_job_col (JcPhaseDurations x) r = r\<lparr>j_phase_durations := x\<rparr>"
| "set_job_col (JcCurrentFile x) r = r\<lparr>j_current_file := x\<rparr>"
| "set_job_col (JcCurrentConversation x) r = r\<lparr>j_current_conversation := x\<rparr>"
| "set_job_col (JcStartedAt x) r = r\<lparr>j_started_at := x\<rparr>"
| "set_job_col (JcFinishedAt x) r = r\<lparr>j_finished_at := x\<rparr>"
| "set_job_col (JcCreatedAt x) r = r\<lparr>j_created_at := x\<rparr>"
| "set_job_col (JcUpdatedAt x) r = r\<lparr>j_updated_at := x\<rparr>"

definition set_job_cols :: "job_col list \<Rightarrow> job_row \<Rightarrow> job_row" where
  "set_job_cols cols r = fold set_job_col cols r"

text \<open>\<open>_column_values(MemoryImportJob, values, exclude={"id", "created_at"})\<close>.\<close>

definition mutable_job_cols :: "job_col list \<Rightarrow> job_col list" where
  "mutable_job_cols cols =
    filter (\<lambda>c. case c of JcId _ \<Rightarrow> False | JcCreatedAt _ \<Rightarrow> False | _ \<Rightarrow> True) cols"

fun given_project_id :: "job_col list \<Rightarrow> pystr option" where
  "given_project_id [] = None"
| "given_project_id (JcProjectId p # cs) = Some p"
| "given_project_id (_ # cs) = given_project_id cs"

fun given_status :: "job_col list \<Rightarrow> job_status option" where
  "given_status [] = None"
| "given_status (JcStatus st # cs) = Some st"
| "given_status (_ # cs) = given_status cs"

fun given_input_files :: "job_col list \<Rightarrow> pystr list option" where
  "given_input_files [] = None"
| "given_input_files (JcInputFiles fs # cs) = Some fs"
| "given_input_files (_ # cs) = given_input_files cs"

text \<open>A row of the column defaults of \<open>MemoryImportJob\<close>.\<close>

definition default_job_row :: "instant \<Rightarrow> job_row" where
  "default_job_row now =
    \<lparr>j_id = [], j_project_id = [], j_status = JQueued, j_phase = U ''queued'', j_input_files = [],
     j_entities = [], j_options = JObj [], j_storage_quota_snapshot = JObj [], j_workspace = None,
     j_source_retry_required = True, j_source_app = U ''auto'', j_infer = True,
     j_cancel_requested = False, j_lease_owner = None, j_lease_expires_at = None,
     j_count = (\<lambda>_. 0), j_graph_status = GPending, j_graph_error = None, j_phase_durations = [],
     j_current_file = None, j_current_conversation = None, j_started_at = None,
     j_finished_at = None, j_created_at = now, j_updated_at = now\<rparr>"

text \<open>
  \<open>_prepare_job_values\<close>: the \<open>setdefault\<close> calls put a value in front of the caller's, which
  wins when it names the column.
\<close>

definition prepare_job_values :: "job_col list \<Rightarrow> pystr \<Rightarrow> instant \<Rightarrow> job_col list" where
  "prepare_job_values cols new_id now =
    (let st = (case given_status cols of None \<Rightarrow> JQueued | Some x \<Rightarrow> x)
     in [JcId new_id, JcStatus st, JcPhase (job_status_text st), JcCreatedAt now, JcUpdatedAt now]
        @ (case given_input_files cols of None \<Rightarrow> []
           | Some fs \<Rightarrow> [JcCount TotalInputFiles (int (length fs))])
        @ cols)"

section \<open>Creating jobs\<close>

definition insert_job :: "import_db \<Rightarrow> job_col list \<Rightarrow> instant \<Rightarrow> job_row repo_result" where
  "insert_job d cols now =
    (let r = set_job_cols cols (default_job_row now)
     in if given_project_id cols = None \<or> job_conflict d r then Inl IntegrityError
        else Inr (d\<lparr>jobs := jobs d @ [r]\<rparr>, r))"

definition create_job :: "import_db \<Rightarrow> job_col list \<Rightarrow> pystr \<Rightarrow> instant \<Rightarrow> job_row repo_result" where
  "create_job d cols new_id now = insert_job d (prepare_job_values cols new_id now) now"

definition is_active_of :: "pystr \<Rightarrow> job_row \<Rightarrow> bool" where
  "is_active_of pid r = (j_project_id r = pid \<and> j_status r \<in> set active_job_statuses)"

definition count_active_jobs :: "import_db \<Rightarrow> pystr \<Rightarrow> int" where
  "count_active_jobs d pid = int (rowcount (is_active_of pid) (jobs d))"

definition used_workspace_bytes :: "import_db \<Rightarrow> int" where
  "used_workspace_bytes d = sum_list (map (\<lambda>r. j_count r WorkspaceBytes) (jobs d))"

definition create_job_with_active_limit ::
  "import_db \<Rightarrow> int \<Rightarrow> int option \<Rightarrow> job_col list \<Rightarrow> pystr \<Rightarrow> instant \<Rightarrow> job_row repo_result" where
  "create_job_with_active_limit d limit max_retained cols new_id now =
    (if limit \<le> 0 then Inl (ValueError (U ''max_active_jobs must be positive''))
     else
       let vals = prepare_job_values cols new_id now;
           pid = (case given_project_id vals of None \<Rightarrow> [] | Some p \<Rightarrow> py_strip p);
           active = count_active_jobs d pid
       in if pid = [] then Inl (ValueError (U ''project_id is required''))
          else if limit \<le> active then Inl (ImportActiveJobLimitExceeded pid limit active)
          else case max_retained of
            None \<Rightarrow> insert_job d vals now
          | Some retained_limit \<Rightarrow>
              if retained_limit \<le> 0 then Inl (ValueError (U ''max_retained_bytes must be positive''))
              else let used = used_workspace_bytes d
                in if retained_limit \<le> used then Inl (ImportWorkspaceBudgetExceeded retained_limit used 0)
                   else insert_job d vals now)"

section \<open>Reading jobs\<close>

definition find_job :: "import_db \<Rightarrow> pystr \<Rightarrow> job_row option" where
  "find_job d jid = first_row (\<lambda>r. j_id r = jid) (jobs d)"

definition get_job :: "import_db \<Rightarrow> pystr \<Rightarrow> pystr option \<Rightarrow> job_row option" where
  "get_job d jid pid =
    first_row (\<lambda>r. j_id r = jid \<and> (case pid of None \<Rightarrow> True | Some p \<Rightarrow> j_project_id r = p)) (jobs d)"

definition job_order :: "job_row \<Rightarrow> instant \<times> pystr" where
  "job_order r = (j_created_at r, j_id r)"

definition list_jobs :: "import_db \<Rightarrow> pystr \<Rightarrow> int \<Rightarrow> job_row list" where
  "list_jobs d pid limit =
    take (nat (max 0 limit)) (rev (sort_key job_order (filter (\<lambda>r. j_project_id r = pid) (jobs d))))"

definition list_jobs_with_workspaces :: "import_db \<Rightarrow> job_row list" where
  "list_jobs_with_workspaces d = sort_key job_order (filter (\<lambda>r. j_workspace r \<noteq> None) (jobs d))"

definition list_recoverable_jobs ::
  "import_db \<Rightarrow> job_status list option \<Rightarrow> instant option \<Rightarrow> instant \<Rightarrow> job_row list" where
  "list_recoverable_jobs d sts tm clock =
    (let status_values = (case sts of None \<Rightarrow> default_recoverable_job_statuses | Some xs \<Rightarrow> dedup xs);
         available_at = coalesce_now tm clock
     in if status_values = [] then []
        else sort_key job_order
               (filter (\<lambda>r. j_status r \<in> set status_values \<and> lease_free r available_at) (jobs d)))"

section \<open>Leases, retries, discards, cancellation\<close>

text \<open>An \<open>UPDATE\<close> of jobs followed by commit and the \<open>SELECT\<close> of the row; \<open>None\<close> when no row matched.\<close>

definition update_and_fetch ::
  "import_db \<Rightarrow> pystr \<Rightarrow> (job_row \<Rightarrow> bool) \<Rightarrow> (job_row \<Rightarrow> job_row) \<Rightarrow> import_db \<times> job_row option" where
  "update_and_fetch d jid P f =
    (if rowcount P (jobs d) = 0 then (d, None)
     else let d' = d\<lparr>jobs := upd_rows P f (jobs d)\<rparr> in (d', find_job d' jid))"

definition acquire_job_lease ::
  "import_db \<Rightarrow> pystr \<Rightarrow> pystr \<Rightarrow> rat \<Rightarrow> instant option \<Rightarrow> instant \<Rightarrow> instant \<Rightarrow> bool repo_result" where
  "acquire_job_lease d jid w secs tm clock touched =
    (let owner = py_strip w
     in if owner = [] then Inl (ValueError (U ''lease_owner is required''))
        else bind_err (lease_window secs tm clock) (\<lambda>(acquired_at, expires_at).
          let P = (\<lambda>r. j_id r = jid \<and> j_status r \<in> set leaseable_job_statuses
                       \<and> \<not> j_cancel_requested r \<and> lease_free r acquired_at);
              f = (\<lambda>r. r\<lparr>j_lease_owner := Some owner, j_lease_expires_at := Some expires_at,
                         j_updated_at := touched\<rparr>)
          in Inr (d\<lparr>jobs := upd_rows P f (jobs d)\<rparr>, rowcount P (jobs d) \<noteq> 0)))"

definition renew_job_lease ::
  "import_db \<Rightarrow> pystr \<Rightarrow> pystr \<Rightarrow> rat \<Rightarrow> instant option \<Rightarrow> instant \<Rightarrow> bool repo_result" where
  "renew_job_lease d jid w secs tm clock =
    (let owner = py_strip w
     in if owner = [] then Inl (ValueError (U ''lease_owner is required''))
        else bind_err (lease_window secs tm clock) (\<lambda>(renewed_at, expires_at).
          let P = active_lease_conditions jid owner renewed_at;
              f = (\<lambda>r. r\<lparr>j_lease_expires_at := Some expires_at, j_updated_at := renewed_at\<rparr>)
          in Inr (d\<lparr>jobs := upd_rows P f (jobs d)\<rparr>, rowcount P (jobs d) \<noteq> 0)))"

definition release_job_lease :: "import_db \<Rightarrow> pystr \<Rightarrow> pystr \<Rightarrow> instant \<Rightarrow> bool repo_result" where
  "release_job_lease d jid w touched =
    (let owner = py_strip w
     in if owner = [] then Inl (ValueError (U ''lease_owner is required''))
        else
          let P = (\<lambda>r. j_id r = jid \<and> j_lease_owner r = Some owner);
              f = (\<lambda>r. r\<lparr>j_lease_owner := None, j_lease_expires_at := None, j_updated_at := touched\<rparr>)
          in Inr (d\<lparr>jobs := upd_rows P f (jobs d)\<rparr>, rowcount P (jobs d) \<noteq> 0))"

definition graph_retry_eligible :: "pystr \<Rightarrow> pystr \<Rightarrow> job_row \<Rightarrow> bool" where
  "graph_retry_eligible jid pid r =
    (j_id r = jid \<and> j_project_id r = pid \<and> j_status r \<in> {JCompleted, JCompletedWithErrors} \<and>
     j_graph_status r \<in> {GFailed, GPending, GDisabled} \<and> j_phase r \<noteq> workspace_discard_phase)"

definition activate_graph_retry ::
  "import_db \<Rightarrow> pystr \<Rightarrow> pystr \<Rightarrow> pystr \<Rightarrow> rat \<Rightarrow> int \<Rightarrow> instant option \<Rightarrow> instant \<Rightarrow> job_row option repo_result" where
  "activate_graph_retry d jid pid w secs limit tm clock =
    bind_err (normalize_lease_owner (Some w)) (\<lambda>ow.
      if limit \<le> 0 then Inl (ValueError (U ''max_active_jobs must be positive''))
      else bind_err (lease_window secs tm clock) (\<lambda>(activated_at, expires_at).
        let active = count_active_jobs d pid;
            f = (\<lambda>r. r\<lparr>j_status := JSyncingGraph, j_phase := U ''graph_sync'', j_graph_status := GSyncing,
                       j_finished_at := None, j_lease_owner := ow,
                       j_lease_expires_at := Some expires_at, j_updated_at := activated_at\<rparr>)
        in if rowcount (graph_retry_eligible jid pid) (jobs d) = 0 then Inr (d, None)
           else if limit \<le> active then Inl (ImportActiveJobLimitExceeded pid limit active)
           else Inr (update_and_fetch d jid (graph_retry_eligible jid pid) f)))"

definition reserve_workspace_bytes ::
  "import_db \<Rightarrow> pystr \<Rightarrow> pystr \<Rightarrow> int \<Rightarrow> int \<Rightarrow> rat \<Rightarrow> instant option \<Rightarrow> instant \<Rightarrow> (int \<times> int) repo_result" where
  "reserve_workspace_bytes d jid w requested limit secs tm clock =
    (let owner = py_strip w
     in if owner = [] then Inl (ValueError (U ''lease_owner is required''))
        else if requested < 0 then Inl (ValueError (U ''additional_bytes cannot be negative''))
        else if limit \<le> 0 then Inl (ValueError (U ''max_retained_bytes must be positive''))
        else bind_err (lease_window secs tm clock) (\<lambda>(reserved_at, expires_at).
          bind_err (assert_active_lease d jid owner reserved_at) (\<lambda>_.
            let used = used_workspace_bytes d;
                P = active_lease_conditions jid owner reserved_at;
                f = (\<lambda>r. r\<lparr>j_count := (j_count r)(WorkspaceBytes := j_count r WorkspaceBytes + requested),
                           j_lease_expires_at := Some expires_at, j_updated_at := reserved_at\<rparr>);
                d' = d\<lparr>jobs := upd_rows P f (jobs d)\<rparr>
            in if used + requested > limit then Inl (ImportWorkspaceBudgetExceeded limit used requested)
               else if rowcount P (jobs d) = 0 then Inl (ImportLeaseLost (Some jid) owner)
               else Inr (d', used + requested,
                         case find_job d' jid of None \<Rightarrow> 0 | Some r \<Rightarrow> j_count r WorkspaceBytes))))"

definition delete_uploading_job :: "import_db \<Rightarrow> pystr \<Rightarrow> pystr \<Rightarrow> instant \<Rightarrow> bool repo_result" where
  "delete_uploading_job d jid w now =
    bind_err (normalize_lease_owner (Some w)) (\<lambda>ow.
      let P = (\<lambda>r. j_status r = JUploading \<and> (case ow of None \<Rightarrow> False
                    | Some owner \<Rightarrow> active_lease_conditions jid owner now r))
      in Inr (delete_jobs P d, rowcount P (jobs d) \<noteq> 0))"

definition reconcile_workspace_bytes ::
  "import_db \<Rightarrow> pystr \<Rightarrow> int \<Rightarrow> instant option \<Rightarrow> instant \<Rightarrow> bool repo_result" where
  "reconcile_workspace_bytes d jid bytes tm clock =
    (if bytes < 0 then Inl (ValueError (U ''workspace_bytes cannot be negative''))
     else
       let checked_at = coalesce_now tm clock;
           P = (\<lambda>r. j_id r = jid \<and> lease_free r checked_at);
           f = (\<lambda>r. r\<lparr>j_count := (j_count r)(WorkspaceBytes := bytes), j_updated_at := checked_at\<rparr>)
       in Inr (d\<lparr>jobs := upd_rows P f (jobs d)\<rparr>, rowcount P (jobs d) \<noteq> 0))"

text \<open>The counters a retry starts again from zero.\<close>

definition retry_reset_counters :: "job_counter list" where
  "retry_reset_counters =
    [ActiveWorkers, DiscoveredFiles, ParsedFiles, SkippedFiles, TotalConversations, TotalChunks, TotalTokens]"

definition retry_job_row :: "pystr \<Rightarrow> instant \<Rightarrow> instant \<Rightarrow> job_row \<Rightarrow> job_row" where
  "retry_job_row owner expires_at acquired_at r =
    r\<lparr>j_status := JQueued, j_phase := U ''queued'', j_cancel_requested := False, j_finished_at := None,
      j_graph_error := None,
      j_count := (\<lambda>c. if c \<in> set retry_reset_counters then 0 else j_count r c),
      j_current_file := None, j_current_conversation := None,
      j_lease_owner := Some owner, j_lease_expires_at := Some expires_at, j_updated_at := acquired_at\<rparr>"

definition retry_eligible :: "pystr \<Rightarrow> pystr \<Rightarrow> job_status list \<Rightarrow> job_row \<Rightarrow> bool" where
  "retry_eligible jid pid sts r =
    (j_id r = jid \<and> j_project_id r = pid \<and> j_status r \<in> set sts \<and> j_phase r \<noteq> workspace_discard_phase)"

definition acquire_job_retry_lease ::
  "import_db \<Rightarrow> pystr \<Rightarrow> pystr \<Rightarrow> pystr \<Rightarrow> rat \<Rightarrow> job_status list \<Rightarrow> int option \<Rightarrow> instant option \<Rightarrow> instant
   \<Rightarrow> job_row option repo_result" where
  "acquire_job_retry_lease d jid pid w secs allowed max_active tm clock =
    (let owner = py_strip w; sts = dedup allowed
     in if owner = [] then Inl (ValueError (U ''lease_owner is required''))
        else if sts = [] then Inr (d, None)
        else bind_err (lease_window secs tm clock) (\<lambda>(acquired_at, expires_at).
          let go = update_and_fetch d jid (retry_eligible jid pid sts) (retry_job_row owner expires_at acquired_at)
          in case max_active of
               None \<Rightarrow> Inr go
             | Some limit \<Rightarrow>
                 if limit \<le> 0 then Inl (ValueError (U ''max_active_jobs must be positive''))
                 else if rowcount (retry_eligible jid pid sts) (jobs d) = 0 then Inr (d, None)
                 else if limit \<le> count_active_jobs d pid
                   then Inl (ImportActiveJobLimitExceeded pid limit (count_active_jobs d pid))
                 else Inr go))"

definition acquire_job_workspace_discard_lease ::
  "import_db \<Rightarrow> pystr \<Rightarrow> pystr \<Rightarrow> pystr \<Rightarrow> rat \<Rightarrow> job_status list \<Rightarrow> instant option \<Rightarrow> instant
   \<Rightarrow> job_row option repo_result" where
  "acquire_job_workspace_discard_lease d jid pid w secs allowed tm clock =
    bind_err (normalize_lease_owner (Some w)) (\<lambda>ow.
      let sts = dedup allowed
      in if sts = [] then Inr (d, None)
         else bind_err (lease_window secs tm clock) (\<lambda>(acquired_at, expires_at).
           Inr (update_and_fetch d jid
             (\<lambda>r. j_id r = jid \<and> j_project_id r = pid \<and> j_status r \<in> set sts \<and> j_workspace r \<noteq> None
                  \<and> (j_phase r \<noteq> workspace_discard_phase \<or> lease_free r acquired_at))
             (\<lambda>r. r\<lparr>j_phase := workspace_discard_phase, j_lease_owner := ow,
                    j_lease_expires_at := Some expires_at, j_updated_at := acquired_at\<rparr>))))"

definition terminal_phase :: "job_status \<Rightarrow> pystr" where
  "terminal_phase st = (if st \<in> {JCompleted, JCompletedWithErrors} then U ''completed'' else job_status_text st)"

definition discard_claimed :: "pystr \<Rightarrow> pystr option \<Rightarrow> job_row \<Rightarrow> bool" where
  "discard_claimed jid ow r =
    (j_id r = jid \<and> j_status r \<in> set discardable_job_statuses \<and>
     j_phase r = workspace_discard_phase \<and> j_lease_owner r = ow)"

text \<open>The two ways a discard claim ends: the workspace is gone, or the claim is given back.\<close>

definition end_discard ::
  "import_db \<Rightarrow> pystr \<Rightarrow> pystr \<Rightarrow> (job_row \<Rightarrow> job_row) \<Rightarrow> job_row repo_result" where
  "end_discard d jid w f =
    bind_err (normalize_lease_owner (Some w)) (\<lambda>ow.
      case first_row (discard_claimed jid ow) (jobs d) of
        None \<Rightarrow> Inl (ImportLeaseLost (Some jid) (py_strip w))
      | Some row \<Rightarrow> Inr (d\<lparr>jobs := upd_rows (\<lambda>r. j_id r = j_id row) f (jobs d)\<rparr>, f row))"

definition complete_job_workspace_discard ::
  "import_db \<Rightarrow> pystr \<Rightarrow> pystr \<Rightarrow> instant \<Rightarrow> job_row repo_result" where
  "complete_job_workspace_discard d jid w now =
    end_discard d jid w (\<lambda>r. r\<lparr>j_phase := terminal_phase (j_status r), j_workspace := None,
      j_count := (j_count r)(WorkspaceBytes := 0), j_source_retry_required := False,
      j_lease_owner := None, j_lease_expires_at := None, j_updated_at := now\<rparr>)"

definition abort_job_workspace_discard ::
  "import_db \<Rightarrow> pystr \<Rightarrow> pystr \<Rightarrow> instant \<Rightarrow> job_row repo_result" where
  "abort_job_workspace_discard d jid w now =
    end_discard d jid w (\<lambda>r. r\<lparr>j_phase := terminal_phase (j_status r),
      j_lease_owner := None, j_lease_expires_at := None, j_updated_at := now\<rparr>)"

definition cancellable_job_statuses :: "job_status list" where
  "cancellable_job_statuses = [JQueued, JDiscovering, JParsing, JImporting, JSyncingGraph]"

definition request_job_cancel ::
  "import_db \<Rightarrow> pystr \<Rightarrow> pystr \<Rightarrow> job_status list \<Rightarrow> instant \<Rightarrow> import_db \<times> job_row option" where
  "request_job_cancel d jid pid allowed now =
    (let sts = dedup allowed
     in if sts = [] then (d, None)
        else update_and_fetch d jid
          (\<lambda>r. j_id r = jid \<and> j_project_id r = pid \<and> j_status r \<in> set sts)
          (\<lambda>r. r\<lparr>j_cancel_requested := True, j_status := JCancelling, j_phase := U ''cancelling'',
                 j_updated_at := now\<rparr>))"

section \<open>Fenced updates of a job\<close>

text \<open>The \<open>WHERE\<close> of \<open>update_job\<close> and \<open>increment_job\<close>.\<close>

definition job_target :: "pystr \<Rightarrow> pystr option \<Rightarrow> instant \<Rightarrow> job_row \<Rightarrow> bool" where
  "job_target jid ow now r =
    (case ow of None \<Rightarrow> j_id r = jid | Some owner \<Rightarrow> active_lease_conditions jid owner now r)"

definition write_job ::
  "import_db \<Rightarrow> pystr \<Rightarrow> pystr option \<Rightarrow> (job_row \<Rightarrow> job_row) \<Rightarrow> instant \<Rightarrow> job_row option repo_result" where
  "write_job d jid w f now =
    bind_err (normalize_lease_owner w) (\<lambda>ow.
      case ow of
        None \<Rightarrow> Inr (update_and_fetch d jid (job_target jid None now) f)
      | Some owner \<Rightarrow>
          if rowcount (job_target jid ow now) (jobs d) = 0 then Inl (ImportLeaseLost (Some jid) owner)
          else Inr (update_and_fetch d jid (job_target jid ow now) f))"

definition update_job ::
  "import_db \<Rightarrow> pystr \<Rightarrow> pystr option \<Rightarrow> job_col list \<Rightarrow> instant \<Rightarrow> job_row option repo_result" where
  "update_job d jid w cols now =
    write_job d jid w (\<lambda>r. (set_job_cols (mutable_job_cols cols) r)\<lparr>j_updated_at := now\<rparr>) now"

definition add_counts :: "(job_counter \<times> int) list \<Rightarrow> job_row \<Rightarrow> job_row" where
  "add_counts deltas r = fold (\<lambda>(c, n) q. q\<lparr>j_count := (j_count q)(c := j_count q c + n)\<rparr>) deltas r"

definition increment_job ::
  "import_db \<Rightarrow> pystr \<Rightarrow> pystr option \<Rightarrow> (job_counter \<times> int) list \<Rightarrow> instant \<Rightarrow> job_row option repo_result" where
  "increment_job d jid w deltas now =
    write_job d jid w (\<lambda>r. (add_counts deltas r)\<lparr>j_updated_at := now\<rparr>) now"

lemmas job_op_defs =
  acquire_job_lease_def renew_job_lease_def release_job_lease_def activate_graph_retry_def
  reserve_workspace_bytes_def delete_uploading_job_def reconcile_workspace_bytes_def
  acquire_job_retry_lease_def acquire_job_workspace_discard_lease_def
  complete_job_workspace_discard_def abort_job_workspace_discard_def request_job_cancel_def
  update_job_def increment_job_def

end
