(* ===== verification/Import_Chunks.thy ===== *)
theory Import_Chunks
  imports Import_Jobs "HOL-Library.AList"
begin

text \<open>
  The chunk and manifest half of the import repository (server/import_repository.py): the
  upsert of a chunk and its later updates, the statuses a resumed job starts from, and the
  manifest, the project-wide registry in which an import key is claimed once. A claim that
  meets a reclaimable manifest takes it over; one that meets any other reports who has it.
\<close>

section \<open>Chunks\<close>

datatype chunk_col =
    CcId pystr | CcJobId pystr | CcProjectId pystr | CcImportKey pystr | CcConversationId pystr
  | CcStatus item_status | CcAttempt int | CcRetryCount int | CcChunkIndex int | CcChunkCount int
  | CcSourceMessageIndices "int list" | CcCoreSourceMessageIndices "int list"
  | CcSourceMessageStart "int option" | CcSourceMessageEnd "int option"
  | CcSourceTurnStart "int option" | CcSourceTurnEnd "int option"
  | CcParentImportKey "pystr option" | CcSplitDepth int | CcOverlapTurns int
  | CcSourcePath "pystr option" | CcConversationTitle "pystr option"
  | CcTokenCount int | CcInputTokens int | CcOutputTokens int | CcTimings json
  | CcModelUsed "pystr option" | CcFallbackUsed bool | CcFallbackReason "pystr option"
  | CcAuditResult "pystr option" | CcAuditMetadata json | CcClaimedMemoryHashes "pystr list"
  | CcMemoryIds "pystr list" | CcErrorType "pystr option" | CcErrorMessage "pystr option"
  | CcDurationSeconds rat | CcNextRetryAt "instant option" | CcStartedAt "instant option"
  | CcFinishedAt "instant option" | CcCreatedAt instant | CcUpdatedAt instant

fun set_chunk_col :: "chunk_col \<Rightarrow> chunk_row \<Rightarrow> chunk_row" where
  "set_chunk_col (CcId x) r = r\<lparr>c_id := x\<rparr>"
| "set_chunk_col (CcJobId x) r = r\<lparr>c_job_id := x\<rparr>"
| "set_chunk_col (CcProjectId x) r = r\<lparr>c_project_id := x\<rparr>"
| "set_chunk_col (CcImportKey x) r = r\<lparr>c_import_key := x\<rparr>"
| "set_chunk_col (CcConversationId x) r = r\<lparr>c_conversation_id := x\<rparr>"
| "set_chunk_col (CcStatus x) r = r\<lparr>c_status := x\<rparr>"
| "set_chunk_col (CcAttempt x) r = r\<lparr>c_attempt := x\<rparr>"
| "set_chunk_col (CcRetryCount x) r = r\<lparr>c_retry_count := x\<rparr>"
| "set_chunk_col (CcChunkIndex x) r = r\<lparr>c_chunk_index := x\<rparr>"
| "set_chunk_col (CcChunkCount x) r = r\<lparr>c_chunk_count := x\<rparr>"
| "set_chunk_col (CcSourceMessageIndices x) r = r\<lparr>c_source_message_indices := x\<rparr>"
| "set_chunk_col (CcCoreSourceMessageIndices x) r = r\<lparr>c_core_source_message_indices := x\<rparr>"
| "set_chunk_col (CcSourceMessageStart x) r = r\<lparr>c_source_message_start := x\<rparr>"
| "set_chunk_col (CcSourceMessageEnd x) r = r\<lparr>c_source_message_end := x\<rparr>"
| "set_chunk_col (CcSourceTurnStart x) r = r\<lparr>c_source_turn_start := x\<rparr>"
| "set_chunk_col (CcSourceTurnEnd x) r = r\<lparr>c_source_turn_end := x\<rparr>"
| "set_chunk_col (CcParentImportKey x) r = r\<lparr>c_parent_import_key := x\<rparr>"
| "set_chunk_col (CcSplitDepth x) r = r\<lparr>c_split_depth := x\<rparr>"
| "set_chunk_col (CcOverlapTurns x) r = r\<lparr>c_overlap_turns := x\<rparr>"
| "set_chunk_col (CcSourcePath x) r = r\<lparr>c_source_path := x\<rparr>"
| "set_chunk_col (CcConversationTitle x) r = r\<lparr>c_conversation_title := x\<rparr>"
| "set_chunk_col (CcTokenCount x) r = r\<lparr>c_token_count := x\<rparr>"
| "set_chunk_col (CcInputTokens x) r = r\<lparr>c_input_tokens := x\<rparr>"
| "set_chunk_col (CcOutputTokens x) r = r\<lparr>c_output_tokens := x\<rparr>"
| "set_chunk_col (CcTimings x) r = r\<lparr>c_timings := x\<rparr>"
| "set_chunk_col (CcModelUsed x) r = r\<lparr>c_model_used := x\<rparr>"
| "set_chunk_col (CcFallbackUsed x) r = r\<lparr>c_fallback_used := x\<rparr>"
| "set_chunk_col (CcFallbackReason x) r = r\<lparr>c_fallback_reason := x\<rparr>"
| "set_chunk_col (CcAuditResult x) r = r\<lparr>c_audit_result := x\<rparr>"
| "set_chunk_col (CcAuditMetadata x) r = r\<lparr>c_audit_metadata := x\<rparr>"
| "set_chunk_col (CcClaimedMemoryHashes x) r = r\<lparr>c_claimed_memory_hashes := x\<rparr>"
| "set_chunk_col (CcMemoryIds x) r = r\<lparr>c_memory_ids := x\<rparr>"
| "set_chunk_col (CcErrorType x) r = r\<lparr>c_error_type := x\<rparr>"
| "set_chunk_col (CcErrorMessage x) r = r\<lparr>c_error_message := x\<rparr>"
| "set_chunk_col (CcDurationSeconds x) r = r\<lparr>c_duration_seconds := x\<rparr>"
| "set_chunk_col (CcNextRetryAt x) r = r\<lparr>c_next_retry_at := x\<rparr>"
| "set_chunk_col (CcStartedAt x) r = r\<lparr>c_started_at := x\<rparr>"
| "set_chunk_col (CcFinishedAt x) r = r\<lparr>c_finished_at := x\<rparr>"
| "set_chunk_col (CcCreatedAt x) r = r\<lparr>c_created_at := x\<rparr>"
| "set_chunk_col (CcUpdatedAt x) r = r\<lparr>c_updated_at := x\<rparr>"

definition set_chunk_cols :: "chunk_col list \<Rightarrow> chunk_row \<Rightarrow> chunk_row" where
  "set_chunk_cols cols r = fold set_chunk_col cols r"

text \<open>\<open>exclude={"id", "job_id", "import_key", "created_at"}\<close>.\<close>

definition mutable_chunk_cols :: "chunk_col list \<Rightarrow> chunk_col list" where
  "mutable_chunk_cols cols =
    filter (\<lambda>c. case c of CcId _ \<Rightarrow> False | CcJobId _ \<Rightarrow> False | CcImportKey _ \<Rightarrow> False
                 | CcCreatedAt _ \<Rightarrow> False | _ \<Rightarrow> True) cols"

text \<open>The columns an upsert leaves alone on a chunk that has already ended.\<close>

definition outcome_chunk_col :: "chunk_col \<Rightarrow> bool" where
  "outcome_chunk_col c =
    (case c of CcStatus _ \<Rightarrow> True | CcMemoryIds _ \<Rightarrow> True | CcFinishedAt _ \<Rightarrow> True
     | CcErrorType _ \<Rightarrow> True | CcErrorMessage _ \<Rightarrow> True | _ \<Rightarrow> False)"

fun given_chunk_job :: "chunk_col list \<Rightarrow> pystr" where
  "given_chunk_job [] = []"
| "given_chunk_job (CcJobId x # cs) = x"
| "given_chunk_job (_ # cs) = given_chunk_job cs"

fun given_chunk_key :: "chunk_col list \<Rightarrow> pystr" where
  "given_chunk_key [] = []"
| "given_chunk_key (CcImportKey x # cs) = x"
| "given_chunk_key (_ # cs) = given_chunk_key cs"

fun given_chunk_project :: "chunk_col list \<Rightarrow> pystr" where
  "given_chunk_project [] = []"
| "given_chunk_project (CcProjectId x # cs) = x"
| "given_chunk_project (_ # cs) = given_chunk_project cs"

definition default_chunk_row :: "instant \<Rightarrow> chunk_row" where
  "default_chunk_row now =
    \<lparr>c_id = [], c_job_id = [], c_project_id = [], c_import_key = [], c_conversation_id = [],
     c_status = IPending, c_attempt = 0, c_retry_count = 0, c_chunk_index = 0, c_chunk_count = 1,
     c_source_message_indices = [], c_core_source_message_indices = [],
     c_source_message_start = None, c_source_message_end = None, c_source_turn_start = None,
     c_source_turn_end = None, c_parent_import_key = None, c_split_depth = 0, c_overlap_turns = 0,
     c_source_path = None, c_conversation_title = None, c_token_count = 0, c_input_tokens = 0,
     c_output_tokens = 0, c_timings = JObj [], c_model_used = None, c_fallback_used = False,
     c_fallback_reason = None, c_audit_result = None, c_audit_metadata = JObj [],
     c_claimed_memory_hashes = [], c_memory_ids = [], c_error_type = None, c_error_message = None,
     c_duration_seconds = 0, c_next_retry_at = None, c_started_at = None, c_finished_at = None,
     c_created_at = now, c_updated_at = now\<rparr>"

definition find_chunk :: "import_db \<Rightarrow> pystr \<Rightarrow> pystr \<Rightarrow> chunk_row option" where
  "find_chunk d jid key = first_row (\<lambda>c. chunk_key c = (jid, key)) (chunks d)"

text \<open>The branch of \<open>upsert_chunk\<close> after the insert met an existing row.\<close>

definition upsert_existing_chunk ::
  "import_db \<Rightarrow> pystr \<Rightarrow> pystr option \<Rightarrow> chunk_col list \<Rightarrow> chunk_row \<Rightarrow> instant \<Rightarrow> chunk_row repo_result" where
  "upsert_existing_chunk d jid ow vals ex update_now =
    (let cols = mutable_chunk_cols vals;
         changes = (if c_status ex \<in> set terminal_chunk_statuses
                    then filter (\<lambda>c. \<not> outcome_chunk_col c) cols else cols);
         f = (\<lambda>r. (set_chunk_cols changes r)\<lparr>c_updated_at := update_now\<rparr>);
         P = (\<lambda>r. c_id r = c_id ex \<and> fence d jid ow update_now);
         d' = d\<lparr>chunks := upd_rows P f (chunks d)\<rparr>
     in bind_err (recheck d jid ow update_now (rowcount P (chunks d))) (\<lambda>_.
          case first_row (\<lambda>r. c_id r = c_id ex) (chunks d') of
            None \<Rightarrow> Inl IntegrityError
          | Some r \<Rightarrow> Inr (d', r)))"

definition upsert_chunk ::
  "import_db \<Rightarrow> pystr option \<Rightarrow> chunk_col list \<Rightarrow> pystr \<Rightarrow> instant \<Rightarrow> instant \<Rightarrow> chunk_row repo_result" where
  "upsert_chunk d w given new_id now update_now =
    bind_err (normalize_lease_owner w) (\<lambda>ow.
      let jid = given_chunk_job given; key = given_chunk_key given
      in if jid = [] \<or> key = [] then Inl (ValueError (U ''job_id and import_key are required''))
         else
           let base = [CcId new_id, CcConversationId key, CcStatus IPending, CcCreatedAt now,
                       CcUpdatedAt now] @ given;
               resolved = (if given_chunk_project given \<noteq> [] then Some base
                           else map_option (\<lambda>r. base @ [CcProjectId (j_project_id r)]) (find_job d jid))
           in case resolved of
                None \<Rightarrow> Inl (ValueError (U ''Unknown import job: '' @ jid))
              | Some vals \<Rightarrow>
                  let row = set_chunk_cols vals (default_chunk_row now)
                  in case fenced_insert d jid ow now (chunk_conflict d row) (d\<lparr>chunks := chunks d @ [row]\<rparr>) of
                       Inr d' \<Rightarrow> Inr (d', row)
                     | Inl e \<Rightarrow>
                         if e \<noteq> IntegrityError then Inl e
                         else case find_chunk d jid key of
                                None \<Rightarrow> Inl IntegrityError
                              | Some ex \<Rightarrow> upsert_existing_chunk d jid ow vals ex update_now)"

definition get_chunk :: "import_db \<Rightarrow> pystr \<Rightarrow> pystr \<Rightarrow> chunk_row option" where
  "get_chunk d jid key = find_chunk d jid key"

definition chunk_order :: "chunk_row \<Rightarrow> pystr \<times> int \<times> instant" where
  "chunk_order c = (c_conversation_id c, c_chunk_index c, c_created_at c)"

definition list_chunks :: "import_db \<Rightarrow> pystr \<Rightarrow> item_status list option \<Rightarrow> chunk_row list" where
  "list_chunks d jid sts =
    sort_key chunk_order
      (filter (\<lambda>c. c_job_id c = jid \<and> (case sts of None \<Rightarrow> True | Some xs \<Rightarrow> c_status c \<in> set xs)) (chunks d))"

definition update_chunk ::
  "import_db \<Rightarrow> pystr \<Rightarrow> pystr \<Rightarrow> pystr option \<Rightarrow> chunk_col list \<Rightarrow> instant \<Rightarrow> chunk_row option repo_result" where
  "update_chunk d jid key w cols now =
    bind_err (normalize_lease_owner w) (\<lambda>ow.
      let f = (\<lambda>r. (set_chunk_cols (mutable_chunk_cols cols) r)\<lparr>c_updated_at := now\<rparr>);
          P = (\<lambda>r. chunk_key r = (jid, key) \<and> fence d jid ow now);
          n = rowcount P (chunks d);
          d' = d\<lparr>chunks := upd_rows P f (chunks d)\<rparr>
      in bind_err (recheck d jid ow now n) (\<lambda>_.
           Inr (d', if n = 0 then None else find_chunk d' jid key)))"

section \<open>Manifests\<close>

definition find_manifest :: "import_db \<Rightarrow> pystr \<Rightarrow> pystr \<Rightarrow> manifest_row option" where
  "find_manifest d pid key = first_row (\<lambda>m. manifest_key m = (pid, key)) (manifests d)"

definition load_manifests :: "import_db \<Rightarrow> pystr \<Rightarrow> pystr list \<Rightarrow> (pystr \<times> manifest_row) list" where
  "load_manifests d pid keys =
    map (\<lambda>m. (m_import_key m, m))
      (filter (\<lambda>m. m_project_id m = pid \<and> m_import_key m \<in> set (dedup keys)) (manifests d))"

text \<open>\<open>legacy_released_split\<close>: the manifest's chunk was split.\<close>

definition chunk_of_manifest_split :: "import_db \<Rightarrow> manifest_row \<Rightarrow> bool" where
  "chunk_of_manifest_split d m = (\<exists>c\<in>set (chunks d). m_chunk_id m = Some (c_id c) \<and> c_status c = ISplit)"

definition manifest_reclaimable :: "import_db \<Rightarrow> manifest_row \<Rightarrow> bool" where
  "manifest_reclaimable d m =
    (m_status m \<in> set reclaimable_statuses \<and> \<not> (m_status m = IReleased \<and> chunk_of_manifest_split d m))"

text \<open>An \<open>UPDATE\<close> of manifests whose new references do not resolve is refused.\<close>

definition commit_manifests :: "import_db \<Rightarrow> manifest_row list \<Rightarrow> 'a \<Rightarrow> 'a repo_result" where
  "commit_manifests d ms res =
    (if \<forall>m\<in>set ms. opt_ref (job_exists d) (m_job_id m) \<and> opt_ref (chunk_exists d) (m_chunk_id m)
     then Inr (d\<lparr>manifests := ms\<rparr>, res) else Inl IntegrityError)"

definition reclaim_manifest ::
  "import_db \<Rightarrow> manifest_row \<Rightarrow> pystr \<Rightarrow> pystr \<Rightarrow> pystr option \<Rightarrow> instant \<Rightarrow> (bool \<times> manifest_row) repo_result" where
  "reclaim_manifest d ex jid cid ow update_now =
    (let live = fence d jid ow update_now;
         P = (\<lambda>m. m_id m = m_id ex \<and> manifest_reclaimable d m \<and> live);
         f = (\<lambda>m. m\<lparr>m_job_id := Some jid, m_chunk_id := Some cid, m_status := IClaimed,
                    m_attempts := m_attempts m + 1, m_last_error := None, m_claimed_at := update_now,
                    m_completed_at := None, m_updated_at := update_now\<rparr>);
         n = rowcount P (manifests d);
         Q = (\<lambda>m. m_id m = m_id ex \<and> m_status m = IReleased \<and> chunk_of_manifest_split d m \<and> live);
         g = (\<lambda>m. m\<lparr>m_status := ISplit, m_completed_at := Some update_now, m_updated_at := update_now\<rparr>);
         ms = (if n \<noteq> 0 then upd_rows P f (manifests d) else upd_rows Q g (manifests d))
     in bind_err (recheck d jid ow update_now n) (\<lambda>_.
          case first_row (\<lambda>m. m_id m = m_id ex) ms of
            None \<Rightarrow> Inl IntegrityError
          | Some m \<Rightarrow> commit_manifests d ms (n \<noteq> 0, m)))"

definition claim_manifest ::
  "import_db \<Rightarrow> pystr \<Rightarrow> pystr \<Rightarrow> pystr \<Rightarrow> pystr \<Rightarrow> pystr option \<Rightarrow> pystr \<Rightarrow> instant \<Rightarrow> instant
   \<Rightarrow> (bool \<times> manifest_row) repo_result" where
  "claim_manifest d pid key jid cid w new_id now update_now =
    bind_err (normalize_lease_owner w) (\<lambda>ow.
      let row = \<lparr>m_id = new_id, m_project_id = pid, m_import_key = key, m_job_id = Some jid,
                 m_chunk_id = Some cid, m_status = IClaimed, m_attempts = 1, m_memory_ids = [],
                 m_last_error = None, m_claimed_at = now, m_completed_at = None,
                 m_created_at = now, m_updated_at = now\<rparr>
      in case fenced_insert d jid ow now (manifest_conflict d row) (d\<lparr>manifests := manifests d @ [row]\<rparr>) of
           Inr d' \<Rightarrow> Inr (d', True, row)
         | Inl e \<Rightarrow>
             if e \<noteq> IntegrityError then Inl e
             else case find_manifest d pid key of
                    None \<Rightarrow> Inl IntegrityError
                  | Some ex \<Rightarrow> reclaim_manifest d ex jid cid ow update_now)"

text \<open>The keyword arguments of \<open>mark_manifest\<close>; its callers pass \<open>last_error\<close> only.\<close>

datatype manifest_col =
    McJobId "pystr option" | McChunkId "pystr option" | McAttempts int | McLastError "pystr option"
  | McClaimedAt instant | McCompletedAt "instant option" | McUpdatedAt instant

fun set_manifest_col :: "manifest_col \<Rightarrow> manifest_row \<Rightarrow> manifest_row" where
  "set_manifest_col (McJobId x) m = m\<lparr>m_job_id := x\<rparr>"
| "set_manifest_col (McChunkId x) m = m\<lparr>m_chunk_id := x\<rparr>"
| "set_manifest_col (McAttempts x) m = m\<lparr>m_attempts := x\<rparr>"
| "set_manifest_col (McLastError x) m = m\<lparr>m_last_error := x\<rparr>"
| "set_manifest_col (McClaimedAt x) m = m\<lparr>m_claimed_at := x\<rparr>"
| "set_manifest_col (McCompletedAt x) m = m\<lparr>m_completed_at := x\<rparr>"
| "set_manifest_col (McUpdatedAt x) m = m\<lparr>m_updated_at := x\<rparr>"

definition mark_manifest_row ::
  "item_status \<Rightarrow> pystr list option \<Rightarrow> manifest_col list \<Rightarrow> instant \<Rightarrow> manifest_row \<Rightarrow> manifest_row" where
  "mark_manifest_row st mids cols now m =
    fold set_manifest_col cols
      (m\<lparr>m_status := st, m_updated_at := now,
         m_memory_ids := (case mids of None \<Rightarrow> m_memory_ids m | Some xs \<Rightarrow> xs),
         m_completed_at := (if st \<in> set terminal_chunk_statuses then Some now else m_completed_at m)\<rparr>)"

definition mark_manifest ::
  "import_db \<Rightarrow> pystr \<Rightarrow> pystr \<Rightarrow> item_status \<Rightarrow> pystr list option \<Rightarrow> pystr option \<Rightarrow> pystr option
   \<Rightarrow> manifest_col list \<Rightarrow> instant \<Rightarrow> manifest_row option repo_result" where
  "mark_manifest d pid key st mids job w cols now =
    bind_err (normalize_lease_owner w) (\<lambda>ow.
      let jid = (case job of None \<Rightarrow> [] | Some x \<Rightarrow> x)
      in if ow \<noteq> None \<and> jid = [] then Inl (ValueError (U ''job_id is required when lease_owner is provided''))
         else
           let P = (\<lambda>m. manifest_key m = (pid, key) \<and>
                        (ow = None \<or> m_job_id m = job \<and> fence d jid ow now));
               n = rowcount P (manifests d);
               ms = upd_rows P (mark_manifest_row st mids cols now) (manifests d)
           in bind_err (recheck d jid ow now n) (\<lambda>_.
                commit_manifests d ms
                  (if n = 0 then None else first_row (\<lambda>m. manifest_key m = (pid, key)) ms)))"

section \<open>The statuses a resumed job starts from\<close>

datatype persisted_status = Persisted item_status | SupersededSplit

definition historical_split :: "import_db \<Rightarrow> pystr \<Rightarrow> manifest_row \<Rightarrow> bool" where
  "historical_split d pid m =
    (m_project_id m = pid \<and> (m_status m = ISplit \<or> m_status m = IReleased \<and> chunk_of_manifest_split d m))"

definition current_chunk_status :: "import_db \<Rightarrow> chunk_row \<Rightarrow> persisted_status" where
  "current_chunk_status d c =
    (if c_status c = ISplit \<and>
        (case find_manifest d (c_project_id c) (c_import_key c) of None \<Rightarrow> False
         | Some m \<Rightarrow> m_status m \<in> set succeeded_manifest_statuses)
     then SupersededSplit else Persisted (c_status c))"

definition load_persisted_chunk_statuses ::
  "import_db \<Rightarrow> pystr \<Rightarrow> pystr \<Rightarrow> (pystr \<times> persisted_status) list" where
  "load_persisted_chunk_statuses d pid jid =
    fold (\<lambda>c. AList.update (c_import_key c) (current_chunk_status d c))
      (filter (\<lambda>c. c_project_id c = pid \<and> c_job_id c = jid) (chunks d))
      (fold (\<lambda>m. AList.update (m_import_key m) (Persisted ISplit))
        (filter (historical_split d pid) (manifests d)) [])"

end
