(* ===== verification/Import_Items.thy ===== *)
theory Import_Items
  imports Import_Chunks
begin

text \<open>
  The remaining tables of the import repository (server/import_repository.py): the errors of a
  job, the registry of memory hashes, in which a hash is claimed once per project and
  conversation, and the graph items with the counts a job keeps of them.
\<close>

section \<open>Errors of a job\<close>

text \<open>The keyword arguments of \<open>add_error\<close>.\<close>

record error_values =
  ev_id :: "pystr option"
  ev_chunk_id :: "pystr option"
  ev_phase :: "pystr option"
  ev_error_type :: "pystr option"
  ev_error_code :: "pystr option"
  ev_attempt :: "int option"
  ev_retryable :: "bool option"
  ev_details :: json
  ev_created_at :: "instant option"

definition error_row_of ::
  "pystr \<Rightarrow> pystr \<Rightarrow> pystr \<Rightarrow> error_values \<Rightarrow> pystr \<Rightarrow> instant \<Rightarrow> error_row" where
  "error_row_of jid source message v new_id now =
    \<lparr>e_id = (case ev_id v of None \<Rightarrow> new_id | Some x \<Rightarrow> x), e_job_id = jid, e_chunk_id = ev_chunk_id v,
     e_source = source, e_message = message, e_phase = ev_phase v, e_error_type = ev_error_type v,
     e_error_code = ev_error_code v, e_attempt = ev_attempt v, e_retryable = ev_retryable v,
     e_details = ev_details v, e_created_at = coalesce_now (ev_created_at v) now\<rparr>"

definition add_error ::
  "import_db \<Rightarrow> pystr \<Rightarrow> pystr \<Rightarrow> pystr \<Rightarrow> pystr option \<Rightarrow> error_values \<Rightarrow> pystr \<Rightarrow> instant
   \<Rightarrow> error_row repo_result" where
  "add_error d jid source message w v new_id now =
    bind_err (normalize_lease_owner w) (\<lambda>ow.
      let row = error_row_of jid source message v new_id now;
          P = job_target jid ow now;
          f = (\<lambda>r. r\<lparr>j_count := (j_count r)(ErrorCount := j_count r ErrorCount + 1), j_updated_at := now\<rparr>)
      in bind_err (fenced_insert d jid ow now (error_conflict d row) (d\<lparr>job_errors := job_errors d @ [row]\<rparr>))
           (\<lambda>d'. case ow of
              Some owner \<Rightarrow>
                if rowcount P (jobs d') = 0 then Inl (ImportLeaseLost (Some jid) owner)
                else Inr (d'\<lparr>jobs := upd_rows P f (jobs d')\<rparr>, row)
            | None \<Rightarrow> Inr (d'\<lparr>jobs := upd_rows P f (jobs d')\<rparr>, row)))"

definition error_order :: "error_row \<Rightarrow> instant \<times> pystr" where
  "error_order e = (e_created_at e, e_id e)"

definition list_errors :: "import_db \<Rightarrow> pystr \<Rightarrow> int \<Rightarrow> int \<Rightarrow> error_row list" where
  "list_errors d jid limit offset =
    take (nat (max 0 limit)) (drop (nat (max 0 offset))
      (sort_key error_order (filter (\<lambda>e. e_job_id e = jid) (job_errors d))))"

section \<open>Memory hashes\<close>

definition find_hash :: "import_db \<Rightarrow> pystr \<Rightarrow> pystr \<Rightarrow> pystr \<Rightarrow> hash_row option" where
  "find_hash d pid conv mh = first_row (\<lambda>h. hash_key h = (pid, conv, mh)) (hashes d)"

definition commit_hashes :: "import_db \<Rightarrow> hash_row list \<Rightarrow> 'a \<Rightarrow> 'a repo_result" where
  "commit_hashes d hs res =
    (if \<forall>h\<in>set hs. opt_ref (job_exists d) (h_job_id h) \<and> opt_ref (chunk_exists d) (h_chunk_id h)
     then Inr (d\<lparr>hashes := hs\<rparr>, res) else Inl IntegrityError)"

definition reclaim_hash ::
  "import_db \<Rightarrow> hash_row \<Rightarrow> pystr \<Rightarrow> pystr \<Rightarrow> pystr option \<Rightarrow> instant \<Rightarrow> bool repo_result" where
  "reclaim_hash d ex jid cid ow update_now =
    (let P = (\<lambda>h. h_id h = h_id ex \<and> h_status h \<in> set reclaimable_statuses \<and> fence d jid ow update_now);
         f = (\<lambda>h. h\<lparr>h_job_id := Some jid, h_chunk_id := Some cid, h_status := IClaimed, h_memory_id := None,
                    h_claimed_at := update_now, h_succeeded_at := None, h_updated_at := update_now\<rparr>);
         n = rowcount P (hashes d)
     in bind_err (recheck d jid ow update_now n) (\<lambda>_.
          commit_hashes d (upd_rows P f (hashes d)) (n \<noteq> 0)))"

definition claim_memory_hash ::
  "import_db \<Rightarrow> pystr \<Rightarrow> pystr \<Rightarrow> pystr \<Rightarrow> pystr \<Rightarrow> pystr \<Rightarrow> pystr option \<Rightarrow> pystr \<Rightarrow> instant \<Rightarrow> instant
   \<Rightarrow> bool repo_result" where
  "claim_memory_hash d pid conv mh jid cid w new_id now update_now =
    bind_err (normalize_lease_owner w) (\<lambda>ow.
      let row = \<lparr>h_id = new_id, h_project_id = pid, h_conversation_id = conv, h_memory_hash = mh,
                 h_job_id = Some jid, h_chunk_id = Some cid, h_status = IClaimed, h_memory_id = None,
                 h_claimed_at = now, h_succeeded_at = None, h_created_at = now, h_updated_at = now\<rparr>
      in case fenced_insert d jid ow now (hash_conflict d row) (d\<lparr>hashes := hashes d @ [row]\<rparr>) of
           Inr d' \<Rightarrow> Inr (d', True)
         | Inl e \<Rightarrow>
             if e \<noteq> IntegrityError then Inl e
             else case find_hash d pid conv mh of
                    None \<Rightarrow> Inl IntegrityError
                  | Some ex \<Rightarrow> reclaim_hash d ex jid cid ow update_now)"

definition release_memory_hashes ::
  "import_db \<Rightarrow> pystr \<Rightarrow> pystr \<Rightarrow> pystr list option \<Rightarrow> pystr option \<Rightarrow> instant \<Rightarrow> nat repo_result" where
  "release_memory_hashes d jid cid hs w now =
    bind_err (normalize_lease_owner w) (\<lambda>ow.
      let hash_values = map_option dedup hs;
          P = (\<lambda>h. h_job_id h = Some jid \<and> h_chunk_id h = Some cid \<and> h_status h = IClaimed \<and>
                   (case hash_values of None \<Rightarrow> True | Some xs \<Rightarrow> h_memory_hash h \<in> set xs) \<and>
                   fence d jid ow now);
          n = rowcount P (hashes d)
      in if hash_values = Some [] then bind_err (recheck d jid ow now 0) (\<lambda>_. Inr (d, 0))
         else bind_err (recheck d jid ow now n) (\<lambda>_.
           Inr (d\<lparr>hashes := filter (\<lambda>h. \<not> P h) (hashes d)\<rparr>, n)))"

text \<open>The \<open>memory_ids\<close> argument: absent, a mapping from hashes, or a list in the hashes' order.\<close>

datatype memory_ids_arg = NoMemoryIds | MemoryIdMap "(pystr \<times> pystr) list" | MemoryIdList "pystr list"

definition id_by_hash :: "pystr list \<Rightarrow> memory_ids_arg \<Rightarrow> (pystr \<times> pystr) list" where
  "id_by_hash hs arg =
    (case arg of NoMemoryIds \<Rightarrow> [] | MemoryIdMap m \<Rightarrow> m | MemoryIdList ids \<Rightarrow> zip hs ids)"

definition succeed_hash_target ::
  "import_db \<Rightarrow> pystr \<Rightarrow> pystr \<Rightarrow> pystr \<Rightarrow> pystr option \<Rightarrow> pystr option \<Rightarrow> pystr option \<Rightarrow> instant \<Rightarrow> hash_row \<Rightarrow> bool" where
  "succeed_hash_target d pid conv mh job chunk ow now h =
    (hash_key h = (pid, conv, mh) \<and> h_status h = IClaimed \<and>
     (case job of None \<Rightarrow> True | Some x \<Rightarrow> h_job_id h = Some x) \<and>
     (case chunk of None \<Rightarrow> True | Some x \<Rightarrow> h_chunk_id h = Some x) \<and>
     (case job of None \<Rightarrow> True | Some x \<Rightarrow> fence d x ow now))"

fun succeed_hashes ::
  "import_db \<Rightarrow> pystr \<Rightarrow> pystr \<Rightarrow> pystr option \<Rightarrow> pystr option \<Rightarrow> (pystr \<times> pystr) list \<Rightarrow> pystr option
   \<Rightarrow> instant \<Rightarrow> pystr list \<Rightarrow> nat \<Rightarrow> import_db \<times> nat" where
  "succeed_hashes d pid conv job chunk ids ow now [] n = (d, n)"
| "succeed_hashes d pid conv job chunk ids ow now (mh # mhs) n =
    (let P = succeed_hash_target d pid conv mh job chunk ow now;
         f = (\<lambda>h. h\<lparr>h_status := ISucceeded, h_memory_id := map_of ids mh, h_succeeded_at := Some now,
                    h_updated_at := now\<rparr>)
     in succeed_hashes (d\<lparr>hashes := upd_rows P f (hashes d)\<rparr>) pid conv job chunk ids ow now mhs
          (n + rowcount P (hashes d)))"

definition mark_memory_hashes_succeeded ::
  "import_db \<Rightarrow> pystr \<Rightarrow> pystr \<Rightarrow> pystr list \<Rightarrow> pystr option \<Rightarrow> pystr option \<Rightarrow> memory_ids_arg \<Rightarrow> pystr option
   \<Rightarrow> instant \<Rightarrow> nat repo_result" where
  "mark_memory_hashes_succeeded d pid conv mhs job chunk arg w now =
    bind_err (normalize_lease_owner w) (\<lambda>ow.
      if ow \<noteq> None \<and> job = None then Inl (ValueError (U ''job_id is required when lease_owner is provided''))
      else
        let hs = dedup mhs;
            check = (case job of None \<Rightarrow> Inr () | Some jid \<Rightarrow> recheck d jid ow now 0)
        in if hs = [] then bind_err check (\<lambda>_. Inr (d, 0))
           else
             let res = succeed_hashes d pid conv job chunk (id_by_hash hs arg) ow now hs 0
             in bind_err check (\<lambda>_. Inr res))"

section \<open>Graph items\<close>

text \<open>
  An item as the callers of \<open>add_graph_items\<close> build it: its own fields, and possibly a nested
  payload that replaces them. A missing or empty field is \<open>None\<close> or \<open>[]\<close>.
\<close>

record graph_source =
  gs_memory_id :: "pystr option"
  gs_text :: json
  gs_entities :: "(pystr \<times> json) list"
  gs_metadata :: "(pystr \<times> json) list"

record graph_input =
  gi_item_key :: "pystr option"
  gi_payload :: "graph_source option"
  gi_fields :: graph_source

definition truthy_str :: "pystr option \<Rightarrow> pystr option" where
  "truthy_str s = (if s = Some [] then None else s)"

definition graph_payload_of :: "graph_input \<Rightarrow> repo_error + pystr \<times> pystr \<times> graph_payload" where
  "graph_payload_of item =
    (let src = (case gi_payload item of None \<Rightarrow> gi_fields item | Some p \<Rightarrow> p);
         mid = (case truthy_str (gs_memory_id src) of Some x \<Rightarrow> x
                | None \<Rightarrow> (case gs_memory_id (gi_fields item) of None \<Rightarrow> [] | Some x \<Rightarrow> x));
         payload = \<lparr>gp_memory_id = mid, gp_text = gs_text src, gp_entities = gs_entities src,
                    gp_metadata = gs_metadata src\<rparr>
     in if mid = [] then Inl (ValueError (U ''Each graph item requires memory_id''))
        else Inr (case truthy_str (gi_item_key item) of None \<Rightarrow> mid | Some k \<Rightarrow> k, mid, payload))"

text \<open>\<open>prepared_by_key.setdefault\<close>: the first item of a key wins.\<close>

fun prepare_graph_items ::
  "graph_input list \<Rightarrow> (pystr \<times> pystr \<times> graph_payload) list \<Rightarrow> repo_error + (pystr \<times> pystr \<times> graph_payload) list" where
  "prepare_graph_items [] acc = Inr acc"
| "prepare_graph_items (item # items) acc =
    bind_err (graph_payload_of item) (\<lambda>p.
      prepare_graph_items items (if fst p \<in> fst ` set acc then acc else acc @ [p]))"

text \<open>The loop of inserts, each in its savepoint: a conflicting item is read instead.\<close>

fun insert_graph_items ::
  "import_db \<Rightarrow> pystr \<Rightarrow> pystr \<Rightarrow> pystr option \<Rightarrow> (pystr \<times> pystr \<times> graph_payload) list \<Rightarrow> pystr list \<Rightarrow> instant
   \<Rightarrow> graph_item_row list \<Rightarrow> nat \<Rightarrow> repo_error + import_db \<times> graph_item_row list \<times> nat" where
  "insert_graph_items d jid cid ow [] new_ids now rows n = Inr (d, rows, n)"
| "insert_graph_items d jid cid ow ((key, mid, payload) # ps) new_ids now rows n =
    (let row = \<lparr>g_id = (case new_ids of [] \<Rightarrow> [] | x # _ \<Rightarrow> x), g_job_id = jid, g_chunk_id = cid,
                g_item_key = key, g_memory_id = mid, g_payload = payload, g_status = IPending,
                g_attempts = 0, g_last_error = None, g_next_retry_at = None, g_synced_at = None,
                g_created_at = now, g_updated_at = now\<rparr>
     in case fenced_insert d jid ow now (graph_conflict d row)
               (d\<lparr>graph_items := graph_items d @ [row]\<rparr>) of
          Inr d' \<Rightarrow> insert_graph_items d' jid cid ow ps (tl new_ids) now (rows @ [row]) (Suc n)
        | Inl e \<Rightarrow>
            if e \<noteq> IntegrityError then Inl e
            else case first_row (\<lambda>g. graph_key g = (jid, cid, key)) (graph_items d) of
                   None \<Rightarrow> Inl IntegrityError
                 | Some g \<Rightarrow> insert_graph_items d jid cid ow ps (tl new_ids) now (rows @ [g]) n)"

definition add_graph_items ::
  "import_db \<Rightarrow> pystr \<Rightarrow> pystr \<Rightarrow> graph_input list \<Rightarrow> pystr option \<Rightarrow> pystr list \<Rightarrow> instant
   \<Rightarrow> graph_item_row list repo_result" where
  "add_graph_items d jid cid items w new_ids now =
    bind_err (normalize_lease_owner w) (\<lambda>ow.
      bind_err (prepare_graph_items items []) (\<lambda>prepared.
        if prepared = [] then Inr (d, [])
        else bind_err (insert_graph_items d jid cid ow prepared new_ids now [] 0) (\<lambda>(d', rows, inserted).
          let P = job_target jid ow now;
              f = (\<lambda>r. r\<lparr>j_graph_status := GPending,
                         j_count := (j_count r)(GraphPendingItems := j_count r GraphPendingItems + int inserted),
                         j_updated_at := now\<rparr>)
          in if inserted \<noteq> 0 then
               (case ow of
                  Some owner \<Rightarrow>
                    if rowcount P (jobs d') = 0 then Inl (ImportLeaseLost (Some jid) owner)
                    else Inr (d'\<lparr>jobs := upd_rows P f (jobs d')\<rparr>, rows)
                | None \<Rightarrow> Inr (d'\<lparr>jobs := upd_rows P f (jobs d')\<rparr>, rows))
             else bind_err (recheck d' jid ow now 0) (\<lambda>_. Inr (d', rows)))))"

definition graph_item_order :: "graph_item_row \<Rightarrow> instant \<times> pystr" where
  "graph_item_order g = (g_created_at g, g_id g)"

definition list_graph_items ::
  "import_db \<Rightarrow> pystr \<Rightarrow> item_status list option \<Rightarrow> int option \<Rightarrow> graph_item_row list" where
  "list_graph_items d jid sts limit =
    (let rows = sort_key graph_item_order
           (filter (\<lambda>g. g_job_id g = jid \<and> (case sts of None \<Rightarrow> True | Some xs \<Rightarrow> g_status g \<in> set xs))
             (graph_items d))
     in case limit of None \<Rightarrow> rows | Some n \<Rightarrow> take (nat (max 0 n)) rows)"

definition count_graph_items :: "import_db \<Rightarrow> pystr \<Rightarrow> item_status \<Rightarrow> int" where
  "count_graph_items d jid st = int (rowcount (\<lambda>g. g_job_id g = jid \<and> g_status g = st) (graph_items d))"

definition refreshed_job_row ::
  "import_db \<Rightarrow> pystr option \<Rightarrow> instant \<Rightarrow> job_row \<Rightarrow> job_row" where
  "refreshed_job_row d err now r =
    (let pending = count_graph_items d (j_id r) IPending;
         failed = count_graph_items d (j_id r) IFailed;
         synced = count_graph_items d (j_id r) ISynced
     in r\<lparr>j_graph_status := (if failed \<noteq> 0 then GFailed else if pending \<noteq> 0 then GPending else GSynced),
          j_graph_error := (if failed \<noteq> 0 then err else None),
          j_count := (j_count r)(GraphPendingItems := pending, GraphSyncedItems := synced,
                                 GraphFailedItems := failed),
          j_updated_at := now\<rparr>)"

fun refresh_graph_job_counts ::
  "import_db \<Rightarrow> pystr list \<Rightarrow> pystr option \<Rightarrow> pystr option \<Rightarrow> instant \<Rightarrow> repo_error + import_db" where
  "refresh_graph_job_counts d [] err ow now = Inr d"
| "refresh_graph_job_counts d (jid # jids) err ow now =
    (let P = job_target jid ow now;
         d' = d\<lparr>jobs := upd_rows P (refreshed_job_row d err now) (jobs d)\<rparr>
     in case ow of
          None \<Rightarrow> refresh_graph_job_counts d' jids err ow now
        | Some owner \<Rightarrow>
            if rowcount P (jobs d) = 0 then Inl (ImportLeaseLost (Some jid) owner)
            else refresh_graph_job_counts d' jids err ow now)"

definition mark_graph_row ::
  "item_status \<Rightarrow> pystr option \<Rightarrow> bool \<Rightarrow> instant option \<Rightarrow> instant \<Rightarrow> graph_item_row \<Rightarrow> graph_item_row" where
  "mark_graph_row st err increment retry now g =
    (let g1 = g\<lparr>g_status := st, g_last_error := err, g_updated_at := now,
                g_attempts := (if increment then g_attempts g + 1 else g_attempts g),
                g_next_retry_at := (if retry = None then g_next_retry_at g else retry)\<rparr>
     in if st = ISynced then g1\<lparr>g_synced_at := Some now, g_last_error := None, g_next_retry_at := None\<rparr> else g1)"

definition mark_graph_items ::
  "import_db \<Rightarrow> pystr list \<Rightarrow> item_status \<Rightarrow> pystr option \<Rightarrow> bool \<Rightarrow> instant option \<Rightarrow> pystr option \<Rightarrow> pystr option
   \<Rightarrow> instant \<Rightarrow> nat repo_result" where
  "mark_graph_items d item_ids st err increment retry job w now =
    bind_err (normalize_lease_owner w) (\<lambda>ow.
      let jid = (case job of None \<Rightarrow> [] | Some x \<Rightarrow> x); ids = dedup item_ids
      in if ow \<noteq> None \<and> jid = [] then Inl (ValueError (U ''job_id is required when lease_owner is provided''))
         else if ids = [] then Inr (d, 0)
         else
           let here = (\<lambda>g. g_id g \<in> set ids \<and> (case job of None \<Rightarrow> True | Some x \<Rightarrow> g_job_id g = x));
               job_ids = dedup (map g_job_id (filter here (graph_items d)));
               P = (\<lambda>g. here g \<and> (ow = None \<or> fence d jid ow now));
               n = rowcount P (graph_items d);
               d1 = d\<lparr>graph_items := upd_rows P (mark_graph_row st err increment retry now) (graph_items d)\<rparr>;
               Q = (\<lambda>r. j_id r \<in> set job_ids \<and> (ow = None \<or> job_target jid ow now r));
               f = (\<lambda>r. r\<lparr>j_count := (j_count r)(GraphAttempts := j_count r GraphAttempts + 1),
                          j_updated_at := now\<rparr>);
               bump = (increment \<and> job_ids \<noteq> []);
               d2 = (if bump then d1\<lparr>jobs := upd_rows Q f (jobs d1)\<rparr> else d1)
           in bind_err (recheck d jid ow now n) (\<lambda>_.
                case ow of
                  Some owner \<Rightarrow>
                    if bump \<and> rowcount Q (jobs d1) = 0 then Inl (ImportLeaseLost (Some jid) owner)
                    else bind_err (refresh_graph_job_counts d2 job_ids err ow now) (\<lambda>d3. Inr (d3, n))
                | None \<Rightarrow> bind_err (refresh_graph_job_counts d2 job_ids err ow now) (\<lambda>d3. Inr (d3, n))))"

definition mark_graph_synced ::
  "import_db \<Rightarrow> pystr list \<Rightarrow> pystr option \<Rightarrow> pystr option \<Rightarrow> instant \<Rightarrow> nat repo_result" where
  "mark_graph_synced d item_ids job w now = mark_graph_items d item_ids ISynced None True None job w now"

definition mark_graph_failed ::
  "import_db \<Rightarrow> pystr list \<Rightarrow> pystr \<Rightarrow> instant option \<Rightarrow> pystr option \<Rightarrow> pystr option \<Rightarrow> instant \<Rightarrow> nat repo_result" where
  "mark_graph_failed d item_ids err retry job w now =
    mark_graph_items d item_ids IFailed (Some err) True retry job w now"

text \<open>The item key is never empty, so the code's digest fallback for an empty key is unreachable.\<close>

lemma graph_payload_of_key_nonempty:
  "graph_payload_of item = Inr (key, mid, payload) \<Longrightarrow> key \<noteq> [] \<and> mid \<noteq> [] \<and> gp_memory_id payload = mid"
  by (auto simp: graph_payload_of_def truthy_str_def Let_def split: option.splits if_splits)

end
