(* ===== verification/Import_Invariant.thy ===== *)
theory Import_Invariant
  imports Import_Items
begin

text \<open>
  Every mutating operation of the import repository as one value of \<open>repo_call\<close>, the step
  relation it induces on databases, and the invariant of the schema: no operation, called with
  any arguments and at any time, breaks a uniqueness constraint or leaves a reference dangling.
  The facts about single tables are collected in \<open>wf_intros\<close>.
\<close>

named_theorems wf_intros \<open>table updates that keep the schema's constraints\<close>
named_theorems row_keys \<open>row updates that keep a row's identity\<close>

section \<open>Calls\<close>

datatype repo_call =
    CreateJob "job_col list" pystr instant
  | CreateJobLimited int "int option" "job_col list" pystr instant
  | AcquireLease pystr pystr rat "instant option" instant instant
  | RenewLease pystr pystr rat "instant option" instant
  | ReleaseLease pystr pystr instant
  | ActivateGraphRetry pystr pystr pystr rat int "instant option" instant
  | ReserveBytes pystr pystr int int rat "instant option" instant
  | DeleteUploading pystr pystr instant
  | ReconcileBytes pystr int "instant option" instant
  | RetryLease pystr pystr pystr rat "job_status list" "int option" "instant option" instant
  | DiscardLease pystr pystr pystr rat "job_status list" "instant option" instant
  | CompleteDiscard pystr pystr instant
  | AbortDiscard pystr pystr instant
  | RequestCancel pystr pystr "job_status list" instant
  | UpdateJob pystr "pystr option" "job_col list" instant
  | IncrementJob pystr "pystr option" "(job_counter \<times> int) list" instant
  | UpsertChunk "pystr option" "chunk_col list" pystr instant instant
  | UpdateChunk pystr pystr "pystr option" "chunk_col list" instant
  | ClaimManifest pystr pystr pystr pystr "pystr option" pystr instant instant
  | MarkManifest pystr pystr item_status "pystr list option" "pystr option" "pystr option" "manifest_col list" instant
  | AddError pystr pystr pystr "pystr option" error_values pystr instant
  | ClaimHash pystr pystr pystr pystr pystr "pystr option" pystr instant instant
  | ReleaseHashes pystr pystr "pystr list option" "pystr option" instant
  | MarkHashes pystr pystr "pystr list" "pystr option" "pystr option" memory_ids_arg "pystr option" instant
  | AddGraphItems pystr pystr "graph_input list" "pystr option" "pystr list" instant
  | MarkGraphItems "pystr list" item_status "pystr option" bool "instant option" "pystr option" "pystr option" instant

definition db_of :: "'a repo_result \<Rightarrow> repo_error + import_db" where
  "db_of res = bind_err res (\<lambda>(d, _). Inr d)"

fun exec_call :: "repo_call \<Rightarrow> import_db \<Rightarrow> repo_error + import_db" where
  "exec_call (CreateJob cols nid now) d = db_of (create_job d cols nid now)"
| "exec_call (CreateJobLimited cap ret cols nid now) d = db_of (create_job_with_active_limit d cap ret cols nid now)"
| "exec_call (AcquireLease jid w secs tm clk tch) d = db_of (acquire_job_lease d jid w secs tm clk tch)"
| "exec_call (RenewLease jid w secs tm clk) d = db_of (renew_job_lease d jid w secs tm clk)"
| "exec_call (ReleaseLease jid w tch) d = db_of (release_job_lease d jid w tch)"
| "exec_call (ActivateGraphRetry jid pid w secs cap tm clk) d = db_of (activate_graph_retry d jid pid w secs cap tm clk)"
| "exec_call (ReserveBytes jid w req cap secs tm clk) d = db_of (reserve_workspace_bytes d jid w req cap secs tm clk)"
| "exec_call (DeleteUploading jid w now) d = db_of (delete_uploading_job d jid w now)"
| "exec_call (ReconcileBytes jid n tm clk) d = db_of (reconcile_workspace_bytes d jid n tm clk)"
| "exec_call (RetryLease jid pid w secs sts cap tm clk) d = db_of (acquire_job_retry_lease d jid pid w secs sts cap tm clk)"
| "exec_call (DiscardLease jid pid w secs sts tm clk) d = db_of (acquire_job_workspace_discard_lease d jid pid w secs sts tm clk)"
| "exec_call (CompleteDiscard jid w now) d = db_of (complete_job_workspace_discard d jid w now)"
| "exec_call (AbortDiscard jid w now) d = db_of (abort_job_workspace_discard d jid w now)"
| "exec_call (RequestCancel jid pid sts now) d = Inr (fst (request_job_cancel d jid pid sts now))"
| "exec_call (UpdateJob jid w cols now) d = db_of (update_job d jid w cols now)"
| "exec_call (IncrementJob jid w deltas now) d = db_of (increment_job d jid w deltas now)"
| "exec_call (UpsertChunk w vals nid now upd) d = db_of (upsert_chunk d w vals nid now upd)"
| "exec_call (UpdateChunk jid key w cols now) d = db_of (update_chunk d jid key w cols now)"
| "exec_call (ClaimManifest pid key jid cid w nid now upd) d = db_of (claim_manifest d pid key jid cid w nid now upd)"
| "exec_call (MarkManifest pid key st mids job w cols now) d = db_of (mark_manifest d pid key st mids job w cols now)"
| "exec_call (AddError jid src msg w v nid now) d = db_of (add_error d jid src msg w v nid now)"
| "exec_call (ClaimHash pid conv mh jid cid w nid now upd) d = db_of (claim_memory_hash d pid conv mh jid cid w nid now upd)"
| "exec_call (ReleaseHashes jid cid hs w now) d = db_of (release_memory_hashes d jid cid hs w now)"
| "exec_call (MarkHashes pid conv mhs job ch arg w now) d = db_of (mark_memory_hashes_succeeded d pid conv mhs job ch arg w now)"
| "exec_call (AddGraphItems jid cid items w nids now) d = db_of (add_graph_items d jid cid items w nids now)"
| "exec_call (MarkGraphItems ids st err inc rt job w now) d = db_of (mark_graph_items d ids st err inc rt job w now)"

lemma db_of_Inr [simp]: "db_of (Inr (d, x)) = Inr d"
  by (simp add: db_of_def)

lemma db_of_Inl [simp]: "db_of (Inl e) = Inl e"
  by (simp add: db_of_def)

lemma db_of_eq_Inr: "db_of res = Inr d \<longleftrightarrow> (\<exists>x. res = Inr (d, x))"
  by (auto simp: db_of_def bind_err_Inr_iff)

section \<open>Row updates keep a row's identity\<close>

lemma set_job_col_id [row_keys]:
  "(case c of JcId _ \<Rightarrow> False | _ \<Rightarrow> True) \<Longrightarrow> j_id (set_job_col c r) = j_id r"
  by (cases c) simp_all

lemma set_job_cols_id:
  "\<forall>c\<in>set cols. (case c of JcId _ \<Rightarrow> False | _ \<Rightarrow> True) \<Longrightarrow> j_id (set_job_cols cols r) = j_id r"
  unfolding set_job_cols_def by (induction cols arbitrary: r) (auto simp: row_keys)

lemma mutable_job_cols_id [row_keys]: "j_id (set_job_cols (mutable_job_cols cols) r) = j_id r"
  by (rule set_job_cols_id) (auto simp: mutable_job_cols_def split: job_col.splits)

lemma add_counts_id [row_keys]: "j_id (add_counts deltas r) = j_id r"
  unfolding add_counts_def by (induction deltas arbitrary: r) auto

lemma retry_job_row_id [row_keys]: "j_id (retry_job_row w e a r) = j_id r"
  by (simp add: retry_job_row_def)

lemma refreshed_job_row_id [row_keys]: "j_id (refreshed_job_row d err now r) = j_id r"
  by (simp add: refreshed_job_row_def Let_def)

text \<open>What identifies a chunk, a manifest, a graph item and a hash.\<close>

definition chunk_ident :: "chunk_row \<Rightarrow> pystr \<times> pystr \<times> pystr" where
  "chunk_ident r = (c_id r, c_job_id r, c_import_key r)"

definition keeps_chunk_ident :: "chunk_col \<Rightarrow> bool" where
  "keeps_chunk_ident c = (case c of CcId _ \<Rightarrow> False | CcJobId _ \<Rightarrow> False | CcImportKey _ \<Rightarrow> False | _ \<Rightarrow> True)"

lemma set_chunk_col_ident: "keeps_chunk_ident c \<Longrightarrow> chunk_ident (set_chunk_col c r) = chunk_ident r"
  by (cases c) (simp_all add: chunk_ident_def keeps_chunk_ident_def)

lemma set_chunk_cols_ident [row_keys]:
  "\<forall>c\<in>set cols. keeps_chunk_ident c \<Longrightarrow> chunk_ident (set_chunk_cols cols r) = chunk_ident r"
  unfolding set_chunk_cols_def by (induction cols arbitrary: r) (auto simp: set_chunk_col_ident)

lemma mutable_chunk_cols_keep: "c \<in> set (mutable_chunk_cols cols) \<Longrightarrow> keeps_chunk_ident c"
  by (auto simp: mutable_chunk_cols_def keeps_chunk_ident_def split: chunk_col.splits)

lemma chunk_ident_updated [simp]: "chunk_ident (r\<lparr>c_updated_at := t\<rparr>) = chunk_ident r"
  by (simp add: chunk_ident_def)

lemma chunk_ident_eqD:
  "chunk_ident r = chunk_ident r' \<Longrightarrow> c_id r = c_id r' \<and> c_job_id r = c_job_id r' \<and> chunk_key r = chunk_key r'"
  by (simp add: chunk_ident_def chunk_key_def)

lemma mark_manifest_row_keys [row_keys]:
  "m_id (mark_manifest_row st mids cols now m) = m_id m"
  "manifest_key (mark_manifest_row st mids cols now m) = manifest_key m"
proof -
  have step: "m_id (set_manifest_col c q) = m_id q \<and> manifest_key (set_manifest_col c q) = manifest_key q" for c q
    by (cases c) (simp_all add: manifest_key_def)
  have "m_id (fold set_manifest_col cols q) = m_id q \<and>
        manifest_key (fold set_manifest_col cols q) = manifest_key q" for q
    by (induction cols arbitrary: q) (auto simp: step)
  then show "m_id (mark_manifest_row st mids cols now m) = m_id m"
    and "manifest_key (mark_manifest_row st mids cols now m) = manifest_key m"
    by (simp_all add: mark_manifest_row_def manifest_key_def)
qed

lemma mark_graph_row_keys [row_keys]:
  "g_id (mark_graph_row st err inc rt now g) = g_id g"
  "g_job_id (mark_graph_row st err inc rt now g) = g_job_id g"
  "g_chunk_id (mark_graph_row st err inc rt now g) = g_chunk_id g"
  "graph_key (mark_graph_row st err inc rt now g) = graph_key g"
  by (simp_all add: mark_graph_row_def graph_key_def Let_def)

section \<open>Table updates keep the constraints\<close>

text \<open>The foreign keys only look at which job ids and chunk ids there are.\<close>

lemma job_exists_ids: "job_exists d jid \<longleftrightarrow> jid \<in> j_id ` set (jobs d)"
  by (auto simp: job_exists_def)

lemma chunk_exists_ids: "chunk_exists d cid \<longleftrightarrow> cid \<in> c_id ` set (chunks d)"
  by (auto simp: chunk_exists_def)

lemma opt_ref_mono: "opt_ref P r \<Longrightarrow> (\<And>x. P x \<Longrightarrow> Q x) \<Longrightarrow> opt_ref Q r"
  by (auto simp: opt_ref_def split: option.splits)

lemma job_exists_upd:
  "(\<And>r. P r \<Longrightarrow> j_id (f r) = j_id r) \<Longrightarrow>
   job_exists (d\<lparr>jobs := upd_rows P f (jobs d)\<rparr>) = job_exists d"
  by (rule ext) (auto simp: job_exists_def set_upd_rows)

lemma db_wf_upd_jobs [wf_intros]:
  assumes "\<And>r. P r \<Longrightarrow> j_id (f r) = j_id r" and "db_wf d"
  shows "db_wf (d\<lparr>jobs := upd_rows P f (jobs d)\<rparr>)"
proof -
  have "map j_id (upd_rows P f (jobs d)) = map j_id (jobs d)"
    using assms(1) by (rule map_upd_rows)
  moreover have "job_exists (d\<lparr>jobs := upd_rows P f (jobs d)\<rparr>) = job_exists d"
    using assms(1) by (rule job_exists_upd)
  moreover have "chunk_exists (d\<lparr>jobs := upd_rows P f (jobs d)\<rparr>) = chunk_exists d"
    by (rule ext) (simp add: chunk_exists_def)
  ultimately show ?thesis
    using assms(2) by (simp add: db_wf_def db_unique_def db_refs_def)
qed

lemma db_refs_grow:
  assumes "db_refs d"
    and j: "\<And>x. job_exists d x \<Longrightarrow> job_exists d' x" and c: "\<And>x. chunk_exists d x \<Longrightarrow> chunk_exists d' x"
    and "\<forall>c\<in>set (chunks d'). job_exists d' (c_job_id c)"
    and "manifests d' = manifests d" and "graph_items d' = graph_items d"
    and "job_errors d' = job_errors d" and "hashes d' = hashes d"
  shows "db_refs d'"
proof -
  have m: "opt_ref (job_exists d) r \<Longrightarrow> opt_ref (job_exists d') r" "opt_ref (chunk_exists d) r \<Longrightarrow> opt_ref (chunk_exists d') r" for r
    by (erule opt_ref_mono, erule j) (erule opt_ref_mono, erule c)
  note r = assms(1) [unfolded db_refs_def, THEN conjunct2]
  have "\<forall>m\<in>set (manifests d). opt_ref (job_exists d') (m_job_id m) \<and> opt_ref (chunk_exists d') (m_chunk_id m)"
    using r [THEN conjunct1] m by blast
  moreover have "\<forall>g\<in>set (graph_items d). job_exists d' (g_job_id g) \<and> chunk_exists d' (g_chunk_id g)"
    using r [THEN conjunct2, THEN conjunct1] j c by blast
  moreover have "\<forall>e\<in>set (job_errors d). job_exists d' (e_job_id e) \<and> opt_ref (chunk_exists d') (e_chunk_id e)"
    using r [THEN conjunct2, THEN conjunct2, THEN conjunct1] j m by blast
  moreover have "\<forall>h\<in>set (hashes d). opt_ref (job_exists d') (h_job_id h) \<and> opt_ref (chunk_exists d') (h_chunk_id h)"
    using r [THEN conjunct2, THEN conjunct2, THEN conjunct2] m by blast
  ultimately show ?thesis using assms(4) by (simp add: db_refs_def assms(5-8))
qed

lemma db_wf_insert_job [wf_intros]:
  assumes "\<not> job_conflict d r" and "db_wf d"
  shows "db_wf (d\<lparr>jobs := jobs d @ [r]\<rparr>)"
proof -
  have mono: "job_exists d x \<Longrightarrow> job_exists (d\<lparr>jobs := jobs d @ [r]\<rparr>) x" for x
    by (auto simp: job_exists_def)
  have same: "chunk_exists (d\<lparr>jobs := jobs d @ [r]\<rparr>) = chunk_exists d"
    by (rule ext) (simp add: chunk_exists_def)
  have "db_unique (d\<lparr>jobs := jobs d @ [r]\<rparr>)"
    using assms by (simp add: db_wf_def db_unique_def job_conflict_def job_exists_ids)
  moreover have "db_refs (d\<lparr>jobs := jobs d @ [r]\<rparr>)"
  proof (rule db_refs_grow [where d = d])
    show "db_refs d" using assms(2) by (simp add: db_wf_def)
    then show "\<forall>c\<in>set (chunks (d\<lparr>jobs := jobs d @ [r]\<rparr>)). job_exists (d\<lparr>jobs := jobs d @ [r]\<rparr>) (c_job_id c)"
      using mono by (simp add: db_refs_def)
  qed (use mono in \<open>simp_all add: same\<close>)
  ultimately show ?thesis by (simp add: db_wf_def)
qed

lemma db_wf_upd_chunks [wf_intros]:
  assumes id: "\<And>r. P r \<Longrightarrow> chunk_ident (f r) = chunk_ident r" and "db_wf d"
  shows "db_wf (d\<lparr>chunks := upd_rows P f (chunks d)\<rparr>)"
proof -
  let ?d = "d\<lparr>chunks := upd_rows P f (chunks d)\<rparr>"
  have keys: "map c_id (chunks ?d) = map c_id (chunks d)" "map chunk_key (chunks ?d) = map chunk_key (chunks d)"
    using chunk_ident_eqD [OF id] by (auto intro!: map_upd_rows)
  have jobs: "map c_job_id (chunks ?d) = map c_job_id (chunks d)"
    using chunk_ident_eqD [OF id] by (auto intro!: map_upd_rows)
  have "chunk_exists ?d = chunk_exists d"
  proof (rule ext)
    fix x show "chunk_exists ?d x = chunk_exists d x"
      using keys(1) unfolding chunk_exists_ids by (metis list.set_map)
  qed
  moreover have "job_exists ?d = job_exists d"
    by (rule ext) (simp add: job_exists_def)
  moreover have "(\<forall>c\<in>set (chunks ?d). job_exists d (c_job_id c)) \<longleftrightarrow> (\<forall>c\<in>set (chunks d). job_exists d (c_job_id c))"
  proof -
    from arg_cong [OF jobs, of set] have "c_job_id ` set (chunks ?d) = c_job_id ` set (chunks d)" by simp
    then have "(\<forall>x\<in>c_job_id ` set (chunks ?d). job_exists d x) \<longleftrightarrow> (\<forall>x\<in>c_job_id ` set (chunks d). job_exists d x)"
      by (simp only:)
    then show ?thesis by (simp only: ball_simps)
  qed
  ultimately show ?thesis
    using assms(2) keys by (simp add: db_wf_def db_unique_def db_refs_def)
qed

lemma db_wf_insert_chunk [wf_intros]:
  assumes "\<not> chunk_conflict d r" and "db_wf d"
  shows "db_wf (d\<lparr>chunks := chunks d @ [r]\<rparr>)"
proof -
  have mono: "chunk_exists d x \<Longrightarrow> chunk_exists (d\<lparr>chunks := chunks d @ [r]\<rparr>) x" for x
    by (auto simp: chunk_exists_def)
  have same: "job_exists (d\<lparr>chunks := chunks d @ [r]\<rparr>) = job_exists d"
    by (rule ext) (simp add: job_exists_def)
  have "db_unique (d\<lparr>chunks := chunks d @ [r]\<rparr>)"
    using assms by (simp add: db_wf_def db_unique_def chunk_conflict_def)
  moreover have "db_refs (d\<lparr>chunks := chunks d @ [r]\<rparr>)"
  proof (rule db_refs_grow [where d = d])
    show "db_refs d" using assms(2) by (simp add: db_wf_def)
    then show "\<forall>c\<in>set (chunks (d\<lparr>chunks := chunks d @ [r]\<rparr>)). job_exists (d\<lparr>chunks := chunks d @ [r]\<rparr>) (c_job_id c)"
      using assms(1) by (simp add: db_refs_def same chunk_conflict_def)
  qed (use mono in \<open>simp_all add: same\<close>)
  ultimately show ?thesis by (simp add: db_wf_def)
qed

text \<open>The other tables are referred to by nobody.\<close>

lemma exists_other_tables [simp]:
  "job_exists (d\<lparr>manifests := ms\<rparr>) = job_exists d" "chunk_exists (d\<lparr>manifests := ms\<rparr>) = chunk_exists d"
  "job_exists (d\<lparr>graph_items := gs\<rparr>) = job_exists d" "chunk_exists (d\<lparr>graph_items := gs\<rparr>) = chunk_exists d"
  "job_exists (d\<lparr>job_errors := es\<rparr>) = job_exists d" "chunk_exists (d\<lparr>job_errors := es\<rparr>) = chunk_exists d"
  "job_exists (d\<lparr>hashes := hs\<rparr>) = job_exists d" "chunk_exists (d\<lparr>hashes := hs\<rparr>) = chunk_exists d"
  "chunk_exists (d\<lparr>jobs := js\<rparr>) = chunk_exists d" "job_exists (d\<lparr>chunks := cs\<rparr>) = job_exists d"
  by (rule ext, simp add: job_exists_def chunk_exists_def)+

lemma db_wf_manifests [wf_intros]:
  assumes "distinct (map m_id ms)" and "distinct (map manifest_key ms)"
    and "\<forall>m\<in>set ms. opt_ref (job_exists d) (m_job_id m) \<and> opt_ref (chunk_exists d) (m_chunk_id m)"
    and "db_wf d"
  shows "db_wf (d\<lparr>manifests := ms\<rparr>)"
  using assms by (simp add: db_wf_def db_unique_def db_refs_def)

lemma db_wf_hashes [wf_intros]:
  assumes "distinct (map h_id hs)" and "distinct (map hash_key hs)"
    and "\<forall>h\<in>set hs. opt_ref (job_exists d) (h_job_id h) \<and> opt_ref (chunk_exists d) (h_chunk_id h)"
    and "db_wf d"
  shows "db_wf (d\<lparr>hashes := hs\<rparr>)"
  using assms by (simp add: db_wf_def db_unique_def db_refs_def)

lemma db_wf_insert_manifest [wf_intros]:
  "\<not> manifest_conflict d r \<Longrightarrow> db_wf d \<Longrightarrow> db_wf (d\<lparr>manifests := manifests d @ [r]\<rparr>)"
  by (auto simp: db_wf_def db_unique_def db_refs_def manifest_conflict_def)

lemma db_wf_insert_hash [wf_intros]:
  "\<not> hash_conflict d r \<Longrightarrow> db_wf d \<Longrightarrow> db_wf (d\<lparr>hashes := hashes d @ [r]\<rparr>)"
  by (auto simp: db_wf_def db_unique_def db_refs_def hash_conflict_def)

lemma db_wf_insert_error [wf_intros]:
  "\<not> error_conflict d r \<Longrightarrow> db_wf d \<Longrightarrow> db_wf (d\<lparr>job_errors := job_errors d @ [r]\<rparr>)"
  by (auto simp: db_wf_def db_unique_def db_refs_def error_conflict_def)

lemma db_wf_insert_graph_item [wf_intros]:
  "\<not> graph_conflict d r \<Longrightarrow> db_wf d \<Longrightarrow> db_wf (d\<lparr>graph_items := graph_items d @ [r]\<rparr>)"
  by (auto simp: db_wf_def db_unique_def db_refs_def graph_conflict_def)

lemma db_wf_upd_graph_items [wf_intros]:
  assumes "\<And>r. P r \<Longrightarrow> g_id (f r) = g_id r \<and> graph_key (f r) = graph_key r" and "db_wf d"
  shows "db_wf (d\<lparr>graph_items := upd_rows P f (graph_items d)\<rparr>)"
proof -
  have keys: "map g_id (upd_rows P f (graph_items d)) = map g_id (graph_items d)"
    "map graph_key (upd_rows P f (graph_items d)) = map graph_key (graph_items d)"
    using assms(1) by (auto intro!: map_upd_rows)
  have "graph_key (f r) = graph_key r \<Longrightarrow> g_job_id (f r) = g_job_id r \<and> g_chunk_id (f r) = g_chunk_id r" for r
    by (simp add: graph_key_def)
  then have "\<forall>g\<in>set (upd_rows P f (graph_items d)). job_exists d (g_job_id g) \<and> chunk_exists d (g_chunk_id g)"
    using assms by (auto simp: set_upd_rows db_wf_def db_refs_def)
  with keys assms(2) show ?thesis
    by (simp add: db_wf_def db_unique_def db_refs_def)
qed

lemma distinct_map_filter_keys: "distinct (map k xs) \<Longrightarrow> distinct (map k (filter P xs))"
  by (rule distinct_map_filter)

lemma db_wf_filter_hashes [wf_intros]: "db_wf d \<Longrightarrow> db_wf (d\<lparr>hashes := filter P (hashes d)\<rparr>)"
  by (rule db_wf_hashes) (auto simp: db_wf_def db_unique_def db_refs_def intro: distinct_map_filter)

text \<open>A deletion with its cascade.\<close>

lemma cut_keys [simp]:
  "manifest_key (m\<lparr>m_job_id := a, m_chunk_id := b\<rparr>) = manifest_key m"
  "hash_key (h\<lparr>h_job_id := a, h_chunk_id := b\<rparr>) = hash_key h"
  by (simp_all add: manifest_key_def hash_key_def)

lemma opt_ref_cut: "opt_ref Q r \<Longrightarrow> (\<And>x. Q x \<Longrightarrow> \<not> gone x \<Longrightarrow> Q' x) \<Longrightarrow> opt_ref Q' (cut_ref gone r)"
  by (auto simp: opt_ref_def cut_ref_def split: option.splits)

lemma db_wf_delete_jobs [wf_intros]:
  assumes "db_wf d" and key: "\<And>r r'. P r \<Longrightarrow> r \<in> set (jobs d) \<Longrightarrow> r' \<in> set (jobs d) \<Longrightarrow> j_id r' = j_id r \<Longrightarrow> P r'"
  shows "db_wf (delete_jobs P d)"
proof -
  let ?gj = "\<lambda>jid. jid \<in> set (map j_id (filter P (jobs d)))"
  let ?gc = "\<lambda>cid. cid \<in> set (map c_id (filter (\<lambda>c. ?gj (c_job_id c)) (chunks d)))"
  let ?d = "delete_jobs P d"
  have je: "job_exists ?d x" if "job_exists d x" "\<not> ?gj x" for x
    using that by (auto simp: job_exists_def delete_jobs_def Let_def)
  have ce: "chunk_exists ?d x" if "chunk_exists d x" "\<not> ?gc x" for x
    using that by (auto simp: chunk_exists_def delete_jobs_def Let_def)
  have refs: "db_refs d" and uniq: "db_unique d"
    using assms(1) by (auto simp: db_wf_def)
  have "db_unique ?d"
    using uniq
    by (auto simp: db_unique_def delete_jobs_def Let_def o_def intro: distinct_map_filter)
  moreover have "db_refs ?d"
    unfolding db_refs_def
  proof (intro conjI ballI)
    fix c assume "c \<in> set (chunks ?d)"
    then have "c \<in> set (chunks d)" "\<not> ?gj (c_job_id c)" by (auto simp: delete_jobs_def Let_def)
    with refs je show "job_exists ?d (c_job_id c)" unfolding db_refs_def by blast
  next
    fix m assume "m \<in> set (manifests ?d)"
    then obtain m0 where m0: "m0 \<in> set (manifests d)"
      "m = m0\<lparr>m_job_id := cut_ref ?gj (m_job_id m0), m_chunk_id := cut_ref ?gc (m_chunk_id m0)\<rparr>"
      by (auto simp: delete_jobs_def Let_def)
    from m0(1) refs have "opt_ref (job_exists d) (m_job_id m0)" "opt_ref (chunk_exists d) (m_chunk_id m0)"
      by (auto simp: db_refs_def)
    with m0(2) show "opt_ref (job_exists ?d) (m_job_id m)" "opt_ref (chunk_exists ?d) (m_chunk_id m)"
      by (auto intro!: opt_ref_cut je ce)
  next
    fix g assume "g \<in> set (graph_items ?d)"
    then have "g \<in> set (graph_items d)" "\<not> ?gj (g_job_id g)" "\<not> ?gc (g_chunk_id g)"
      by (auto simp: delete_jobs_def Let_def)
    with refs show "job_exists ?d (g_job_id g)" "chunk_exists ?d (g_chunk_id g)"
      unfolding db_refs_def by (blast intro: je ce)+
  next
    fix e assume "e \<in> set (job_errors ?d)"
    then obtain e0 where e0: "e0 \<in> set (job_errors d)" "\<not> ?gj (e_job_id e0)"
      "e = e0\<lparr>e_chunk_id := cut_ref ?gc (e_chunk_id e0)\<rparr>"
      by (auto simp: delete_jobs_def Let_def)
    from e0(1) refs have "job_exists d (e_job_id e0)" "opt_ref (chunk_exists d) (e_chunk_id e0)"
      by (auto simp: db_refs_def)
    with e0(2,3) show "job_exists ?d (e_job_id e)" "opt_ref (chunk_exists ?d) (e_chunk_id e)"
      by (auto intro!: opt_ref_cut je ce)
  next
    fix h assume "h \<in> set (hashes ?d)"
    then obtain h0 where h0: "h0 \<in> set (hashes d)"
      "h = h0\<lparr>h_job_id := cut_ref ?gj (h_job_id h0), h_chunk_id := cut_ref ?gc (h_chunk_id h0)\<rparr>"
      by (auto simp: delete_jobs_def Let_def)
    from h0(1) refs have "opt_ref (job_exists d) (h_job_id h0)" "opt_ref (chunk_exists d) (h_chunk_id h0)"
      by (auto simp: db_refs_def)
    with h0(2) show "opt_ref (job_exists ?d) (h_job_id h)" "opt_ref (chunk_exists ?d) (h_chunk_id h)"
      by (auto intro!: opt_ref_cut je ce)
  qed
  ultimately show ?thesis by (simp add: db_wf_def)
qed

section \<open>Every operation keeps the constraints\<close>

text \<open>
  \<open>keeps_wf res\<close>: whatever the operation returned, the database it committed is well formed.
\<close>

definition keeps_wf :: "'a repo_result \<Rightarrow> bool" where
  "keeps_wf res = (case res of Inl _ \<Rightarrow> True | Inr (d, _) \<Rightarrow> db_wf d)"

lemma keeps_wf_simps [simp]:
  "keeps_wf (Inl e)" "keeps_wf (Inr (d, x)) \<longleftrightarrow> db_wf d"
  by (simp_all add: keeps_wf_def)

lemma keeps_wf_Inr: "db_wf (fst p) \<Longrightarrow> keeps_wf (Inr p)"
  by (cases p) simp

lemma keeps_wf_bind: "(\<And>x. m = Inr x \<Longrightarrow> keeps_wf (f x)) \<Longrightarrow> keeps_wf (bind_err m f)"
  by (cases m) simp_all

lemma if_cases_wf: "keeps_wf a \<Longrightarrow> keeps_wf b \<Longrightarrow> keeps_wf (if c then a else b)"
  by simp

lemma option_cases_wf:
  "keeps_wf a \<Longrightarrow> (\<And>x. keeps_wf (f x)) \<Longrightarrow> keeps_wf (case v of None \<Rightarrow> a | Some x \<Rightarrow> f x)"
  by (cases v) simp_all

lemma db_of_keeps_wf: "keeps_wf res \<Longrightarrow> db_of res = Inr d \<Longrightarrow> db_wf d"
  by (auto simp: db_of_eq_Inr)

lemma wf_update_and_fetch:
  "(\<And>r. P r \<Longrightarrow> j_id (f r) = j_id r) \<Longrightarrow> db_wf d \<Longrightarrow> db_wf (fst (update_and_fetch d jid P f))"
  by (simp add: update_and_fetch_def Let_def db_wf_upd_jobs)

lemma wf_update_and_fetch' [wf_intros]:
  "(\<And>r. P r \<Longrightarrow> j_id (f r) = j_id r) \<Longrightarrow> db_wf d \<Longrightarrow> keeps_wf (Inr (update_and_fetch d jid P f))"
  by (rule keeps_wf_Inr) (rule wf_update_and_fetch)

lemma wf_insert_job [wf_intros]: "db_wf d \<Longrightarrow> keeps_wf (insert_job d cols now)"
  by (simp add: insert_job_def Let_def db_wf_insert_job)

lemma wf_create_job: "db_wf d \<Longrightarrow> keeps_wf (create_job d cols nid now)"
  by (simp add: create_job_def wf_insert_job)

lemma wf_create_job_limited: "db_wf d \<Longrightarrow> keeps_wf (create_job_with_active_limit d cap ret cols nid now)"
  by (simp add: create_job_with_active_limit_def Let_def wf_insert_job split: option.split)

lemma wf_acquire: "db_wf d \<Longrightarrow> keeps_wf (acquire_job_lease d jid w secs tm clk tch)"
  by (auto simp: acquire_job_lease_def Let_def intro!: keeps_wf_bind wf_intros)

lemma wf_renew: "db_wf d \<Longrightarrow> keeps_wf (renew_job_lease d jid w secs tm clk)"
  by (auto simp: renew_job_lease_def Let_def intro!: keeps_wf_bind wf_intros)

lemma wf_release: "db_wf d \<Longrightarrow> keeps_wf (release_job_lease d jid w tch)"
  by (auto simp: release_job_lease_def Let_def intro!: wf_intros)

lemma wf_graph_retry: "db_wf d \<Longrightarrow> keeps_wf (activate_graph_retry d jid pid w secs cap tm clk)"
  by (auto simp: activate_graph_retry_def Let_def intro!: keeps_wf_bind wf_intros)

lemma wf_reserve: "db_wf d \<Longrightarrow> keeps_wf (reserve_workspace_bytes d jid w req cap secs tm clk)"
  by (auto simp: reserve_workspace_bytes_def Let_def intro!: keeps_wf_bind wf_intros)

lemma wf_delete_uploading: "db_wf d \<Longrightarrow> keeps_wf (delete_uploading_job d jid w now)"
  unfolding delete_uploading_job_def Let_def
proof (rule keeps_wf_bind, unfold keeps_wf_simps, rule db_wf_delete_jobs)
  fix ow r r'
  assume wf: "db_wf d" and j: "r \<in> set (jobs d)" "r' \<in> set (jobs d)" "j_id r' = j_id r"
    and P: "j_status r = JUploading \<and> (case ow of None \<Rightarrow> False | Some owner \<Rightarrow> active_lease_conditions jid owner now r)"
  from wf have "distinct (map j_id (jobs d))" by (simp add: db_wf_def db_unique_def)
  with j have "r' = r" by (metis distinct_map inj_onD)
  show "j_status r' = JUploading \<and> (case ow of None \<Rightarrow> False | Some owner \<Rightarrow> active_lease_conditions jid owner now r')"
    unfolding \<open>r' = r\<close> by (rule P)
qed

lemma wf_reconcile: "db_wf d \<Longrightarrow> keeps_wf (reconcile_workspace_bytes d jid n tm clk)"
  by (auto simp: reconcile_workspace_bytes_def Let_def intro!: wf_intros)

lemma wf_retry: "db_wf d \<Longrightarrow> keeps_wf (acquire_job_retry_lease d jid pid w secs sts cap tm clk)"
  by (auto simp: acquire_job_retry_lease_def Let_def row_keys split: option.split
           intro!: keeps_wf_bind wf_intros)

lemma wf_discard: "db_wf d \<Longrightarrow> keeps_wf (acquire_job_workspace_discard_lease d jid pid w secs sts tm clk)"
  by (auto simp: acquire_job_workspace_discard_lease_def Let_def intro!: keeps_wf_bind wf_intros)

lemma wf_end_discard:
  "(\<And>r. j_id (f r) = j_id r) \<Longrightarrow> db_wf d \<Longrightarrow> keeps_wf (end_discard d jid w f)"
  by (auto simp: end_discard_def split: option.split intro!: keeps_wf_bind wf_intros)

lemma wf_complete_discard: "db_wf d \<Longrightarrow> keeps_wf (complete_job_workspace_discard d jid w now)"
  by (auto simp: complete_job_workspace_discard_def intro!: wf_end_discard)

lemma wf_abort_discard: "db_wf d \<Longrightarrow> keeps_wf (abort_job_workspace_discard d jid w now)"
  by (auto simp: abort_job_workspace_discard_def intro!: wf_end_discard)

lemma wf_cancel: "db_wf d \<Longrightarrow> db_wf (fst (request_job_cancel d jid pid sts now))"
  by (auto simp: request_job_cancel_def Let_def intro!: wf_update_and_fetch)

lemma wf_write_job: "(\<And>r. j_id (f r) = j_id r) \<Longrightarrow> db_wf d \<Longrightarrow> keeps_wf (write_job d jid w f now)"
  by (auto simp: write_job_def split: option.split intro!: keeps_wf_bind wf_intros)

lemma wf_update_job: "db_wf d \<Longrightarrow> keeps_wf (update_job d jid w cols now)"
  by (simp add: update_job_def wf_write_job row_keys)

lemma wf_increment_job: "db_wf d \<Longrightarrow> keeps_wf (increment_job d jid w deltas now)"
  by (simp add: increment_job_def wf_write_job row_keys)

lemma fenced_insert_Inr:
  "fenced_insert d jid ow now conflict ins = Inr d' \<longleftrightarrow> \<not> conflict \<and> d' = ins \<and> fence d jid ow now"
  by (auto simp: fenced_insert_def insert_if_active_lease_def fence_def split: option.split)

lemma wf_upsert_existing: "db_wf d \<Longrightarrow> keeps_wf (upsert_existing_chunk d jid ow vals ex upd)"
  by (auto simp: upsert_existing_chunk_def Let_def
           split: option.split intro!: keeps_wf_bind db_wf_upd_chunks set_chunk_cols_ident mutable_chunk_cols_keep)

lemma wf_upsert: "db_wf d \<Longrightarrow> keeps_wf (upsert_chunk d w given nid now upd)"
  by (auto simp: upsert_chunk_def Let_def fenced_insert_Inr wf_upsert_existing
           split: option.split sum.split intro!: keeps_wf_bind db_wf_insert_chunk)

lemma wf_update_chunk: "db_wf d \<Longrightarrow> keeps_wf (update_chunk d jid key w cols now)"
  by (auto simp: update_chunk_def Let_def row_keys mutable_chunk_cols_keep
           intro!: keeps_wf_bind db_wf_upd_chunks)

lemma wf_commit_manifests:
  "map m_id ms = map m_id (manifests d) \<Longrightarrow> map manifest_key ms = map manifest_key (manifests d) \<Longrightarrow>
   db_wf d \<Longrightarrow> keeps_wf (commit_manifests d ms res)"
proof -
  assume "map m_id ms = map m_id (manifests d)" "map manifest_key ms = map manifest_key (manifests d)"
    and wf: "db_wf d"
  then have "distinct (map m_id ms)" "distinct (map manifest_key ms)"
    by (simp_all only: db_wf_def db_unique_def)
  with wf show ?thesis by (simp add: commit_manifests_def db_wf_manifests)
qed

lemma wf_reclaim_manifest: "db_wf d \<Longrightarrow> keeps_wf (reclaim_manifest d ex jid cid ow upd)"
  unfolding reclaim_manifest_def Let_def
  by (rule keeps_wf_bind)
     (auto split: option.split intro!: wf_commit_manifests map_upd_rows simp: manifest_key_def)

lemma wf_claim_manifest: "db_wf d \<Longrightarrow> keeps_wf (claim_manifest d pid key jid cid w nid now upd)"
  unfolding claim_manifest_def Let_def
  by (rule keeps_wf_bind)
     (auto simp: fenced_insert_Inr wf_reclaim_manifest split: option.split sum.split
           intro!: db_wf_insert_manifest)

lemma wf_mark_manifest: "db_wf d \<Longrightarrow> keeps_wf (mark_manifest d pid key st mids job w cols now)"
  unfolding mark_manifest_def Let_def
  by (rule keeps_wf_bind)
     (auto simp: row_keys intro!: keeps_wf_bind wf_commit_manifests map_upd_rows)

lemma wf_add_error: "db_wf d \<Longrightarrow> keeps_wf (add_error d jid src msg w v nid now)"
  unfolding add_error_def Let_def
  by (rule keeps_wf_bind, rule keeps_wf_bind)
     (auto simp: fenced_insert_Inr split: option.split
           intro!: db_wf_upd_jobs [of _ _ "d\<lparr>job_errors := _\<rparr>", simplified] db_wf_insert_error)

lemma wf_commit_hashes:
  "map h_id hs = map h_id (hashes d) \<Longrightarrow> map hash_key hs = map hash_key (hashes d) \<Longrightarrow>
   db_wf d \<Longrightarrow> keeps_wf (commit_hashes d hs res)"
proof -
  assume "map h_id hs = map h_id (hashes d)" "map hash_key hs = map hash_key (hashes d)"
    and wf: "db_wf d"
  then have "distinct (map h_id hs)" "distinct (map hash_key hs)"
    by (simp_all only: db_wf_def db_unique_def)
  with wf show ?thesis by (simp add: commit_hashes_def db_wf_hashes)
qed

lemma wf_reclaim_hash: "db_wf d \<Longrightarrow> keeps_wf (reclaim_hash d ex jid cid ow upd)"
  unfolding reclaim_hash_def Let_def
  by (rule keeps_wf_bind) (auto intro!: wf_commit_hashes map_upd_rows simp: hash_key_def)

lemma wf_claim_hash: "db_wf d \<Longrightarrow> keeps_wf (claim_memory_hash d pid conv mh jid cid w nid now upd)"
  unfolding claim_memory_hash_def Let_def
  by (rule keeps_wf_bind)
     (auto simp: fenced_insert_Inr wf_reclaim_hash split: option.split sum.split
           intro!: db_wf_insert_hash)

lemma wf_release_hashes: "db_wf d \<Longrightarrow> keeps_wf (release_memory_hashes d jid cid hs w now)"
  unfolding release_memory_hashes_def Let_def
  by (rule keeps_wf_bind) (auto intro!: keeps_wf_bind db_wf_filter_hashes)

lemma wf_upd_hashes:
  assumes "\<And>h. P h \<Longrightarrow> h_id (f h) = h_id h \<and> hash_key (f h) = hash_key h
                        \<and> h_job_id (f h) = h_job_id h \<and> h_chunk_id (f h) = h_chunk_id h"
    and "db_wf d"
  shows "db_wf (d\<lparr>hashes := upd_rows P f (hashes d)\<rparr>)"
proof (rule db_wf_hashes)
  show "distinct (map h_id (upd_rows P f (hashes d)))" "distinct (map hash_key (upd_rows P f (hashes d)))"
    using assms by (simp_all add: map_upd_rows db_wf_def db_unique_def)
  show "\<forall>h\<in>set (upd_rows P f (hashes d)). opt_ref (job_exists d) (h_job_id h) \<and> opt_ref (chunk_exists d) (h_chunk_id h)"
    using assms by (auto simp: set_upd_rows db_wf_def db_refs_def)
qed (rule assms(2))

lemma wf_succeed_hashes:
  "db_wf d \<Longrightarrow> db_wf (fst (succeed_hashes d pid conv job ch ids ow now mhs n))"
proof (induction mhs arbitrary: d n)
  case (Cons mh mhs)
  show ?case
    unfolding succeed_hashes.simps Let_def
    by (rule Cons.IH, rule wf_upd_hashes) (simp_all add: hash_key_def Cons.prems)
qed simp

lemma wf_mark_hashes: "db_wf d \<Longrightarrow> keeps_wf (mark_memory_hashes_succeeded d pid conv mhs job ch arg w now)"
  unfolding mark_memory_hashes_succeeded_def Let_def
  by (rule keeps_wf_bind) (auto intro!: keeps_wf_bind keeps_wf_Inr wf_succeed_hashes)

lemma wf_insert_graph_items:
  "db_wf d \<Longrightarrow> insert_graph_items d jid cid ow ps nids now rows n = Inr (d', rows', n') \<Longrightarrow> db_wf d'"
proof (induction d jid cid ow ps nids now rows n rule: insert_graph_items.induct)
  case (2 d jid cid ow key mid payload ps nids now rows n)
  show ?case
    using 2 by (auto simp: Let_def fenced_insert_Inr split: sum.splits if_splits option.splits
                     dest: db_wf_insert_graph_item)
qed simp

lemma wf_add_graph: "db_wf d \<Longrightarrow> keeps_wf (add_graph_items d jid cid items w nids now)"
  unfolding add_graph_items_def Let_def
  by (rule keeps_wf_bind, rule keeps_wf_bind)
     (auto split: option.split intro!: keeps_wf_bind db_wf_upd_jobs; blast intro: wf_insert_graph_items)

lemma wf_refresh:
  "db_wf d \<Longrightarrow> refresh_graph_job_counts d jids err ow now = Inr d' \<Longrightarrow> db_wf d'"
proof (induction d jids err ow now rule: refresh_graph_job_counts.induct)
  case (2 d jid jids err ow now)
  have "db_wf (d\<lparr>jobs := upd_rows (job_target jid ow now) (refreshed_job_row d err now) (jobs d)\<rparr>)"
    using 2(3) by (rule db_wf_upd_jobs [rotated]) (simp add: row_keys)
  with 2 show ?case
    by (auto simp: Let_def split: option.splits if_splits)
qed simp

lemma wf_mark_graph: "db_wf d \<Longrightarrow> keeps_wf (mark_graph_items d ids st err inc rt job w now)"
proof -
  assume wf: "db_wf d"
  have d1: "db_wf (d\<lparr>graph_items := upd_rows P (mark_graph_row st err inc rt now) (graph_items d)\<rparr>)" for P
    using wf by (rule db_wf_upd_graph_items [rotated]) (simp add: row_keys)
  have d2: "db_wf (d1\<lparr>jobs := upd_rows Q (\<lambda>r. r\<lparr>j_count := (j_count r)(GraphAttempts := j_count r GraphAttempts + 1),
                                                 j_updated_at := now\<rparr>) (jobs d1)\<rparr>)"
    if "db_wf d1" for Q d1
    using that by (rule db_wf_upd_jobs [rotated]) simp
  have fin: "keeps_wf (bind_err (refresh_graph_job_counts d2 jids err ow now) (\<lambda>d3. Inr (d3, n)))"
    if "db_wf d2" for d2 jids ow n
    by (rule keeps_wf_bind) (use wf_refresh [OF that] in auto)
  show ?thesis
    unfolding mark_graph_items_def Let_def
    by (rule keeps_wf_bind)
       (intro if_cases_wf keeps_wf_bind option_cases_wf fin; simp only: if_split d1 d2 wf keeps_wf_simps simp_thms)
qed

lemmas op_wf =
  wf_create_job wf_create_job_limited wf_acquire wf_renew wf_release wf_graph_retry wf_reserve
  wf_delete_uploading wf_reconcile wf_retry wf_discard wf_complete_discard wf_abort_discard
  wf_update_job wf_increment_job wf_upsert wf_update_chunk wf_claim_manifest wf_mark_manifest
  wf_add_error wf_claim_hash wf_release_hashes wf_mark_hashes wf_add_graph wf_mark_graph

lemma exec_call_wf: "db_wf d \<Longrightarrow> exec_call c d = Inr d' \<Longrightarrow> db_wf d'"
  by (cases c) (auto intro: db_of_keeps_wf op_wf wf_cancel)

section \<open>Reachable databases\<close>

inductive repo_step :: "import_db \<Rightarrow> import_db \<Rightarrow> bool" where
  call: "exec_call c d = Inr d' \<Longrightarrow> repo_step d d'"

inductive repo_reachable :: "import_db \<Rightarrow> bool" where
  start: "repo_reachable empty_db"
| step: "repo_reachable d \<Longrightarrow> repo_step d d' \<Longrightarrow> repo_reachable d'"

inductive_cases repo_stepE: "repo_step d d'"

lemma repo_step_wf: "repo_step d d' \<Longrightarrow> db_wf d \<Longrightarrow> db_wf d'"
  by (auto elim: repo_stepE intro: exec_call_wf)

lemma reachable_wf: "repo_reachable d \<Longrightarrow> db_wf d"
  by (induction rule: repo_reachable.induct) (auto intro: db_wf_empty repo_step_wf)

end
