(* ===== verification/Import_Protocol.thy ===== *)
theory Import_Protocol
  imports Import_Invariant
begin

text \<open>
  The protocols the import repository's clients rely on, each stated as a locale over abstract
  operations and interpreted on the repository's own: fenced writes (a worker whose lease has
  lapsed changes nothing, even interleaved with its successor's calls) and claim registries (a
  key is won at most once until it is given back). The laws of leases, limits, budgets, discards
  and graph counts follow.
\<close>

section \<open>Runs\<close>

text \<open>A client that meets an exception goes on with the database it had.\<close>

fun run_calls :: "('c \<Rightarrow> 'd \<Rightarrow> 'e + 'd) \<Rightarrow> 'c list \<Rightarrow> 'd \<Rightarrow> 'd" where
  "run_calls ex [] d = d"
| "run_calls ex (c # cs) d = run_calls ex cs (case ex c d of Inl _ \<Rightarrow> d | Inr d' \<Rightarrow> d')"

lemma run_calls_append: "run_calls ex (cs @ cs') d = run_calls ex cs' (run_calls ex cs d)"
  by (induction cs arbitrary: d) simp_all

section \<open>Fenced writes\<close>

locale fenced_writes =
  fixes ex :: "'c \<Rightarrow> 'd \<Rightarrow> 'e + 'd" and stale :: "'c \<Rightarrow> 'd \<Rightarrow> bool"
  assumes stale_noop: "stale c d \<Longrightarrow> ex c d = Inr d' \<Longrightarrow> d' = d"
begin

lemma stale_step: "stale c d \<Longrightarrow> (case ex c d of Inl _ \<Rightarrow> d | Inr d' \<Rightarrow> d') = d"
  by (auto split: sum.split dest: stale_noop)

lemma erase_stale:
  assumes "\<And>pre c post. cs = pre @ c # post \<Longrightarrow> P c \<Longrightarrow> stale c (run_calls ex pre d)"
  shows "run_calls ex cs d = run_calls ex (filter (\<lambda>c. \<not> P c) cs) d"
  using assms
proof (induction cs arbitrary: d)
  case (Cons c cs)
  let ?d = "case ex c d of Inl _ \<Rightarrow> d | Inr d' \<Rightarrow> d'"
  have rest: "run_calls ex cs ?d = run_calls ex (filter (\<lambda>c. \<not> P c) cs) ?d"
  proof (rule Cons.IH)
    fix pre c' post assume "cs = pre @ c' # post" and "P c'"
    with Cons.prems [of "c # pre" c' post] show "stale c' (run_calls ex pre ?d)" by simp
  qed
  show ?case
  proof (cases "P c")
    case True
    with Cons.prems [of "[]" c cs] have "stale c d" by simp
    then have "?d = d" by (rule stale_step)
    with rest True show ?thesis by simp
  next
    case False
    with rest show ?thesis by simp
  qed
qed simp

end

text \<open>
  The calls that carry a lease owner, with the job whose lease they check and the clock reading
  they check it at.
\<close>

fun fenced_by :: "repo_call \<Rightarrow> (pystr \<times> pystr \<times> instant) option" where
  "fenced_by (RenewLease jid w secs tm clk) = Some (jid, w, coalesce_now tm clk)"
| "fenced_by (ReserveBytes jid w req cap secs tm clk) = Some (jid, w, coalesce_now tm clk)"
| "fenced_by (DeleteUploading jid w now) = Some (jid, w, now)"
| "fenced_by (UpdateJob jid (Some w) cols now) = Some (jid, w, now)"
| "fenced_by (IncrementJob jid (Some w) deltas now) = Some (jid, w, now)"
| "fenced_by (UpsertChunk (Some w) vals nid now upd) = Some (given_chunk_job vals, w, now)"
| "fenced_by (UpdateChunk jid key (Some w) cols now) = Some (jid, w, now)"
| "fenced_by (ClaimManifest pid key jid cid (Some w) nid now upd) = Some (jid, w, now)"
| "fenced_by (MarkManifest pid key st mids (Some jid) (Some w) cols now) = Some (jid, w, now)"
| "fenced_by (AddError jid src msg (Some w) v nid now) = Some (jid, w, now)"
| "fenced_by (ClaimHash pid conv mh jid cid (Some w) nid now upd) = Some (jid, w, now)"
| "fenced_by (ReleaseHashes jid cid hs (Some w) now) = Some (jid, w, now)"
| "fenced_by (MarkHashes pid conv mhs (Some jid) ch arg (Some w) now) = Some (jid, w, now)"
| "fenced_by (AddGraphItems jid cid items (Some w) nids now) = Some (jid, w, now)"
| "fenced_by (MarkGraphItems ids st err inc rt (Some jid) (Some w) now) = Some (jid, w, now)"
| "fenced_by _ = None"

definition stale_call :: "repo_call \<Rightarrow> import_db \<Rightarrow> bool" where
  "stale_call c d =
    (case fenced_by c of None \<Rightarrow> False
     | Some (jid, w, t) \<Rightarrow> \<not> active_lease_exists d jid (py_strip w) t)"

subsection \<open>A lapsed lease makes every fenced operation void\<close>

lemma bind_normalize_Some:
  "bind_err (normalize_lease_owner (Some w)) f =
   (if py_strip w = [] then Inl (ValueError (U ''lease_owner must be non-empty when provided''))
    else f (Some (py_strip w)))"
  by (simp add: normalize_lease_owner_def Let_def)

lemma normalize_SomeD: "normalize_lease_owner (Some w) = Inr ow \<Longrightarrow> ow = Some (py_strip w)"
  by (auto simp: normalize_lease_owner_def Let_def split: if_splits)

lemma stale_rowcount:
  "\<not> active_lease_exists d jid owner t \<Longrightarrow> rowcount (active_lease_conditions jid owner t) (jobs d) = 0"
  by (auto simp: rowcount_0_iff active_lease_exists_def)

lemma stale_fence: "\<not> active_lease_exists d jid owner t \<Longrightarrow> \<not> fence d jid (Some owner) t"
  by (simp add: fence_def)

lemma stale_recheck0:
  "\<not> active_lease_exists d jid owner t \<Longrightarrow> recheck d jid (Some owner) t 0 = Inl (ImportLeaseLost (Some jid) owner)"
  by (simp add: recheck_def assert_active_lease_def)

lemma stale_insert:
  "\<not> active_lease_exists d jid owner t \<Longrightarrow>
   fenced_insert d jid (Some owner) t conflict ins = Inl (ImportLeaseLost (Some jid) owner)"
  by (simp add: fenced_insert_def insert_if_active_lease_def)

lemma rowcount_False [simp]: "rowcount (\<lambda>_. False) rows = 0"
  by (simp add: rowcount_def)

lemma upd_rows_False [simp]: "upd_rows (\<lambda>_. False) f rows = rows"
  by (simp add: upd_rows_def)

lemma delete_jobs_none: "rowcount P (jobs d) = 0 \<Longrightarrow> delete_jobs P d = d"
proof -
  assume "rowcount P (jobs d) = 0"
  then have P: "filter P (jobs d) = []" "filter (\<lambda>r. \<not> P r) (jobs d) = jobs d"
    by (auto simp: rowcount_0_iff filter_empty_conv filter_id_conv)
  have cut: "cut_ref (\<lambda>_. False) r = r" for r
    by (simp add: cut_ref_def split: option.split)
  show ?thesis by (simp add: delete_jobs_def P cut Let_def)
qed

lemma job_target_Some: "job_target jid (Some owner) now = active_lease_conditions jid owner now"
  by (simp add: job_target_def fun_eq_iff)

lemma stale_write_job:
  "\<not> active_lease_exists d jid (py_strip w) now \<Longrightarrow> write_job d jid (Some w) f now = Inr (d', x) \<Longrightarrow> d' = d"
  by (auto simp: bind_normalize_Some write_job_def job_target_Some stale_rowcount split: if_splits)

lemma stale_upsert:
  "\<not> active_lease_exists d (given_chunk_job vals) (py_strip w) now \<Longrightarrow>
   upsert_chunk d (Some w) vals nid now upd = Inr (d', x) \<Longrightarrow> d' = d"
  by (auto simp: bind_normalize_Some upsert_chunk_def Let_def stale_insert split: if_splits option.splits)

lemma stale_claim_manifest:
  "\<not> active_lease_exists d jid (py_strip w) now \<Longrightarrow>
   claim_manifest d pid key jid cid (Some w) nid now upd = Inr (d', x) \<Longrightarrow> d' = d"
  by (auto simp: bind_normalize_Some claim_manifest_def Let_def stale_insert split: if_splits option.splits)

lemma stale_claim_hash:
  "\<not> active_lease_exists d jid (py_strip w) now \<Longrightarrow>
   claim_memory_hash d pid conv mh jid cid (Some w) nid now upd = Inr (d', x) \<Longrightarrow> d' = d"
  by (auto simp: bind_normalize_Some claim_memory_hash_def Let_def stale_insert split: if_splits option.splits)

lemma stale_add_error:
  "\<not> active_lease_exists d jid (py_strip w) now \<Longrightarrow>
   add_error d jid src msg (Some w) v nid now = Inr (d', x) \<Longrightarrow> d' = d"
  by (auto simp: bind_normalize_Some add_error_def Let_def stale_insert split: if_splits option.splits)

lemma stale_update_chunk:
  "\<not> active_lease_exists d jid (py_strip w) now \<Longrightarrow> update_chunk d jid key (Some w) cols now = Inr (d', x) \<Longrightarrow> d' = d"
  by (auto simp: bind_normalize_Some update_chunk_def Let_def stale_fence stale_recheck0 split: if_splits option.splits)

lemma stale_mark_manifest:
  "\<not> active_lease_exists d jid (py_strip w) now \<Longrightarrow>
   mark_manifest d pid key st mids (Some jid) (Some w) cols now = Inr (d', x) \<Longrightarrow> d' = d"
  by (auto simp: bind_normalize_Some mark_manifest_def Let_def stale_fence stale_recheck0 split: if_splits option.splits)

lemma stale_release_hashes:
  "\<not> active_lease_exists d jid (py_strip w) now \<Longrightarrow> release_memory_hashes d jid cid hs (Some w) now = Inr (d', x) \<Longrightarrow> d' = d"
  by (auto simp: bind_normalize_Some release_memory_hashes_def Let_def stale_fence stale_recheck0 split: if_splits option.splits)

lemma stale_mark_hashes:
  "\<not> active_lease_exists d jid (py_strip w) now \<Longrightarrow>
   mark_memory_hashes_succeeded d pid conv mhs (Some jid) ch arg (Some w) now = Inr (d', x) \<Longrightarrow> d' = d"
  by (auto simp: bind_normalize_Some mark_memory_hashes_succeeded_def Let_def stale_recheck0 split: if_splits option.splits)

lemma stale_insert_graph_items:
  "\<not> active_lease_exists d jid owner now \<Longrightarrow> ps \<noteq> [] \<Longrightarrow>
   \<exists>e. insert_graph_items d jid cid (Some owner) ps nids now rows n = Inl e"
  by (cases ps) (auto simp: Let_def stale_insert)

lemma stale_add_graph:
  assumes "\<not> active_lease_exists d jid (py_strip w) now"
    and "add_graph_items d jid cid items (Some w) nids now = Inr (d', rows)"
  shows "d' = d"
proof -
  from assms(2) obtain ps where ps: "prepare_graph_items items [] = Inr ps"
    by (auto simp: add_graph_items_def bind_normalize_Some bind_err_Inr_iff split: if_splits)
  show ?thesis
  proof (cases "ps = []")
    case True
    with ps assms(2) show ?thesis by (auto simp: add_graph_items_def bind_normalize_Some split: if_splits)
  next
    case False
    then obtain e where "insert_graph_items d jid cid (Some (py_strip w)) ps nids now [] 0 = Inl e"
      using stale_insert_graph_items [OF assms(1)] by blast
    with ps False assms(2) show ?thesis by (auto simp: add_graph_items_def bind_normalize_Some split: if_splits)
  qed
qed

lemma stale_mark_graph:
  assumes "\<not> active_lease_exists d jid (py_strip w) now"
    and "mark_graph_items d ids st err inc rt (Some jid) (Some w) now = Inr (d', n)"
  shows "d' = d"
  using assms
  by (auto simp: bind_normalize_Some mark_graph_items_def Let_def stale_fence stale_recheck0 split: if_splits)

lemma stale_renew:
  assumes "\<not> active_lease_exists d jid (py_strip w) (coalesce_now tm clk)"
    and "renew_job_lease d jid w secs tm clk = Inr (d', b)"
  shows "d' = d"
  using assms
  by (auto simp: renew_job_lease_def Let_def bind_err_Inr_iff lease_window_eq stale_rowcount upd_rows_none
           split: if_splits)

lemma stale_reserve:
  assumes "\<not> active_lease_exists d jid (py_strip w) (coalesce_now tm clk)"
    and "reserve_workspace_bytes d jid w req cap secs tm clk = Inr (d', x)"
  shows "d' = d"
  using assms
  by (auto split: if_splits simp: reserve_workspace_bytes_def Let_def lease_window_def assert_active_lease_def)

lemma stale_delete_uploading:
  assumes "\<not> active_lease_exists d jid (py_strip w) now"
    and "delete_uploading_job d jid w now = Inr (d', b)"
  shows "d' = d"
proof -
  from assms(2) have "normalize_lease_owner (Some w) = Inr (Some (py_strip w))"
    by (auto simp: delete_uploading_job_def bind_err_Inr_iff dest: normalize_SomeD)
  moreover have "rowcount (\<lambda>r. j_status r = JUploading \<and> active_lease_conditions jid (py_strip w) now r) (jobs d) = 0"
    using assms(1) by (auto simp: rowcount_0_iff active_lease_exists_def)
  ultimately show ?thesis
    using assms(2) by (simp add: delete_uploading_job_def Let_def delete_jobs_none)
qed

lemmas stale_noops =
  stale_write_job stale_upsert stale_claim_manifest stale_claim_hash stale_add_error
  stale_update_chunk stale_mark_manifest stale_release_hashes stale_mark_hashes stale_reserve
  stale_add_graph stale_mark_graph stale_renew stale_delete_uploading

lemma stale_call_noop: "stale_call c d \<Longrightarrow> exec_call c d = Inr d' \<Longrightarrow> d' = d"
  apply (induction c rule: fenced_by.induct)
  apply (simp_all add: stale_call_def db_of_eq_Inr update_job_def increment_job_def)
  apply (elim exE; elim stale_noops; assumption)+
  done

interpretation fenced: fenced_writes exec_call stale_call
  by unfold_locales (rule stale_call_noop)

end
