(* ===== verification/Import_Leases.thy ===== *)
theory Import_Leases
  imports Import_Protocol
begin

text \<open>
  What a job lease gives its holder. \<open>keeps I res\<close> says that the database an operation commits
  satisfies \<open>I\<close>; its rules decompose an operation the way the code is written, so that each
  operation's fact is one line. The theorems: a live lease survives every call that is not
  entitled to end it, is granted only when nobody holds one, and makes the calls of any earlier
  holder invisible.
\<close>

named_theorems lease_intros \<open>job updates that leave a lease alone\<close>

section \<open>Postconditions of operations\<close>

definition keeps :: "(import_db \<Rightarrow> bool) \<Rightarrow> 'a repo_result \<Rightarrow> bool" where
  "keeps I res = (case res of Inl _ \<Rightarrow> True | Inr (d, _) \<Rightarrow> I d)"

lemma keeps_simps [simp]: "keeps I (Inl e)" "keeps I (Inr (d, x)) \<longleftrightarrow> I d"
  by (simp_all add: keeps_def)

lemma keeps_Inr: "I (fst p) \<Longrightarrow> keeps I (Inr p)"
  by (cases p) simp

lemma keeps_bind: "(\<And>x. m = Inr x \<Longrightarrow> keeps I (f x)) \<Longrightarrow> keeps I (bind_err m f)"
  by (cases m) simp_all

lemma keeps_if: "keeps I a \<Longrightarrow> keeps I b \<Longrightarrow> keeps I (if c then a else b)"
  by simp

lemma keeps_option: "keeps I a \<Longrightarrow> (\<And>x. keeps I (f x)) \<Longrightarrow> keeps I (case v of None \<Rightarrow> a | Some x \<Rightarrow> f x)"
  by (cases v) simp_all

lemma db_of_keeps: "keeps I res \<Longrightarrow> db_of res = Inr d \<Longrightarrow> I d"
  by (auto simp: db_of_eq_Inr)

section \<open>A live lease through one operation\<close>

lemma live_other_tables [simp]:
  "active_lease_exists (d\<lparr>chunks := x1\<rparr>) = active_lease_exists d"
  "active_lease_exists (d\<lparr>manifests := x2\<rparr>) = active_lease_exists d"
  "active_lease_exists (d\<lparr>graph_items := x3\<rparr>) = active_lease_exists d"
  "active_lease_exists (d\<lparr>job_errors := x4\<rparr>) = active_lease_exists d"
  "active_lease_exists (d\<lparr>hashes := x5\<rparr>) = active_lease_exists d"
  by (intro ext, simp add: active_lease_exists_def)+

lemma live_insert [lease_intros]:
  "active_lease_exists d jid w t \<Longrightarrow> active_lease_exists (d\<lparr>jobs := jobs d @ [r]\<rparr>) jid w t"
  by (auto simp: active_lease_exists_def)

lemma live_upd [lease_intros]:
  assumes "active_lease_exists d jid w t"
    and "\<And>r. P r \<Longrightarrow> active_lease_conditions jid w t r \<Longrightarrow> active_lease_conditions jid w t (f r)"
  shows "active_lease_exists (d\<lparr>jobs := upd_rows P f (jobs d)\<rparr>) jid w t"
proof -
  from assms(1) obtain r where r: "r \<in> set (jobs d)" "active_lease_conditions jid w t r"
    by (auto simp: active_lease_exists_def)
  define r' where "r' = (if P r then f r else r)"
  have "r' \<in> set (upd_rows P f (jobs d))" using r(1) by (auto simp: r'_def set_upd_rows)
  moreover have "active_lease_conditions jid w t r'" using r(2) assms(2) by (simp add: r'_def)
  ultimately show ?thesis by (auto simp: active_lease_exists_def)
qed

text \<open>Row updates that keep the id, the owner and the expiry.\<close>

definition keeps_lease_cols :: "(job_row \<Rightarrow> job_row) \<Rightarrow> bool" where
  "keeps_lease_cols f \<longleftrightarrow>
    (\<forall>r. j_id (f r) = j_id r \<and> j_lease_owner (f r) = j_lease_owner r \<and> j_lease_expires_at (f r) = j_lease_expires_at r)"

lemma live_upd_cols [lease_intros]:
  "active_lease_exists d jid w t \<Longrightarrow> keeps_lease_cols f \<Longrightarrow>
   active_lease_exists (d\<lparr>jobs := upd_rows P f (jobs d)\<rparr>) jid w t"
  by (rule live_upd) (simp_all add: keeps_lease_cols_def active_lease_conditions_def)

lemma live_fetch_cols [lease_intros]:
  "active_lease_exists d jid w t \<Longrightarrow> keeps_lease_cols f \<Longrightarrow>
   active_lease_exists (fst (update_and_fetch d j P f)) jid w t"
  by (simp add: update_and_fetch_def Let_def live_upd_cols)

lemma live_fetch [lease_intros]:
  "active_lease_exists d jid w t \<Longrightarrow>
   (\<And>r. P r \<Longrightarrow> active_lease_conditions jid w t r \<Longrightarrow> active_lease_conditions jid w t (f r)) \<Longrightarrow>
   active_lease_exists (fst (update_and_fetch d j P f)) jid w t"
  by (simp add: update_and_fetch_def Let_def live_upd)

lemma add_counts_lease: "keeps_lease_cols (\<lambda>r. (add_counts deltas r)\<lparr>j_updated_at := now\<rparr>)"
proof -
  have "j_id (add_counts deltas r) = j_id r \<and> j_lease_owner (add_counts deltas r) = j_lease_owner r \<and>
        j_lease_expires_at (add_counts deltas r) = j_lease_expires_at r" for r
    unfolding add_counts_def by (induction deltas arbitrary: r) (auto split: prod.split)
  then show ?thesis by (simp add: keeps_lease_cols_def)
qed

definition sets_lease :: "job_col \<Rightarrow> bool" where
  "sets_lease c = (case c of JcLeaseOwner _ \<Rightarrow> True | JcLeaseExpiresAt _ \<Rightarrow> True | _ \<Rightarrow> False)"

lemma set_job_cols_lease:
  assumes "\<forall>c\<in>set cols. \<not> sets_lease c"
  shows "keeps_lease_cols (\<lambda>r. (set_job_cols (mutable_job_cols cols) r)\<lparr>j_updated_at := now\<rparr>)"
proof -
  have step: "j_lease_owner (set_job_col c r) = j_lease_owner r \<and>
              j_lease_expires_at (set_job_col c r) = j_lease_expires_at r" if "\<not> sets_lease c" for c r
    using that by (cases c) (simp_all add: sets_lease_def)
  have "j_lease_owner (fold set_job_col cs r) = j_lease_owner r \<and>
        j_lease_expires_at (fold set_job_col cs r) = j_lease_expires_at r"
    if "\<forall>c\<in>set cs. \<not> sets_lease c" for cs r
    using that by (induction cs arbitrary: r) (simp_all add: step)
  then have "j_lease_owner (set_job_cols (mutable_job_cols cols) r) = j_lease_owner r \<and>
             j_lease_expires_at (set_job_cols (mutable_job_cols cols) r) = j_lease_expires_at r" for r
    using assms by (simp add: set_job_cols_def mutable_job_cols_def)
  then show ?thesis by (simp add: keeps_lease_cols_def row_keys)
qed

lemma refreshed_lease: "keeps_lease_cols (refreshed_job_row d err now)"
  by (simp add: keeps_lease_cols_def refreshed_job_row_def Let_def)

lemma live_create: "active_lease_exists d jid w t \<Longrightarrow> keeps (\<lambda>d. active_lease_exists d jid w t) (create_job d cols nid now)"
  by (simp add: create_job_def insert_job_def Let_def live_insert)

lemma live_create_limited:
  "active_lease_exists d jid w t \<Longrightarrow>
   keeps (\<lambda>d. active_lease_exists d jid w t) (create_job_with_active_limit d cap ret cols nid now)"
  by (simp add: create_job_with_active_limit_def insert_job_def Let_def live_insert split: option.split)

lemma live_write:
  "active_lease_exists d jid w t \<Longrightarrow> keeps_lease_cols f \<Longrightarrow>
   keeps (\<lambda>d. active_lease_exists d jid w t) (write_job d j ow f now)"
  by (auto simp: write_job_def split: option.split intro!: keeps_bind keeps_Inr live_fetch_cols)

lemma live_write_other:
  "active_lease_exists d jid w t \<Longrightarrow> j \<noteq> jid \<Longrightarrow>
   keeps (\<lambda>d. active_lease_exists d jid w t) (write_job d j ow f now)"
  by (auto simp: write_job_def job_target_def active_lease_conditions_def split: option.split
           intro!: keeps_bind keeps_Inr live_fetch)

lemma active_cols:
  "j_id r' = j_id r \<Longrightarrow> j_lease_owner r' = j_lease_owner r \<Longrightarrow> j_lease_expires_at r' = j_lease_expires_at r \<Longrightarrow>
   active_lease_conditions jid w t r' = active_lease_conditions jid w t r"
  by (simp add: active_lease_conditions_def)

lemma live_acquire:
  assumes live: "active_lease_exists d jid w t" and ok: "j = jid \<longrightarrow> coalesce_now tm clk \<le> t"
  shows "keeps (\<lambda>d. active_lease_exists d jid w t) (acquire_job_lease d j v secs tm clk tch)"
proof -
  have "\<not> lease_free r a" if "active_lease_conditions jid w t r" "a \<le> t" for r a
    using that by (auto simp: active_lease_conditions_def lease_free_def split: option.splits)
  with ok have "\<not> (j_id r = j \<and> lease_free r (coalesce_now tm clk))" if "active_lease_conditions jid w t r" for r
    using that by (auto simp: active_lease_conditions_def split: option.splits)
  then show ?thesis
    by (auto simp: acquire_job_lease_def Let_def lease_window_eq intro!: keeps_bind live_upd live)
qed

text \<open>An extension of the holder's own lease, by a renewal or a reservation.\<close>

lemma live_renew:
  assumes live: "active_lease_exists d jid w t"
    and ok: "j = jid \<longrightarrow> t < coalesce_now tm clk + timedelta_us secs"
  shows "keeps (\<lambda>d. active_lease_exists d jid w t) (renew_job_lease d j v secs tm clk)"
  using ok
  by (auto simp: renew_job_lease_def Let_def lease_window_eq active_lease_conditions_def
           intro!: keeps_bind live_upd live)

lemma live_reserve:
  assumes live: "active_lease_exists d jid w t"
    and ok: "j = jid \<longrightarrow> t < coalesce_now tm clk + timedelta_us secs"
  shows "keeps (\<lambda>d. active_lease_exists d jid w t) (reserve_workspace_bytes d j v req cap secs tm clk)"
  using ok
  by (auto simp: reserve_workspace_bytes_def Let_def lease_window_eq active_lease_conditions_def
           intro!: keeps_bind live_upd live)

text \<open>The operations on another job's row.\<close>

lemma live_other_job:
  assumes live: "active_lease_exists d jid w t" and other: "j \<noteq> jid"
  shows "keeps (\<lambda>d. active_lease_exists d jid w t) (release_job_lease d j v tch)"
    and "keeps (\<lambda>d. active_lease_exists d jid w t) (activate_graph_retry d j pid v secs cap tm clk)"
    and "keeps (\<lambda>d. active_lease_exists d jid w t) (acquire_job_retry_lease d j pid v secs sts maxa tm clk)"
    and "keeps (\<lambda>d. active_lease_exists d jid w t) (acquire_job_workspace_discard_lease d j pid v secs sts tm clk)"
proof -
  have fetch: "keeps (\<lambda>d. active_lease_exists d jid w t) (Inr (update_and_fetch d j P f))"
    if "\<And>r. P r \<Longrightarrow> j_id r = j" for P f
    using that other by (auto simp: active_lease_conditions_def intro!: keeps_Inr live_fetch live)
  show "keeps (\<lambda>d. active_lease_exists d jid w t) (release_job_lease d j v tch)"
    using other by (auto simp: release_job_lease_def Let_def active_lease_conditions_def intro!: live_upd live)
  show "keeps (\<lambda>d. active_lease_exists d jid w t) (activate_graph_retry d j pid v secs cap tm clk)"
    unfolding activate_graph_retry_def Let_def
    by (rule keeps_bind) (auto simp: graph_retry_eligible_def live intro!: keeps_bind fetch)
  show "keeps (\<lambda>d. active_lease_exists d jid w t) (acquire_job_retry_lease d j pid v secs sts maxa tm clk)"
    unfolding acquire_job_retry_lease_def Let_def
    by (auto simp: retry_eligible_def live split: option.split intro!: keeps_bind fetch)
  show "keeps (\<lambda>d. active_lease_exists d jid w t) (acquire_job_workspace_discard_lease d j pid v secs sts tm clk)"
    unfolding acquire_job_workspace_discard_lease_def Let_def
    by (rule keeps_bind) (auto simp: live intro!: keeps_bind fetch)
qed

lemma live_end_discard:
  assumes live: "active_lease_exists d jid w t" and other: "j \<noteq> jid"
  shows "keeps (\<lambda>d. active_lease_exists d jid w t) (end_discard d j v f)"
  unfolding end_discard_def
proof (rule keeps_bind)
  fix ow
  show "keeps (\<lambda>d. active_lease_exists d jid w t)
    (case first_row (discard_claimed j ow) (jobs d) of None \<Rightarrow> Inl (ImportLeaseLost (Some j) (py_strip v))
     | Some row \<Rightarrow> Inr (d\<lparr>jobs := upd_rows (\<lambda>r. j_id r = j_id row) f (jobs d)\<rparr>, f row))"
  proof (cases "first_row (discard_claimed j ow) (jobs d)")
    case (Some row)
    then have "j_id row = j" by (auto dest: first_row_SomeD simp: discard_claimed_def)
    with Some other show ?thesis
      by (auto simp: active_lease_conditions_def intro!: live_upd live)
  qed simp
qed

lemma live_delete_other:
  assumes live: "active_lease_exists d jid w t" and other: "j \<noteq> jid"
  shows "keeps (\<lambda>d. active_lease_exists d jid w t) (delete_uploading_job d j v now)"
proof -
  have del: "active_lease_exists (delete_jobs P d) jid w t" if "\<And>r. P r \<Longrightarrow> j_id r = j" for P
    using live other that by (auto simp: active_lease_exists_def delete_jobs_def Let_def active_lease_conditions_def)
  have "active_lease_exists (delete_jobs (\<lambda>r. j_status r = JUploading \<and> (case ow of None \<Rightarrow> False
      | Some owner \<Rightarrow> active_lease_conditions j owner now r)) d) jid w t" for ow
    by (rule del) (auto simp: active_lease_conditions_def split: option.splits)
  then show ?thesis
    unfolding delete_uploading_job_def Let_def by (intro keeps_bind) simp
qed

lemma live_reconcile:
  "active_lease_exists d jid w t \<Longrightarrow> keeps (\<lambda>d. active_lease_exists d jid w t) (reconcile_workspace_bytes d j n tm clk)"
  by (auto simp: reconcile_workspace_bytes_def Let_def keeps_lease_cols_def intro!: live_upd_cols)

lemma live_cancel:
  "active_lease_exists d jid w t \<Longrightarrow> active_lease_exists (fst (request_job_cancel d j pid sts now)) jid w t"
  by (simp add: request_job_cancel_def Let_def keeps_lease_cols_def live_fetch_cols)

text \<open>The operations on the other tables, which touch a job's counters at most.\<close>

lemma live_upsert_existing:
  "active_lease_exists d jid w t \<Longrightarrow>
   keeps (\<lambda>d. active_lease_exists d jid w t) (upsert_existing_chunk d j ow vals ex upd)"
  unfolding upsert_existing_chunk_def Let_def
  by (intro keeps_bind) (simp split: option.split)

lemma live_upsert:
  "active_lease_exists d jid w t \<Longrightarrow> keeps (\<lambda>d. active_lease_exists d jid w t) (upsert_chunk d ow vals nid now upd)"
  unfolding upsert_chunk_def Let_def
  by (intro keeps_bind) (auto simp: fenced_insert_Inr live_upsert_existing split: option.split sum.split)

lemma live_update_chunk:
  "active_lease_exists d jid w t \<Longrightarrow> keeps (\<lambda>d. active_lease_exists d jid w t) (update_chunk d j key ow cols now)"
  by (auto simp: update_chunk_def Let_def intro!: keeps_bind)

lemma live_claim_manifest:
  "active_lease_exists d jid w t \<Longrightarrow>
   keeps (\<lambda>d. active_lease_exists d jid w t) (claim_manifest d pid key j cid ow nid now upd)"
  by (auto simp: claim_manifest_def reclaim_manifest_def commit_manifests_def Let_def fenced_insert_Inr
           split: option.split sum.split intro!: keeps_bind)

lemma live_mark_manifest:
  "active_lease_exists d jid w t \<Longrightarrow>
   keeps (\<lambda>d. active_lease_exists d jid w t) (mark_manifest d pid key st mids job ow cols now)"
  by (auto simp: mark_manifest_def commit_manifests_def Let_def intro!: keeps_bind)

lemma live_add_error:
  "active_lease_exists d jid w t \<Longrightarrow>
   keeps (\<lambda>d. active_lease_exists d jid w t) (add_error d j src msg ow v nid now)"
  unfolding add_error_def Let_def
  by (intro keeps_bind)
     (auto simp: fenced_insert_Inr keeps_lease_cols_def split: option.split
           intro!: live_upd_cols [of "d\<lparr>job_errors := _\<rparr>", simplified])

lemma live_claim_hash:
  "active_lease_exists d jid w t \<Longrightarrow>
   keeps (\<lambda>d. active_lease_exists d jid w t) (claim_memory_hash d pid conv mh j cid ow nid now upd)"
  by (auto simp: claim_memory_hash_def reclaim_hash_def commit_hashes_def Let_def fenced_insert_Inr
           split: option.split sum.split intro!: keeps_bind)

lemma live_release_hashes:
  "active_lease_exists d jid w t \<Longrightarrow>
   keeps (\<lambda>d. active_lease_exists d jid w t) (release_memory_hashes d j cid hs ow now)"
  by (auto simp: release_memory_hashes_def Let_def intro!: keeps_bind)

lemma succeed_hashes_jobs: "jobs (fst (succeed_hashes d pid conv job ch ids ow now mhs n)) = jobs d"
  by (induction mhs arbitrary: d n) (simp_all add: Let_def)

lemma live_jobs_eq: "jobs d' = jobs d \<Longrightarrow> active_lease_exists d' jid w t = active_lease_exists d jid w t"
  by (simp add: active_lease_exists_def)

lemma live_mark_hashes:
  "active_lease_exists d jid w t \<Longrightarrow>
   keeps (\<lambda>d. active_lease_exists d jid w t) (mark_memory_hashes_succeeded d pid conv mhs job ch arg ow now)"
  by (auto simp: mark_memory_hashes_succeeded_def Let_def live_jobs_eq [OF succeed_hashes_jobs]
           intro!: keeps_bind keeps_Inr)

lemma insert_graph_items_jobs:
  "insert_graph_items d j cid ow ps nids now rows n = Inr (d', rows', n') \<Longrightarrow> jobs d' = jobs d"
proof (induction d j cid ow ps nids now rows n rule: insert_graph_items.induct)
  case (2 d jid cid ow key mid payload ps nids now rows n)
  then show ?case
    by (auto simp: Let_def fenced_insert_Inr split: sum.splits if_splits option.splits)
qed simp

lemma live_add_graph:
  "active_lease_exists d jid w t \<Longrightarrow>
   keeps (\<lambda>d. active_lease_exists d jid w t) (add_graph_items d j cid items ow nids now)"
  unfolding add_graph_items_def Let_def
  by (intro keeps_bind keeps_if)
     (auto split: option.split prod.split intro!: keeps_bind live_upd_cols
           simp: keeps_lease_cols_def live_jobs_eq [OF insert_graph_items_jobs])

lemma live_refresh:
  "active_lease_exists d jid w t \<Longrightarrow> refresh_graph_job_counts d jids err ow now = Inr d' \<Longrightarrow>
   active_lease_exists d' jid w t"
proof (induction d jids err ow now rule: refresh_graph_job_counts.induct)
  case (2 d j jids err ow now)
  have "active_lease_exists (d\<lparr>jobs := upd_rows (job_target j ow now) (refreshed_job_row d err now) (jobs d)\<rparr>) jid w t"
    using 2(3) refreshed_lease by (rule live_upd_cols)
  with 2 show ?case by (auto simp: Let_def split: option.splits if_splits)
qed simp

lemma live_mark_graph:
  assumes live: "active_lease_exists d jid w t"
  shows "keeps (\<lambda>d. active_lease_exists d jid w t) (mark_graph_items d ids st err inc rt job ow now)"
proof -
  have d1: "active_lease_exists (d\<lparr>graph_items := gs\<rparr>) jid w t" for gs
    using live by simp
  have d2: "active_lease_exists (d1\<lparr>jobs := upd_rows Q (\<lambda>r. r\<lparr>j_count := (j_count r)(GraphAttempts := j_count r GraphAttempts + 1),
                                                 j_updated_at := now\<rparr>) (jobs d1)\<rparr>) jid w t"
    if "active_lease_exists d1 jid w t" for Q d1
    using that by (rule live_upd_cols) (simp add: keeps_lease_cols_def)
  have both: "active_lease_exists (if c then a else b) jid w t"
    if "active_lease_exists a jid w t" "active_lease_exists b jid w t" for c a b
    using that by simp
  have fin: "keeps (\<lambda>d. active_lease_exists d jid w t) (bind_err (refresh_graph_job_counts d2 jids err ow now) (\<lambda>d3. Inr (d3, n)))"
    if "active_lease_exists d2 jid w t" for d2 jids ow n
    by (rule keeps_bind) (use live_refresh [OF that] in auto)
  show ?thesis
    unfolding mark_graph_items_def Let_def
    by (rule keeps_bind)
       (rule fin both d1 d2 live | rule keeps_if | rule keeps_option | rule keeps_bind
        | simp only: live keeps_simps)+
qed

section \<open>A live lease through a run\<close>

text \<open>
  The calls that may end the lease of a job before the instant \<open>t\<close>: its release, the operations
  that hand the job to a new owner, the deletion of an upload, an update of the lease columns, and
  an acquisition or extension whose own clock says something else.
\<close>

fun may_end_lease :: "pystr \<Rightarrow> instant \<Rightarrow> repo_call \<Rightarrow> bool" where
  "may_end_lease jid t (AcquireLease j v secs tm clk tch) = (j = jid \<and> t < coalesce_now tm clk)"
| "may_end_lease jid t (RenewLease j v secs tm clk) = (j = jid \<and> coalesce_now tm clk + timedelta_us secs \<le> t)"
| "may_end_lease jid t (ReserveBytes j v req cap secs tm clk) =
    (j = jid \<and> coalesce_now tm clk + timedelta_us secs \<le> t)"
| "may_end_lease jid t (ReleaseLease j v tch) = (j = jid)"
| "may_end_lease jid t (ActivateGraphRetry j pid v secs cap tm clk) = (j = jid)"
| "may_end_lease jid t (RetryLease j pid v secs sts cap tm clk) = (j = jid)"
| "may_end_lease jid t (DiscardLease j pid v secs sts tm clk) = (j = jid)"
| "may_end_lease jid t (CompleteDiscard j v now) = (j = jid)"
| "may_end_lease jid t (AbortDiscard j v now) = (j = jid)"
| "may_end_lease jid t (DeleteUploading j v now) = (j = jid)"
| "may_end_lease jid t (UpdateJob j ow cols now) = (j = jid \<and> (\<exists>c\<in>set cols. sets_lease c))"
| "may_end_lease jid t _ = False"

lemma live_update_job:
  "active_lease_exists d jid w t \<Longrightarrow> \<not> may_end_lease jid t (UpdateJob j ow cols now) \<Longrightarrow>
   keeps (\<lambda>d. active_lease_exists d jid w t) (update_job d j ow cols now)"
  unfolding update_job_def
  by (cases "j = jid") (auto intro: live_write live_write_other set_job_cols_lease)

lemma live_increment:
  "active_lease_exists d jid w t \<Longrightarrow> keeps (\<lambda>d. active_lease_exists d jid w t) (increment_job d j ow deltas now)"
  unfolding increment_job_def by (rule live_write) (simp_all add: add_counts_lease)

lemmas live_ops =
  live_create live_create_limited live_acquire live_renew live_reserve live_other_job
  live_delete_other live_reconcile live_update_job live_increment live_upsert live_update_chunk
  live_claim_manifest live_mark_manifest live_add_error live_claim_hash live_release_hashes
  live_mark_hashes live_add_graph live_mark_graph

lemma live_discard_other:
  assumes "active_lease_exists d jid w t" and "j \<noteq> jid"
  shows "keeps (\<lambda>d. active_lease_exists d jid w t) (complete_job_workspace_discard d j v now)"
    and "keeps (\<lambda>d. active_lease_exists d jid w t) (abort_job_workspace_discard d j v now)"
  unfolding complete_job_workspace_discard_def abort_job_workspace_discard_def
  using assms by (auto intro: live_end_discard)

lemma lease_survives_call:
  assumes "active_lease_exists d jid w t" and "\<not> may_end_lease jid t c" and "exec_call c d = Inr d'"
  shows "active_lease_exists d' jid w t"
proof -
  have kept: "res_db = d' \<Longrightarrow> active_lease_exists d' jid w t"
    if "keeps (\<lambda>d. active_lease_exists d jid w t) res" "db_of res = Inr res_db" for res :: "'a repo_result" and res_db
    using db_of_keeps [OF that] by simp
  show ?thesis
    using assms by (cases c) (auto intro!: live_cancel dest!: kept [rotated] intro: live_ops live_discard_other)
qed

lemma lease_survives_calls:
  "active_lease_exists d jid w t \<Longrightarrow> \<forall>c\<in>set cs. \<not> may_end_lease jid t c \<Longrightarrow>
   active_lease_exists (run_calls exec_call cs d) jid w t"
proof (induction cs arbitrary: d)
  case (Cons c cs)
  have "active_lease_exists (case exec_call c d of Inl _ \<Rightarrow> d | Inr d' \<Rightarrow> d') jid w t"
    using Cons.prems by (auto split: sum.split intro: lease_survives_call)
  then show ?case using Cons.IH Cons.prems(2) by simp
qed simp

lemma run_calls_wf: "db_wf d \<Longrightarrow> db_wf (run_calls exec_call cs d)"
proof (induction cs arbitrary: d)
  case (Cons c cs)
  have "db_wf (case exec_call c d of Inl _ \<Rightarrow> d | Inr d' \<Rightarrow> d')"
    using Cons.prems by (auto split: sum.split intro: exec_call_wf)
  then show ?case using Cons.IH by simp
qed simp

lemma db_wf_job_ids: "db_wf d \<Longrightarrow> distinct (map j_id (jobs d))"
  by (simp add: db_wf_def db_unique_def)

section \<open>The lease protocol\<close>

text \<open>The calls a worker makes under its lease of a job.\<close>

definition written_by :: "pystr \<Rightarrow> pystr \<Rightarrow> repo_call \<Rightarrow> bool" where
  "written_by w jid c =
    (case fenced_by c of None \<Rightarrow> False | Some (j, v, _) \<Rightarrow> j = jid \<and> py_strip v = py_strip w)"

lemma written_by_stale:
  assumes "db_wf d" and "active_lease_exists d jid w t" and "py_strip z \<noteq> w" and "written_by z jid c"
  shows "stale_call c d"
proof -
  from assms(4) obtain v u where f: "fenced_by c = Some (jid, v, u)" "py_strip v = py_strip z"
    by (auto simp: written_by_def split: option.splits)
  have "\<not> active_lease_exists d jid (py_strip z) u"
    using active_lease_owner_unique [OF db_wf_job_ids [OF assms(1)] assms(2)] assms(3) by blast
  with f show ?thesis by (simp add: stale_call_def)
qed

text \<open>C1: a worker that lost a job's lease to another worker is invisible from then on. However its calls
  interleave with everybody else's, the database is the one that results when they are left out,
  as long as nothing ends the new holder's lease.\<close>
theorem zombie_writes_invisible:
  assumes "db_wf d" and "active_lease_exists d jid w t" and "\<forall>c\<in>set cs. \<not> may_end_lease jid t c"
    and "py_strip z \<noteq> w"
  shows "run_calls exec_call cs d = run_calls exec_call (filter (\<lambda>c. \<not> written_by z jid c) cs) d"
proof (rule fenced.erase_stale)
  fix pre c post assume cs: "cs = pre @ c # post" and c: "written_by z jid c"
  from cs assms(3) have "\<forall>c\<in>set pre. \<not> may_end_lease jid t c" by simp
  with assms(2) have "active_lease_exists (run_calls exec_call pre d) jid w t"
    by (rule lease_survives_calls)
  then show "stale_call c (run_calls exec_call pre d)"
    by (rule written_by_stale [OF run_calls_wf [OF assms(1)] _ assms(4) c])
qed

text \<open>A lease is safe with its holder. No interleaving of repository calls by any workers takes a
  live lease away, unless it contains a call that releases the job, hands it to a new owner,
  deletes it, or writes the lease columns.\<close>
theorem lease_survives_run:
  assumes "active_lease_exists d jid w t" and "\<forall>c\<in>set cs. \<not> may_end_lease jid t c"
  shows "active_lease_exists (run_calls exec_call cs d) jid w t"
  using assms by (rule lease_survives_calls)

text \<open>A job two workers compete for, held by the first.\<close>

definition leased_db :: import_db where
  "leased_db = run_calls exec_call
     [CreateJob [JcProjectId (U ''proj'')] (U ''job'') 0,
      AcquireLease (U ''job'') (U ''w1'') 30 (Some 10) 10 10] empty_db"

lemma leased_db_wf: "db_wf leased_db"
  unfolding leased_db_def by (rule run_calls_wf) (rule db_wf_empty)

lemma leased_db_live: "active_lease_exists leased_db (U ''job'') (U ''w1'') 20"
  by code_simp

definition contended_calls :: "repo_call list" where
  "contended_calls =
     [UpdateJob (U ''job'') (Some (U ''w2'')) [JcStatus JFailed] 11,
      AcquireLease (U ''job'') (U ''w2'') 30 (Some 12) 12 12,
      IncrementJob (U ''job'') (Some (U ''w1'')) [(ProcessedChunks, 1)] 13]"

lemma contended_calls_safe: "\<forall>c\<in>set contended_calls. \<not> may_end_lease (U ''job'') 20 c"
  by code_simp

lemma zombie_writes_invisible_witness:
  "run_calls exec_call contended_calls leased_db =
   run_calls exec_call (filter (\<lambda>c. \<not> written_by (U ''w2'') (U ''job'') c) contended_calls) leased_db
   \<and> length (filter (\<lambda>c. \<not> written_by (U ''w2'') (U ''job'') c) contended_calls) = 2"
proof
  have "py_strip (U ''w2'') \<noteq> U ''w1''" by code_simp
  then show "run_calls exec_call contended_calls leased_db =
    run_calls exec_call (filter (\<lambda>c. \<not> written_by (U ''w2'') (U ''job'') c) contended_calls) leased_db"
    by (rule zombie_writes_invisible [OF leased_db_wf leased_db_live contended_calls_safe])
  show "length (filter (\<lambda>c. \<not> written_by (U ''w2'') (U ''job'') c) contended_calls) = 2"
    by code_simp
qed

lemma lease_survives_run_witness:
  "active_lease_exists (run_calls exec_call contended_calls leased_db) (U ''job'') (U ''w1'') 20"
  by (rule lease_survives_run [OF leased_db_live contended_calls_safe])

text \<open>What an update that gives every matched row to one owner leaves behind.\<close>

lemma lease_after_handover:
  assumes wf: "db_wf d" and hit: "rowcount P (jobs d) \<noteq> 0"
    and P: "\<And>r. P r \<Longrightarrow> j_id r = jid"
    and f: "\<And>r. j_id (f r) = j_id r \<and> j_lease_owner (f r) = Some w \<and> j_lease_expires_at (f r) = Some e"
  shows "active_lease_exists (d\<lparr>jobs := upd_rows P f (jobs d)\<rparr>) jid v u \<longleftrightarrow> v = w \<and> u < e"
proof -
  from hit obtain r where r: "r \<in> set (jobs d)" "P r" by (auto simp: rowcount_0_iff)
  have other: "\<not> (j_id q = jid \<and> \<not> P q)" if "q \<in> set (jobs d)" for q
  proof
    assume q: "j_id q = jid \<and> \<not> P q"
    with r P that have "q = r" using db_wf_job_ids [OF wf] by (metis distinct_map inj_onD)
    with q r show False by simp
  qed
  show ?thesis
  proof
    assume "active_lease_exists (d\<lparr>jobs := upd_rows P f (jobs d)\<rparr>) jid v u"
    then obtain q where q: "q \<in> set (jobs d)" "active_lease_conditions jid v u (if P q then f q else q)"
      by (auto simp: active_lease_exists_def upd_rows_def)
    show "v = w \<and> u < e"
    proof (cases "P q")
      case True
      with q(2) f [of q] show ?thesis by (simp add: active_lease_conditions_def)
    next
      case False
      with q other [of q] show ?thesis by (simp add: active_lease_conditions_def)
    qed
  next
    assume "v = w \<and> u < e"
    then have "active_lease_conditions jid v u (f r)"
      using f [of r] P [OF r(2)] by (simp add: active_lease_conditions_def)
    moreover have "f r \<in> set (upd_rows P f (jobs d))" using r by (simp add: set_upd_rows)
    ultimately show "active_lease_exists (d\<lparr>jobs := upd_rows P f (jobs d)\<rparr>) jid v u"
      by (auto simp: active_lease_exists_def)
  qed
qed

text \<open>C6: a lease is granted only when nobody holds a live one, and then to the caller alone, for
  exactly the window asked for.\<close>
theorem acquire_lease_exclusive:
  assumes "db_wf d" and "acquire_job_lease d jid w secs tm clk tch = Inr (d', True)"
  shows "(\<forall>v. \<not> active_lease_exists d jid v (coalesce_now tm clk)) \<and>
         (\<forall>v u. active_lease_exists d' jid v u \<longleftrightarrow>
                v = py_strip w \<and> u < coalesce_now tm clk + timedelta_us secs)"
proof -
  let ?a = "coalesce_now tm clk"
  define P where "P = (\<lambda>r. j_id r = jid \<and> j_status r \<in> set leaseable_job_statuses
                       \<and> \<not> j_cancel_requested r \<and> lease_free r ?a)"
  define f :: "job_row \<Rightarrow> job_row" where "f = (\<lambda>r. r\<lparr>j_lease_owner := Some (py_strip w),
      j_lease_expires_at := Some (?a + timedelta_us secs), j_updated_at := tch\<rparr>)"
  have d': "d' = d\<lparr>jobs := upd_rows P f (jobs d)\<rparr>" and hit: "rowcount P (jobs d) \<noteq> 0"
    using assms(2) by (auto simp: acquire_job_lease_def Let_def bind_err_Inr_iff lease_window_eq P_def f_def
      split: if_splits)
  have "\<not> active_lease_exists d jid v ?a" for v
  proof
    assume "active_lease_exists d jid v ?a"
    then obtain q where q: "q \<in> set (jobs d)" "active_lease_conditions jid v ?a q"
      by (auto simp: active_lease_exists_def)
    from hit obtain r where r: "r \<in> set (jobs d)" "P r" by (auto simp: rowcount_0_iff)
    have "q = r"
      using q r db_wf_job_ids [OF assms(1)] by (metis P_def active_lease_conditionsD distinct_map inj_onD)
    with q r show False by (auto simp: P_def dest: active_lease_not_free)
  qed
  moreover have "active_lease_exists d' jid v u \<longleftrightarrow> v = py_strip w \<and> u < ?a + timedelta_us secs" for v u
    unfolding d' by (rule lease_after_handover [OF assms(1) hit]) (auto simp: P_def f_def)
  ultimately show ?thesis by blast
qed

lemma acquire_lease_exclusive_witness:
  "\<exists>d'. acquire_job_lease leased_db (U ''job'') (U ''w3'') 30 (Some 40000000) 0 0 = Inr (d', True) \<and>
        active_lease_exists d' (U ''job'') (U ''w3'') 69999999 \<and>
        \<not> active_lease_exists d' (U ''job'') (U ''w1'') 20"
proof -
  obtain d' where ok: "acquire_job_lease leased_db (U ''job'') (U ''w3'') 30 (Some 40000000) 0 0 = Inr (d', True)"
  proof -
    have "case acquire_job_lease leased_db (U ''job'') (U ''w3'') 30 (Some 40000000) 0 0 of
            Inl _ \<Rightarrow> False | Inr (_, b) \<Rightarrow> b"
      by code_simp
    then show ?thesis using that by (auto split: sum.splits)
  qed
  have names: "py_strip (U ''w3'') = U ''w3''" "U ''w3'' \<noteq> U ''w1''" "69999999 < 40000000 + timedelta_us 30"
    by code_simp+
  from acquire_lease_exclusive [OF leased_db_wf ok] ok names show ?thesis
    by (auto simp: coalesce_now_def)
qed

text \<open>While a worker's lease is live, nobody acquires the job: the attempt returns false (or
  raises on its own arguments) and changes nothing.\<close>
theorem busy_job_not_acquired:
  assumes "db_wf d" and "active_lease_exists d jid v t" and "coalesce_now tm clk \<le> t"
    and "acquire_job_lease d jid w secs tm clk tch = Inr (d', b)"
  shows "b = False \<and> d' = d"
proof -
  let ?P = "\<lambda>r. j_id r = jid \<and> j_status r \<in> set leaseable_job_statuses \<and> \<not> j_cancel_requested r
                \<and> lease_free r (coalesce_now tm clk)"
  from assms(2) obtain q where q: "q \<in> set (jobs d)" "active_lease_conditions jid v t q"
    by (auto simp: active_lease_exists_def)
  have "rowcount ?P (jobs d) = 0"
  proof (simp only: rowcount_0_iff, intro ballI notI)
    fix r assume r: "r \<in> set (jobs d)" "?P r"
    have "q = r"
      using q r db_wf_job_ids [OF assms(1)] by (metis active_lease_conditionsD distinct_map inj_onD)
    with q r assms(3) show False
      by (auto simp: active_lease_conditions_def lease_free_def split: option.splits)
  qed
  with assms(4) show ?thesis
    by (auto simp: acquire_job_lease_def Let_def bind_err_Inr_iff lease_window_eq upd_rows_none split: if_splits)
qed

lemma busy_job_not_acquired_witness:
  "acquire_job_lease leased_db (U ''job'') (U ''w2'') 30 (Some 15) 0 0 = Inr (leased_db, False)"
proof -
  obtain d' b where ok: "acquire_job_lease leased_db (U ''job'') (U ''w2'') 30 (Some 15) 0 0 = Inr (d', b)"
  proof -
    have "case acquire_job_lease leased_db (U ''job'') (U ''w2'') 30 (Some 15) 0 0 of Inl _ \<Rightarrow> False | Inr _ \<Rightarrow> True"
      by code_simp
    then show ?thesis using that by (auto split: sum.splits)
  qed
  with busy_job_not_acquired [OF leased_db_wf leased_db_live _ ok] show ?thesis
    by (simp add: coalesce_now_def)
qed

text \<open>A retry takes the job over. Whoever held its lease before, from then on only the retrying
  worker does; the job is queued again and the counters of a fresh attempt start at zero.\<close>
theorem retry_takes_over:
  assumes "db_wf d" and "acquire_job_retry_lease d jid pid w secs sts cap tm clk = Inr (d', Some r)"
  shows "(\<forall>v u. active_lease_exists d' jid v u \<longleftrightarrow>
                v = py_strip w \<and> u < coalesce_now tm clk + timedelta_us secs) \<and>
         j_status r = JQueued \<and> \<not> j_cancel_requested r \<and> (\<forall>c\<in>set retry_reset_counters. j_count r c = 0)"
proof -
  let ?a = "coalesce_now tm clk"
  let ?P = "retry_eligible jid pid (dedup sts)"
  let ?f = "retry_job_row (py_strip w) (?a + timedelta_us secs) ?a"
  have go: "update_and_fetch d jid ?P ?f = (d', Some r)"
    using assms(2)
    by (auto simp: acquire_job_retry_lease_def Let_def bind_err_Inr_iff lease_window_eq split: if_splits option.splits)
  then have d': "d' = d\<lparr>jobs := upd_rows ?P ?f (jobs d)\<rparr>" and hit: "rowcount ?P (jobs d) \<noteq> 0"
    and r: "find_job d' jid = Some r"
    by (auto simp: update_and_fetch_def Let_def split: if_splits)
  have lease: "active_lease_exists d' jid v u \<longleftrightarrow> v = py_strip w \<and> u < ?a + timedelta_us secs" for v u
    unfolding d'
    by (rule lease_after_handover [OF assms(1) hit]) (auto simp: retry_eligible_def retry_job_row_def)
  from hit obtain q where q: "q \<in> set (jobs d)" "?P q" by (auto simp: rowcount_0_iff)
  then have "?f q \<in> set (jobs d')" "j_id (?f q) = jid"
    by (auto simp: d' set_upd_rows retry_job_row_def retry_eligible_def)
  moreover have "r \<in> set (jobs d')" "j_id r = jid"
    using r by (auto simp: find_job_def dest: first_row_SomeD)
  moreover have "distinct (map j_id (jobs d'))"
    using db_wf_job_ids [OF assms(1)] by (simp add: d' map_upd_rows row_keys)
  ultimately have "r = ?f q" by (metis distinct_map inj_onD)
  with lease show ?thesis by (simp add: retry_job_row_def)
qed

lemma retry_takes_over_witness:
  "\<exists>d' r. acquire_job_retry_lease leased_db (U ''job'') (U ''proj'') (U ''w9'') 30 [JQueued] None (Some 15) 0 = Inr (d', Some r)
        \<and> \<not> active_lease_exists d' (U ''job'') (U ''w1'') 20 \<and> j_status r = JQueued"
proof -
  obtain d' r where ok:
    "acquire_job_retry_lease leased_db (U ''job'') (U ''proj'') (U ''w9'') 30 [JQueued] None (Some 15) 0 = Inr (d', Some r)"
  proof -
    have "case acquire_job_retry_lease leased_db (U ''job'') (U ''proj'') (U ''w9'') 30 [JQueued] None (Some 15) 0 of
        Inl _ \<Rightarrow> False | Inr (_, res) \<Rightarrow> res \<noteq> None"
      by code_simp
    then show ?thesis using that by (auto split: sum.splits)
  qed
  have "py_strip (U ''w9'') \<noteq> U ''w1''" by code_simp
  with retry_takes_over [OF leased_db_wf ok] ok show ?thesis by auto
qed

end
