(* ===== verification/Import_Claims.thy ===== *)
theory Import_Claims
  imports Import_Leases
begin

text \<open>
  Claims. A chunk is imported only by the worker that claimed its manifest, and a memory is
  written only by the worker that claimed its hash. Both registries share one contract, the
  locale \<open>claim_registry\<close>: a key can be won only while it is open, winning it closes it, and it
  stays closed until a call that reopens it. Its theorem: between two reopenings a key is won at
  most once. Both registries of the repository are interpretations.
\<close>

section \<open>The contract\<close>

text \<open>How often a run wins a key.\<close>

fun win_count ::
  "('c \<Rightarrow> 'd \<Rightarrow> 'e + 'd) \<Rightarrow> ('k \<Rightarrow> 'c \<Rightarrow> 'd \<Rightarrow> bool) \<Rightarrow> 'k \<Rightarrow> 'c list \<Rightarrow> 'd \<Rightarrow> nat" where
  "win_count ex wins k [] d = 0"
| "win_count ex wins k (c # cs) d =
    (if wins k c d then 1 else 0) + win_count ex wins k cs (case ex c d of Inl _ \<Rightarrow> d | Inr d' \<Rightarrow> d')"

locale claim_registry =
  fixes ex :: "'c \<Rightarrow> 'd \<Rightarrow> 'e + 'd"
    and valid :: "'d \<Rightarrow> bool"
    and wins :: "'k \<Rightarrow> 'c \<Rightarrow> 'd \<Rightarrow> bool"
    and closed :: "'k \<Rightarrow> 'd \<Rightarrow> bool"
    and reopens :: "'k \<Rightarrow> 'c \<Rightarrow> bool"
  assumes valid_step: "valid d \<Longrightarrow> ex c d = Inr d' \<Longrightarrow> valid d'"
    and wins_open: "valid d \<Longrightarrow> wins k c d \<Longrightarrow> \<not> closed k d"
    and wins_closes: "valid d \<Longrightarrow> wins k c d \<Longrightarrow> ex c d = Inr d' \<Longrightarrow> closed k d'"
    and wins_ok: "wins k c d \<Longrightarrow> \<exists>d'. ex c d = Inr d'"
    and closed_stays: "valid d \<Longrightarrow> closed k d \<Longrightarrow> \<not> reopens k c \<Longrightarrow> ex c d = Inr d' \<Longrightarrow> closed k d'"
begin

lemma closed_no_wins:
  "valid d \<Longrightarrow> closed k d \<Longrightarrow> \<forall>c\<in>set cs. \<not> reopens k c \<Longrightarrow> win_count ex wins k cs d = 0"
proof (induction cs arbitrary: d)
  case (Cons c cs)
  have "\<not> wins k c d" using wins_open Cons.prems(1,2) by blast
  moreover have "win_count ex wins k cs (case ex c d of Inl _ \<Rightarrow> d | Inr d' \<Rightarrow> d') = 0"
    using Cons.prems by (cases "ex c d") (auto intro!: Cons.IH intro: valid_step closed_stays)
  ultimately show ?case by simp
qed simp

lemma won_at_most_once:
  "valid d \<Longrightarrow> \<forall>c\<in>set cs. \<not> reopens k c \<Longrightarrow> win_count ex wins k cs d \<le> 1"
proof (induction cs arbitrary: d)
  case (Cons c cs)
  show ?case
  proof (cases "wins k c d")
    case True
    then obtain d' where d': "ex c d = Inr d'" using wins_ok by blast
    with True Cons.prems have "win_count ex wins k cs d' = 0"
      by (auto intro!: closed_no_wins intro: valid_step wins_closes)
    with True d' show ?thesis by simp
  next
    case False
    have "valid (case ex c d of Inl _ \<Rightarrow> d | Inr d' \<Rightarrow> d')"
      using Cons.prems(1) by (cases "ex c d") (auto intro: valid_step)
    then have "win_count ex wins k cs (case ex c d of Inl _ \<Rightarrow> d | Inr d' \<Rightarrow> d') \<le> 1"
      using Cons.prems(2) by (intro Cons.IH) simp_all
    with False show ?thesis by simp
  qed
qed simp

end

section \<open>Rows that stay\<close>

text \<open>
  \<open>tab_closed key st k rows\<close>: the key has a row, and it is not one that may be claimed again.
  Both tables are looked at this way.
\<close>

definition tab_closed :: "('r \<Rightarrow> 'k) \<Rightarrow> ('r \<Rightarrow> item_status) \<Rightarrow> 'k \<Rightarrow> 'r list \<Rightarrow> bool" where
  "tab_closed key st k rows = (\<exists>r\<in>set rows. key r = k \<and> st r \<notin> set reclaimable_statuses)"

definition manifest_closed :: "pystr \<times> pystr \<Rightarrow> import_db \<Rightarrow> bool" where
  "manifest_closed k d = tab_closed manifest_key m_status k (manifests d)"

definition hash_closed :: "pystr \<times> pystr \<times> pystr \<Rightarrow> import_db \<Rightarrow> bool" where
  "hash_closed k d = tab_closed hash_key h_status k (hashes d)"

lemma tab_closed_append: "tab_closed key st k rows \<Longrightarrow> tab_closed key st k (rows @ rows')"
  by (auto simp: tab_closed_def)

lemma tab_closed_new: "key r = k \<Longrightarrow> st r \<notin> set reclaimable_statuses \<Longrightarrow> tab_closed key st k (rows @ [r])"
  by (auto simp: tab_closed_def)

lemma tab_closed_map:
  assumes "tab_closed key st k rows"
    and "\<And>r. key r = k \<Longrightarrow> st r \<notin> set reclaimable_statuses \<Longrightarrow>
              key (f r) = k \<and> st (f r) \<notin> set reclaimable_statuses"
  shows "tab_closed key st k (map f rows)"
  using assms by (fastforce simp: tab_closed_def)

lemma tab_closed_upd:
  assumes "tab_closed key st k rows"
    and "\<And>r. P r \<Longrightarrow> key r = k \<Longrightarrow> st r \<notin> set reclaimable_statuses \<Longrightarrow>
              key (f r) = k \<and> st (f r) \<notin> set reclaimable_statuses"
  shows "tab_closed key st k (upd_rows P f rows)"
  unfolding upd_rows_def using assms by (intro tab_closed_map) auto

lemma tab_closed_filter:
  "tab_closed key st k rows \<Longrightarrow> (\<And>r. key r = k \<Longrightarrow> st r \<notin> set reclaimable_statuses \<Longrightarrow> P r) \<Longrightarrow>
   tab_closed key st k (filter P rows)"
  by (auto simp: tab_closed_def)

text \<open>An update that hits the only row of a key and gives it a closed status closes the key.\<close>

lemma tab_closed_hit:
  assumes "rowcount P rows \<noteq> 0"
    and "\<And>r. P r \<Longrightarrow> r \<in> set rows \<Longrightarrow> key (f r) = k \<and> st (f r) \<notin> set reclaimable_statuses"
  shows "tab_closed key st k (upd_rows P f rows)"
proof -
  from assms(1) obtain r where r: "r \<in> set rows" "P r" by (auto simp: rowcount_0_iff)
  then have "f r \<in> set (upd_rows P f rows)" by (simp add: set_upd_rows)
  with r assms(2) show ?thesis by (auto simp: tab_closed_def)
qed

lemma tab_open_absent: "k \<notin> set (map key rows) \<Longrightarrow> \<not> tab_closed key st k rows"
  by (auto simp: tab_closed_def)

lemma tab_open_unique:
  "distinct (map key rows) \<Longrightarrow> r \<in> set rows \<Longrightarrow> key r = k \<Longrightarrow> st r \<in> set reclaimable_statuses \<Longrightarrow>
   \<not> tab_closed key st k rows"
  by (auto simp: tab_closed_def) (metis distinct_map inj_onD)

lemma claimed_not_reclaimable [simp]:
  "IClaimed \<notin> set reclaimable_statuses" "ISplit \<notin> set reclaimable_statuses"
  "ISucceeded \<notin> set reclaimable_statuses"
  by (simp_all add: reclaimable_statuses_def)

section \<open>Operations that leave the registries alone\<close>

definition same_claims :: "import_db \<Rightarrow> import_db \<Rightarrow> bool" where
  "same_claims d d' \<longleftrightarrow> manifests d' = manifests d \<and> hashes d' = hashes d"

lemma same_claims_upd [simp]:
  "same_claims d (d'\<lparr>jobs := js\<rparr>) = same_claims d d'" "same_claims d (d'\<lparr>chunks := cs\<rparr>) = same_claims d d'"
  "same_claims d (d'\<lparr>graph_items := gs\<rparr>) = same_claims d d'"
  "same_claims d (d'\<lparr>job_errors := es\<rparr>) = same_claims d d'" "same_claims d d"
  by (simp_all add: same_claims_def)

lemma same_claims_fetch: "keeps (same_claims d) (Inr (update_and_fetch d jid P f))"
  by (auto simp: update_and_fetch_def Let_def)

lemma same_insert_job: "keeps (same_claims d) (insert_job d cols now)"
  by (simp add: insert_job_def Let_def)

lemma same_create: "keeps (same_claims d) (create_job d cols nid now)"
  by (simp add: create_job_def same_insert_job)

lemma same_create_limited: "keeps (same_claims d) (create_job_with_active_limit d cap ret cols nid now)"
  by (simp add: create_job_with_active_limit_def Let_def same_insert_job split: option.split)

lemma same_acquire: "keeps (same_claims d) (acquire_job_lease d jid w secs tm clk tch)"
  by (auto simp: acquire_job_lease_def Let_def intro!: keeps_bind)

lemma same_renew: "keeps (same_claims d) (renew_job_lease d jid w secs tm clk)"
  by (auto simp: renew_job_lease_def Let_def intro!: keeps_bind)

lemma same_release: "keeps (same_claims d) (release_job_lease d jid w tch)"
  by (simp add: release_job_lease_def Let_def)

lemma same_graph_retry: "keeps (same_claims d) (activate_graph_retry d jid pid w secs cap tm clk)"
  by (auto simp: activate_graph_retry_def Let_def intro!: keeps_bind same_claims_fetch)

lemma same_reserve: "keeps (same_claims d) (reserve_workspace_bytes d jid w req cap secs tm clk)"
  by (auto simp: reserve_workspace_bytes_def Let_def intro!: keeps_bind)

lemma same_reconcile: "keeps (same_claims d) (reconcile_workspace_bytes d jid n tm clk)"
  by (simp add: reconcile_workspace_bytes_def Let_def)

lemma same_retry: "keeps (same_claims d) (acquire_job_retry_lease d jid pid w secs sts cap tm clk)"
  by (auto simp: acquire_job_retry_lease_def Let_def split: option.split intro!: keeps_bind same_claims_fetch)

lemma same_discard: "keeps (same_claims d) (acquire_job_workspace_discard_lease d jid pid w secs sts tm clk)"
  by (auto simp: acquire_job_workspace_discard_lease_def Let_def intro!: keeps_bind same_claims_fetch)

lemma same_end_discard: "keeps (same_claims d) (end_discard d jid w f)"
  by (auto simp: end_discard_def split: option.split intro!: keeps_bind)

lemma same_complete: "keeps (same_claims d) (complete_job_workspace_discard d jid w now)"
  by (simp add: complete_job_workspace_discard_def same_end_discard)

lemma same_abort: "keeps (same_claims d) (abort_job_workspace_discard d jid w now)"
  by (simp add: abort_job_workspace_discard_def same_end_discard)

lemma same_cancel: "same_claims d (fst (request_job_cancel d jid pid sts now))"
  by (simp add: request_job_cancel_def update_and_fetch_def Let_def)

lemma same_write: "keeps (same_claims d) (write_job d jid w f now)"
  by (auto simp: write_job_def split: option.split intro!: keeps_bind same_claims_fetch)

lemma same_update_job: "keeps (same_claims d) (update_job d jid w cols now)"
  by (simp add: update_job_def same_write)

lemma same_increment: "keeps (same_claims d) (increment_job d jid w deltas now)"
  by (simp add: increment_job_def same_write)

lemma same_upsert_existing: "keeps (same_claims d) (upsert_existing_chunk d jid ow vals ex upd)"
  unfolding upsert_existing_chunk_def Let_def by (intro keeps_bind) (simp split: option.split)

lemma same_upsert: "keeps (same_claims d) (upsert_chunk d w given nid now upd)"
  unfolding upsert_chunk_def Let_def
  by (intro keeps_bind) (auto simp: fenced_insert_Inr same_upsert_existing split: option.split sum.split)

lemma same_update_chunk: "keeps (same_claims d) (update_chunk d jid key w cols now)"
  by (auto simp: update_chunk_def Let_def intro!: keeps_bind)

lemma same_add_error: "keeps (same_claims d) (add_error d jid src msg w v nid now)"
  unfolding add_error_def Let_def
  by (intro keeps_bind) (auto simp: fenced_insert_Inr split: option.split)

lemma same_insert_graph_items:
  "insert_graph_items d jid cid ow ps nids now rows n = Inr (d', rows', n') \<Longrightarrow> same_claims d d'"
proof (induction d jid cid ow ps nids now rows n rule: insert_graph_items.induct)
  case (2 d jid cid ow key mid payload ps nids now rows n)
  then show ?case
    by (auto simp: Let_def fenced_insert_Inr same_claims_def split: sum.splits if_splits option.splits)
qed simp

lemma same_add_graph: "keeps (same_claims d) (add_graph_items d jid cid items w nids now)"
  unfolding add_graph_items_def Let_def
  by (intro keeps_bind keeps_if)
     (auto split: option.split prod.split intro!: keeps_bind dest: same_insert_graph_items)

lemma same_refresh: "refresh_graph_job_counts d jids err ow now = Inr d' \<Longrightarrow> same_claims d d'"
proof (induction d jids err ow now rule: refresh_graph_job_counts.induct)
  case (2 d j jids err ow now)
  then show ?case by (auto simp: Let_def same_claims_def split: option.splits if_splits)
qed simp

lemma same_mark_graph: "keeps (same_claims d) (mark_graph_items d ids st err inc rt job w now)"
proof -
  have both: "same_claims d (if c then a else b)" if "same_claims d a" "same_claims d b" for c a b
    using that by simp
  have fin: "keeps (same_claims d) (bind_err (refresh_graph_job_counts d2 jids err ow now) (\<lambda>d3. Inr (d3, n)))"
    if "same_claims d d2" for d2 jids ow n
    by (rule keeps_bind) (use that same_refresh [of d2] in \<open>auto simp: same_claims_def\<close>)
  show ?thesis
    unfolding mark_graph_items_def Let_def
    by (rule keeps_bind)
       (rule fin both | rule keeps_if | rule keeps_option | rule keeps_bind
        | simp only: same_claims_upd keeps_simps)+
qed

lemmas same_claims_ops =
  same_create same_create_limited same_acquire same_renew same_release same_graph_retry same_reserve
  same_reconcile same_retry same_discard same_complete same_abort same_update_job same_increment
  same_upsert same_update_chunk same_add_error same_add_graph same_mark_graph

lemma closed_same_claims:
  "same_claims d d' \<Longrightarrow> manifest_closed k d' = manifest_closed k d"
  "same_claims d d' \<Longrightarrow> hash_closed k' d' = hash_closed k' d"
  by (simp_all add: same_claims_def manifest_closed_def hash_closed_def)

lemma closed_delete_jobs:
  "manifest_closed k d \<Longrightarrow> manifest_closed k (delete_jobs P d)"
  "hash_closed k' d \<Longrightarrow> hash_closed k' (delete_jobs P d)"
  by (auto simp: manifest_closed_def hash_closed_def delete_jobs_def Let_def intro!: tab_closed_map)

section \<open>Manifests\<close>

lemma mark_manifest_row_status: "m_status (mark_manifest_row st mids cols now m) = st"
proof -
  have step: "m_status (set_manifest_col c q) = m_status q" for c q by (cases c) simp_all
  have "m_status (fold set_manifest_col cols q) = m_status q" for q
    by (induction cols arbitrary: q) (simp_all add: step)
  then show ?thesis by (simp add: mark_manifest_row_def)
qed

lemma commit_manifests_Inr:
  "commit_manifests d ms res = Inr (d', x) \<Longrightarrow> d' = d\<lparr>manifests := ms\<rparr> \<and> x = res"
  by (auto simp: commit_manifests_def split: if_splits)

lemma find_manifestD: "find_manifest d pid key = Some m \<Longrightarrow> m \<in> set (manifests d) \<and> manifest_key m = (pid, key)"
  by (auto simp: find_manifest_def dest: first_row_SomeD)

lemma reclaim_manifest_closes:
  assumes wf: "db_wf d" and ex: "m \<in> set (manifests d)" "manifest_key m = k"
    and res: "reclaim_manifest d m jid cid ow upd = Inr (d', True, r)"
  shows "manifest_closed k d' \<and> \<not> manifest_closed k d"
proof -
  define P where "P = (\<lambda>q. m_id q = m_id m \<and> manifest_reclaimable d q \<and> fence d jid ow upd)"
  define f :: "manifest_row \<Rightarrow> manifest_row" where
    "f = (\<lambda>q. q\<lparr>m_job_id := Some jid, m_chunk_id := Some cid, m_status := IClaimed,
       m_attempts := m_attempts q + 1, m_last_error := None, m_claimed_at := upd,
       m_completed_at := None, m_updated_at := upd\<rparr>)"
  have hit: "rowcount P (manifests d) \<noteq> 0" and d': "manifests d' = upd_rows P f (manifests d)"
    using res unfolding reclaim_manifest_def Let_def
    by (auto simp: bind_err_Inr_iff P_def f_def split: option.splits if_splits dest!: commit_manifests_Inr)
  have uniq: "q = m" if "q \<in> set (manifests d)" "m_id q = m_id m" for q
    using that ex wf by (metis db_unique_def db_wf_def distinct_map inj_onD)
  have "tab_closed manifest_key m_status k (upd_rows P f (manifests d))"
    using hit by (rule tab_closed_hit) (use uniq ex in \<open>auto simp: P_def f_def manifest_key_def\<close>)
  moreover from hit obtain q where q: "q \<in> set (manifests d)" "P q" by (auto simp: rowcount_0_iff)
  then have "q = m" using uniq by (simp add: P_def)
  then have "\<not> tab_closed manifest_key m_status k (manifests d)"
    using wf q ex by (intro tab_open_unique) (auto simp: db_wf_def db_unique_def P_def manifest_reclaimable_def)
  ultimately show ?thesis by (simp add: manifest_closed_def d')
qed

lemma claim_manifest_cases:
  assumes "claim_manifest d pid key jid cid w nid now upd = Inr (d', won, r)"
  obtains (new) "won" "r \<notin> set (manifests d)" "manifest_key r = (pid, key)" "m_status r = IClaimed"
      "(pid, key) \<notin> set (map manifest_key (manifests d))" "d' = d\<lparr>manifests := manifests d @ [r]\<rparr>"
    | (old) m ow where "m \<in> set (manifests d)" "manifest_key m = (pid, key)"
      "reclaim_manifest d m jid cid ow upd = Inr (d', won, r)"
proof -
  obtain ow where ow: "normalize_lease_owner w = Inr ow"
    using assms by (auto simp: claim_manifest_def bind_err_Inr_iff)
  define row where "row = \<lparr>m_id = nid, m_project_id = pid, m_import_key = key, m_job_id = Some jid,
                 m_chunk_id = Some cid, m_status = IClaimed, m_attempts = 1, m_memory_ids = [],
                 m_last_error = None, m_claimed_at = now, m_completed_at = None,
                 m_created_at = now, m_updated_at = now\<rparr>"
  show thesis
  proof (cases "fenced_insert d jid ow now (manifest_conflict d row) (d\<lparr>manifests := manifests d @ [row]\<rparr>)")
    case (Inr d1)
    with assms ow have eq: "d' = d\<lparr>manifests := manifests d @ [row]\<rparr>" "won" "r = row" "\<not> manifest_conflict d row"
      by (auto simp: claim_manifest_def Let_def row_def [symmetric] fenced_insert_Inr)
    have "manifest_key row = (pid, key)" "m_status row = IClaimed" by (simp_all add: row_def manifest_key_def)
    moreover from eq this have "(pid, key) \<notin> set (map manifest_key (manifests d))" "row \<notin> set (manifests d)"
      by (auto simp: manifest_conflict_def)
    ultimately show thesis using eq by (intro new) simp_all
  next
    case (Inl e)
    with assms ow show thesis
      by (auto simp: claim_manifest_def Let_def row_def [symmetric] split: if_splits option.splits
               dest!: find_manifestD intro: old)
  qed
qed

lemma claim_manifest_closes:
  assumes wf: "db_wf d" and res: "claim_manifest d pid key jid cid w nid now upd = Inr (d', True, r)"
  shows "manifest_closed (pid, key) d' \<and> \<not> manifest_closed (pid, key) d"
  using res
proof (cases rule: claim_manifest_cases)
  case new
  then show ?thesis by (simp add: manifest_closed_def tab_open_absent tab_closed_new)
next
  case (old m ow)
  with wf show ?thesis by (intro reclaim_manifest_closes)
qed

lemma closed_reclaim_manifest:
  assumes closed: "manifest_closed k d" and res: "reclaim_manifest d m jid cid ow upd = Inr (d', x)"
  shows "manifest_closed k d'"
proof -
  obtain P f Q g where "manifests d' = upd_rows P f (manifests d) \<or> manifests d' = upd_rows Q g (manifests d)"
    and "\<forall>q. P q \<longrightarrow> m_status q \<in> set reclaimable_statuses"
    and "\<forall>q. manifest_key (g q) = manifest_key q \<and> m_status (g q) = ISplit"
  proof
    let ?live = "fence d jid ow upd"
    let ?P = "\<lambda>q. m_id q = m_id m \<and> manifest_reclaimable d q \<and> ?live"
    let ?f = "\<lambda>q::manifest_row. q\<lparr>m_job_id := Some jid, m_chunk_id := Some cid, m_status := IClaimed,
       m_attempts := m_attempts q + 1, m_last_error := None, m_claimed_at := upd,
       m_completed_at := None, m_updated_at := upd\<rparr>"
    let ?Q = "\<lambda>q. m_id q = m_id m \<and> m_status q = IReleased \<and> chunk_of_manifest_split d q \<and> ?live"
    let ?g = "\<lambda>q::manifest_row. q\<lparr>m_status := ISplit, m_completed_at := Some upd, m_updated_at := upd\<rparr>"
    show "manifests d' = upd_rows ?P ?f (manifests d) \<or> manifests d' = upd_rows ?Q ?g (manifests d)"
      using res unfolding reclaim_manifest_def Let_def
      by (auto simp: bind_err_Inr_iff split: option.splits if_splits dest!: commit_manifests_Inr)
    show "\<forall>q. ?P q \<longrightarrow> m_status q \<in> set reclaimable_statuses" by (simp add: manifest_reclaimable_def)
    show "\<forall>q. manifest_key (?g q) = manifest_key q \<and> m_status (?g q) = ISplit" by (simp add: manifest_key_def)
  qed
  with closed show ?thesis
    unfolding manifest_closed_def by (auto intro!: tab_closed_upd)
qed

lemma closed_claim_manifest:
  assumes closed: "manifest_closed k d" and res: "claim_manifest d pid key jid cid w nid now upd = Inr (d', x)"
  shows "manifest_closed k d'"
proof -
  obtain won r where x: "x = (won, r)" by (cases x)
  from res [unfolded x] show ?thesis
  proof (cases rule: claim_manifest_cases)
    case new
    with closed show ?thesis by (simp add: manifest_closed_def tab_closed_append)
  next
    case (old m ow)
    with closed show ?thesis by (blast intro: closed_reclaim_manifest)
  qed
qed

lemma closed_mark_manifest:
  assumes closed: "manifest_closed k d" and no: "\<not> ((pid, key) = k \<and> st \<in> set reclaimable_statuses)"
    and res: "mark_manifest d pid key st mids job w cols now = Inr (d', x)"
  shows "manifest_closed k d'"
proof -
  obtain P where P: "manifests d' = upd_rows P (mark_manifest_row st mids cols now) (manifests d)"
    "\<forall>q. P q \<longrightarrow> manifest_key q = (pid, key)"
    using res unfolding mark_manifest_def Let_def
    by (auto simp: bind_err_Inr_iff split: if_splits dest!: commit_manifests_Inr)
  show ?thesis
    unfolding manifest_closed_def P(1)
    using closed [unfolded manifest_closed_def]
    by (rule tab_closed_upd) (use P(2) no in \<open>auto simp: mark_manifest_row_status row_keys\<close>)
qed

text \<open>The manifest of a chunk as a claim registry.\<close>

fun wins_manifest :: "pystr \<times> pystr \<Rightarrow> repo_call \<Rightarrow> import_db \<Rightarrow> bool" where
  "wins_manifest k (ClaimManifest pid key jid cid w nid now upd) d =
     ((pid, key) = k \<and>
      (case claim_manifest d pid key jid cid w nid now upd of Inl _ \<Rightarrow> False | Inr (_, won, _) \<Rightarrow> won))"
| "wins_manifest k _ d = False"

fun reopens_manifest :: "pystr \<times> pystr \<Rightarrow> repo_call \<Rightarrow> bool" where
  "reopens_manifest k (MarkManifest pid key st mids job w cols now) =
     ((pid, key) = k \<and> st \<in> set reclaimable_statuses)"
| "reopens_manifest k _ = False"

lemma wins_manifestD:
  "wins_manifest k c d \<Longrightarrow> \<exists>d' r pid key jid cid w nid now upd.
     c = ClaimManifest pid key jid cid w nid now upd \<and> k = (pid, key) \<and>
     claim_manifest d pid key jid cid w nid now upd = Inr (d', True, r)"
  by (cases c) (auto split: sum.splits)

lemma delete_uploading_jobs: "delete_uploading_job d jid w now = Inr (d', x) \<Longrightarrow> \<exists>P. d' = delete_jobs P d"
  by (auto simp: delete_uploading_job_def bind_err_Inr_iff Let_def)

lemma call_keeps: "keeps I res \<Longrightarrow> res = Inr (d, x) \<Longrightarrow> I d"
  by simp

fun touches_claims :: "repo_call \<Rightarrow> bool" where
  "touches_claims (ClaimManifest pid key jid cid w nid now upd) = True"
| "touches_claims (MarkManifest pid key st mids job w cols now) = True"
| "touches_claims (ClaimHash pid conv mh jid cid w nid now upd) = True"
| "touches_claims (ReleaseHashes jid cid hs w now) = True"
| "touches_claims (MarkHashes pid conv mhs job ch arg w now) = True"
| "touches_claims (DeleteUploading jid w now) = True"
| "touches_claims _ = False"

lemmas same_claims_results = same_claims_ops [THEN call_keeps]

lemma same_claims_call: "\<not> touches_claims c \<Longrightarrow> exec_call c d = Inr d' \<Longrightarrow> same_claims d d'"
  by (cases c) (auto simp: db_of_eq_Inr same_cancel dest: same_claims_results)

lemma reclaim_manifest_hashes: "reclaim_manifest d m jid cid ow upd = Inr (d', x) \<Longrightarrow> hashes d' = hashes d"
  unfolding reclaim_manifest_def Let_def
  by (auto simp: bind_err_Inr_iff split: option.splits if_splits dest!: commit_manifests_Inr)

lemma manifest_ops_hashes:
  "claim_manifest d pid key jid cid w nid now upd = Inr (d', x) \<Longrightarrow> hashes d' = hashes d"
  "mark_manifest d pid key st mids job w cols now = Inr (d', y) \<Longrightarrow> hashes d' = hashes d"
proof -
  show "hashes d' = hashes d" if "claim_manifest d pid key jid cid w nid now upd = Inr (d', x)"
  proof -
    obtain won r where "x = (won, r)" by (cases x)
    with that show ?thesis
      by (auto elim!: claim_manifest_cases dest: reclaim_manifest_hashes)
  qed
  show "hashes d' = hashes d" if "mark_manifest d pid key st mids job w cols now = Inr (d', y)"
    using that unfolding mark_manifest_def Let_def
    by (auto simp: bind_err_Inr_iff split: if_splits dest!: commit_manifests_Inr)
qed

section \<open>Memory hashes\<close>

lemma find_hashD: "find_hash d pid conv mh = Some h \<Longrightarrow> h \<in> set (hashes d) \<and> hash_key h = (pid, conv, mh)"
  by (auto simp: find_hash_def dest: first_row_SomeD)

text \<open>The shape of every update of the hash table.\<close>

definition hash_claim_upd :: "import_db \<Rightarrow> hash_row \<Rightarrow> import_db \<Rightarrow> bool \<Rightarrow> bool" where
  "hash_claim_upd d h d' won =
    (\<exists>P f. d' = d\<lparr>hashes := upd_rows P f (hashes d)\<rparr> \<and> won = (rowcount P (hashes d) \<noteq> 0) \<and>
      (\<forall>q. P q \<longrightarrow> h_id q = h_id h \<and> h_status q \<in> set reclaimable_statuses) \<and>
      (\<forall>q. hash_key (f q) = hash_key q \<and> h_status (f q) = IClaimed))"

lemma reclaim_hash_upd:
  assumes "reclaim_hash d h jid cid ow upd = Inr (d', won)"
  shows "hash_claim_upd d h d' won"
  unfolding hash_claim_upd_def
proof (intro exI conjI)
  let ?P = "\<lambda>q. h_id q = h_id h \<and> h_status q \<in> set reclaimable_statuses \<and> fence d jid ow upd"
  let ?f = "\<lambda>q::hash_row. q\<lparr>h_job_id := Some jid, h_chunk_id := Some cid, h_status := IClaimed,
      h_memory_id := None, h_claimed_at := upd, h_succeeded_at := None, h_updated_at := upd\<rparr>"
  show "d' = d\<lparr>hashes := upd_rows ?P ?f (hashes d)\<rparr>" "won = (rowcount ?P (hashes d) \<noteq> 0)"
    using assms by (auto simp: reclaim_hash_def commit_hashes_def Let_def bind_err_Inr_iff split: if_splits)
qed (simp_all add: hash_key_def)

lemma claim_hash_cases:
  assumes "claim_memory_hash d pid conv mh jid cid w nid now upd = Inr (d', won)"
  obtains (new) r where "won" "hash_key r = (pid, conv, mh)" "h_status r = IClaimed"
      "(pid, conv, mh) \<notin> set (map hash_key (hashes d))" "d' = d\<lparr>hashes := hashes d @ [r]\<rparr>"
    | (old) h where "h \<in> set (hashes d)" "hash_key h = (pid, conv, mh)" "hash_claim_upd d h d' won"
proof -
  obtain ow where ow: "normalize_lease_owner w = Inr ow"
    using assms by (auto simp: claim_memory_hash_def bind_err_Inr_iff)
  define row where "row = \<lparr>h_id = nid, h_project_id = pid, h_conversation_id = conv, h_memory_hash = mh,
                 h_job_id = Some jid, h_chunk_id = Some cid, h_status = IClaimed, h_memory_id = None,
                 h_claimed_at = now, h_succeeded_at = None, h_created_at = now, h_updated_at = now\<rparr>"
  show thesis
  proof (cases "fenced_insert d jid ow now (hash_conflict d row) (d\<lparr>hashes := hashes d @ [row]\<rparr>)")
    case (Inr d1)
    with assms ow have eq: "d' = d\<lparr>hashes := hashes d @ [row]\<rparr>" "won" "\<not> hash_conflict d row"
      by (auto simp: claim_memory_hash_def Let_def row_def [symmetric] fenced_insert_Inr)
    have key: "hash_key row = (pid, conv, mh)" "h_status row = IClaimed" by (simp_all add: row_def hash_key_def)
    with eq(3) have "(pid, conv, mh) \<notin> set (map hash_key (hashes d))" by (auto simp: hash_conflict_def)
    with eq key show thesis by (intro new) simp_all
  next
    case (Inl e)
    with assms ow show thesis
      by (auto simp: claim_memory_hash_def Let_def row_def [symmetric] split: if_splits option.splits
               dest!: find_hashD intro: old reclaim_hash_upd)
  qed
qed

lemma claim_hash_closes:
  assumes wf: "db_wf d" and res: "claim_memory_hash d pid conv mh jid cid w nid now upd = Inr (d', True)"
  shows "hash_closed (pid, conv, mh) d' \<and> \<not> hash_closed (pid, conv, mh) d"
  using res
proof (cases rule: claim_hash_cases)
  case (new r)
  then show ?thesis by (simp add: hash_closed_def tab_open_absent tab_closed_new)
next
  case (old h)
  then obtain P f where d': "d' = d\<lparr>hashes := upd_rows P f (hashes d)\<rparr>" and hit: "rowcount P (hashes d) \<noteq> 0"
    and P: "\<And>q. P q \<Longrightarrow> h_id q = h_id h \<and> h_status q \<in> set reclaimable_statuses"
    and f: "\<And>q. hash_key (f q) = hash_key q \<and> h_status (f q) = IClaimed"
    by (auto simp: hash_claim_upd_def)
  have uniq: "q = h" if "q \<in> set (hashes d)" "h_id q = h_id h" for q
    using that old(1) wf by (metis db_unique_def db_wf_def distinct_map inj_onD)
  have "tab_closed hash_key h_status (pid, conv, mh) (upd_rows P f (hashes d))"
    using hit by (rule tab_closed_hit) (use uniq old(2) f P in \<open>simp; metis\<close>)
  moreover from hit obtain q where q: "q \<in> set (hashes d)" "P q" by (auto simp: rowcount_0_iff)
  then have "q = h" using uniq P by simp
  then have "\<not> tab_closed hash_key h_status (pid, conv, mh) (hashes d)"
    using wf q old(2) P [of q] by (intro tab_open_unique) (auto simp: db_wf_def db_unique_def)
  ultimately show ?thesis by (simp add: hash_closed_def d')
qed

lemma closed_claim_hash:
  assumes closed: "hash_closed k d" and res: "claim_memory_hash d pid conv mh jid cid w nid now upd = Inr (d', won)"
  shows "hash_closed k d'"
  using res
proof (cases rule: claim_hash_cases)
  case (new r)
  with closed show ?thesis by (simp add: hash_closed_def tab_closed_append)
next
  case (old h)
  with closed show ?thesis
    by (auto simp: hash_closed_def hash_claim_upd_def intro!: tab_closed_upd)
qed

lemma succeed_hashes_manifests:
  "manifests (fst (succeed_hashes d pid conv job ch ids ow now hs n)) = manifests d"
  by (induction hs arbitrary: d n) (simp_all add: Let_def)

lemma hash_ops_manifests:
  "claim_memory_hash d pid conv mh jid cid w nid now upd = Inr (d', won) \<Longrightarrow> manifests d' = manifests d"
  "release_memory_hashes d jid cid hs w now = Inr (d', n) \<Longrightarrow> manifests d' = manifests d"
  "mark_memory_hashes_succeeded d pid conv mhs job ch arg w now = Inr (d', m) \<Longrightarrow> manifests d' = manifests d"
proof -
  show "manifests d' = manifests d" if "claim_memory_hash d pid conv mh jid cid w nid now upd = Inr (d', won)"
    using that by (cases rule: claim_hash_cases) (auto simp: hash_claim_upd_def)
  show "manifests d' = manifests d" if "release_memory_hashes d jid cid hs w now = Inr (d', n)"
    using that by (auto simp: release_memory_hashes_def Let_def bind_err_Inr_iff split: if_splits)
  show "manifests d' = manifests d" if "mark_memory_hashes_succeeded d pid conv mhs job ch arg w now = Inr (d', m)"
  proof -
    from that consider "d' = d" | ids ow hs where "succeed_hashes d pid conv job ch ids ow now hs 0 = (d', m)"
      by (auto simp: mark_memory_hashes_succeeded_def Let_def bind_err_Inr_iff split: if_splits)
    then show ?thesis
    proof cases
      case 2
      then show ?thesis by (metis succeed_hashes_manifests fst_conv)
    qed simp
  qed
qed

lemma closed_succeed_hashes:
  "hash_closed k d \<Longrightarrow> hash_closed k (fst (succeed_hashes d pid conv job ch ids ow now hs n))"
proof (induction hs arbitrary: d n)
  case (Cons mh hs)
  let ?f = "\<lambda>h. h\<lparr>h_status := ISucceeded, h_memory_id := map_of ids mh, h_succeeded_at := Some now, h_updated_at := now\<rparr>"
  from Cons.prems have "tab_closed hash_key h_status k (upd_rows (succeed_hash_target d pid conv mh job ch ow now) ?f (hashes d))"
    unfolding hash_closed_def by (rule tab_closed_upd) (simp_all add: hash_key_def)
  then show ?case
    unfolding succeed_hashes.simps Let_def by (intro Cons.IH) (simp add: hash_closed_def)
qed simp

lemma closed_mark_hashes:
  assumes closed: "hash_closed k d"
    and res: "mark_memory_hashes_succeeded d pid conv mhs job ch arg w now = Inr (d', m)"
  shows "hash_closed k d'"
proof -
  from res consider "d' = d" | ids ow hs where "succeed_hashes d pid conv job ch ids ow now hs 0 = (d', m)"
    by (auto simp: mark_memory_hashes_succeeded_def Let_def bind_err_Inr_iff split: if_splits)
  then show ?thesis
  proof cases
    case 2
    with closed_succeed_hashes [OF closed] show ?thesis by (metis fst_conv)
  qed (use closed in simp)
qed

text \<open>A release only gives back the hashes it names.\<close>

lemma closed_release_hashes:
  assumes closed: "hash_closed (p, conv, mh) d" and no: "hs \<noteq> None" "mh \<notin> set (the hs)"
    and res: "release_memory_hashes d jid cid hs w now = Inr (d', n)"
  shows "hash_closed (p, conv, mh) d'"
proof -
  from res consider "d' = d"
    | P where "d' = d\<lparr>hashes := filter P (hashes d)\<rparr>" "\<And>h. h_memory_hash h \<notin> set (the hs) \<Longrightarrow> P h"
    using no(1) by (fastforce simp: release_memory_hashes_def Let_def bind_err_Inr_iff split: if_split_asm)
  then show ?thesis
  proof cases
    case 2
    with closed no(2) show ?thesis by (simp add: hash_closed_def) (rule tab_closed_filter, auto simp: hash_key_def)
  qed (use closed in simp)
qed

text \<open>The registry of memory hashes as a claim registry.\<close>

fun wins_hash :: "pystr \<times> pystr \<times> pystr \<Rightarrow> repo_call \<Rightarrow> import_db \<Rightarrow> bool" where
  "wins_hash k (ClaimHash pid conv mh jid cid w nid now upd) d =
     ((pid, conv, mh) = k \<and>
      (case claim_memory_hash d pid conv mh jid cid w nid now upd of Inl _ \<Rightarrow> False | Inr (_, won) \<Rightarrow> won))"
| "wins_hash k _ d = False"

fun reopens_hash :: "pystr \<times> pystr \<times> pystr \<Rightarrow> repo_call \<Rightarrow> bool" where
  "reopens_hash (p, conv, mh) (ReleaseHashes jid cid hs w now) = (hs = None \<or> mh \<in> set (the hs))"
| "reopens_hash k _ = False"

lemma wins_hashD:
  "wins_hash k c d \<Longrightarrow> \<exists>d' pid conv mh jid cid w nid now upd.
     c = ClaimHash pid conv mh jid cid w nid now upd \<and> k = (pid, conv, mh) \<and>
     claim_memory_hash d pid conv mh jid cid w nid now upd = Inr (d', True)"
  by (cases c) (auto split: sum.splits)

section \<open>The two registries\<close>

lemma manifest_closed_call:
  assumes closed: "manifest_closed k d" and no: "\<not> reopens_manifest k c" and ex: "exec_call c d = Inr d'"
  shows "manifest_closed k d'"
proof (cases "touches_claims c")
  case False
  with ex have "same_claims d d'" by (intro same_claims_call)
  with closed show ?thesis by (simp add: closed_same_claims)
next
  case True
  have other: "manifests d' = manifests d \<Longrightarrow> ?thesis" using closed by (simp add: manifest_closed_def)
  from True show ?thesis
    by (cases c rule: touches_claims.cases)
       (use ex closed no in \<open>auto simp: db_of_eq_Inr closed_delete_jobs
          intro: closed_claim_manifest closed_mark_manifest other hash_ops_manifests dest!: delete_uploading_jobs\<close>)
qed

lemma hash_closed_call:
  assumes closed: "hash_closed k d" and no: "\<not> reopens_hash k c" and ex: "exec_call c d = Inr d'"
  shows "hash_closed k d'"
proof (cases "touches_claims c")
  case False
  with ex have "same_claims d d'" by (intro same_claims_call)
  with closed show ?thesis by (simp add: closed_same_claims)
next
  case True
  obtain p conv mh where k: "k = (p, conv, mh)" by (cases k)
  have other: "hashes d' = hashes d \<Longrightarrow> hash_closed (p, conv, mh) d'"
    using closed by (simp add: hash_closed_def k)
  from True show ?thesis
    by (cases c rule: touches_claims.cases)
       (use ex closed no in \<open>auto simp: db_of_eq_Inr closed_delete_jobs k
          intro: closed_claim_hash closed_mark_hashes closed_release_hashes other manifest_ops_hashes
          dest!: delete_uploading_jobs\<close>)
qed

interpretation manifests: claim_registry exec_call db_wf wins_manifest manifest_closed reopens_manifest
proof
  fix d c d' and k :: "pystr \<times> pystr"
  show "db_wf d \<Longrightarrow> exec_call c d = Inr d' \<Longrightarrow> db_wf d'" by (rule exec_call_wf)
  show "db_wf d \<Longrightarrow> wins_manifest k c d \<Longrightarrow> \<not> manifest_closed k d"
    by (auto dest!: wins_manifestD dest: claim_manifest_closes)
  show "db_wf d \<Longrightarrow> wins_manifest k c d \<Longrightarrow> exec_call c d = Inr d' \<Longrightarrow> manifest_closed k d'"
    by (auto dest!: wins_manifestD dest: claim_manifest_closes)
  show "wins_manifest k c d \<Longrightarrow> \<exists>d'. exec_call c d = Inr d'"
    by (auto dest!: wins_manifestD)
  show "db_wf d \<Longrightarrow> manifest_closed k d \<Longrightarrow> \<not> reopens_manifest k c \<Longrightarrow> exec_call c d = Inr d' \<Longrightarrow> manifest_closed k d'"
    by (rule manifest_closed_call)
qed

interpretation memory_hashes: claim_registry exec_call db_wf wins_hash hash_closed reopens_hash
proof
  fix d c d' and k :: "pystr \<times> pystr \<times> pystr"
  show "db_wf d \<Longrightarrow> exec_call c d = Inr d' \<Longrightarrow> db_wf d'" by (rule exec_call_wf)
  show "db_wf d \<Longrightarrow> wins_hash k c d \<Longrightarrow> \<not> hash_closed k d"
    by (auto dest!: wins_hashD dest: claim_hash_closes)
  show "db_wf d \<Longrightarrow> wins_hash k c d \<Longrightarrow> exec_call c d = Inr d' \<Longrightarrow> hash_closed k d'"
    by (auto dest!: wins_hashD dest: claim_hash_closes)
  show "wins_hash k c d \<Longrightarrow> \<exists>d'. exec_call c d = Inr d'"
    by (auto dest!: wins_hashD)
  show "db_wf d \<Longrightarrow> hash_closed k d \<Longrightarrow> \<not> reopens_hash k c \<Longrightarrow> exec_call c d = Inr d' \<Longrightarrow> hash_closed k d'"
    by (rule hash_closed_call)
qed

section \<open>At most one importer\<close>

text \<open>C2: a chunk is imported once. In any interleaving of repository calls, by any workers and jobs,
  that does not mark the manifest as failed, released or retryable, at most one \<open>claim_manifest\<close>
  of its key answers that the caller has claimed it.\<close>
theorem manifest_claimed_once:
  assumes "db_wf d" and "\<forall>c\<in>set cs. \<not> reopens_manifest (pid, key) c"
  shows "win_count exec_call wins_manifest (pid, key) cs d \<le> 1"
  using assms by (rule manifests.won_at_most_once)

text \<open>C3: a memory is written once. In any interleaving of repository calls in which nobody releases the
  hash, at most one \<open>claim_memory_hash\<close> of it in its conversation succeeds.\<close>
theorem memory_hash_claimed_once:
  assumes "db_wf d" and "\<forall>c\<in>set cs. \<not> reopens_hash (pid, conv, mh) c"
  shows "win_count exec_call wins_hash (pid, conv, mh) cs d \<le> 1"
  using assms by (rule memory_hashes.won_at_most_once)

text \<open>Two jobs of one project that meet the same chunk and the same memory.\<close>

definition two_jobs_db :: import_db where
  "two_jobs_db = run_calls exec_call
     [CreateJob [JcProjectId (U ''proj'')] (U ''j1'') 0, CreateJob [JcProjectId (U ''proj'')] (U ''j2'') 0,
      UpsertChunk None [CcJobId (U ''j1''), CcImportKey (U ''k'')] (U ''c1'') 1 1,
      UpsertChunk None [CcJobId (U ''j2''), CcImportKey (U ''k'')] (U ''c2'') 1 1] empty_db"

lemma two_jobs_db_wf: "db_wf two_jobs_db"
  unfolding two_jobs_db_def by (rule run_calls_wf) (rule db_wf_empty)

definition rival_manifest_claims :: "repo_call list" where
  "rival_manifest_claims =
     [ClaimManifest (U ''proj'') (U ''k'') (U ''j1'') (U ''c1'') None (U ''m1'') 2 2,
      ClaimManifest (U ''proj'') (U ''k'') (U ''j2'') (U ''c2'') None (U ''m2'') 3 3]"

definition rival_hash_claims :: "repo_call list" where
  "rival_hash_claims =
     [ClaimHash (U ''proj'') (U ''conv'') (U ''h'') (U ''j1'') (U ''c1'') None (U ''h1'') 2 2,
      ClaimHash (U ''proj'') (U ''conv'') (U ''h'') (U ''j2'') (U ''c2'') None (U ''h2'') 3 3]"

lemma manifest_claimed_once_witness:
  "win_count exec_call wins_manifest (U ''proj'', U ''k'') rival_manifest_claims two_jobs_db = 1"
proof -
  have "\<forall>c\<in>set rival_manifest_claims. \<not> reopens_manifest (U ''proj'', U ''k'') c"
    by (simp add: rival_manifest_claims_def)
  from manifest_claimed_once [OF two_jobs_db_wf this]
  have "win_count exec_call wins_manifest (U ''proj'', U ''k'') rival_manifest_claims two_jobs_db \<le> 1" .
  moreover have "win_count exec_call wins_manifest (U ''proj'', U ''k'') rival_manifest_claims two_jobs_db \<noteq> 0"
    by code_simp
  ultimately show ?thesis by simp
qed

lemma memory_hash_claimed_once_witness:
  "win_count exec_call wins_hash (U ''proj'', U ''conv'', U ''h'') rival_hash_claims two_jobs_db = 1"
proof -
  have "\<forall>c\<in>set rival_hash_claims. \<not> reopens_hash (U ''proj'', U ''conv'', U ''h'') c"
    by (simp add: rival_hash_claims_def)
  from memory_hash_claimed_once [OF two_jobs_db_wf this]
  have "win_count exec_call wins_hash (U ''proj'', U ''conv'', U ''h'') rival_hash_claims two_jobs_db \<le> 1" .
  moreover have "win_count exec_call wins_hash (U ''proj'', U ''conv'', U ''h'') rival_hash_claims two_jobs_db \<noteq> 0"
    by code_simp
  ultimately show ?thesis by simp
qed

end
