(* ===== verification/Import_Laws.thy ===== *)
theory Import_Laws
  imports Import_Claims
begin

text \<open>
  What the remaining operations of the import repository promise: the limit on a project's
  active jobs, the budget of retained workspace bytes, the discard of a workspace, the outcome of
  a chunk, the statuses a resumed job starts from, and the graph counters of a job.
\<close>

section \<open>The limit on active jobs\<close>

lemma count_active_insert:
  "count_active_jobs (d\<lparr>jobs := jobs d @ [r]\<rparr>) pid \<le> count_active_jobs d pid + 1"
  by (simp add: count_active_jobs_def rowcount_append)

lemma create_limited_Inr:
  assumes "create_job_with_active_limit d cap ret cols nid now = Inr (d', r)"
  obtains pid where "given_project_id (prepare_job_values cols nid now) = Some pid"
    "count_active_jobs d (py_strip pid) < cap" "d' = d\<lparr>jobs := jobs d @ [r]\<rparr>"
  using assms
  by (auto simp: create_job_with_active_limit_def insert_job_def Let_def split: if_splits option.splits)

lemma create_limited_within:
  assumes "create_job_with_active_limit d cap ret cols nid now = Inr (d', r)"
  shows "\<exists>pid. given_project_id (prepare_job_values cols nid now) = Some pid \<and>
               count_active_jobs d' (py_strip pid) \<le> cap"
  using assms
proof (cases rule: create_limited_Inr)
  case (1 pid)
  with count_active_insert [of d r "py_strip pid"] show ?thesis by simp
qed

lemma upd_rows_count_le:
  assumes "distinct (map k rows)" and "\<And>r. P r \<Longrightarrow> k r = x"
  shows "rowcount S (upd_rows P f rows) \<le> rowcount S rows + 1"
proof -
  have "rowcount S (upd_rows P f rows) \<le> rowcount S rows + rowcount P rows"
    by (induction rows) (auto simp: upd_rows_def)
  also have "rowcount P rows \<le> 1" using assms by (rule rowcount_key_le_1)
  finally show ?thesis by simp
qed

lemma graph_retry_within:
  assumes "db_wf d" and "activate_graph_retry d jid pid w secs cap tm clk = Inr (d', Some r)"
  shows "count_active_jobs d' pid \<le> cap"
proof -
  obtain f where "update_and_fetch d jid (graph_retry_eligible jid pid) f = (d', Some r)"
    and lim: "count_active_jobs d pid < cap"
    using assms(2) by (auto simp: activate_graph_retry_def Let_def bind_err_Inr_iff split: if_splits)
  then have "jobs d' = upd_rows (graph_retry_eligible jid pid) f (jobs d)"
    by (auto simp: update_and_fetch_def Let_def split: if_splits)
  moreover have "rowcount (is_active_of pid) (upd_rows (graph_retry_eligible jid pid) f (jobs d))
      \<le> rowcount (is_active_of pid) (jobs d) + 1"
    using db_wf_job_ids [OF assms(1)] by (rule upd_rows_count_le) (simp add: graph_retry_eligible_def)
  ultimately show ?thesis using lim by (simp add: count_active_jobs_def)
qed

lemma retry_within:
  assumes "db_wf d" and "acquire_job_retry_lease d jid pid w secs sts (Some cap) tm clk = Inr (d', Some r)"
  shows "count_active_jobs d' pid \<le> cap"
proof -
  obtain f where "update_and_fetch d jid (retry_eligible jid pid (dedup sts)) f = (d', Some r)"
    and lim: "count_active_jobs d pid < cap"
    using assms(2) by (auto simp: acquire_job_retry_lease_def Let_def bind_err_Inr_iff split: if_splits)
  then have "jobs d' = upd_rows (retry_eligible jid pid (dedup sts)) f (jobs d)"
    by (auto simp: update_and_fetch_def Let_def split: if_splits)
  moreover have "rowcount (is_active_of pid) (upd_rows (retry_eligible jid pid (dedup sts)) f (jobs d))
      \<le> rowcount (is_active_of pid) (jobs d) + 1"
    using db_wf_job_ids [OF assms(1)] by (rule upd_rows_count_le) (simp add: retry_eligible_def)
  ultimately show ?thesis using lim by (simp add: count_active_jobs_def)
qed

section \<open>The workspace budget\<close>

lemma active_lease_rowcount:
  assumes "db_wf d" and "active_lease_exists d jid w t"
  shows "rowcount (active_lease_conditions jid w t) (jobs d) = 1"
proof -
  have "rowcount (active_lease_conditions jid w t) (jobs d) \<le> 1"
    using db_wf_job_ids [OF assms(1)] by (rule rowcount_key_le_1) (simp add: active_lease_conditions_def)
  moreover have "rowcount (active_lease_conditions jid w t) (jobs d) \<noteq> 0"
    using assms(2) by (auto simp: rowcount_0_iff active_lease_exists_def)
  ultimately show ?thesis by simp
qed

lemma reserve_used:
  assumes "db_wf d" and "reserve_workspace_bytes d jid w req cap secs tm clk = Inr (d', used, own)"
  shows "used_workspace_bytes d' = used_workspace_bytes d + req \<and> used = used_workspace_bytes d' \<and> used \<le> cap"
proof -
  define a where "a = coalesce_now tm clk"
  define P where "P = active_lease_conditions jid (py_strip w) a"
  define f :: "job_row \<Rightarrow> job_row" where
    "f = (\<lambda>r. r\<lparr>j_count := (j_count r)(WorkspaceBytes := j_count r WorkspaceBytes + req),
               j_lease_expires_at := Some (a + timedelta_us secs), j_updated_at := a\<rparr>)"
  have d': "d' = d\<lparr>jobs := upd_rows P f (jobs d)\<rparr>" and used: "used = used_workspace_bytes d + req"
    and cap: "used \<le> cap" and live: "active_lease_exists d jid (py_strip w) a"
    using assms(2)
    by (auto simp: reserve_workspace_bytes_def Let_def bind_err_Inr_iff lease_window_eq a_def [symmetric]
                   assert_active_lease_def P_def f_def split: if_splits)
  have "sum_list (map (\<lambda>r. j_count r WorkspaceBytes) (upd_rows P f (jobs d)))
      = sum_list (map (\<lambda>r. j_count r WorkspaceBytes) (jobs d)) + int (rowcount P (jobs d)) * req"
    by (rule sum_list_upd_rows_add) (simp add: f_def)
  with active_lease_rowcount [OF assms(1) live] have "used_workspace_bytes d' = used_workspace_bytes d + req"
    by (simp add: used_workspace_bytes_def d' P_def)
  with used cap show ?thesis by simp
qed

section \<open>Discarding a workspace\<close>

definition discarding :: "import_db \<Rightarrow> pystr \<Rightarrow> bool" where
  "discarding d jid = (\<forall>r\<in>set (jobs d). j_id r = jid \<longrightarrow> j_phase r = workspace_discard_phase)"

lemma discard_lease_discarding:
  assumes "db_wf d" and "acquire_job_workspace_discard_lease d jid pid w secs sts tm clk = Inr (d', Some r)"
  shows "discarding d' jid"
proof -
  obtain P f where go: "update_and_fetch d jid P f = (d', Some r)" and P: "\<And>r. P r \<Longrightarrow> j_id r = jid"
    and f: "\<And>r. j_phase (f r) = workspace_discard_phase \<and> j_id (f r) = j_id r"
    using assms(2)
    by (fastforce simp: acquire_job_workspace_discard_lease_def Let_def bind_err_Inr_iff split: if_splits)
  then have d': "jobs d' = upd_rows P f (jobs d)" and "rowcount P (jobs d) \<noteq> 0"
    by (auto simp: update_and_fetch_def Let_def split: if_splits)
  then obtain q where q: "q \<in> set (jobs d)" "P q" by (auto simp: rowcount_0_iff)
  have "P p" if "p \<in> set (jobs d)" "j_id p = jid" for p
    using that q P db_wf_job_ids [OF assms(1)] by (metis distinct_map inj_onD)
  then show ?thesis using f by (auto simp: discarding_def d' set_upd_rows)
qed

lemma discarding_no_retry:
  "discarding d jid \<Longrightarrow> rowcount (retry_eligible jid pid sts) (jobs d) = 0"
  "discarding d jid \<Longrightarrow> rowcount (graph_retry_eligible jid pid) (jobs d) = 0"
  by (auto simp: discarding_def rowcount_0_iff retry_eligible_def graph_retry_eligible_def)

lemma discarding_refuses_retry:
  "discarding d jid \<Longrightarrow> acquire_job_retry_lease d jid pid w secs sts cap tm clk = Inr (d', x) \<Longrightarrow> d' = d \<and> x = None"
  by (auto simp: acquire_job_retry_lease_def Let_def bind_err_Inr_iff update_and_fetch_def discarding_no_retry
           split: if_splits option.splits)

lemma discarding_refuses_graph_retry:
  "discarding d jid \<Longrightarrow> activate_graph_retry d jid pid w secs cap tm clk = Inr (d', x) \<Longrightarrow> d' = d \<and> x = None"
  by (auto simp: activate_graph_retry_def Let_def bind_err_Inr_iff discarding_no_retry split: if_splits)

lemma sum_list_upd_key:
  assumes "distinct (map k rows)" and "r \<in> set rows"
  shows "sum_list (map v (upd_rows (\<lambda>q. k q = k r) f rows)) = sum_list (map v rows) - v r + (v (f r) :: int)"
  using assms
proof (induction rows)
  case (Cons x rows)
  show ?case
  proof (cases "x = r")
    case True
    with Cons.prems(1) have "\<forall>q\<in>set rows. k q \<noteq> k r" by (auto simp: image_iff)
    then have "upd_rows (\<lambda>q. k q = k r) f rows = rows"
      by (simp add: upd_rows_none rowcount_0_iff)
    with True show ?thesis by (simp add: upd_rows_def)
  next
    case False
    with Cons.prems have "k x \<noteq> k r" "r \<in> set rows" "distinct (map k rows)" by (auto simp: image_iff)
    with Cons.IH show ?thesis by (simp add: upd_rows_def)
  qed
qed simp

lemma complete_discard_bytes:
  assumes "db_wf d" and "complete_job_workspace_discard d jid w now = Inr (d', r)"
  shows "\<exists>row\<in>set (jobs d). j_id row = jid \<and>
           used_workspace_bytes d' = used_workspace_bytes d - j_count row WorkspaceBytes"
    and "j_workspace r = None \<and> j_lease_owner r = None \<and> j_phase r = terminal_phase (j_status r)"
proof -
  define f :: "job_row \<Rightarrow> job_row" where
    "f = (\<lambda>r. r\<lparr>j_phase := terminal_phase (j_status r), j_workspace := None,
      j_count := (j_count r)(WorkspaceBytes := 0), j_source_retry_required := False,
      j_lease_owner := None, j_lease_expires_at := None, j_updated_at := now\<rparr>)"
  obtain ow row where row: "first_row (discard_claimed jid ow) (jobs d) = Some row"
    and d': "jobs d' = upd_rows (\<lambda>q. j_id q = j_id row) f (jobs d)" and r: "r = f row"
    using assms(2) unfolding complete_job_workspace_discard_def f_def [symmetric] end_discard_def
    by (auto simp: bind_err_Inr_iff split: option.splits)
  from row have mem: "row \<in> set (jobs d)" "j_id row = jid"
    by (auto simp: discard_claimed_def dest: first_row_SomeD)
  from sum_list_upd_key [OF db_wf_job_ids [OF assms(1)] mem(1), of "\<lambda>r. j_count r WorkspaceBytes" f]
  have "used_workspace_bytes d' = used_workspace_bytes d - j_count row WorkspaceBytes"
    by (simp add: used_workspace_bytes_def d' f_def)
  with mem show "\<exists>row\<in>set (jobs d). j_id row = jid \<and>
           used_workspace_bytes d' = used_workspace_bytes d - j_count row WorkspaceBytes" by blast
  show "j_workspace r = None \<and> j_lease_owner r = None \<and> j_phase r = terminal_phase (j_status r)"
    by (simp add: r f_def)
qed

section \<open>The outcome of a chunk\<close>

definition chunk_outcome :: "chunk_row \<Rightarrow> item_status \<times> pystr list \<times> instant option \<times> pystr option \<times> pystr option" where
  "chunk_outcome c = (c_status c, c_memory_ids c, c_finished_at c, c_error_type c, c_error_message c)"

text \<open>The columns of a call name the chunk's job and key once, as keyword arguments do.\<close>

definition names_only :: "pystr \<Rightarrow> pystr \<Rightarrow> chunk_col \<Rightarrow> bool" where
  "names_only jid key c = (case c of CcJobId x \<Rightarrow> x = jid | CcImportKey x \<Rightarrow> x = key | _ \<Rightarrow> True)"

definition names_chunk :: "chunk_col list \<Rightarrow> pystr \<Rightarrow> pystr \<Rightarrow> bool" where
  "names_chunk cols jid key \<longleftrightarrow>
     CcJobId jid \<in> set cols \<and> CcImportKey key \<in> set cols \<and> (\<forall>c\<in>set cols. names_only jid key c)"

lemma names_chunk_given:
  assumes "names_chunk cols jid key"
  shows "given_chunk_job cols = jid \<and> given_chunk_key cols = key"
proof -
  have j: "\<forall>c\<in>set cols. names_only jid key c \<Longrightarrow> CcJobId jid \<in> set cols \<Longrightarrow> given_chunk_job cols = jid"
    by (induction cols rule: given_chunk_job.induct) (auto simp: names_only_def)
  have k: "\<forall>c\<in>set cols. names_only jid key c \<Longrightarrow> CcImportKey key \<in> set cols \<Longrightarrow> given_chunk_key cols = key"
    by (induction cols rule: given_chunk_key.induct) (auto simp: names_only_def)
  from assms j k show ?thesis by (simp add: names_chunk_def)
qed

lemma names_only_step:
  "names_only jid key c \<Longrightarrow>
   c_job_id (set_chunk_col c r) = (if c = CcJobId jid then jid else c_job_id r) \<and>
   c_import_key (set_chunk_col c r) = (if c = CcImportKey key then key else c_import_key r)"
  by (cases c) (simp_all add: names_only_def)

lemma names_only_row:
  "\<forall>c\<in>set cols. names_only jid key c \<Longrightarrow> CcJobId jid \<in> set cols \<or> c_job_id r = jid \<Longrightarrow>
   CcImportKey key \<in> set cols \<or> c_import_key r = key \<Longrightarrow>
   c_job_id (set_chunk_cols cols r) = jid \<and> c_import_key (set_chunk_cols cols r) = key"
  unfolding set_chunk_cols_def
proof (induction cols arbitrary: r)
  case (Cons c cols)
  have "c_job_id (fold set_chunk_col cols (set_chunk_col c r)) = jid \<and>
        c_import_key (fold set_chunk_col cols (set_chunk_col c r)) = key"
    using Cons.prems by (intro Cons.IH) (auto simp: names_only_step)
  then show ?case by simp
qed simp

lemma names_chunk_row:
  "names_chunk cols jid key \<Longrightarrow> chunk_key (set_chunk_cols cols r) = (jid, key)"
  using names_only_row [of cols jid key r] by (auto simp: names_chunk_def chunk_key_def)

lemma set_chunk_cols_outcome:
  "\<forall>c\<in>set cols. \<not> outcome_chunk_col c \<Longrightarrow> chunk_outcome (set_chunk_cols cols r) = chunk_outcome r"
proof -
  have step: "\<not> outcome_chunk_col c \<Longrightarrow> chunk_outcome (set_chunk_col c q) = chunk_outcome q" for c q
    by (cases c) (simp_all add: outcome_chunk_col_def chunk_outcome_def)
  show "\<forall>c\<in>set cols. \<not> outcome_chunk_col c \<Longrightarrow> ?thesis"
    unfolding set_chunk_cols_def by (induction cols arbitrary: r) (simp_all add: step)
qed

lemma upsert_existing_outcome:
  assumes "db_wf d" and "ex \<in> set (chunks d)" and "c_status ex \<in> set terminal_chunk_statuses"
    and "upsert_existing_chunk d jid ow vals ex upd = Inr (d', r)"
  shows "chunk_outcome r = chunk_outcome ex"
proof -
  define cols where "cols = filter (\<lambda>c. \<not> outcome_chunk_col c) (mutable_chunk_cols vals)"
  define f :: "chunk_row \<Rightarrow> chunk_row" where "f = (\<lambda>r. (set_chunk_cols cols r)\<lparr>c_updated_at := upd\<rparr>)"
  define P :: "chunk_row \<Rightarrow> bool" where "P = (\<lambda>r. c_id r = c_id ex \<and> fence d jid ow upd)"
  have keep: "chunk_outcome (f q) = chunk_outcome q" for q
  proof -
    have "chunk_outcome (q'\<lparr>c_updated_at := upd\<rparr>) = chunk_outcome q'" for q'
      by (simp add: chunk_outcome_def)
    moreover have "chunk_outcome (set_chunk_cols cols q) = chunk_outcome q"
      by (rule set_chunk_cols_outcome) (simp add: cols_def)
    ultimately show ?thesis by (simp add: f_def)
  qed
  have r: "first_row (\<lambda>r :: chunk_row. c_id r = c_id ex) (upd_rows P f (chunks d)) = Some r"
    using assms(3,4)
    by (simp add: upsert_existing_chunk_def Let_def bind_err_Inr_iff cols_def [symmetric] f_def [symmetric]
             P_def [symmetric] split: option.splits)
  then obtain q where q: "q \<in> set (chunks d)" "r = (if P q then f q else q)" "c_id r = c_id ex"
    by (auto simp: upd_rows_def dest!: first_row_SomeD)
  have "\<forall>c\<in>set cols. keeps_chunk_ident c"
    by (auto simp: cols_def intro: mutable_chunk_cols_keep)
  from chunk_ident_eqD [OF set_chunk_cols_ident [OF this]] have "c_id (f q) = c_id q"
    by (simp add: f_def)
  with q have "c_id q = c_id ex" by (simp split: if_splits)
  with q(1) assms(1,2) have "q = ex"
    by (metis db_unique_def db_wf_def distinct_map inj_onD)
  with q(2) keep show ?thesis by simp
qed

lemma upsert_terminal_outcome:
  assumes wf: "db_wf d" and named: "names_chunk given jid key" and ex: "get_chunk d jid key = Some ex"
    and ended: "c_status ex \<in> set terminal_chunk_statuses"
    and res: "upsert_chunk d w given nid now upd = Inr (d', r)"
  shows "chunk_outcome r = chunk_outcome ex"
proof -
  from ex have mem: "ex \<in> set (chunks d)" "chunk_key ex = (jid, key)"
    by (auto simp: get_chunk_def find_chunk_def dest: first_row_SomeD)
  have jk: "given_chunk_job given = jid" "given_chunk_key given = key"
    using names_chunk_given [OF named] by simp_all
  obtain ow where ow: "normalize_lease_owner w = Inr ow"
    using res by (auto simp: upsert_chunk_def bind_err_Inr_iff)
  define base where "base = [CcId nid, CcConversationId key, CcStatus IPending, CcCreatedAt now, CcUpdatedAt now] @ given"
  have names: "names_chunk base jid key" "names_chunk (base @ [CcProjectId p]) jid key" for p
    using named by (auto simp: base_def names_chunk_def names_only_def)
  have conflict: "chunk_conflict d (set_chunk_cols vals (default_chunk_row now))" if "names_chunk vals jid key" for vals
    using names_chunk_row [OF that] mem by (auto simp: chunk_conflict_def image_iff intro: bexI [of _ ex])
  define after where "after = (\<lambda>vals. case fenced_insert d jid ow now
        (chunk_conflict d (set_chunk_cols vals (default_chunk_row now)))
        (d\<lparr>chunks := chunks d @ [set_chunk_cols vals (default_chunk_row now)]\<rparr>) of
       Inr d' \<Rightarrow> Inr (d', set_chunk_cols vals (default_chunk_row now))
     | Inl e \<Rightarrow> if e \<noteq> IntegrityError then Inl e
         else case find_chunk d jid key of None \<Rightarrow> Inl IntegrityError
              | Some ex \<Rightarrow> upsert_existing_chunk d jid ow vals ex upd)"
  have step: "upsert_existing_chunk d jid ow vals ex upd = Inr (d', r)"
    if "after vals = Inr (d', r)" and "names_chunk vals jid key" for vals
    using that(1) conflict [OF that(2)] ex
    by (auto simp: after_def fenced_insert_Inr get_chunk_def split: sum.splits if_splits)
  obtain vals where "after vals = Inr (d', r)" and "names_chunk vals jid key"
  proof (cases "given_chunk_project given = []")
    case False
    with res ow jk have "after base = Inr (d', r)"
      by (simp add: upsert_chunk_def Let_def base_def after_def split: if_splits)
    with names(1) that show thesis by blast
  next
    case True
    with res ow jk obtain p where "after (base @ [CcProjectId p]) = Inr (d', r)"
      by (auto simp: upsert_chunk_def Let_def base_def after_def split: if_splits option.splits)
    with names(2) that show thesis by blast
  qed
  then have "upsert_existing_chunk d jid ow vals ex upd = Inr (d', r)" by (rule step)
  with wf mem(1) ended show ?thesis by (rule upsert_existing_outcome)
qed

section \<open>The statuses a resumed job starts from\<close>

lemma find_append:
  "List.find P (ys @ zs) = (case List.find P ys of None \<Rightarrow> List.find P zs | Some y \<Rightarrow> Some y)"
  by (induction ys) simp_all

lemma map_of_fold_update:
  "map_of (fold (\<lambda>x. AList.update (k x) (v x)) xs al) q =
   (case List.find (\<lambda>x. k x = q) (rev xs) of None \<Rightarrow> map_of al q | Some x \<Rightarrow> Some (v x))"
proof (induction xs arbitrary: al)
  case (Cons x xs)
  show ?case
    by (auto simp: Cons.IH find_append update_conv' split: option.split)
qed simp

lemma find_rev_distinct:
  assumes "distinct (map k xs)"
  shows "List.find (\<lambda>x. k x = q) (rev xs) = List.find (\<lambda>x. k x = q) xs"
proof (cases "\<exists>x\<in>set xs. k x = q")
  case True
  then obtain x where x: "x \<in> set xs" "k x = q" by blast
  have one: "List.find (\<lambda>x. k x = q) ys = Some x" if "distinct (map k ys)" "x \<in> set ys" for ys
    using that x(2) by (induction ys) (auto simp: image_iff)
  show ?thesis using one [of xs] one [of "rev xs"] assms x(1) by (simp add: rev_map [symmetric])
next
  case False
  then have "List.find (\<lambda>x. k x = q) xs = None" "List.find (\<lambda>x. k x = q) (rev xs) = None"
    by (auto simp: find_None_iff)
  then show ?thesis by simp
qed

definition chunk_of_job :: "import_db \<Rightarrow> pystr \<Rightarrow> pystr \<Rightarrow> pystr \<Rightarrow> chunk_row option" where
  "chunk_of_job d pid jid key =
    first_row (\<lambda>c. c_import_key c = key) (filter (\<lambda>c. c_project_id c = pid \<and> c_job_id c = jid) (chunks d))"

lemma job_chunk_keys_distinct:
  assumes "db_wf d"
  shows "distinct (map c_import_key (filter (\<lambda>c. c_project_id c = pid \<and> c_job_id c = jid) (chunks d)))"
proof -
  have "distinct (map chunk_key (filter (\<lambda>c. c_project_id c = pid \<and> c_job_id c = jid) (chunks d)))"
    using assms by (intro distinct_map_filter) (simp add: db_wf_def db_unique_def)
  then show ?thesis
    by (auto simp: distinct_map inj_on_def chunk_key_def)
qed

lemma persisted_status_of:
  assumes "db_wf d"
  shows "map_of (load_persisted_chunk_statuses d pid jid) key =
    (case chunk_of_job d pid jid key of
       Some c \<Rightarrow> Some (current_chunk_status d c)
     | None \<Rightarrow> if \<exists>m\<in>set (manifests d). historical_split d pid m \<and> m_import_key m = key
               then Some (Persisted ISplit) else None)"
proof -
  let ?cs = "filter (\<lambda>c. c_project_id c = pid \<and> c_job_id c = jid) (chunks d)"
  let ?ms = "filter (historical_split d pid) (manifests d)"
  have hist: "map_of (fold (\<lambda>m. AList.update (m_import_key m) (Persisted ISplit)) ?ms []) key =
     (if \<exists>m\<in>set (manifests d). historical_split d pid m \<and> m_import_key m = key then Some (Persisted ISplit) else None)"
    unfolding map_of_fold_update first_row_def [symmetric]
    by (auto simp: first_row_None_iff split: option.split dest!: first_row_SomeD)
  show ?thesis
    using find_rev_distinct [OF job_chunk_keys_distinct [OF assms], of key pid jid]
      hist
    by (simp add: load_persisted_chunk_statuses_def map_of_fold_update [of c_import_key] chunk_of_job_def first_row_def
             split: option.split)
qed

section \<open>The graph counters of a job\<close>

definition graph_counts_row :: "import_db \<Rightarrow> job_row \<Rightarrow> bool" where
  "graph_counts_row d r \<longleftrightarrow>
     j_count r GraphPendingItems = count_graph_items d (j_id r) IPending \<and>
     j_count r GraphSyncedItems = count_graph_items d (j_id r) ISynced \<and>
     j_count r GraphFailedItems = count_graph_items d (j_id r) IFailed"

definition graph_counts_ok :: "import_db \<Rightarrow> pystr \<Rightarrow> bool" where
  "graph_counts_ok d jid = (\<forall>r\<in>set (jobs d). j_id r = jid \<longrightarrow> graph_counts_row d r)"

lemma count_graph_items_jobs [simp]: "count_graph_items (d\<lparr>jobs := js\<rparr>) = count_graph_items d"
  by (intro ext) (simp add: count_graph_items_def)

lemma graph_counts_row_jobs [simp]: "graph_counts_row (d\<lparr>jobs := js\<rparr>) = graph_counts_row d"
  by (intro ext) (simp add: graph_counts_row_def)

lemma refreshed_row_counts: "graph_counts_row d (refreshed_job_row d err now r)"
  by (simp add: graph_counts_row_def refreshed_job_row_def Let_def)

lemma job_target_id: "job_target jid ow now r \<Longrightarrow> j_id r = jid"
  by (auto simp: job_target_def active_lease_conditions_def split: option.splits)

text \<open>With unique ids, a job update that hits a row at all hits every row of that id.\<close>

lemma job_target_hits:
  assumes "db_wf d" and "rowcount (job_target jid ow now) (jobs d) \<noteq> 0"
    and "r \<in> set (jobs d)" and "j_id r = jid"
  shows "job_target jid ow now r"
proof -
  from assms(2) obtain q where q: "q \<in> set (jobs d)" "job_target jid ow now q" by (auto simp: rowcount_0_iff)
  with job_target_id have "j_id q = jid" by blast
  with q assms have "q = r" using db_wf_job_ids [OF assms(1)] by (metis distinct_map inj_onD)
  with q(2) show ?thesis by simp
qed

lemma refresh_step:
  assumes "db_wf d" and "ow \<noteq> None \<longrightarrow> rowcount (job_target jid ow now) (jobs d) \<noteq> 0"
  shows "graph_counts_ok (d\<lparr>jobs := upd_rows (job_target jid ow now) (refreshed_job_row d err now) (jobs d)\<rparr>) jid"
proof -
  have "job_target jid ow now r" if "r \<in> set (jobs d)" "j_id r = jid" for r
    using that assms job_target_hits [OF assms(1)] by (cases ow) (simp add: job_target_def, blast)
  then show ?thesis
    by (auto simp: graph_counts_ok_def upd_rows_def refreshed_row_counts)
qed

lemma refresh_keeps_ok:
  "graph_counts_ok d j \<Longrightarrow>
   graph_counts_ok (d\<lparr>jobs := upd_rows P (refreshed_job_row d err now) (jobs d)\<rparr>) j"
  by (auto simp: graph_counts_ok_def upd_rows_def refreshed_row_counts)

lemma refresh_counts:
  "db_wf d \<Longrightarrow> refresh_graph_job_counts d jids err ow now = Inr d' \<Longrightarrow>
   (\<forall>j\<in>set jids. graph_counts_ok d' j) \<and> (\<forall>j. graph_counts_ok d j \<longrightarrow> graph_counts_ok d' j)"
proof (induction d jids err ow now rule: refresh_graph_job_counts.induct)
  case (2 d jid jids err ow now)
  let ?d = "d\<lparr>jobs := upd_rows (job_target jid ow now) (refreshed_job_row d err now) (jobs d)\<rparr>"
  have wf: "db_wf ?d"
    using 2(3) by (rule db_wf_upd_jobs [rotated]) (simp add: row_keys)
  have rest: "refresh_graph_job_counts ?d jids err ow now = Inr d'"
    and hit: "ow \<noteq> None \<longrightarrow> rowcount (job_target jid ow now) (jobs d) \<noteq> 0"
    using 2(4) by (auto simp: Let_def split: option.splits if_splits)
  have "(\<forall>j\<in>set jids. graph_counts_ok d' j) \<and> (\<forall>j. graph_counts_ok ?d j \<longrightarrow> graph_counts_ok d' j)"
  proof (cases ow)
    case None
    with 2(1) [OF refl refl None wf] rest show ?thesis by simp
  next
    case (Some owner)
    with hit have "\<not> rowcount (job_target jid ow now) (jobs d) = 0" by simp
    from 2(2) [OF refl refl Some this wf] rest show ?thesis by simp
  qed
  with refresh_step [OF 2(3) hit] refresh_keeps_ok show ?case by auto
qed simp

lemma mark_graph_counts:
  assumes wf: "db_wf d" and res: "mark_graph_items d ids st err inc rt job w now = Inr (d', n)"
    and g: "g \<in> set (graph_items d)" "g_id g \<in> set ids" "case job of None \<Rightarrow> True | Some x \<Rightarrow> g_job_id g = x"
  shows "graph_counts_ok d' (g_job_id g)"
proof -
  obtain ow where ow: "normalize_lease_owner w = Inr ow"
    using res by (auto simp: mark_graph_items_def bind_err_Inr_iff)
  define here where "here = (\<lambda>g :: graph_item_row. g_id g \<in> set (dedup ids) \<and> (case job of None \<Rightarrow> True | Some x \<Rightarrow> g_job_id g = x))"
  define js where "js = dedup (map g_job_id (filter here (graph_items d)))"
  define d1 where "d1 = d\<lparr>graph_items := upd_rows (\<lambda>g. here g \<and> (ow = None \<or> fence d (case job of None \<Rightarrow> [] | Some x \<Rightarrow> x) ow now))
      (mark_graph_row st err inc rt now) (graph_items d)\<rparr>"
  have wf1: "db_wf d1" unfolding d1_def
    using wf by (rule db_wf_upd_graph_items [rotated]) (simp add: row_keys)
  have wf2: "db_wf (d1\<lparr>jobs := upd_rows Q (\<lambda>r. r\<lparr>j_count := (j_count r)(GraphAttempts := j_count r GraphAttempts + 1),
                                                 j_updated_at := now\<rparr>) (jobs d1)\<rparr>)" for Q
    using wf1 by (rule db_wf_upd_jobs [rotated]) simp
  define d2 where "d2 = (if inc \<and> js \<noteq> []
      then d1\<lparr>jobs := upd_rows (\<lambda>r. j_id r \<in> set js \<and> (ow = None \<or> job_target (case job of None \<Rightarrow> [] | Some x \<Rightarrow> x) ow now r))
             (\<lambda>r. r\<lparr>j_count := (j_count r)(GraphAttempts := j_count r GraphAttempts + 1), j_updated_at := now\<rparr>) (jobs d1)\<rparr>
      else d1)"
  have wf_d2: "db_wf d2" unfolding d2_def by (simp only: if_split wf1 wf2 simp_thms)
  from g(2) have "ids \<noteq> []" by auto
  with res ow have ref: "refresh_graph_job_counts d2 js err ow now = Inr d'"
    unfolding mark_graph_items_def Let_def here_def [symmetric] js_def [symmetric] d1_def [symmetric] d2_def [symmetric]
    by (simp only: bind_err_simps bind_err_Inr_iff dedup_eq_Nil split: if_splits option.splits)
       (auto simp: d2_def d1_def here_def conj_comms)
  have "g_job_id g \<in> set js" using g by (simp add: js_def here_def)
  with refresh_counts [OF wf_d2 ref] show ?thesis by blast
qed

section \<open>The laws\<close>

text \<open>C15: none of the three operations that make a job active (creation, retry, graph retry) lets a
  project have more active jobs than the limit it was called with, where a job is created for a project
  id without blanks around it.\<close>
theorem active_job_limit_kept:
  assumes "db_wf d"
    and "(\<exists>ret cols nid now. create_job_with_active_limit d cap ret cols nid now = Inr (d', r) \<and>
            given_project_id (prepare_job_values cols nid now) = Some pid \<and> py_strip pid = pid)
       \<or> (\<exists>jid w secs tm clk. activate_graph_retry d jid pid w secs cap tm clk = Inr (d', Some r))
       \<or> (\<exists>jid w secs sts tm clk. acquire_job_retry_lease d jid pid w secs sts (Some cap) tm clk = Inr (d', Some r))"
  shows "count_active_jobs d' pid \<le> cap"
  using assms(2)
  by (elim disjE exE conjE) (auto dest: create_limited_within graph_retry_within [OF assms(1)] retry_within [OF assms(1)])

lemma active_job_limit_kept_witness:
  "\<exists>d' r. create_job_with_active_limit leased_db 2 None [JcProjectId (U ''proj'')] (U ''j2'') 5 = Inr (d', r) \<and>
          count_active_jobs d' (U ''proj'') \<le> 2"
proof -
  obtain d' r where ok: "create_job_with_active_limit leased_db 2 None [JcProjectId (U ''proj'')] (U ''j2'') 5 = Inr (d', r)"
  proof -
    have "case create_job_with_active_limit leased_db 2 None [JcProjectId (U ''proj'')] (U ''j2'') 5 of
            Inl _ \<Rightarrow> False | Inr _ \<Rightarrow> True"
      by code_simp
    then show ?thesis using that by (auto split: sum.splits)
  qed
  have "given_project_id (prepare_job_values [JcProjectId (U ''proj'')] (U ''j2'') 5) = Some (U ''proj'') \<and>
        py_strip (U ''proj'') = U ''proj''"
    by code_simp
  with ok have "count_active_jobs d' (U ''proj'') \<le> 2"
    by (intro active_job_limit_kept [OF leased_db_wf]) blast
  with ok show ?thesis by blast
qed

text \<open>\<open>create_job_with_active_limit\<close> counts the jobs of the stripped project id but stores the id
  as given, so a project id with surrounding blanks is never counted: with a limit of one, a
  second active job is still created.\<close>
theorem padded_project_escapes_limit:
  "(case create_job_with_active_limit empty_db 1 None [JcProjectId (U '' p'')] (U ''a'') 0 of
      Inl _ \<Rightarrow> False
    | Inr (d, _) \<Rightarrow>
        (case create_job_with_active_limit d 1 None [JcProjectId (U '' p'')] (U ''b'') 0 of
           Inl _ \<Rightarrow> False | Inr (d', _) \<Rightarrow> count_active_jobs d' (U '' p'') = 2))"
  by code_simp

text \<open>C16: a reservation of workspace bytes is exact and within the budget: the retained total grows by
  the bytes asked for, is what the caller is told, and does not exceed the limit.\<close>
theorem workspace_budget_kept:
  assumes "db_wf d" and "reserve_workspace_bytes d jid w req cap secs tm clk = Inr (d', used, own)"
  shows "used_workspace_bytes d' = used_workspace_bytes d + req \<and> used = used_workspace_bytes d' \<and> used \<le> cap"
  using assms by (rule reserve_used)

lemma workspace_budget_kept_witness:
  "\<exists>d' used own. reserve_workspace_bytes leased_db (U ''job'') (U ''w1'') 700 1000 30 (Some 15) 0 = Inr (d', used, own) \<and>
     used_workspace_bytes d' = used_workspace_bytes leased_db + 700 \<and> used \<le> 1000"
proof -
  obtain d' used own where ok:
    "reserve_workspace_bytes leased_db (U ''job'') (U ''w1'') 700 1000 30 (Some 15) 0 = Inr (d', used, own)"
  proof -
    have "case reserve_workspace_bytes leased_db (U ''job'') (U ''w1'') 700 1000 30 (Some 15) 0 of
            Inl _ \<Rightarrow> False | Inr _ \<Rightarrow> True"
      by code_simp
    then show ?thesis using that by (auto split: sum.splits)
  qed
  with workspace_budget_kept [OF leased_db_wf ok] show ?thesis by blast
qed

text \<open>While a workspace is being discarded the job cannot be retried: neither a retry nor a graph
  retry finds it eligible, whoever asks and whatever statuses they allow.\<close>
theorem discard_excludes_retries:
  assumes "db_wf d" and "acquire_job_workspace_discard_lease d jid pid w secs sts tm clk = Inr (d', Some r)"
    and "acquire_job_retry_lease d' jid p2 w2 secs2 sts2 cap2 tm2 clk2 = Inr (d2, x)"
    and "activate_graph_retry d' jid p3 w3 secs3 cap3 tm3 clk3 = Inr (d3, y)"
  shows "d2 = d' \<and> x = None \<and> d3 = d' \<and> y = None"
  using discarding_refuses_retry [OF discard_lease_discarding [OF assms(1,2)] assms(3)]
    discarding_refuses_graph_retry [OF discard_lease_discarding [OF assms(1,2)] assms(4)] by simp

definition finished_db :: import_db where
  "finished_db = run_calls exec_call
     [CreateJob [JcProjectId (U ''proj''), JcStatus JFailed, JcWorkspace (Some (U ''/tmp/w'')), JcCount WorkspaceBytes 500]
        (U ''job'') 0] empty_db"

lemma finished_db_wf: "db_wf finished_db"
  unfolding finished_db_def by (rule run_calls_wf) (rule db_wf_empty)

lemma discard_excludes_retries_witness:
  "\<exists>d' r. acquire_job_workspace_discard_lease finished_db (U ''job'') (U ''proj'') (U ''w'') 30 [JFailed] (Some 5) 0 = Inr (d', Some r) \<and>
     acquire_job_retry_lease d' (U ''job'') (U ''proj'') (U ''v'') 30 [JFailed] None (Some 6) 0 = Inr (d', None)"
proof -
  let ?disc = "acquire_job_workspace_discard_lease finished_db (U ''job'') (U ''proj'') (U ''w'') 30 [JFailed] (Some 5) 0"
  let ?retry = "\<lambda>d. acquire_job_retry_lease d (U ''job'') (U ''proj'') (U ''v'') 30 [JFailed] None (Some 6) 0"
  let ?graph = "\<lambda>d. activate_graph_retry d (U ''job'') (U ''proj'') (U ''v'') 30 5 (Some 6) 0"
  have "case ?disc of Inl _ \<Rightarrow> False
        | Inr (d', x) \<Rightarrow> x \<noteq> None \<and> (case ?retry d' of Inl _ \<Rightarrow> False | Inr _ \<Rightarrow> True) \<and>
                         (case ?graph d' of Inl _ \<Rightarrow> False | Inr _ \<Rightarrow> True)"
    by code_simp
  then obtain d' r d2 x d3 y where ok: "?disc = Inr (d', Some r)" "?retry d' = Inr (d2, x)" "?graph d' = Inr (d3, y)"
    by (auto split: sum.splits)
  from discard_excludes_retries [OF finished_db_wf ok] ok show ?thesis by simp
qed

text \<open>Completing a discard gives the job's bytes back to the budget, forgets the workspace and the
  lease, and returns the job to the phase of its final status.\<close>
theorem discard_frees_workspace:
  assumes "db_wf d" and "complete_job_workspace_discard d jid w now = Inr (d', r)"
  shows "(\<exists>row\<in>set (jobs d). j_id row = jid \<and>
            used_workspace_bytes d' = used_workspace_bytes d - j_count row WorkspaceBytes) \<and>
         j_workspace r = None \<and> j_lease_owner r = None \<and> j_phase r = terminal_phase (j_status r)"
  using complete_discard_bytes [OF assms] by simp

definition discarding_db :: import_db where
  "discarding_db = run_calls exec_call
     [DiscardLease (U ''job'') (U ''proj'') (U ''w'') 30 [JFailed] (Some 5) 0] finished_db"

lemma discarding_db_wf: "db_wf discarding_db"
  unfolding discarding_db_def by (rule run_calls_wf) (rule finished_db_wf)

lemma discard_frees_workspace_witness:
  "\<exists>d' r. complete_job_workspace_discard discarding_db (U ''job'') (U ''w'') 9 = Inr (d', r) \<and> j_workspace r = None"
proof -
  obtain d' r where ok: "complete_job_workspace_discard discarding_db (U ''job'') (U ''w'') 9 = Inr (d', r)"
  proof -
    have "case complete_job_workspace_discard discarding_db (U ''job'') (U ''w'') 9 of Inl _ \<Rightarrow> False | Inr _ \<Rightarrow> True"
      by code_simp
    then show ?thesis using that by (auto split: sum.splits)
  qed
  with discard_frees_workspace [OF discarding_db_wf ok] show ?thesis by blast
qed

text \<open>A chunk that has ended keeps its outcome. Whatever an upsert of its key asks for, the row's
  status, memory ids, finish time and error stay what they were.\<close>
theorem upsert_keeps_ended_chunk:
  assumes "db_wf d" and "names_chunk given jid key" and "get_chunk d jid key = Some ex"
    and "c_status ex \<in> set terminal_chunk_statuses" and "upsert_chunk d w given nid now upd = Inr (d', r)"
  shows "chunk_outcome r = chunk_outcome ex"
  using assms by (rule upsert_terminal_outcome)

definition imported_chunk_db :: import_db where
  "imported_chunk_db = run_calls exec_call
     [UpdateChunk (U ''j1'') (U ''k'') None [CcStatus IImported, CcMemoryIds [U ''mem'']] 4] two_jobs_db"

lemma imported_chunk_db_wf: "db_wf imported_chunk_db"
  unfolding imported_chunk_db_def by (rule run_calls_wf) (rule two_jobs_db_wf)

definition reset_cols :: "chunk_col list" where
  "reset_cols = [CcJobId (U ''j1''), CcImportKey (U ''k''), CcStatus IPending, CcMemoryIds []]"

lemma upsert_keeps_ended_chunk_witness:
  "\<exists>d' r ex. upsert_chunk imported_chunk_db None reset_cols (U ''n'') 9 9 = Inr (d', r) \<and>
     get_chunk imported_chunk_db (U ''j1'') (U ''k'') = Some ex \<and> chunk_outcome r = chunk_outcome ex \<and>
     c_status ex = IImported"
proof -
  obtain ex where ex: "get_chunk imported_chunk_db (U ''j1'') (U ''k'') = Some ex" "c_status ex = IImported"
  proof -
    have "map_option c_status (get_chunk imported_chunk_db (U ''j1'') (U ''k'')) = Some IImported" by code_simp
    then show ?thesis using that by auto
  qed
  obtain d' r where ok: "upsert_chunk imported_chunk_db None reset_cols (U ''n'') 9 9 = Inr (d', r)"
  proof -
    have "case upsert_chunk imported_chunk_db None reset_cols (U ''n'') 9 9 of Inl _ \<Rightarrow> False | Inr _ \<Rightarrow> True"
      by code_simp
    then show ?thesis using that by (auto split: sum.splits)
  qed
  have "names_chunk reset_cols (U ''j1'') (U ''k'')"
    by (simp add: names_chunk_def names_only_def reset_cols_def)
  from upsert_keeps_ended_chunk [OF imported_chunk_db_wf this ex(1) _ ok] ex ok show ?thesis
    by (auto simp: terminal_chunk_statuses_def)
qed

text \<open>What a resumed job believes about a chunk. Its own chunk row decides; without one, the key
  counts as split exactly when some attempt of the project split it.\<close>
theorem persisted_statuses_meaning:
  assumes "db_wf d"
  shows "map_of (load_persisted_chunk_statuses d pid jid) key =
    (case chunk_of_job d pid jid key of
       Some c \<Rightarrow> Some (current_chunk_status d c)
     | None \<Rightarrow> if \<exists>m\<in>set (manifests d). historical_split d pid m \<and> m_import_key m = key
               then Some (Persisted ISplit) else None)"
  using assms by (rule persisted_status_of)

lemma persisted_statuses_meaning_witness:
  "map_of (load_persisted_chunk_statuses imported_chunk_db (U ''proj'') (U ''j1'')) (U ''k'') = Some (Persisted IImported)"
proof -
  have "map_option (current_chunk_status imported_chunk_db)
      (chunk_of_job imported_chunk_db (U ''proj'') (U ''j1'') (U ''k'')) = Some (Persisted IImported)"
    by code_simp
  then show ?thesis
    unfolding persisted_statuses_meaning [OF imported_chunk_db_wf] by (auto split: option.splits)
qed

text \<open>After graph items are marked, the counters of every job they belong to are the numbers of its
  pending, synced and failed items.\<close>
theorem graph_counters_exact:
  assumes "db_wf d" and "mark_graph_items d ids st err inc rt job w now = Inr (d', n)"
    and "g \<in> set (graph_items d)" and "g_id g \<in> set ids"
    and "case job of None \<Rightarrow> True | Some x \<Rightarrow> g_job_id g = x"
  shows "graph_counts_ok d' (g_job_id g)"
  using assms by (rule mark_graph_counts)

definition graph_db :: import_db where
  "graph_db = run_calls exec_call
     [AddGraphItems (U ''j1'') (U ''c1'')
        [\<lparr>gi_item_key = None, gi_payload = None,
          gi_fields = \<lparr>gs_memory_id = Some (U ''mem''), gs_text = JNull, gs_entities = [], gs_metadata = []\<rparr>\<rparr>]
        None [U ''g1''] 5] two_jobs_db"

lemma graph_db_wf: "db_wf graph_db"
  unfolding graph_db_def by (rule run_calls_wf) (rule two_jobs_db_wf)

lemma graph_counters_exact_witness:
  "\<exists>d' n. mark_graph_items graph_db [U ''g1''] ISynced None True None None None 6 = Inr (d', n) \<and>
     graph_counts_ok d' (U ''j1'')"
proof -
  obtain d' n where ok: "mark_graph_items graph_db [U ''g1''] ISynced None True None None None 6 = Inr (d', n)"
  proof -
    have "case mark_graph_items graph_db [U ''g1''] ISynced None True None None None 6 of Inl _ \<Rightarrow> False | Inr _ \<Rightarrow> True"
      by code_simp
    then show ?thesis using that by (auto split: sum.splits)
  qed
  obtain g where g: "g \<in> set (graph_items graph_db)" "g_id g = U ''g1''" "g_job_id g = U ''j1''"
  proof -
    have "map (\<lambda>g. (g_id g, g_job_id g)) (graph_items graph_db) = [(U ''g1'', U ''j1'')]" by code_simp
    then show ?thesis using that by auto
  qed
  from graph_counters_exact [OF graph_db_wf ok g(1)] g ok show ?thesis by auto
qed

end
