(* ===== verification/Workspace.thy ===== *)
theory Workspace
  imports Prelude "HOL-Library.AList"
begin

text \<open>
  The workspace settings (server/workspace.py): organizations, projects and members, their
  normalization, and every operation on them. \<open>settings\<close> is the JSON document as stored, in which
  any field may be missing; \<open>workspace\<close> is what \<open>normalize_workspace\<close> returns. A field that is
  missing or null is \<open>None\<close>; an entry of a list that is no object is \<open>None\<close>; an entry's other keys
  are kept in its \<open>rest\<close>. The ids \<open>_new_scoped_id\<close> draws are an argument.
\<close>

section \<open>Strings\<close>

text \<open>
  \<open>str.lower\<close>, character by character, for ASCII, Latin-1, Greek and Cyrillic; the case mappings of
  other scripts are left out.
\<close>

definition lower_char :: "int \<Rightarrow> int" where
  "lower_char c =
    (if 65 \<le> c \<and> c \<le> 90 \<or> 192 \<le> c \<and> c \<le> 222 \<and> c \<noteq> 215 \<or> 913 \<le> c \<and> c \<le> 929 \<or> 1040 \<le> c \<and> c \<le> 1071
     then c + 32 else if 1024 \<le> c \<and> c \<le> 1039 then c + 80 else c)"

definition py_lower :: "pystr \<Rightarrow> pystr" where
  "py_lower s = map lower_char s"

text \<open>\<open>x or y\<close> for a string that may be missing.\<close>

definition or_str :: "pystr option \<Rightarrow> pystr \<Rightarrow> pystr" where
  "or_str x y = (case x of None \<Rightarrow> y | Some s \<Rightarrow> if s = [] then y else s)"

definition given :: "pystr option \<Rightarrow> pystr option" where
  "given x = (if x = Some [] then None else x)"

definition new_scoped_id :: "pystr \<Rightarrow> pystr \<Rightarrow> pystr" where
  "new_scoped_id prefix hex = prefix @ U ''_'' @ hex"

definition clean_name :: "pystr option \<Rightarrow> pystr \<Rightarrow> pystr" where
  "clean_name v fallback = (let n = py_strip (or_str v []) in if n = [] then fallback else n)"

definition slug_char :: "int \<Rightarrow> bool" where
  "slug_char c = (97 \<le> c \<and> c \<le> 122 \<or> 48 \<le> c \<and> c \<le> 57)"

text \<open>\<open>re.sub(r"[^a-z0-9]+", "-", text)\<close>.\<close>

fun dash_runs :: "bool \<Rightarrow> pystr \<Rightarrow> pystr" where
  "dash_runs in_run [] = []"
| "dash_runs in_run (c # cs) =
    (if slug_char c then c # dash_runs False cs
     else if in_run then dash_runs True cs else 45 # dash_runs True cs)"

definition strip_dashes :: "pystr \<Rightarrow> pystr" where
  "strip_dashes s = rev (dropWhile (\<lambda>c. c = 45) (rev (dropWhile (\<lambda>c. c = 45) s)))"

definition slug :: "pystr option \<Rightarrow> pystr \<Rightarrow> pystr" where
  "slug v fallback =
    (let s = strip_dashes (dash_runs False (py_lower (clean_name v fallback)))
     in if s = [] then fallback else s)"

section \<open>Roles\<close>

definition role_aliases :: "(pystr \<times> pystr) list" where
  "role_aliases =
    [(U ''owner'', U ''OWNER''), (U ''admin'', U ''OWNER''), (U ''editor'', U ''EDITOR''),
     (U ''edit'', U ''EDITOR''), (U ''writer'', U ''EDITOR''), (U ''member'', U ''READER''),
     (U ''reader'', U ''READER''), (U ''read'', U ''READER'')]"

definition manage_roles :: "pystr list" where
  "manage_roles = [U ''owner'', U ''admin'']"

definition write_roles :: "pystr list" where
  "write_roles = [U ''owner'', U ''admin'', U ''editor'', U ''edit'', U ''writer'']"

definition read_roles :: "pystr list" where
  "read_roles = [U ''owner'', U ''admin'', U ''editor'', U ''edit'', U ''member'', U ''reader'', U ''writer'']"

definition normalize_member_role :: "pystr option \<Rightarrow> pystr" where
  "normalize_member_role role =
    (case given role of None \<Rightarrow> U ''READER''
     | Some r \<Rightarrow> (case map_of role_aliases (py_lower (py_strip r)) of None \<Rightarrow> U ''READER'' | Some x \<Rightarrow> x))"

definition role_allows_read :: "pystr option \<Rightarrow> bool" where
  "role_allows_read role = (py_lower (or_str role []) \<in> set read_roles)"

definition role_allows_write :: "pystr option \<Rightarrow> bool" where
  "role_allows_write role = (py_lower (or_str role []) \<in> set write_roles)"

definition role_allows_manage :: "pystr option \<Rightarrow> bool" where
  "role_allows_manage role = (py_lower (or_str role []) \<in> set manage_roles)"

definition role_rank :: "pystr option \<Rightarrow> nat" where
  "role_rank role =
    (if role_allows_manage role then 3 else if role_allows_write role then 2
     else if role_allows_read role then 1 else 0)"

definition strongest_role :: "pystr option \<Rightarrow> pystr option \<Rightarrow> pystr option" where
  "strongest_role left right = (if role_rank right \<le> role_rank left then left else right)"

section \<open>Stored settings and the normalized workspace\<close>

record raw_org =
  ro_id :: "pystr option"
  ro_name :: "pystr option"

record raw_project =
  rp_id :: "pystr option"
  rp_name :: "pystr option"
  rp_description :: "pystr option"
  rp_org :: "pystr option"
  rp_rest :: "(pystr \<times> json) list"

record raw_member =
  rm_email :: "pystr option"
  rm_role :: "pystr option"
  rm_status :: "pystr option"
  rm_project :: "pystr option"
  rm_org :: "pystr option"

record settings =
  st_organization :: "raw_org option"
  st_orgs :: "raw_org option list"
  st_active_org :: "pystr option"
  st_active_project :: "pystr option"
  st_projects :: "raw_project option list"
  st_members :: "raw_member option list"
  st_rest :: "(pystr \<times> json) list"

record organization =
  o_id :: pystr
  o_name :: pystr

record project =
  p_id :: pystr
  p_name :: pystr
  p_description :: pystr
  p_org :: pystr
  p_rest :: "(pystr \<times> json) list"

record member =
  mb_email :: pystr
  mb_role :: pystr
  mb_status :: pystr
  mb_project :: "pystr option"
  mb_org :: pystr

record workspace =
  ws_organization :: organization
  ws_orgs :: "organization list"
  ws_active_org :: pystr
  ws_active_project :: pystr
  ws_projects :: "project list"
  ws_members :: "member list"
  ws_rest :: "(pystr \<times> json) list"

definition default_org_id :: pystr where
  "default_org_id = U ''org_default''"

definition default_project_id :: pystr where
  "default_project_id = U ''default-project''"

definition default_organizations :: "organization list" where
  "default_organizations = [\<lparr>o_id = default_org_id, o_name = U ''Default organization''\<rparr>]"

definition default_projects :: "project list" where
  "default_projects =
    [\<lparr>p_id = default_project_id, p_name = default_project_id, p_description = [],
      p_org = default_org_id, p_rest = [(U ''is_default'', JBool True)]\<rparr>]"

definition default_sections :: "(pystr \<times> json) list" where
  "default_sections =
    [(U ''extraction'', JObj [(U ''multilingual'', JBool True), (U ''use_case'', JStr []),
       (U ''memory_depth'', JStr (U ''Essential Insights'')), (U ''include'', JStr []),
       (U ''exclude'', JStr []), (U ''custom_instructions'', JStr [])]),
     (U ''categories'', JArr []),
     (U ''retention'', JObj [(U ''memory_decay'', JBool True), (U ''expiration_date'', JNull)]),
     (U ''playground'', JObj [(U ''custom_instructions'', JStr []), (U ''categories'', JArr []),
       (U ''includes_prompt'', JStr []), (U ''excludes_prompt'', JStr []), (U ''force_add_only'', JBool False),
       (U ''reranking'', JBool False), (U ''temperature'', JFloat (1 / 10)), (U ''threshold'', JFloat (2 / 10)),
       (U ''max_tokens'', JInt 2048), (U ''top_k'', JInt 10), (U ''top_p'', JFloat 1)])]"

text \<open>What a normalized workspace looks like when it is stored or passed on.\<close>

definition raw_of_org :: "organization \<Rightarrow> raw_org" where
  "raw_of_org o' = \<lparr>ro_id = Some (o_id o'), ro_name = Some (o_name o')\<rparr>"

definition raw_of_project :: "project \<Rightarrow> raw_project" where
  "raw_of_project p =
    \<lparr>rp_id = Some (p_id p), rp_name = Some (p_name p), rp_description = Some (p_description p),
     rp_org = Some (p_org p), rp_rest = p_rest p\<rparr>"

definition raw_of_member :: "member \<Rightarrow> raw_member" where
  "raw_of_member m =
    \<lparr>rm_email = Some (mb_email m), rm_role = Some (mb_role m), rm_status = Some (mb_status m),
     rm_project = mb_project m, rm_org = Some (mb_org m)\<rparr>"

definition settings_of :: "workspace \<Rightarrow> settings" where
  "settings_of w =
    \<lparr>st_organization = Some (raw_of_org (ws_organization w)),
     st_orgs = map (Some \<circ> raw_of_org) (ws_orgs w),
     st_active_org = Some (ws_active_org w), st_active_project = Some (ws_active_project w),
     st_projects = map (Some \<circ> raw_of_project) (ws_projects w),
     st_members = map (Some \<circ> raw_of_member) (ws_members w), st_rest = ws_rest w\<rparr>"

definition default_settings :: settings where
  "default_settings =
    \<lparr>st_organization = Some (raw_of_org (hd default_organizations)),
     st_orgs = map (Some \<circ> raw_of_org) default_organizations,
     st_active_org = Some default_org_id, st_active_project = Some default_project_id,
     st_projects = map (Some \<circ> raw_of_project) default_projects,
     st_members = [], st_rest = default_sections\<rparr>"

section \<open>Normalization\<close>

text \<open>\<open>hex i\<close> is the random part of the id drawn for the \<open>i\<close>-th entry of a list.\<close>

fun normalize_orgs :: "(nat \<Rightarrow> pystr) \<Rightarrow> nat \<Rightarrow> pystr list \<Rightarrow> raw_org option list \<Rightarrow> organization list" where
  "normalize_orgs hex i seen [] = []"
| "normalize_orgs hex i seen (None # xs) = normalize_orgs hex (Suc i) seen xs"
| "normalize_orgs hex i seen (Some r # xs) =
    (let oid = or_str (ro_id r) (new_scoped_id (U ''org'') (hex i))
     in if oid \<in> set seen then normalize_orgs hex (Suc i) seen xs
        else \<lparr>o_id = oid, o_name = clean_name (ro_name r) oid\<rparr> # normalize_orgs hex (Suc i) (oid # seen) xs)"

definition known_org :: "organization list \<Rightarrow> pystr \<Rightarrow> bool" where
  "known_org orgs oid = (\<exists>g\<in>set orgs. o_id g = oid)"

fun normalize_projects ::
  "(nat \<Rightarrow> pystr) \<Rightarrow> organization list \<Rightarrow> pystr \<Rightarrow> nat \<Rightarrow> pystr list \<Rightarrow> raw_project option list \<Rightarrow> project list" where
  "normalize_projects hex orgs active i seen [] = []"
| "normalize_projects hex orgs active i seen (None # xs) = normalize_projects hex orgs active (Suc i) seen xs"
| "normalize_projects hex orgs active i seen (Some r # xs) =
    (let pid = or_str (rp_id r) (slug (rp_name r) (new_scoped_id (U ''project'') (hex i)))
     in if pid \<in> set seen then normalize_projects hex orgs active (Suc i) seen xs
        else
          let oid = or_str (rp_org r) active;
              home = (if known_org orgs oid then oid else active)
          in \<lparr>p_id = pid, p_name = clean_name (rp_name r) pid, p_description = or_str (rp_description r) [],
              p_org = home, p_rest = rp_rest r\<rparr>
             # normalize_projects hex orgs active (Suc i) (pid # seen) xs)"

definition project_org :: "project list \<Rightarrow> pystr \<Rightarrow> pystr option" where
  "project_org ps pid = map_of (rev (map (\<lambda>p. (p_id p, p_org p)) ps)) pid"

definition member_key :: "member \<Rightarrow> pystr \<times> pystr option \<times> pystr" where
  "member_key m = (mb_email m, mb_project m, mb_org m)"

text \<open>One entry of the member list: \<open>None\<close> when it is dropped.\<close>

definition normalize_member :: "organization list \<Rightarrow> project list \<Rightarrow> pystr \<Rightarrow> raw_member \<Rightarrow> member option" where
  "normalize_member orgs ps active r =
    (let email = py_lower (py_strip (or_str (rm_email r) []));
         pid = given (rm_project r)
     in if email = [] then None
        else if (case pid of None \<Rightarrow> False | Some p \<Rightarrow> project_org ps p = None) then None
        else
          let via_project = (case pid of None \<Rightarrow> None | Some p \<Rightarrow> project_org ps p);
              oid = or_str (rm_org r) (or_str via_project (or_str (Some active) default_org_id));
              home = (if known_org orgs oid then oid else or_str (Some active) (o_id (hd orgs)));
              st = py_lower (or_str (rm_status r) (U ''invited''))
          in Some \<lparr>mb_email = email, mb_role = normalize_member_role (rm_role r),
                   mb_status = (if st \<in> {U ''active'', U ''invited''} then st else U ''invited''),
                   mb_project = pid, mb_org = home\<rparr>)"

fun normalize_members ::
  "organization list \<Rightarrow> project list \<Rightarrow> pystr \<Rightarrow> (pystr \<times> pystr option \<times> pystr) list
   \<Rightarrow> raw_member option list \<Rightarrow> member list" where
  "normalize_members orgs ps active seen [] = []"
| "normalize_members orgs ps active seen (None # xs) = normalize_members orgs ps active seen xs"
| "normalize_members orgs ps active seen (Some r # xs) =
    (case normalize_member orgs ps active r of
       None \<Rightarrow> normalize_members orgs ps active seen xs
     | Some m \<Rightarrow>
         if member_key m \<in> set seen then normalize_members orgs ps active seen xs
         else m # normalize_members orgs ps active (member_key m # seen) xs)"

definition find_or_hd :: "('a \<Rightarrow> bool) \<Rightarrow> 'a list \<Rightarrow> 'a" where
  "find_or_hd P xs = (case List.find P xs of None \<Rightarrow> hd xs | Some x \<Rightarrow> x)"

record id_source =
  org_hex :: "nat \<Rightarrow> pystr"
  project_hex :: "nat \<Rightarrow> pystr"

definition normalize_workspace :: "id_source \<Rightarrow> settings option \<Rightarrow> workspace" where
  "normalize_workspace ids s =
    (let st = (case s of None \<Rightarrow> default_settings | Some x \<Rightarrow> x);
         org = (case st_organization st of None \<Rightarrow> raw_of_org (hd default_organizations) | Some x \<Rightarrow> x);
         raw_orgs = (if st_orgs st = [] then [Some org] else st_orgs st);
         kept = normalize_orgs (org_hex ids) 0 [] raw_orgs;
         orgs = (if kept = [] then default_organizations else kept);
         active = or_str (st_active_org st) (o_id (hd orgs));
         raw_ps = (if st_projects st = [] then map (Some \<circ> raw_of_project) default_projects else st_projects st);
         kept_ps = normalize_projects (project_hex ids) orgs active 0 [] raw_ps;
         ps = (if kept_ps = [] then default_projects else kept_ps);
         active_p = (case st_active_project st of
                       Some p \<Rightarrow> if \<exists>q\<in>set ps. p_id q = p then p else p_id (hd ps)
                     | None \<Rightarrow> p_id (hd ps))
     in \<lparr>ws_organization = find_or_hd (\<lambda>g. o_id g = active) orgs, ws_orgs = orgs, ws_active_org = active,
         ws_active_project = active_p, ws_projects = ps,
         ws_members = normalize_members orgs ps active [] (st_members st), ws_rest = st_rest st\<rparr>)"

end
