(* ===== verification/Workspace_Ops.thy ===== *)
theory Workspace_Ops
  imports Workspace
begin

text \<open>
  The operations on a workspace (server/workspace.py): lookups, the roles a person has, changes of
  organizations, projects and members, and the part of a workspace a person may see. They work on
  the normalized settings; those that call each other normalize again, as the code does.
\<close>

abbreviation renormalize :: "id_source \<Rightarrow> workspace \<Rightarrow> workspace" where
  "renormalize ids w \<equiv> normalize_workspace ids (Some (settings_of w))"

section \<open>Lookups\<close>

definition find_organization :: "id_source \<Rightarrow> settings option \<Rightarrow> pystr \<Rightarrow> organization option" where
  "find_organization ids s oid = List.find (\<lambda>g. o_id g = oid) (ws_orgs (normalize_workspace ids s))"

definition find_project :: "id_source \<Rightarrow> settings option \<Rightarrow> pystr \<Rightarrow> project option" where
  "find_project ids s pid = List.find (\<lambda>p. p_id p = pid) (ws_projects (normalize_workspace ids s))"

section \<open>Roles of a person\<close>

text \<open>The loop of \<open>member_role\<close> and \<open>organization_role\<close> over the memberships that apply.\<close>

fun role_scan :: "(member \<Rightarrow> bool) \<Rightarrow> member list \<Rightarrow> pystr option \<Rightarrow> pystr option" where
  "role_scan applies [] best = best"
| "role_scan applies (m # ms) best =
    (if \<not> applies m then role_scan applies ms best
     else if role_allows_manage (Some (mb_role m)) then Some (mb_role m)
     else if role_allows_write (Some (mb_role m)) \<or> role_allows_read (Some (mb_role m))
       then role_scan applies ms (strongest_role best (Some (mb_role m)))
     else role_scan applies ms best)"

definition active_as :: "pystr \<Rightarrow> member \<Rightarrow> bool" where
  "active_as email m = (py_lower (mb_email m) = py_lower email \<and> mb_status m = U ''active'')"

text \<open>A membership of the project itself, or one of its whole organization.\<close>

definition scope_covers :: "pystr \<Rightarrow> pystr option \<Rightarrow> member \<Rightarrow> bool" where
  "scope_covers pid org m =
    (case given (mb_project m) of Some q \<Rightarrow> q = pid | None \<Rightarrow> org = Some (mb_org m))"

definition member_role :: "id_source \<Rightarrow> settings option \<Rightarrow> pystr option \<Rightarrow> pystr \<Rightarrow> pystr option" where
  "member_role ids s email pid =
    (case given email of None \<Rightarrow> None
     | Some e \<Rightarrow>
         let w = normalize_workspace ids s;
             org = map_option p_org (find_project ids (Some (settings_of w)) pid)
         in role_scan (\<lambda>m. active_as e m \<and> scope_covers pid org m) (ws_members w) None)"

definition organization_role :: "id_source \<Rightarrow> settings option \<Rightarrow> pystr option \<Rightarrow> pystr \<Rightarrow> pystr option" where
  "organization_role ids s email oid =
    (case given email of None \<Rightarrow> None
     | Some e \<Rightarrow>
         role_scan (\<lambda>m. active_as e m \<and> given (mb_project m) = None \<and> mb_org m = oid)
           (ws_members (normalize_workspace ids s)) None)"

definition organization_access_role ::
  "id_source \<Rightarrow> settings option \<Rightarrow> pystr option \<Rightarrow> pystr \<Rightarrow> pystr option" where
  "organization_access_role ids s email oid =
    (case given email of None \<Rightarrow> None
     | Some e \<Rightarrow>
         let w = normalize_workspace ids s;
             pids = map p_id (filter (\<lambda>p. p_org p = oid) (ws_projects w))
         in fold (\<lambda>m best. if active_as e m \<and> (case mb_project m of None \<Rightarrow> False | Some q \<Rightarrow> q \<in> set pids)
                           then strongest_role best (Some (mb_role m)) else best)
              (ws_members w) (organization_role ids (Some (settings_of w)) email oid))"

section \<open>Organizations and projects\<close>

definition create_organization ::
  "id_source \<Rightarrow> settings option \<Rightarrow> pystr option \<Rightarrow> pystr \<Rightarrow> workspace" where
  "create_organization ids s name hex =
    (let w = normalize_workspace ids s; oid = new_scoped_id (U ''org'') hex;
         g = \<lparr>o_id = oid, o_name = clean_name name oid\<rparr>
     in w\<lparr>ws_orgs := ws_orgs w @ [g], ws_active_org := oid, ws_organization := g\<rparr>)"

text \<open>
  \<open>data["organization"]\<close> is the same object as the organization's entry of the list, so a rename
  shows in both.
\<close>

definition update_organization ::
  "id_source \<Rightarrow> settings option \<Rightarrow> pystr \<Rightarrow> pystr option option \<Rightarrow> workspace" where
  "update_organization ids s oid patch_name =
    (let w = normalize_workspace ids s;
         f = (\<lambda>g. if o_id g = oid then (case patch_name of None \<Rightarrow> g | Some n \<Rightarrow> g\<lparr>o_name := clean_name n oid\<rparr>) else g)
     in w\<lparr>ws_orgs := map f (ws_orgs w), ws_organization := f (ws_organization w)\<rparr>)"

definition delete_organization :: "id_source \<Rightarrow> settings option \<Rightarrow> pystr \<Rightarrow> workspace" where
  "delete_organization ids s oid =
    (let w = normalize_workspace ids s
     in if oid = default_org_id then w
        else
          let gone = map p_id (filter (\<lambda>p. p_org p = oid) (ws_projects w));
              orgs0 = filter (\<lambda>g. o_id g \<noteq> oid) (ws_orgs w);
              ps0 = filter (\<lambda>p. p_id p \<notin> set gone) (ws_projects w);
              ms = filter (\<lambda>m. mb_org m \<noteq> oid \<and> (case given (mb_project m) of None \<Rightarrow> True | Some q \<Rightarrow> q \<notin> set gone))
                     (ws_members w);
              orgs = (if orgs0 = [] then default_organizations else orgs0);
              ps = (if ps0 = [] then default_projects else ps0)
          in w\<lparr>ws_orgs := orgs, ws_projects := ps, ws_members := ms, ws_active_org := o_id (hd orgs),
               ws_organization := hd orgs, ws_active_project := p_id (hd ps)\<rparr>)"

definition create_project ::
  "id_source \<Rightarrow> settings option \<Rightarrow> pystr \<Rightarrow> pystr option \<Rightarrow> pystr \<Rightarrow> workspace" where
  "create_project ids s oid name hex =
    (let w = normalize_workspace ids s; pid = new_scoped_id (U ''project'') hex;
         p = \<lparr>p_id = pid, p_name = clean_name name pid, p_description = [], p_org = oid, p_rest = default_sections\<rparr>
     in w\<lparr>ws_projects := ws_projects w @ [p], ws_active_org := oid, ws_active_project := pid\<rparr>)"

text \<open>A patch of a project; name and description may be absent, null or given.\<close>

record project_patch =
  pt_name :: "pystr option option"
  pt_description :: "pystr option option"
  pt_rest :: "(pystr \<times> json) list"

definition patchable_keys :: "pystr list" where
  "patchable_keys =
    [U ''custom_instructions'', U ''custom_categories'', U ''multilingual'', U ''decay'', U ''extraction'',
     U ''categories'', U ''retention'', U ''playground'', U ''retrieval_criteria'']"

definition apply_patch :: "project_patch \<Rightarrow> project \<Rightarrow> project" where
  "apply_patch patch p =
    (let p1 = p\<lparr>p_rest := fold (\<lambda>(k, v) kvs. if k \<in> set patchable_keys then AList.update k v kvs else kvs)
                          (pt_rest patch) (p_rest p)\<rparr>;
         p2 = (case pt_name patch of None \<Rightarrow> p1 | Some n \<Rightarrow> p1\<lparr>p_name := clean_name n (p_id p)\<rparr>)
     in (case pt_description patch of None \<Rightarrow> p2 | Some x \<Rightarrow> p2\<lparr>p_description := or_str x []\<rparr>))"

fun update_first :: "('a \<Rightarrow> bool) \<Rightarrow> ('a \<Rightarrow> 'a) \<Rightarrow> 'a list \<Rightarrow> 'a list" where
  "update_first P f [] = []"
| "update_first P f (x # xs) = (if P x then f x # xs else x # update_first P f xs)"

definition update_project :: "id_source \<Rightarrow> settings option \<Rightarrow> pystr \<Rightarrow> project_patch \<Rightarrow> workspace" where
  "update_project ids s pid patch =
    (let w = normalize_workspace ids s
     in w\<lparr>ws_projects := update_first (\<lambda>p. p_id p = pid) (apply_patch patch) (ws_projects w)\<rparr>)"

definition delete_project :: "id_source \<Rightarrow> settings option \<Rightarrow> pystr \<Rightarrow> workspace" where
  "delete_project ids s pid =
    (let w = normalize_workspace ids s
     in if pid = default_project_id then w
        else
          let deleted = find_project ids (Some (settings_of w)) pid;
              ps0 = filter (\<lambda>p. p_id p \<noteq> pid) (ws_projects w);
              ps = (if ps0 = [] then default_projects else ps0);
              w1 = w\<lparr>ws_projects := ps, ws_members := filter (\<lambda>m. mb_project m \<noteq> Some pid) (ws_members w)\<rparr>
          in if ws_active_project w \<noteq> pid then w1
             else
               let fallback = (case deleted of None \<Rightarrow> hd ps | Some q \<Rightarrow> find_or_hd (\<lambda>p. p_org p = p_org q) ps);
                   active = or_str (Some (p_org fallback)) default_org_id
               in w1\<lparr>ws_active_project := p_id fallback, ws_active_org := active,
                     ws_organization := find_or_hd (\<lambda>g. o_id g = active) (ws_orgs w)\<rparr>)"

section \<open>Sections\<close>

definition section_of :: "(pystr \<times> json) list \<Rightarrow> pystr \<Rightarrow> (pystr \<times> json) list" where
  "section_of kvs key = (case map_of kvs key of Some (JObj xs) \<Rightarrow> xs | _ \<Rightarrow> [])"

text \<open>\<open>{**a, **b}\<close>.\<close>

definition merge_dicts :: "(pystr \<times> json) list \<Rightarrow> (pystr \<times> json) list \<Rightarrow> (pystr \<times> json) list" where
  "merge_dicts a b = fold (\<lambda>(k, v). AList.update k v) b a"

definition project_settings :: "id_source \<Rightarrow> settings option \<Rightarrow> pystr \<Rightarrow> (pystr \<times> json) list" where
  "project_settings ids s pid =
    (let w = normalize_workspace ids s;
         rest = (case find_project ids (Some (settings_of w)) pid of None \<Rightarrow> [] | Some p \<Rightarrow> p_rest p);
         merged = (\<lambda>key. JObj (merge_dicts (section_of (ws_rest w) key) (section_of rest key)))
     in [(U ''extraction'', merged (U ''extraction'')),
         (U ''categories'', case map_of rest (U ''categories'') of Some v \<Rightarrow> v
            | None \<Rightarrow> (case map_of (ws_rest w) (U ''categories'') of None \<Rightarrow> JArr [] | Some v \<Rightarrow> v)),
         (U ''retention'', merged (U ''retention'')), (U ''playground'', merged (U ''playground''))])"

definition copy_workspace_sections_to_project :: "id_source \<Rightarrow> settings option \<Rightarrow> pystr \<Rightarrow> workspace" where
  "copy_workspace_sections_to_project ids s pid =
    (let w = normalize_workspace ids s; sec = (\<lambda>key. (key, JObj (section_of (ws_rest w) key)))
     in update_project ids (Some (settings_of w)) pid
          \<lparr>pt_name = None, pt_description = None,
           pt_rest = [sec (U ''extraction''),
             (U ''categories'', case map_of (ws_rest w) (U ''categories'') of Some (JArr xs) \<Rightarrow> JArr xs | _ \<Rightarrow> JArr []),
             sec (U ''retention''), sec (U ''playground'')]\<rparr>)"

section \<open>Members\<close>

definition invited_member :: "id_source \<Rightarrow> settings option \<Rightarrow> pystr \<Rightarrow> member option" where
  "invited_member ids s email =
    List.find (\<lambda>m. py_lower (mb_email m) = py_lower email \<and> mb_status m = U ''invited'')
      (ws_members (normalize_workspace ids s))"

definition activate_member :: "id_source \<Rightarrow> settings option \<Rightarrow> pystr \<Rightarrow> workspace" where
  "activate_member ids s email =
    (let w = normalize_workspace ids s
     in w\<lparr>ws_members := map (\<lambda>m. if py_lower (mb_email m) = py_lower email then m\<lparr>mb_status := U ''active''\<rparr> else m)
                         (ws_members w)\<rparr>)"

definition replace_member_email ::
  "id_source \<Rightarrow> settings option \<Rightarrow> pystr option \<Rightarrow> pystr option \<Rightarrow> workspace" where
  "replace_member_email ids s old_email new_email =
    (let w = normalize_workspace ids s;
         old_key = py_lower (py_strip (or_str old_email [])); new_key = py_lower (py_strip (or_str new_email []))
     in if old_key = [] \<or> new_key = [] \<or> old_key = new_key then w
        else renormalize ids (w\<lparr>ws_members :=
               map (\<lambda>m. if py_lower (mb_email m) = old_key then m\<lparr>mb_email := new_key\<rparr> else m) (ws_members w)\<rparr>))"

definition is_entry :: "pystr \<Rightarrow> pystr option \<Rightarrow> pystr \<Rightarrow> member \<Rightarrow> bool" where
  "is_entry email pid oid m = (py_lower (mb_email m) = py_lower email \<and> mb_project m = pid \<and> mb_org m = oid)"

definition upsert_member ::
  "id_source \<Rightarrow> settings option \<Rightarrow> pystr \<Rightarrow> pystr \<Rightarrow> pystr \<Rightarrow> pystr option \<Rightarrow> pystr option \<Rightarrow> workspace" where
  "upsert_member ids s email role status pid org =
    (let w = normalize_workspace ids s;
         org1 = (case given pid of None \<Rightarrow> org
                 | Some p \<Rightarrow> (case find_project ids (Some (settings_of w)) p of None \<Rightarrow> org | Some q \<Rightarrow> Some (p_org q)));
         oid = or_str org1 (or_str (Some (ws_active_org w)) default_org_id)
     in w\<lparr>ws_members := filter (\<lambda>m. \<not> is_entry email pid oid m) (ws_members w) @
            [\<lparr>mb_email = py_lower email, mb_role = normalize_member_role (Some role), mb_status = status,
              mb_project = pid, mb_org = oid\<rparr>]\<rparr>)"

definition remove_member ::
  "id_source \<Rightarrow> settings option \<Rightarrow> pystr \<Rightarrow> pystr option \<Rightarrow> pystr option \<Rightarrow> workspace" where
  "remove_member ids s email pid org =
    (let w = normalize_workspace ids s;
         org1 = (case given pid of None \<Rightarrow> org
                 | Some p \<Rightarrow> if org = None then map_option p_org (find_project ids (Some (settings_of w)) p) else org);
         oid = or_str org1 (or_str (Some (ws_active_org w)) default_org_id)
     in w\<lparr>ws_members := filter (\<lambda>m. \<not> is_entry email pid oid m) (ws_members w)\<rparr>)"

definition visible_workspace :: "id_source \<Rightarrow> settings option \<Rightarrow> pystr option \<Rightarrow> bool \<Rightarrow> workspace" where
  "visible_workspace ids s email is_owner =
    (let w = normalize_workspace ids s; st = Some (settings_of w)
     in if is_owner then w
        else
          let ps = filter (\<lambda>p. member_role ids st email (p_id p) \<noteq> None) (ws_projects w);
              org_ids = map p_org ps;
              managed_ps = map p_id (filter (\<lambda>p. role_allows_manage (member_role ids st email (p_id p))) ps);
              managed_orgs = map o_id (filter (\<lambda>g. role_allows_manage (organization_role ids st email (o_id g))) (ws_orgs w));
              orgs = filter (\<lambda>g. o_id g \<in> set org_ids) (ws_orgs w);
              ms = filter (\<lambda>m. py_lower (mb_email m) = py_lower (or_str email [])
                              \<or> (case mb_project m of None \<Rightarrow> False | Some q \<Rightarrow> q \<in> set managed_ps)
                              \<or> mb_org m \<in> set managed_orgs) (ws_members w);
              w1 = w\<lparr>ws_projects := ps, ws_orgs := orgs, ws_members := ms\<rparr>;
              w2 = (if ps = [] then w1 else w1\<lparr>ws_active_project := p_id (hd ps)\<rparr>)
          in if orgs = [] then w2 else w2\<lparr>ws_active_org := o_id (hd orgs), ws_organization := hd orgs\<rparr>)"

end
