(* ===== verification/Workspace_Laws.thy ===== *)
theory Workspace_Laws
  imports Workspace_Ops
begin

text \<open>
  What the workspace operations guarantee: a normalized workspace is well formed and normalizing
  it again changes nothing access control looks at; a person's role is the strongest of the
  memberships that cover the project, and nothing else; a restricted view shows only what a
  membership covers.
\<close>

section \<open>Strings\<close>

lemma lower_char_idem [simp]: "lower_char (lower_char c) = lower_char c"
  by (auto simp: lower_char_def)

lemma py_lower_idem [simp]: "py_lower (py_lower s) = py_lower s"
  by (simp add: py_lower_def)

lemma py_lower_Nil_iff [simp]: "py_lower s = [] \<longleftrightarrow> s = []"
  by (simp add: py_lower_def)

text \<open>The characters that have a case.\<close>

definition cased_char :: "int \<Rightarrow> bool" where
  "cased_char x =
    (65 \<le> x \<and> x \<le> 90 \<or> 97 \<le> x \<and> x \<le> 122 \<or> 192 \<le> x \<and> x \<le> 254
     \<or> 913 \<le> x \<and> x \<le> 961 \<or> 1024 \<le> x \<and> x \<le> 1119)"

lemma cased_not_space: "cased_char x \<Longrightarrow> \<not> is_space x"
proof
  assume "cased_char x" and "is_space x"
  moreover have "\<forall>y\<in>set space_codes. \<not> cased_char y" by code_simp
  ultimately show False by (simp add: is_space_def)
qed

lemma lower_char_cases: "lower_char c = c \<or> cased_char c \<and> cased_char (lower_char c)"
  by (simp add: lower_char_def cased_char_def)

lemma is_space_lower [simp]: "is_space (lower_char c) = is_space c"
  using lower_char_cases [of c] cased_not_space by auto

lemma dropWhile_lower: "dropWhile is_space (map lower_char s) = map lower_char (dropWhile is_space s)"
  by (induction s) simp_all

lemma py_strip_lower: "py_strip (py_lower s) = py_lower (py_strip s)"
  by (simp add: py_strip_def py_lower_def dropWhile_lower rev_map)

lemma or_str_nonempty: "y \<noteq> [] \<Longrightarrow> or_str x y \<noteq> []"
  by (auto simp: or_str_def split: option.split)

lemma or_str_Some [simp]: "x \<noteq> [] \<Longrightarrow> or_str (Some x) y = x"
  by (simp add: or_str_def)

lemma new_scoped_id_nonempty [simp]: "new_scoped_id p h \<noteq> []"
  by (simp add: new_scoped_id_def U_def)

lemma clean_name_nonempty: "fb \<noteq> [] \<Longrightarrow> clean_name v fb \<noteq> []"
  by (simp add: clean_name_def Let_def)

lemma slug_nonempty: "fb \<noteq> [] \<Longrightarrow> slug v fb \<noteq> []"
  by (simp add: slug_def Let_def)

section \<open>Well-formed workspaces\<close>

definition canonical_roles :: "pystr list" where
  "canonical_roles = [U ''OWNER'', U ''EDITOR'', U ''READER'']"

lemma normalized_role_canonical: "normalize_member_role r \<in> set canonical_roles"
proof -
  have "\<forall>x\<in>snd ` set role_aliases. x \<in> set canonical_roles" by code_simp
  then have "map_of role_aliases k = Some x \<Longrightarrow> x \<in> set canonical_roles" for k x
    by (metis map_of_SomeD snd_conv image_eqI)
  moreover have "U ''READER'' \<in> set canonical_roles" by (simp add: canonical_roles_def)
  ultimately show ?thesis
    by (auto simp: normalize_member_role_def split: option.split)
qed

lemma canonical_role_fixed: "r \<in> set canonical_roles \<Longrightarrow> normalize_member_role (Some r) = r"
proof -
  have "\<forall>r\<in>set canonical_roles. normalize_member_role (Some r) = r" by code_simp
  then show "r \<in> set canonical_roles \<Longrightarrow> ?thesis" by blast
qed

lemma canonical_role_reads: "r \<in> set canonical_roles \<Longrightarrow> role_allows_read (Some r)"
proof -
  have "\<forall>r\<in>set canonical_roles. role_allows_read (Some r)" by code_simp
  then show "r \<in> set canonical_roles \<Longrightarrow> ?thesis" by blast
qed

definition placed :: "organization list \<Rightarrow> pystr \<Rightarrow> pystr \<Rightarrow> bool" where
  "placed orgs active oid = (known_org orgs oid \<or> oid = active)"

definition member_ok :: "organization list \<Rightarrow> project list \<Rightarrow> pystr \<Rightarrow> member \<Rightarrow> bool" where
  "member_ok orgs ps active m \<longleftrightarrow>
     mb_email m \<noteq> [] \<and> py_lower (py_strip (mb_email m)) = mb_email m \<and> mb_role m \<in> set canonical_roles \<and>
     mb_status m \<in> {U ''active'', U ''invited''} \<and>
     (case mb_project m of None \<Rightarrow> True | Some q \<Rightarrow> q \<noteq> [] \<and> project_org ps q \<noteq> None) \<and>
     mb_org m \<noteq> [] \<and> placed orgs active (mb_org m)"

definition ws_ok :: "workspace \<Rightarrow> bool" where
  "ws_ok w \<longleftrightarrow>
     ws_orgs w \<noteq> [] \<and> distinct (map o_id (ws_orgs w)) \<and> (\<forall>g\<in>set (ws_orgs w). o_id g \<noteq> []) \<and>
     ws_active_org w \<noteq> [] \<and>
     ws_projects w \<noteq> [] \<and> distinct (map p_id (ws_projects w)) \<and>
     (\<forall>p\<in>set (ws_projects w). p_id p \<noteq> [] \<and> p_org p \<noteq> [] \<and> placed (ws_orgs w) (ws_active_org w) (p_org p)) \<and>
     (\<exists>p\<in>set (ws_projects w). p_id p = ws_active_project w) \<and>
     distinct (map member_key (ws_members w)) \<and>
     (\<forall>m\<in>set (ws_members w). member_ok (ws_orgs w) (ws_projects w) (ws_active_org w) m)"

text \<open>The stored settings name at least one project, or none at all.\<close>

definition names_project :: "settings option \<Rightarrow> bool" where
  "names_project s = (case s of None \<Rightarrow> True | Some st \<Rightarrow> st_projects st = [] \<or> (\<exists>r. Some r \<in> set (st_projects st)))"

lemma normalize_orgs_ok:
  "distinct (map o_id (normalize_orgs hex i seen xs)) \<and>
   (\<forall>g\<in>set (normalize_orgs hex i seen xs). o_id g \<noteq> [] \<and> o_id g \<notin> set seen)"
proof (induction hex i seen xs rule: normalize_orgs.induct)
  case (3 hex i seen r xs)
  define oid where "oid = or_str (ro_id r) (new_scoped_id (U ''org'') (hex i))"
  have "oid \<noteq> []" by (simp add: oid_def or_str_nonempty)
  show ?case
  proof (cases "oid \<in> set seen")
    case True
    with 3(1) [OF oid_def True] show ?thesis by (simp add: oid_def [symmetric])
  next
    case False
    with 3(2) [OF oid_def False] \<open>oid \<noteq> []\<close> show ?thesis
      by (auto simp: oid_def [symmetric] image_iff)
  qed
qed simp_all

lemma normalize_projects_ok:
  assumes "active \<noteq> []"
  shows "distinct (map p_id (normalize_projects hex orgs active i seen xs)) \<and>
   (\<forall>p\<in>set (normalize_projects hex orgs active i seen xs).
      p_id p \<noteq> [] \<and> p_id p \<notin> set seen \<and> p_org p \<noteq> [] \<and> placed orgs active (p_org p))"
  using assms
proof (induction hex orgs active i seen xs rule: normalize_projects.induct)
  case (3 hex orgs active i seen r xs)
  define pid where "pid = or_str (rp_id r) (slug (rp_name r) (new_scoped_id (U ''project'') (hex i)))"
  have pid: "pid \<noteq> []" by (simp add: pid_def or_str_nonempty slug_nonempty)
  have oid: "or_str (rp_org r) active \<noteq> []" using 3(3) by (simp add: or_str_nonempty)
  show ?case
  proof (cases "pid \<in> set seen")
    case True
    with 3(1) [OF pid_def True 3(3)] show ?thesis by (simp add: pid_def [symmetric])
  next
    case False
    with 3(2) [OF pid_def False refl refl 3(3)] 3(3) pid oid show ?thesis
      by (auto simp: pid_def [symmetric] image_iff Let_def placed_def)
  qed
qed simp_all

lemma normalize_projects_kept: "Some r \<in> set xs \<Longrightarrow> normalize_projects hex orgs active i [] xs \<noteq> []"
proof (induction xs arbitrary: i)
  case (Cons x xs)
  then show ?case by (cases x) (simp_all add: Let_def)
qed simp

lemma normalize_member_ok:
  assumes "active \<noteq> []" and "normalize_member orgs ps active r = Some m"
  shows "member_ok orgs ps active m"
proof -
  have pid: "given x \<noteq> Some []" for x by (simp add: given_def)
  have status: "(if st \<in> {U ''active'', U ''invited''} then st else U ''invited'') \<in> {U ''active'', U ''invited''}" for st
    by simp
  show ?thesis
    using assms status [of "py_lower (or_str (rm_status r) (U ''invited''))"] pid [of "rm_project r"] unfolding normalize_member_def Let_def
    by (simp only: if_split option.simps split: if_split_asm; cases "given (rm_project r)";
        clarsimp simp: member_ok_def normalized_role_canonical py_strip_lower or_str_nonempty placed_def)
qed

lemma normalize_members_ok:
  assumes "active \<noteq> []"
  shows "distinct (map member_key (normalize_members orgs ps active seen xs)) \<and>
   (\<forall>m\<in>set (normalize_members orgs ps active seen xs). member_key m \<notin> set seen \<and> member_ok orgs ps active m)"
  using assms
proof (induction orgs ps active seen xs rule: normalize_members.induct)
  case (3 orgs ps active seen r xs)
  show ?case
  proof (cases "normalize_member orgs ps active r")
    case None
    with 3(1) [OF None 3(4)] show ?thesis by simp
  next
    case (Some m)
    have ok: "member_ok orgs ps active m" using 3(4) Some by (rule normalize_member_ok)
    show ?thesis
    proof (cases "member_key m \<in> set seen")
      case True
      with 3(2) [OF Some True 3(4)] Some show ?thesis by simp
    next
      case False
      with 3(3) [OF Some False 3(4)] Some ok show ?thesis by (auto simp: image_iff)
    qed
  qed
qed simp_all

lemma default_lists_ok:
  "default_organizations \<noteq> []" "distinct (map o_id default_organizations)"
  "\<forall>g\<in>set default_organizations. o_id g \<noteq> []" "default_org_id \<noteq> []"
  by (simp_all add: default_organizations_def default_org_id_def U_def)

lemma normalize_workspace_ok:
  assumes "names_project s"
  shows "ws_ok (normalize_workspace ids s)"
proof -
  define st where "st = (case s of None \<Rightarrow> default_settings | Some x \<Rightarrow> x)"
  define raw_orgs where "raw_orgs = (if st_orgs st = []
    then [Some (case st_organization st of None \<Rightarrow> raw_of_org (hd default_organizations) | Some x \<Rightarrow> x)] else st_orgs st)"
  define kept where "kept = normalize_orgs (org_hex ids) 0 [] raw_orgs"
  define orgs where "orgs = (if kept = [] then default_organizations else kept)"
  define active where "active = or_str (st_active_org st) (o_id (hd orgs))"
  define raw_ps where "raw_ps = (if st_projects st = [] then map (Some \<circ> raw_of_project) default_projects else st_projects st)"
  define ps where "ps = normalize_projects (project_hex ids) orgs active 0 [] raw_ps"
  define ms where "ms = normalize_members orgs ps active [] (st_members st)"
  have orgs: "orgs \<noteq> []" "distinct (map o_id orgs)" "\<forall>g\<in>set orgs. o_id g \<noteq> []"
    using normalize_orgs_ok [of "org_hex ids" 0 "[]" raw_orgs] default_lists_ok by (auto simp: orgs_def kept_def)
  then have "active \<noteq> []" unfolding active_def by (intro or_str_nonempty) (simp add: hd_in_set)
  note pok = normalize_projects_ok [OF this, of "project_hex ids" orgs 0 "[]" raw_ps, folded ps_def]
  note mok = normalize_members_ok [OF \<open>active \<noteq> []\<close>, of orgs ps "[]" "st_members st", folded ms_def]
  have "\<exists>r. Some r \<in> set raw_ps"
    using assms by (cases s) (auto simp: raw_ps_def st_def names_project_def default_projects_def default_settings_def)
  then have "ps \<noteq> []" unfolding ps_def using normalize_projects_kept by blast
  moreover have w: "normalize_workspace ids s =
     \<lparr>ws_organization = find_or_hd (\<lambda>g. o_id g = active) orgs, ws_orgs = orgs, ws_active_org = active,
      ws_active_project = (case st_active_project st of
                       Some p \<Rightarrow> if \<exists>q\<in>set ps. p_id q = p then p else p_id (hd ps)
                     | None \<Rightarrow> p_id (hd ps)), ws_projects = ps, ws_members = ms, ws_rest = st_rest st\<rparr>"
    using \<open>ps \<noteq> []\<close>
    unfolding normalize_workspace_def Let_def st_def [symmetric] raw_orgs_def [symmetric] kept_def [symmetric]
      orgs_def [symmetric] active_def [symmetric] raw_ps_def [symmetric] ps_def [symmetric] ms_def [symmetric]
    by (simp add: ms_def)
  moreover have "\<exists>p\<in>set ps. p_id p = (case st_active_project st of
                       Some p \<Rightarrow> if \<exists>q\<in>set ps. p_id q = p then p else p_id (hd ps)
                     | None \<Rightarrow> p_id (hd ps))"
    using \<open>ps \<noteq> []\<close> hd_in_set by (auto split: option.split)
  ultimately show ?thesis
    using orgs \<open>active \<noteq> []\<close> pok mok by (simp add: ws_ok_def)
qed

section \<open>Normalizing again\<close>

text \<open>What access control looks at.\<close>

definition ws_skeleton ::
  "workspace \<Rightarrow> pystr list \<times> pystr \<times> pystr \<times> (pystr \<times> pystr) list \<times> member list" where
  "ws_skeleton w =
    (map o_id (ws_orgs w), ws_active_org w, ws_active_project w,
     map (\<lambda>p. (p_id p, p_org p)) (ws_projects w), ws_members w)"

lemma orgs_again:
  "distinct (map o_id gs) \<Longrightarrow> \<forall>g\<in>set gs. o_id g \<noteq> [] \<and> o_id g \<notin> set seen \<Longrightarrow>
   map o_id (normalize_orgs hex i seen (map (Some \<circ> raw_of_org) gs)) = map o_id gs"
proof (induction gs arbitrary: i seen)
  case (Cons g gs)
  have "\<forall>x\<in>set gs. o_id x \<noteq> [] \<and> o_id x \<notin> set (o_id g # seen)"
    using Cons.prems by (auto simp: image_iff)
  with Cons.IH [of "o_id g # seen" "Suc i"] Cons.prems show ?case
    by (simp add: raw_of_org_def Let_def)
qed simp

lemma projects_again:
  "distinct (map p_id ps) \<Longrightarrow>
   \<forall>p\<in>set ps. p_id p \<noteq> [] \<and> p_id p \<notin> set seen \<and> p_org p \<noteq> [] \<and> placed orgs active (p_org p) \<Longrightarrow>
   map (\<lambda>p. (p_id p, p_org p)) (normalize_projects hex orgs active i seen (map (Some \<circ> raw_of_project) ps))
   = map (\<lambda>p. (p_id p, p_org p)) ps"
proof (induction ps arbitrary: i seen)
  case (Cons p ps)
  have "\<forall>x\<in>set ps. p_id x \<noteq> [] \<and> p_id x \<notin> set (p_id p # seen) \<and> p_org x \<noteq> [] \<and> placed orgs active (p_org x)"
    using Cons.prems by (auto simp: image_iff)
  with Cons.IH [of "p_id p # seen" "Suc i"] Cons.prems show ?case
    by (simp add: raw_of_project_def Let_def placed_def) blast
qed simp

lemma member_again:
  assumes "member_ok orgs ps active m" and "active \<noteq> []"
    and "\<And>oid. known_org orgs' oid = known_org orgs oid" and "project_org ps' = project_org ps"
  shows "normalize_member orgs' ps' active (raw_of_member m) = Some m"
proof -
  have g: "given (mb_project m) = mb_project m"
    using assms(1) by (auto simp: member_ok_def given_def split: option.splits)
  have st: "py_lower (mb_status m) = mb_status m \<and> mb_status m \<noteq> []"
  proof -
    have "\<forall>x\<in>{U ''active'', U ''invited''}. py_lower x = x \<and> x \<noteq> []" by code_simp
    with assms(1) show ?thesis unfolding member_ok_def by blast
  qed
  have p: "\<not> (case mb_project m of None \<Rightarrow> False | Some p \<Rightarrow> project_org ps' p = None)"
    using assms(1) by (simp add: member_ok_def assms(4) split: option.splits)
  from assms(1) have m: "mb_email m \<noteq> []" "py_lower (py_strip (mb_email m)) = mb_email m" "mb_role m \<in> set canonical_roles"
    "mb_status m \<in> {U ''active'', U ''invited''}" "mb_org m \<noteq> []" "known_org orgs (mb_org m) \<or> mb_org m = active"
    by (simp_all add: member_ok_def placed_def)
  show ?thesis
    using m(4,6) p by (auto simp: normalize_member_def raw_of_member_def Let_def g st m(1,2,3,5) canonical_role_fixed assms(2-4))
qed

lemma members_again:
  assumes "active \<noteq> []" and "\<And>oid. known_org orgs' oid = known_org orgs oid" and "project_org ps' = project_org ps"
  shows "distinct (map member_key ms) \<Longrightarrow> \<forall>m\<in>set ms. member_ok orgs ps active m \<and> member_key m \<notin> set seen \<Longrightarrow>
   normalize_members orgs' ps' active seen (map (Some \<circ> raw_of_member) ms) = ms"
proof (induction ms arbitrary: seen)
  case (Cons m ms)
  have "normalize_member orgs' ps' active (raw_of_member m) = Some m"
    using Cons.prems(2) assms by (intro member_again) simp_all
  moreover have "\<forall>x\<in>set ms. member_ok orgs ps active x \<and> member_key x \<notin> set (member_key m # seen)"
    using Cons.prems by (auto simp: image_iff)
  ultimately show ?case using Cons.IH [of "member_key m # seen"] Cons.prems by simp
qed simp

lemma known_org_ids: "known_org orgs oid \<longleftrightarrow> oid \<in> set (map o_id orgs)"
  by (auto simp: known_org_def)

lemma project_org_ids: "project_org ps = map_of (rev (map (\<lambda>p. (p_id p, p_org p)) ps))"
  by (rule ext) (simp add: project_org_def)

lemma renormalize_skeleton:
  assumes "ws_ok w"
  shows "ws_skeleton (renormalize ids w) = ws_skeleton w"
proof -
  define orgs where "orgs = normalize_orgs (org_hex ids) 0 [] (map (Some \<circ> raw_of_org) (ws_orgs w))"
  define ps where "ps = normalize_projects (project_hex ids) orgs (ws_active_org w) 0 []
      (map (Some \<circ> raw_of_project) (ws_projects w))"
  have orgs: "map o_id orgs = map o_id (ws_orgs w)"
    unfolding orgs_def using assms by (intro orgs_again) (simp_all add: ws_ok_def)
  then have known: "known_org orgs oid = known_org (ws_orgs w) oid" for oid by (simp only: known_org_ids)
  have ps: "map (\<lambda>p. (p_id p, p_org p)) ps = map (\<lambda>p. (p_id p, p_org p)) (ws_projects w)"
    unfolding ps_def using assms by (intro projects_again) (simp_all add: ws_ok_def placed_def known)
  then have porg: "project_org ps = project_org (ws_projects w)" by (simp only: project_org_ids)
  have ids: "map p_id ps = map p_id (ws_projects w)"
    using arg_cong [OF ps, of "map fst"] by (simp add: o_def)
  have ms: "normalize_members orgs ps (ws_active_org w) [] (map (Some \<circ> raw_of_member) (ws_members w)) = ws_members w"
    using assms known porg
    by (intro members_again [where orgs = "ws_orgs w" and ps = "ws_projects w"]) (simp_all add: ws_ok_def)
  have act: "\<exists>q\<in>set ps. p_id q = ws_active_project w"
  proof -
    obtain p where "p \<in> set (ws_projects w)" "p_id p = ws_active_project w" using assms by (auto simp: ws_ok_def)
    then have "ws_active_project w \<in> set (map p_id (ws_projects w))" by (metis image_eqI set_map)
    then show ?thesis unfolding ids [symmetric] by auto
  qed
  have ne: "ws_orgs w \<noteq> []" "orgs \<noteq> []" "ws_projects w \<noteq> []" "ps \<noteq> []" "ws_active_org w \<noteq> []"
    using assms orgs ids unfolding ws_ok_def by (simp_all, (metis list.map_disc_iff)+)
  have "renormalize ids w =
     \<lparr>ws_organization = find_or_hd (\<lambda>g. o_id g = ws_active_org w) orgs, ws_orgs = orgs,
      ws_active_org = ws_active_org w, ws_active_project = ws_active_project w, ws_projects = ps,
      ws_members = ws_members w, ws_rest = ws_rest w\<rparr>"
    using ne act
    by (simp add: normalize_workspace_def settings_of_def Let_def orgs_def [symmetric] ps_def [symmetric] ms)
  then show ?thesis by (simp add: ws_skeleton_def orgs ps)
qed

section \<open>Roles\<close>

lemma role_rank_le: "role_rank r \<le> 3"
  by (simp add: role_rank_def)

lemma strongest_rank: "role_rank (strongest_role a b) = max (role_rank a) (role_rank b)"
  by (simp add: strongest_role_def max_def)

lemma strongest_cases: "strongest_role a b = a \<or> strongest_role a b = b"
  by (simp add: strongest_role_def)

lemma role_scan_source:
  "role_scan A ms best = best \<or> (\<exists>m\<in>set ms. A m \<and> role_scan A ms best = Some (mb_role m))"
proof (induction ms arbitrary: best)
  case (Cons m ms)
  show ?case
    using Cons.IH [of best] Cons.IH [of "strongest_role best (Some (mb_role m))"]
      strongest_cases [of best "Some (mb_role m)"]
    by (cases "A m") (auto split: if_splits)
qed simp

lemma role_scan_rank:
  "role_rank best \<le> role_rank (role_scan A ms best) \<and>
   (\<forall>m\<in>set ms. A m \<longrightarrow> role_rank (Some (mb_role m)) \<le> role_rank (role_scan A ms best))"
proof (induction ms arbitrary: best)
  case (Cons m ms)
  show ?case
  proof (cases "A m")
    case False
    with Cons.IH [of best] show ?thesis by simp
  next
    case True
    show ?thesis
    proof (cases "role_allows_manage (Some (mb_role m))")
      case manage: True
      then have "role_rank (role_scan A (m # ms) best) = 3" using True by (simp add: role_rank_def)
      then show ?thesis using role_rank_le by simp
    next
      case manage: False
      let ?b = "strongest_role best (Some (mb_role m))"
      show ?thesis
      proof (cases "role_allows_write (Some (mb_role m)) \<or> role_allows_read (Some (mb_role m))")
        case reads: True
        have scan: "role_scan A (m # ms) best = role_scan A ms ?b" using True manage reads by simp
        have "role_rank best \<le> role_rank ?b" "role_rank (Some (mb_role m)) \<le> role_rank ?b"
          by (simp_all add: strongest_rank)
        with Cons.IH [of ?b] show ?thesis unfolding scan by fastforce
      next
        case none: False
        have scan: "role_scan A (m # ms) best = role_scan A ms best" using True manage none by simp
        have "role_rank (Some (mb_role m)) = 0" using manage none by (simp add: role_rank_def)
        with Cons.IH [of best] show ?thesis unfolding scan by simp
      qed
    qed
  qed
qed simp

lemma find_map_option:
  "map_option f (List.find (\<lambda>x. k x = q) xs) = map_of (map (\<lambda>x. (k x, f x)) xs) q"
  by (induction xs) auto

lemma map_of_rev_distinct: "distinct (map fst xs) \<Longrightarrow> map_of (rev xs) = map_of xs"
proof (rule ext)
  fix k assume d: "distinct (map fst xs)"
  then have d': "distinct (map fst (rev xs))" by (simp add: rev_map [symmetric])
  show "map_of (rev xs) k = map_of xs k"
  proof (cases "map_of xs k")
    case None
    then have "map_of (rev xs) k = None" by (simp add: map_of_eq_None_iff)
    with None show ?thesis by simp
  next
    case (Some v)
    then have "(k, v) \<in> set (rev xs)" by (simp add: map_of_SomeD)
    with d' have "map_of (rev xs) k = Some v" by (simp add: map_of_is_SomeI)
    with Some show ?thesis by simp
  qed
qed

lemma org_of_project:
  assumes "ws_ok w"
  shows "map_option p_org (find_project ids (Some (settings_of w)) pid) = project_org (ws_projects w) pid"
proof -
  have eq: "map (\<lambda>p. (p_id p, p_org p)) (ws_projects (renormalize ids w)) = map (\<lambda>p. (p_id p, p_org p)) (ws_projects w)"
    using renormalize_skeleton [OF assms] by (simp add: ws_skeleton_def)
  have "distinct (map fst (map (\<lambda>p. (p_id p, p_org p)) (ws_projects w)))"
    using assms by (simp add: ws_ok_def o_def)
  note map_of_rev_distinct [OF this]
  then show ?thesis by (simp only: find_project_def find_map_option eq project_org_def)
qed

lemma member_role_scan:
  assumes "names_project s" and "e \<noteq> []"
  shows "member_role ids s (Some e) pid =
    role_scan (\<lambda>m. active_as e m \<and> scope_covers pid (project_org (ws_projects (normalize_workspace ids s)) pid) m)
      (ws_members (normalize_workspace ids s)) None"
  using assms org_of_project [OF normalize_workspace_ok [OF assms(1)]]
  by (simp add: member_role_def given_def Let_def)

lemma role_scan_None_iff:
  assumes "\<forall>m\<in>set ms. mb_role m \<in> set canonical_roles"
  shows "role_scan A ms None = None \<longleftrightarrow> (\<forall>m\<in>set ms. \<not> A m)"
proof
  assume none: "role_scan A ms None = None"
  show "\<forall>m\<in>set ms. \<not> A m"
  proof (intro ballI notI)
    fix m assume m: "m \<in> set ms" "A m"
    with role_scan_rank [of None A ms] none have "role_rank (Some (mb_role m)) \<le> role_rank None" by simp
    moreover have "role_rank None = 0" by code_simp
    moreover have "role_rank (Some (mb_role m)) \<noteq> 0"
      using canonical_role_reads assms m(1) by (simp add: role_rank_def)
    ultimately show False by simp
  qed
next
  assume "\<forall>m\<in>set ms. \<not> A m"
  with role_scan_source [of A ms None] show "role_scan A ms None = None" by blast
qed

text \<open>A person's role in a project is exactly the strongest of the active memberships that cover it:
  it is the role of one of them, and none of them is stronger. A membership covers the project
  when it is for that project, or for the organization the project belongs to.\<close>
theorem member_role_strongest:
  assumes "names_project s" and "e \<noteq> []"
    and "covering = filter (\<lambda>m. active_as e m \<and>
           scope_covers pid (project_org (ws_projects (normalize_workspace ids s)) pid) m)
           (ws_members (normalize_workspace ids s))"
  shows "(case member_role ids s (Some e) pid of
            None \<Rightarrow> covering = []
          | Some r \<Rightarrow> r \<in> mb_role ` set covering \<and>
                      (\<forall>m\<in>set covering. role_rank (Some (mb_role m)) \<le> role_rank (Some r)))"
proof -
  define w where "w = normalize_workspace ids s"
  define A where "A = (\<lambda>m. active_as e m \<and> scope_covers pid (project_org (ws_projects w) pid) m)"
  define ms where "ms = ws_members w"
  have role: "member_role ids s (Some e) pid = role_scan A ms None"
    using member_role_scan [OF assms(1,2)] by (simp only: w_def A_def ms_def)
  have cov: "set covering = {m \<in> set ms. A m}"
    by (simp only: assms(3) w_def A_def ms_def set_filter)
  have "ws_ok w" unfolding w_def using assms(1) by (rule normalize_workspace_ok)
  then have canon: "\<forall>m\<in>set ms. mb_role m \<in> set canonical_roles"
    unfolding ws_ok_def member_ok_def ms_def by blast
  show ?thesis
  proof (cases "role_scan A ms None")
    case None
    with role_scan_None_iff [OF canon] have "set covering = {}" unfolding cov by blast
    with None role show ?thesis by simp
  next
    case (Some r)
    with role_scan_source [of A ms None] obtain m where m: "m \<in> set ms" "A m" "r = mb_role m" by auto
    then have "r \<in> mb_role ` set covering" unfolding cov by blast
    moreover have "\<forall>m\<in>set covering. role_rank (Some (mb_role m)) \<le> role_rank (Some r)"
      using role_scan_rank [of None A ms] Some unfolding cov by simp
    ultimately show ?thesis using role Some by simp
  qed
qed

text \<open>A workspace with two organizations, for concrete applications.\<close>

definition no_ids :: id_source where
  "no_ids = \<lparr>org_hex = (\<lambda>_. []), project_hex = (\<lambda>_. [])\<rparr>"

definition raw_member_of :: "string \<Rightarrow> string \<Rightarrow> string \<Rightarrow> string option \<Rightarrow> string \<Rightarrow> raw_member option" where
  "raw_member_of email role st pid oid =
    Some \<lparr>rm_email = Some (U email), rm_role = Some (U role), rm_status = Some (U st),
          rm_project = map_option U pid, rm_org = Some (U oid)\<rparr>"

definition demo_settings :: settings where
  "demo_settings =
    \<lparr>st_organization = None,
     st_orgs = [Some \<lparr>ro_id = Some (U ''A''), ro_name = Some (U ''Alpha'')\<rparr>,
                Some \<lparr>ro_id = Some (U ''B''), ro_name = Some (U ''Beta'')\<rparr>],
     st_active_org = Some (U ''A''), st_active_project = Some (U ''pa''),
     st_projects = [Some \<lparr>rp_id = Some (U ''pa''), rp_name = None, rp_description = None, rp_org = Some (U ''A''), rp_rest = []\<rparr>,
                    Some \<lparr>rp_id = Some (U ''pb''), rp_name = None, rp_description = None, rp_org = Some (U ''B''), rp_rest = []\<rparr>],
     st_members = [raw_member_of '' Ann@X.org '' ''reader'' ''active'' None ''B'',
                   raw_member_of ''ann@x.org'' ''Writer'' ''active'' (Some ''pb'') ''B'',
                   raw_member_of ''bob@x.org'' ''admin'' ''invited'' None ''B''],
     st_rest = []\<rparr>"

lemma demo_names_project: "names_project (Some demo_settings)"
  by (auto simp: names_project_def demo_settings_def)

lemma member_role_strongest_witness:
  "member_role no_ids (Some demo_settings) (Some (U ''ann@x.org'')) (U ''pb'') = Some (U ''EDITOR'') \<and>
   role_rank (Some (U ''READER'')) \<le> role_rank (Some (U ''EDITOR''))"
proof -
  define cov where "cov = filter (\<lambda>m. active_as (U ''ann@x.org'') m \<and>
      scope_covers (U ''pb'') (project_org (ws_projects (normalize_workspace no_ids (Some demo_settings))) (U ''pb'')) m)
      (ws_members (normalize_workspace no_ids (Some demo_settings)))"
  have role: "member_role no_ids (Some demo_settings) (Some (U ''ann@x.org'')) (U ''pb'') = Some (U ''EDITOR'')"
    by code_simp
  have roles: "map mb_role cov = [U ''READER'', U ''EDITOR'']" unfolding cov_def by code_simp
  have ne: "U ''ann@x.org'' \<noteq> []" by code_simp
  have all: "\<forall>m\<in>set cov. role_rank (Some (mb_role m)) \<le> role_rank (Some (U ''EDITOR''))"
    using member_role_strongest [OF demo_names_project ne cov_def] unfolding role by simp
  from roles obtain m where "m \<in> set cov" "mb_role m = U ''READER''"
    by (cases cov) auto
  with all role show ?thesis by auto
qed

text \<open>Normalizing a normalized workspace changes nothing that access control looks at: the same
  organizations, projects with their organizations, active choices and members come back.\<close>
theorem normalize_workspace_stable:
  assumes "names_project s"
  shows "ws_skeleton (normalize_workspace ids' (Some (settings_of (normalize_workspace ids s)))) =
         ws_skeleton (normalize_workspace ids s)"
  by (rule renormalize_skeleton) (rule normalize_workspace_ok [OF assms])

lemma normalize_workspace_stable_witness:
  "ws_skeleton (normalize_workspace no_ids (Some (settings_of (normalize_workspace no_ids (Some demo_settings))))) =
   ws_skeleton (normalize_workspace no_ids (Some demo_settings)) \<and>
   length (ws_members (normalize_workspace no_ids (Some demo_settings))) = 3"
  using normalize_workspace_stable [OF demo_names_project, of no_ids no_ids]
  by (simp only: simp_thms) code_simp

section \<open>What a person sees\<close>

lemma member_role_renormalized:
  assumes "names_project s" and "e \<noteq> []"
  shows "member_role ids (Some (settings_of (normalize_workspace ids s))) (Some e) pid = member_role ids s (Some e) pid"
proof -
  let ?w = "normalize_workspace ids s"
  have ok: "ws_ok ?w" using assms(1) by (rule normalize_workspace_ok)
  have sk: "ws_skeleton (renormalize ids ?w) = ws_skeleton ?w" using ok by (rule renormalize_skeleton)
  have np: "names_project (Some (settings_of ?w))"
    using ok by (cases "ws_projects ?w") (auto simp: names_project_def settings_of_def ws_ok_def)
  have "project_org (ws_projects (renormalize ids ?w)) = project_org (ws_projects ?w)"
    and "ws_members (renormalize ids ?w) = ws_members ?w"
    using sk by (simp_all only: ws_skeleton_def project_org_ids prod.inject)
  then show ?thesis
    unfolding member_role_scan [OF np assms(2)] member_role_scan [OF assms] by simp
qed

text \<open>The lists of a restricted view, with the roles read from the stored settings.\<close>

lemma visible_workspace_lists:
  assumes "names_project s" and "e \<noteq> []" and "v = visible_workspace ids s (Some e) False"
    and "w = normalize_workspace ids s"
    and "ps = filter (\<lambda>p. member_role ids s (Some e) (p_id p) \<noteq> None) (ws_projects w)"
    and "gs = filter (\<lambda>g. o_id g \<in> set (map p_org ps)) (ws_orgs w)"
    and "ms = filter (\<lambda>m. py_lower (mb_email m) = py_lower e
       \<or> (case mb_project m of None \<Rightarrow> False
          | Some q \<Rightarrow> q \<in> set (map p_id (filter (\<lambda>p. role_allows_manage (member_role ids s (Some e) (p_id p))) ps)))
       \<or> mb_org m \<in> set (map o_id (filter (\<lambda>g. role_allows_manage
              (organization_role ids (Some (settings_of w)) (Some e) (o_id g))) (ws_orgs w)))) (ws_members w)"
  shows "ws_projects v = ps \<and> ws_orgs v = gs \<and> ws_members v = ms \<and>
         ws_active_project v = (if ps = [] then ws_active_project w else p_id (hd ps)) \<and>
         ws_active_org v = (if gs = [] then ws_active_org w else o_id (hd gs)) \<and>
         ws_organization v = (if gs = [] then ws_organization w else hd gs)"
proof -
  have role: "member_role ids (Some (settings_of w)) (Some e) pid = member_role ids s (Some e) pid" for pid
    unfolding assms(4) by (rule member_role_renormalized [OF assms(1,2)])
  show ?thesis
    unfolding assms(3) visible_workspace_def assms(4) [symmetric] Let_def role or_str_Some [OF assms(2)]
      assms(5) [symmetric] assms(6) [symmetric] assms(7) [symmetric]
    by simp
qed

text \<open>C17: a restricted view of a workspace holds exactly the projects the person has a role in, only the
  organizations of those projects, and only members the person may know of: themselves, and
  those of projects or organizations they manage.\<close>
theorem visible_workspace_restricted:
  assumes "names_project s" and "e \<noteq> []" and "v = visible_workspace ids s (Some e) False"
    and "w = normalize_workspace ids s"
  shows "ws_projects v = filter (\<lambda>p. member_role ids s (Some e) (p_id p) \<noteq> None) (ws_projects w) \<and>
         (\<forall>g\<in>set (ws_orgs v). \<exists>p\<in>set (ws_projects v). p_org p = o_id g) \<and>
         (\<forall>m\<in>set (ws_members v).
            py_lower (mb_email m) = py_lower e \<or>
            (\<exists>p\<in>set (ws_projects v). mb_project m = Some (p_id p) \<and>
                role_allows_manage (member_role ids s (Some e) (p_id p))) \<or>
            role_allows_manage (organization_role ids (Some (settings_of w)) (Some e) (mb_org m)))"
proof -
  from visible_workspace_lists [OF assms refl refl refl] show ?thesis
    by (simp only:) (auto split: option.splits)
qed

lemma visible_workspace_restricted_witness:
  "ws_projects (visible_workspace no_ids (Some demo_settings) (Some (U ''ann@x.org'')) False) =
   filter (\<lambda>p. member_role no_ids (Some demo_settings) (Some (U ''ann@x.org'')) (p_id p) \<noteq> None)
     (ws_projects (normalize_workspace no_ids (Some demo_settings))) \<and>
   map p_id (ws_projects (visible_workspace no_ids (Some demo_settings) (Some (U ''ann@x.org'')) False)) = [U ''pb'']"
proof
  have ne: "U ''ann@x.org'' \<noteq> []" by code_simp
  from visible_workspace_restricted [OF demo_names_project ne refl refl, of no_ids]
  show "ws_projects (visible_workspace no_ids (Some demo_settings) (Some (U ''ann@x.org'')) False) =
   filter (\<lambda>p. member_role no_ids (Some demo_settings) (Some (U ''ann@x.org'')) (p_id p) \<noteq> None)
     (ws_projects (normalize_workspace no_ids (Some demo_settings)))" by blast
  show "map p_id (ws_projects (visible_workspace no_ids (Some demo_settings) (Some (U ''ann@x.org'')) False)) = [U ''pb'']"
    by code_simp
qed

section \<open>Where the code does not do what it means to\<close>

text \<open>A person without a role in any project still gets the active organization: the restricted
  view lists no project and no organization, but its organization object, with the name, and the
  ids of the active organization and project are those of the unrestricted workspace.\<close>
theorem visible_workspace_leaks_active_organization:
  assumes "names_project s" and "e \<noteq> []" and "v = visible_workspace ids s (Some e) False"
    and "w = normalize_workspace ids s" and "\<forall>p\<in>set (ws_projects w). member_role ids s (Some e) (p_id p) = None"
  shows "ws_projects v = [] \<and> ws_orgs v = [] \<and> ws_organization v = ws_organization w \<and>
         ws_active_org v = ws_active_org w \<and> ws_active_project v = ws_active_project w"
proof -
  have none: "filter (\<lambda>p. member_role ids s (Some e) (p_id p) \<noteq> None) (ws_projects w) = []"
    using assms(5) by (simp add: filter_empty_conv)
  from visible_workspace_lists [OF assms(1-4) none [symmetric] refl refl] show ?thesis by simp
qed

lemma visible_workspace_leaks_active_organization_witness:
  "(let v = visible_workspace no_ids (Some demo_settings) (Some (U ''eve@y.org'')) False
    in ws_projects v = [] \<and> ws_organization v = ws_organization (normalize_workspace no_ids (Some demo_settings)) \<and>
       o_name (ws_organization v) = U ''Alpha'')"
proof -
  have ne: "U ''eve@y.org'' \<noteq> []" by code_simp
  have none: "\<forall>p\<in>set (ws_projects (normalize_workspace no_ids (Some demo_settings))).
      member_role no_ids (Some demo_settings) (Some (U ''eve@y.org'')) (p_id p) = None" by code_simp
  have name: "o_name (ws_organization (normalize_workspace no_ids (Some demo_settings))) = U ''Alpha''" by code_simp
  from visible_workspace_leaks_active_organization [OF demo_names_project ne refl refl none] name
  show ?thesis by (simp add: Let_def)
qed

text \<open>A membership of an organization that no longer exists is moved to the active organization with
  its role: an owner of a vanished organization becomes owner of the active one's projects.\<close>
theorem orphan_owner_rehomed:
  "member_role no_ids (Some (demo_settings\<lparr>st_members := [raw_member_of ''eve@y.org'' ''owner'' ''active'' None ''gone'']\<rparr>))
     (Some (U ''eve@y.org'')) (U ''pa'') = Some (U ''OWNER'')"
  by code_simp

text \<open>\<open>create_project\<close> makes the project's organization active but leaves the organization shown as it
  was, unlike every other operation that changes the active organization.\<close>
theorem create_project_shows_stale_organization:
  "(let w = create_project no_ids (Some demo_settings) (U ''B'') (Some (U ''new'')) (U ''1'')
    in ws_active_org w = U ''B'' \<and> o_id (ws_organization w) = U ''A'')"
  by code_simp

end
