(* ===== verification/Scoring.thy ===== *)
theory Scoring
  imports Prelude "HOL-Library.Multiset"
begin

text \<open>
  Hybrid retrieval scores (mem0/utils/scoring.py): the parameters of the keyword sigmoid, the
  sigmoid, and the additive ranking of candidates. Scores are exact rationals where the code has
  doubles; the sigmoid, which needs the exponential, is a function on the reals. Memory ids are
  strings, the form in which the code looks them up.
\<close>

section \<open>Keyword scores\<close>

text \<open>\<open>len(text.split())\<close>.\<close>

fun count_words :: "bool \<Rightarrow> pystr \<Rightarrow> nat" where
  "count_words in_word [] = 0"
| "count_words in_word (c # cs) =
    (if is_space c then count_words False cs
     else (if in_word then 0 else 1) + count_words True cs)"

definition get_bm25_params :: "(pystr \<Rightarrow> pystr) \<Rightarrow> pystr \<Rightarrow> pystr option \<Rightarrow> rat \<times> rat" where
  "get_bm25_params lemmatize query lemmatized =
    (let lem = (case lemmatized of None \<Rightarrow> lemmatize query | Some x \<Rightarrow> x);
         num_terms = (if lem = [] then 1 else count_words False lem)
     in if num_terms \<le> 3 then (5, 7 / 10)
        else if num_terms \<le> 6 then (7, 6 / 10)
        else if num_terms \<le> 9 then (9, 5 / 10)
        else if num_terms \<le> 15 then (10, 5 / 10)
        else (12, 5 / 10))"

definition normalize_bm25 :: "real \<Rightarrow> real \<Rightarrow> real \<Rightarrow> real" where
  "normalize_bm25 raw midpoint steepness = 1 / (1 + exp (- steepness * (raw - midpoint)))"

section \<open>Ranking\<close>

record 'p candidate =
  cd_id :: "pystr option"
  cd_score :: "rat option"
  cd_payload :: "'p option"

record score_details =
  sd_semantic :: rat
  sd_bm25 :: rat
  sd_entity :: rat
  sd_raw :: rat
  sd_max :: rat
  sd_final :: rat
  sd_threshold :: rat

record 'p scored =
  sc_id :: pystr
  sc_score :: rat
  sc_payload :: "'p option"
  sc_details :: "score_details option"

definition entity_boost_weight :: rat where
  "entity_boost_weight = 1 / 2"

definition max_possible :: "(pystr \<times> rat) list \<Rightarrow> (pystr \<times> rat) list \<Rightarrow> rat" where
  "max_possible bm25 entity =
    1 + (if bm25 = [] then 0 else 1) + (if entity = [] then 0 else entity_boost_weight)"

text \<open>\<open>scores.get(key, 0.0)\<close>.\<close>

definition get_score :: "(pystr \<times> rat) list \<Rightarrow> pystr \<Rightarrow> rat" where
  "get_score scores key = (case map_of scores key of None \<Rightarrow> 0 | Some x \<Rightarrow> x)"

definition semantic_of :: "'p candidate \<Rightarrow> rat" where
  "semantic_of r = (case cd_score r of None \<Rightarrow> 0 | Some x \<Rightarrow> x)"

definition score_candidate ::
  "(pystr \<times> rat) list \<Rightarrow> (pystr \<times> rat) list \<Rightarrow> rat \<Rightarrow> bool \<Rightarrow> 'p candidate \<Rightarrow> 'p scored option" where
  "score_candidate bm25 entity threshold explain r =
    (case cd_id r of
       None \<Rightarrow> None
     | Some mid \<Rightarrow>
         let sem = semantic_of r
         in if sem < threshold then None
            else
              let b = get_score bm25 mid; e = get_score entity mid;
                  raw = sem + b + e; final = min (raw / max_possible bm25 entity) 1
              in Some \<lparr>sc_id = mid, sc_score = final, sc_payload = cd_payload r,
                       sc_details = (if explain then Some \<lparr>sd_semantic = sem, sd_bm25 = b, sd_entity = e, sd_raw = raw,
                          sd_max = max_possible bm25 entity, sd_final = final, sd_threshold = threshold\<rparr> else None)\<rparr>)"

text \<open>\<open>xs[:k]\<close>, which counts from the end when \<open>k\<close> is negative.\<close>

definition py_prefix :: "int \<Rightarrow> 'a list \<Rightarrow> 'a list" where
  "py_prefix k xs = take (nat (if k < 0 then int (length xs) + k else k)) xs"

definition score_and_rank ::
  "'p candidate list \<Rightarrow> (pystr \<times> rat) list \<Rightarrow> (pystr \<times> rat) list \<Rightarrow> rat \<Rightarrow> int \<Rightarrow> bool \<Rightarrow> 'p scored list" where
  "score_and_rank results bm25 entity threshold top_k explain =
    py_prefix top_k
      (sort_key (\<lambda>x. - sc_score x) (List.map_filter (score_candidate bm25 entity threshold explain) results))"

section \<open>The sigmoid\<close>

lemma normalize_bm25_bounds: "0 < normalize_bm25 raw m s \<and> normalize_bm25 raw m s < 1"
proof -
  have "0 < exp (- s * (raw - m))" by simp
  moreover from this have "0 < 1 + exp (- s * (raw - m))" by (rule add_pos_pos [OF zero_less_one])
  ultimately show ?thesis by (simp only: normalize_bm25_def zero_less_divide_1_iff divide_less_eq_1_pos) simp
qed

lemma normalize_bm25_mono:
  assumes "0 < s" and "x < y"
  shows "normalize_bm25 x m s < normalize_bm25 y m s"
proof -
  have "- s * (y - m) < - s * (x - m)" using assms by simp
  then have lt: "exp (- s * (y - m)) < exp (- s * (x - m))" by (simp only: exp_less_mono)
  have "1 / (1 + exp (- s * (x - m))) < 1 / (1 + exp (- s * (y - m)))"
  proof (rule divide_strict_left_mono)
    show "1 + exp (- s * (y - m)) < 1 + exp (- s * (x - m))" using lt by simp
    show "0 < (1 + exp (- s * (x - m))) * (1 + exp (- s * (y - m)))"
      by (intro mult_pos_pos) (simp_all add: add_pos_pos)
  qed simp
  then show ?thesis by (simp only: normalize_bm25_def)
qed

text \<open>The keyword score is a probability-like weight: strictly between 0 and 1, one half at the
  midpoint, and strictly increasing in the raw score.\<close>
theorem normalize_bm25_sigmoid:
  assumes "0 < steepness" and "x < y"
  shows "0 < normalize_bm25 x midpoint steepness \<and> normalize_bm25 y midpoint steepness < 1 \<and>
         normalize_bm25 midpoint midpoint steepness = 1 / 2 \<and>
         normalize_bm25 x midpoint steepness < normalize_bm25 y midpoint steepness"
  using normalize_bm25_bounds normalize_bm25_mono [OF assms] by (simp add: normalize_bm25_def)

lemma normalize_bm25_sigmoid_witness:
  "normalize_bm25 4 5 (7 / 10) < normalize_bm25 6 5 (7 / 10) \<and> normalize_bm25 5 5 (7 / 10) = 1 / 2"
  using normalize_bm25_sigmoid [of "7 / 10" 4 6 5] by simp

section \<open>The ranking\<close>

lemma score_candidateD:
  assumes "score_candidate bm25 entity threshold explain r = Some x"
  shows "cd_id r = Some (sc_id x) \<and> threshold \<le> semantic_of r \<and> sc_payload x = cd_payload r \<and>
         sc_score x = min ((semantic_of r + get_score bm25 (sc_id x) + get_score entity (sc_id x)) / max_possible bm25 entity) 1"
  using assms by (auto simp: score_candidate_def Let_def split: option.splits if_splits)

lemma max_possible_pos: "0 < max_possible bm25 entity"
  by (simp add: max_possible_def entity_boost_weight_def)

lemma get_score_le:
  assumes "\<forall>x\<in>snd ` set scores. x \<le> w" and "0 \<le> w"
  shows "get_score scores key \<le> (if scores = [] then 0 else w)"
proof (cases "map_of scores key")
  case None
  with assms show ?thesis by (simp add: get_score_def)
next
  case (Some x)
  then have "x \<in> snd ` set scores" by (force dest: map_of_SomeD)
  with assms Some show ?thesis by (auto simp: get_score_def)
qed

lemma sorted_desc: "sorted (map (\<lambda>x. - f x) xs) \<Longrightarrow> sorted_wrt (\<lambda>x y. (f y :: rat) \<le> f x) xs"
  by (simp add: sorted_map sorted_wrt_map)

text \<open>C20: the ranking returns the best candidates, best first. What it returns is sorted by score, comes
  from a candidate with an id whose own similarity reaches the threshold, whatever its boosts, and
  no candidate it leaves out has a higher score than one it returns.\<close>
theorem score_and_rank_best:
  assumes "out = score_and_rank results bm25 entity threshold top_k explain"
    and "cands = List.map_filter (score_candidate bm25 entity threshold explain) results"
  shows "sorted_wrt (\<lambda>x y. sc_score y \<le> sc_score x) out \<and>
         (\<forall>x\<in>set out. \<exists>r\<in>set results. cd_id r = Some (sc_id x) \<and> threshold \<le> semantic_of r) \<and>
         (\<exists>rest. mset cands = mset out + mset rest \<and> (\<forall>x\<in>set out. \<forall>y\<in>set rest. sc_score y \<le> sc_score x)) \<and>
         (0 \<le> top_k \<longrightarrow> length out = min (nat top_k) (length cands))"
proof -
  define srt where "srt = sort_key (\<lambda>x. - sc_score x) cands"
  define n where "n = nat (if top_k < 0 then int (length cands) + top_k else top_k)"
  have out: "out = take n srt"
    by (simp add: assms score_and_rank_def py_prefix_def srt_def n_def)
  have "sorted (map (\<lambda>x. - sc_score x) srt)" unfolding srt_def by (rule sorted_sort_key)
  then have sw: "sorted_wrt (\<lambda>x y. sc_score y \<le> sc_score x) srt" by (rule sorted_desc)
  have split: "take n srt @ drop n srt = srt" by simp
  have sorted: "sorted_wrt (\<lambda>x y. sc_score y \<le> sc_score x) out" unfolding out using sw by (rule sorted_wrt_take)
  moreover have "\<exists>r\<in>set results. cd_id r = Some (sc_id x) \<and> threshold \<le> semantic_of r" if "x \<in> set out" for x
  proof -
    have "x \<in> set cands" using that by (auto simp: out srt_def dest: in_set_takeD)
    then obtain r where "r \<in> set results" "score_candidate bm25 entity threshold explain r = Some x"
      by (auto simp: assms(2) List.map_filter_def)
    then show ?thesis by (auto dest: score_candidateD)
  qed
  moreover have "mset cands = mset out + mset (drop n srt)"
    unfolding out by (metis split mset_append mset_sort srt_def)
  moreover have "sc_score y \<le> sc_score x" if "x \<in> set out" "y \<in> set (drop n srt)" for x y
  proof -
    have "sorted_wrt (\<lambda>x y. sc_score y \<le> sc_score x) (take n srt @ drop n srt)" using sw by simp
    then show ?thesis using that unfolding sorted_wrt_append out by blast
  qed
  moreover have "length out = min (nat top_k) (length cands)" if "0 \<le> top_k"
    using that by (simp add: out n_def srt_def min.commute)
  ultimately show ?thesis by blast
qed

definition demo_candidates :: "unit candidate list" where
  "demo_candidates =
    [\<lparr>cd_id = Some (U ''m1''), cd_score = Some (1 / 2), cd_payload = None\<rparr>,
     \<lparr>cd_id = Some (U ''m2''), cd_score = Some (1 / 10), cd_payload = None\<rparr>,
     \<lparr>cd_id = Some (U ''m3''), cd_score = Some (4 / 10), cd_payload = None\<rparr>,
     \<lparr>cd_id = None, cd_score = Some 1, cd_payload = None\<rparr>]"

lemma score_and_rank_best_witness:
  "map sc_id (score_and_rank demo_candidates [(U ''m2'', 1), (U ''m3'', 1)] [] (2 / 10) 2 False) = [U ''m3'', U ''m1''] \<and>
   sorted_wrt (\<lambda>x y. sc_score y \<le> sc_score x)
     (score_and_rank demo_candidates [(U ''m2'', 1), (U ''m3'', 1)] [] (2 / 10) 2 False)"
proof
  show "map sc_id (score_and_rank demo_candidates [(U ''m2'', 1), (U ''m3'', 1)] [] (2 / 10) 2 False) = [U ''m3'', U ''m1'']"
    by code_simp
  show "sorted_wrt (\<lambda>x y. sc_score y \<le> sc_score x)
     (score_and_rank demo_candidates [(U ''m2'', 1), (U ''m3'', 1)] [] (2 / 10) 2 False)"
    using score_and_rank_best [OF refl refl, of demo_candidates "[(U ''m2'', 1), (U ''m3'', 1)]" "[]" "2 / 10" 2 False] by blast
qed

text \<open>The divisor is the largest total the active signals can reach: when every signal stays in its
  range the cap at 1 never acts, so it never makes two different totals equal.\<close>
theorem score_never_clipped:
  assumes "score_candidate bm25 entity threshold explain r = Some x"
    and "semantic_of r \<le> 1" and "\<forall>b\<in>snd ` set bm25. b \<le> 1" and "\<forall>e\<in>snd ` set entity. e \<le> entity_boost_weight"
  shows "sc_score x = (semantic_of r + get_score bm25 (sc_id x) + get_score entity (sc_id x)) / max_possible bm25 entity"
proof -
  have "get_score bm25 (sc_id x) \<le> (if bm25 = [] then 0 else 1)" using assms(3) by (intro get_score_le) simp_all
  moreover have "get_score entity (sc_id x) \<le> (if entity = [] then 0 else entity_boost_weight)"
    using assms(4) by (intro get_score_le) (simp_all add: entity_boost_weight_def)
  ultimately have "semantic_of r + get_score bm25 (sc_id x) + get_score entity (sc_id x) \<le> max_possible bm25 entity"
    using assms(2) by (simp add: max_possible_def)
  then have "(semantic_of r + get_score bm25 (sc_id x) + get_score entity (sc_id x)) / max_possible bm25 entity \<le> 1"
    using max_possible_pos by simp
  with score_candidateD [OF assms(1)] show ?thesis by (simp add: min_def)
qed

lemma score_never_clipped_witness:
  "\<exists>x. score_candidate [(U ''m1'', 1)] [] 0 False (hd demo_candidates) = Some x \<and> sc_score x = 3 / 4"
proof -
  obtain x where x: "score_candidate [(U ''m1'', 1)] [] 0 False (hd demo_candidates) = Some x" "sc_id x = U ''m1''"
  proof -
    have "map_option sc_id (score_candidate [(U ''m1'', 1)] [] 0 False (hd demo_candidates)) = Some (U ''m1'')"
      by code_simp
    then show ?thesis using that by auto
  qed
  have "semantic_of (hd demo_candidates) \<le> 1" by code_simp
  from score_never_clipped [OF x(1) this] x show ?thesis
    by (simp add: demo_candidates_def semantic_of_def get_score_def max_possible_def)
qed

end
