(* ===== verification/Usage.thy ===== *)
theory Usage
  imports Workspace_Laws "HOL-Library.List_Lexorder" "HOL-Library.Product_Lexorder"
begin

text \<open>
  Request metering and quotas (server/usage_service.py, server/project_scope.py): the classes of
  operations, quota periods, the policies that apply to a request, how much of one is used, and
  the checks that refuse a request or a write. A request log and the policies are lists of rows;
  a UTC \<open>datetime\<close> is its civil fields, compared in order.
\<close>

section \<open>Project ids\<close>

definition project_id_char :: "int \<Rightarrow> bool" where
  "project_id_char c =
    (97 \<le> c \<and> c \<le> 122 \<or> 65 \<le> c \<and> c \<le> 90 \<or> 48 \<le> c \<and> c \<le> 57 \<or> c = 46 \<or> c = 95 \<or> c = 45)"

definition normalize_project_id :: "pystr option \<Rightarrow> pystr" where
  "normalize_project_id v =
    (let candidate = take 128 (py_strip (or_str v default_project_id))
     in if candidate = [] then default_project_id
        else or_str (Some (filter project_id_char candidate)) default_project_id)"

definition get_project_id :: "pystr option \<Rightarrow> pystr option \<Rightarrow> pystr option \<Rightarrow> pystr" where
  "get_project_id state header query =
    normalize_project_id (case given state of Some x \<Rightarrow> Some x
      | None \<Rightarrow> (case given header of Some x \<Rightarrow> Some x | None \<Rightarrow> query))"

section \<open>Operations\<close>

definition starts_with :: "pystr \<Rightarrow> pystr \<Rightarrow> bool" where
  "starts_with s prefix = (take (length prefix) s = prefix)"

text \<open>\<open>str.upper\<close> on the ASCII letters an HTTP method consists of.\<close>

definition py_upper :: "pystr \<Rightarrow> pystr" where
  "py_upper s = map (\<lambda>c. if 97 \<le> c \<and> c \<le> 122 then c - 32 else c) s"

definition rstrip_slash :: "pystr \<Rightarrow> pystr" where
  "rstrip_slash p = rev (dropWhile (\<lambda>c. c = 47) (rev p))"

datatype operation = MemoryRead | MemoryWrite | MemorySearch | ApiRequest

definition classify_operation :: "pystr \<Rightarrow> pystr \<Rightarrow> operation" where
  "classify_operation verb path =
    (let m = py_upper verb; p = or_str (Some (rstrip_slash path)) (U ''/'')
     in if m = U ''POST'' \<and> p = U ''/memories/query'' then MemoryRead
        else if m \<in> {U ''POST'', U ''PUT'', U ''PATCH''} \<and>
                (p = U ''/memories'' \<or> starts_with p (U ''/memories/'') \<or> p = U ''/v3/memories/add'') then MemoryWrite
        else if m = U ''POST'' \<and> p \<in> {U ''/search'', U ''/v3/memories/search''} then MemorySearch
        else if m \<in> {U ''GET'', U ''POST''} \<and> p \<in> {U ''/memories'', U ''/v3/memories''} then MemoryRead
        else ApiRequest)"

definition metric_for_operation :: "operation \<Rightarrow> pystr option" where
  "metric_for_operation oper =
    (case oper of MemoryWrite \<Rightarrow> Some (U ''memory_writes'') | MemorySearch \<Rightarrow> Some (U ''memory_searches'') | _ \<Rightarrow> None)"

section \<open>Periods\<close>

record civil =
  cv_year :: int
  cv_month :: int
  cv_day :: int
  cv_hour :: int
  cv_minute :: int
  cv_second :: int
  cv_us :: int

definition civil_key :: "civil \<Rightarrow> int list" where
  "civil_key t = [cv_year t, cv_month t, cv_day t, cv_hour t, cv_minute t, cv_second t, cv_us t]"

definition civil_ok :: "civil \<Rightarrow> bool" where
  "civil_ok t \<longleftrightarrow> 1 \<le> cv_month t \<and> 1 \<le> cv_day t \<and> 0 \<le> cv_hour t \<and> 0 \<le> cv_minute t \<and> 0 \<le> cv_second t \<and> 0 \<le> cv_us t"

definition period_start :: "pystr \<Rightarrow> civil \<Rightarrow> civil option" where
  "period_start period now =
    (if period = U ''minute'' then Some (now\<lparr>cv_second := 0, cv_us := 0\<rparr>)
     else if period = U ''day'' then Some (now\<lparr>cv_hour := 0, cv_minute := 0, cv_second := 0, cv_us := 0\<rparr>)
     else if period = U ''month'' then Some (now\<lparr>cv_day := 1, cv_hour := 0, cv_minute := 0, cv_second := 0, cv_us := 0\<rparr>)
     else None)"

section \<open>Policies and logs\<close>

record quota_policy =
  qp_id :: int
  qp_scope_type :: pystr
  qp_scope_id :: pystr
  qp_project_id :: pystr
  qp_metric :: pystr
  qp_period :: pystr
  qp_limit :: int
  qp_mode :: pystr
  qp_warning :: rat

record request_log =
  rl_method :: pystr
  rl_path :: pystr
  rl_status :: int
  rl_operation :: operation
  rl_project :: "pystr option"
  rl_org :: "pystr option"
  rl_api_key :: "int option"
  rl_actor :: "int option"
  rl_created :: civil

record usage_db =
  ud_policies :: "quota_policy list"
  ud_logs :: "request_log list"
  ud_users :: "(int \<times> pystr) list"

datatype usage_error =
    HttpError int pystr
  | QuotaExceeded quota_policy "int option"
  | StorageQuotaExceeded quota_policy
  | UsageKeyError pystr

definition scope_types :: "pystr list" where
  "scope_types = [U ''organization'', U ''project'', U ''api_key'', U ''member'']"

definition quota_metrics :: "pystr list" where
  "quota_metrics = [U ''api_requests'', U ''memory_writes'', U ''memory_searches'', U ''stored_memories'']"

definition validate_policy_fields ::
  "pystr \<Rightarrow> pystr \<Rightarrow> pystr \<Rightarrow> int \<Rightarrow> pystr \<Rightarrow> rat \<Rightarrow> usage_error + unit" where
  "validate_policy_fields scope_type metric period limit_value mode warning =
    (let stored = U ''stored_memories''; total = U ''total''
     in if scope_type \<notin> set scope_types then Inl (HttpError 422 (U ''Unsupported quota scope.''))
        else if metric \<notin> set quota_metrics then Inl (HttpError 422 (U ''Unsupported quota metric.''))
        else if period \<notin> {U ''minute'', U ''day'', U ''month'', total} then Inl (HttpError 422 (U ''Unsupported quota period.''))
        else if metric = stored \<and> period \<noteq> total then Inl (HttpError 422 (U ''Stored memories only supports the total period.''))
        else if metric \<noteq> stored \<and> period = total then Inl (HttpError 422 (U ''Request quotas require a time period.''))
        else if metric = stored \<and> scope_type \<notin> {U ''organization'', U ''project''}
          then Inl (HttpError 422 (U ''Storage limits are supported for organizations and projects only.''))
        else if limit_value \<le> 0 then Inl (HttpError 422 (U ''Quota limit must be greater than zero.''))
        else if mode \<notin> {U ''monitor'', U ''soft'', U ''hard''} then Inl (HttpError 422 (U ''Unsupported quota mode.''))
        else if \<not> (0 < warning \<and> warning \<le> 1) then Inl (HttpError 422 (U ''Warning threshold must be between 0 and 1.''))
        else Inr ())"

text \<open>\<open>request_log_operation_clause\<close>: old logs of a read through POST were recorded as writes.\<close>

definition legacy_memory_query :: "request_log \<Rightarrow> bool" where
  "legacy_memory_query l =
    (rl_operation l = MemoryWrite \<and> rl_method l = U ''POST'' \<and>
     rl_path l \<in> {U ''/memories/query'', U ''/memories/query/''})"

definition request_log_operation_clause :: "operation \<Rightarrow> request_log \<Rightarrow> bool" where
  "request_log_operation_clause oper l =
    (case oper of
       MemoryWrite \<Rightarrow> rl_operation l = oper \<and> \<not> legacy_memory_query l
     | MemoryRead \<Rightarrow> rl_operation l = oper \<or> legacy_memory_query l
     | _ \<Rightarrow> rl_operation l = oper)"

section \<open>The scope of a request\<close>

record scope_context =
  sx_workspace :: workspace
  sx_organization :: pystr
  sx_project :: pystr
  sx_api_key :: pystr
  sx_member :: pystr

record request_info =
  rq_method :: pystr
  rq_path :: pystr
  rq_project :: pystr
  rq_api_key :: "pystr option"
  rq_actor_email :: "pystr option"
  rq_quota_checked :: bool

definition request_scope_context ::
  "id_source \<Rightarrow> settings option \<Rightarrow> request_info \<Rightarrow> pystr option \<Rightarrow> scope_context" where
  "request_scope_context ids stored rq user_email =
    (let w = normalize_workspace ids stored;
         org = (case find_project ids (Some (settings_of w)) (rq_project rq) of None \<Rightarrow> None | Some p \<Rightarrow> Some (p_org p))
     in \<lparr>sx_workspace = w,
         sx_organization = or_str org (or_str (Some (ws_active_org w)) (U ''org_default'')),
         sx_project = rq_project rq, sx_api_key = or_str (rq_api_key rq) [],
         sx_member = py_lower (or_str (rq_actor_email rq) (or_str user_email []))\<rparr>)"

definition applicable_scope_keys :: "scope_context \<Rightarrow> (pystr \<times> pystr \<times> pystr) list" where
  "applicable_scope_keys ctx =
    [(U ''organization'', sx_organization ctx, []), (U ''project'', sx_project ctx, sx_project ctx)]
    @ (if sx_api_key ctx = [] then [] else [(U ''api_key'', sx_api_key ctx, sx_project ctx)])
    @ (if sx_member ctx = [] then [] else [(U ''member'', py_lower (sx_member ctx), sx_project ctx)])"

definition applicable_policies :: "usage_db \<Rightarrow> scope_context \<Rightarrow> pystr list \<Rightarrow> quota_policy list" where
  "applicable_policies d ctx metrics =
    filter (\<lambda>p. (qp_scope_type p, qp_scope_id p, qp_project_id p) \<in> set (applicable_scope_keys ctx)
                \<and> (metrics = [] \<or> qp_metric p \<in> set metrics)) (ud_policies d)"

definition project_ids_for_organization :: "scope_context \<Rightarrow> pystr \<Rightarrow> pystr list" where
  "project_ids_for_organization ctx org =
    map p_id (filter (\<lambda>p. p_id p \<noteq> [] \<and> p_org p = org) (ws_projects (sx_workspace ctx)))"

text \<open>
  The conjunction of log filters of a policy. An API-key id that is no UUID and a member that is no
  user match nothing. \<open>uuid_of\<close> is \<open>uuid.UUID\<close>, \<open>None\<close> where it raises \<open>ValueError\<close>.
\<close>

definition policy_log_filters ::
  "(pystr \<Rightarrow> int option) \<Rightarrow> quota_policy \<Rightarrow> scope_context \<Rightarrow> usage_db \<Rightarrow> request_log \<Rightarrow> bool" where
  "policy_log_filters uuid_of p ctx d l =
    (if qp_scope_type p = U ''organization'' then
       rl_org l = Some (qp_scope_id p) \<or>
       rl_org l = None \<and> (case rl_project l of None \<Rightarrow> False | Some q \<Rightarrow>
         q \<in> set (let pids = project_ids_for_organization ctx (qp_scope_id p) in if pids = [] then [U ''__none__''] else pids))
     else if qp_scope_type p = U ''project'' then rl_project l = Some (qp_scope_id p)
     else if qp_scope_type p = U ''api_key'' then
       (case uuid_of (qp_scope_id p) of Some k \<Rightarrow> rl_api_key l = Some k | None \<Rightarrow> False)
     else if qp_scope_type p = U ''member'' then
       (case List.find (\<lambda>u. py_lower (snd u) = py_lower (qp_scope_id p)) (ud_users d) of
          None \<Rightarrow> False | Some u \<Rightarrow> rl_actor l = Some (fst u)) \<and> rl_project l = Some (qp_project_id p)
     else True)"

definition metric_operation :: "pystr \<Rightarrow> operation option" where
  "metric_operation metric =
    (if metric = U ''memory_writes'' then Some MemoryWrite
     else if metric = U ''memory_searches'' then Some MemorySearch else None)"

definition counts_log ::
  "(pystr \<Rightarrow> int option) \<Rightarrow> usage_db \<Rightarrow> quota_policy \<Rightarrow> scope_context \<Rightarrow> civil \<Rightarrow> request_log \<Rightarrow> bool" where
  "counts_log uuid_of d p ctx now l =
    (policy_log_filters uuid_of p ctx d l \<and>
     (case period_start (qp_period p) now of None \<Rightarrow> True | Some t \<Rightarrow> civil_key t \<le> civil_key (rl_created l)) \<and>
     (qp_metric p = U ''api_requests'' \<or>
      (case metric_operation (qp_metric p) of None \<Rightarrow> False
       | Some oper \<Rightarrow> request_log_operation_clause oper l \<and> rl_status l < 400)))"

definition policy_usage ::
  "(pystr \<Rightarrow> int option) \<Rightarrow> usage_db \<Rightarrow> quota_policy \<Rightarrow> scope_context \<Rightarrow> civil \<Rightarrow> usage_error + int" where
  "policy_usage uuid_of d p ctx now =
    (if qp_metric p = U ''stored_memories'' then Inr 0
     else if qp_metric p \<noteq> U ''api_requests'' \<and> metric_operation (qp_metric p) = None
       then Inl (UsageKeyError (qp_metric p))
     else Inr (int (rowcount (counts_log uuid_of d p ctx now) (ud_logs d))))"

section \<open>Enforcement\<close>

definition management_prefixes :: "pystr list" where
  "management_prefixes = [U ''/usage'', U ''/auth'', U ''/settings'', U ''/api-keys'']"

text \<open>The loop over the policies, with the warnings so far.\<close>

fun check_policies ::
  "(pystr \<Rightarrow> int option) \<Rightarrow> usage_db \<Rightarrow> scope_context \<Rightarrow> civil \<Rightarrow> quota_policy list
   \<Rightarrow> (pystr \<times> int \<times> int) list \<Rightarrow> usage_error + (pystr \<times> int \<times> int) list" where
  "check_policies uuid_of d ctx now [] warnings = Inr warnings"
| "check_policies uuid_of d ctx now (p # ps) warnings =
    bind_err (policy_usage uuid_of d p ctx now) (\<lambda>used.
      let projected = used + 1
      in if qp_mode p = U ''hard'' \<and> projected > qp_limit p
           then Inl (QuotaExceeded p (if qp_period p = U ''minute'' then Some 60 else None))
         else check_policies uuid_of d ctx now ps
           (if qp_mode p = U ''soft'' \<and> of_int projected \<ge> of_int (qp_limit p) * qp_warning p
            then warnings @ [(qp_metric p, used, qp_limit p)] else warnings))"

definition request_metrics :: "request_info \<Rightarrow> pystr list" where
  "request_metrics rq =
    U ''api_requests'' # (case metric_for_operation (classify_operation (rq_method rq) (rq_path rq)) of
                            None \<Rightarrow> [] | Some m \<Rightarrow> [m])"

definition enforce_request_quotas ::
  "(pystr \<Rightarrow> int option) \<Rightarrow> id_source \<Rightarrow> settings option \<Rightarrow> usage_db \<Rightarrow> request_info \<Rightarrow> pystr option \<Rightarrow> civil
   \<Rightarrow> usage_error + (pystr \<times> int \<times> int) list" where
  "enforce_request_quotas uuid_of ids stored d rq user_email now =
    (if \<exists>m\<in>set management_prefixes. starts_with (rq_path rq) m then Inr []
     else if rq_quota_checked rq then Inr []
     else
       let ctx = request_scope_context ids stored rq user_email
       in check_policies uuid_of d ctx now (applicable_policies d ctx (request_metrics rq)) [])"

fun check_storage ::
  "bool \<Rightarrow> ((pystr \<times> pystr) \<times> int) list \<Rightarrow> quota_policy list \<Rightarrow> (int \<times> int) list \<Rightarrow> usage_error + (int \<times> int) list" where
  "check_storage enforce_hard counts [] warnings = Inr warnings"
| "check_storage enforce_hard counts (p # ps) warnings =
    (let used = (case map_of counts (qp_scope_type p, qp_scope_id p) of None \<Rightarrow> 0 | Some n \<Rightarrow> n)
     in if enforce_hard \<and> qp_mode p = U ''hard'' \<and> used \<ge> qp_limit p then Inl (StorageQuotaExceeded p)
        else check_storage enforce_hard counts ps
          (if qp_mode p = U ''soft'' \<and> of_int used \<ge> of_int (qp_limit p) * qp_warning p
           then warnings @ [(used, qp_limit p)] else warnings))"

definition enforce_storage_quotas ::
  "id_source \<Rightarrow> settings option \<Rightarrow> usage_db \<Rightarrow> request_info \<Rightarrow> pystr option \<Rightarrow> ((pystr \<times> pystr) \<times> int) list \<Rightarrow> bool
   \<Rightarrow> usage_error + (int \<times> int) list" where
  "enforce_storage_quotas ids stored d rq user_email counts enforce_hard =
    (let ctx = request_scope_context ids stored rq user_email
     in check_storage enforce_hard counts (applicable_policies d ctx [U ''stored_memories'']) [])"

end
