(* ===== verification/Usage_Laws.thy ===== *)
theory Usage_Laws
  imports Usage
begin

text \<open>
  What request metering guarantees: project ids are well formed, every logged request has exactly
  one effective class, a period starts at or before now, and a request is let through exactly when
  every hard limit that applies to it has room for one more.
\<close>

section \<open>Project ids\<close>

lemma default_project_id_ok:
  "default_project_id \<noteq> [] \<and> list_all project_id_char default_project_id \<and> length default_project_id \<le> 128
   \<and> py_strip default_project_id = default_project_id"
  by code_simp

lemma project_id_char_not_space: "project_id_char c \<Longrightarrow> \<not> is_space c"
proof
  assume "project_id_char c" and "is_space c"
  moreover have "\<forall>y\<in>set space_codes. \<not> project_id_char y" by code_simp
  ultimately show False by (simp add: is_space_def)
qed

lemma dropWhile_none: "\<forall>x\<in>set xs. \<not> P x \<Longrightarrow> dropWhile P xs = xs"
  by (cases xs) auto

lemma strip_no_spaces: "\<forall>c\<in>set s. \<not> is_space c \<Longrightarrow> py_strip s = s"
  by (simp add: py_strip_def dropWhile_none)

lemma normalize_project_id_shape:
  "normalize_project_id v \<noteq> [] \<and> list_all project_id_char (normalize_project_id v) \<and>
   length (normalize_project_id v) \<le> 128"
proof -
  let ?c = "take 128 (py_strip (or_str v default_project_id))"
  have "length (filter project_id_char ?c) \<le> length ?c" by (rule length_filter_le)
  then have "length (filter project_id_char ?c) \<le> 128" by simp
  moreover have "list_all project_id_char (filter project_id_char ?c)" by (simp add: list_all_iff)
  ultimately show ?thesis
    using default_project_id_ok by (simp add: normalize_project_id_def Let_def or_str_def)
qed

lemma normalize_project_id_fixed:
  assumes "s \<noteq> []" and "list_all project_id_char s" and "length s \<le> 128"
  shows "normalize_project_id (Some s) = s"
proof -
  have "py_strip s = s"
    using assms(2) project_id_char_not_space by (intro strip_no_spaces) (auto simp: list_all_iff)
  moreover have "filter project_id_char s = s" using assms(2) by (simp add: filter_id_conv list_all_iff)
  ultimately show ?thesis using assms by (simp add: normalize_project_id_def Let_def)
qed

text \<open>Whatever project a request names, the project it is served under is a non-empty id of at most
  128 characters from the allowed alphabet, without surrounding blanks, and naming it again
  selects the same project.\<close>
theorem project_id_canonical:
  "get_project_id state header query \<noteq> [] \<and> length (get_project_id state header query) \<le> 128 \<and>
   list_all project_id_char (get_project_id state header query) \<and>
   py_strip (get_project_id state header query) = get_project_id state header query \<and>
   get_project_id (Some (get_project_id state header query)) other1 other2 = get_project_id state header query"
proof -
  obtain v where v: "get_project_id state header query = normalize_project_id v"
    unfolding get_project_id_def by blast
  have "py_strip (normalize_project_id v) = normalize_project_id v"
    using normalize_project_id_shape [of v] project_id_char_not_space
    by (intro strip_no_spaces) (auto simp: list_all_iff)
  moreover have "normalize_project_id (Some (normalize_project_id v)) = normalize_project_id v"
    using normalize_project_id_shape [of v] by (intro normalize_project_id_fixed) simp_all
  ultimately show ?thesis
    using normalize_project_id_shape [of v] unfolding v by (simp add: get_project_id_def given_def)
qed

section \<open>Operations and periods\<close>

text \<open>Counting logs by class never counts a request twice or drops one: every log row matches the
  clause of exactly one class, old read rows logged as writes included.\<close>
theorem log_has_one_operation:
  "\<exists>!oper. request_log_operation_clause oper l"
proof (cases "legacy_memory_query l")
  case True
  then have "rl_operation l = MemoryWrite" by (simp add: legacy_memory_query_def)
  with True have "request_log_operation_clause oper l \<longleftrightarrow> oper = MemoryRead" for oper
    by (cases oper) (simp_all add: request_log_operation_clause_def)
  then show ?thesis by simp
next
  case False
  then have "request_log_operation_clause oper l \<longleftrightarrow> rl_operation l = oper" for oper
    by (cases oper) (simp_all add: request_log_operation_clause_def)
  then show ?thesis by simp
qed

text \<open>A quota period begins at or before now, and every instant from its beginning to now is in the
  same period.\<close>
theorem period_start_bounds:
  assumes "civil_ok now" and "period_start period now = Some t"
  shows "civil_key t \<le> civil_key now \<and> period_start period t = Some t"
proof -
  have "civil_key (now\<lparr>cv_second := 0, cv_us := 0\<rparr>) \<le> civil_key now"
    "civil_key (now\<lparr>cv_hour := 0, cv_minute := 0, cv_second := 0, cv_us := 0\<rparr>) \<le> civil_key now"
    "civil_key (now\<lparr>cv_day := 1, cv_hour := 0, cv_minute := 0, cv_second := 0, cv_us := 0\<rparr>) \<le> civil_key now"
    using assms(1) by (simp_all add: civil_key_def civil_ok_def) linarith+
  with assms(2) show ?thesis by (auto simp: period_start_def split: if_splits)
qed

lemma period_start_bounds_witness:
  "civil_key \<lparr>cv_year = 2026, cv_month = 3, cv_day = 1, cv_hour = 0, cv_minute = 0, cv_second = 0, cv_us = 0\<rparr>
   \<le> civil_key \<lparr>cv_year = 2026, cv_month = 3, cv_day = 9, cv_hour = 4, cv_minute = 5, cv_second = 6, cv_us = 7\<rparr>"
  using period_start_bounds
    [of "\<lparr>cv_year = 2026, cv_month = 3, cv_day = 9, cv_hour = 4, cv_minute = 5, cv_second = 6, cv_us = 7\<rparr>" "U ''month''"
        "\<lparr>cv_year = 2026, cv_month = 3, cv_day = 1, cv_hour = 0, cv_minute = 0, cv_second = 0, cv_us = 0\<rparr>"]
  by (simp add: civil_ok_def period_start_def U_def)

section \<open>Enforcement\<close>

definition has_room :: "(pystr \<Rightarrow> int option) \<Rightarrow> usage_db \<Rightarrow> scope_context \<Rightarrow> civil \<Rightarrow> quota_policy \<Rightarrow> bool" where
  "has_room uuid_of d ctx now p =
    (case policy_usage uuid_of d p ctx now of Inl _ \<Rightarrow> False | Inr used \<Rightarrow> used + 1 \<le> qp_limit p)"

lemma check_policies_Inr:
  assumes "\<forall>p\<in>set ps. \<exists>n. policy_usage uuid_of d p ctx now = Inr n"
  shows "(\<exists>ws. check_policies uuid_of d ctx now ps warnings = Inr ws) \<longleftrightarrow>
         (\<forall>p\<in>set ps. qp_mode p = U ''hard'' \<longrightarrow> has_room uuid_of d ctx now p)"
  using assms
proof (induction ps arbitrary: warnings)
  case (Cons p ps)
  from Cons.prems obtain n where n: "policy_usage uuid_of d p ctx now = Inr n" by auto
  show ?case
  proof (cases "qp_mode p = U ''hard'' \<and> n + 1 > qp_limit p")
    case True
    with n show ?thesis by (simp add: has_room_def)
  next
    case False
    with n Cons.IH Cons.prems show ?thesis by (auto simp: has_room_def Let_def)
  qed
qed simp

lemma check_policies_Inl:
  "check_policies uuid_of d ctx now ps warnings = Inl (QuotaExceeded p retry) \<Longrightarrow>
   p \<in> set ps \<and> qp_mode p = U ''hard'' \<and> \<not> has_room uuid_of d ctx now p"
proof (induction ps arbitrary: warnings)
  case (Cons q ps)
  show ?case
  proof (cases "policy_usage uuid_of d q ctx now")
    case (Inl e)
    with Cons.prems have "e = QuotaExceeded p retry" by simp
    with Inl show ?thesis by (simp add: policy_usage_def split: if_splits)
  next
    case (Inr n)
    with Cons show ?thesis by (auto simp: has_room_def Let_def split: if_splits)
  qed
qed simp

text \<open>The policies that speak about requests.\<close>

lemma request_metrics_counted:
  assumes "qp_metric p \<in> set (request_metrics rq)"
  shows "\<exists>n. policy_usage uuid_of d p ctx now = Inr n"
proof -
  have "\<forall>m\<in>{U ''api_requests'', U ''memory_writes'', U ''memory_searches''}.
          m = U ''api_requests'' \<or> metric_operation m \<noteq> None" by code_simp
  moreover have "qp_metric p \<in> {U ''api_requests'', U ''memory_writes'', U ''memory_searches''}"
    using assms by (auto simp: request_metrics_def metric_for_operation_def split: operation.splits)
  ultimately have "qp_metric p = U ''api_requests'' \<or> metric_operation (qp_metric p) \<noteq> None" by blast
  then show ?thesis by (auto simp: policy_usage_def)
qed

text \<open>C19: a request is let through exactly when every hard limit that applies to it (to its organization,
  project, API key or member, for requests or for its kind of operation) leaves room for one
  more; a refusal names a hard limit that is used up.\<close>
theorem request_admitted_iff_room:
  assumes "\<not> (\<exists>m\<in>set management_prefixes. starts_with (rq_path rq) m)" and "\<not> rq_quota_checked rq"
    and "ctx = request_scope_context ids stored rq user_email"
  shows "((\<exists>ws. enforce_request_quotas uuid_of ids stored d rq user_email now = Inr ws) \<longleftrightarrow>
          (\<forall>p\<in>set (applicable_policies d ctx (request_metrics rq)).
             qp_mode p = U ''hard'' \<longrightarrow> has_room uuid_of d ctx now p)) \<and>
         (\<forall>p retry. enforce_request_quotas uuid_of ids stored d rq user_email now = Inl (QuotaExceeded p retry) \<longrightarrow>
             p \<in> set (applicable_policies d ctx (request_metrics rq)) \<and> qp_mode p = U ''hard'' \<and>
             \<not> has_room uuid_of d ctx now p)"
proof -
  have run: "enforce_request_quotas uuid_of ids stored d rq user_email now =
      check_policies uuid_of d ctx now (applicable_policies d ctx (request_metrics rq)) []"
    using assms by (simp add: enforce_request_quotas_def Let_def)
  have "request_metrics rq \<noteq> []" by (simp add: request_metrics_def)
  then have "\<forall>p\<in>set (applicable_policies d ctx (request_metrics rq)). \<exists>n. policy_usage uuid_of d p ctx now = Inr n"
    by (auto simp: applicable_policies_def intro: request_metrics_counted)
  from check_policies_Inr [OF this] check_policies_Inl show ?thesis unfolding run by blast
qed

definition demo_policy :: quota_policy where
  "demo_policy = \<lparr>qp_id = 1, qp_scope_type = U ''project'', qp_scope_id = U ''pa'', qp_project_id = U ''pa'',
     qp_metric = U ''memory_writes'', qp_period = U ''day'', qp_limit = 1, qp_mode = U ''hard'', qp_warning = 1\<rparr>"

definition demo_now :: civil where
  "demo_now = \<lparr>cv_year = 2026, cv_month = 3, cv_day = 9, cv_hour = 4, cv_minute = 5, cv_second = 6, cv_us = 7\<rparr>"

definition demo_log :: request_log where
  "demo_log = \<lparr>rl_method = U ''POST'', rl_path = U ''/memories'', rl_status = 200, rl_operation = MemoryWrite,
     rl_project = Some (U ''pa''), rl_org = None, rl_api_key = None, rl_actor = None, rl_created = demo_now\<rparr>"

definition demo_usage_db :: usage_db where
  "demo_usage_db = \<lparr>ud_policies = [demo_policy], ud_logs = [demo_log], ud_users = []\<rparr>"

definition demo_request :: request_info where
  "demo_request = \<lparr>rq_method = U ''post'', rq_path = U ''/memories/'', rq_project = U ''pa'', rq_api_key = None,
     rq_actor_email = None, rq_quota_checked = False\<rparr>"

lemma request_admitted_iff_room_witness:
  "\<not> (\<exists>ws. enforce_request_quotas (\<lambda>_. None) no_ids (Some demo_settings) demo_usage_db demo_request None demo_now = Inr ws)"
proof -
  let ?ctx = "request_scope_context no_ids (Some demo_settings) demo_request None"
  have path: "\<not> (\<exists>m\<in>set management_prefixes. starts_with (rq_path demo_request) m)" by code_simp
  have fresh: "\<not> rq_quota_checked demo_request" by (simp add: demo_request_def)
  have "list_ex (\<lambda>p. qp_mode p = U ''hard'' \<and> \<not> has_room (\<lambda>_. None) demo_usage_db ?ctx demo_now p)
    (applicable_policies demo_usage_db ?ctx (request_metrics demo_request))"
    by code_simp
  then obtain p where "p \<in> set (applicable_policies demo_usage_db ?ctx (request_metrics demo_request))"
    "qp_mode p = U ''hard''" "\<not> has_room (\<lambda>_. None) demo_usage_db ?ctx demo_now p"
    by (auto simp: list_ex_iff)
  with request_admitted_iff_room [OF path fresh refl, where ids = no_ids and stored = "Some demo_settings" and user_email = None
      and uuid_of = "\<lambda>_. None" and d = demo_usage_db and now = demo_now]
  show ?thesis by blast
qed

lemma if_Inl_eq_Inr: "(if c then Inl e else x) = Inr y \<longleftrightarrow> \<not> c \<and> x = Inr y"
  by simp

text \<open>What a policy may say. The validation accepts exactly the policies over known scopes, metrics,
  periods and modes with a positive limit and a threshold in (0, 1], where stored memories are
  limited in total, per organization or project, and requests per period.\<close>
theorem policy_fields_accepted_iff:
  "validate_policy_fields scope_type metric period limit_value mode warning = Inr () \<longleftrightarrow>
   scope_type \<in> set scope_types \<and> metric \<in> set quota_metrics \<and>
   period \<in> {U ''minute'', U ''day'', U ''month'', U ''total''} \<and>
   (metric = U ''stored_memories'' \<longleftrightarrow> period = U ''total'') \<and>
   (metric = U ''stored_memories'' \<longrightarrow> scope_type \<in> {U ''organization'', U ''project''}) \<and>
   0 < limit_value \<and> mode \<in> {U ''monitor'', U ''soft'', U ''hard''} \<and> 0 < warning \<and> warning \<le> 1"
  unfolding validate_policy_fields_def Let_def if_Inl_eq_Inr not_le by blast

lemma policy_fields_accepted_iff_witness:
  "validate_policy_fields (U ''project'') (U ''stored_memories'') (U ''total'') 10 (U ''hard'') 1 = Inr () \<and>
   validate_policy_fields (U ''member'') (U ''stored_memories'') (U ''total'') 10 (U ''hard'') 1 \<noteq> Inr ()"
proof
  have "U ''project'' \<in> set scope_types \<and> U ''stored_memories'' \<in> set quota_metrics"
    by (simp add: scope_types_def quota_metrics_def)
  then show "validate_policy_fields (U ''project'') (U ''stored_memories'') (U ''total'') 10 (U ''hard'') 1 = Inr ()"
    unfolding policy_fields_accepted_iff by simp
  have "U ''member'' \<noteq> U ''organization'' \<and> U ''member'' \<noteq> U ''project''" by code_simp
  then show "validate_policy_fields (U ''member'') (U ''stored_memories'') (U ''total'') 10 (U ''hard'') 1 \<noteq> Inr ()"
    unfolding policy_fields_accepted_iff by simp
qed

end
