(* ===== verification/Import_Quota.thy ===== *)
theory Import_Quota
  imports Usage_Laws
begin

text \<open>
  Storage quotas of an import (server/import_quota.py): the snapshot of hard policies taken when a
  job is created, its validation when the job runs, and the guard that serializes the check of a
  write against every policy of its snapshot. A lock is its resource's name; the guard keeps the
  locks it holds, newest first. Counting a project's memories and listing an organization's
  projects are functions the caller supplies.
\<close>

section \<open>Snapshots\<close>

record storage_policy =
  sp_id :: int
  sp_scope_type :: pystr
  sp_scope_id :: pystr
  sp_limit :: int

text \<open>A snapshot as stored: a version and, when it is a list, the entries; an entry that is no object is \<open>None\<close>.\<close>

record raw_storage_policy =
  rs_id :: "pystr option"
  rs_scope_type :: "pystr option"
  rs_scope_id :: "pystr option"
  rs_limit :: "int option"

record snapshot =
  sn_version :: "int option"
  sn_policies :: "raw_storage_policy option list option"

definition storage_order :: "storage_policy \<Rightarrow> pystr \<times> pystr \<times> int" where
  "storage_order p = (sp_scope_type p, sp_scope_id p, sp_id p)"

definition bypass_auth_types :: "pystr list" where
  "bypass_auth_types = [U ''admin_api_key'', U ''disabled'']"

text \<open>\<open>uuid_text\<close> is \<open>str\<close> of a UUID.\<close>

definition capture_import_storage_quota_snapshot ::
  "(int \<Rightarrow> pystr) \<Rightarrow> pystr \<Rightarrow> id_source \<Rightarrow> settings option \<Rightarrow> usage_db \<Rightarrow> request_info \<Rightarrow> pystr option \<Rightarrow> snapshot option" where
  "capture_import_storage_quota_snapshot uuid_text auth_type ids stored d rq user_email =
    (if auth_type \<in> set bypass_auth_types then None
     else
       let ctx = request_scope_context ids stored rq user_email;
           ps = filter (\<lambda>p. qp_mode p = U ''hard'' \<and> qp_scope_type p \<in> {U ''organization'', U ''project''})
                  (applicable_policies d ctx [U ''stored_memories'']);
           ps' = sort_key (\<lambda>p. (qp_scope_type p, qp_scope_id p, qp_id p)) ps
       in Some \<lparr>sn_version = Some 1,
                sn_policies = Some (map (\<lambda>p. Some \<lparr>rs_id = Some (uuid_text (qp_id p)), rs_scope_type = Some (qp_scope_type p),
                    rs_scope_id = Some (qp_scope_id p), rs_limit = Some (qp_limit p)\<rparr>) ps')\<rparr>)"

datatype guard_error =
    GuardValueError pystr
  | GuardRuntimeError pystr
  | ImportStorageQuotaExceeded pystr pystr int int int

definition invalid_policy :: guard_error where
  "invalid_policy = GuardValueError (U ''Memory-import storage quota snapshot policy is invalid.'')"

definition parse_policy :: "(pystr \<Rightarrow> int option) \<Rightarrow> raw_storage_policy \<Rightarrow> guard_error + storage_policy" where
  "parse_policy uuid_of r =
    (case (case rs_id r of None \<Rightarrow> None | Some x \<Rightarrow> uuid_of x, rs_scope_type r, rs_scope_id r, rs_limit r) of
       (Some i, Some t, Some sid, Some cap) \<Rightarrow>
         if t \<notin> {U ''organization'', U ''project''} \<or> py_strip sid = [] \<or> cap \<le> 0 then Inl invalid_policy
         else Inr \<lparr>sp_id = i, sp_scope_type = t, sp_scope_id = py_strip sid, sp_limit = cap\<rparr>
     | _ \<Rightarrow> Inl invalid_policy)"

fun parse_policies ::
  "(pystr \<Rightarrow> int option) \<Rightarrow> int list \<Rightarrow> raw_storage_policy option list \<Rightarrow> guard_error + storage_policy list" where
  "parse_policies uuid_of seen [] = Inr []"
| "parse_policies uuid_of seen (None # xs) =
    Inl (GuardValueError (U ''Memory-import storage quota snapshot policy must be an object.''))"
| "parse_policies uuid_of seen (Some r # xs) =
    bind_err (parse_policy uuid_of r) (\<lambda>p.
      if sp_id p \<in> set seen
        then Inl (GuardValueError (U ''Memory-import storage quota snapshot contains duplicate policy IDs.''))
      else bind_err (parse_policies uuid_of (sp_id p # seen) xs) (\<lambda>ps. Inr (p # ps)))"

definition normalized_snapshot_policies ::
  "(pystr \<Rightarrow> int option) \<Rightarrow> snapshot option \<Rightarrow> guard_error + storage_policy list" where
  "normalized_snapshot_policies uuid_of sn =
    (case sn of
       None \<Rightarrow> Inr []
     | Some s \<Rightarrow>
         if sn_version s \<noteq> Some 1 then Inl (GuardValueError (U ''Unsupported memory-import storage quota snapshot version.''))
         else (case sn_policies s of
                 None \<Rightarrow> Inl (GuardValueError (U ''Memory-import storage quota snapshot policies must be a list.''))
               | Some rs \<Rightarrow> bind_err (parse_policies uuid_of [] rs) (\<lambda>ps. Inr (sort_key storage_order ps))))"

section \<open>The guard\<close>

record quota_guard =
  gd_policies :: "storage_policy list"
  gd_checked :: bool
  gd_session :: bool
  gd_locks :: "pystr list"

definition new_guard :: "storage_policy list \<Rightarrow> quota_guard" where
  "new_guard ps = \<lparr>gd_policies = ps, gd_checked = False, gd_session = False, gd_locks = []\<rparr>"

definition guard_enabled :: "quota_guard \<Rightarrow> bool" where
  "guard_enabled g = (gd_policies g \<noteq> [])"

definition resource_of :: "storage_policy \<Rightarrow> pystr" where
  "resource_of p = U ''stored-memory:'' @ sp_scope_type p @ U '':'' @ sp_scope_id p"

text \<open>\<open>sorted({...})\<close>: the locks the guard takes, in order.\<close>

definition guard_resources :: "storage_policy list \<Rightarrow> pystr list" where
  "guard_resources ps = sort (remdups (map resource_of ps))"

definition release_guard :: "quota_guard \<Rightarrow> quota_guard" where
  "release_guard g = g\<lparr>gd_session := False, gd_locks := []\<rparr>"

text \<open>The memoized count of a project.\<close>

definition project_count ::
  "(pystr \<Rightarrow> int) \<Rightarrow> pystr \<Rightarrow> (pystr \<times> int) list \<Rightarrow> guard_error + int \<times> (pystr \<times> int) list" where
  "project_count count pid cache =
    (case map_of cache pid of
       Some n \<Rightarrow> Inr (n, cache)
     | None \<Rightarrow> if count pid < 0 then Inl (GuardValueError (U ''Stored-memory count must be a non-negative integer.''))
               else Inr (count pid, (pid, count pid) # cache))"

fun sum_project_counts ::
  "(pystr \<Rightarrow> int) \<Rightarrow> pystr list \<Rightarrow> int \<Rightarrow> (pystr \<times> int) list \<Rightarrow> guard_error + int \<times> (pystr \<times> int) list" where
  "sum_project_counts count [] acc cache = Inr (acc, cache)"
| "sum_project_counts count (p # ps) acc cache =
    bind_err (project_count count p cache) (\<lambda>(n, cache'). sum_project_counts count ps (acc + n) cache')"

definition policy_used ::
  "(pystr \<Rightarrow> int) \<Rightarrow> (pystr \<Rightarrow> pystr list) \<Rightarrow> storage_policy \<Rightarrow> (pystr \<times> int) list \<Rightarrow> guard_error + int \<times> (pystr \<times> int) list" where
  "policy_used count org_projects p cache =
    (if sp_scope_type p = U ''project'' then project_count count (sp_scope_id p) cache
     else sum_project_counts count (dedup (filter (\<lambda>q. q \<noteq> []) (org_projects (sp_scope_id p)))) 0 cache)"

fun check_limits ::
  "(pystr \<Rightarrow> int) \<Rightarrow> (pystr \<Rightarrow> pystr list) \<Rightarrow> int \<Rightarrow> storage_policy list \<Rightarrow> (pystr \<times> int) list \<Rightarrow> guard_error + unit" where
  "check_limits count org_projects selected [] cache = Inr ()"
| "check_limits count org_projects selected (p # ps) cache =
    bind_err (policy_used count org_projects p cache) (\<lambda>(used, cache').
      if used + selected > sp_limit p
        then Inl (ImportStorageQuotaExceeded (sp_scope_type p) (sp_scope_id p) (sp_limit p) used selected)
      else check_limits count org_projects selected ps cache')"

definition guard_call ::
  "(pystr \<Rightarrow> int) \<Rightarrow> (pystr \<Rightarrow> pystr list) \<Rightarrow> quota_guard \<Rightarrow> int \<Rightarrow> (guard_error + unit) \<times> quota_guard" where
  "guard_call count org_projects g selected =
    (if selected < 0 then (Inl (GuardValueError (U ''selected_new must be a non-negative integer.'')), g)
     else if gd_policies g = [] then (Inr (), g)
     else if gd_checked g \<or> gd_session g
       then (Inl (GuardRuntimeError (U ''The memory-import storage quota guard can only be checked once.'')), g)
     else
       let locked = g\<lparr>gd_checked := True, gd_locks := rev (guard_resources (gd_policies g)), gd_session := True\<rparr>
       in case check_limits count org_projects selected (gd_policies g) [] of
            Inl e \<Rightarrow> (Inl e, release_guard locked)
          | Inr _ \<Rightarrow> (Inr (), locked))"

section \<open>What a passed check means\<close>

definition stored_under :: "(pystr \<Rightarrow> int) \<Rightarrow> (pystr \<Rightarrow> pystr list) \<Rightarrow> storage_policy \<Rightarrow> int" where
  "stored_under count org_projects p =
    (if sp_scope_type p = U ''project'' then count (sp_scope_id p)
     else sum_list (map count (dedup (filter (\<lambda>q. q \<noteq> []) (org_projects (sp_scope_id p))))))"

definition cache_ok :: "(pystr \<Rightarrow> int) \<Rightarrow> (pystr \<times> int) list \<Rightarrow> bool" where
  "cache_ok count cache = (\<forall>(p, n)\<in>set cache. n = count p)"

lemma project_count_ok:
  "cache_ok count cache \<Longrightarrow> project_count count p cache = Inr (n, cache') \<Longrightarrow> n = count p \<and> cache_ok count cache'"
  by (auto simp: project_count_def cache_ok_def split: option.splits if_splits dest!: map_of_SomeD)

lemma sum_project_counts_ok:
  "cache_ok count cache \<Longrightarrow> sum_project_counts count ps acc cache = Inr (n, cache') \<Longrightarrow>
   n = acc + sum_list (map count ps) \<and> cache_ok count cache'"
proof (induction ps arbitrary: acc cache)
  case (Cons p ps)
  then obtain m c where m: "project_count count p cache = Inr (m, c)"
    and rest: "sum_project_counts count ps (acc + m) c = Inr (n, cache')"
    by (auto simp: bind_err_Inr_iff)
  from project_count_ok [OF Cons.prems(1) m] have "m = count p" "cache_ok count c" by simp_all
  with Cons.IH [OF this(2) rest] show ?case by simp
qed simp

lemma policy_used_ok:
  "cache_ok count cache \<Longrightarrow> policy_used count orgs p cache = Inr (n, cache') \<Longrightarrow>
   n = stored_under count orgs p \<and> cache_ok count cache'"
  by (auto simp: policy_used_def stored_under_def split: if_splits dest: project_count_ok sum_project_counts_ok)

lemma check_limits_ok:
  "cache_ok count cache \<Longrightarrow> check_limits count orgs sel ps cache = Inr () \<Longrightarrow>
   \<forall>p\<in>set ps. stored_under count orgs p + sel \<le> sp_limit p"
proof (induction ps arbitrary: cache)
  case (Cons p ps)
  then obtain n c where n: "policy_used count orgs p cache = Inr (n, c)" "n + sel \<le> sp_limit p"
    and rest: "check_limits count orgs sel ps c = Inr ()"
    by (auto simp: bind_err_Inr_iff split: if_splits)
  with policy_used_ok [OF Cons.prems(1) n(1)] Cons.IH show ?case by auto
qed simp

lemma check_limits_exceeded:
  "cache_ok count cache \<Longrightarrow> check_limits count orgs sel ps cache = Inl (ImportStorageQuotaExceeded t i cap used s) \<Longrightarrow>
   \<exists>p\<in>set ps. sp_limit p = cap \<and> used = stored_under count orgs p \<and> cap < used + s"
proof (induction ps arbitrary: cache)
  case (Cons p ps)
  have no: "project_count count q c \<noteq> Inl (ImportStorageQuotaExceeded t i cap used s)" for q c
    by (auto simp: project_count_def split: option.split)
  have no2: "sum_project_counts count qs acc c \<noteq> Inl (ImportStorageQuotaExceeded t i cap used s)" for qs acc c
    by (induction qs arbitrary: acc c) (auto simp: bind_err_def no split: sum.split)
  show ?case
  proof (cases "policy_used count orgs p cache")
    case (Inl e)
    with Cons.prems have "e = ImportStorageQuotaExceeded t i cap used s" by simp
    with Inl no no2 show ?thesis by (simp add: policy_used_def split: if_splits)
  next
    case (Inr r)
    obtain n c where r: "r = (n, c)" by (cases r)
    from policy_used_ok [OF Cons.prems(1)] Inr r have n: "n = stored_under count orgs p" "cache_ok count c" by auto
    show ?thesis
    proof (cases "n + sel > sp_limit p")
      case True
      with Cons.prems Inr r n show ?thesis by auto
    next
      case False
      with Cons.prems Inr r Cons.IH [OF n(2)] show ?thesis by auto
    qed
  qed
qed simp

text \<open>A write that passes the quota guard fits. Under every hard policy of the job's snapshot what is
  stored plus what is about to be written stays within the limit, and the guard holds the lock of
  every policy's scope until it is released; a write that does not pass leaves no lock held and no
  session open.\<close>
theorem guard_pass_fits:
  assumes "guard_call count org_projects (new_guard ps) selected = (res, g)"
  shows "(case res of
            Inr _ \<Rightarrow> (\<forall>p\<in>set ps. stored_under count org_projects p + selected \<le> sp_limit p) \<and>
                     set (gd_locks g) = resource_of ` set ps
          | Inl _ \<Rightarrow> gd_locks g = [] \<and> gd_session g = False)"
proof -
  have empty: "cache_ok count []" by (simp add: cache_ok_def)
  show ?thesis
  proof (cases "selected < 0 \<or> ps = []")
    case True
    with assms show ?thesis by (auto simp: guard_call_def new_guard_def split: if_splits)
  next
    case False
    then have run: "guard_call count org_projects (new_guard ps) selected =
      (case check_limits count org_projects selected ps [] of
         Inl e \<Rightarrow> (Inl e, release_guard ((new_guard ps)\<lparr>gd_checked := True, gd_locks := rev (guard_resources ps), gd_session := True\<rparr>))
       | Inr _ \<Rightarrow> (Inr (), (new_guard ps)\<lparr>gd_checked := True, gd_locks := rev (guard_resources ps), gd_session := True\<rparr>))"
      by (simp add: guard_call_def new_guard_def Let_def split: sum.split)
    show ?thesis
    proof (cases "check_limits count org_projects selected ps []")
      case (Inl e)
      from assms have "res = Inl e" "gd_locks g = [] \<and> gd_session g = False"
        unfolding run Inl by (auto simp: release_guard_def)
      then show ?thesis by simp
    next
      case (Inr u)
      with check_limits_ok [OF empty, of org_projects selected ps]
      have "\<forall>p\<in>set ps. stored_under count org_projects p + selected \<le> sp_limit p" by simp
      moreover from assms have "res = Inr ()" "set (gd_locks g) = resource_of ` set ps"
        unfolding run Inr by (auto simp: guard_resources_def)
      ultimately show ?thesis by simp
    qed
  qed
qed

definition demo_storage_policies :: "storage_policy list" where
  "demo_storage_policies =
    [\<lparr>sp_id = 2, sp_scope_type = U ''organization'', sp_scope_id = U ''A'', sp_limit = 20\<rparr>,
     \<lparr>sp_id = 1, sp_scope_type = U ''project'', sp_scope_id = U ''pa'', sp_limit = 10\<rparr>]"

lemma guard_pass_fits_witness:
  "\<exists>g. guard_call (\<lambda>_. 7) (\<lambda>_. [U ''pa'', U ''pb'', U ''pa'']) (new_guard demo_storage_policies) 3 = (Inr (), g) \<and>
       (\<forall>p\<in>set demo_storage_policies. stored_under (\<lambda>_. 7) (\<lambda>_. [U ''pa'', U ''pb'', U ''pa'']) p + 3 \<le> sp_limit p)"
proof -
  obtain res g where run: "guard_call (\<lambda>_. 7) (\<lambda>_. [U ''pa'', U ''pb'', U ''pa'']) (new_guard demo_storage_policies) 3 = (res, g)"
    by (cases "guard_call (\<lambda>_. 7) (\<lambda>_. [U ''pa'', U ''pb'', U ''pa'']) (new_guard demo_storage_policies) 3")
  have "fst (guard_call (\<lambda>_. 7) (\<lambda>_. [U ''pa'', U ''pb'', U ''pa'']) (new_guard demo_storage_policies) 3) = Inr ()"
    by code_simp
  with run have "res = Inr ()" by simp
  with guard_pass_fits [OF run] run show ?thesis by auto
qed

text \<open>A guard answers once. After a check it refuses a second one, whatever the first one's outcome,
  and keeps the locks it holds.\<close>
theorem guard_checks_once:
  assumes "guard_call count org_projects (new_guard ps) selected = (res, g)" and "0 \<le> selected" and "ps \<noteq> []"
    and "0 \<le> selected'"
  shows "guard_call count' org_projects' g selected' =
         (Inl (GuardRuntimeError (U ''The memory-import storage quota guard can only be checked once.'')), g)"
proof -
  have "gd_checked g" and "gd_policies g = ps"
    using assms(1-3) by (auto simp: guard_call_def new_guard_def release_guard_def Let_def split: sum.splits)
  with assms(3,4) show ?thesis by (simp add: guard_call_def)
qed

lemma guard_checks_once_witness:
  "fst (guard_call (\<lambda>_. 0) (\<lambda>_. []) (snd (guard_call (\<lambda>_. 7) (\<lambda>_. []) (new_guard demo_storage_policies) 3)) 0) =
   Inl (GuardRuntimeError (U ''The memory-import storage quota guard can only be checked once.''))"
proof -
  have "demo_storage_policies \<noteq> []" by (simp add: demo_storage_policies_def)
  from guard_checks_once [OF prod.collapse [symmetric] _ this, of 3 0] show ?thesis by simp
qed

section \<open>No deadlock\<close>

text \<open>
  Guards that run at the same time: guard \<open>i\<close> takes the locks of \<open>guard_resources (ps i)\<close> in order and
  has taken the first \<open>n i\<close>. It waits for guard \<open>j\<close> when \<open>j\<close> holds the lock it wants next.
\<close>

definition waits_for :: "('i \<Rightarrow> storage_policy list) \<Rightarrow> ('i \<Rightarrow> nat) \<Rightarrow> ('i \<times> 'i) set" where
  "waits_for ps n =
    {(i, j). n i < length (guard_resources (ps i)) \<and>
             guard_resources (ps i) ! n i \<in> set (take (n j) (guard_resources (ps j)))}"

lemma guard_resources_strict:
  "i < j \<Longrightarrow> j < length (guard_resources ps) \<Longrightarrow> guard_resources ps ! i < guard_resources ps ! j"
proof -
  assume ij: "i < j" "j < length (guard_resources ps)"
  have "sorted (guard_resources ps)" "distinct (guard_resources ps)"
    by (simp_all add: guard_resources_def)
  with ij show ?thesis
    by (metis less_trans nat_less_le nth_eq_iff_index_eq order_le_less sorted_nth_mono)
qed

lemma waits_for_increases:
  assumes "(i, j) \<in> waits_for ps n" and "n j < length (guard_resources (ps j))"
  shows "guard_resources (ps i) ! n i < guard_resources (ps j) ! n j"
proof -
  from assms(1) obtain k where "k < n j" "k < length (guard_resources (ps j))"
    "guard_resources (ps i) ! n i = guard_resources (ps j) ! k"
    by (auto simp: waits_for_def in_set_conv_nth)
  with assms(2) show ?thesis by (auto intro: guard_resources_strict)
qed

lemma waits_for_chain:
  assumes "(i, j) \<in> (waits_for ps n)\<^sup>+"
  shows "n j < length (guard_resources (ps j)) \<longrightarrow> guard_resources (ps i) ! n i < guard_resources (ps j) ! n j"
  using assms
proof (induction rule: trancl_induct)
  case (base j)
  then show ?case by (intro impI) (rule waits_for_increases)
next
  case (step j k)
  then have "n j < length (guard_resources (ps j))" by (simp add: waits_for_def)
  with step show ?case using waits_for_increases [OF step(2)] by (auto intro: less_trans)
qed

text \<open>C18: quota guards cannot deadlock: however many run at once, with whatever policies and however far
  each has got with its locks, no guards wait for each other in a circle.\<close>
theorem quota_guards_never_deadlock:
  "acyclic (waits_for ps n)"
proof (rule acyclicI, intro allI notI)
  fix i assume cyc: "(i, i) \<in> (waits_for ps n)\<^sup>+"
  then obtain j where "(i, j) \<in> waits_for ps n" by (meson tranclD)
  then have "n i < length (guard_resources (ps i))" by (simp add: waits_for_def)
  with waits_for_chain [OF cyc] show False by simp
qed

section \<open>The snapshot round trip\<close>

lemma parse_policies_captured:
  assumes "\<forall>p\<in>set ps. uuid_of (uuid_text (qp_id p)) = Some (qp_id p) \<and> py_strip (qp_scope_id p) = qp_scope_id p \<and>
             qp_scope_id p \<noteq> [] \<and> 0 < qp_limit p \<and> qp_scope_type p \<in> {U ''organization'', U ''project''}"
    and "distinct (map qp_id ps)" and "\<forall>p\<in>set ps. qp_id p \<notin> set seen"
  shows "parse_policies uuid_of seen (map (\<lambda>p. Some \<lparr>rs_id = Some (uuid_text (qp_id p)), rs_scope_type = Some (qp_scope_type p),
           rs_scope_id = Some (qp_scope_id p), rs_limit = Some (qp_limit p)\<rparr>) ps) =
         Inr (map (\<lambda>p. \<lparr>sp_id = qp_id p, sp_scope_type = qp_scope_type p, sp_scope_id = qp_scope_id p, sp_limit = qp_limit p\<rparr>) ps)"
  using assms
proof (induction ps arbitrary: seen)
  case (Cons p ps)
  have "\<forall>q\<in>set ps. qp_id q \<notin> set (qp_id p # seen)" using Cons.prems(2,3) by (auto simp: image_iff)
  with Cons.IH [of "qp_id p # seen"] Cons.prems show ?case by (simp add: parse_policy_def)
qed simp

definition storage_policy_of :: "quota_policy \<Rightarrow> storage_policy" where
  "storage_policy_of p =
    \<lparr>sp_id = qp_id p, sp_scope_type = qp_scope_type p, sp_scope_id = qp_scope_id p, sp_limit = qp_limit p\<rparr>"

text \<open>The snapshot taken when a job is created means the same when the job runs: reading it back
  gives the hard organization and project policies that applied to the request, in order.\<close>
theorem snapshot_roundtrip:
  assumes "ps = sort_key (\<lambda>p. (qp_scope_type p, qp_scope_id p, qp_id p))
             (filter (\<lambda>p. qp_mode p = U ''hard'' \<and> qp_scope_type p \<in> {U ''organization'', U ''project''})
               (applicable_policies d (request_scope_context ids stored rq user_email) [U ''stored_memories'']))"
    and "auth_type \<notin> set bypass_auth_types"
    and "distinct (map qp_id ps)"
    and "\<forall>p\<in>set ps. uuid_of (uuid_text (qp_id p)) = Some (qp_id p) \<and> py_strip (qp_scope_id p) = qp_scope_id p \<and>
           qp_scope_id p \<noteq> [] \<and> 0 < qp_limit p"
  shows "normalized_snapshot_policies uuid_of
           (capture_import_storage_quota_snapshot uuid_text auth_type ids stored d rq user_email) =
         Inr (map storage_policy_of ps)"
proof -
  have types: "\<forall>p\<in>set ps. qp_scope_type p \<in> {U ''organization'', U ''project''}"
    unfolding assms(1) by simp
  have parsed: "parse_policies uuid_of [] (map (\<lambda>p. Some \<lparr>rs_id = Some (uuid_text (qp_id p)), rs_scope_type = Some (qp_scope_type p),
           rs_scope_id = Some (qp_scope_id p), rs_limit = Some (qp_limit p)\<rparr>) ps) = Inr (map storage_policy_of ps)"
    unfolding storage_policy_of_def
    by (rule parse_policies_captured) (use assms(3,4) types in auto)
  have key: "map storage_order (map storage_policy_of ps) = map (\<lambda>p. (qp_scope_type p, qp_scope_id p, qp_id p)) ps"
    by (simp add: storage_order_def storage_policy_of_def)
  have "sorted (map (\<lambda>p. (qp_scope_type p, qp_scope_id p, qp_id p)) ps)"
    unfolding assms(1) by (rule sorted_sort_key)
  then have "sort_key storage_order (map storage_policy_of ps) = map storage_policy_of ps"
    unfolding key [symmetric] by (rule sort_key_id_if_sorted)
  then show ?thesis
    using assms(2) parsed
    unfolding normalized_snapshot_policies_def capture_import_storage_quota_snapshot_def Let_def assms(1) [symmetric]
    by simp
qed

definition demo_hard_policy :: quota_policy where
  "demo_hard_policy = \<lparr>qp_id = 65, qp_scope_type = U ''project'', qp_scope_id = U ''pa'', qp_project_id = U ''pa'',
     qp_metric = U ''stored_memories'', qp_period = U ''total'', qp_limit = 10, qp_mode = U ''hard'', qp_warning = 1\<rparr>"

definition demo_storage_db :: usage_db where
  "demo_storage_db = \<lparr>ud_policies = [demo_policy, demo_hard_policy], ud_logs = [], ud_users = []\<rparr>"

lemma snapshot_roundtrip_witness:
  "normalized_snapshot_policies (\<lambda>s. if s = [] then None else Some (hd s))
     (capture_import_storage_quota_snapshot (\<lambda>i. [i]) (U ''jwt'') no_ids (Some demo_settings) demo_storage_db demo_request None) =
   Inr [storage_policy_of demo_hard_policy]"
proof -
  let ?ps = "sort_key (\<lambda>p. (qp_scope_type p, qp_scope_id p, qp_id p))
             (filter (\<lambda>p. qp_mode p = U ''hard'' \<and> qp_scope_type p \<in> {U ''organization'', U ''project''})
               (applicable_policies demo_storage_db (request_scope_context no_ids (Some demo_settings) demo_request None) [U ''stored_memories'']))"
  have ps: "?ps = [demo_hard_policy]"
  proof -
    have "applicable_policies demo_storage_db (request_scope_context no_ids (Some demo_settings) demo_request None) [U ''stored_memories'']
       = [demo_hard_policy]" by code_simp
    then show ?thesis by (simp add: demo_hard_policy_def)
  qed
  have auth: "U ''jwt'' \<notin> set bypass_auth_types" by code_simp
  have strip: "py_strip (U ''pa'') = U ''pa'' \<and> U ''pa'' \<noteq> []" by code_simp
  have "normalized_snapshot_policies (\<lambda>s. if s = [] then None else Some (hd s))
     (capture_import_storage_quota_snapshot (\<lambda>i. [i]) (U ''jwt'') no_ids (Some demo_settings) demo_storage_db demo_request None) =
     Inr (map storage_policy_of ?ps)"
    by (rule snapshot_roundtrip [OF refl auth]) (unfold ps, simp_all add: demo_hard_policy_def strip)
  then show ?thesis unfolding ps by simp
qed

end
