(* ===== verification/Chat_Text.thy ===== *)
theory Chat_Text
  imports Prelude
begin

text \<open>
  Text handling of the chat import (server/chat_import.py): the removal of embedded data URIs, the
  token estimate, and the splitting of long texts. Regular expressions are scanners that return the
  length of the match at the head of a text, 0 when there is none; all of them are deterministic
  enough that a greedy scan finds the match the backtracking engine finds. The tokenizer (tiktoken)
  is third-party code: an encoder is a pair of functions, either of which may fail, and
  \<open>None\<close> stands for a missing one. Everything here holds for every encoder.
\<close>

section \<open>Characters\<close>

definition ascii_letter :: "int \<Rightarrow> bool" where
  "ascii_letter c = (65 \<le> c \<and> c \<le> 90 \<or> 97 \<le> c \<and> c \<le> 122)"

definition ascii_digit :: "int \<Rightarrow> bool" where
  "ascii_digit c = (48 \<le> c \<and> c \<le> 57)"

text \<open>The zeros of the decimal digit runs of Unicode 15, of ten code points each: what \<open>\d\<close> matches.\<close>

definition digit_zeros :: "int list" where
  "digit_zeros =
    [48, 1632, 1776, 1984, 2406, 2534, 2662, 2790, 2918, 3046, 3174, 3302, 3430, 3558, 3664, 3792, 3872, 4160,
     4240, 6112, 6160, 6470, 6608, 6784, 6800, 6992, 7088, 7232, 7248, 42528, 43216, 43264, 43472, 43504, 43600,
     44016, 65296, 66720, 68912, 69734, 69872, 69942, 70096, 70384, 70736, 70864, 71248, 71360, 71472, 71904,
     72016, 72784, 73040, 73120, 73552, 92768, 92864, 93008, 120782, 120792, 120802, 120812, 120822, 123200,
     123632, 124144, 125264, 130032]"

definition is_digit :: "int \<Rightarrow> bool" where
  "is_digit c = list_ex (\<lambda>z. z \<le> c \<and> c \<le> z + 9) digit_zeros"

definition is_cjk :: "int \<Rightarrow> bool" where
  "is_cjk c = (0x3400 \<le> c \<and> c \<le> 0x4DBF \<or> 0x4E00 \<le> c \<and> c \<le> 0x9FFF \<or> 0xF900 \<le> c \<and> c \<le> 0xFAFF)"

text \<open>The longest run of characters of a class.\<close>

definition run_len :: "(int \<Rightarrow> bool) \<Rightarrow> pystr \<Rightarrow> nat" where
  "run_len P s = length (takeWhile P s)"

lemma run_len_le: "run_len P s \<le> length s"
  by (simp add: run_len_def length_takeWhile_le)

section \<open>Embedded data URIs\<close>

text \<open>
  \<open>INLINE_BASE64_DATA_URI_RE\<close>. With \<open>re.IGNORECASE\<close> a class of ASCII letters also matches
  four more letters, one of which is a form of \<open>s\<close>.
\<close>

definition uri_letter :: "int \<Rightarrow> bool" where
  "uri_letter c = (ascii_letter c \<or> c \<in> {0x130, 0x131, 0x17F, 0x212A})"

definition mime_char :: "int \<Rightarrow> bool" where
  "mime_char c = (uri_letter c \<or> ascii_digit c \<or> c \<in> {46, 43, 45})"

definition param_char :: "int \<Rightarrow> bool" where
  "param_char c = (mime_char c \<or> c = 95)"

definition value_char :: "int \<Rightarrow> bool" where
  "value_char c = (\<not> (c \<in> {59, 44, 34, 39, 60, 62, 41} \<or> is_space c))"

definition payload_char :: "int \<Rightarrow> bool" where
  "payload_char c = (uri_letter c \<or> ascii_digit c \<or> c \<in> {43, 47, 95, 61, 45})"

text \<open>A literal up to case; the literals are lower-case ASCII.\<close>

definition same_letter :: "int \<Rightarrow> int \<Rightarrow> bool" where
  "same_letter p c = (c = p \<or> (97 \<le> p \<and> p \<le> 122 \<and> c = p - 32) \<or> (p = 115 \<and> c = 0x17F))"

fun literal :: "pystr \<Rightarrow> pystr \<Rightarrow> pystr option" where
  "literal [] s = Some s"
| "literal (p # ps) [] = None"
| "literal (p # ps) (c # cs) = (if same_letter p c then literal ps cs else None)"

text \<open>The end of the URI after its media type: parameters, then the payload. The fuel is the length of
  the text, which every parameter shortens.\<close>

fun uri_rest :: "nat \<Rightarrow> pystr \<Rightarrow> pystr option" where
  "uri_rest 0 s = None"
| "uri_rest (Suc n) s =
    (case literal (U '';base64,'') s of
       Some payload \<Rightarrow> if run_len payload_char payload = 0 then None else Some (dropWhile payload_char payload)
     | None \<Rightarrow>
         (case s of
            [] \<Rightarrow> None
          | c # cs \<Rightarrow>
              if c \<noteq> 59 \<or> run_len param_char cs = 0 then None
              else (case dropWhile param_char cs of
                      [] \<Rightarrow> None
                    | d # ds \<Rightarrow>
                        if d = 61
                        then (if 1 \<le> run_len value_char ds \<and> run_len value_char ds \<le> 200
                              then uri_rest n (dropWhile value_char ds) else None)
                        else uri_rest n (d # ds))))"

definition data_uri :: "pystr \<Rightarrow> pystr option" where
  "data_uri s =
    (case literal (U ''data:'') s of
       None \<Rightarrow> None
     | Some t \<Rightarrow>
         let t1 = dropWhile mime_char t; t2 = (case t1 of [] \<Rightarrow> [] | c # cs \<Rightarrow> if c = 47 then cs else t1)
         in uri_rest (length s) (dropWhile mime_char t2))"

definition inline_data_placeholder :: pystr where
  "inline_data_placeholder = U ''[inline-data-omitted]''"

function (sequential) strip_inline_base64_data_uris :: "pystr \<Rightarrow> pystr" where
  "strip_inline_base64_data_uris [] = []"
| "strip_inline_base64_data_uris (c # cs) =
    (case data_uri (c # cs) of
       Some rest \<Rightarrow> if length rest \<le> length cs then inline_data_placeholder @ strip_inline_base64_data_uris rest
                    else []
     | None \<Rightarrow> c # strip_inline_base64_data_uris cs)"
  by pat_completeness auto
termination by (relation "measure length") auto

section \<open>The token estimate\<close>

record encoder =
  enc_ids :: "pystr \<Rightarrow> int list option"
  enc_bytes :: "int \<Rightarrow> int list option"

text \<open>\<open>[A-Za-z]+(?:'[A-Za-z]+)?\<close> and \<open>\d+(?:\.\d+)?\<close>: a run, and one more after a separator.\<close>

definition joined_runs :: "(int \<Rightarrow> bool) \<Rightarrow> int \<Rightarrow> pystr \<Rightarrow> nat" where
  "joined_runs P sep s =
    (let n = run_len P s; rest = drop n s
     in if n = 0 then 0
        else if rest \<noteq> [] \<and> hd rest = sep \<and> run_len P (tl rest) \<noteq> 0 then n + 1 + run_len P (tl rest) else n)"

definition word_len :: "pystr \<Rightarrow> nat" where
  "word_len s = (if joined_runs ascii_letter 39 s \<noteq> 0 then joined_runs ascii_letter 39 s else joined_runs is_digit 46 s)"

text \<open>\<open>_FALLBACK_TOKEN_RE\<close> at the head of a text.\<close>

definition token_len :: "pystr \<Rightarrow> nat" where
  "token_len s =
    (case s of
       [] \<Rightarrow> 0
     | c # cs \<Rightarrow> if is_cjk c then 1 else if word_len s \<noteq> 0 then word_len s else if is_space c then 0 else 1)"

text \<open>\<open>finditer\<close>: the start and end of every token.\<close>

function tokens_from :: "nat \<Rightarrow> pystr \<Rightarrow> (nat \<times> nat) list" where
  "tokens_from i s =
    (if s = [] then []
     else if token_len s = 0 then tokens_from (i + 1) (tl s)
     else (i, i + token_len s) # tokens_from (i + token_len s) (drop (token_len s) s))"
  by pat_completeness auto
termination by (relation "measure (\<lambda>(i, s). length s)") auto

declare tokens_from.simps [simp del]

text \<open>\<open>text[a:b]\<close>.\<close>

definition slice :: "pystr \<Rightarrow> nat \<Rightarrow> nat \<Rightarrow> pystr" where
  "slice s a b = take (b - a) (drop a s)"

definition fallback_token_weight :: "pystr \<Rightarrow> nat" where
  "fallback_token_weight tok = (if tok \<noteq> [] \<and> word_len tok = length tok then max 1 ((length tok + 3) div 4) else 1)"

definition fallback_estimate :: "pystr \<Rightarrow> nat" where
  "fallback_estimate s =
    max 1 (sum_list (map (\<lambda>(a, b). fallback_token_weight (slice s a b)) (tokens_from 0 s)))"

definition estimate_tokens :: "encoder option \<Rightarrow> pystr \<Rightarrow> nat" where
  "estimate_tokens enc s =
    (case enc of
       None \<Rightarrow> fallback_estimate s
     | Some e \<Rightarrow> (case enc_ids e s of Some ids \<Rightarrow> max 1 (length ids) | None \<Rightarrow> fallback_estimate s))"

lemma estimate_pos: "1 \<le> estimate_tokens enc s"
  by (auto simp: estimate_tokens_def fallback_estimate_def split: option.split)

section \<open>UTF-8\<close>

text \<open>\<open>str.encode("utf-8")\<close>: surrogates have no encoding.\<close>

definition utf8_char :: "int \<Rightarrow> int list option" where
  "utf8_char c =
    (if c < 0 \<or> 0xD800 \<le> c \<and> c \<le> 0xDFFF \<or> 0x10FFFF < c then None
     else if c < 0x80 then Some [c]
     else if c < 0x800 then Some [0xC0 + c div 64, 0x80 + c mod 64]
     else if c < 0x10000 then Some [0xE0 + c div 4096, 0x80 + c div 64 mod 64, 0x80 + c mod 64]
     else Some [0xF0 + c div 262144, 0x80 + c div 4096 mod 64, 0x80 + c div 64 mod 64, 0x80 + c mod 64])"

fun utf8_encode :: "pystr \<Rightarrow> int list option" where
  "utf8_encode [] = Some []"
| "utf8_encode (c # cs) =
    (case utf8_char c of
       None \<Rightarrow> None
     | Some bs \<Rightarrow> (case utf8_encode cs of None \<Rightarrow> None | Some rest \<Rightarrow> Some (bs @ rest)))"

text \<open>\<open>raw[i] & 0xC0 == 0x80\<close>.\<close>

definition is_continuation :: "int \<Rightarrow> bool" where
  "is_continuation b = (b div 64 = 2)"

text \<open>\<open>bytes.decode("utf-8")\<close>, strict: a character is what \<open>utf8_char\<close> maps to the bytes, so overlong
  forms and surrogates are refused.\<close>

definition utf8_head :: "int list \<Rightarrow> (int \<times> nat) option" where
  "utf8_head bs =
    (case bs of
       [] \<Rightarrow> None
     | b # rest \<Rightarrow>
         let n = (if b < 0x80 then 1 else if b < 0xE0 then 2 else if b < 0xF0 then 3 else 4 :: nat);
             v = (if n = 1 then b else if n = 2 then b - 0xC0 else if n = 3 then b - 0xE0 else b - 0xF0);
             c = fold (\<lambda>x acc. acc * 64 + (x - 0x80)) (take (n - 1) rest) v
         in if utf8_char c = Some (take n bs) then Some (c, n) else None)"

function utf8_decode :: "int list \<Rightarrow> pystr option" where
  "utf8_decode bs =
    (if bs = [] then Some []
     else case utf8_head bs of
            None \<Rightarrow> None
          | Some (c, n) \<Rightarrow> if n = 0 then None else map_option (\<lambda>cs. c # cs) (utf8_decode (drop n bs)))"
  by pat_completeness auto
termination by (relation "measure length") auto

declare utf8_decode.simps [simp del]

section \<open>Splitting\<close>

text \<open>\<open>_safe_utf8_boundary\<close>.\<close>

fun retreat :: "int list \<Rightarrow> nat \<Rightarrow> nat" where
  "retreat raw 0 = 0"
| "retreat raw (Suc n) =
    (if Suc n < length raw \<and> is_continuation (raw ! Suc n) then retreat raw n else Suc n)"

definition safe_utf8_boundary :: "int list \<Rightarrow> nat \<Rightarrow> nat" where
  "safe_utf8_boundary raw boundary = retreat raw (min boundary (length raw))"

text \<open>The loop of \<open>_split_encoded_text\<close> over the token ids; \<open>None\<close> is an exception.\<close>

fun encoded_loop ::
  "encoder \<Rightarrow> int list \<Rightarrow> nat \<Rightarrow> nat \<Rightarrow> int list \<Rightarrow> nat \<Rightarrow> nat \<Rightarrow> nat \<Rightarrow> pystr list \<Rightarrow> (pystr list \<times> nat) option" where
  "encoded_loop e raw max_tokens count [] index offset prev parts = Some (parts, prev)"
| "encoded_loop e raw max_tokens count (t # ts) index offset prev parts =
    (case enc_bytes e t of
       None \<Rightarrow> None
     | Some bs \<Rightarrow>
         let i = index + 1; off = offset + length bs
         in if i mod max_tokens \<noteq> 0 \<or> i = count then encoded_loop e raw max_tokens count ts i off prev parts
            else
              let boundary = safe_utf8_boundary raw off
              in if boundary \<le> prev then encoded_loop e raw max_tokens count ts i off prev parts
                 else case utf8_decode (slice raw prev boundary) of
                        None \<Rightarrow> None
                      | Some part \<Rightarrow> encoded_loop e raw max_tokens count ts i off boundary (parts @ [part]))"

definition split_encoded_text :: "pystr \<Rightarrow> nat \<Rightarrow> encoder \<Rightarrow> pystr list option" where
  "split_encoded_text s max_tokens e =
    (case enc_ids e s of
       None \<Rightarrow> None
     | Some ids \<Rightarrow>
         if length ids \<le> max_tokens then Some [s]
         else case utf8_encode s of
                None \<Rightarrow> None
              | Some raw \<Rightarrow>
                  (case encoded_loop e raw max_tokens (length ids) ids 0 0 0 [] of
                     None \<Rightarrow> None
                   | Some (parts, prev) \<Rightarrow>
                       if prev < length raw
                       then map_option (\<lambda>part. parts @ [part]) (utf8_decode (drop prev raw))
                       else Some parts))"

text \<open>The inner loop of \<open>_split_fallback_text\<close>, which cuts a token that is too long. Its callers pass
  a positive limit (\<open>_split_text_by_tokens\<close> raises it to 1), without which the loop would not end.\<close>

function cut_token :: "pystr \<Rightarrow> nat \<Rightarrow> nat \<Rightarrow> nat \<Rightarrow> pystr list \<Rightarrow> pystr list \<times> nat" where
  "cut_token s width stop part_start parts =
    (if 0 < width \<and> stop - part_start > width
     then cut_token s width stop (part_start + width) (parts @ [slice s part_start (part_start + width)])
     else (parts, part_start))"
  by pat_completeness auto
termination by (relation "measure (\<lambda>(s, width, stop, part_start, parts). stop - part_start)") auto

declare cut_token.simps [simp del]

definition ascii_alnum :: "int \<Rightarrow> bool" where
  "ascii_alnum c = (ascii_letter c \<or> ascii_digit c)"

text \<open>The loop state: the parts, where the current part starts, and the tokens it holds.\<close>

definition fallback_step ::
  "pystr \<Rightarrow> nat \<Rightarrow> nat \<times> nat \<Rightarrow> pystr list \<times> nat \<times> nat \<Rightarrow> pystr list \<times> nat \<times> nat" where
  "fallback_step s max_tokens m st =
    (let (start, stop) = m; (parts0, start0, used0) = st;
         weight = fallback_token_weight (slice s start stop);
         (parts1, start1, used1) =
           (if used0 \<noteq> 0 \<and> used0 + weight > max_tokens then (parts0 @ [slice s start0 start], start, 0)
            else (parts0, start0, used0))
     in if weight > max_tokens
        then
          let (parts2, start2) = (if start1 < start then (parts1 @ [slice s start1 start], start) else (parts1, start1));
              width = (if ascii_alnum (s ! start) then max_tokens * 4 else max_tokens);
              (parts3, start3) = cut_token s width stop start2 parts2
          in (parts3, start3, fallback_token_weight (slice s start3 stop))
        else (parts1, start1, used1 + weight))"

definition split_fallback_text :: "pystr \<Rightarrow> nat \<Rightarrow> pystr list" where
  "split_fallback_text s max_tokens =
    (let (parts, part_start, used) = fold (fallback_step s max_tokens) (tokens_from 0 s) ([], 0, 0);
         parts' = (if part_start < length s then parts @ [drop part_start s] else parts)
     in if parts' = [] then [s] else parts')"

definition split_atomic_text :: "encoder option \<Rightarrow> pystr \<Rightarrow> nat \<Rightarrow> pystr list" where
  "split_atomic_text enc s max_tokens =
    (case enc of
       None \<Rightarrow> split_fallback_text s max_tokens
     | Some e \<Rightarrow> (case split_encoded_text s max_tokens e of
                    Some parts \<Rightarrow> parts | None \<Rightarrow> split_fallback_text s max_tokens))"

text \<open>\<open>re.split(r"(\n\s*\n|(?<=[.!?...])\s+)", text)\<close>: the separator at a position, given the character
  before it; the first alternative ends at the last line break of the run of spaces.\<close>

definition sentence_end :: "int \<Rightarrow> bool" where
  "sentence_end c = List.member [46, 33, 63, 0x3002, 0xFF01, 0xFF1F] c"

definition separator_len :: "int option \<Rightarrow> pystr \<Rightarrow> nat" where
  "separator_len prev s =
    (let run = takeWhile is_space s; upto = length (dropWhile (\<lambda>c. c \<noteq> 10) (rev run))
     in if s \<noteq> [] \<and> hd s = 10 \<and> 2 \<le> upto then upto
        else if (case prev of None \<Rightarrow> False | Some p \<Rightarrow> sentence_end p) then length run else 0)"

lemma separator_len_le: "separator_len prev s \<le> length s"
proof -
  have "length (dropWhile (\<lambda>c. c \<noteq> 10) (rev (takeWhile is_space s))) \<le> length (rev (takeWhile is_space s))"
    by (rule length_dropWhile_le)
  then show ?thesis using length_takeWhile_le [of is_space s] by (auto simp: separator_len_def Let_def split: option.split)
qed

function re_split :: "int option \<Rightarrow> pystr \<Rightarrow> pystr \<Rightarrow> pystr list" where
  "re_split prev acc s =
    (if s = [] then [rev acc]
     else
       let n = separator_len prev s
       in if n = 0 then re_split (Some (hd s)) (hd s # acc) (tl s)
          else rev acc # take n s # re_split (Some (s ! (n - 1))) [] (drop n s))"
  by pat_completeness auto
termination by (relation "measure (\<lambda>(prev, acc, s). length s)") auto

declare re_split.simps [simp del]

text \<open>The packing loop of \<open>_split_text_by_tokens\<close>: parts, the current units, their tokens.\<close>

fun pack_units ::
  "encoder option \<Rightarrow> nat \<Rightarrow> pystr list \<Rightarrow> pystr list \<Rightarrow> pystr list \<Rightarrow> nat \<Rightarrow> pystr list" where
  "pack_units enc max_tokens [] parts current tokens = (if current = [] then parts else parts @ [concat current])"
| "pack_units enc max_tokens (u # us) parts current tokens =
    (let n = estimate_tokens enc u; flushed = (if current = [] then parts else parts @ [concat current])
     in if n > max_tokens then pack_units enc max_tokens us (flushed @ split_atomic_text enc u max_tokens) [] 0
        else if current \<noteq> [] \<and> tokens + n > max_tokens then pack_units enc max_tokens us flushed [u] n
        else pack_units enc max_tokens us parts (current @ [u]) (tokens + n))"

definition split_text_by_tokens :: "encoder option \<Rightarrow> pystr \<Rightarrow> int \<Rightarrow> pystr list" where
  "split_text_by_tokens enc s limit =
    (let max_tokens = nat (max 1 limit); units = filter (\<lambda>u. u \<noteq> []) (re_split None [] s);
         parts = pack_units enc max_tokens units [] [] 0
     in if parts = [] then [s] else parts)"

end
