(* ===== verification/Chat_Chunks.thy ===== *)
theory Chat_Chunks
  imports Chat_Text "HOL-Library.Product_Lexorder"
begin

text \<open>
  From messages to chunks (server/chat_import.py): the normalized options, the turns of a
  conversation, the adaptive chunker with its overlaps, and the deterministic split of a chunk that
  the extraction could not digest. Token counts come from \<open>estimate_tokens\<close> of the installed
  encoder. A message's timestamp is read as the code reads it, errors included; what the standard library
  does with a single text or instant is the record \<open>date_lib\<close>.
\<close>

section \<open>Options\<close>

record import_options =
  io_entities :: "(pystr \<times> pystr) list"
  io_source_app :: pystr
  io_infer :: bool
  io_batch_id :: pystr
  io_skip_duplicates :: bool
  io_redact :: bool
  io_target_tokens :: int
  io_max_tokens :: int
  io_overlap_turns :: int
  io_gap_minutes :: int
  io_workers :: int
  io_max_workers :: int
  io_max_attempts :: int
  io_retry_base :: rat
  io_retry_max :: rat
  io_retry_jitter :: rat
  io_tiering :: bool
  io_audit_ratio :: rat
  io_max_split_depth :: int
  io_key_version :: int

text \<open>\<open>ImportOptions.__post_init__\<close>; \<open>None\<close> is its \<open>ValueError\<close>.\<close>

definition normalize_options :: "import_options \<Rightarrow> import_options option" where
  "normalize_options op =
    (if io_key_version op \<notin> {1, 2} then None
     else
       let target = max 4000 (min (io_target_tokens op) 6000); workers = max 1 (min (io_max_workers op) 4)
       in Some (op\<lparr>io_target_tokens := target,
                   io_max_tokens := max target (min (io_max_tokens op) 6000),
                   io_overlap_turns := max 0 (min (io_overlap_turns op) 2),
                   io_max_workers := workers,
                   io_workers := max 1 (min (io_workers op) workers),
                   io_max_attempts := max 1 (io_max_attempts op),
                   io_audit_ratio := max 0 (min (io_audit_ratio op) 1)\<rparr>))"

section \<open>Messages and turns\<close>

record chat_message =
  cm_role :: pystr
  cm_content :: pystr
  cm_created :: json
  cm_index :: "int option"
  cm_part :: int

text \<open>The constructor removes embedded data.\<close>

definition new_message :: "pystr \<Rightarrow> pystr \<Rightarrow> json \<Rightarrow> int option \<Rightarrow> int \<Rightarrow> chat_message" where
  "new_message role content created index part =
    \<lparr>cm_role = role, cm_content = strip_inline_base64_data_uris content, cm_created = created,
     cm_index = index, cm_part = part\<rparr>"

definition copy_message :: "chat_message \<Rightarrow> pystr \<Rightarrow> int \<Rightarrow> chat_message" where
  "copy_message m content part = new_message (cm_role m) content (cm_created m) (cm_index m) part"

definition split_long_message_tokens :: "encoder option \<Rightarrow> chat_message \<Rightarrow> int \<Rightarrow> chat_message list" where
  "split_long_message_tokens enc m max_tokens =
    map (\<lambda>(i, s). copy_message m s (int i)) (enumerate 0 (split_text_by_tokens enc (cm_content m) max_tokens))"

definition ensure_source_indices :: "chat_message list \<Rightarrow> chat_message list" where
  "ensure_source_indices ms =
    map (\<lambda>(i, m). new_message (cm_role m) (cm_content m) (cm_created m)
                     (Some (case cm_index m of Some k \<Rightarrow> k | None \<Rightarrow> int i)) (cm_part m))
      (enumerate 0 ms)"

record turn =
  tn_messages :: "chat_message list"
  tn_tokens :: int

definition message_tokens :: "encoder option \<Rightarrow> chat_message \<Rightarrow> int" where
  "message_tokens enc m = int (estimate_tokens enc (cm_content m)) + 6"

definition turn_of :: "encoder option \<Rightarrow> chat_message list \<Rightarrow> turn" where
  "turn_of enc ms = \<lparr>tn_messages = ms, tn_tokens = sum_list (map (message_tokens enc) ms)\<rparr>"

definition user_role :: pystr where "user_role = U ''user''"
definition assistant_role :: pystr where "assistant_role = U ''assistant''"

text \<open>A turn starts at a user message that is not a further part of the user message before.\<close>

fun group_turns ::
  "encoder option \<Rightarrow> chat_message list \<Rightarrow> chat_message list \<Rightarrow> int option \<Rightarrow> turn list" where
  "group_turns enc [] current user = (if current = [] then [] else [turn_of enc current])"
| "group_turns enc (m # ms) current user =
    (if cm_role m = user_role \<and> current \<noteq> [] \<and> cm_index m \<noteq> user
     then turn_of enc current # group_turns enc ms [m] (cm_index m)
     else group_turns enc ms (current @ [m]) (if cm_role m = user_role then cm_index m else user))"

text \<open>A turn that is too long is cut into batches.\<close>

fun batch_turn ::
  "encoder option \<Rightarrow> int \<Rightarrow> chat_message list \<Rightarrow> chat_message list \<Rightarrow> int \<Rightarrow> turn list" where
  "batch_turn enc max_tokens [] batch tokens = (if batch = [] then [] else [\<lparr>tn_messages = batch, tn_tokens = tokens\<rparr>])"
| "batch_turn enc max_tokens (m # ms) batch tokens =
    (let n = message_tokens enc m
     in if batch \<noteq> [] \<and> tokens + n > max_tokens
        then \<lparr>tn_messages = batch, tn_tokens = tokens\<rparr> # batch_turn enc max_tokens ms [m] n
        else batch_turn enc max_tokens ms (batch @ [m]) (tokens + n))"

definition build_turns :: "encoder option \<Rightarrow> chat_message list \<Rightarrow> int \<Rightarrow> turn list" where
  "build_turns enc ms max_tokens =
    (let expanded = concat (map (\<lambda>m. split_long_message_tokens enc m (max_tokens - 16)) (ensure_source_indices ms));
         turns = group_turns enc expanded [] None
     in concat (map (\<lambda>t. if tn_tokens t \<le> max_tokens then [t] else batch_turn enc max_tokens (tn_messages t) [] 0) turns))"

section \<open>Reading a date\<close>

text \<open>What stops the chunker: parts of one message that have different roles, or an \<open>OverflowError\<close> with its text.\<close>

datatype chunk_error = RoleConflict int | DateOverflow pystr

text \<open>The standard library on single values: \<open>str\<close> of a list or an object; \<open>float\<close> of a text (\<open>None\<close> for its \<open>ValueError\<close>,
  \<open>Some None\<close> for an infinity or no number); \<open>isoformat\<close> of an instant in UTC; \<open>datetime.fromisoformat\<close> (\<open>None\<close> for its
  \<open>ValueError\<close>), a local time with its offset from UTC if it has one; and \<open>timestamp\<close> of a local time without offset
  (the text of its \<open>OverflowError\<close>, or \<open>None\<close> for its \<open>ValueError\<close>). Times are microseconds from the start of the year 1.\<close>

record date_lib =
  dl_text :: "json \<Rightarrow> pystr"
  dl_float :: "pystr \<Rightarrow> rat option option"
  dl_isoformat :: "int \<Rightarrow> pystr"
  dl_fromisoformat :: "pystr \<Rightarrow> (int \<times> int option) option"
  dl_local_timestamp :: "int \<Rightarrow> pystr + rat option"

definition unix_epoch :: int where "unix_epoch = 719162 * 86400 * 1000000"
definition last_instant :: int where "last_instant = 3652059 * 86400 * 1000000 - 1"

definition date_range :: "int \<Rightarrow> bool" where
  "date_range us \<longleftrightarrow> 0 \<le> us \<and> us \<le> last_instant"

text \<open>\<open>datetime.fromtimestamp(seconds, timezone.utc).isoformat()\<close>, with the errors that are caught.\<close>

definition utc_isoformat :: "date_lib \<Rightarrow> rat \<Rightarrow> pystr option" where
  "utc_isoformat dl seconds =
    (let us = unix_epoch + round_half_even (seconds * 1000000) in if date_range us then Some (dl_isoformat dl us) else None)"

text \<open>A true division of an integer has to fit a float.\<close>

definition milliseconds :: "int \<Rightarrow> chunk_error + rat" where
  "milliseconds n =
    (if n \<le> 10000000000 then Inr (of_int n)
     else if n \<ge> 1000 * (2 ^ 1024 - 2 ^ 970) then Inl (DateOverflow (U ''integer division result too large for a float''))
     else Inr (of_int n / 1000))"

definition strip_chars :: "(int \<Rightarrow> bool) \<Rightarrow> pystr \<Rightarrow> pystr" where
  "strip_chars p s = rev (dropWhile p (rev (dropWhile p s)))"

text \<open>\<open>text.replace("Z", "+00:00")\<close>.\<close>

definition zulu_offset :: "pystr \<Rightarrow> pystr" where
  "zulu_offset s = concat (map (\<lambda>c. if c = 90 then U ''+00:00'' else [c]) s)"

definition coerce_iso_text :: "date_lib \<Rightarrow> pystr \<Rightarrow> chunk_error + pystr option" where
  "coerce_iso_text dl s =
    (let stripped = strip_chars (\<lambda>c. c = 39) (strip_chars (\<lambda>c. c = 34) (py_strip s))
     in if stripped = [] then Inr None
        else case dl_float dl stripped of
          Some None \<Rightarrow> Inr None
        | Some (Some x) \<Rightarrow> Inr (utc_isoformat dl (if x > 10000000000 then x / 1000 else x))
        | None \<Rightarrow>
            (case dl_fromisoformat dl (zulu_offset stripped) of
               None \<Rightarrow> Inr (Some stripped)
             | Some (us, offset) \<Rightarrow>
                 let utc = us - (case offset of None \<Rightarrow> 0 | Some d \<Rightarrow> d)
                 in if date_range utc then Inr (Some (dl_isoformat dl utc)) else Inl (DateOverflow (U ''date value out of range''))))"

definition coerce_iso_datetime :: "date_lib \<Rightarrow> json \<Rightarrow> chunk_error + pystr option" where
  "coerce_iso_datetime dl v =
    (case v of
       JNull \<Rightarrow> Inr None
     | JBool b \<Rightarrow> Inr None
     | JInt n \<Rightarrow> bind_err (milliseconds n) (\<lambda>x. Inr (utc_isoformat dl x))
     | JFloat x \<Rightarrow> Inr (utc_isoformat dl (if x > 10000000000 then x / 1000 else x))
     | JStr s \<Rightarrow> coerce_iso_text dl s
     | _ \<Rightarrow> coerce_iso_text dl (dl_text dl v))"

definition timestamp_seconds :: "date_lib \<Rightarrow> json \<Rightarrow> chunk_error + rat option" where
  "timestamp_seconds dl v =
    bind_err (coerce_iso_datetime dl v) (\<lambda>normalized.
      case normalized of
        None \<Rightarrow> Inr None
      | Some s \<Rightarrow>
          if s = [] then Inr None
          else case dl_fromisoformat dl (zulu_offset s) of
            None \<Rightarrow> Inr None
          | Some (us, Some offset) \<Rightarrow> Inr (Some (of_int (us - offset - unix_epoch) / 1000000))
          | Some (us, None) \<Rightarrow> (case dl_local_timestamp dl us of Inl s \<Rightarrow> Inl (DateOverflow s) | Inr x \<Rightarrow> Inr x))"

section \<open>Where a conversation breaks\<close>

text \<open>\<open>_TERM_RE\<close>: the terms of a text, in lower case; case only exists in their ASCII letters.\<close>

definition term_char :: "int \<Rightarrow> bool" where
  "term_char c = (ascii_letter c \<or> ascii_digit c \<or> c = 95 \<or> c = 45)"

definition term_len :: "pystr \<Rightarrow> nat" where
  "term_len s =
    (case s of
       [] \<Rightarrow> 0
     | c # cs \<Rightarrow>
         if ascii_letter c \<and> 2 \<le> run_len term_char cs then 1 + run_len term_char cs
         else let n = run_len (\<lambda>c. 0x3400 \<le> c \<and> c \<le> 0x9FFF) s in if 2 \<le> n then n else 0)"

function terms_in :: "pystr \<Rightarrow> pystr list" where
  "terms_in s =
    (if s = [] then []
     else if term_len s = 0 then terms_in (tl s)
     else take (term_len s) s # terms_in (drop (term_len s) s))"
  by pat_completeness auto
termination by (relation "measure length") auto

declare terms_in.simps [simp del]

definition ascii_lower :: "int \<Rightarrow> int" where
  "ascii_lower c = (if 65 \<le> c \<and> c \<le> 90 then c + 32 else c)"

fun join_with :: "pystr \<Rightarrow> pystr list \<Rightarrow> pystr" where
  "join_with sep [] = []"
| "join_with sep [s] = s"
| "join_with sep (s # ss) = s @ sep @ join_with sep ss"

definition turn_terms :: "turn \<Rightarrow> pystr list" where
  "turn_terms t =
    dedup (map (map ascii_lower) (filter (\<lambda>w. length w \<le> 80)
      (terms_in (join_with [32] (map cm_content (tn_messages t))))))"

text \<open>\<open>re.search(r"(?m)^#{1,6}\s+", ...)\<close>.\<close>

definition heading_at :: "pystr \<Rightarrow> bool" where
  "heading_at s =
    (let n = run_len (\<lambda>c. c = 35) s in 1 \<le> n \<and> n \<le> 6 \<and> n < length s \<and> is_space (s ! n))"

fun has_heading :: "bool \<Rightarrow> pystr \<Rightarrow> bool" where
  "has_heading line_start [] = False"
| "has_heading line_start (c # cs) = (line_start \<and> heading_at (c # cs) \<or> has_heading (c = 10) cs)"

definition strong_turn_boundary :: "date_lib \<Rightarrow> turn \<Rightarrow> turn \<Rightarrow> int \<Rightarrow> chunk_error + bool" where
  "strong_turn_boundary dl earlier later gap_minutes =
    bind_err (timestamp_seconds dl (cm_created (last (tn_messages earlier)))) (\<lambda>previous_time.
    bind_err (timestamp_seconds dl (cm_created (hd (tn_messages later)))) (\<lambda>following_time. Inr (
      (case (previous_time, following_time) of
         (Some a, Some b) \<Rightarrow> b - a \<ge> of_int (gap_minutes * 60)
       | _ \<Rightarrow> False) \<or>
      (let p = turn_terms earlier; f = turn_terms later;
           both = length (filter (\<lambda>w. w \<in> set f) p); all = length (dedup (p @ f))
       in p \<noteq> [] \<and> f \<noteq> [] \<and> 20 * both < all) \<or>
      has_heading True (cm_content (hd (tn_messages later))))))"

section \<open>Chunks\<close>

record message_chunk =
  ck_messages :: "chat_message list"
  ck_tokens :: int
  ck_indices :: "int list"
  ck_core :: "int list"
  ck_overlap :: nat
  ck_depth :: int
  ck_parent :: "pystr option"

text \<open>The parts of a message are put together again; parts with different roles are refused.\<close>

fun merge_fragments :: "chat_message list \<Rightarrow> chat_message list \<Rightarrow> chunk_error + chat_message list" where
  "merge_fragments [] merged = Inr merged"
| "merge_fragments (m # ms) merged =
    (case cm_index m of
       None \<Rightarrow> merge_fragments ms
         (merged @ [new_message (cm_role m) (cm_content m) (cm_created m) (cm_index m) (cm_part m)])
     | Some i \<Rightarrow>
         (case List.find (\<lambda>e. cm_index e = Some i) merged of
            None \<Rightarrow> merge_fragments ms
              (merged @ [new_message (cm_role m) (cm_content m) (cm_created m) (cm_index m) (cm_part m)])
          | Some e \<Rightarrow>
              if cm_role e \<noteq> cm_role m then Inl (RoleConflict i)
              else merge_fragments ms
                (map (\<lambda>e. if cm_index e = Some i then e\<lparr>cm_content := cm_content e @ cm_content m\<rparr> else e) merged)))"

definition indices_of :: "chat_message list \<Rightarrow> int list" where
  "indices_of ms = dedup (List.map_filter cm_index ms)"

definition turns_messages :: "turn list \<Rightarrow> chat_message list" where
  "turns_messages ts = concat (map tn_messages ts)"

definition chunk_from_turns ::
  "encoder option \<Rightarrow> turn list \<Rightarrow> nat \<Rightarrow> int \<Rightarrow> pystr option \<Rightarrow> int list option \<Rightarrow> chunk_error + message_chunk" where
  "chunk_from_turns enc turns leading depth parent core =
    bind_err (merge_fragments (turns_messages turns) []) (\<lambda>ms.
      let all_indices = indices_of ms;
          core_indices = (case core of
             None \<Rightarrow> indices_of (turns_messages (drop (min leading (length turns)) turns))
           | Some allowed \<Rightarrow> filter (\<lambda>i. i \<in> set allowed) all_indices)
      in Inr \<lparr>ck_messages = ms, ck_tokens = sum_list (map (message_tokens enc) ms), ck_indices = all_indices,
              ck_core = (if core \<noteq> None then core_indices else if core_indices = [] then all_indices else core_indices),
              ck_overlap = leading, ck_depth = depth, ck_parent = parent\<rparr>)"

section \<open>The adaptive chunker\<close>

text \<open>The variables of the loop. The chunks are kept as the arguments of \<open>_chunk_from_turns\<close>: the turns
  and how many of them repeat the end of the chunk before.\<close>

record chunker =
  ch_groups :: "(turn list \<times> nat) list"
  ch_current :: "turn list"
  ch_tokens :: int
  ch_leading :: nat

definition turns_tokens :: "turn list \<Rightarrow> int" where
  "turns_tokens ts = sum_list (map tn_tokens ts)"

text \<open>\<open>xs[-k:]\<close> for a positive \<open>k\<close>.\<close>

definition last_turns :: "int \<Rightarrow> turn list \<Rightarrow> turn list" where
  "last_turns k ts = (if k = 0 then [] else drop (length ts - nat k) ts)"

definition emit :: "int \<Rightarrow> chunker \<Rightarrow> chunker" where
  "emit overlap_turns c =
    (if ch_current c = [] \<or> length (ch_current c) \<le> ch_leading c then c
     else
       let overlap = last_turns overlap_turns (ch_current c)
       in \<lparr>ch_groups = ch_groups c @ [(ch_current c, ch_leading c)], ch_current = overlap,
           ch_tokens = turns_tokens overlap, ch_leading = length overlap\<rparr>)"

definition pop_turn :: "chunker \<Rightarrow> chunker" where
  "pop_turn c =
    c\<lparr>ch_current := tl (ch_current c), ch_leading := ch_leading c - 1, ch_tokens := turns_tokens (tl (ch_current c))\<rparr>"

lemma length_last_turns: "length (last_turns k ts) \<le> length ts"
  by (simp add: last_turns_def)

function make_room :: "int \<Rightarrow> int \<Rightarrow> int \<Rightarrow> chunker \<Rightarrow> chunker" where
  "make_room overlap_turns max_tokens n c =
    (if ch_current c \<noteq> [] \<and> ch_tokens c + n > max_tokens
     then if length (ch_current c) > ch_leading c
          then make_room overlap_turns max_tokens n (emit overlap_turns c)
          else make_room overlap_turns max_tokens n (pop_turn c)
     else c)"
  by pat_completeness auto
termination
proof (relation "measure (\<lambda>(k, m, n, c). 2 * length (ch_current c) + (if ch_leading c < length (ch_current c) then 1 else 0))",
    goal_cases)
  case (2 k m n c)
  then show ?case using length_last_turns [of k "ch_current c"] by (auto simp: emit_def Let_def)
next
  case (3 k m n c)
  then have "0 < length (ch_current c)" by simp
  with 3 show ?case by (auto simp: pop_turn_def)
qed simp

declare make_room.simps [simp del]

function drop_overlap :: "int \<Rightarrow> int \<Rightarrow> chunker \<Rightarrow> chunker" where
  "drop_overlap max_tokens n c =
    (if ch_current c \<noteq> [] \<and> ch_tokens c + n > max_tokens then drop_overlap max_tokens n (pop_turn c) else c)"
  by pat_completeness auto
termination by (relation "measure (\<lambda>(m, n, c). length (ch_current c))") (auto simp: pop_turn_def)

declare drop_overlap.simps [simp del]

text \<open>Asking whether a turn starts something new can fail: with the error go the chunks emitted before.\<close>

definition add_turn ::
  "(turn \<Rightarrow> turn \<Rightarrow> int \<Rightarrow> chunk_error + bool) \<Rightarrow> import_options \<Rightarrow> turn \<Rightarrow> chunker \<Rightarrow> ((turn list \<times> nat) list \<times> chunk_error) + chunker" where
  "add_turn boundary op t c =
    (let k = io_overlap_turns op; limit = io_max_tokens op; n = tn_tokens t;
         c1 = make_room k limit n c
     in case (if ch_current c1 \<noteq> [] \<and> length (ch_current c1) > ch_leading c1 \<and> ch_tokens c1 \<ge> 4000
              then boundary (last (ch_current c1)) t (io_gap_minutes op) else Inr False) of
          Inl e \<Rightarrow> Inl (ch_groups c1, e)
        | Inr strong \<Rightarrow>
            let c2 = (if strong then drop_overlap limit n (emit k c1) else c1);
                c3 = c2\<lparr>ch_current := ch_current c2 @ [t], ch_tokens := ch_tokens c2 + n\<rparr>
            in Inr (if ch_tokens c3 \<ge> io_target_tokens op \<and> ch_tokens c3 \<ge> 4000 then emit k c3 else c3))"

fun add_turns ::
  "(turn \<Rightarrow> turn \<Rightarrow> int \<Rightarrow> chunk_error + bool) \<Rightarrow> import_options \<Rightarrow> turn list \<Rightarrow> chunker
   \<Rightarrow> ((turn list \<times> nat) list \<times> chunk_error) + chunker" where
  "add_turns boundary op [] c = Inr c"
| "add_turns boundary op (t # ts) c = bind_err (add_turn boundary op t c) (add_turns boundary op ts)"

definition plan_chunks ::
  "(turn \<Rightarrow> turn \<Rightarrow> int \<Rightarrow> chunk_error + bool) \<Rightarrow> import_options \<Rightarrow> turn list
   \<Rightarrow> ((turn list \<times> nat) list \<times> chunk_error) + (turn list \<times> nat) list" where
  "plan_chunks boundary op turns =
    bind_err (add_turns boundary op turns \<lparr>ch_groups = [], ch_current = [], ch_tokens = 0, ch_leading = 0\<rparr>) (\<lambda>c.
      Inr (if ch_current c \<noteq> [] \<and> length (ch_current c) > ch_leading c
           then ch_groups c @ [(ch_current c, ch_leading c)] else ch_groups c))"

fun collect :: "('e + 'a) list \<Rightarrow> 'e + 'a list" where
  "collect [] = Inr []"
| "collect (x # xs) = bind_err x (\<lambda>y. bind_err (collect xs) (\<lambda>ys. Inr (y # ys)))"

definition adaptive_chunk_messages ::
  "encoder option \<Rightarrow> date_lib \<Rightarrow> chat_message list \<Rightarrow> import_options \<Rightarrow> chunk_error + message_chunk list" where
  "adaptive_chunk_messages enc dl ms op =
    (let chunks_of = (\<lambda>groups. collect (map (\<lambda>(ts, leading). chunk_from_turns enc ts leading 0 None None) groups))
     in case plan_chunks (strong_turn_boundary dl) op (build_turns enc ms (io_max_tokens op)) of
          Inl (groups, e) \<Rightarrow> bind_err (chunks_of groups) (\<lambda>_. Inl e)
        | Inr groups \<Rightarrow> chunks_of groups)"

section \<open>Splitting a chunk\<close>

definition message_indices :: "chat_message list \<Rightarrow> int set" where
  "message_indices ms = set (List.map_filter cm_index ms)"

text \<open>The candidates for the cut: after \<open>index\<close> turns, ranked by whether the cut separates a question from
  its answer, by how many messages it cuts through, and by how unequal the halves are.\<close>

definition split_candidates :: "int list \<Rightarrow> turn list \<Rightarrow> (int \<times> int \<times> rat \<times> nat) list" where
  "split_candidates core turns =
    List.map_filter (\<lambda>k.
      let before = message_indices (turns_messages (take k turns)) \<inter> set core;
          after = message_indices (turns_messages (drop k turns)) \<inter> set core;
          previous = tn_messages (turns ! (k - 1)); following = tn_messages (turns ! k);
          cut_answer = (previous \<noteq> [] \<and> cm_role (last previous) = user_role \<and>
                        following \<noteq> [] \<and> cm_role (hd following) = assistant_role);
          running = of_int (turns_tokens (take k turns)) :: rat; target = of_int (turns_tokens turns) / 2
      in if before \<noteq> {} \<and> after \<noteq> {}
         then Some (if cut_answer then 1 else 0, int (card (before \<inter> after)), \<bar>running - target\<bar>, k) else None)
      [1..<length turns]"

text \<open>The question kept as context when the second half starts inside an answer.\<close>

definition context_question :: "encoder option \<Rightarrow> turn list \<Rightarrow> turn list \<Rightarrow> chat_message option" where
  "context_question enc before after =
    (if after \<noteq> [] \<and> tn_messages (hd after) \<noteq> [] \<and> cm_role (hd (tn_messages (hd after))) = assistant_role
     then List.find (\<lambda>m. cm_role m = user_role \<and>
            (case cm_index m of None \<Rightarrow> False | Some i \<Rightarrow> i \<notin> message_indices (turns_messages after)) \<and>
            estimate_tokens enc (cm_content m) \<le> 500)
          (concat (map (\<lambda>t. rev (tn_messages t)) (rev before)))
     else None)"

definition split_child ::
  "encoder option \<Rightarrow> message_chunk \<Rightarrow> pystr \<Rightarrow> turn list \<Rightarrow> int set \<Rightarrow> (chunk_error + message_chunk) option" where
  "split_child enc chunk key half overlap =
    (let child_core = filter (\<lambda>i. i \<notin> overlap \<and> i \<in> set (ck_core chunk)) (indices_of (turns_messages half));
         leading = length (takeWhile (\<lambda>t. message_indices (tn_messages t) \<inter> set child_core = {}) half)
     in if half = [] \<or> child_core = [] then None
        else Some (chunk_from_turns enc half leading (ck_depth chunk + 1) (Some key) (Some child_core)))"

text \<open>The turns the cut chooses from: those of the chunk's own messages or, when there is only one, the
  pieces of its messages.\<close>

definition split_turns :: "encoder option \<Rightarrow> message_chunk \<Rightarrow> turn list" where
  "split_turns enc chunk =
    (let own = filter (\<lambda>m. case cm_index m of None \<Rightarrow> False | Some i \<Rightarrow> i \<in> set (ck_core chunk)) (ck_messages chunk);
         turns = build_turns enc own (max 1000 (min 3000 (max 1 (ck_tokens chunk div 2))))
     in if length turns < 2
        then map (\<lambda>m. turn_of enc [m])
               (concat (map (\<lambda>m. split_long_message_tokens enc m (max 500 (ck_tokens chunk div 2))) own))
        else turns)"

definition split_message_chunk :: "encoder option \<Rightarrow> message_chunk \<Rightarrow> pystr \<Rightarrow> chunk_error + message_chunk list" where
  "split_message_chunk enc chunk key =
    (let turns = split_turns enc chunk; candidates = split_candidates (ck_core chunk) turns
     in if length turns < 2 \<or> candidates = [] then Inr []
        else
          let (_, _, _, k) = Min (set candidates); before = take k turns; after = drop k turns;
              (after', overlap) =
                (case context_question enc before after of
                   None \<Rightarrow> (after, {})
                 | Some q \<Rightarrow> (turn_of enc [q] # after, (case cm_index q of None \<Rightarrow> {} | Some i \<Rightarrow> {i})))
          in case (split_child enc chunk key before {}, split_child enc chunk key after' overlap) of
               (Some a, Some b) \<Rightarrow> bind_err a (\<lambda>x. bind_err b (\<lambda>y. Inr [x, y]))
             | (Some (Inl e), None) \<Rightarrow> Inl e
             | _ \<Rightarrow> Inr [])"

end
