(* ===== verification/Import_Runner.thy ===== *)
theory Import_Runner
  imports Chat_Chunks
begin

text \<open>
  The worker's side of an import job (server/chat_import.py): the classification of exceptions, and
  \<open>process_chunk\<close> with its claim loop, its attempts, its splits and its counters. What the code
  calls (the hooks, the store, the limiter, the sleep, the cancellation flags) is an environment
  of functions on an arbitrary world, which each answer and change that world; the counters the
  worker increments, the store calls it makes and the states it reports are recorded. The import
  key of a chunk (a SHA-256 hash) is a function of the environment. \<open>en_duplicate\<close> is there only when
  the code consults it: when neither existing keys nor claims are available.
\<close>

section \<open>Exceptions\<close>

text \<open>One exception of the chain \<open>_exception_chain\<close> walks: the names of the classes it is an instance of,
  its own first; its status code and its response's, where they are numbers; its text; its
  \<open>reason\<close>; whether it says that storage is full; and what is looked up for a diagnosis: its
  module, the texts of its \<open>code\<close> and its error's, the part of the import it came from, and
  SQLite's code and name of the error (no text stands for a missing one).\<close>

record exn_link =
  ex_classes :: "pystr list"
  ex_status :: "int option"
  ex_response_status :: "int option"
  ex_text :: pystr
  ex_reason :: pystr
  ex_capacity :: bool
  ex_module :: pystr
  ex_codes :: "pystr list"
  ex_subphase :: pystr
  ex_sqlite_code :: "int option"
  ex_sqlite_name :: pystr

type_synonym exn = "exn_link list"

text \<open>A built-in exception with a text.\<close>

definition builtin_exn :: "string list \<Rightarrow> pystr \<Rightarrow> exn" where
  "builtin_exn classes message =
    [\<lparr>ex_classes = map U classes, ex_status = None, ex_response_status = None, ex_text = message, ex_reason = [],
      ex_capacity = False, ex_module = U ''builtins'', ex_codes = [], ex_subphase = [], ex_sqlite_code = None,
      ex_sqlite_name = []\<rparr>]"

fun contains :: "pystr \<Rightarrow> pystr \<Rightarrow> bool" where
  "contains p [] = (p = [])"
| "contains p (c # cs) = (take (length p) (c # cs) = p \<or> contains p cs)"

text \<open>\<open>str.lower\<close> as far as ASCII results go: the ASCII capitals, the Kelvin sign, and the dotted I.\<close>

definition lower_text :: "pystr \<Rightarrow> pystr" where
  "lower_text s = concat (map (\<lambda>c. if c = 0x212A then [107] else if c = 0x130 then [105, 0x307] else [ascii_lower c]) s)"

fun status_code :: "exn \<Rightarrow> int option" where
  "status_code [] = None"
| "status_code (x # xs) =
    (case ex_status x of Some n \<Rightarrow> Some n
     | None \<Rightarrow> (case ex_response_status x of Some n \<Rightarrow> Some n | None \<Rightarrow> status_code xs))"

definition error_text :: "exn \<Rightarrow> pystr" where
  "error_text e = join_with (U '' | '')
    (map (\<lambda>x. lower_text (py_strip (ex_text x))) (filter (\<lambda>x. py_strip (ex_text x) \<noteq> []) e))"

definition permanent_statuses :: "int list" where
  "permanent_statuses = [400, 401, 403, 404]"

definition permanent_classes :: "pystr list" where
  "permanent_classes = map U [''AssertionError'', ''KeyError'', ''PermissionError'', ''TypeError'', ''ValueError'']"

definition permanent_names :: "pystr list" where
  "permanent_names =
    map U [''AuthenticationError'', ''ConfigurationError'', ''ConfigError'', ''PermissionDeniedError'', ''ValidationError'']"

definition structural_reasons :: "pystr list" where
  "structural_reasons = map U [''invalid_json'', ''invalid_schema'', ''missing_core_evidence'']"

text \<open>The status code is looked for from the exception at hand to the end of the chain.\<close>

fun is_permanent_import_error :: "exn \<Rightarrow> bool" where
  "is_permanent_import_error [] = False"
| "is_permanent_import_error (x # xs) =
    (U ''PermanentImportError'' \<in> set (ex_classes x) \<or>
     (case status_code (x # xs) of None \<Rightarrow> False | Some n \<Rightarrow> n \<in> set permanent_statuses) \<or>
     list_ex (\<lambda>c. c \<in> set permanent_classes) (ex_classes x) \<or>
     (ex_classes x \<noteq> [] \<and> hd (ex_classes x) \<in> set permanent_names) \<or>
     is_permanent_import_error xs)"

definition is_import_capacity_error :: "exn \<Rightarrow> bool" where
  "is_import_capacity_error e = list_ex ex_capacity e"

definition status_in :: "exn \<Rightarrow> int list \<Rightarrow> bool" where
  "status_in e ns = (case status_code e of None \<Rightarrow> False | Some n \<Rightarrow> n \<in> set ns)"

definition mentions :: "exn \<Rightarrow> string list \<Rightarrow> bool" where
  "mentions e markers = list_ex (\<lambda>m. contains (U m) (error_text e)) markers"

definition is_pressure_error :: "exn \<Rightarrow> bool" where
  "is_pressure_error e =
    (status_in e [408, 429, 502, 503, 504] \<or>
     mentions e [''429'', ''rate limit'', ''too many requests'', ''timed out'', ''timeout''])"

definition is_timeout_error :: "exn \<Rightarrow> bool" where
  "is_timeout_error e = (status_in e [408, 504] \<or> mentions e [''timed out'', ''timeout''])"

definition is_structural_chunk_error :: "exn \<Rightarrow> bool" where
  "is_structural_chunk_error e =
    (list_ex (\<lambda>x. lower_text (py_strip (ex_reason x)) \<in> set structural_reasons) e \<or>
     mentions e [''truncated'', ''output limit'', ''max_tokens'', ''invalid json'', ''schema'',
                 ''missing the '' @ [CHR 0x27] @ ''memory'' @ [CHR 0x27], ''cites only overlap evidence''])"

text \<open>How \<open>process_chunk\<close> reads them.\<close>

definition permanent_failure :: "exn \<Rightarrow> bool" where
  "permanent_failure e = (is_permanent_import_error e \<and> \<not> (is_pressure_error e \<or> is_structural_chunk_error e))"

definition retryable :: "exn \<Rightarrow> bool" where
  "retryable e = (is_import_capacity_error e \<or> \<not> permanent_failure e)"

definition retry_immediately :: "exn \<Rightarrow> bool" where
  "retry_immediately e = (retryable e \<and> \<not> is_import_capacity_error e)"

text \<open>\<open>attempt\<close> counts from 0.\<close>

definition should_split :: "import_options \<Rightarrow> message_chunk \<Rightarrow> exn \<Rightarrow> int \<Rightarrow> bool" where
  "should_split op chunk e attempt =
    ((is_structural_chunk_error e \<and>
        (contains (U ''truncat'') (error_text e) \<or> contains (U ''output limit'') (error_text e) \<or>
         attempt + 1 \<ge> io_max_attempts op)) \<or>
     (is_timeout_error e \<and> ck_tokens chunk \<ge> 2000 \<and> attempt + 1 \<ge> min 2 (io_max_attempts op)))"

section \<open>The environment\<close>

datatype run_exn = LeaseLost | Raised exn | RunError pystr | SplitError chunk_error

datatype store_outcome =
    Stored int bool
  | StoreLeaseLost
  | StoreCancelled
  | StoreFailed exn

record 'w env =
  en_key :: "message_chunk \<Rightarrow> pystr"
  en_cancelled :: "'w \<Rightarrow> bool \<times> 'w"
  en_external :: "'w \<Rightarrow> bool \<times> 'w"
  en_sleep :: "'w \<Rightarrow> bool \<times> 'w"
  en_existing :: "pystr list"
  en_claim :: "(pystr \<Rightarrow> int \<Rightarrow> 'w \<Rightarrow> (run_exn + pystr) \<times> 'w) option"
  en_update :: "(pystr \<Rightarrow> pystr \<Rightarrow> 'w \<Rightarrow> (run_exn + unit) \<times> 'w) option"
  en_duplicate :: "(pystr \<Rightarrow> 'w \<Rightarrow> (run_exn + bool) \<times> 'w) option"
  en_acquire :: "'w \<Rightarrow> bool \<times> 'w"
  en_store :: "pystr \<Rightarrow> int \<Rightarrow> 'w \<Rightarrow> store_outcome \<times> 'w"

record 'w runner =
  rn_world :: 'w
  rn_fence_lost :: bool
  rn_total :: int
  rn_processed :: int
  rn_imported :: int
  rn_skipped :: int
  rn_failed :: int
  rn_retried :: int
  rn_split :: int
  rn_memories :: int
  rn_errors :: int
  rn_stores :: "(pystr \<times> int) list"
  rn_reports :: "(pystr \<times> pystr) list"

definition ask :: "('w \<Rightarrow> bool \<times> 'w) \<Rightarrow> 'w runner \<Rightarrow> bool \<times> 'w runner" where
  "ask q r = (let (b, w) = q (rn_world r) in (b, r\<lparr>rn_world := w\<rparr>))"

text \<open>\<open>cancelled()\<close> and \<open>externally_cancelled()\<close>: a lost lease counts as cancelled.\<close>

definition ask_cancelled :: "'w env \<Rightarrow> 'w runner \<Rightarrow> bool \<times> 'w runner" where
  "ask_cancelled en r = (let (b, r') = ask (en_cancelled en) r in (rn_fence_lost r \<or> b, r'))"

definition ask_external :: "'w env \<Rightarrow> 'w runner \<Rightarrow> bool \<times> 'w runner" where
  "ask_external en r = (if rn_fence_lost r then (True, r) else ask (en_external en) r)"

text \<open>\<open>hooks.update_chunk\<close>, when there is one.\<close>

definition report :: "'w env \<Rightarrow> pystr \<Rightarrow> string \<Rightarrow> 'w runner \<Rightarrow> (run_exn + unit) \<times> 'w runner" where
  "report en key state r =
    (case en_update en of
       None \<Rightarrow> (Inr (), r)
     | Some f \<Rightarrow> let (res, w) = f key (U state) (rn_world r)
                 in (res, r\<lparr>rn_world := w, rn_reports := rn_reports r @ [(key, U state)]\<rparr>))"

text \<open>A report, then the result; an exception of the report takes its place.\<close>

definition report_then :: "'w env \<Rightarrow> pystr \<Rightarrow> string \<Rightarrow> bool \<Rightarrow> 'w runner \<Rightarrow> (run_exn + bool) \<times> 'w runner" where
  "report_then en key state result r =
    (case report en key state r of (Inl e, r') \<Rightarrow> (Inl e, r') | (Inr _, r') \<Rightarrow> (Inr result, r'))"

text \<open>A claimed chunk is handed back unless the job has been taken away from this worker.\<close>

definition give_back :: "'w env \<Rightarrow> pystr \<Rightarrow> bool \<Rightarrow> 'w runner \<Rightarrow> (run_exn + bool) \<times> 'w runner" where
  "give_back en key claimed r =
    (if claimed \<and> en_update en \<noteq> None
     then let (ext, r1) = ask_external en r in if ext then (Inr False, r1) else report_then en key ''cancelled'' False r1
     else (Inr False, r))"

definition count_skipped :: "'w runner \<Rightarrow> 'w runner" where
  "count_skipped r = r\<lparr>rn_processed := rn_processed r + 1, rn_skipped := rn_skipped r + 1\<rparr>"

definition count_failed :: "'w runner \<Rightarrow> 'w runner" where
  "count_failed r = r\<lparr>rn_processed := rn_processed r + 1, rn_failed := rn_failed r + 1\<rparr>"

definition count_imported :: "int \<Rightarrow> 'w runner \<Rightarrow> 'w runner" where
  "count_imported n r =
    r\<lparr>rn_processed := rn_processed r + 1, rn_imported := rn_imported r + 1, rn_memories := rn_memories r + n\<rparr>"

definition count_retried :: "'w runner \<Rightarrow> 'w runner" where
  "count_retried r = r\<lparr>rn_retried := rn_retried r + 1\<rparr>"

definition count_error :: "'w runner \<Rightarrow> 'w runner" where
  "count_error r = r\<lparr>rn_errors := rn_errors r + 1\<rparr>"

lemmas counter_defs = count_skipped_def count_failed_def count_imported_def count_retried_def count_error_def

section \<open>Claiming\<close>

text \<open>How the claim loop ends: the chunk's result, a persisted split to follow, or going on,
  with the claim or (when there is no attempt to make) without.\<close>

datatype claim_end = ClaimDone "run_exn + bool" | ClaimSplit | ClaimHeld bool

fun claim_loop ::
  "'w env \<Rightarrow> (pystr \<Rightarrow> int \<Rightarrow> 'w \<Rightarrow> (run_exn + pystr) \<times> 'w) \<Rightarrow> pystr \<Rightarrow> nat \<Rightarrow> int \<Rightarrow> 'w runner \<Rightarrow> claim_end \<times> 'w runner" where
  "claim_loop en claim key 0 attempt r = (ClaimHeld False, r)"
| "claim_loop en claim key (Suc n) attempt r =
    (let (stop, r1) = ask_cancelled en r
     in if stop then (ClaimDone (Inr False), r1)
        else
          let (answer, w) = claim key (attempt + 1) (rn_world r1); r2 = r1\<lparr>rn_world := w\<rparr>
          in case answer of
               Inl e \<Rightarrow> (ClaimDone (Inl e), r2)
             | Inr a \<Rightarrow>
                 if a = U ''succeeded'' \<or> a = U ''duplicate''
                   then let (res, r3) = report_then en key ''skipped'' True (count_skipped r2) in (ClaimDone res, r3)
                 else if a = U ''resume_succeeded'' then (ClaimDone (Inr True), r2)
                 else if a = U ''split'' then (ClaimSplit, r2)
                 else if a = U ''claimed'' then (ClaimHeld True, r2)
                 else if a \<noteq> U ''busy'' then (ClaimDone (Inl (RunError (U ''Unsupported import manifest claim result''))), r2)
                 else if n = 0
                   then let (res, r3) = report_then en key ''busy'' False (count_error (count_failed r2)) in (ClaimDone res, r3)
                 else
                   case report en key ''retrying'' (count_retried r2) of
                     (Inl e, r3) \<Rightarrow> (ClaimDone (Inl e), r3)
                   | (Inr _, r3) \<Rightarrow>
                       let (ok, r4) = ask (en_sleep en) r3
                       in if ok then claim_loop en claim key n (attempt + 1) r4 else (ClaimDone (Inr False), r4))"

section \<open>Attempts\<close>

text \<open>How the attempts end: a result, a split into children, or all attempts used up (or given up) with
  the last exception, when there was an attempt.\<close>

datatype attempts_end = AttemptDone "run_exn + bool" | AttemptSplit "message_chunk list" | AttemptsFailed "exn option"

text \<open>The \<open>except Exception\<close> branch: stop, split, go on to the next attempt (\<open>None\<close>), or give up.\<close>

definition handle_failure ::
  "'w env \<Rightarrow> encoder option \<Rightarrow> import_options \<Rightarrow> message_chunk \<Rightarrow> pystr \<Rightarrow> bool \<Rightarrow> int \<Rightarrow> exn \<Rightarrow> 'w runner
   \<Rightarrow> attempts_end option \<times> 'w runner" where
  "handle_failure en enc op chunk key claimed attempt e r =
    (let (ext, r1) = ask_external en r
     in if ext then (Some (AttemptDone (Inr False)), r1)
        else
          let children = (if should_split op chunk e attempt \<and> ck_depth chunk < io_max_split_depth op
                          then split_message_chunk enc chunk key else Inr [])
          in case children of
               Inl x \<Rightarrow> (Some (AttemptDone (Inl (SplitError x))), r1)
             | Inr cs \<Rightarrow>
                 if length cs = 2 then (Some (AttemptSplit cs), r1)
                 else if retry_immediately e \<and> attempt + 1 < io_max_attempts op
                   then
                     case report en key ''retrying'' r1 of
                       (Inl x, r2) \<Rightarrow> (Some (AttemptDone (Inl x)), r2)
                     | (Inr _, r2) \<Rightarrow>
                         let (ok, r3) = ask (en_sleep en) (count_retried r2)
                         in if ok then (None, r3)
                            else let (res, r4) = give_back en key claimed r3 in (Some (AttemptDone res), r4)
                 else if retry_immediately e then (None, r1)
                 else (Some (AttemptsFailed (Some e)), r1))"

text \<open>One attempt up to the outcome of the store: a result, or the exception to handle. The report of
  success is inside the \<open>try\<close>, after the counters.\<close>

datatype try_end = TryDone "run_exn + bool" | TryFailed exn

definition try_store :: "'w env \<Rightarrow> pystr \<Rightarrow> bool \<Rightarrow> int \<Rightarrow> 'w runner \<Rightarrow> try_end \<times> 'w runner" where
  "try_store en key claimed attempt r =
    (let (admitted, r1) = ask (en_acquire en) r
     in if \<not> admitted then let (res, r2) = give_back en key claimed r1 in (TryDone res, r2)
        else
          let (out, w) = en_store en key (attempt + 1) (rn_world r1);
              r2 = r1\<lparr>rn_world := w, rn_stores := rn_stores r1 @ [(key, attempt + 1)]\<rparr>
          in case out of
               StoreLeaseLost \<Rightarrow> (TryDone (Inl LeaseLost), r2\<lparr>rn_fence_lost := True\<rparr>)
             | StoreCancelled \<Rightarrow> let (res, r3) = give_back en key claimed r2 in (TryDone res, r3)
             | StoreFailed e \<Rightarrow> (TryFailed e, r2)
             | Stored memories pressure_fallback \<Rightarrow>
                 let (ext, r3) = ask_external en r2
                 in if ext then (TryDone (Inr False), r3)
                    else
                      case report en key ''succeeded'' (count_imported memories r3) of
                        (Inr _, r4) \<Rightarrow> (TryDone (Inr True), r4)
                      | (Inl LeaseLost, r4) \<Rightarrow> (TryDone (Inl LeaseLost), r4\<lparr>rn_fence_lost := True\<rparr>)
                      | (Inl (Raised e), r4) \<Rightarrow> (TryFailed e, r4)
                      | (Inl (RunError s), r4) \<Rightarrow> (TryFailed (builtin_exn [''RuntimeError'', ''Exception''] s), r4)
                      | (Inl (SplitError (RoleConflict i)), r4) \<Rightarrow> (TryFailed (builtin_exn [''ValueError'', ''Exception''] []), r4)
                      | (Inl (SplitError (DateOverflow s)), r4) \<Rightarrow> (TryFailed (builtin_exn [''OverflowError'', ''ArithmeticError'', ''Exception''] s), r4))"

fun attempt_loop ::
  "'w env \<Rightarrow> encoder option \<Rightarrow> import_options \<Rightarrow> message_chunk \<Rightarrow> pystr \<Rightarrow> bool \<Rightarrow> nat \<Rightarrow> int \<Rightarrow> exn option \<Rightarrow> 'w runner
   \<Rightarrow> attempts_end \<times> 'w runner" where
  "attempt_loop en enc op chunk key claimed 0 attempt last_error r = (AttemptsFailed last_error, r)"
| "attempt_loop en enc op chunk key claimed (Suc n) attempt last_error r =
    (let (stop, r1) = ask_cancelled en r
     in if stop then let (res, r2) = give_back en key claimed r1 in (AttemptDone res, r2)
        else
          case report en key ''processing'' r1 of
            (Inl e, r2) \<Rightarrow> (AttemptDone (Inl e), r2)
          | (Inr _, r2) \<Rightarrow>
              (case try_store en key claimed attempt r2 of
                 (TryDone res, r3) \<Rightarrow> (AttemptDone res, r3)
               | (TryFailed e, r3) \<Rightarrow>
                   (case handle_failure en enc op chunk key claimed attempt e r3 of
                      (Some d, r4) \<Rightarrow> (d, r4)
                    | (None, r4) \<Rightarrow> attempt_loop en enc op chunk key claimed n (attempt + 1) (Some e) r4)))"

section \<open>A chunk\<close>

text \<open>\<open>process_split_children\<close>, given the function that processes a child.\<close>

fun process_children ::
  "'w env \<Rightarrow> (message_chunk \<Rightarrow> 'w runner \<Rightarrow> ((run_exn + bool) \<times> 'w runner) option) \<Rightarrow> message_chunk list \<Rightarrow> bool \<Rightarrow> 'w runner
   \<Rightarrow> ((run_exn + bool) \<times> 'w runner) option" where
  "process_children en rec [] ok r = Some (Inr ok, r)"
| "process_children en rec (c # cs) ok r =
    (let (stop, r1) = ask_cancelled en r
     in if stop then Some (Inr False, r1)
        else case rec c r1 of
               None \<Rightarrow> None
             | Some (Inl e, r2) \<Rightarrow> Some (Inl e, r2)
             | Some (Inr b, r2) \<Rightarrow> process_children en rec cs (b \<and> ok) r2)"

definition process_split_children ::
  "'w env \<Rightarrow> (message_chunk \<Rightarrow> 'w runner \<Rightarrow> ((run_exn + bool) \<times> 'w runner) option) \<Rightarrow> pystr \<Rightarrow> message_chunk list \<Rightarrow> 'w runner
   \<Rightarrow> ((run_exn + bool) \<times> 'w runner) option" where
  "process_split_children en rec key children r =
    (case report en key ''split'' r of
       (Inl e, r1) \<Rightarrow> Some (Inl e, r1)
     | (Inr _, r1) \<Rightarrow> process_children en rec children True (r1\<lparr>rn_total := rn_total r1 + 1, rn_split := rn_split r1 + 1\<rparr>))"

text \<open>After the last attempt.\<close>

definition record_failed_chunk :: "'w env \<Rightarrow> pystr \<Rightarrow> bool \<Rightarrow> exn option \<Rightarrow> 'w runner \<Rightarrow> (run_exn + bool) \<times> 'w runner" where
  "record_failed_chunk en key claimed last_error r =
    (let (stop, r1) = ask_cancelled en r
     in if stop then give_back en key claimed r1
        else case last_error of
               None \<Rightarrow> (Inr False, count_failed r1)
             | Some _ \<Rightarrow> report_then en key ''failed'' False (count_error (count_failed r1)))"

definition run_attempts ::
  "'w env \<Rightarrow> (message_chunk \<Rightarrow> 'w runner \<Rightarrow> ((run_exn + bool) \<times> 'w runner) option) \<Rightarrow> encoder option \<Rightarrow> import_options
   \<Rightarrow> message_chunk \<Rightarrow> pystr \<Rightarrow> bool \<Rightarrow> 'w runner \<Rightarrow> ((run_exn + bool) \<times> 'w runner) option" where
  "run_attempts en rec enc op chunk key claimed r =
    (case attempt_loop en enc op chunk key claimed (nat (io_max_attempts op)) 0 None r of
       (AttemptDone res, r1) \<Rightarrow> Some (res, r1)
     | (AttemptSplit cs, r1) \<Rightarrow> process_split_children en rec key cs r1
     | (AttemptsFailed e, r1) \<Rightarrow> Some (record_failed_chunk en key claimed e r1))"

text \<open>The recursion goes into the children of a split. The fuel bounds the depth of the splits; \<open>None\<close> means
  that it ran out.\<close>

fun process_chunk ::
  "nat \<Rightarrow> 'w env \<Rightarrow> encoder option \<Rightarrow> import_options \<Rightarrow> message_chunk \<Rightarrow> 'w runner \<Rightarrow> ((run_exn + bool) \<times> 'w runner) option" where
  "process_chunk 0 en enc op chunk r = None"
| "process_chunk (Suc fuel) en enc op chunk r =
    (let (stop, r1) = ask_cancelled en r; key = en_key en chunk; rec = process_chunk fuel en enc op
     in if stop then Some (Inr False, r1)
        else if key \<in> set (en_existing en) then Some (report_then en key ''skipped'' True (count_skipped r1))
        else case (if io_skip_duplicates op then en_claim en else None) of
               Some claim \<Rightarrow>
                 (case claim_loop en claim key (nat (io_max_attempts op)) 0 r1 of
                    (ClaimDone res, r2) \<Rightarrow> Some (res, r2)
                  | (ClaimHeld claimed, r2) \<Rightarrow> run_attempts en rec enc op chunk key claimed r2
                  | (ClaimSplit, r2) \<Rightarrow>
                      (case split_message_chunk enc chunk key of
                         Inl x \<Rightarrow> Some (Inl (SplitError x), r2)
                       | Inr cs \<Rightarrow>
                           if length cs \<noteq> 2
                           then Some (Inl (RunError
                             (U ''Persisted import split parent can no longer be expanded deterministically.'')), r2)
                           else process_split_children en rec key cs r2))
             | None \<Rightarrow>
                 (case (if io_skip_duplicates op then en_duplicate en else None) of
                    None \<Rightarrow> run_attempts en rec enc op chunk key False r1
                  | Some dup \<Rightarrow>
                      let (answer, w) = dup key (rn_world r1); r2 = r1\<lparr>rn_world := w\<rparr>
                      in case answer of
                           Inr True \<Rightarrow> Some (Inr True, count_skipped r2)
                         | Inr False \<Rightarrow> run_attempts en rec enc op chunk key False r2
                         | Inl _ \<Rightarrow> run_attempts en rec enc op chunk key False (count_error r2)))"

text \<open>The loop of \<open>worker\<close> over the chunks of a group of conversations, in their order. A lost lease
  raises the fence before it is passed on.\<close>

fun process_all ::
  "nat \<Rightarrow> 'w env \<Rightarrow> encoder option \<Rightarrow> import_options \<Rightarrow> message_chunk list \<Rightarrow> 'w runner \<Rightarrow> ((run_exn + unit) \<times> 'w runner) option" where
  "process_all fuel en enc op [] r = Some (Inr (), r)"
| "process_all fuel en enc op (c # cs) r =
    (let (stop, r1) = ask_cancelled en r
     in if stop then Some (Inr (), r1)
        else case process_chunk fuel en enc op c r1 of
               None \<Rightarrow> None
             | Some (Inl LeaseLost, r2) \<Rightarrow> Some (Inl LeaseLost, r2\<lparr>rn_fence_lost := True\<rparr>)
             | Some (Inl e, r2) \<Rightarrow> Some (Inl e, r2)
             | Some (Inr _, r2) \<Rightarrow> process_all fuel en enc op cs r2)"

end
