(* ===== verification/Chat_Text_Laws.thy ===== *)
theory Chat_Text_Laws
  imports Chat_Text
begin

text \<open>
  What the splitting of texts guarantees: UTF-8 coding is exact in both directions, every boundary
  the encoded splitter uses is a character boundary, and splitting loses, repeats and reorders no
  character, whatever tokenizer is installed.
\<close>

section \<open>UTF-8 is exact\<close>

lemma utf8_char_shape:
  assumes "utf8_char c = Some bs"
  obtains b rest where "bs = b # rest" "\<not> is_continuation b" "\<forall>x\<in>set rest. is_continuation x"
proof -
  have "\<exists>b rest. bs = b # rest \<and> \<not> is_continuation b \<and> (\<forall>x\<in>set rest. is_continuation x)"
  proof -
    have c0: "0 \<le> c" and longest: "c \<le> 0x10FFFF" using assms by (auto simp: utf8_char_def split: if_splits)
    have lead1: "c < 0x80 \<Longrightarrow> \<not> is_continuation c"
      using c0 unfolding is_continuation_def by linarith
    have cont: "is_continuation (0x80 + x mod 64)" for x :: int
      unfolding is_continuation_def by linarith
    have lead2: "0 \<le> x \<Longrightarrow> x < 32 \<Longrightarrow> \<not> is_continuation (0xC0 + x)" for x :: int
      unfolding is_continuation_def by linarith
    have lead3: "0 \<le> x \<Longrightarrow> x < 16 \<Longrightarrow> \<not> is_continuation (0xE0 + x)" for x :: int
      unfolding is_continuation_def by linarith
    have lead4: "0 \<le> x \<Longrightarrow> x < 8 \<Longrightarrow> \<not> is_continuation (0xF0 + x)" for x :: int
      unfolding is_continuation_def by linarith
    have d2: "c < 0x800 \<Longrightarrow> 0 \<le> c div 64 \<and> c div 64 < 32" using c0 by linarith
    have d3: "c < 0x10000 \<Longrightarrow> 0 \<le> c div 4096 \<and> c div 4096 < 16" using c0 by linarith
    have d4: "0 \<le> c div 262144 \<and> c div 262144 < 8" using c0 longest by linarith
    from assms show ?thesis
      by (auto simp: utf8_char_def lead1 lead2 lead3 lead4 cont d2 d3 d4 split: if_splits)
  qed
  with that show ?thesis by blast
qed

text \<open>The decoder on a lead byte and the right number of further bytes.\<close>

lemma utf8_head_2:
  "0 \<le> a \<Longrightarrow> a < 32 \<Longrightarrow> utf8_char (a * 64 + b) = Some [0xC0 + a, 0x80 + b] \<Longrightarrow>
   utf8_head ([0xC0 + a, 0x80 + b] @ rest) = Some (a * 64 + b, 2)"
  by (simp add: utf8_head_def)

lemma utf8_head_3:
  "0 \<le> a \<Longrightarrow> a < 16 \<Longrightarrow> utf8_char ((a * 64 + b) * 64 + d) = Some [0xE0 + a, 0x80 + b, 0x80 + d] \<Longrightarrow>
   utf8_head ([0xE0 + a, 0x80 + b, 0x80 + d] @ rest) = Some ((a * 64 + b) * 64 + d, 3)"
  by (simp add: utf8_head_def numeral_2_eq_2 numeral_3_eq_3)

lemma utf8_head_4:
  "0 \<le> a \<Longrightarrow> a < 8 \<Longrightarrow> utf8_char (((a * 64 + b) * 64 + d) * 64 + f) = Some [0xF0 + a, 0x80 + b, 0x80 + d, 0x80 + f] \<Longrightarrow>
   utf8_head ([0xF0 + a, 0x80 + b, 0x80 + d, 0x80 + f] @ rest) = Some (((a * 64 + b) * 64 + d) * 64 + f, 4)"
  by (simp add: utf8_head_def eval_nat_numeral)

lemma utf8_head_char:
  assumes "utf8_char c = Some bs"
  shows "utf8_head (bs @ rest) = Some (c, length bs)"
proof -
  have c0: "0 \<le> c" and longest: "c \<le> 0x10FFFF" using assms by (auto simp: utf8_char_def split: if_splits)
  have d4096: "c div 4096 = c div 64 div 64" using zdiv_zmult2_eq [of 64 c 64] by simp
  have d262144: "c div 262144 = c div 64 div 64 div 64" using zdiv_zmult2_eq [of 64 c 4096] d4096
    by (simp add: zdiv_zmult2_eq [of 64 "c div 64" 64, simplified])
  consider "c < 0x80" | "0x80 \<le> c" "c < 0x800" | "0x800 \<le> c" "c < 0x10000" | "0x10000 \<le> c" by linarith
  then show ?thesis
  proof cases
    case 1
    with assms have "bs = [c]" by (auto simp: utf8_char_def split: if_splits)
    with 1 assms show ?thesis by (simp add: utf8_head_def Let_def)
  next
    case 2
    with assms have bs: "bs = [0xC0 + c div 64, 0x80 + c mod 64]" by (auto simp: utf8_char_def split: if_splits)
    from 2 have bounds: "0 \<le> c div 64" "c div 64 < 32" by linarith+
    have eq: "c div 64 * 64 + c mod 64 = c" by simp
    have two: "length bs = 2" by (simp only: bs list.size, simp?)
    show ?thesis unfolding two unfolding bs
      by (rule utf8_head_2 [OF bounds, of "c mod 64", unfolded eq, OF assms [unfolded bs]])
  next
    case 3
    with assms have bs: "bs = [0xE0 + c div 4096, 0x80 + c div 64 mod 64, 0x80 + c mod 64]"
      by (auto simp: utf8_char_def split: if_splits)
    from 3 have bounds: "0 \<le> c div 4096" "c div 4096 < 16" by linarith+
    have eq: "(c div 4096 * 64 + c div 64 mod 64) * 64 + c mod 64 = c" unfolding d4096 by simp
    have three: "length bs = 3" by (simp only: bs list.size, simp?)
    show ?thesis unfolding three unfolding bs
      by (rule utf8_head_3 [OF bounds, of "c div 64 mod 64" "c mod 64", unfolded eq, OF assms [unfolded bs]])
  next
    case 4
    with assms have bs: "bs = [0xF0 + c div 262144, 0x80 + c div 4096 mod 64, 0x80 + c div 64 mod 64, 0x80 + c mod 64]"
      by (auto simp: utf8_char_def split: if_splits)
    from 4 longest have bounds: "0 \<le> c div 262144" "c div 262144 < 8" by linarith+
    have eq: "((c div 262144 * 64 + c div 4096 mod 64) * 64 + c div 64 mod 64) * 64 + c mod 64 = c"
      unfolding d262144 d4096 by simp
    have four: "length bs = 4" by (simp only: bs list.size, simp?)
    show ?thesis unfolding four unfolding bs
      by (rule utf8_head_4 [OF bounds, of "c div 4096 mod 64" "c div 64 mod 64" "c mod 64", unfolded eq,
            OF assms [unfolded bs]])
  qed
qed

lemma utf8_decode_Nil [simp]: "utf8_decode [] = Some []"
  by (simp add: utf8_decode.simps)

lemma utf8_decode_encode: "utf8_encode s = Some bs \<Longrightarrow> utf8_decode bs = Some s"
proof (induction s arbitrary: bs)
  case (Cons c cs)
  then obtain b r where b: "utf8_char c = Some b" and r: "utf8_encode cs = Some r" and bs: "bs = b @ r"
    by (auto split: option.splits)
  from utf8_char_shape [OF b] have "b \<noteq> []" by auto
  with Cons.IH [OF r] utf8_head_char [OF b, of r] show ?case
    unfolding bs utf8_decode.simps [of "b @ r"] by simp
qed simp

lemma utf8_head_SomeD: "utf8_head bs = Some (c, n) \<Longrightarrow> utf8_char c = Some (take n bs)"
  by (auto simp: utf8_head_def Let_def split: list.splits if_splits)

lemma utf8_encode_decode: "utf8_decode bs = Some s \<Longrightarrow> utf8_encode s = Some bs"
proof (induction bs arbitrary: s rule: utf8_decode.induct)
  case (1 bs)
  show ?case
  proof (cases "bs = []")
    case True
    with "1.prems" show ?thesis by simp
  next
    case False
    with "1.prems" obtain c n where h: "utf8_head bs = Some (c, n)"
      by (subst (asm) utf8_decode.simps) (auto split: option.splits)
    with False "1.prems" obtain cs where n: "n \<noteq> 0" and cs: "utf8_decode (drop n bs) = Some cs" and s: "s = c # cs"
      by (subst (asm) utf8_decode.simps) (auto split: if_splits)
    from "1.IH" [OF False h refl n cs] utf8_head_SomeD [OF h] show ?thesis by (simp add: s)
  qed
qed

text \<open>Encoding and strict decoding are inverse to each other: the decoder accepts exactly the byte
  strings the encoder produces, and gives back the text they were produced from.\<close>
theorem utf8_exact: "utf8_decode bs = Some s \<longleftrightarrow> utf8_encode s = Some bs"
  using utf8_decode_encode utf8_encode_decode by blast

section \<open>Boundaries\<close>

lemma utf8_split_at:
  assumes "utf8_encode s = Some raw" and "n = length raw \<or> n < length raw \<and> \<not> is_continuation (raw ! n)"
  shows "\<exists>s1 s2. s = s1 @ s2 \<and> utf8_encode s1 = Some (take n raw) \<and> utf8_encode s2 = Some (drop n raw)"
  using assms
proof (induction s arbitrary: raw n)
  case (Cons c cs)
  then obtain b r where b: "utf8_char c = Some b" and r: "utf8_encode cs = Some r" and raw: "raw = b @ r"
    by (auto split: option.splits)
  obtain x xs where bx: "b = x # xs" and conts: "\<forall>y\<in>set xs. is_continuation y"
    using b by (rule utf8_char_shape)
  show ?case
  proof (cases "n = 0")
    case True
    with Cons.prems(1) show ?thesis by (intro exI [of _ "[]"] exI [of _ "c # cs"]) simp
  next
    case False
    have "length b \<le> n"
    proof (rule ccontr)
      assume "\<not> length b \<le> n"
      then have short: "n < length b" by simp
      with bx False have less: "n - 1 < length xs" by simp
      with bx False short have "raw ! n = xs ! (n - 1)" by (simp add: raw nth_append nth_Cons')
      with less have "raw ! n = xs ! (n - 1)" and "n - 1 < length xs" by simp_all
      then have "is_continuation (raw ! n)" using conts by simp
      moreover from short have "n \<noteq> length raw" by (simp add: raw)
      ultimately show False using Cons.prems(2) by simp
    qed
    with Cons.prems(2) have "n - length b = length r \<or> n - length b < length r \<and> \<not> is_continuation (r ! (n - length b))"
      by (auto simp: raw nth_append)
    from Cons.IH [OF r this] obtain s1 s2 where
      "cs = s1 @ s2" "utf8_encode s1 = Some (take (n - length b) r)" "utf8_encode s2 = Some (drop (n - length b) r)"
      by blast
    then have "c # cs = (c # s1) @ s2 \<and> utf8_encode (c # s1) = Some (take n raw) \<and> utf8_encode s2 = Some (drop n raw)"
      using b \<open>length b \<le> n\<close> by (simp add: raw)
    then show ?thesis by blast
  qed
qed simp

lemma retreat_boundary:
  "n \<le> length raw \<Longrightarrow> retreat raw n = 0 \<or> retreat raw n = length raw \<or>
     retreat raw n < length raw \<and> \<not> is_continuation (raw ! retreat raw n)"
  by (induction n) auto

lemma utf8_first: "utf8_encode s = Some raw \<Longrightarrow> raw \<noteq> [] \<Longrightarrow> \<not> is_continuation (raw ! 0)"
  by (cases s) (auto split: option.splits elim!: utf8_char_shape)

lemma safe_boundary_le: "safe_utf8_boundary raw n \<le> length raw"
proof -
  have "retreat raw k \<le> k" for k by (induction k) (auto intro: le_SucI)
  then show ?thesis unfolding safe_utf8_boundary_def by (rule order_trans) simp
qed

lemma safe_boundary_splits:
  assumes "utf8_encode s = Some raw"
  shows "\<exists>s1 s2. s = s1 @ s2 \<and> utf8_encode s1 = Some (take (safe_utf8_boundary raw n) raw) \<and>
                 utf8_encode s2 = Some (drop (safe_utf8_boundary raw n) raw)"
proof (rule utf8_split_at [OF assms])
  have "min n (length raw) \<le> length raw" by simp
  from retreat_boundary [OF this] utf8_first [OF assms]
  show "safe_utf8_boundary raw n = length raw \<or>
        safe_utf8_boundary raw n < length raw \<and> \<not> is_continuation (raw ! safe_utf8_boundary raw n)"
    by (auto simp: safe_utf8_boundary_def)
qed

lemma utf8_encode_append:
  "utf8_encode (s1 @ s2) =
   (case utf8_encode s1 of None \<Rightarrow> None | Some a \<Rightarrow> (case utf8_encode s2 of None \<Rightarrow> None | Some b \<Rightarrow> Some (a @ b)))"
  by (induction s1) (auto split: option.splits)

lemma utf8_encode_inj: "utf8_encode s = Some raw \<Longrightarrow> utf8_encode s' = Some raw \<Longrightarrow> s = s'"
  using utf8_decode_encode [of s raw] utf8_decode_encode [of s' raw] by simp

section \<open>Slices\<close>

lemma take_slice: "a \<le> b \<Longrightarrow> take a s @ slice s a b = take b s"
  by (metis le_add_diff_inverse slice_def take_add)

lemma slice_drop: "a \<le> b \<Longrightarrow> slice s a b = take (b - a) (drop a s)"
  by (simp add: slice_def)

section \<open>Nothing is lost\<close>

text \<open>The encoded splitter: what is still to be split is the encoding of a rest of the text.\<close>

definition encoded_inv :: "pystr \<Rightarrow> int list \<Rightarrow> nat \<Rightarrow> pystr list \<Rightarrow> bool" where
  "encoded_inv s raw prev parts \<longleftrightarrow> (\<exists>rest. concat parts @ rest = s \<and> utf8_encode rest = Some (drop prev raw))"

lemma encoded_inv_cut:
  assumes inv: "encoded_inv s raw prev parts" and raw: "utf8_encode s = Some raw"
    and later: "prev < safe_utf8_boundary raw n"
  shows "\<exists>part. utf8_decode (slice raw prev (safe_utf8_boundary raw n)) = Some part \<and>
                encoded_inv s raw (safe_utf8_boundary raw n) (parts @ [part])"
proof -
  let ?b = "safe_utf8_boundary raw n"
  from inv obtain rest where rest: "concat parts @ rest = s" "utf8_encode rest = Some (drop prev raw)"
    by (auto simp: encoded_inv_def)
  from safe_boundary_splits [OF raw] obtain s1 s2 where s: "s = s1 @ s2"
    and s1: "utf8_encode s1 = Some (take ?b raw)" and s2: "utf8_encode s2 = Some (drop ?b raw)" by blast
  from rest raw obtain done_raw where done_raw: "utf8_encode (concat parts) = Some done_raw" "raw = done_raw @ drop prev raw"
    by (auto simp: utf8_encode_append split: option.splits)
  then have "done_raw = take prev raw" by (metis append_take_drop_id append_same_eq)
  have "\<exists>part. s1 = concat parts @ part"
  proof -
    have b_le: "?b \<le> length raw" by (rule safe_boundary_le)
    have pos: "\<exists>q1 q2. s1 = q1 @ q2 \<and> utf8_encode q1 = Some (take prev (take ?b raw)) \<and>
                      utf8_encode q2 = Some (drop prev (take ?b raw))"
    proof (rule utf8_split_at [OF s1])
      show "prev = length (take ?b raw) \<or> prev < length (take ?b raw) \<and> \<not> is_continuation (take ?b raw ! prev)"
      proof -
        from later b_le have "drop prev raw \<noteq> []" by simp
        with utf8_first [OF rest(2)] have "\<not> is_continuation (raw ! prev)" using later b_le by simp
        with later b_le show ?thesis by simp
      qed
    qed
    then obtain q1 q2 where "s1 = q1 @ q2" "utf8_encode q1 = Some (take prev raw)" using later by (auto simp: min_def)
    with done_raw(1) \<open>done_raw = take prev raw\<close> utf8_encode_inj [of q1 _ "concat parts"] show ?thesis by blast
  qed
  then obtain part where part: "s1 = concat parts @ part" by blast
  with s1 done_raw(1) \<open>done_raw = take prev raw\<close> obtain p where
    p: "utf8_encode part = Some p" and "take ?b raw = take prev raw @ p"
    by (auto simp: utf8_encode_append split: option.splits)
  then have "p = slice raw prev ?b"
    using take_slice [of prev ?b raw] later by simp
  with p have "utf8_decode (slice raw prev ?b) = Some part" using utf8_decode_encode by simp
  moreover have "encoded_inv s raw ?b (parts @ [part])"
    unfolding encoded_inv_def using s s2 part by (intro exI [of _ s2]) simp
  ultimately show ?thesis by blast
qed

lemma encoded_loop_inv:
  assumes "encoded_inv s raw prev parts" and "utf8_encode s = Some raw"
    and "encoded_loop e raw m n ts index offset prev parts = Some (parts', prev')"
  shows "encoded_inv s raw prev' parts'"
  using assms(1,3)
proof (induction ts arbitrary: index offset prev parts)
  case (Cons t ts)
  then obtain bs where bs: "enc_bytes e t = Some bs" by (auto split: option.splits)
  show ?case
  proof (cases "(index + 1) mod m \<noteq> 0 \<or> index + 1 = n \<or> safe_utf8_boundary raw (offset + length bs) \<le> prev")
    case True
    with Cons.prems bs show ?thesis by (intro Cons.IH [OF Cons.prems(1)]) (auto simp: Let_def split: if_splits)
  next
    case False
    then have "prev < safe_utf8_boundary raw (offset + length bs)" by simp
    from encoded_inv_cut [OF Cons.prems(1) assms(2) this] obtain part where
      "utf8_decode (slice raw prev (safe_utf8_boundary raw (offset + length bs))) = Some part"
      "encoded_inv s raw (safe_utf8_boundary raw (offset + length bs)) (parts @ [part])" by blast
    with Cons.prems(2) bs False show ?thesis by (intro Cons.IH) (auto simp: Let_def)
  qed
qed simp

lemma encoded_loop_total:
  assumes "encoded_inv s raw prev parts" and "utf8_encode s = Some raw" and "\<forall>t\<in>set ts. enc_bytes e t \<noteq> None"
  shows "encoded_loop e raw m n ts index offset prev parts \<noteq> None"
  using assms(1,3)
proof (induction ts arbitrary: index offset prev parts)
  case (Cons t ts)
  then obtain bs where bs: "enc_bytes e t = Some bs" by auto
  show ?case
  proof (cases "(index + 1) mod m \<noteq> 0 \<or> index + 1 = n \<or> safe_utf8_boundary raw (offset + length bs) \<le> prev")
    case True
    with Cons.IH [OF Cons.prems(1)] Cons.prems(2) bs show ?thesis by (auto simp: Let_def)
  next
    case False
    then have "prev < safe_utf8_boundary raw (offset + length bs)" by simp
    from encoded_inv_cut [OF Cons.prems(1) assms(2) this] obtain part where
      "utf8_decode (slice raw prev (safe_utf8_boundary raw (offset + length bs))) = Some part"
      "encoded_inv s raw (safe_utf8_boundary raw (offset + length bs)) (parts @ [part])" by blast
    with Cons.IH [OF this(2)] Cons.prems(2) bs False show ?thesis by (auto simp: Let_def)
  qed
qed simp

lemma encoded_inv_start: "utf8_encode s = Some raw \<Longrightarrow> encoded_inv s raw 0 []"
  by (simp add: encoded_inv_def)

lemma split_encoded_text_concat:
  assumes "split_encoded_text s m e = Some parts"
  shows "concat parts = s"
proof -
  from assms obtain ids where ids: "enc_ids e s = Some ids" by (auto simp: split_encoded_text_def split: option.splits)
  show ?thesis
  proof (cases "length ids \<le> m")
    case True
    with assms ids show ?thesis by (auto simp: split_encoded_text_def)
  next
    case False
    with assms ids obtain raw p prev where raw: "utf8_encode s = Some raw"
      and loop: "encoded_loop e raw m (length ids) ids 0 0 0 [] = Some (p, prev)"
      by (auto simp: split_encoded_text_def split: option.splits)
    from encoded_loop_inv [OF encoded_inv_start [OF raw] raw loop] obtain rest where
      rest: "concat p @ rest = s" "utf8_encode rest = Some (drop prev raw)" by (auto simp: encoded_inv_def)
    show ?thesis
    proof (cases "prev < length raw")
      case True
      with assms ids False raw loop utf8_decode_encode [OF rest(2)] rest(1) show ?thesis
        by (auto simp: split_encoded_text_def)
    next
      case no_rest: False
      with rest(2) utf8_decode_encode [OF rest(2)] have "rest = []" by simp
      with assms ids False raw loop rest(1) no_rest show ?thesis by (auto simp: split_encoded_text_def)
    qed
  qed
qed

text \<open>The fallback splitter: the parts so far are the text before the current part.\<close>

fun ordered_from :: "nat \<Rightarrow> (nat \<times> nat) list \<Rightarrow> bool" where
  "ordered_from i [] = True"
| "ordered_from i ((a, b) # ms) = (i \<le> a \<and> a \<le> b \<and> ordered_from b ms)"

lemma ordered_from_mono: "ordered_from j ms \<Longrightarrow> i \<le> j \<Longrightarrow> ordered_from i ms"
  by (cases ms) auto

lemma tokens_from_ordered: "ordered_from i (tokens_from i s)"
proof (induction i s rule: tokens_from.induct)
  case (1 i s)
  show ?case
    by (subst tokens_from.simps) (use 1 in \<open>auto intro: ordered_from_mono\<close>)
qed

lemma cut_token_inv:
  assumes "concat parts = take start s" and "cut_token s width stop start parts = (parts', start')" and "start \<le> stop"
  shows "concat parts' = take start' s \<and> start' \<le> stop"
  using assms
proof (induction s width stop start parts rule: cut_token.induct)
  case (1 s width stop start parts)
  show ?case
  proof (cases "0 < width \<and> stop - start > width")
    case True
    from True have "start + width \<le> stop" by linarith
    with True "1.prems" show ?thesis
      by (intro "1.IH" [OF True]) (simp_all add: take_slice cut_token.simps [of s width stop start])
  next
    case False
    with "1.prems" show ?thesis by (auto simp: cut_token.simps [of s width stop start])
  qed
qed

lemma fallback_step_inv:
  assumes inv: "concat (fst st) = take (fst (snd st)) s" "fst (snd st) \<le> a" and ab: "a \<le> b"
    and st': "st' = fallback_step s m (a, b) st"
  shows "concat (fst st') = take (fst (snd st')) s \<and> fst (snd st') \<le> b"
proof -
  obtain parts0 start0 used0 where st: "st = (parts0, start0, used0)" by (cases st)
  let ?w = "fallback_token_weight (slice s a b)"
  obtain parts1 start1 used1 where one:
    "(if used0 \<noteq> 0 \<and> used0 + ?w > m then (parts0 @ [slice s start0 a], a, 0) else (parts0, start0, used0)) =
     (parts1, start1, used1)" by (metis prod_cases3)
  with inv have inv1: "concat parts1 = take start1 s" "start1 \<le> a" by (auto simp: st take_slice split: if_splits)
  obtain parts2 start2 where two:
    "(if start1 < a then (parts1 @ [slice s start1 a], a) else (parts1, start1)) = (parts2, start2)" by fastforce
  with inv1 have inv2: "concat parts2 = take start2 s" "start2 \<le> b" using ab by (auto simp: take_slice split: if_splits)
  obtain parts3 start3 where three:
    "cut_token s (if ascii_alnum (s ! a) then m * 4 else m) b start2 parts2 = (parts3, start3)" by fastforce
  have inv3: "concat parts3 = take start3 s \<and> start3 \<le> b" by (rule cut_token_inv [OF inv2(1) three inv2(2)])
  have "st' = (if ?w > m then (parts3, start3, fallback_token_weight (slice s start3 b)) else (parts1, start1, used1 + ?w))"
    unfolding st' fallback_step_def Let_def st prod.case one two three by simp
  with inv1 inv3 ab show ?thesis by auto
qed

lemma fallback_fold_inv:
  assumes "concat (fst st) = take (fst (snd st)) s" and "fst (snd st) \<le> i" and "ordered_from i ms"
  shows "concat (fst (fold (fallback_step s m) ms st)) = take (fst (snd (fold (fallback_step s m) ms st))) s"
  using assms
proof (induction ms arbitrary: st i)
  case (Cons ab ms)
  obtain a b where ab: "ab = (a, b)" by fastforce
  with Cons.prems have "fst (snd st) \<le> a" "a \<le> b" "ordered_from b ms" by auto
  note step = this fallback_step_inv [OF Cons.prems(1) this(1,2) refl, of m]
  show ?case
    unfolding ab fold.simps o_apply by (rule Cons.IH [where i = b]) (use step in simp_all)
qed simp

lemma split_fallback_text_concat: "concat (split_fallback_text s m) = s"
proof -
  obtain parts start used where st: "fold (fallback_step s m) (tokens_from 0 s) ([], 0, 0) = (parts, start, used)"
    by (metis prod_cases3)
  have "concat parts = take start s"
    using fallback_fold_inv [of "([], 0, 0)" s 0 "tokens_from 0 s" m] tokens_from_ordered [of 0 s] by (simp add: st)
  then show ?thesis by (auto simp: split_fallback_text_def st)
qed

lemma split_atomic_text_concat [simp]: "concat (split_atomic_text enc s m) = s"
  by (auto simp: split_atomic_text_def split_fallback_text_concat split_encoded_text_concat split: option.split)

lemma re_split_concat: "concat (re_split prev acc s) = rev acc @ s"
proof (induction prev acc s rule: re_split.induct)
  case (1 prev acc s)
  show ?case
  proof (cases "s = []")
    case True
    then show ?thesis by (simp add: re_split.simps [of prev acc])
  next
    case False
    show ?thesis
    proof (cases "separator_len prev s = 0")
      case True
      with False "1.IH"(1) [OF False refl True] show ?thesis
        by (simp add: re_split.simps [of prev acc s] Let_def)
    next
      case no_zero: False
      with False "1.IH"(2) [OF False refl no_zero] show ?thesis
        by (simp add: re_split.simps [of prev acc s] Let_def)
    qed
  qed
qed

lemma concat_nonempty [simp]: "concat (filter (\<lambda>u. u \<noteq> []) us) = concat us"
  by (induction us) auto

lemma pack_units_concat: "concat (pack_units enc m us parts current n) = concat parts @ concat current @ concat us"
  by (induction enc m us parts current n rule: pack_units.induct) (simp_all add: Let_def)

text \<open>C23: splitting a text never loses, repeats, alters or reorders a character. Whatever the text, the limit
  and the tokenizer, installed or not, failing or not, and whatever bytes it claims its tokens
  stand for, the parts put together are the text.\<close>
theorem split_text_lossless: "concat (split_text_by_tokens enc s limit) = s"
proof -
  let ?parts = "pack_units enc (nat (max 1 limit)) (filter (\<lambda>u. u \<noteq> []) (re_split None [] s)) [] [] 0"
  have "concat ?parts = s" by (simp add: pack_units_concat re_split_concat)
  then show ?thesis by (simp add: split_text_by_tokens_def Let_def)
qed

text \<open>The tokenizer's split never falls back on an encodable text. When the tokenizer tokenizes the text and knows the
  bytes of its own tokens, the splitter succeeds, however the token boundaries cut through the
  UTF-8 encoding of a character.\<close>
theorem encoded_split_total:
  assumes "enc_ids e s = Some ids" and "\<forall>t\<in>set ids. enc_bytes e t \<noteq> None" and "utf8_encode s = Some raw"
  shows "\<exists>parts. split_encoded_text s m e = Some parts \<and> concat parts = s"
proof -
  obtain p prev where loop: "encoded_loop e raw m (length ids) ids 0 0 0 [] = Some (p, prev)"
    using encoded_loop_total [OF encoded_inv_start [OF assms(3)] assms(3,2), of m "length ids" 0 0] by auto
  from encoded_loop_inv [OF encoded_inv_start [OF assms(3)] assms(3) loop] obtain rest where
    "utf8_encode rest = Some (drop prev raw)" by (auto simp: encoded_inv_def)
  from utf8_decode_encode [OF this] assms loop have "split_encoded_text s m e \<noteq> None"
    by (simp add: split_encoded_text_def)
  then show ?thesis using split_encoded_text_concat by blast
qed

text \<open>A tokenizer whose tokens are single bytes, so that it cuts through every longer character.\<close>

definition byte_encoder :: encoder where
  "byte_encoder = \<lparr>enc_ids = utf8_encode, enc_bytes = (\<lambda>t. Some [t])\<rparr>"

definition demo_text :: pystr where
  "demo_text = U ''One. '' @ [0x4F60, 0x597D, 0x1F600, 0xE9] @ U '' two''"

lemma encoded_split_total_witness:
  "\<exists>parts. split_encoded_text demo_text 4 byte_encoder = Some parts \<and> concat parts = demo_text"
proof -
  have "case utf8_encode demo_text of None \<Rightarrow> False | Some _ \<Rightarrow> True" by code_simp
  then obtain raw where raw: "utf8_encode demo_text = Some raw" by (auto split: option.splits)
  show ?thesis
    by (rule encoded_split_total [OF _ _ raw, where ids = raw]) (simp_all add: byte_encoder_def raw)
qed

lemma demo_split:
  "split_encoded_text demo_text 4 byte_encoder =
     Some [U ''One.'', U '' '' @ [0x4F60], [0x597D], [0x1F600], [0xE9] @ U '' tw'', U ''o'']"
  by code_simp

end
