(* ===== verification/Chat_Chunks_Laws.thy ===== *)
theory Chat_Chunks_Laws
  imports Chat_Chunks Chat_Text_Laws "HOL-Library.Sublist"
begin

text \<open>
  What chunking guarantees: turns hold every part of every message in order; a chunk's own turns
  partition the turns; a chunk stays within the token limit and repeats at most the configured
  number of turns, exactly the last ones of the chunk before; no text is lost on the way; and a
  split produces two children that share the parent's messages between them.
\<close>

section \<open>Turns\<close>

lemma turns_messages_simps [simp]:
  "turns_messages [] = []"
  "turns_messages (t # ts) = tn_messages t @ turns_messages ts"
  "turns_messages (xs @ ys) = turns_messages xs @ turns_messages ys"
  by (simp_all add: turns_messages_def)

lemma turns_tokens_simps [simp]:
  "turns_tokens [] = 0"
  "turns_tokens (t # ts) = tn_tokens t + turns_tokens ts"
  "turns_tokens (xs @ ys) = turns_tokens xs + turns_tokens ys"
  by (simp_all add: turns_tokens_def)

lemma turn_of_sel [simp]:
  "tn_messages (turn_of enc ms) = ms" "tn_tokens (turn_of enc ms) = sum_list (map (message_tokens enc) ms)"
  by (simp_all add: turn_of_def)

lemma message_tokens_pos: "7 \<le> message_tokens enc m"
  using estimate_pos [of enc "cm_content m"] by (simp add: message_tokens_def)

lemma group_turns_messages: "turns_messages (group_turns enc ms current user) = current @ ms"
  by (induction enc ms current user rule: group_turns.induct) simp_all

lemma batch_turn_messages: "turns_messages (batch_turn enc limit ms batch n) = batch @ ms"
  by (induction enc limit ms batch n rule: batch_turn.induct) (simp_all add: Let_def)

text \<open>A turn knows its tokens and has at least one message.\<close>

definition turn_ok :: "encoder option \<Rightarrow> turn \<Rightarrow> bool" where
  "turn_ok enc t \<longleftrightarrow> tn_messages t \<noteq> [] \<and> tn_tokens t = sum_list (map (message_tokens enc) (tn_messages t))"

lemma group_turns_ok: "t \<in> set (group_turns enc ms current user) \<Longrightarrow> turn_ok enc t"
  by (induction enc ms current user rule: group_turns.induct) (auto simp: turn_ok_def split: if_splits)

lemma batch_turn_ok:
  "n = sum_list (map (message_tokens enc) batch) \<Longrightarrow> t \<in> set (batch_turn enc limit ms batch n) \<Longrightarrow> turn_ok enc t"
  by (induction enc limit ms batch n rule: batch_turn.induct) (auto simp: turn_ok_def Let_def split: if_splits)

lemma batch_turn_bound:
  assumes "\<forall>m\<in>set ms. message_tokens enc m \<le> limit" and "batch \<noteq> [] \<longrightarrow> n \<le> limit" and "batch = [] \<longrightarrow> n = 0"
    and "t \<in> set (batch_turn enc limit ms batch n)"
  shows "tn_tokens t \<le> limit"
  using assms
  by (induction enc limit ms batch n rule: batch_turn.induct) (auto simp: Let_def split: if_splits)

definition expanded_messages :: "encoder option \<Rightarrow> chat_message list \<Rightarrow> int \<Rightarrow> chat_message list" where
  "expanded_messages enc ms limit =
    concat (map (\<lambda>m. split_long_message_tokens enc m (limit - 16)) (ensure_source_indices ms))"

lemma build_turns_messages: "turns_messages (build_turns enc ms limit) = expanded_messages enc ms limit"
proof -
  have rebuild: "turns_messages (concat (map (\<lambda>t. if tn_tokens t \<le> limit then [t] else batch_turn enc limit (tn_messages t) [] 0) ts)) =
        turns_messages ts" for ts
    by (induction ts) (simp_all add: batch_turn_messages)
  show ?thesis by (simp add: build_turns_def Let_def rebuild group_turns_messages expanded_messages_def)
qed

lemma build_turns_ok: "t \<in> set (build_turns enc ms limit) \<Longrightarrow> turn_ok enc t"
  by (auto simp: build_turns_def Let_def intro: group_turns_ok batch_turn_ok [of 0 enc "[]", simplified] split: if_splits)

lemma set_turns_messages: "set (turns_messages ts) = (\<Union>t\<in>set ts. set (tn_messages t))"
  by (induction ts) auto

lemma build_turns_bound:
  assumes "\<forall>m\<in>set (expanded_messages enc ms limit). message_tokens enc m \<le> limit" and "t \<in> set (build_turns enc ms limit)"
  shows "tn_tokens t \<le> limit"
proof -
  let ?ts = "group_turns enc (expanded_messages enc ms limit) [] None"
  have sub: "u \<in> set ?ts \<Longrightarrow> m \<in> set (tn_messages u) \<Longrightarrow> m \<in> set (expanded_messages enc ms limit)" for u m
    using set_turns_messages [of ?ts] group_turns_messages [of enc "expanded_messages enc ms limit" "[]" None] by auto
  from assms(2) obtain u where u: "u \<in> set ?ts" and t: "t \<in> set (if tn_tokens u \<le> limit then [u] else batch_turn enc limit (tn_messages u) [] 0)"
    by (auto simp: build_turns_def Let_def expanded_messages_def)
  show ?thesis
  proof (cases "tn_tokens u \<le> limit")
    case True
    with t show ?thesis by simp
  next
    case False
    with t have "t \<in> set (batch_turn enc limit (tn_messages u) [] 0)" by simp
    then show ?thesis by (rule batch_turn_bound [rotated 3]) (use assms(1) sub [OF u] in auto)
  qed
qed

section \<open>The plan of the chunks\<close>

definition core_turns :: "turn list \<times> nat \<Rightarrow> turn list" where
  "core_turns g = drop (snd g) (fst g)"

text \<open>Every chunk repeats the end of the one before it, as many turns as it says.\<close>

definition chained :: "(turn list \<times> nat) list \<Rightarrow> bool" where
  "chained gs \<longleftrightarrow> (\<forall>i<length gs. if i = 0 then snd (gs ! i) = 0
                      else suffix (take (snd (gs ! i)) (fst (gs ! i))) (fst (gs ! (i - 1))))"

lemma chained_snoc:
  "chained (gs @ [g]) \<longleftrightarrow> chained gs \<and> (if gs = [] then snd g = 0 else suffix (take (snd g) (fst g)) (fst (last gs)))"
proof -
  let ?C = "\<lambda>hs i. if i = 0 then snd (hs ! i) = 0 else suffix (take (snd (hs ! i)) (fst (hs ! i))) (fst (hs ! (i - 1)))"
  have "?C (gs @ [g]) i = ?C gs i" if "i < length gs" for i
    using that by (simp only: nth_append if_True less_imp_diff_less)
  moreover have "?C (gs @ [g]) (length gs) = (if gs = [] then snd g = 0 else suffix (take (snd g) (fst g)) (fst (last gs)))"
    by (simp add: nth_append last_conv_nth)
  moreover have "chained (gs @ [g]) \<longleftrightarrow> (\<forall>i<length gs. ?C (gs @ [g]) i) \<and> ?C (gs @ [g]) (length gs)"
    unfolding chained_def length_append_singleton by (subst All_less_Suc) (rule conj_commute)
  ultimately show ?thesis unfolding chained_def by presburger
qed

definition group_ok :: "bool \<Rightarrow> int \<Rightarrow> int \<Rightarrow> turn list \<times> nat \<Rightarrow> bool" where
  "group_ok b k limit g \<longleftrightarrow> snd g < length (fst g) \<and> snd g \<le> nat k \<and> (b \<longrightarrow> turns_tokens (fst g) \<le> limit)"

definition chunker_ok :: "bool \<Rightarrow> int \<Rightarrow> int \<Rightarrow> turn list \<Rightarrow> chunker \<Rightarrow> bool" where
  "chunker_ok b k limit past c \<longleftrightarrow>
     ch_tokens c = turns_tokens (ch_current c) \<and> ch_leading c \<le> nat k \<and> ch_leading c \<le> length (ch_current c) \<and>
     concat (map core_turns (ch_groups c)) @ drop (ch_leading c) (ch_current c) = past \<and>
     (\<forall>g\<in>set (ch_groups c). group_ok b k limit g) \<and> chained (ch_groups c) \<and>
     (b \<and> ch_leading c < length (ch_current c) \<longrightarrow> ch_tokens c \<le> limit) \<and>
     (if ch_groups c = [] then ch_leading c = 0
      else suffix (take (ch_leading c) (ch_current c)) (fst (last (ch_groups c))))"

lemma last_turns_suffix: "suffix (last_turns k ts) ts"
  by (auto simp: last_turns_def suffix_drop)

lemma length_last_turns_le: "0 \<le> k \<Longrightarrow> length (last_turns k ts) \<le> nat k"
  by (auto simp: last_turns_def)

lemma chunker_ok_emit:
  assumes "chunker_ok b k limit past c" and "0 \<le> k"
  shows "chunker_ok b k limit past (emit k c)"
proof (cases "ch_current c = [] \<or> length (ch_current c) \<le> ch_leading c")
  case True
  with assms show ?thesis by (simp add: emit_def)
next
  case False
  with assms have "ch_leading c < length (ch_current c)" and "b \<longrightarrow> turns_tokens (ch_current c) \<le> limit"
    by (auto simp: chunker_ok_def)
  with assms False show ?thesis
    using length_last_turns_le [OF assms(2), of "ch_current c"] last_turns_suffix [of k "ch_current c"]
    by (auto simp: chunker_ok_def emit_def Let_def chained_snoc core_turns_def group_ok_def)
qed

lemma emit_leading: "ch_leading (emit k c) \<le> ch_leading c \<or> ch_leading (emit k c) = length (ch_current (emit k c))"
  by (auto simp: emit_def Let_def)

lemma emit_full: "ch_leading c < length (ch_current c) \<Longrightarrow> ch_leading (emit k c) = length (ch_current (emit k c))"
  by (auto simp: emit_def Let_def)

lemma suffix_take_tl: "suffix (take n xs) ys \<Longrightarrow> suffix (take (n - 1) (tl xs)) ys"
proof -
  assume s: "suffix (take n xs) ys"
  have "suffix (take (n - 1) (tl xs)) (take n xs)"
    by (cases xs; cases n) (auto simp: suffix_def)
  then show ?thesis using s by (rule suffix_order.trans)
qed

lemma chunker_ok_pop:
  assumes "chunker_ok b k limit past c" and "length (ch_current c) \<le> ch_leading c"
  shows "chunker_ok b k limit past (pop_turn c)" and "length (ch_current (pop_turn c)) \<le> ch_leading (pop_turn c)"
  using assms suffix_take_tl [of "ch_leading c" "ch_current c"]
  by (auto simp: chunker_ok_def pop_turn_def)

lemma make_room_ok:
  assumes "chunker_ok b k limit past c" and "0 \<le> k"
  shows "chunker_ok b k limit past (make_room k limit n c) \<and>
         (ch_current (make_room k limit n c) = [] \<or> ch_tokens (make_room k limit n c) + n \<le> limit)"
  using assms
proof (induction k limit n c rule: make_room.induct)
  case (1 k limit n c)
  show ?case
  proof (cases "ch_current c \<noteq> [] \<and> ch_tokens c + n > limit")
    case True
    show ?thesis
    proof (cases "length (ch_current c) > ch_leading c")
      case longer: True
      from "1.IH"(1) [OF True longer chunker_ok_emit [OF "1.prems"] "1.prems"(2)] True longer show ?thesis
        by (simp add: make_room.simps [of k limit n c])
    next
      case False
      then have "length (ch_current c) \<le> ch_leading c" by simp
      from "1.IH"(2) [OF True False chunker_ok_pop(1) [OF "1.prems"(1) this] "1.prems"(2)] True False show ?thesis
        by (simp add: make_room.simps [of k limit n c])
    qed
  next
    case False
    with "1.prems" show ?thesis by (auto simp: make_room.simps [of k limit n c])
  qed
qed

lemma drop_overlap_ok:
  assumes "chunker_ok b k limit past c" and "length (ch_current c) \<le> ch_leading c"
  shows "chunker_ok b k limit past (drop_overlap limit n c) \<and>
         (ch_current (drop_overlap limit n c) = [] \<or> ch_tokens (drop_overlap limit n c) + n \<le> limit)"
  using assms
proof (induction limit n c rule: drop_overlap.induct)
  case (1 limit n c)
  show ?case
  proof (cases "ch_current c \<noteq> [] \<and> ch_tokens c + n > limit")
    case True
    from "1.IH" [OF True chunker_ok_pop [OF "1.prems"]] True show ?thesis
      by (simp add: drop_overlap.simps [of limit n c])
  next
    case False
    with "1.prems" show ?thesis by (auto simp: drop_overlap.simps [of limit n c])
  qed
qed

lemma chunker_ok_append:
  assumes "chunker_ok b k limit past c" and "ch_current c = [] \<or> ch_tokens c + tn_tokens t \<le> limit" and "b \<longrightarrow> tn_tokens t \<le> limit"
  shows "chunker_ok b k limit (past @ [t]) (c\<lparr>ch_current := ch_current c @ [t], ch_tokens := ch_tokens c + tn_tokens t\<rparr>)"
  using assms by (auto simp: chunker_ok_def)

text \<open>What a chunker that gives up has done: chunks of the turns before, and the two turns it could not compare.\<close>

definition gave_up :: "(turn \<Rightarrow> turn \<Rightarrow> int \<Rightarrow> chunk_error + bool) \<Rightarrow> import_options \<Rightarrow> turn list \<Rightarrow> (turn list \<times> nat) list \<times> chunk_error \<Rightarrow> bool" where
  "gave_up boundary op ts x \<longleftrightarrow>
    chained (fst x) \<and> set (concat (map core_turns (fst x))) \<subseteq> set ts \<and>
    (\<exists>t\<in>set ts. \<exists>u\<in>set ts. boundary t u (io_gap_minutes op) = Inl (snd x))"

lemma gave_up_mono: "gave_up boundary op ts x \<Longrightarrow> set ts \<subseteq> set us \<Longrightarrow> gave_up boundary op us x"
  by (auto simp: gave_up_def)

lemma add_turn_ok:
  assumes "chunker_ok b (io_overlap_turns op) (io_max_tokens op) past c" and "0 \<le> io_overlap_turns op"
    and "b \<longrightarrow> tn_tokens t \<le> io_max_tokens op"
  shows "case add_turn boundary op t c of
      Inl x \<Rightarrow> gave_up boundary op (past @ [t]) x
    | Inr c' \<Rightarrow> chunker_ok b (io_overlap_turns op) (io_max_tokens op) (past @ [t]) c'"
proof -
  let ?k = "io_overlap_turns op" and ?l = "io_max_tokens op"
  define c1 where "c1 = make_room ?k ?l (tn_tokens t) c"
  define ask where "ask \<longleftrightarrow> ch_current c1 \<noteq> [] \<and> length (ch_current c1) > ch_leading c1 \<and> ch_tokens c1 \<ge> 4000"
  define answer where "answer = (if ask then boundary (last (ch_current c1)) t (io_gap_minutes op) else Inr False)"
  have one: "chunker_ok b ?k ?l past c1 \<and> (ch_current c1 = [] \<or> ch_tokens c1 + tn_tokens t \<le> ?l)"
    unfolding c1_def by (rule make_room_ok [OF assms(1,2)])
  note step = add_turn_def [of boundary op t c, unfolded Let_def, folded c1_def, folded ask_def, folded answer_def]
  show ?thesis
  proof (cases answer)
    case (Inl e)
    then have "ask" and e: "boundary (last (ch_current c1)) t (io_gap_minutes op) = Inl e" by (auto simp: answer_def split: if_splits)
    then have "last (ch_current c1) \<in> set (drop (ch_leading c1) (ch_current c1))"
      by (metis ask_def drop_eq_Nil last_drop last_in_set linorder_not_less)
    with one e have "gave_up boundary op (past @ [t]) (ch_groups c1, e)"
      by (auto simp: chunker_ok_def gave_up_def)
    with Inl show ?thesis by (simp add: step)
  next
    case (Inr strong)
    define c2 where "c2 = (if strong then drop_overlap ?l (tn_tokens t) (emit ?k c1) else c1)"
    define c3 where "c3 = c2\<lparr>ch_current := ch_current c2 @ [t], ch_tokens := ch_tokens c2 + tn_tokens t\<rparr>"
    have two: "chunker_ok b ?k ?l past c2 \<and> (ch_current c2 = [] \<or> ch_tokens c2 + tn_tokens t \<le> ?l)"
    proof (cases strong)
      case True
      with Inr have "ask" by (auto simp: answer_def split: if_splits)
      then have "chunker_ok b ?k ?l past (drop_overlap ?l (tn_tokens t) (emit ?k c1)) \<and>
         (ch_current (drop_overlap ?l (tn_tokens t) (emit ?k c1)) = [] \<or>
          ch_tokens (drop_overlap ?l (tn_tokens t) (emit ?k c1)) + tn_tokens t \<le> ?l)"
        by (intro drop_overlap_ok chunker_ok_emit assms(2) conjunct1 [OF one]) (simp add: emit_full ask_def)
      with True show ?thesis by (simp add: c2_def)
    qed (use one in \<open>simp add: c2_def\<close>)
    then have "chunker_ok b ?k ?l (past @ [t]) c3" unfolding c3_def by (intro chunker_ok_append assms(3)) blast+
    moreover have "add_turn boundary op t c = Inr (if ch_tokens c3 \<ge> io_target_tokens op \<and> ch_tokens c3 \<ge> 4000 then emit ?k c3 else c3)"
      unfolding step Inr sum.case c2_def [symmetric] c3_def [symmetric] by (rule refl)
    ultimately show ?thesis using chunker_ok_emit [OF _ assms(2)] by auto
  qed
qed

lemma add_turns_ok:
  assumes "chunker_ok b (io_overlap_turns op) (io_max_tokens op) past c" and "0 \<le> io_overlap_turns op"
    and "b \<longrightarrow> (\<forall>t\<in>set ts. tn_tokens t \<le> io_max_tokens op)"
  shows "case add_turns boundary op ts c of
      Inl x \<Rightarrow> gave_up boundary op (past @ ts) x
    | Inr c' \<Rightarrow> chunker_ok b (io_overlap_turns op) (io_max_tokens op) (past @ ts) c'"
  using assms(1,3)
proof (induction ts arbitrary: c past)
  case (Cons t ts)
  have one: "b \<longrightarrow> tn_tokens t \<le> io_max_tokens op" using Cons.prems(2) by simp
  note t = add_turn_ok [OF Cons.prems(1) assms(2) one, of boundary]
  show ?case
  proof (cases "add_turn boundary op t c")
    case (Inl x)
    with t gave_up_mono [of boundary op "past @ [t]" x "past @ t # ts"] show ?thesis by auto
  next
    case (Inr c')
    with t have "chunker_ok b (io_overlap_turns op) (io_max_tokens op) (past @ [t]) c'" by simp
    from Cons.IH [OF this] Cons.prems(2) Inr show ?thesis unfolding append_assoc append_Cons append_Nil by simp
  qed
qed simp

lemma first_chunker_ok: "chunker_ok b k limit [] \<lparr>ch_groups = [], ch_current = [], ch_tokens = 0, ch_leading = 0\<rparr>"
  by (simp add: chunker_ok_def chained_def)

lemma plan_chunks_ok:
  assumes "0 \<le> io_overlap_turns op" and "b \<longrightarrow> (\<forall>t\<in>set ts. tn_tokens t \<le> io_max_tokens op)"
    and "plan_chunks boundary op ts = Inr gs"
  shows "concat (map core_turns gs) = ts \<and> chained gs \<and> (\<forall>g\<in>set gs. group_ok b (io_overlap_turns op) (io_max_tokens op) g)"
proof -
  obtain c where c: "add_turns boundary op ts \<lparr>ch_groups = [], ch_current = [], ch_tokens = 0, ch_leading = 0\<rparr> = Inr c"
    and gs: "gs = (if ch_current c \<noteq> [] \<and> length (ch_current c) > ch_leading c
        then ch_groups c @ [(ch_current c, ch_leading c)] else ch_groups c)"
    using assms(3) by (auto simp: plan_chunks_def err_simps)
  from add_turns_ok [OF first_chunker_ok assms(1,2), of boundary] c
  have ok: "chunker_ok b (io_overlap_turns op) (io_max_tokens op) ts c" by simp
  show ?thesis
  proof (cases "ch_leading c < length (ch_current c)")
    case True
    with ok show ?thesis unfolding gs by (auto simp: chunker_ok_def chained_snoc core_turns_def group_ok_def)
  next
    case False
    with ok show ?thesis unfolding gs by (auto simp: chunker_ok_def)
  qed
qed

lemma plan_chunks_fails:
  assumes "0 \<le> io_overlap_turns op" and "plan_chunks boundary op ts = Inl x"
  shows "gave_up boundary op ts x"
proof -
  have "add_turns boundary op ts \<lparr>ch_groups = [], ch_current = [], ch_tokens = 0, ch_leading = 0\<rparr> = Inl x"
    using assms(2) by (auto simp: plan_chunks_def bind_err_def split: sum.splits)
  with add_turns_ok [OF first_chunker_ok [of False] assms(1), of ts boundary] show ?thesis by simp
qed

text \<open>C21: the chunker partitions a conversation. Over the turns of a conversation, whatever counts as a topic
  boundary: the turns a chunk does not repeat are, chunk after chunk, all the turns in order, each
  exactly once; every chunk has one of its own, and repeats at most the configured number of
  turns, which are the last turns of the chunk before it. When no single turn exceeds the token
  limit, no chunk does.\<close>
theorem chunks_partition_turns:
  assumes "0 \<le> io_overlap_turns op" and "plan_chunks boundary op ts = Inr gs"
  shows "concat (map core_turns gs) = ts \<and> chained gs \<and>
         (\<forall>g\<in>set gs. core_turns g \<noteq> [] \<and> snd g \<le> nat (io_overlap_turns op)) \<and>
         ((\<forall>t\<in>set ts. tn_tokens t \<le> io_max_tokens op) \<longrightarrow> (\<forall>g\<in>set gs. turns_tokens (fst g) \<le> io_max_tokens op))"
  using plan_chunks_ok [OF assms(1) _ assms(2), of False] plan_chunks_ok [OF assms(1) _ assms(2), of True]
  by (auto simp: group_ok_def core_turns_def)

section \<open>No text is lost\<close>

text \<open>A text without embedded data, anywhere.\<close>

fun uri_free :: "pystr \<Rightarrow> bool" where
  "uri_free [] = True"
| "uri_free (c # cs) = (data_uri (c # cs) = None \<and> uri_free cs)"

lemma uri_free_strip: "uri_free s \<Longrightarrow> strip_inline_base64_data_uris s = s"
  by (induction s) auto

lemma literal_append: "literal p s = Some t \<Longrightarrow> literal p (s @ u) = Some (t @ u)"
  by (induction p s rule: literal.induct) (auto split: if_splits)

lemma literal_appendD: "literal p (s @ u) = Some t \<Longrightarrow> length p \<le> length s \<Longrightarrow> \<exists>t'. literal p s = Some t'"
  by (induction p s rule: literal.induct) (auto split: if_splits)

lemma dropWhile_run: "dropWhile P s \<noteq> [] \<Longrightarrow> dropWhile P (s @ u) = dropWhile P s @ u \<and> run_len P (s @ u) = run_len P s"
  by (induction s) (auto simp: run_len_def)

lemma run_len_append_pos: "run_len P s \<noteq> 0 \<Longrightarrow> run_len P (s @ u) \<noteq> 0"
  by (cases s) (auto simp: run_len_def split: if_splits)

lemma uri_rest_length: "uri_rest n s = Some r \<Longrightarrow> 9 \<le> length s"
proof (induction n s arbitrary: r rule: uri_rest.induct)
  case (2 n s)
  show ?case
  proof (cases "literal (U '';base64,'') s")
    case (Some payload)
    have len: "literal p s = Some t \<Longrightarrow> length s = length p + length t" for p t s
      by (induction p s rule: literal.induct) (auto split: if_splits)
    from Some 2(3) have "payload \<noteq> []" by (auto simp: run_len_def split: if_splits)
    then show ?thesis using len [OF Some] by (cases payload) (auto simp: U_def)
  next
    case None
    with 2(3) obtain c cs d ds where s: "s = c # cs" and dw: "dropWhile param_char cs = d # ds"
      and pos: "run_len param_char cs \<noteq> 0" and c: "c = 59" by (auto split: list.splits if_splits)
    have l1: "length (dropWhile param_char cs) \<le> length cs" by (rule length_dropWhile_le)
    have l2: "length (dropWhile value_char ds) \<le> length ds" by (rule length_dropWhile_le)
    show ?thesis
    proof (cases "d = 61")
      case True
      with 2(3) None s dw pos c have ok: "Suc 0 \<le> run_len value_char ds \<and> run_len value_char ds \<le> 200"
        and "uri_rest n (dropWhile value_char ds) = Some r" by (auto split: if_splits)
      with 2(1) [OF None s _ dw True] pos c have "9 \<le> length (dropWhile value_char ds)" by auto
      with l1 l2 dw s show ?thesis by simp
    next
      case False
      with 2(3) None s dw pos c have "uri_rest n (d # ds) = Some r" by auto
      with 2(2) [OF None s _ dw False] pos c have "9 \<le> length (d # ds)" by auto
      with l1 dw s show ?thesis by simp
    qed
  qed
qed simp

lemma uri_rest_append: "uri_rest n s = Some r \<Longrightarrow> n \<le> m \<Longrightarrow> \<exists>r'. uri_rest m (s @ u) = Some r'"
proof (induction n s arbitrary: r m rule: uri_rest.induct)
  case (2 n s)
  from 2(4) obtain m' where m: "m = Suc m'" and nm: "n \<le> m'" by (cases m) auto
  show ?case
  proof (cases "literal (U '';base64,'') s")
    case (Some payload)
    with 2(3) have "run_len payload_char payload \<noteq> 0" by (auto split: if_splits)
    from run_len_append_pos [OF this, of u] literal_append [OF Some, of u] show ?thesis by (simp add: m)
  next
    case None
    have "length (U '';base64,'') \<le> length s" using uri_rest_length [OF 2(3)] by (simp add: U_def)
    with None literal_appendD [of "U '';base64,''" s u] have none: "literal (U '';base64,'') (s @ u) = None"
      by (cases "literal (U '';base64,'') (s @ u)") auto
    from None 2(3) obtain c cs d ds where s: "s = c # cs" and dw: "dropWhile param_char cs = d # ds"
      and pos: "run_len param_char cs \<noteq> 0" and c: "c = 59" by (auto split: list.splits if_splits)
    have dwu: "dropWhile param_char (cs @ u) = d # (ds @ u)" "run_len param_char (cs @ u) \<noteq> 0"
      using dropWhile_run [of param_char cs u] dw pos by auto
    show ?thesis
    proof (cases "d = 61")
      case True
      with 2(3) None s dw pos c have ok: "Suc 0 \<le> run_len value_char ds \<and> run_len value_char ds \<le> 200"
        and rest: "uri_rest n (dropWhile value_char ds) = Some r" by (auto split: if_splits)
      have ne: "dropWhile value_char ds \<noteq> []"
        using uri_rest_length [OF rest] by (metis list.size(3) not_numeral_le_zero)
      have plain: "\<not> (c \<noteq> 59 \<or> run_len param_char cs = 0)" using pos c by simp
      have short: "1 \<le> run_len value_char ds \<and> run_len value_char ds \<le> 200" using ok by simp
      from 2(1) [OF None s plain dw True short rest nm]
      obtain r' where "uri_rest m' (dropWhile value_char ds @ u) = Some r'" by blast
      with none s dwu True ok dropWhile_run [OF ne, of u] c show ?thesis by (auto simp: m)
    next
      case False
      with 2(3) None s dw pos c have rest: "uri_rest n (d # ds) = Some r" by auto
      have plain: "\<not> (c \<noteq> 59 \<or> run_len param_char cs = 0)" using pos c by simp
      from 2(2) [OF None s plain dw False rest nm] obtain r' where "uri_rest m' ((d # ds) @ u) = Some r'" by blast
      with none s dwu False c show ?thesis by (auto simp: m)
    qed
  qed
qed simp

lemma data_uri_append: "data_uri s = Some r \<Longrightarrow> data_uri (s @ u) \<noteq> None"
proof -
  assume a: "data_uri s = Some r"
  then obtain t where t: "literal (U ''data:'') s = Some t" by (auto simp: data_uri_def split: option.splits)
  define t1 where "t1 = dropWhile mime_char t"
  define t2 where "t2 = (case t1 of [] \<Rightarrow> [] | c # cs \<Rightarrow> if c = 47 then cs else t1)"
  from a t have rest: "uri_rest (length s) (dropWhile mime_char t2) = Some r"
    unfolding t2_def t1_def by (simp add: data_uri_def Let_def)
  then have ne: "dropWhile mime_char t2 \<noteq> []" using uri_rest_length by fastforce
  then have "t2 \<noteq> []" by auto
  then have "t1 \<noteq> []" by (auto simp: t2_def)
  then have t1u: "dropWhile mime_char (t @ u) = t1 @ u" using dropWhile_run [of mime_char t u] by (simp add: t1_def)
  have t2u: "(case t1 @ u of [] \<Rightarrow> [] | c # cs \<Rightarrow> if c = 47 then cs else t1 @ u) = t2 @ u"
    using \<open>t1 \<noteq> []\<close> by (auto simp: t2_def split: list.splits)
  from uri_rest_append [OF rest, of "length (s @ u)" u] obtain r' where
    "uri_rest (length (s @ u)) (dropWhile mime_char t2 @ u) = Some r'" by auto
  moreover have "dropWhile mime_char (t2 @ u) = dropWhile mime_char t2 @ u" using dropWhile_run [OF ne] by blast
  ultimately show ?thesis
    using literal_append [OF t, of u] by (simp add: data_uri_def Let_def t1u t2u)
qed

lemma uri_free_back: "uri_free (a @ b) \<Longrightarrow> uri_free b"
  by (induction a) auto

lemma uri_free_front: "uri_free (a @ b) \<Longrightarrow> uri_free a"
proof (induction a)
  case (Cons c cs)
  then have "data_uri ((c # cs) @ b) = None" and "uri_free cs" by auto
  moreover have "data_uri (c # cs) = None"
    using data_uri_append [of "c # cs" _ b] \<open>data_uri ((c # cs) @ b) = None\<close> by (cases "data_uri (c # cs)") auto
  ultimately show ?case by simp
qed simp

lemma uri_free_part: "uri_free (concat parts) \<Longrightarrow> p \<in> set parts \<Longrightarrow> uri_free p"
  by (induction parts) (auto dest: uri_free_front uri_free_back)

lemma copy_message_sel [simp]:
  "cm_role (copy_message m s i) = cm_role m" "cm_index (copy_message m s i) = cm_index m"
  "cm_content (copy_message m s i) = strip_inline_base64_data_uris s"
  by (simp_all add: copy_message_def new_message_def)

lemma split_message_text:
  assumes "uri_free (cm_content m)"
  shows "concat (map cm_content (split_long_message_tokens enc m limit)) = cm_content m"
proof -
  let ?parts = "split_text_by_tokens enc (cm_content m) limit"
  have all: "concat ?parts = cm_content m" by (rule split_text_lossless)
  have "map cm_content (split_long_message_tokens enc m limit) = map strip_inline_base64_data_uris ?parts"
    by (auto simp: split_long_message_tokens_def enumerate_eq_zip zip_map_fst_snd map_eq_conv split_def
        intro!: nth_equalityI)
  also have "\<dots> = ?parts"
    by (rule map_idI) (use uri_free_part [of ?parts] assms in \<open>auto simp: all uri_free_strip\<close>)
  finally show ?thesis by (simp add: all)
qed

lemma indexed_text:
  assumes "\<forall>m\<in>set ms. uri_free (cm_content m)"
  shows "map cm_content (ensure_source_indices ms) = map cm_content ms"
  using assms by (auto simp: ensure_source_indices_def new_message_def uri_free_strip enumerate_eq_zip set_zip intro!: nth_equalityI)

lemma expanded_text:
  assumes "\<forall>m\<in>set ms. uri_free (cm_content m)"
  shows "concat (map cm_content (expanded_messages enc ms limit)) = concat (map cm_content ms)"
proof -
  let ?is = "ensure_source_indices ms"
  have contents: "map cm_content ?is = map cm_content ms" by (rule indexed_text [OF assms])
  have free: "uri_free (cm_content m)" if "m \<in> set ?is" for m
  proof -
    from that have "cm_content m \<in> set (map cm_content ?is)" by simp
    with contents assms show ?thesis by auto
  qed
  have "concat (map cm_content (concat (map (\<lambda>m. split_long_message_tokens enc m (limit - 16)) xs))) = concat (map cm_content xs)"
    if "\<forall>m\<in>set xs. uri_free (cm_content m)" for xs
    using that by (induction xs) (simp_all add: split_message_text)
  with free contents show ?thesis by (simp add: expanded_messages_def)
qed

text \<open>C22: from messages to chunks no text is lost. For messages without embedded data, whatever the
  tokenizer: the texts of the turns the chunks do not repeat, put together, are the texts of the
  messages, character for character and in order.\<close>
theorem chunking_keeps_text:
  assumes "\<forall>m\<in>set ms. uri_free (cm_content m)" and "0 \<le> io_overlap_turns op"
    and "plan_chunks (strong_turn_boundary dl) op (build_turns enc ms (io_max_tokens op)) = Inr gs"
  shows "concat (map cm_content (turns_messages (concat (map core_turns gs)))) = concat (map cm_content ms)"
  using chunks_partition_turns [OF assms(2,3)] expanded_text [OF assms(1)] build_turns_messages by simp

text \<open>Five turns of 2500 tokens with chunks of at most 6000 and one turn of overlap.\<close>

definition demo_options :: import_options where
  "demo_options = \<lparr>io_entities = [(U ''user_id'', U ''u'')], io_source_app = U ''auto'', io_infer = True, io_batch_id = U ''b'',
     io_skip_duplicates = True, io_redact = True, io_target_tokens = 5000, io_max_tokens = 6000,
     io_overlap_turns = 1, io_gap_minutes = 45, io_workers = 3, io_max_workers = 4, io_max_attempts = 3,
     io_retry_base = 1, io_retry_max = 30, io_retry_jitter = 35 / 100, io_tiering = True,
     io_audit_ratio = 7 / 100, io_max_split_depth = 5, io_key_version = 2\<rparr>"

lemma demo_options_normal: "normalize_options demo_options = Some demo_options"
  by code_simp

definition demo_message :: "pystr \<Rightarrow> pystr \<Rightarrow> chat_message" where
  "demo_message role content = new_message role content JNull None 0"

definition demo_turns :: "turn list" where
  "demo_turns = map (\<lambda>s. \<lparr>tn_messages = [demo_message user_role s], tn_tokens = 2500\<rparr>)
     [U ''a'', U ''b'', U ''c'', U ''d'', U ''e'']"

definition demo_plan :: "(turn list \<times> nat) list" where
  "demo_plan = (case plan_chunks (\<lambda>_ _ _. Inr False) demo_options demo_turns of Inl x \<Rightarrow> [] | Inr gs \<Rightarrow> gs)"

lemma chunks_partition_turns_witness:
  "concat (map core_turns demo_plan) = demo_turns \<and>
   map (\<lambda>(ts, k). (concat (map cm_content (turns_messages ts)), k)) demo_plan =
     [(U ''ab'', 0), (U ''bc'', 1), (U ''cd'', 1), (U ''de'', 1)]"
proof
  have k: "0 \<le> io_overlap_turns demo_options" by (simp add: demo_options_def)
  have "demo_plan \<noteq> []" by code_simp
  then obtain gs where gs: "plan_chunks (\<lambda>_ _ _. Inr False) demo_options demo_turns = Inr gs"
    by (auto simp: demo_plan_def split: sum.splits)
  from chunks_partition_turns [OF k gs] gs
  show "concat (map core_turns demo_plan) = demo_turns" by (simp add: demo_plan_def)
  show "map (\<lambda>(ts, k). (concat (map cm_content (turns_messages ts)), k)) demo_plan =
     [(U ''ab'', 0), (U ''bc'', 1), (U ''cd'', 1), (U ''de'', 1)]" by code_simp
qed

definition demo_conversation :: "chat_message list" where
  "demo_conversation = [demo_message user_role (U ''Where do I live?''), demo_message assistant_role (U ''In Rome. Since 2019.'')]"

text \<open>A library that knows two dates.\<close>

definition early_date :: pystr where "early_date = U ''0001-01-01T00:00:00+08:00''"

definition demo_dates :: date_lib where
  "demo_dates =
    \<lparr>dl_text = (\<lambda>v. []), dl_float = (\<lambda>s. None), dl_isoformat = (\<lambda>us. U ''1970-01-01T00:00:00+00:00''),
     dl_fromisoformat = (\<lambda>s. if s = early_date then Some (0, Some (8 * 3600 * 1000000))
       else if s = U ''1970-01-01T00:00:00+00:00'' then Some (unix_epoch, Some 0) else None),
     dl_local_timestamp = (\<lambda>us. Inr None)\<rparr>"

definition demo_text_plan :: "((turn list \<times> nat) list \<times> chunk_error) + (turn list \<times> nat) list" where
  "demo_text_plan =
    plan_chunks (strong_turn_boundary demo_dates) demo_options (build_turns None demo_conversation (io_max_tokens demo_options))"

lemma chunking_keeps_text_witness:
  "case demo_text_plan of Inl x \<Rightarrow> False
   | Inr gs \<Rightarrow> concat (map cm_content (turns_messages (concat (map core_turns gs)))) = U ''Where do I live?In Rome. Since 2019.''"
proof -
  have free: "\<forall>m\<in>set demo_conversation. uri_free (cm_content m)" by code_simp
  have k: "0 \<le> io_overlap_turns demo_options" by (simp add: demo_options_def)
  have text_of: "concat (map cm_content demo_conversation) = U ''Where do I live?In Rome. Since 2019.''" by code_simp
  have "case demo_text_plan of Inl x \<Rightarrow> False | Inr gs \<Rightarrow> True" by code_simp
  then obtain gs where gs: "demo_text_plan = Inr gs" by (auto split: sum.splits)
  from chunking_keeps_text [OF free k gs [unfolded demo_text_plan_def]] show ?thesis by (simp add: gs text_of)
qed

text \<open>A date that is in the year 0 in UTC is no date the code passes over: it stops the chunker.\<close>

lemma early_date_overflows: "timestamp_seconds demo_dates (JStr early_date) = Inl (DateOverflow (U ''date value out of range''))"
  by code_simp

lemma huge_number_overflows: "\<exists>s. timestamp_seconds dl (JInt (10 ^ 400)) = Inl (DateOverflow s)"
proof -
  have "(1000::int) * (2 ^ 1024 - 2 ^ 970) \<le> 10 ^ 400" by simp
  moreover have "\<not> (10::int) ^ 400 \<le> 10000000000" by simp
  ultimately have "milliseconds (10 ^ 400) = Inl (DateOverflow (U ''integer division result too large for a float''))"
    unfolding milliseconds_def by (simp only: if_False if_True)
  then show ?thesis by (simp add: timestamp_seconds_def coerce_iso_datetime_def del: power_numeral)
qed

lemma early_date_stops_chunker:
  "plan_chunks (strong_turn_boundary demo_dates) demo_options
    [\<lparr>tn_messages = [new_message user_role (U ''a'') (JStr early_date) None 0], tn_tokens = 4500\<rparr>,
     \<lparr>tn_messages = [demo_message user_role (U ''b'')], tn_tokens = 1000\<rparr>] = Inl ([], DateOverflow (U ''date value out of range''))"
  by code_simp

section \<open>The split of a chunk\<close>

lemma message_indices_simps [simp]:
  "message_indices [] = {}"
  "message_indices (m # ms) = (case cm_index m of None \<Rightarrow> {} | Some i \<Rightarrow> {i}) \<union> message_indices ms"
  "message_indices (xs @ ys) = message_indices xs \<union> message_indices ys"
  by (auto simp: message_indices_def map_filter_set split: option.split)

lemma set_indices_of [simp]: "set (indices_of ms) = message_indices ms"
  by (simp add: indices_of_def message_indices_def)

lemma message_indices_cong: "cm_index ` set xs = cm_index ` set ys \<Longrightarrow> message_indices xs = message_indices ys"
  unfolding message_indices_def map_filter_set by (auto simp: set_eq_iff image_iff) metis+

lemma update_content_indices:
  "message_indices (map (\<lambda>e. if Q e then e\<lparr>cm_content := g e\<rparr> else e) xs) = message_indices xs"
  by (induction xs) auto

lemma merge_fragments_indices:
  "merge_fragments ms merged = Inr out \<Longrightarrow> message_indices out = message_indices merged \<union> message_indices ms"
proof (induction ms merged rule: merge_fragments.induct)
  case (2 m ms merged)
  have new: "message_indices (merged @ [new_message (cm_role m) (cm_content m) (cm_created m) (cm_index m) (cm_part m)]) \<union>
      message_indices ms = message_indices merged \<union> message_indices (m # ms)"
    by (simp add: new_message_def Un_assoc)
  show ?case
  proof (cases "cm_index m")
    case None
    from 2(1) [OF None] 2(4) None have
      "message_indices out = message_indices (merged @ [new_message (cm_role m) (cm_content m) (cm_created m) (cm_index m) (cm_part m)]) \<union>
         message_indices ms" by (simp only: merge_fragments.simps option.case)
    with new show ?thesis by (simp only:)
  next
    case (Some i)
    show ?thesis
    proof (cases "List.find (\<lambda>e. cm_index e = Some i) merged")
      case None
      from 2(2) [OF Some None] 2(4) Some None have
        "message_indices out = message_indices (merged @ [new_message (cm_role m) (cm_content m) (cm_created m) (cm_index m) (cm_part m)]) \<union>
           message_indices ms" by (simp only: merge_fragments.simps option.case)
      with new show ?thesis by (simp only:)
    next
      case found: (Some e)
      then have e: "e \<in> set merged" "cm_index e = Some i" unfolding find_Some_iff by auto
      let ?upd = "map (\<lambda>e. if cm_index e = Some i then e\<lparr>cm_content := cm_content e @ cm_content m\<rparr> else e) merged"
      have "message_indices ?upd = message_indices merged" by (rule update_content_indices)
      moreover have "i \<in> message_indices merged" using e by (auto simp: message_indices_def map_filter_set)
      then have "message_indices merged \<union> message_indices (m # ms) = message_indices merged \<union> message_indices ms"
        using Some by (simp add: insert_absorb)
      moreover have "merge_fragments ms ?upd = Inr out" and same: "\<not> cm_role e \<noteq> cm_role m"
        using 2(4) Some found by (simp_all split: if_splits)
      ultimately show ?thesis using 2(3) [OF Some found same] by simp
    qed
  qed
qed simp

lemma split_long_message_index:
  "cm_index ` set (split_long_message_tokens enc m limit) = {cm_index m}"
proof -
  have "split_text_by_tokens enc (cm_content m) limit \<noteq> []" by (simp add: split_text_by_tokens_def Let_def)
  then show ?thesis
    by (auto simp: split_long_message_tokens_def image_image split_def enumerate_eq_zip set_zip)
qed

lemma split_long_message_indices:
  "message_indices (split_long_message_tokens enc m limit) = message_indices [m]"
  by (rule message_indices_cong) (simp add: split_long_message_index)

lemma message_indices_concat: "message_indices (concat xss) = (\<Union>xs\<in>set xss. message_indices xs)"
  by (induction xss) auto

lemma message_indices_UN: "message_indices ms = (\<Union>m\<in>set ms. message_indices [m])"
  by (induction ms) auto

text \<open>Messages that already have an index keep it.\<close>

lemma ensure_indices_same:
  assumes "\<forall>m\<in>set ms. cm_index m \<noteq> None"
  shows "message_indices (ensure_source_indices ms) = message_indices ms"
proof -
  have "map cm_index (ensure_source_indices ms) = map cm_index ms"
    using assms by (auto simp: ensure_source_indices_def new_message_def enumerate_eq_zip set_zip
        split: option.split intro!: nth_equalityI)
  then have "cm_index ` set (ensure_source_indices ms) = cm_index ` set ms" by (metis list.set_map)
  then show ?thesis by (rule message_indices_cong)
qed

lemma expanded_indices:
  assumes "\<forall>m\<in>set ms. cm_index m \<noteq> None"
  shows "message_indices (expanded_messages enc ms limit) = message_indices ms"
  using ensure_indices_same [OF assms] message_indices_UN [of "ensure_source_indices ms"]
  by (simp add: expanded_messages_def message_indices_concat split_long_message_indices)

definition own_messages :: "message_chunk \<Rightarrow> chat_message list" where
  "own_messages chunk = filter (\<lambda>m. case cm_index m of None \<Rightarrow> False | Some i \<Rightarrow> i \<in> set (ck_core chunk)) (ck_messages chunk)"

lemma own_indices: "message_indices (own_messages chunk) = message_indices (ck_messages chunk) \<inter> set (ck_core chunk)"
  by (auto simp: own_messages_def message_indices_def map_filter_set split: option.splits)

lemma split_turns_indices: "message_indices (turns_messages (split_turns enc chunk)) = message_indices (own_messages chunk)"
proof -
  let ?own = "own_messages chunk"
  have all: "\<forall>m\<in>set ?own. cm_index m \<noteq> None" by (auto simp: own_messages_def split: option.splits)
  have single: "turns_messages (map (\<lambda>m. turn_of enc [m]) xs) = xs" for xs by (induction xs) simp_all
  have pieces: "message_indices (concat (map (\<lambda>m. split_long_message_tokens enc m l) ?own)) = message_indices ?own" for l
    using message_indices_UN [of ?own] by (simp add: message_indices_concat split_long_message_indices)
  show ?thesis
    unfolding split_turns_def own_messages_def [symmetric] Let_def
    by (simp add: build_turns_messages expanded_indices [OF all] single pieces)
qed

lemma split_candidates_mem:
  assumes "(a, b, d, k) \<in> set (split_candidates core turns)"
  shows "1 \<le> k \<and> k < length turns \<and> message_indices (turns_messages (take k turns)) \<inter> set core \<noteq> {} \<and>
         message_indices (turns_messages (drop k turns)) \<inter> set core \<noteq> {}"
  using assms unfolding split_candidates_def map_filter_set by (auto simp: Let_def split: if_splits)

lemma chunk_from_turns_Inr:
  assumes "chunk_from_turns enc ts leading depth parent (Some allowed) = Inr c"
  shows "ck_depth c = depth \<and> ck_parent c = parent \<and>
         set (ck_core c) = message_indices (turns_messages ts) \<inter> set allowed \<and>
         message_indices (ck_messages c) = message_indices (turns_messages ts)"
proof -
  from assms obtain ms where ms: "merge_fragments (turns_messages ts) [] = Inr ms"
    unfolding chunk_from_turns_def bind_err_Inr_iff by blast
  from assms have c: "c = \<lparr>ck_messages = ms, ck_tokens = sum_list (map (message_tokens enc) ms), ck_indices = indices_of ms,
      ck_core = filter (\<lambda>i. i \<in> set allowed) (indices_of ms), ck_overlap = leading, ck_depth = depth, ck_parent = parent\<rparr>"
    unfolding chunk_from_turns_def ms by (simp add: Let_def)
  have "message_indices ms = message_indices (turns_messages ts)" using merge_fragments_indices [OF ms] by simp
  then show ?thesis unfolding c by (simp add: Int_def)
qed

lemma split_child_Some:
  assumes "split_child enc chunk key half overlap = Some (Inr c)"
  shows "ck_depth c = ck_depth chunk + 1 \<and> ck_parent c = Some key \<and> ck_core c \<noteq> [] \<and>
         set (ck_core c) \<subseteq> message_indices (ck_messages c) \<and>
         set (ck_core c) = (message_indices (turns_messages half) - overlap) \<inter> set (ck_core chunk)"
proof -
  let ?core = "filter (\<lambda>i. i \<notin> overlap \<and> i \<in> set (ck_core chunk)) (indices_of (turns_messages half))"
  from assms have ne: "?core \<noteq> []" and c: "chunk_from_turns enc half
      (length (takeWhile (\<lambda>t. message_indices (tn_messages t) \<inter> set ?core = {}) half)) (ck_depth chunk + 1) (Some key) (Some ?core) = Inr c"
    by (simp_all add: split_child_def Let_def split: if_splits)
  have "set ?core = (message_indices (turns_messages half) - overlap) \<inter> set (ck_core chunk)" by auto
  moreover from chunk_from_turns_Inr [OF c] have "set (ck_core c) \<subseteq> message_indices (ck_messages c)" by blast
  ultimately show ?thesis using chunk_from_turns_Inr [OF c] ne by (metis Int_absorb1 Int_commute Int_lower1 Diff_subset inf.coboundedI1 set_empty)
qed

text \<open>What a split gives.\<close>

lemma split_children:
  assumes "split_message_chunk enc chunk key = Inr cs"
  shows "cs = [] \<or> (\<exists>a b. cs = [a, b] \<and> (\<forall>c\<in>{a, b}. ck_depth c = ck_depth chunk + 1 \<and> ck_parent c = Some key \<and> ck_core c \<noteq> [] \<and>
              set (ck_core c) \<subseteq> message_indices (ck_messages c)) \<and>
           set (ck_core a) \<union> set (ck_core b) = message_indices (ck_messages chunk) \<inter> set (ck_core chunk))"
proof (cases "cs = []")
  case False
  define turns where "turns = split_turns enc chunk"
  define cands where "cands = split_candidates (ck_core chunk) turns"
  from False assms have go: "\<not> (length turns < 2 \<or> cands = [])"
    by (auto simp: split_message_chunk_def Let_def turns_def cands_def split: if_splits)
  obtain x y z k where min: "Min (set cands) = (x, y, z, k)" by (metis prod_cases4)
  have "(x, y, z, k) \<in> set cands" using Min_in [of "set cands"] go min by simp
  then have k: "1 \<le> k" "k < length turns" using split_candidates_mem unfolding cands_def by blast+
  define after' where "after' = (case context_question enc (take k turns) (drop k turns) of
      None \<Rightarrow> drop k turns | Some q \<Rightarrow> turn_of enc [q] # drop k turns)"
  define overlap where "overlap = (case context_question enc (take k turns) (drop k turns) of
      None \<Rightarrow> {} | Some q \<Rightarrow> (case cm_index q of None \<Rightarrow> {} | Some i \<Rightarrow> {i}))"
  have eq: "split_message_chunk enc chunk key =
      (case (split_child enc chunk key (take k turns) {}, split_child enc chunk key after' overlap) of
         (Some a, Some b) \<Rightarrow> bind_err a (\<lambda>x. bind_err b (\<lambda>y. Inr [x, y]))
       | (Some (Inl e), None) \<Rightarrow> Inl e
       | _ \<Rightarrow> Inr [])"
    using go min unfolding split_message_chunk_def Let_def turns_def [symmetric] cands_def [symmetric] after'_def overlap_def
    by (simp split: option.split)
  with assms False obtain a b where a: "split_child enc chunk key (take k turns) {} = Some (Inr a)"
    and b: "split_child enc chunk key after' overlap = Some (Inr b)" and cs: "cs = [a, b]"
    by (auto simp: bind_err_Inr_iff split: option.splits sum.splits)
  have after: "message_indices (turns_messages after') - overlap = message_indices (turns_messages (drop k turns))"
  proof (cases "context_question enc (take k turns) (drop k turns)")
    case (Some q)
    then obtain i where "cm_index q = Some i" "i \<notin> message_indices (turns_messages (drop k turns))"
      by (auto simp: context_question_def find_Some_iff split: if_splits option.splits)
    with Some show ?thesis by (auto simp: after'_def overlap_def)
  qed (simp add: after'_def overlap_def)
  have "message_indices (turns_messages (take k turns)) \<union> message_indices (turns_messages (drop k turns)) =
      message_indices (turns_messages turns)"
    by (metis append_take_drop_id message_indices_simps(3) turns_messages_simps(3))
  then have "set (ck_core a) \<union> set (ck_core b) = message_indices (ck_messages chunk) \<inter> set (ck_core chunk)"
    using split_child_Some [OF a] split_child_Some [OF b] after split_turns_indices [of enc chunk] own_indices [of chunk]
    by (auto simp: turns_def)
  with split_child_Some [OF a] split_child_Some [OF b] cs show ?thesis by auto
qed simp

text \<open>Splitting a chunk gives nothing or exactly two children, one level deeper and filed under the
  parent's key. Each has messages of its own to import, and between them they have exactly the
  parent's: no message of the parent is dropped, and none is imported that was only context.\<close>
theorem split_covers_core:
  assumes "split_message_chunk enc chunk key = Inr cs"
  shows "cs = [] \<or> (\<exists>a b. cs = [a, b] \<and> (\<forall>c\<in>{a, b}. ck_depth c = ck_depth chunk + 1 \<and> ck_parent c = Some key \<and> ck_core c \<noteq> []) \<and>
           set (ck_core a) \<union> set (ck_core b) = message_indices (ck_messages chunk) \<inter> set (ck_core chunk))"
  using split_children [OF assms] by blast

text \<open>A chunk of a question, its answer and an overlap that is not its own.\<close>

definition demo_chunk :: message_chunk where
  "demo_chunk = \<lparr>ck_messages = map (\<lambda>(r, s, i). new_message r s JNull (Some i) 0)
       [(user_role, U ''Old.'', 0), (user_role, U ''Where?'', 1), (assistant_role, U ''Rome.'', 2), (user_role, U ''Thanks.'', 3)],
     ck_tokens = 40, ck_indices = [0, 1, 2, 3], ck_core = [1, 2, 3], ck_overlap = 1, ck_depth = 0, ck_parent = None\<rparr>"

lemma split_covers_core_witness:
  "case split_message_chunk None demo_chunk (U ''k'') of
     Inr [a, b] \<Rightarrow> set (ck_core a) \<union> set (ck_core b) = {1, 2, 3} \<and> ck_depth a = 1 \<and> ck_core a = [1, 2] \<and> ck_core b = [3]
   | _ \<Rightarrow> False"
proof -
  have res: "case split_message_chunk None demo_chunk (U ''k'') of
     Inr [a, b] \<Rightarrow> ck_core a = [1, 2] \<and> ck_core b = [3] | _ \<Rightarrow> False" by code_simp
  then obtain a b where ab: "split_message_chunk None demo_chunk (U ''k'') = Inr [a, b]" "ck_core a = [1, 2]" "ck_core b = [3]"
    by (auto split: sum.splits list.splits)
  have own: "message_indices (ck_messages demo_chunk) \<inter> set (ck_core demo_chunk) = {1, 2, 3}" and d: "ck_depth demo_chunk = 0"
    by code_simp+
  from split_covers_core [OF ab(1)] ab own d show ?thesis by auto
qed

end
