(* ===== verification/Import_Runner_Laws.thy ===== *)
theory Import_Runner_Laws
  imports Import_Runner Chat_Chunks_Laws
begin

text \<open>
  What the worker guarantees: its counters always add up; without interruptions it accounts for
  every chunk exactly once, split children included; it ends, and never calls the provider more
  often than attempts and split depth allow; a permanent failure is not retried. What holds
  between every two states of a run is proved once, in a locale over relations that each of the
  worker's elementary steps respects, and relations of the world that each call of the environment respects.
\<close>

section \<open>What every step respects\<close>

locale runner_relation =
  fixes R :: "'w runner \<Rightarrow> 'w runner \<Rightarrow> bool" and S :: "'w \<Rightarrow> 'w \<Rightarrow> bool" and en :: "'w env"
  assumes same: "R r r"
    and compose: "R r r1 \<Longrightarrow> R r1 r2 \<Longrightarrow> R r r2"
    and asked: "S (rn_world r) w \<Longrightarrow> R r (r\<lparr>rn_world := w\<rparr>)"
    and reported: "S (rn_world r) w \<Longrightarrow> R r (r\<lparr>rn_world := w, rn_reports := xs\<rparr>)"
    and stored: "S (rn_world r) w \<Longrightarrow> R r (r\<lparr>rn_world := w, rn_stores := rn_stores r @ [s]\<rparr>)"
    and lost: "R r (r\<lparr>rn_fence_lost := True\<rparr>)"
    and skipped: "R r (count_skipped r)"
    and failed: "R r (count_failed r)"
    and imported: "R r (count_imported n r)"
    and retried: "R r (count_retried r)"
    and errored: "R r (count_error r)"
    and halved: "R r (r\<lparr>rn_total := rn_total r + 1, rn_split := rn_split r + 1\<rparr>)"
    and questions: "S w (snd (en_cancelled en w))" "S w (snd (en_external en w))" "S w (snd (en_sleep en w))" "S w (snd (en_acquire en w))"
    and store_call: "S w (snd (en_store en key n w))"
    and claim_call: "en_claim en = Some claim \<Longrightarrow> S w (snd (claim key n w))"
    and update_call: "en_update en = Some report_hook \<Longrightarrow> S w (snd (report_hook key st w))"
    and duplicate_call: "en_duplicate en = Some duplicate \<Longrightarrow> S w (snd (duplicate key w))"
begin

text \<open>Closure rules for the shapes the worker's code has: \<open>R a\<close> holds of the state an operation leaves
  when it holds of the one it starts from.\<close>

lemma in_pair: "R a r \<Longrightarrow> R a (snd (x, r))"
  by simp

lemma in_seq: "R a (snd m) \<Longrightarrow> (\<And>x r. R a r \<Longrightarrow> R a (snd (k x r))) \<Longrightarrow> R a (snd (case_prod k m))"
  by (cases m) simp

lemma in_if: "R a (snd x) \<Longrightarrow> R a (snd y) \<Longrightarrow> R a (snd (if b then x else y))"
  by simp

lemma in_sum: "(\<And>e. R a (snd (f e))) \<Longrightarrow> (\<And>x. R a (snd (g x))) \<Longrightarrow> R a (snd (case_sum f g s))"
  by (cases s) simp_all

lemma in_world: "S (rn_world r) w \<Longrightarrow> R a r \<Longrightarrow> R a (r\<lparr>rn_world := w\<rparr>)"
  by (erule compose) (rule asked)

lemma in_store: "S (rn_world r) w \<Longrightarrow> R a r \<Longrightarrow> R a (r\<lparr>rn_world := w, rn_stores := rn_stores r @ [s]\<rparr>)"
  by (erule compose) (rule stored)

lemma in_lost: "R a r \<Longrightarrow> R a (r\<lparr>rn_fence_lost := True\<rparr>)"
  by (erule compose) (rule lost)

lemma in_halved: "R a r \<Longrightarrow> R a (r\<lparr>rn_total := rn_total r + 1, rn_split := rn_split r + 1\<rparr>)"
  by (erule compose) (rule halved)

lemma in_counts:
  "R a r \<Longrightarrow> R a (count_skipped r)" "R a r \<Longrightarrow> R a (count_failed r)" "R a r \<Longrightarrow> R a (count_imported n r)"
  "R a r \<Longrightarrow> R a (count_retried r)" "R a r \<Longrightarrow> R a (count_error r)"
  by (blast intro: compose skipped failed imported retried errored)+

lemmas in_rules = in_pair in_seq in_if in_sum in_world in_store in_lost in_halved in_counts

lemma in_question: "(\<And>w. S w (snd (q w))) \<Longrightarrow> R a r \<Longrightarrow> R a (snd (ask q r))"
  unfolding ask_def Let_def by (cases "q (rn_world r)") (metis in_world prod.case snd_conv)

lemma in_ask:
  "R a r \<Longrightarrow> R a (snd (ask (en_cancelled en) r))" "R a r \<Longrightarrow> R a (snd (ask (en_external en) r))"
  "R a r \<Longrightarrow> R a (snd (ask (en_sleep en) r))" "R a r \<Longrightarrow> R a (snd (ask (en_acquire en) r))"
  by (rule in_question, rule questions, assumption)+

lemma in_cancelled: "R a r \<Longrightarrow> R a (snd (ask_cancelled en r))"
  unfolding ask_cancelled_def Let_def by (intro in_rules in_ask)

lemma in_external: "R a r \<Longrightarrow> R a (snd (ask_external en r))"
  unfolding ask_external_def by (intro in_rules in_ask)

lemma in_report: "R a r \<Longrightarrow> R a (snd (report en key st r))"
proof -
  assume "R a r"
  then have "R a (r\<lparr>rn_world := snd (f key (U st) (rn_world r)), rn_reports := xs\<rparr>)" if "en_update en = Some f" for f xs
    by (rule compose) (rule reported, rule update_call [OF that])
  with \<open>R a r\<close> show ?thesis by (simp add: report_def split_def Let_def split: option.split)
qed

lemma in_report_then: "R a r \<Longrightarrow> R a (snd (report_then en key st b r))"
  unfolding report_then_def by (intro in_rules in_report)

lemmas in_asks = in_ask in_cancelled in_external in_report in_report_then

lemma in_give_back: "R a r \<Longrightarrow> R a (snd (give_back en key claimed r))"
  unfolding give_back_def Let_def by (intro in_rules in_asks)

lemma in_claim_loop:
  assumes "en_claim en = Some claim"
  shows "R a r \<Longrightarrow> R a (snd (claim_loop en claim key n attempt r))"
proof (induction n arbitrary: attempt r)
  case (Suc n)
  show ?case
  proof (simp only: claim_loop.simps Let_def, intro in_seq in_if)
    show "R a (snd (ask_cancelled en r))" by (rule in_cancelled [OF Suc.prems])
  next
    fix stop r1 assume r1: "R a r1"
    show "R a (snd (ClaimDone (Inr False), r1))" using r1 by simp
  next
    fix stop :: bool and r1 assume r1: "R a r1"
    obtain answer w where a: "claim key (attempt + 1) (rn_world r1) = (answer, w)" by fastforce
    with claim_call [OF assms, of "rn_world r1" key "attempt + 1"] have w: "S (rn_world r1) w" by simp
    show "R a (snd (case claim key (attempt + 1) (rn_world r1) of (answer, w) \<Rightarrow>
        case answer of Inl e \<Rightarrow> (ClaimDone (Inl e), r1\<lparr>rn_world := w\<rparr>)
        | Inr b \<Rightarrow> if b = U ''succeeded'' \<or> b = U ''duplicate''
            then case report_then en key ''skipped'' True (count_skipped (r1\<lparr>rn_world := w\<rparr>)) of (res, r3) \<Rightarrow> (ClaimDone res, r3)
            else if b = U ''resume_succeeded'' then (ClaimDone (Inr True), r1\<lparr>rn_world := w\<rparr>)
            else if b = U ''split'' then (ClaimSplit, r1\<lparr>rn_world := w\<rparr>)
            else if b = U ''claimed'' then (ClaimHeld True, r1\<lparr>rn_world := w\<rparr>)
            else if b \<noteq> U ''busy'' then (ClaimDone (Inl (RunError (U ''Unsupported import manifest claim result''))), r1\<lparr>rn_world := w\<rparr>)
            else if n = 0
              then case report_then en key ''busy'' False (count_error (count_failed (r1\<lparr>rn_world := w\<rparr>))) of (res, r3) \<Rightarrow> (ClaimDone res, r3)
            else case report en key ''retrying'' (count_retried (r1\<lparr>rn_world := w\<rparr>)) of
                (Inl e, r3) \<Rightarrow> (ClaimDone (Inl e), r3)
              | (Inr _, r3) \<Rightarrow> case ask (en_sleep en) r3 of (ok, r4) \<Rightarrow>
                  if ok then claim_loop en claim key n (attempt + 1) r4 else (ClaimDone (Inr False), r4)))"
      unfolding a prod.case by (intro in_rules in_asks Suc.IH r1 w)
  qed
qed simp

lemma in_store_outcome:
  "(\<And>n p. R a (snd (f1 n p))) \<Longrightarrow> R a (snd f2) \<Longrightarrow> R a (snd f3) \<Longrightarrow> (\<And>e. R a (snd (f4 e))) \<Longrightarrow>
   R a (snd (case_store_outcome f1 f2 f3 f4 out))"
  by (cases out) simp_all

lemma in_run_exn:
  "R a (snd f1) \<Longrightarrow> (\<And>e. R a (snd (f2 e))) \<Longrightarrow> (\<And>s. R a (snd (f3 s))) \<Longrightarrow> (\<And>x. R a (snd (f4 x))) \<Longrightarrow>
   R a (snd (case_run_exn f1 f2 f3 f4 e))"
  by (cases e) simp_all

lemma in_chunk_error: "(\<And>i. R a (snd (f i))) \<Longrightarrow> (\<And>s. R a (snd (g s))) \<Longrightarrow> R a (snd (case_chunk_error f g e))"
  by (cases e) simp_all

lemma in_stored_call:
  "(\<And>out w. R a (snd (k out w))) \<Longrightarrow> R a (snd (case_prod k m))"
  by (cases m) simp

lemma in_try_store: "R a r \<Longrightarrow> R a (snd (try_store en key claimed attempt r))"
proof -
  assume r: "R a r"
  obtain admitted r1 where c: "ask (en_acquire en) r = (admitted, r1)" by fastforce
  with in_ask(4) [OF r] have r1: "R a r1" by simp
  obtain out w where s: "en_store en key (attempt + 1) (rn_world r1) = (out, w)" by fastforce
  with store_call [of "rn_world r1" key "attempt + 1"] have w: "S (rn_world r1) w" by simp
  show ?thesis
    unfolding try_store_def c Let_def prod.case s
    by (intro in_rules in_asks in_give_back in_store_outcome in_run_exn in_chunk_error r1 w)
qed

lemma in_option: "R a (snd f) \<Longrightarrow> (\<And>x. R a (snd (g x))) \<Longrightarrow> R a (snd (case_option f g o'))"
  by (cases o') simp_all

lemma in_handle_failure: "R a r \<Longrightarrow> R a (snd (handle_failure en enc op chunk key claimed attempt e r))"
  unfolding handle_failure_def Let_def by (intro in_rules in_asks in_give_back)

lemma in_attempt_loop: "R a r \<Longrightarrow> R a (snd (attempt_loop en enc op chunk key claimed n attempt e r))"
proof (induction n arbitrary: attempt e r)
  case (Suc n)
  have try_end: "(\<And>res. R a (snd (f res))) \<Longrightarrow> (\<And>e. R a (snd (g e))) \<Longrightarrow> R a (snd (case_try_end f g t))" for f g t
    by (cases t) simp_all
  show ?case
    unfolding attempt_loop.simps Let_def
    by (intro in_rules in_asks in_give_back in_try_store in_handle_failure in_option try_end Suc.IH Suc.prems)
qed simp

text \<open>The operations that may run out of fuel.\<close>

definition ends_in :: "'w runner \<Rightarrow> ('x \<times> 'w runner) option \<Rightarrow> bool" where
  "ends_in a m \<longleftrightarrow> (case m of None \<Rightarrow> True | Some (x, r) \<Rightarrow> R a r)"

lemma ends_in_simps [simp]: "ends_in a None" "ends_in a (Some (x, r)) \<longleftrightarrow> R a r"
  by (simp_all add: ends_in_def)

lemma ends_in_snd: "R a (snd m) \<Longrightarrow> ends_in a (Some m)"
  by (cases m) simp

lemma in_children:
  assumes "\<And>c r. R a r \<Longrightarrow> ends_in a (rec c r)" and "R a r"
  shows "ends_in a (process_children en rec cs ok r)"
  using assms(2)
proof (induction cs arbitrary: ok r)
  case (Cons c cs)
  obtain stop r1 where s: "ask_cancelled en r = (stop, r1)" by fastforce
  with in_cancelled [OF Cons.prems] have r1: "R a r1" by simp
  from assms(1) [OF r1, of c] show ?case
    by (auto simp: s r1 split: option.split sum.split prod.split intro!: Cons.IH)
qed simp

lemma in_split_children:
  assumes "\<And>c r. R a r \<Longrightarrow> ends_in a (rec c r)" and "R a r"
  shows "ends_in a (process_split_children en rec key cs r)"
proof -
  obtain res r1 where p: "report en key ''split'' r = (res, r1)" by fastforce
  with in_report [OF assms(2), of key "''split''"] have r1: "R a r1" by simp
  from in_children [OF assms(1) in_halved [OF r1]] show ?thesis
    by (auto simp: process_split_children_def p r1 split: sum.split)
qed

lemma in_run_attempts:
  assumes "\<And>c r. R a r \<Longrightarrow> ends_in a (rec c r)" and "R a r"
  shows "ends_in a (run_attempts en rec enc op chunk key claimed r)"
proof -
  obtain res r1 where p: "attempt_loop en enc op chunk key claimed (nat (io_max_attempts op)) 0 None r = (res, r1)" by fastforce
  with in_attempt_loop [OF assms(2)] have r1: "R a r1" by (metis snd_conv)
  have "R a (snd (record_failed_chunk en key claimed e r1))" for e
    unfolding record_failed_chunk_def Let_def by (intro in_rules in_asks in_give_back in_option r1)
  with in_split_children [OF assms(1) r1] r1 show ?thesis
    by (auto simp: run_attempts_def p intro: ends_in_snd split: attempts_end.split)
qed

lemma in_process_chunk: "R a r \<Longrightarrow> ends_in a (process_chunk fuel en enc op chunk r)"
proof (induction fuel arbitrary: chunk r)
  case (Suc fuel)
  have rec: "R a r' \<Longrightarrow> ends_in a (run_attempts en (process_chunk fuel en enc op) enc op chunk k b r')"
    "R a r' \<Longrightarrow> ends_in a (process_split_children en (process_chunk fuel en enc op) k cs r')" for k b cs r'
    by (rule in_run_attempts in_split_children, rule Suc.IH, assumption+)+
  obtain stop r1 where s: "ask_cancelled en r = (stop, r1)" by fastforce
  with in_cancelled [OF Suc.prems] have r1: "R a r1" by simp
  let ?key = "en_key en chunk"
  have rep: "ends_in a (Some (report_then en ?key ''skipped'' True (count_skipped r1)))"
    by (intro ends_in_snd in_report_then in_counts r1)
  have claims: "R a (snd (claim_loop en claim ?key (nat (io_max_attempts op)) 0 r1))" if "en_claim en = Some claim" for claim
    by (rule in_claim_loop [OF that r1])
  show ?case
  proof (cases "stop \<or> ?key \<in> set (en_existing en)")
    case True
    with rep r1 show ?thesis by (auto simp: s Let_def)
  next
    case False
    show ?thesis
    proof (cases "if io_skip_duplicates op then en_claim en else None")
      case (Some claim)
      obtain c r2 where c: "claim_loop en claim ?key (nat (io_max_attempts op)) 0 r1 = (c, r2)" by fastforce
      with claims [of claim] Some have r2: "R a r2" by (simp split: if_splits)
      from False Some rec [OF r2] r2 show ?thesis
        by (auto simp: s c Let_def split: claim_end.split sum.split)
    next
      case None
      show ?thesis
      proof (cases "if io_skip_duplicates op then en_duplicate en else None")
        case no_dup: None
        from False None no_dup rec(1) [OF r1] show ?thesis by (simp add: s Let_def)
      next
        case (Some d)
        obtain answer w where w: "d ?key (rn_world r1) = (answer, w)" by fastforce
        have "en_duplicate en = Some d" using Some by (simp split: if_splits)
        from duplicate_call [OF this, of "rn_world r1" ?key] have dup: "R a (r1\<lparr>rn_world := w\<rparr>)" by (simp add: w in_world [OF _ r1])
        from False None Some rec(1) [OF dup] rec(1) [OF in_counts(5) [OF dup]] in_counts(1) [OF dup]
        show ?thesis by (auto simp: s w Let_def split: sum.split bool.split)
      qed
    qed
  qed
qed simp

lemma in_process_all: "R a r \<Longrightarrow> ends_in a (process_all fuel en enc op cs r)"
proof (induction cs arbitrary: r)
  case (Cons c cs)
  obtain stop r1 where s: "ask_cancelled en r = (stop, r1)" by fastforce
  with in_cancelled [OF Cons.prems] have r1: "R a r1" by simp
  from in_process_chunk [OF r1, of fuel enc op c] show ?case
    by (auto simp: s r1 in_lost split: option.split sum.split prod.split run_exn.split intro!: Cons.IH)
qed simp

lemma process_chunk_R: "process_chunk fuel en enc op chunk r = Some (res, r') \<Longrightarrow> R r r'"
  using in_process_chunk [OF same, of r fuel enc op chunk] by (simp add: ends_in_def)

lemma process_all_R: "process_all fuel en enc op cs r = Some (res, r') \<Longrightarrow> R r r'"
  using in_process_all [OF same, of r fuel enc op cs] by (simp add: ends_in_def)

end

text \<open>The counters add up, and none of them ever goes back.\<close>

definition adds_up :: "'w runner \<Rightarrow> 'w runner \<Rightarrow> bool" where
  "adds_up r r' \<longleftrightarrow>
     rn_processed r' - rn_processed r =
       (rn_imported r' - rn_imported r) + (rn_skipped r' - rn_skipped r) + (rn_failed r' - rn_failed r) \<and>
     rn_total r' - rn_total r = rn_split r' - rn_split r \<and>
     rn_imported r \<le> rn_imported r' \<and> rn_skipped r \<le> rn_skipped r' \<and> rn_failed r \<le> rn_failed r' \<and>
     rn_split r \<le> rn_split r' \<and> rn_retried r \<le> rn_retried r' \<and> rn_errors r \<le> rn_errors r'"

interpretation counts: runner_relation adds_up "\<lambda>_ _. True" en for en
  by unfold_locales (auto simp: adds_up_def counter_defs)

text \<open>The worker's counters always add up. Whatever the hooks, the provider and the cancellation do, and
  however a chunk ends, also with an exception: what is added to the processed chunks is what is
  added to the imported, the skipped and the failed ones, every split adds exactly one chunk to
  the total, and no counter ever decreases.\<close>
theorem runner_counts_add_up:
  assumes "process_all fuel en enc op chunks r = Some (res, r')"
  shows "rn_processed r' - rn_processed r =
           (rn_imported r' - rn_imported r) + (rn_skipped r' - rn_skipped r) + (rn_failed r' - rn_failed r) \<and>
         rn_total r' - rn_total r = rn_split r' - rn_split r \<and>
         rn_imported r \<le> rn_imported r' \<and> rn_skipped r \<le> rn_skipped r' \<and> rn_failed r \<le> rn_failed r'"
  using counts.process_all_R [OF assms] by (simp add: adds_up_def)

section \<open>The worker ends, within a budget\<close>

lemma stores_simps [simp]:
  "rn_stores (snd (ask q r)) = rn_stores r"
  "rn_stores (snd (ask_cancelled en r)) = rn_stores r"
  "rn_stores (snd (ask_external en r)) = rn_stores r"
  "rn_stores (snd (report en key st r)) = rn_stores r"
  "rn_stores (count_skipped r) = rn_stores r" "rn_stores (count_failed r) = rn_stores r"
  "rn_stores (count_imported n r) = rn_stores r" "rn_stores (count_retried r) = rn_stores r"
  "rn_stores (count_error r) = rn_stores r"
  by (simp_all add: ask_def ask_cancelled_def ask_external_def report_def counter_defs Let_def split_def split: option.split)

lemma stores_report_then [simp]: "rn_stores (snd (report_then en key st b r)) = rn_stores r"
  using stores_simps(4) [of en key st r]
  by (cases "report en key st r") (auto simp: report_then_def split: sum.split)

lemma stores_give_back [simp]: "rn_stores (snd (give_back en key claimed r)) = rn_stores r"
  using stores_simps(3) [of en r] by (cases "ask_external en r") (auto simp: give_back_def)

lemma stores_claim_loop [simp]: "rn_stores (snd (claim_loop en claim key n attempt r)) = rn_stores r"
proof (induction n arbitrary: attempt r)
  case (Suc n)
  obtain stop r1 where s: "ask_cancelled en r = (stop, r1)" by fastforce
  then have r1: "rn_stores r1 = rn_stores r" using stores_simps(2) [of en r] by simp
  obtain answer w where a: "claim key (attempt + 1) (rn_world r1) = (answer, w)" by fastforce
  define r2 where "r2 = r1\<lparr>rn_world := w\<rparr>"
  have r2: "rn_stores r2 = rn_stores r" by (simp add: r2_def r1)
  obtain p3 r3 where p: "report en key ''retrying'' (count_retried r2) = (p3, r3)" by fastforce
  then have r3: "rn_stores r3 = rn_stores r" using stores_simps(4) [of en key "''retrying''" "count_retried r2"] r2 by simp
  obtain ok r4 where q: "ask (en_sleep en) r3 = (ok, r4)" by fastforce
  then have r4: "rn_stores r4 = rn_stores r" using stores_simps(1) [of "en_sleep en" r3] r3 by simp
  obtain x5 r5 where v: "report_then en key ''skipped'' True (count_skipped r2) = (x5, r5)" by fastforce
  then have r5: "rn_stores r5 = rn_stores r" using stores_report_then [of en key "''skipped''" True "count_skipped r2"] r2 by simp
  obtain x6 r6 where u: "report_then en key ''busy'' False (count_error (count_failed r2)) = (x6, r6)" by fastforce
  then have r6: "rn_stores r6 = rn_stores r"
    using stores_report_then [of en key "''busy''" False "count_error (count_failed r2)"] r2 by simp
  have ih: "rn_stores (snd (claim_loop en claim key n (attempt + 1) r4)) = rn_stores r" using Suc.IH r4 by simp
  show ?case
    unfolding claim_loop.simps Let_def s prod.case a r2_def [symmetric] p q v u
    using r1 r2 r3 r4 r5 r6 ih by (simp split: sum.split)
qed simp

lemma length_try_store: "length (rn_stores (snd (try_store en key claimed attempt r))) \<le> length (rn_stores r) + 1"
proof -
  obtain admitted r1 where c: "ask (en_acquire en) r = (admitted, r1)" by fastforce
  then have r1: "rn_stores r1 = rn_stores r" using stores_simps(1) [of "en_acquire en" r] by simp
  obtain out w where s: "en_store en key (attempt + 1) (rn_world r1) = (out, w)" by fastforce
  define r2 where "r2 = r1\<lparr>rn_world := w, rn_stores := rn_stores r1 @ [(key, attempt + 1)]\<rparr>"
  have r2: "length (rn_stores r2) = length (rn_stores r) + 1" by (simp add: r2_def r1)
  obtain ext r3 where e: "ask_external en r2 = (ext, r3)" by fastforce
  then have r3: "rn_stores r3 = rn_stores r2" using stores_simps(3) [of en r2] by simp
  have rep: "report en key ''succeeded'' (count_imported n r3) = (x, r4) \<Longrightarrow> rn_stores r4 = rn_stores r2" for n x r4
    using stores_simps(4) [of en key "''succeeded''" "count_imported n r3"] r3 by simp
  have gb: "give_back en key claimed q = (x, r4) \<Longrightarrow> rn_stores r4 = rn_stores q" for q x r4
    using stores_give_back [of en key claimed q] by simp
  show ?thesis
    unfolding try_store_def c Let_def prod.case s r2_def [symmetric] e
    using r1 r2 r3 gb rep
    by (cases out) (auto split: prod.split sum.split run_exn.split chunk_error.split)
qed

lemma stores_handle_failure [simp]: "rn_stores (snd (handle_failure en enc op chunk key claimed attempt e r)) = rn_stores r"
proof -
  obtain ext r1 where s: "ask_external en r = (ext, r1)" by fastforce
  then have r1: "rn_stores r1 = rn_stores r" using stores_simps(3) [of en r] by simp
  obtain p2 r2 where p: "report en key ''retrying'' r1 = (p2, r2)" by fastforce
  then have r2: "rn_stores r2 = rn_stores r" using stores_simps(4) [of en key "''retrying''" r1] r1 by simp
  obtain ok r3 where q: "ask (en_sleep en) (count_retried r2) = (ok, r3)" by fastforce
  then have r3: "rn_stores r3 = rn_stores r" using stores_simps(1) [of "en_sleep en" "count_retried r2"] r2 by simp
  obtain x r4 where g: "give_back en key claimed r3 = (x, r4)" by fastforce
  then have r4: "rn_stores r4 = rn_stores r" using stores_give_back [of en key claimed r3] r3 by simp
  show ?thesis
    unfolding handle_failure_def s Let_def prod.case p q g using r1 r2 r3 r4 by (simp split: sum.split)
qed

lemma length_attempt_loop:
  "length (rn_stores (snd (attempt_loop en enc op chunk key claimed n attempt e r))) \<le> length (rn_stores r) + n"
proof (induction n arbitrary: attempt e r)
  case (Suc n)
  obtain stop r1 where s: "ask_cancelled en r = (stop, r1)" by fastforce
  then have r1: "rn_stores r1 = rn_stores r" using stores_simps(2) [of en r] by simp
  obtain x g where g: "give_back en key claimed r1 = (x, g)" by fastforce
  then have rg: "rn_stores g = rn_stores r" using stores_give_back [of en key claimed r1] r1 by simp
  obtain p2 r2 where p: "report en key ''processing'' r1 = (p2, r2)" by fastforce
  then have r2: "rn_stores r2 = rn_stores r" using stores_simps(4) [of en key "''processing''" r1] r1 by simp
  obtain t r3 where t: "try_store en key claimed attempt r2 = (t, r3)" by fastforce
  then have r3: "length (rn_stores r3) \<le> length (rn_stores r) + 1" using length_try_store [of en key claimed attempt r2] r2 by simp
  have "length (rn_stores (snd (case handle_failure en enc op chunk key claimed attempt x r3 of
           (Some d, r4) \<Rightarrow> (d, r4) | (None, r4) \<Rightarrow> attempt_loop en enc op chunk key claimed n (attempt + 1) (Some x) r4)))
         \<le> length (rn_stores r) + Suc n" for x
  proof -
    obtain d r4 where h: "handle_failure en enc op chunk key claimed attempt x r3 = (d, r4)" by fastforce
    then have "rn_stores r4 = rn_stores r3" using stores_handle_failure [of en enc op chunk key claimed attempt x r3] by simp
    with r3 Suc.IH [of "attempt + 1" "Some x" r4] show ?thesis by (auto simp: h split: option.split)
  qed
  then show ?case
    unfolding attempt_loop.simps Let_def s prod.case p t g
    using r1 r2 r3 rg by (auto split: sum.split try_end.split)
qed simp

text \<open>Where a split can come from.\<close>

lemma handle_failure_split:
  "handle_failure en enc op chunk key claimed attempt e r = (Some (AttemptSplit cs), r') \<Longrightarrow>
   ck_depth chunk < io_max_split_depth op \<and> split_message_chunk enc chunk key = Inr cs \<and> length cs = 2"
  by (auto simp: handle_failure_def Let_def split: prod.splits if_splits sum.splits)

lemma attempt_loop_split:
  "attempt_loop en enc op chunk key claimed n attempt e r = (AttemptSplit cs, r') \<Longrightarrow>
   ck_depth chunk < io_max_split_depth op \<and> split_message_chunk enc chunk key = Inr cs \<and> length cs = 2"
proof (induction n arbitrary: attempt e r)
  case (Suc n)
  then show ?case
    by (auto simp: Let_def dest: handle_failure_split split: prod.splits if_splits sum.splits try_end.splits option.splits)
qed simp

lemma claim_loop_split:
  "claim_loop en claim key n attempt r = (ClaimSplit, r') \<Longrightarrow> \<exists>k w. fst (claim key k w) = Inr (U ''split'')"
proof (induction n arbitrary: attempt r)
  case (Suc n)
  then show ?case
    by (auto simp: Let_def split: prod.splits if_splits sum.splits) (metis fst_conv)+
qed simp

text \<open>\<open>ends_within b r m\<close>: the operation \<open>m\<close> started in \<open>r\<close> returns, after at most \<open>b\<close> store calls.\<close>

definition ends_within :: "nat \<Rightarrow> 'w runner \<Rightarrow> ('x \<times> 'w runner) option \<Rightarrow> bool" where
  "ends_within b r m \<longleftrightarrow> (case m of None \<Rightarrow> False | Some (_, r') \<Rightarrow> length (rn_stores r') \<le> length (rn_stores r) + b)"

lemma within_simps [simp]:
  "\<not> ends_within b r None" "ends_within b r (Some (x, r')) \<longleftrightarrow> length (rn_stores r') \<le> length (rn_stores r) + b"
  by (simp_all add: ends_within_def)

lemma within_Some: "ends_within b r (Some m) \<longleftrightarrow> length (rn_stores (snd m)) \<le> length (rn_stores r) + b"
  by (cases m) simp

lemma within_mono: "ends_within b r1 m \<Longrightarrow> length (rn_stores r1) + b \<le> length (rn_stores r) + b' \<Longrightarrow> ends_within b' r m"
  by (auto simp: ends_within_def split: option.splits)

lemma within_children:
  assumes "\<And>c r. c \<in> set cs \<Longrightarrow> ends_within b r (rec c r)"
  shows "ends_within (length cs * b) r (process_children en rec cs ok r)"
  using assms
proof (induction cs arbitrary: ok r)
  case (Cons c cs)
  obtain stop r1 where s: "ask_cancelled en r = (stop, r1)" by fastforce
  then have r1: "rn_stores r1 = rn_stores r" using stores_simps(2) [of en r] by simp
  from Cons.prems [of c r1] obtain x r2 where c: "rec c r1 = Some (x, r2)"
    and r2: "length (rn_stores r2) \<le> length (rn_stores r) + b" by (auto simp: ends_within_def r1 split: option.splits)
  have "ends_within (length (c # cs) * b) r (process_children en rec cs ok' r2)" for ok'
    by (rule within_mono [OF Cons.IH]) (use Cons.prems r2 in auto)
  with r1 r2 show ?case by (simp add: s c split: sum.split)
qed simp

lemma within_split_children:
  assumes "\<And>c r. c \<in> set cs \<Longrightarrow> ends_within b r (rec c r)" and "length cs = 2"
  shows "ends_within (2 * b) r (process_split_children en rec key cs r)"
proof -
  obtain res r1 where p: "report en key ''split'' r = (res, r1)" by fastforce
  then have r1: "rn_stores r1 = rn_stores r" using stores_simps(4) [of en key "''split''" r] by simp
  have "ends_within (2 * b) r (process_children en rec cs True (r1\<lparr>rn_total := rn_total r1 + 1, rn_split := rn_split r1 + 1\<rparr>))"
    by (rule within_mono [OF within_children [of cs b]]) (use assms r1 in auto)
  with r1 show ?thesis by (simp add: process_split_children_def p split: sum.split)
qed

lemma stores_record_failed [simp]: "rn_stores (snd (record_failed_chunk en key claimed e r)) = rn_stores r"
proof -
  obtain stop r1 where s: "ask_cancelled en r = (stop, r1)" by fastforce
  then have "rn_stores r1 = rn_stores r" using stores_simps(2) [of en r] by simp
  then show ?thesis by (simp add: record_failed_chunk_def s split: option.split)
qed

text \<open>What one chunk may cost: its attempts and, while it may still be split, its children's.\<close>

fun store_budget :: "nat \<Rightarrow> nat \<Rightarrow> nat" where
  "store_budget n 0 = n"
| "store_budget n (Suc d) = n + 2 * store_budget n d"

lemma store_budget_closed: "store_budget n d = n * (2 ^ (d + 1) - 1)"
proof (induction d)
  case (Suc d)
  have "(1::nat) \<le> 2 ^ (d + 1)" by simp
  with Suc show ?case by (simp add: algebra_simps)
qed simp

lemma split_children_depth:
  assumes "split_message_chunk enc chunk key = Inr cs" and "c \<in> set cs"
  shows "ck_depth c = ck_depth chunk + 1"
  using split_children [OF assms(1)] assms(2) by auto

lemma ends_within_attempts:
  assumes "\<And>cs. split_message_chunk enc chunk key = Inr cs \<Longrightarrow> ck_depth chunk < io_max_split_depth op \<Longrightarrow> length cs = 2 \<Longrightarrow>
      (\<And>c r. c \<in> set cs \<Longrightarrow> ends_within b r (rec c r))"
  shows "ends_within (nat (io_max_attempts op) + (if ck_depth chunk < io_max_split_depth op then 2 * b else 0)) r
           (run_attempts en rec enc op chunk key claimed r)"
proof -
  obtain t r1 where l: "attempt_loop en enc op chunk key claimed (nat (io_max_attempts op)) 0 None r = (t, r1)" by fastforce
  then have r1: "length (rn_stores r1) \<le> length (rn_stores r) + nat (io_max_attempts op)"
    using length_attempt_loop [of en enc op chunk key claimed "nat (io_max_attempts op)" 0 None r] by simp
  show ?thesis
  proof (cases t)
    case (AttemptSplit cs)
    with attempt_loop_split l have cs: "ck_depth chunk < io_max_split_depth op" "split_message_chunk enc chunk key = Inr cs" "length cs = 2"
      by blast+
    from within_split_children [of cs b rec, OF assms [OF cs(2,1,3)] cs(3)]
    have "ends_within (2 * b) r1 (process_split_children en rec key cs r1)" by blast
    with AttemptSplit cs(1) r1 show ?thesis by (auto simp: run_attempts_def l intro: within_mono)
  qed (use r1 in \<open>simp_all add: run_attempts_def l within_Some trans_le_add1\<close>)
qed

text \<open>A persisted split is only ever found where the worker itself would still split.\<close>

definition splits_within_depth :: "'w env \<Rightarrow> import_options \<Rightarrow> bool" where
  "splits_within_depth en op \<longleftrightarrow>
     (\<forall>claim c k w. en_claim en = Some claim \<longrightarrow> fst (claim (en_key en c) k w) = Inr (U ''split'') \<longrightarrow>
        ck_depth c < io_max_split_depth op)"

lemma process_chunk_ends:
  assumes ok: "splits_within_depth en op" and d: "io_max_split_depth op - ck_depth chunk \<le> int d" and fuel: "d < fuel"
  shows "ends_within (store_budget (nat (io_max_attempts op)) d) r (process_chunk fuel en enc op chunk r)"
  using d fuel
proof (induction fuel arbitrary: chunk d r)
  case (Suc fuel)
  let ?n = "nat (io_max_attempts op)" and ?key = "en_key en chunk" and ?rec = "process_chunk fuel en enc op"
  define B where "B = store_budget ?n d"
  define b where "b = store_budget ?n (d - 1)"
  have children: "ends_within b q (?rec c q)"
    if "split_message_chunk enc chunk ?key = Inr cs" "ck_depth chunk < io_max_split_depth op" "c \<in> set cs" for c cs q
  proof -
    have "d \<noteq> 0" using that(2) Suc.prems(1) by (cases d) auto
    with split_children_depth [OF that(1,3)] Suc.prems show ?thesis unfolding b_def by (intro Suc.IH) auto
  qed
  have le: "?n + (if ck_depth chunk < io_max_split_depth op then 2 * b else 0) \<le> B"
  proof (cases d)
    case 0
    with Suc.prems(1) show ?thesis by (simp add: B_def)
  next
    case (Suc e)
    then show ?thesis by (simp add: B_def b_def)
  qed
  have attempts: "ends_within B r (run_attempts en ?rec enc op chunk ?key claimed q)" if "rn_stores q = rn_stores r" for claimed q
    by (rule within_mono [OF ends_within_attempts [of enc chunk ?key op b ?rec]]) (use children le that in auto)
  have split: "ends_within B r (process_split_children en ?rec ?key cs q)"
    if "split_message_chunk enc chunk ?key = Inr cs" "ck_depth chunk < io_max_split_depth op" "length cs = 2" "rn_stores q = rn_stores r"
    for cs q
    by (rule within_mono [OF within_split_children [of cs b ?rec]]) (use children that le in \<open>auto split: if_splits\<close>)
  obtain stop r1 where s: "ask_cancelled en r = (stop, r1)" by fastforce
  then have r1: "rn_stores r1 = rn_stores r" using stores_simps(2) [of en r] by simp
  have rep: "ends_within B r (Some (report_then en ?key ''skipped'' True (count_skipped r1)))"
    using r1 by (simp add: within_Some)
  show ?case
  proof (cases "stop \<or> ?key \<in> set (en_existing en)")
    case True
    with rep r1 show ?thesis by (auto simp: s Let_def B_def [symmetric])
  next
    case False
    show ?thesis
    proof (cases "if io_skip_duplicates op then en_claim en else None")
      case (Some claim)
      obtain t r2 where c: "claim_loop en claim ?key ?n 0 r1 = (t, r2)" by fastforce
      then have r2: "rn_stores r2 = rn_stores r" using stores_claim_loop [of en claim ?key ?n 0 r1] r1 by simp
      have claim: "en_claim en = Some claim" using Some by (simp split: if_splits)
      have depth: "ck_depth chunk < io_max_split_depth op" if "t = ClaimSplit"
        using claim_loop_split [of en claim ?key ?n 0 r1 r2] c that ok claim unfolding splits_within_depth_def by blast
      from False Some attempts [OF r2] split [OF _ depth _ r2] r2 show ?thesis
        by (auto simp: s c Let_def B_def [symmetric] split: claim_end.split sum.split)
    next
      case None
      show ?thesis
      proof (cases "if io_skip_duplicates op then en_duplicate en else None")
        case no_dup: None
        from False None no_dup attempts [OF r1] show ?thesis by (simp add: s Let_def B_def [symmetric])
      next
        case (Some dup)
        obtain answer w where w: "dup ?key (rn_world r1) = (answer, w)" by fastforce
        have "rn_stores (r1\<lparr>rn_world := w\<rparr>) = rn_stores r" by (simp add: r1)
        with False None Some attempts [of "r1\<lparr>rn_world := w\<rparr>"] attempts [of "count_error (r1\<lparr>rn_world := w\<rparr>)"] show ?thesis
          by (auto simp: s w Let_def B_def [symmetric] split: sum.split bool.split)
      qed
    qed
  qed
qed simp

text \<open>C26: the worker ends, and what it may cost is bounded. Provided the manifest reports a split only
  where the worker could have split, processing any list of chunks returns (fuel above the
  remaining split depth \<open>d\<close> is enough), whatever the provider, the hooks and the cancellation do,
  and for each chunk it makes at most \<open>max_attempts * (2^(d + 1) - 1)\<close> calls of the store.\<close>
theorem runner_ends_within_budget:
  assumes "splits_within_depth en op" and "\<forall>c\<in>set chunks. io_max_split_depth op - ck_depth c \<le> int d" and "d < fuel"
  shows "\<exists>res r'. process_all fuel en enc op chunks r = Some (res, r') \<and>
           length (rn_stores r') \<le> length (rn_stores r) + length chunks * (nat (io_max_attempts op) * (2 ^ (d + 1) - 1))"
proof -
  let ?b = "nat (io_max_attempts op) * (2 ^ (d + 1) - 1)"
  have "ends_within (length chunks * ?b) r (process_all fuel en enc op chunks r)"
    using assms(2)
  proof (induction chunks arbitrary: r)
    case (Cons c cs)
    obtain stop r1 where s: "ask_cancelled en r = (stop, r1)" by fastforce
    then have r1: "rn_stores r1 = rn_stores r" using stores_simps(2) [of en r] by simp
    have "ends_within ?b r1 (process_chunk fuel en enc op c r1)"
      using process_chunk_ends [OF assms(1) _ assms(3), of c r1 enc] Cons.prems by (simp add: store_budget_closed)
    then obtain x r2 where c: "process_chunk fuel en enc op c r1 = Some (x, r2)"
      and r2: "length (rn_stores r2) \<le> length (rn_stores r) + ?b" by (auto simp: ends_within_def r1 split: option.splits)
    have "ends_within (length (c # cs) * ?b) r (process_all fuel en enc op cs r2)"
      by (rule within_mono [OF Cons.IH]) (use Cons.prems r2 in auto)
    with r1 r2 show ?case by (simp add: s c trans_le_add1 split: sum.split run_exn.split)
  qed simp
  then show ?thesis by (auto simp: ends_within_def split: option.splits)
qed

section \<open>Every chunk is accounted for\<close>

text \<open>An undisturbed run: nobody cancels, the claims never hand over a chunk that only has to be resumed,
  and the report of a success goes through, unless the lease is lost.\<close>

definition calm :: "'w env \<Rightarrow> bool" where
  "calm en \<longleftrightarrow>
     (\<forall>w. \<not> fst (en_cancelled en w) \<and> \<not> fst (en_external en w) \<and> fst (en_sleep en w) \<and> fst (en_acquire en w)) \<and>
     (\<forall>k a w. fst (en_store en k a w) \<noteq> StoreCancelled) \<and>
     (\<forall>claim k a w. en_claim en = Some claim \<longrightarrow> fst (claim k a w) \<noteq> Inr (U ''resume_succeeded'')) \<and>
     (\<forall>f k w. en_update en = Some f \<longrightarrow> fst (f k (U ''succeeded'') w) \<in> {Inr (), Inl LeaseLost})"

text \<open>What counts: the balance of processed and known chunks, the failures, the fence.\<close>

definition tally :: "'w runner \<Rightarrow> int \<times> int \<times> bool" where
  "tally r = (rn_processed r - rn_total r, rn_failed r, rn_fence_lost r)"

lemma tally_simps [simp]:
  "tally (r\<lparr>rn_world := w\<rparr>) = tally r" "tally (r\<lparr>rn_world := w, rn_stores := xs\<rparr>) = tally r"
  "tally (r\<lparr>rn_world := w, rn_reports := ys\<rparr>) = tally r"
  "tally (count_retried r) = tally r" "tally (count_error r) = tally r"
  by (simp_all add: tally_def counter_defs)

lemma tally_asks [simp]:
  "tally (snd (ask q r)) = tally r" "tally (snd (ask_cancelled en r)) = tally r"
  "tally (snd (ask_external en r)) = tally r" "tally (snd (report en key st r)) = tally r"
  by (simp_all add: ask_def ask_cancelled_def ask_external_def report_def Let_def split_def split: option.split)

lemma tally_counts:
  "tally r = (p, f, l) \<Longrightarrow> tally (count_skipped r) = (p + 1, f, l)"
  "tally r = (p, f, l) \<Longrightarrow> tally (count_failed r) = (p + 1, f + 1, l)"
  "tally r = (p, f, l) \<Longrightarrow> tally (count_imported n r) = (p + 1, f, l)"
  by (auto simp: tally_def counter_defs)

text \<open>\<open>settles p f res r\<close>: an operation that started with balance \<open>p\<close> and \<open>f\<close> failures has raised an exception,
  or has settled one chunk, truly successful when no failure was added.\<close>

definition settles :: "int \<Rightarrow> int \<Rightarrow> run_exn + bool \<Rightarrow> 'w runner \<Rightarrow> bool" where
  "settles p f res r \<longleftrightarrow>
     (case res of Inl _ \<Rightarrow> True | Inr b \<Rightarrow> \<exists>f'. tally r = (p + 1, f', False) \<and> f \<le> f' \<and> (b \<longleftrightarrow> f' = f))"

lemma settles_simps [simp]:
  "settles p f (Inl e) r" "settles p f (Inr b) r \<longleftrightarrow> (\<exists>f'. tally r = (p + 1, f', False) \<and> f \<le> f' \<and> (b \<longleftrightarrow> f' = f))"
  by (simp_all add: settles_def)

lemma calm_asks:
  assumes "calm en" and "tally r = (p, f, False)"
  shows "\<exists>r1. ask_cancelled en r = (False, r1) \<and> tally r1 = (p, f, False)"
    and "\<exists>r1. ask_external en r = (False, r1) \<and> tally r1 = (p, f, False)"
    and "\<exists>r1. ask (en_sleep en) r = (True, r1) \<and> tally r1 = (p, f, False)"
    and "\<exists>r1. ask (en_acquire en) r = (True, r1) \<and> tally r1 = (p, f, False)"
proof -
  have fence: "\<not> rn_fence_lost r" using assms(2) by (simp add: tally_def)
  have tell: "\<exists>r1. m = (x, r1) \<and> tally r1 = (p, f, False)" if "fst m = x" "tally (snd m) = tally r"
    for m :: "bool \<times> 'a runner" and x using that assms(2) by (cases m) simp
  show "\<exists>r1. ask_cancelled en r = (False, r1) \<and> tally r1 = (p, f, False)"
    by (rule tell) (use assms(1) fence in \<open>simp_all add: calm_def ask_cancelled_def ask_def Let_def split_def\<close>)
  show "\<exists>r1. ask_external en r = (False, r1) \<and> tally r1 = (p, f, False)"
    by (rule tell) (use assms(1) fence in \<open>simp_all add: calm_def ask_external_def ask_def Let_def split_def\<close>)
  show "\<exists>r1. ask (en_sleep en) r = (True, r1) \<and> tally r1 = (p, f, False)"
    "\<exists>r1. ask (en_acquire en) r = (True, r1) \<and> tally r1 = (p, f, False)"
    by (rule tell; use assms(1) in \<open>simp add: calm_def ask_def Let_def split_def\<close>)+
qed

lemma tally_report: "report en key st r = (x, r1) \<Longrightarrow> tally r1 = tally r"
  using tally_asks(4) [of en key st r] by simp

lemma settles_report_then:
  assumes "report_then en key st b r = (res, r')" and "tally r = (p + 1, f', False)" and "f \<le> f'" and "b \<longleftrightarrow> f' = f"
  shows "settles p f res r'"
  using assms tally_report [of en key st r] by (auto simp: report_then_def split: prod.splits sum.splits)

lemma claim_loop_calm:
  assumes "calm en" and "en_claim en = Some claim" and "claim_loop en claim key n k r = (t, r')" and "tally r = (p, f, False)"
  shows "case t of ClaimDone res \<Rightarrow> settles p f res r' | _ \<Rightarrow> tally r' = (p, f, False)"
  using assms(3,4)
proof (induction n arbitrary: k r)
  case (Suc n)
  obtain r1 where s: "ask_cancelled en r = (False, r1)" and r1: "tally r1 = (p, f, False)"
    using calm_asks(1) [OF assms(1) Suc.prems(2)] by blast
  obtain answer w where a: "claim key (k + 1) (rn_world r1) = (answer, w)" by fastforce
  define r2 where "r2 = r1\<lparr>rn_world := w\<rparr>"
  have r2: "tally r2 = (p, f, False)" by (simp add: r2_def r1)
  have go: "answer \<noteq> Inr (U ''resume_succeeded'')" using assms(1,2) a unfolding calm_def by (metis fst_conv)
  obtain x3 r3 where q: "report en key ''retrying'' (count_retried r2) = (x3, r3)" by fastforce
  have r3: "tally r3 = (p, f, False)" using tally_report [OF q] r2 by simp
  obtain r4 where z: "ask (en_sleep en) r3 = (True, r4)" and r4: "tally r4 = (p, f, False)"
    using calm_asks(3) [OF assms(1) r3] by blast
  obtain x5 r5 where v: "report_then en key ''skipped'' True (count_skipped r2) = (x5, r5)" by fastforce
  have r5: "settles p f x5 r5" by (rule settles_report_then [OF v]) (use tally_counts(1) [OF r2] in auto)
  obtain x6 r6 where u: "report_then en key ''busy'' False (count_error (count_failed r2)) = (x6, r6)" by fastforce
  have r6: "settles p f x6 r6" by (rule settles_report_then [OF u, of _ "f + 1"]) (use tally_counts(2) [OF r2] in auto)
  have ih: "claim_loop en claim key n (k + 1) r4 = (t, r') \<Longrightarrow> ?case" using Suc.IH [OF _ r4] by blast
  show ?case
    using Suc.prems(1) go r2 r3 r5 r6 ih
    unfolding claim_loop.simps Let_def s prod.case a r2_def [symmetric] q z v u
    by (cases answer) (auto split: if_splits sum.splits)
qed auto

lemma try_store_calm:
  assumes "calm en" and "try_store en key claimed k r = (t, r')" and r: "tally r = (p, f, False)"
  shows "case t of TryDone res \<Rightarrow> settles p f res r' | TryFailed e \<Rightarrow> tally r' = (p, f, False)"
proof -
  obtain r1 where c: "ask (en_acquire en) r = (True, r1)" and r1: "tally r1 = (p, f, False)"
    using calm_asks(4) [OF assms(1) r] by blast
  obtain out w where s: "en_store en key (k + 1) (rn_world r1) = (out, w)" by fastforce
  have go: "out \<noteq> StoreCancelled" using assms(1) s unfolding calm_def by (metis fst_conv)
  define r2 where "r2 = r1\<lparr>rn_world := w, rn_stores := rn_stores r1 @ [(key, k + 1)]\<rparr>"
  have r2: "tally r2 = (p, f, False)" by (simp add: r2_def r1)
  obtain r3 where e: "ask_external en r2 = (False, r3)" and r3: "tally r3 = (p, f, False)"
    using calm_asks(2) [OF assms(1) r2] by blast
  have rep: "x \<in> {Inr (), Inl LeaseLost} \<and> (x = Inr () \<longrightarrow> settles p f (Inr True) r4)"
    if q: "report en key ''succeeded'' (count_imported n r3) = (x, r4)" for x n r4
  proof -
    have "tally r4 = (p + 1, f, False)" using tally_report [OF q] tally_counts(3) [OF r3] by simp
    moreover have "x \<in> {Inr (), Inl LeaseLost}"
    proof (cases "en_update en")
      case (Some g)
      obtain y v where y: "g key (U ''succeeded'') (rn_world (count_imported n r3)) = (y, v)" by fastforce
      then have "y = x" using q by (simp add: report_def Some)
      with y assms(1) Some show ?thesis unfolding calm_def by (metis fst_conv)
    qed (use q in \<open>simp add: report_def\<close>)
    ultimately show ?thesis by simp
  qed
  show ?thesis
    using assms(2) go r2 rep
    unfolding try_store_def c Let_def prod.case s r2_def [symmetric] e
    by (cases out) (fastforce split: prod.splits sum.splits run_exn.splits)+
qed

lemma handle_failure_calm:
  assumes "calm en" and "handle_failure en enc op chunk key claimed k e r = (t, r')" and r: "tally r = (p, f, False)"
  shows "case t of Some (AttemptDone res) \<Rightarrow> settles p f res r' | _ \<Rightarrow> tally r' = (p, f, False)"
proof -
  obtain r1 where s: "ask_external en r = (False, r1)" and r1: "tally r1 = (p, f, False)"
    using calm_asks(2) [OF assms(1) r] by blast
  obtain x r2 where q: "report en key ''retrying'' r1 = (x, r2)" by fastforce
  have r2: "tally (count_retried r2) = (p, f, False)" using tally_report [OF q] r1 by simp
  obtain r3 where z: "ask (en_sleep en) (count_retried r2) = (True, r3)" and r3: "tally r3 = (p, f, False)"
    using calm_asks(3) [OF assms(1) r2] by blast
  show ?thesis
    using assms(2) r1 r3 unfolding handle_failure_def s Let_def prod.case q z
    by (simp split: if_splits sum.splits) auto
qed

lemma attempt_loop_calm:
  assumes "calm en" and "attempt_loop en enc op chunk key claimed n k e r = (t, r')" and "tally r = (p, f, False)"
  shows "case t of AttemptDone res \<Rightarrow> settles p f res r' | _ \<Rightarrow> tally r' = (p, f, False)"
  using assms(2,3)
proof (induction n arbitrary: k e r)
  case (Suc n)
  obtain r1 where s: "ask_cancelled en r = (False, r1)" and r1: "tally r1 = (p, f, False)"
    using calm_asks(1) [OF assms(1) Suc.prems(2)] by blast
  obtain x r2 where q: "report en key ''processing'' r1 = (x, r2)" by fastforce
  have r2: "tally r2 = (p, f, False)" using tally_report [OF q] r1 by simp
  obtain y r3 where y: "try_store en key claimed k r2 = (y, r3)" by fastforce
  note r3 = try_store_calm [OF assms(1) y r2]
  have failed: ?case
    if r3: "tally r3 = (p, f, False)"
      and run: "(case handle_failure en enc op chunk key claimed k er r3 of
        (Some d, r4) \<Rightarrow> (d, r4) | (None, r4) \<Rightarrow> attempt_loop en enc op chunk key claimed n (k + 1) (Some er) r4) = (t, r')" for er
  proof -
    obtain d r4 where h: "handle_failure en enc op chunk key claimed k er r3 = (d, r4)" by fastforce
    from handle_failure_calm [OF assms(1) h r3] run Suc.IH [of "k + 1" "Some er" r4] show ?thesis
      by (cases d) (auto simp: h)
  qed
  show ?case
    using Suc.prems(1) r3 failed unfolding attempt_loop.simps Let_def s prod.case q y
    by (auto split: sum.splits try_end.splits)
qed auto

lemma record_failed_calm:
  assumes "calm en" and "record_failed_chunk en key claimed e r = (res, r')" and r: "tally r = (p, f, False)"
  shows "settles p f res r'"
proof -
  obtain r1 where s: "ask_cancelled en r = (False, r1)" and r1: "tally r1 = (p, f, False)"
    using calm_asks(1) [OF assms(1) r] by blast
  note r2 = tally_counts(2) [OF r1]
  show ?thesis
  proof (cases e)
    case (Some x)
    then have "report_then en key ''failed'' False (count_error (count_failed r1)) = (res, r')"
      using assms(2) by (simp add: record_failed_chunk_def s)
    from settles_report_then [OF this, of p "f + 1" f] r2 show ?thesis by simp
  qed (use assms(2) r2 in \<open>auto simp: record_failed_chunk_def s\<close>)
qed

text \<open>\<open>accounted p f n m\<close>: \<open>m\<close> returns, if at all, with \<open>n\<close> chunks settled.\<close>

definition accounted :: "int \<Rightarrow> int \<Rightarrow> int \<Rightarrow> ((run_exn + bool) \<times> 'w runner) option \<Rightarrow> bool" where
  "accounted p f n m \<longleftrightarrow> (case m of Some (res, r) \<Rightarrow> settles (p + n - 1) f res r | None \<Rightarrow> True)"

lemma accounted_simps [simp]:
  "accounted p f n None" "accounted p f n (Some (res, r)) \<longleftrightarrow> settles (p + n - 1) f res r"
  by (simp_all add: accounted_def)

lemma accounted_shift: "accounted p f n m \<Longrightarrow> p + n = p' + n' \<Longrightarrow> accounted p' f n' m"
  by (cases m) (auto simp: accounted_def)

definition accounts :: "(message_chunk \<Rightarrow> 'w runner \<Rightarrow> ((run_exn + bool) \<times> 'w runner) option) \<Rightarrow> bool" where
  "accounts g \<longleftrightarrow> (\<forall>c r p f. tally r = (p, f, False) \<longrightarrow> accounted p f 1 (g c r))"

lemma accountsD: "accounts g \<Longrightarrow> tally r = (p, f, False) \<Longrightarrow> accounted p f 1 (g c r)"
  by (simp add: accounts_def)

lemma accounted_children:
  assumes "calm en" and "accounts rec"
    and "tally r = (p, f', False)" and "f \<le> f'" and "ok \<longleftrightarrow> f' = f"
  shows "accounted p f (int (length cs)) (process_children en rec cs ok r)"
  using assms(3-)
proof (induction cs arbitrary: ok r p f')
  case (Cons c cs)
  obtain r1 where s: "ask_cancelled en r = (False, r1)" and r1: "tally r1 = (p, f', False)"
    using calm_asks(1) [OF assms(1) Cons.prems(1)] by blast
  have "accounted p f (int (length (c # cs))) (process_children en rec cs (b \<and> ok) r2)"
    if "rec c r1 = Some (Inr b, r2)" for b r2
  proof -
    from accountsD [OF assms(2) r1, of c] that obtain f2 where f2: "tally r2 = (p + 1, f2, False)" "f' \<le> f2" "b \<longleftrightarrow> f2 = f'" by auto
    with Cons.IH [of r2 "p + 1" f2 "b \<and> ok"] Cons.prems(2,3) 
    have "accounted (p + 1) f (int (length cs)) (process_children en rec cs (b \<and> ok) r2)" by auto
    then show ?thesis by (rule accounted_shift) simp
  qed
  then show ?case by (auto simp: s split: option.split sum.split)
qed auto

lemma accounted_split_children:
  assumes "calm en" and "accounts rec"
    and "length cs = 2" and "tally r = (p, f, False)"
  shows "accounted p f 1 (process_split_children en rec key cs r)"
proof -
  obtain res r1 where q: "report en key ''split'' r = (res, r1)" by fastforce
  let ?r = "r1\<lparr>rn_total := rn_total r1 + 1, rn_split := rn_split r1 + 1\<rparr>"
  have "tally ?r = (p - 1, f, False)" using tally_report [OF q] assms(4) by (auto simp: tally_def)
  from accounted_children [OF assms(1,2) this, where f = f and cs = cs and ok = True] assms(3)
  have "accounted p f 1 (process_children en rec cs True ?r)" by (auto elim: accounted_shift)
  then show ?thesis by (simp add: process_split_children_def q split: sum.split)
qed

lemma accounted_attempts:
  assumes "calm en" and "accounts rec" and "tally r = (p, f, False)"
  shows "accounted p f 1 (run_attempts en rec enc op chunk key claimed r)"
proof -
  obtain t r1 where l: "attempt_loop en enc op chunk key claimed (nat (io_max_attempts op)) 0 None r = (t, r1)" by fastforce
  note r1 = attempt_loop_calm [OF assms(1) l assms(3)]
  show ?thesis
  proof (cases t)
    case (AttemptSplit cs)
    with attempt_loop_split l r1 have "length cs = 2" "tally r1 = (p, f, False)" by fastforce+
    with accounted_split_children [OF assms(1,2)] AttemptSplit show ?thesis by (simp add: run_attempts_def l)
  next
    case (AttemptsFailed e)
    obtain x r2 where "record_failed_chunk en key claimed e r1 = (x, r2)" by fastforce
    with record_failed_calm [OF assms(1) this] r1 AttemptsFailed show ?thesis by (simp add: run_attempts_def l)
  qed (use r1 in \<open>simp add: run_attempts_def l\<close>)
qed

lemma process_chunk_calm:
  assumes "calm en" and "tally r = (p, f, False)"
  shows "accounted p f 1 (process_chunk fuel en enc op chunk r)"
  using assms(2)
proof (induction fuel arbitrary: chunk r p f)
  case (Suc fuel)
  let ?n = "nat (io_max_attempts op)" and ?key = "en_key en chunk" and ?rec = "process_chunk fuel en enc op"
  have rec: "accounts ?rec" using Suc.IH by (simp add: accounts_def)
  note attempts = accounted_attempts [OF assms(1) rec]
  note split = accounted_split_children [OF assms(1) rec]
  obtain r1 where s: "ask_cancelled en r = (False, r1)" and r1: "tally r1 = (p, f, False)"
    using calm_asks(1) [OF assms(1) Suc.prems] by blast
  obtain x5 r5 where v: "report_then en ?key ''skipped'' True (count_skipped r1) = (x5, r5)" by fastforce
  have r5: "settles p f x5 r5" by (rule settles_report_then [OF v]) (use tally_counts(1) [OF r1] in auto)
  show ?case
  proof (cases "?key \<in> set (en_existing en)")
    case True
    with r5 v show ?thesis by (simp add: s Let_def)
  next
    case False
    show ?thesis
    proof (cases "if io_skip_duplicates op then en_claim en else None")
      case (Some claim)
      obtain t r2 where c: "claim_loop en claim ?key ?n 0 r1 = (t, r2)" by fastforce
      have "en_claim en = Some claim" using Some by (simp split: if_splits)
      note r2 = claim_loop_calm [OF assms(1) this c r1]
      from False Some attempts [of r2 p f] split [of _ r2 p f] r2 show ?thesis
        by (auto simp: s c Let_def split: claim_end.splits sum.split)
    next
      case None
      show ?thesis
      proof (cases "if io_skip_duplicates op then en_duplicate en else None")
        case no_dup: None
        from False None no_dup attempts [OF r1] show ?thesis by (simp add: s Let_def)
      next
        case (Some dup)
        obtain answer w where w: "dup ?key (rn_world r1) = (answer, w)" by fastforce
        have r2: "tally (r1\<lparr>rn_world := w\<rparr>) = (p, f, False)" by (simp add: r1)
        with False None Some attempts [OF r2] attempts [of "count_error (r1\<lparr>rn_world := w\<rparr>)" p f] tally_counts(1) [OF r2] show ?thesis
          by (auto simp: s w Let_def split: sum.split bool.split)
      qed
    qed
  qed
qed simp

text \<open>The counters of an undisturbed run agree in the end. If the job starts with all its chunks
  counted in the total and none of them processed, then a run that ends normally has processed
  exactly as many chunks as the total then says, the children of every split included.\<close>
theorem runner_accounts_for_every_chunk:
  assumes "calm en" and "\<not> rn_fence_lost r" and "rn_total r = rn_processed r + int (length chunks)"
    and "process_all fuel en enc op chunks r = Some (Inr (), r')"
  shows "rn_processed r' = rn_total r' \<and> \<not> rn_fence_lost r'"
proof -
  have "\<exists>f'. tally r' = (p + int (length chunks), f', False)" if "tally r = (p, f, False)" for p f
    using assms(4) that
  proof (induction chunks arbitrary: r p f)
    case (Cons c cs)
    obtain r1 where s: "ask_cancelled en r = (False, r1)" and r1: "tally r1 = (p, f, False)"
      using calm_asks(1) [OF assms(1) Cons.prems(2)] by blast
    from Cons.prems(1) obtain b r2 where c: "process_chunk fuel en enc op c r1 = Some (Inr b, r2)"
      and cs: "process_all fuel en enc op cs r2 = Some (Inr (), r')"
      by (auto simp: s split: option.splits sum.splits run_exn.splits)
    from process_chunk_calm [OF assms(1) r1, of fuel enc op c] c obtain f2 where "tally r2 = (p + 1, f2, False)" by auto
    from Cons.IH [OF cs this] show ?case by (simp add: algebra_simps)
  qed auto
  from this [of "rn_processed r - rn_total r" "rn_failed r"] assms(2,3) show ?thesis by (auto simp: tally_def)
qed

section \<open>How often a failure is tried again\<close>

text \<open>A provider that always fails in the same way, in an otherwise undisturbed run.\<close>

definition failing :: "'w env \<Rightarrow> exn \<Rightarrow> bool" where
  "failing en e \<longleftrightarrow> calm en \<and> (\<forall>k a w. fst (en_store en k a w) = StoreFailed e) \<and>
     (\<forall>f k s w. en_update en = Some f \<longrightarrow> fst (f k s w) = Inr ())"

lemma retry_immediately_iff: "retry_immediately e \<longleftrightarrow> \<not> permanent_failure e \<and> \<not> is_import_capacity_error e"
  by (auto simp: retry_immediately_def retryable_def)

definition ledger :: "'w runner \<Rightarrow> int \<times> int \<times> int \<times> int \<times> int" where
  "ledger r = (rn_processed r, rn_imported r, rn_skipped r, rn_failed r, rn_total r)"

definition log_of :: "'w runner \<Rightarrow> (int \<times> int \<times> int \<times> int \<times> int) \<times> (pystr \<times> int) list \<times> int" where
  "log_of r = (ledger r, rn_stores r, rn_retried r)"

lemma log_simps [simp]:
  "log_of (snd (ask q r)) = log_of r" "log_of (snd (ask_cancelled en r)) = log_of r"
  "log_of (snd (ask_external en r)) = log_of r" "log_of (snd (report en key st r)) = log_of r"
  by (simp_all add: log_of_def ledger_def ask_def ask_cancelled_def ask_external_def report_def Let_def split_def split: option.split)

lemma failing_asks:
  assumes "failing en e" and "\<not> rn_fence_lost r"
  shows "\<exists>r1. ask_cancelled en r = (False, r1) \<and> \<not> rn_fence_lost r1 \<and> log_of r1 = log_of r"
    and "\<exists>r1. ask_external en r = (False, r1) \<and> \<not> rn_fence_lost r1 \<and> log_of r1 = log_of r"
    and "\<exists>r1. ask (en_sleep en) r = (True, r1) \<and> \<not> rn_fence_lost r1 \<and> log_of r1 = log_of r"
    and "\<exists>r1. ask (en_acquire en) r = (True, r1) \<and> \<not> rn_fence_lost r1 \<and> log_of r1 = log_of r"
    and "\<exists>r1. report en key st r = (Inr (), r1) \<and> \<not> rn_fence_lost r1 \<and> log_of r1 = log_of r"
proof -
  have calm: "calm en" using assms(1) by (simp add: failing_def)
  have "tally r = (rn_processed r - rn_total r, rn_failed r, False)" using assms(2) by (simp add: tally_def)
  note calm_asks [OF calm this]
  then show "\<exists>r1. ask_cancelled en r = (False, r1) \<and> \<not> rn_fence_lost r1 \<and> log_of r1 = log_of r"
    "\<exists>r1. ask_external en r = (False, r1) \<and> \<not> rn_fence_lost r1 \<and> log_of r1 = log_of r"
    "\<exists>r1. ask (en_sleep en) r = (True, r1) \<and> \<not> rn_fence_lost r1 \<and> log_of r1 = log_of r"
    "\<exists>r1. ask (en_acquire en) r = (True, r1) \<and> \<not> rn_fence_lost r1 \<and> log_of r1 = log_of r"
    by (metis log_simps snd_conv tally_def prod.inject)+
  obtain x r1 where q: "report en key st r = (x, r1)" by fastforce
  have "x = Inr ()" using q assms(1) by (auto simp: report_def failing_def Let_def split_def split: option.splits)
  moreover have "\<not> rn_fence_lost r1" using tally_report [OF q] assms(2) by (simp add: tally_def)
  moreover have "log_of r1 = log_of r" using log_simps(4) [of en key st r] q by simp
  ultimately show "\<exists>r1. report en key st r = (Inr (), r1) \<and> \<not> rn_fence_lost r1 \<and> log_of r1 = log_of r" using q by simp
qed

lemma failing_try:
  assumes "failing en e" and "\<not> rn_fence_lost r" and "log_of r = (l, xs, n)"
  shows "\<exists>r1. try_store en key claimed k r = (TryFailed e, r1) \<and> \<not> rn_fence_lost r1 \<and> log_of r1 = (l, xs @ [(key, k + 1)], n)"
proof -
  obtain r1 where c: "ask (en_acquire en) r = (True, r1)" and r1: "\<not> rn_fence_lost r1" "log_of r1 = log_of r"
    using failing_asks(4) [OF assms(1,2)] by blast
  obtain out w where s: "en_store en key (k + 1) (rn_world r1) = (out, w)" by fastforce
  then have "out = StoreFailed e" using assms(1) unfolding failing_def by (metis fst_conv)
  with r1 assms(3) show ?thesis by (simp add: try_store_def c s log_of_def ledger_def)
qed

text \<open>After a failure that does not split the chunk: the next attempt, or the end.\<close>

lemma failing_handled:
  assumes "failing en e" and "\<not> rn_fence_lost r" and "log_of r = (l, xs, n)" and "\<not> should_split op chunk e k"
  shows "\<exists>r1. handle_failure en enc op chunk key claimed k e r = (if retry_immediately e then None else Some (AttemptsFailed (Some e)), r1) \<and>
           \<not> rn_fence_lost r1 \<and> log_of r1 = (l, xs, if retry_immediately e \<and> k + 1 < io_max_attempts op then n + 1 else n)"
proof -
  obtain r1 where s: "ask_external en r = (False, r1)" and r1: "\<not> rn_fence_lost r1" "log_of r1 = log_of r"
    using failing_asks(2) [OF assms(1,2)] by blast
  obtain r2 where q: "report en key ''retrying'' r1 = (Inr (), r2)" and r2: "\<not> rn_fence_lost r2" "log_of r2 = log_of r"
    using failing_asks(5) [OF assms(1) r1(1), of key "''retrying''"] r1(2) by auto
  have r2': "\<not> rn_fence_lost (count_retried r2)" "log_of (count_retried r2) = (l, xs, n + 1)"
    using r2 assms(3) by (simp_all add: counter_defs log_of_def ledger_def)
  obtain r3 where z: "ask (en_sleep en) (count_retried r2) = (True, r3)" and r3: "\<not> rn_fence_lost r3" "log_of r3 = (l, xs, n + 1)"
    using failing_asks(3) [OF assms(1) r2'(1)] r2'(2) by auto
  show ?thesis unfolding handle_failure_def s Let_def prod.case q z using assms(3,4) r1 r3 by simp
qed

lemma failing_attempts:
  assumes "failing en e" and "\<And>k. \<not> should_split op chunk e k"
  shows "\<not> rn_fence_lost r \<Longrightarrow> log_of r = (l, xs, m) \<Longrightarrow> k + int n + 1 = io_max_attempts op \<Longrightarrow>
    \<exists>r'. attempt_loop en enc op chunk key claimed (Suc n) k prev r = (AttemptsFailed (Some e), r') \<and> \<not> rn_fence_lost r' \<and>
      log_of r' = (if retry_immediately e then (l, xs @ map (Pair key) [k + 1..io_max_attempts op], m + int n)
                   else (l, xs @ [(key, k + 1)], m))"
proof (induction n arbitrary: k r xs m prev)
  case 0
  obtain r1 where s: "ask_cancelled en r = (False, r1)" and r1: "\<not> rn_fence_lost r1" "log_of r1 = (l, xs, m)"
    using failing_asks(1) [OF assms(1) "0.prems"(1)] "0.prems"(2) by auto
  obtain r2 where q: "report en key ''processing'' r1 = (Inr (), r2)" and r2: "\<not> rn_fence_lost r2" "log_of r2 = (l, xs, m)"
    using failing_asks(5) [OF assms(1) r1(1), of key "''processing''"] r1(2) by auto
  obtain r3 where y: "try_store en key claimed k r2 = (TryFailed e, r3)" and r3: "\<not> rn_fence_lost r3" "log_of r3 = (l, xs @ [(key, k + 1)], m)"
    using failing_try [OF assms(1) r2] by blast
  obtain r4 where "handle_failure en enc op chunk key claimed k e r3 = (if retry_immediately e then None else Some (AttemptsFailed (Some e)), r4)"
    "\<not> rn_fence_lost r4" "log_of r4 = (l, xs @ [(key, k + 1)], if retry_immediately e \<and> k + 1 < io_max_attempts op then m + 1 else m)"
    using failing_handled [OF assms(1) r3 assms(2)] by blast
  with "0.prems"(3) show ?case by (simp add: s q y)
next
  case (Suc n)
  obtain r1 where s: "ask_cancelled en r = (False, r1)" and r1: "\<not> rn_fence_lost r1" "log_of r1 = (l, xs, m)"
    using failing_asks(1) [OF assms(1) Suc.prems(1)] Suc.prems(2) by auto
  obtain r2 where q: "report en key ''processing'' r1 = (Inr (), r2)" and r2: "\<not> rn_fence_lost r2" "log_of r2 = (l, xs, m)"
    using failing_asks(5) [OF assms(1) r1(1), of key "''processing''"] r1(2) by auto
  obtain r3 where y: "try_store en key claimed k r2 = (TryFailed e, r3)" and r3: "\<not> rn_fence_lost r3" "log_of r3 = (l, xs @ [(key, k + 1)], m)"
    using failing_try [OF assms(1) r2] by blast
  obtain r4 where h: "handle_failure en enc op chunk key claimed k e r3 = (if retry_immediately e then None else Some (AttemptsFailed (Some e)), r4)"
    and r4: "\<not> rn_fence_lost r4" "log_of r4 = (l, xs @ [(key, k + 1)], if retry_immediately e \<and> k + 1 < io_max_attempts op then m + 1 else m)"
    using failing_handled [OF assms(1) r3 assms(2)] by blast
  have lt: "k + 1 < io_max_attempts op" "(k + 1) + int n + 1 = io_max_attempts op" using Suc.prems(3) by auto
  show ?case
  proof (cases "retry_immediately e")
    case True
    with r4(2) lt(1) have r4': "log_of r4 = (l, xs @ [(key, k + 1)], m + 1)" by simp
    from Suc.IH [OF r4(1) r4' lt(2), of "Some e"] True lt(1) h show ?thesis
      by (subst attempt_loop.simps) (auto simp: s q y upto_rec1)
  next
    case False
    with h r4 show ?thesis by (simp add: s q y)
  qed
qed

text \<open>C25: which failures are tried again. Take a store that always fails with one exception that neither
  is structural nor says "timeout", in an otherwise undisturbed run. A permanent failure or an
  exhausted storage quota is given up after the first call; everything else is tried exactly
  \<open>max_attempts\<close> times, numbered from 1, and every repetition but the first call is counted as a
  retry. Either way the chunk ends as one failed chunk.\<close>
theorem failing_chunk_attempts:
  assumes "failing en e" and "\<not> is_structural_chunk_error e" and "\<not> is_timeout_error e"
    and "1 \<le> io_max_attempts op" and "\<not> rn_fence_lost r"
  shows "\<exists>r'. run_attempts en rec enc op chunk key claimed r = Some (Inr False, r') \<and>
      (let n = (if permanent_failure e \<or> is_import_capacity_error e then 1 else io_max_attempts op)
       in rn_stores r' = rn_stores r @ map (Pair key) [1..n] \<and> rn_retried r' = rn_retried r + (n - 1)) \<and>
      rn_failed r' = rn_failed r + 1 \<and> rn_processed r' = rn_processed r + 1 \<and> rn_imported r' = rn_imported r"
proof -
  define n where "n = nat (io_max_attempts op) - 1"
  have no_split: "\<not> should_split op chunk e k" for k using assms(2,3) by (simp add: should_split_def)
  have n: "nat (io_max_attempts op) = Suc n" "0 + int n + 1 = io_max_attempts op" using assms(4) by (simp_all add: n_def)
  obtain r1 where l: "attempt_loop en enc op chunk key claimed (Suc n) 0 None r = (AttemptsFailed (Some e), r1)"
    and r1: "\<not> rn_fence_lost r1"
      "log_of r1 = (if retry_immediately e then (ledger r, rn_stores r @ map (Pair key) [0 + 1..io_max_attempts op], rn_retried r + int n)
         else (ledger r, rn_stores r @ [(key, 0 + 1)], rn_retried r))"
    using failing_attempts [OF assms(1) no_split assms(5) log_of_def n(2), of enc key claimed None] by blast
  obtain r2 where s: "ask_cancelled en r1 = (False, r2)" and r2: "\<not> rn_fence_lost r2" "log_of r2 = log_of r1"
    using failing_asks(1) [OF assms(1) r1(1)] by blast
  have "\<not> rn_fence_lost (count_error (count_failed r2))" using r2(1) by (simp add: counter_defs)
  then obtain r3 where q: "report en key ''failed'' (count_error (count_failed r2)) = (Inr (), r3)"
    and r3: "log_of r3 = log_of (count_error (count_failed r2))"
    using failing_asks(5) [OF assms(1)] by blast
  have run: "run_attempts en rec enc op chunk key claimed r = Some (Inr False, r3)"
    by (simp add: run_attempts_def n(1) l record_failed_chunk_def s report_then_def q del: attempt_loop.simps)
  have "rn_stores r3 = rn_stores r1 \<and> rn_retried r3 = rn_retried r1 \<and> rn_failed r3 = rn_failed r1 + 1 \<and>
      rn_processed r3 = rn_processed r1 + 1 \<and> rn_imported r3 = rn_imported r1"
    using r3 r2(2) by (simp add: log_of_def ledger_def counter_defs)
  moreover have "ledger r1 = ledger r" using r1(2) by (simp add: log_of_def split: if_splits)
  moreover have "rn_stores r1 = rn_stores r @ map (Pair key) [1..if retry_immediately e then io_max_attempts op else 1] \<and>
      rn_retried r1 = rn_retried r + ((if retry_immediately e then io_max_attempts op else 1) - 1)"
    using r1(2) n(2) by (simp add: log_of_def split: if_splits)
  ultimately show ?thesis
    using run by (auto simp: ledger_def retry_immediately_iff Let_def)
qed

section \<open>A run of the worker\<close>

text \<open>A provider that truncates its output on a whole chunk and manages the halves, seen through hooks
  that claim every chunk; and one that answers 429 forever.\<close>

definition demo_failure :: "string \<Rightarrow> int option \<Rightarrow> exn" where
  "demo_failure s status = map (\<lambda>x. x\<lparr>ex_status := status\<rparr>) (builtin_exn [''ProviderError''] (U s))"

definition demo_env :: "(pystr \<Rightarrow> store_outcome) \<Rightarrow> unit env" where
  "demo_env answer = \<lparr>en_key = (\<lambda>c. if ck_parent c = None then U ''whole'' else U ''half''),
     en_cancelled = Pair False, en_external = Pair False, en_sleep = Pair True, en_existing = [],
     en_claim = Some (\<lambda>k a w. (Inr (U ''claimed''), w)), en_update = Some (\<lambda>k s w. (Inr (), w)), en_duplicate = None,
     en_acquire = Pair True, en_store = (\<lambda>k a w. (answer k, w))\<rparr>"

definition truncating :: "pystr \<Rightarrow> store_outcome" where
  "truncating k = (if k = U ''whole'' then StoreFailed (demo_failure ''Output limit reached'' None) else Stored 2 False)"

definition demo_start :: "unit runner" where
  "demo_start = \<lparr>rn_world = (), rn_fence_lost = False, rn_total = 1, rn_processed = 0, rn_imported = 0, rn_skipped = 0,
     rn_failed = 0, rn_retried = 0, rn_split = 0, rn_memories = 0, rn_errors = 0, rn_stores = [], rn_reports = []\<rparr>"

lemma demo_answers: "U ''claimed'' \<noteq> U ''resume_succeeded''" "U ''claimed'' \<noteq> U ''split''"
  by code_simp+

lemma demo_calm: "(\<And>k. answer k \<noteq> StoreCancelled) \<Longrightarrow> calm (demo_env answer)"
  by (simp add: calm_def demo_env_def demo_answers)

lemma demo_depth: "splits_within_depth (demo_env answer) op"
  by (simp add: splits_within_depth_def demo_env_def demo_answers)

definition demo_run :: "((run_exn + unit) \<times> unit runner) option" where
  "demo_run = process_all 6 (demo_env truncating) None demo_options [demo_chunk] demo_start"

lemma demo_run_computed:
  "case process_all 6 (demo_env truncating) None demo_options [demo_chunk] demo_start of
     Some (Inr u, r) \<Rightarrow> rn_total r = 2 \<and> rn_memories r = 4 | _ \<Rightarrow> False"
  by code_simp

lemma ended_run:
  fixes m :: "(('e + 'u) \<times> 'r) option"
  shows "(case m of Some (Inr u, r) \<Rightarrow> P r | _ \<Rightarrow> False) \<Longrightarrow> \<exists>u r. m = Some (Inr u, r) \<and> P r"
  by (cases m; cases "fst (the m)") auto

lemma demo_run_some: "\<exists>r. demo_run = Some (Inr (), r) \<and> rn_total r = 2 \<and> rn_memories r = 4"
  using ended_run [OF demo_run_computed] by (simp add: demo_run_def)

lemma runner_counts_add_up_witness:
  "\<exists>r. demo_run = Some (Inr (), r) \<and> rn_processed r = rn_imported r + rn_skipped r + rn_failed r \<and> rn_split r = 1"
proof -
  obtain r where r: "demo_run = Some (Inr (), r)" "rn_total r = 2" using demo_run_some by blast
  from runner_counts_add_up [OF r(1) [unfolded demo_run_def]] r show ?thesis by (intro exI [of _ r]) (simp add: demo_start_def)
qed

lemma runner_ends_within_budget_witness:
  "\<exists>res r. process_all 6 (demo_env truncating) None demo_options [demo_chunk] demo_start = Some (res, r) \<and>
     length (rn_stores r) \<le> 189"
proof -
  have "\<forall>c\<in>set [demo_chunk]. io_max_split_depth demo_options - ck_depth c \<le> int 5"
    by (simp add: demo_options_def demo_chunk_def)
  from runner_ends_within_budget [OF demo_depth this, of 6 truncating None demo_start] show ?thesis
    by (simp add: demo_start_def demo_options_def)
qed

lemma runner_accounts_for_every_chunk_witness:
  "\<exists>r. demo_run = Some (Inr (), r) \<and> rn_processed r = 2 \<and> rn_total r = 2 \<and> rn_memories r = 4"
proof -
  obtain r where r: "demo_run = Some (Inr (), r)" "rn_total r = 2" "rn_memories r = 4" using demo_run_some by blast
  have "calm (demo_env truncating)" by (rule demo_calm) (simp add: truncating_def)
  from runner_accounts_for_every_chunk [OF this _ _ r(1) [unfolded demo_run_def]] r show ?thesis
    by (intro exI [of _ r]) (simp add: demo_start_def)
qed

text \<open>HTTP 429 is worth another attempt, HTTP 401 is not.\<close>

lemma failing_chunk_attempts_witness:
  "(\<exists>r. run_attempts (demo_env (\<lambda>_. StoreFailed (demo_failure ''Slow down'' (Some 429)))) (\<lambda>c r. None) None demo_options demo_chunk
      (U ''whole'') True demo_start = Some (Inr False, r) \<and> rn_stores r = [(U ''whole'', 1), (U ''whole'', 2), (U ''whole'', 3)] \<and>
      rn_retried r = 2 \<and> rn_failed r = 1) \<and>
  (\<exists>r. run_attempts (demo_env (\<lambda>_. StoreFailed (demo_failure ''Bad key'' (Some 401)))) (\<lambda>c r. None) None demo_options demo_chunk
      (U ''whole'') True demo_start = Some (Inr False, r) \<and> rn_stores r = [(U ''whole'', 1)] \<and> rn_retried r = 0)"
proof -
  have f: "failing (demo_env (\<lambda>_. StoreFailed e)) e" for e
    by (simp add: failing_def demo_calm) (simp add: demo_env_def)
  have k: "\<not> permanent_failure (demo_failure ''Slow down'' (Some 429))" "permanent_failure (demo_failure ''Bad key'' (Some 401))"
    "\<not> is_import_capacity_error (demo_failure ''Slow down'' (Some 429))"
    "\<not> is_structural_chunk_error (demo_failure ''Slow down'' (Some 429))" "\<not> is_timeout_error (demo_failure ''Slow down'' (Some 429))"
    "\<not> is_structural_chunk_error (demo_failure ''Bad key'' (Some 401))" "\<not> is_timeout_error (demo_failure ''Bad key'' (Some 401))"
    "io_max_attempts demo_options = 3" by code_simp+
  have u: "[1..3::int] = [1, 2, 3]" by (simp add: upto_rec1)
  have start: "\<not> rn_fence_lost demo_start" by (simp add: demo_start_def)
  have a: "\<exists>r. run_attempts (demo_env (\<lambda>_. StoreFailed (demo_failure ''Slow down'' (Some 429)))) (\<lambda>c r. None) None demo_options demo_chunk
      (U ''whole'') True demo_start = Some (Inr False, r) \<and> rn_stores r = [(U ''whole'', 1), (U ''whole'', 2), (U ''whole'', 3)] \<and>
      rn_retried r = 2 \<and> rn_failed r = 1"
    using failing_chunk_attempts [OF f k(4,5) _ start, of demo_options "\<lambda>c r. None" None demo_chunk "U ''whole''" True] k(1,3,8) u
    by (auto simp: Let_def demo_start_def)
  have b: "\<exists>r. run_attempts (demo_env (\<lambda>_. StoreFailed (demo_failure ''Bad key'' (Some 401)))) (\<lambda>c r. None) None demo_options demo_chunk
      (U ''whole'') True demo_start = Some (Inr False, r) \<and> rn_stores r = [(U ''whole'', 1)] \<and> rn_retried r = 0"
    using failing_chunk_attempts [OF f k(6,7) _ start, of demo_options "\<lambda>c r. None" None demo_chunk "U ''whole''" True] k(2,8)
    by (auto simp: Let_def demo_start_def)
  from a b show ?thesis ..
qed

text \<open>When the report of a success raises an ordinary exception, the stored chunk is stored and counted
  again with every attempt that is left.\<close>

definition deaf_env :: "unit env" where
  "deaf_env = (demo_env (\<lambda>_. Stored 2 False))\<lparr>en_update :=
     Some (\<lambda>k s w. (if s = U ''succeeded'' then Inl (Raised (demo_failure ''Connection reset'' None)) else Inr (), w))\<rparr>"

lemma success_counted_again:
  "case process_all 6 deaf_env None demo_options [demo_chunk] demo_start of
     Some (Inr u, r) \<Rightarrow> rn_imported r = 3 \<and> length (rn_stores r) = 3 \<and> rn_total r = 1 | _ \<Rightarrow> False"
  by code_simp

end
