(* ===== verification/Import_Resume.thy ===== *)
theory Import_Resume
  imports Import_Runner Chat_Chunks_Laws
begin

text \<open>
  How a retried job finds its place again (server/chat_import.py): which version of the import
  keys its chunks were filed under, and which chunks stand today where earlier attempts split
  some. The import key of a chunk under given options is a parameter (a SHA-256 hash in the code).
\<close>

section \<open>The version of the keys\<close>

definition legacy_key_version :: int where
  "legacy_key_version = 1"

definition current_key_version :: int where
  "current_key_version = 2"

definition version_keys ::
  "(import_options \<Rightarrow> 'c \<Rightarrow> pystr) \<Rightarrow> import_options \<Rightarrow> 'c list \<Rightarrow> int \<Rightarrow> pystr list option" where
  "version_keys keyf op chunks v =
    map_option (\<lambda>candidate. map (keyf candidate) chunks) (normalize_options (op\<lparr>io_key_version := v\<rparr>))"

text \<open>Some chunk is on record under its key of that version.\<close>

definition recorded_under ::
  "(import_options \<Rightarrow> 'c \<Rightarrow> pystr) \<Rightarrow> import_options \<Rightarrow> 'c list \<Rightarrow> (pystr \<times> pystr) list \<Rightarrow> int \<Rightarrow> bool" where
  "recorded_under keyf op chunks persisted v =
    (case version_keys keyf op chunks v of None \<Rightarrow> False | Some ks \<Rightarrow> list_ex (\<lambda>k. k \<in> set (map fst persisted)) ks)"

text \<open>\<open>missing\<close> is the mark that a snapshot without a version leaves on the options. The result says
  whether the options have changed.\<close>

definition resolve_missing_import_key_schema_version ::
  "(import_options \<Rightarrow> 'c \<Rightarrow> pystr) \<Rightarrow> bool \<Rightarrow> import_options \<Rightarrow> 'c list \<Rightarrow> (pystr \<times> pystr) list
   \<Rightarrow> run_exn + bool \<times> import_options" where
  "resolve_missing_import_key_schema_version keyf missing op chunks persisted =
    (if \<not> missing then Inr (False, op)
     else
       if persisted = [] then Inr (True, op\<lparr>io_key_version := current_key_version\<rparr>)
       else case filter (recorded_under keyf op chunks persisted) [legacy_key_version, current_key_version] of
              [v] \<Rightarrow> Inr (True, op\<lparr>io_key_version := v\<rparr>)
            | _ \<Rightarrow> Inl (RunError (U ''Cannot safely infer the import-key schema version'')))"

section \<open>Persisted splits\<close>

definition split_statuses :: "pystr list" where
  "split_statuses = [U ''split'', U ''superseded_split'']"

definition status_of :: "(pystr \<times> pystr) list \<Rightarrow> pystr \<Rightarrow> pystr" where
  "status_of statuses key = (case map_of statuses key of None \<Rightarrow> [] | Some s \<Rightarrow> lower_text s)"

text \<open>The keys that may still be expanded below the given ancestors: they become fewer with every split.\<close>

definition open_keys :: "(pystr \<times> pystr) list \<Rightarrow> pystr list \<Rightarrow> pystr set" where
  "open_keys statuses ancestors = set (map fst statuses) - set ancestors"

lemma status_of_known: "status_of statuses key \<in> set split_statuses \<Longrightarrow> key \<in> set (map fst statuses)"
proof -
  have no: "[] \<notin> set split_statuses" by code_simp
  assume "status_of statuses key \<in> set split_statuses"
  with no show ?thesis by (auto simp: status_of_def dest: map_of_SomeD split: option.splits intro: rev_image_eqI)
qed

lemma open_keys_less:
  assumes "status_of statuses key \<in> set split_statuses" and "key \<notin> set ancestors"
  shows "card (open_keys statuses (key # ancestors)) < card (open_keys statuses ancestors)"
  using assms status_of_known [OF assms(1)] by (intro psubset_card_mono) (auto simp: open_keys_def)

text \<open>\<open>expand\<close>: the leaves that stand for a chunk, and the keys of the superseded ones among them.\<close>

function expand_chunk ::
  "(message_chunk \<Rightarrow> pystr) \<Rightarrow> encoder option \<Rightarrow> (pystr \<times> pystr) list \<Rightarrow> pystr list \<Rightarrow> bool \<Rightarrow> message_chunk
   \<Rightarrow> run_exn + message_chunk list \<times> pystr list" where
  "expand_chunk keyf enc statuses ancestors inherited chunk =
    (let key = keyf chunk; status = status_of statuses key; superseded = (inherited \<or> status = U ''superseded_split'')
     in if status \<notin> set split_statuses
          then Inr ([chunk], if superseded \<and> status \<noteq> U ''succeeded'' then [key] else [])
        else if key \<in> set ancestors then Inl (RunError (U ''Persisted import split tree contains a cycle.''))
        else case split_message_chunk enc chunk key of
               Inl x \<Rightarrow> Inl (SplitError x)
             | Inr children \<Rightarrow>
                 (case children of
                    [a, b] \<Rightarrow>
                      (case expand_chunk keyf enc statuses (key # ancestors) superseded a of
                         Inl e \<Rightarrow> Inl e
                       | Inr (leaves, marked) \<Rightarrow>
                           (case expand_chunk keyf enc statuses (key # ancestors) superseded b of
                              Inl e \<Rightarrow> Inl e
                            | Inr (leaves', marked') \<Rightarrow> Inr (leaves @ leaves', marked @ marked')))
                  | _ \<Rightarrow> Inl (RunError
                      (U ''Persisted import split parent can no longer be expanded deterministically.''))))"
  by pat_completeness auto

termination expand_chunk
proof (relation "measure (\<lambda>(keyf, enc, statuses, ancestors, inherited, chunk). card (open_keys statuses ancestors))", goal_cases)
  case 1
  show ?case by simp
next
  case (2 keyf enc statuses ancestors inherited chunk)
  then show ?case using open_keys_less by simp
next
  case (3 keyf enc statuses ancestors inherited chunk)
  then show ?case using open_keys_less by simp
qed

declare expand_chunk.simps [simp del]

fun expand_persisted_split_chunks ::
  "(message_chunk \<Rightarrow> pystr) \<Rightarrow> encoder option \<Rightarrow> (pystr \<times> pystr) list \<Rightarrow> message_chunk list
   \<Rightarrow> run_exn + message_chunk list \<times> pystr list" where
  "expand_persisted_split_chunks keyf enc statuses [] = Inr ([], [])"
| "expand_persisted_split_chunks keyf enc statuses (c # cs) =
    (case expand_chunk keyf enc statuses [] False c of
       Inl e \<Rightarrow> Inl e
     | Inr (leaves, marked) \<Rightarrow>
         (case expand_persisted_split_chunks keyf enc statuses cs of
            Inl e \<Rightarrow> Inl e
          | Inr (leaves', marked') \<Rightarrow> Inr (leaves @ leaves', marked @ marked')))"

section \<open>What is expanded\<close>

text \<open>The messages a chunk is there to import.\<close>

definition own_set :: "message_chunk \<Rightarrow> int set" where
  "own_set chunk = message_indices (ck_messages chunk) \<inter> set (ck_core chunk)"

definition settled :: "(pystr \<times> pystr) list \<Rightarrow> pystr \<Rightarrow> bool" where
  "settled statuses key \<longleftrightarrow> status_of statuses key = U ''succeeded''"

lemma split_children_own:
  assumes "split_message_chunk enc chunk key = Inr [a, b]"
  shows "own_set a \<union> own_set b = own_set chunk"
  using split_children [OF assms] by (auto simp: own_set_def)

lemma expand_chunk_leaves:
  "expand_chunk keyf enc statuses ancestors inherited chunk = Inr (leaves, marked) \<Longrightarrow>
   (\<Union>l\<in>set leaves. own_set l) = own_set chunk \<and>
   (\<forall>l\<in>set leaves. status_of statuses (keyf l) \<notin> set split_statuses) \<and>
   set marked \<subseteq> keyf ` {l \<in> set leaves. \<not> settled statuses (keyf l)} \<and>
   (inherited \<or> status_of statuses (keyf chunk) = U ''superseded_split'' \<longrightarrow>
      (\<forall>l\<in>set leaves. settled statuses (keyf l) \<or> keyf l \<in> set marked))"
proof (induction keyf enc statuses ancestors inherited chunk arbitrary: leaves marked rule: expand_chunk.induct)
  case (1 keyf enc statuses ancestors inherited chunk)
  define key where "key = keyf chunk"
  define status where "status = status_of statuses key"
  define sup where "sup = (inherited \<or> status = U ''superseded_split'')"
  note defs = key_def [symmetric] status_def [symmetric] sup_def [symmetric]
  show ?case
  proof (cases "status \<in> set split_statuses")
    case False
    moreover have "U ''superseded_split'' \<in> set split_statuses" by (simp add: split_statuses_def)
    ultimately show ?thesis
      using "1.prems" by (subst (asm) expand_chunk.simps) (auto simp: defs Let_def settled_def, auto simp: status_def key_def)
  next
    case True
    from "1.prems" True obtain a b la ma lb mb where free: "key \<notin> set ancestors" and
      cs: "split_message_chunk enc chunk key = Inr [a, b]" and
      a: "expand_chunk keyf enc statuses (key # ancestors) sup a = Inr (la, ma)" and
      b: "expand_chunk keyf enc statuses (key # ancestors) sup b = Inr (lb, mb)" and
      out: "leaves = la @ lb" "marked = ma @ mb"
      by (subst (asm) expand_chunk.simps) (simp add: defs Let_def split: if_splits sum.splits list.splits prod.splits)
    have iha: "(\<Union>l\<in>set la. own_set l) = own_set a \<and>
        (\<forall>l\<in>set la. status_of statuses (keyf l) \<notin> set split_statuses) \<and>
        set ma \<subseteq> keyf ` {l \<in> set la. \<not> settled statuses (keyf l)} \<and>
        (sup \<or> status_of statuses (keyf a) = U ''superseded_split'' \<longrightarrow>
           (\<forall>l\<in>set la. settled statuses (keyf l) \<or> keyf l \<in> set ma))"
      by (rule "1.IH"(1) [OF key_def status_def sup_def _ free cs refl refl refl a]) (use True in simp)
    have ihb: "(\<Union>l\<in>set lb. own_set l) = own_set b \<and>
        (\<forall>l\<in>set lb. status_of statuses (keyf l) \<notin> set split_statuses) \<and>
        set mb \<subseteq> keyf ` {l \<in> set lb. \<not> settled statuses (keyf l)} \<and>
        (sup \<or> status_of statuses (keyf b) = U ''superseded_split'' \<longrightarrow>
           (\<forall>l\<in>set lb. settled statuses (keyf l) \<or> keyf l \<in> set mb))"
      by (rule "1.IH"(2) [OF key_def status_def sup_def _ free cs refl refl refl a refl b]) (use True in simp)
    have sup: "inherited \<or> status_of statuses (keyf chunk) = U ''superseded_split'' \<longleftrightarrow> sup"
      by (simp add: sup_def status_def key_def)
    from iha ihb split_children_own [OF cs] show ?thesis
      unfolding out sup by (simp add: image_Un Un_commute ball_Un) blast
  qed
qed

lemma expand_all_mem:
  assumes "expand_persisted_split_chunks keyf enc statuses cs = Inr (leaves, marked)" and "c \<in> set cs"
  shows "\<exists>ls ms. expand_chunk keyf enc statuses [] False c = Inr (ls, ms) \<and> set ls \<subseteq> set leaves \<and> set ms \<subseteq> set marked"
  using assms
proof (induction cs arbitrary: leaves marked)
  case (Cons x xs)
  then obtain ls ms ls' ms' where x: "expand_chunk keyf enc statuses [] False x = Inr (ls, ms)"
    and xs: "expand_persisted_split_chunks keyf enc statuses xs = Inr (ls', ms')"
    and out: "leaves = ls @ ls'" "marked = ms @ ms'" by (auto split: sum.splits prod.splits)
  from Cons.IH [OF xs] Cons.prems(2) x out show ?case by fastforce
qed simp

lemma expand_all_leaves:
  assumes "expand_persisted_split_chunks keyf enc statuses cs = Inr (leaves, marked)"
  shows "(\<Union>l\<in>set leaves. own_set l) = (\<Union>c\<in>set cs. own_set c) \<and>
         (\<forall>l\<in>set leaves. status_of statuses (keyf l) \<notin> set split_statuses) \<and>
         set marked \<subseteq> keyf ` {l \<in> set leaves. \<not> settled statuses (keyf l)}"
  using assms
proof (induction cs arbitrary: leaves marked)
  case (Cons x xs)
  then obtain ls ms ls' ms' where x: "expand_chunk keyf enc statuses [] False x = Inr (ls, ms)"
    and xs: "expand_persisted_split_chunks keyf enc statuses xs = Inr (ls', ms')"
    and out: "leaves = ls @ ls'" "marked = ms @ ms'" by (auto split: sum.splits prod.splits)
  from expand_chunk_leaves [OF x] Cons.IH [OF xs] show ?case
    unfolding out by (simp add: image_Un ball_Un) blast
qed simp

text \<open>C27: a retried job takes up exactly the work its earlier attempts left. However deep chunks had
  been split, the leaves that stand for them have the same messages to import, all of them and no
  others; no leaf is itself recorded as split, so none is expanded twice; only leaves that have
  not succeeded are marked as superseded; and below a superseded chunk every leaf has
  succeeded or is marked, so none of them is imported again.\<close>
theorem persisted_splits_resumed:
  assumes "expand_persisted_split_chunks keyf enc statuses cs = Inr (leaves, marked)"
  shows "(\<Union>l\<in>set leaves. own_set l) = (\<Union>c\<in>set cs. own_set c) \<and>
         (\<forall>l\<in>set leaves. status_of statuses (keyf l) \<notin> set split_statuses) \<and>
         set marked \<subseteq> keyf ` {l \<in> set leaves. \<not> settled statuses (keyf l)} \<and>
         (\<forall>c\<in>set cs. status_of statuses (keyf c) = U ''superseded_split'' \<longrightarrow>
            (\<exists>ls ms. expand_chunk keyf enc statuses [] False c = Inr (ls, ms) \<and> set ls \<subseteq> set leaves \<and>
               (\<forall>l\<in>set ls. settled statuses (keyf l) \<or> keyf l \<in> set marked)))"
proof -
  have "\<exists>ls ms. expand_chunk keyf enc statuses [] False c = Inr (ls, ms) \<and> set ls \<subseteq> set leaves \<and>
      (\<forall>l\<in>set ls. settled statuses (keyf l) \<or> keyf l \<in> set marked)"
    if "c \<in> set cs" and status: "status_of statuses (keyf c) = U ''superseded_split''" for c
  proof -
    from expand_all_mem [OF assms that(1)] obtain ls ms where e: "expand_chunk keyf enc statuses [] False c = Inr (ls, ms)"
      and sub: "set ls \<subseteq> set leaves" "set ms \<subseteq> set marked" by blast
    have "\<forall>l\<in>set ls. settled statuses (keyf l) \<or> keyf l \<in> set ms" using expand_chunk_leaves [OF e] status by simp
    with e sub show ?thesis by blast
  qed
  with expand_all_leaves [OF assms] show ?thesis by simp
qed

definition demo_key :: "message_chunk \<Rightarrow> pystr" where
  "demo_key c = (if ck_parent c = None then U ''whole'' else if ck_core c = [3] then U ''second'' else U ''first'')"

definition demo_statuses :: "(pystr \<times> pystr) list" where
  "demo_statuses = [(U ''whole'', U ''superseded_split''), (U ''first'', U ''succeeded''), (U ''second'', U ''failed'')]"

lemma demo_expanded:
  "case expand_persisted_split_chunks demo_key None demo_statuses [demo_chunk] of
     Inr (ls, ms) \<Rightarrow> map ck_core ls = [[1, 2], [3]] \<and> ms = [U ''second''] | Inl e \<Rightarrow> False"
  by code_simp

lemma persisted_splits_resumed_witness:
  "\<exists>ls. expand_persisted_split_chunks demo_key None demo_statuses [demo_chunk] = Inr (ls, [U ''second'']) \<and>
     map ck_core ls = [[1, 2], [3]] \<and> (\<Union>l\<in>set ls. own_set l) = {1, 2, 3}"
proof -
  obtain ls where e: "expand_persisted_split_chunks demo_key None demo_statuses [demo_chunk] = Inr (ls, [U ''second''])"
    and cores: "map ck_core ls = [[1, 2], [3]]"
    using demo_expanded by (cases "expand_persisted_split_chunks demo_key None demo_statuses [demo_chunk]") auto
  have "own_set demo_chunk = {1, 2, 3}" unfolding own_set_def by code_simp
  with persisted_splits_resumed [OF e] e cores show ?thesis by auto
qed

text \<open>The version of the keys is only guessed when there is no doubt. For a snapshot without a version
  that has persisted chunks, a version is accepted exactly when it is the only one under which
  some chunk of the job is on record; otherwise the job is refused, and its options are never
  changed in any other respect.\<close>
theorem key_version_unambiguous:
  assumes "persisted \<noteq> []"
  shows "resolve_missing_import_key_schema_version keyf True op chunks persisted = Inr (changed, op') \<longleftrightarrow>
           changed \<and> (\<exists>v\<in>{1, 2}. recorded_under keyf op chunks persisted v \<and> \<not> recorded_under keyf op chunks persisted (3 - v) \<and>
             op' = op\<lparr>io_key_version := v\<rparr>)"
  using assms
  by (cases "recorded_under keyf op chunks persisted 1"; cases "recorded_under keyf op chunks persisted 2")
     (auto simp: resolve_missing_import_key_schema_version_def legacy_key_version_def current_key_version_def)

definition versioned_key :: "import_options \<Rightarrow> message_chunk \<Rightarrow> pystr" where
  "versioned_key op c = (if io_key_version op = 1 then U ''old'' else U ''new'')"

definition old_statuses :: "(pystr \<times> pystr) list" where
  "old_statuses = [(U ''old'', U ''succeeded'')]"

lemma key_version_unambiguous_witness:
  "resolve_missing_import_key_schema_version versioned_key True demo_options [demo_chunk] old_statuses =
     Inr (True, demo_options\<lparr>io_key_version := 1\<rparr>)"
proof -
  have some: "old_statuses \<noteq> []" by (simp add: old_statuses_def)
  have v: "recorded_under versioned_key demo_options [demo_chunk] old_statuses 1"
    "\<not> recorded_under versioned_key demo_options [demo_chunk] old_statuses 2" by code_simp+
  show ?thesis
    unfolding key_version_unambiguous [OF some] by (intro conjI TrueI bexI [of _ 1]) (simp_all add: v)
qed

end
