(* ===== verification/Import_Store.thy ===== *)
theory Import_Store
  imports Import_Items "HOL-Library.AList"
begin

text \<open>
  The import jobs as the server process keeps them (server/chat_import.py, \<open>ImportJob\<close> and
  \<open>ImportJobStore\<close>): a cache of jobs by id, in front of the import repository when there is one and
  on its own when there is none. Every operation answers \<open>Inl\<close> of the repository's exception, after
  which neither the cache nor the database has changed, or \<open>Inr\<close> of the new store and its result.
  Times are instants, where the code keeps their ISO texts. The clock of the store and of the
  repository, and fresh ids, are arguments.
\<close>

section \<open>Jobs\<close>

record job_error =
  je_source :: pystr
  je_message :: pystr
  je_type :: pystr
  je_retryable :: bool
  je_attempt :: "int option"
  je_code :: "pystr option"
  je_details :: "(pystr \<times> json) list"
  je_import_key :: "json option"

text \<open>The integer fields are one function of their columns' names, as in a job row: \<open>configured_workers\<close> is
  the column \<open>worker_count\<close>; the column \<open>split_count\<close> has no field.\<close>

record import_job =
  ij_id :: pystr
  ij_project_id :: pystr
  ij_status :: job_status
  ij_created_at :: instant
  ij_updated_at :: instant
  ij_input_files :: "pystr list"
  ij_entities :: "(pystr \<times> pystr) list"
  ij_source_app :: pystr
  ij_infer :: bool
  ij_workspace :: "pystr option"
  ij_source_retry_required :: bool
  ij_options_snapshot :: json
  ij_storage_quota_snapshot :: json
  ij_phase :: pystr
  ij_started_at :: "instant option"
  ij_completed_at :: "instant option"
  ij_count :: "job_counter \<Rightarrow> int"
  ij_graph_status :: graph_status
  ij_graph_error :: "pystr option"
  ij_current_file :: "pystr option"
  ij_current_conversation :: "pystr option"
  ij_errors :: "job_error list"
  ij_phase_durations :: "(pystr \<times> rat) list"
  ij_chunk_durations :: "rat list"
  ij_cancel_requested :: bool

definition max_job_errors :: int where
  "max_job_errors = 50"

definition terminal_job_statuses :: "job_status list" where
  "terminal_job_statuses = [JCancelled, JCompleted, JCompletedWithErrors, JFailed]"

section \<open>From a record of the database\<close>

definition error_of_record :: "error_row \<Rightarrow> job_error" where
  "error_of_record e =
    (let details = (case e_details e of JObj kvs \<Rightarrow> kvs | _ \<Rightarrow> [])
     in \<lparr>je_source = e_source e, je_message = e_message e,
         je_type = (case e_error_type e of None \<Rightarrow> U ''import_error'' | Some t \<Rightarrow> if t = [] then U ''import_error'' else t),
         je_retryable = (e_retryable e = Some True), je_attempt = e_attempt e,
         je_code = (case e_error_code e of None \<Rightarrow> None | Some c \<Rightarrow> if c = [] then None else Some c),
         je_details = details,
         je_import_key = (case map_of details (U ''import_key'') of
            None \<Rightarrow> None | Some v \<Rightarrow> if json_truthy v then Some v else None)\<rparr>)"

definition errors_of :: "import_db \<Rightarrow> pystr \<Rightarrow> job_error list" where
  "errors_of d jid = map error_of_record (list_errors d jid max_job_errors 0)"

definition durations_of :: "import_db \<Rightarrow> pystr \<Rightarrow> rat list" where
  "durations_of d jid =
    map c_duration_seconds
      (filter (\<lambda>c. c_status c \<in> {ISucceeded, IFailed} \<and> c_duration_seconds c > 0) (list_chunks d jid None))"

text \<open>\<open>int(record.x or default)\<close>.\<close>

definition or_else :: "int \<Rightarrow> int \<Rightarrow> int" where
  "or_else n m = (if n = 0 then m else n)"

definition counts_of_record :: "job_row \<Rightarrow> job_counter \<Rightarrow> int" where
  "counts_of_record r =
    (j_count r)(WorkerCount := or_else (j_count r WorkerCount) 1,
                CurrentConcurrency := or_else (j_count r CurrentConcurrency) (or_else (j_count r WorkerCount) 1),
                SplitCount := 0)"

definition job_of_record :: "import_db \<Rightarrow> job_row \<Rightarrow> import_job" where
  "job_of_record d r =
    \<lparr>ij_id = j_id r, ij_project_id = j_project_id r, ij_status = j_status r, ij_created_at = j_created_at r,
     ij_updated_at = j_updated_at r, ij_input_files = j_input_files r, ij_entities = j_entities r,
     ij_source_app = j_source_app r, ij_infer = j_infer r, ij_workspace = j_workspace r,
     ij_source_retry_required = j_source_retry_required r, ij_options_snapshot = j_options r,
     ij_storage_quota_snapshot = j_storage_quota_snapshot r, ij_phase = j_phase r,
     ij_started_at = j_started_at r, ij_completed_at = j_finished_at r, ij_count = counts_of_record r,
     ij_graph_status = j_graph_status r, ij_graph_error = j_graph_error r, ij_current_file = j_current_file r,
     ij_current_conversation = j_current_conversation r, ij_errors = errors_of d (j_id r),
     ij_phase_durations = j_phase_durations r, ij_chunk_durations = durations_of d (j_id r),
     ij_cancel_requested = j_cancel_requested r\<rparr>"

section \<open>The store\<close>

record job_store =
  st_jobs :: "(pystr \<times> import_job) list"
  st_max :: nat
  st_repo :: "import_db option"

type_synonym 'a store_result = "repo_error + job_store \<times> 'a"

definition configure_repository :: "import_db option \<Rightarrow> job_store \<Rightarrow> job_store" where
  "configure_repository repo st = st\<lparr>st_repo := repo\<rparr>"

definition put_job :: "import_job \<Rightarrow> job_store \<Rightarrow> job_store" where
  "put_job job st = st\<lparr>st_jobs := AList.update (ij_id job) job (st_jobs st)\<rparr>"

definition forget :: "pystr \<Rightarrow> job_store \<Rightarrow> job_store" where
  "forget jid st = st\<lparr>st_jobs := AList.delete jid (st_jobs st)\<rparr>"

text \<open>Ended jobs are evicted, the oldest first, until the cache is within its size.\<close>

fun evict :: "nat \<Rightarrow> pystr list \<Rightarrow> (pystr \<times> import_job) list \<Rightarrow> (pystr \<times> import_job) list" where
  "evict n [] js = js"
| "evict n (t # ts) js = (if length js > n then evict n ts (AList.delete t js) else js)"

definition terminal_ids :: "(pystr \<times> import_job) list \<Rightarrow> pystr list" where
  "terminal_ids js = map ij_id (filter (\<lambda>j. ij_status j \<in> set terminal_job_statuses) (sort_key ij_created_at (map snd js)))"

record create_args =
  ca_project_id :: pystr
  ca_input_files :: "pystr list"
  ca_entities :: "(pystr \<times> pystr) list"
  ca_source_app :: pystr
  ca_infer :: bool
  ca_workers :: int
  ca_options :: json
  ca_job_id :: "pystr option"
  ca_workspace :: "pystr option"
  ca_status :: job_status
  ca_lease_owner :: "pystr option"
  ca_lease_expires_at :: "instant option"
  ca_quota_snapshot :: json
  ca_max_active :: "int option"
  ca_max_retained :: "int option"

definition new_job :: "create_args \<Rightarrow> pystr \<Rightarrow> instant \<Rightarrow> import_job" where
  "new_job a new_id now =
    \<lparr>ij_id = (case ca_job_id a of None \<Rightarrow> new_id | Some x \<Rightarrow> if x = [] then new_id else x),
     ij_project_id = ca_project_id a, ij_status = ca_status a, ij_created_at = now, ij_updated_at = now,
     ij_input_files = ca_input_files a, ij_entities = ca_entities a, ij_source_app = ca_source_app a,
     ij_infer = ca_infer a, ij_workspace = ca_workspace a, ij_source_retry_required = True,
     ij_options_snapshot = ca_options a, ij_storage_quota_snapshot = ca_quota_snapshot a,
     ij_phase = job_status_text (ca_status a), ij_started_at = None, ij_completed_at = None,
     ij_count = (\<lambda>_. 0)(TotalInputFiles := int (length (ca_input_files a)), WorkerCount := ca_workers a,
                        CurrentConcurrency := ca_workers a),
     ij_graph_status = GPending, ij_graph_error = None, ij_current_file = None, ij_current_conversation = None,
     ij_errors = [], ij_phase_durations = [], ij_chunk_durations = [], ij_cancel_requested = False\<rparr>"

definition create_values :: "create_args \<Rightarrow> import_job \<Rightarrow> job_col list" where
  "create_values a job =
    [JcId (ij_id job), JcProjectId (ca_project_id a), JcStatus (ij_status job), JcPhase (ij_phase job),
     JcInputFiles (ij_input_files job), JcEntities (ij_entities job), JcOptions (ij_options_snapshot job),
     JcQuotaSnapshot (ij_storage_quota_snapshot job), JcWorkspace (ca_workspace a), JcSourceApp (ij_source_app job),
     JcInfer (ij_infer job), JcCount TotalInputFiles (ij_count job TotalInputFiles),
     JcCount SkippedFiles (ij_count job SkippedFiles), JcCount WorkerCount (ca_workers a),
     JcCount CurrentConcurrency (ca_workers a), JcSourceRetryRequired True, JcCount WorkspaceBytes 0,
     JcCreatedAt (ij_created_at job), JcUpdatedAt (ij_updated_at job)]
    @ (case ca_lease_owner a of None \<Rightarrow> [] | Some w \<Rightarrow> [JcLeaseOwner (Some w)])
    @ (case ca_lease_expires_at a of None \<Rightarrow> [] | Some t \<Rightarrow> [JcLeaseExpiresAt (Some t)])"

definition create :: "job_store \<Rightarrow> create_args \<Rightarrow> pystr \<Rightarrow> instant \<Rightarrow> instant \<Rightarrow> import_job store_result" where
  "create st a new_id now clock =
    (let job = new_job a new_id now;
         active = int (length (filter (\<lambda>(_, j). ij_project_id j = ca_project_id a \<and> ij_status j \<in> set active_job_statuses) (st_jobs st)));
         keep = (\<lambda>st'. let js = AList.update (ij_id job) job (st_jobs st')
                       in (st'\<lparr>st_jobs := evict (st_max st') (terminal_ids js) js\<rparr>, job))
     in case st_repo st of
          Some d \<Rightarrow>
            bind_err (case ca_max_active a of
                        None \<Rightarrow> create_job d (create_values a job) new_id clock
                      | Some n \<Rightarrow> create_job_with_active_limit d n (ca_max_retained a) (create_values a job) new_id clock)
              (\<lambda>(d', _). Inr (keep (st\<lparr>st_repo := Some d'\<rparr>)))
        | None \<Rightarrow>
            (case ca_max_active a of
               None \<Rightarrow> Inr (keep st)
             | Some n \<Rightarrow> if active \<ge> n then Inl (ImportActiveJobLimitExceeded (ca_project_id a) n active)
                         else Inr (keep st)))"

definition belongs :: "pystr option \<Rightarrow> import_job \<Rightarrow> bool" where
  "belongs pid job = (case pid of None \<Rightarrow> True | Some p \<Rightarrow> ij_project_id job = p)"

definition get :: "job_store \<Rightarrow> pystr \<Rightarrow> pystr option \<Rightarrow> bool \<Rightarrow> job_store \<times> import_job option" where
  "get st jid pid refresh =
    (let job = map_of (st_jobs st) jid;
         (st1, job1) =
           (case st_repo st of
              None \<Rightarrow> (st, job)
            | Some d \<Rightarrow>
                if refresh \<or> job = None then
                  (case get_job d jid pid of
                     Some r \<Rightarrow> (put_job (job_of_record d r) st, Some (job_of_record d r))
                   | None \<Rightarrow> if refresh then (forget jid st, None) else (st, job))
                else (st, job))
     in (st1, case job1 of None \<Rightarrow> None | Some j \<Rightarrow> if belongs pid j then Some j else None))"

section \<open>Updates\<close>

text \<open>\<open>setattr\<close> of one change. The changes name the job's fields by their columns: \<open>JcFinishedAt\<close> is
  \<open>completed_at\<close>, \<open>JcOptions\<close> is \<open>options_snapshot\<close>; a column without a field is passed over.\<close>

fun set_job_field :: "job_col \<Rightarrow> import_job \<Rightarrow> import_job" where
  "set_job_field (JcId x) j = j\<lparr>ij_id := x\<rparr>"
| "set_job_field (JcProjectId x) j = j\<lparr>ij_project_id := x\<rparr>"
| "set_job_field (JcStatus x) j = j\<lparr>ij_status := x\<rparr>"
| "set_job_field (JcPhase x) j = j\<lparr>ij_phase := x\<rparr>"
| "set_job_field (JcInputFiles x) j = j\<lparr>ij_input_files := x\<rparr>"
| "set_job_field (JcEntities x) j = j\<lparr>ij_entities := x\<rparr>"
| "set_job_field (JcOptions x) j = j\<lparr>ij_options_snapshot := x\<rparr>"
| "set_job_field (JcQuotaSnapshot x) j = j\<lparr>ij_storage_quota_snapshot := x\<rparr>"
| "set_job_field (JcWorkspace x) j = j\<lparr>ij_workspace := x\<rparr>"
| "set_job_field (JcSourceRetryRequired x) j = j\<lparr>ij_source_retry_required := x\<rparr>"
| "set_job_field (JcSourceApp x) j = j\<lparr>ij_source_app := x\<rparr>"
| "set_job_field (JcInfer x) j = j\<lparr>ij_infer := x\<rparr>"
| "set_job_field (JcCancelRequested x) j = j\<lparr>ij_cancel_requested := x\<rparr>"
| "set_job_field (JcLeaseOwner x) j = j"
| "set_job_field (JcLeaseExpiresAt x) j = j"
| "set_job_field (JcCount c x) j = (if c = SplitCount then j else j\<lparr>ij_count := (ij_count j)(c := x)\<rparr>)"
| "set_job_field (JcGraphStatus x) j = j\<lparr>ij_graph_status := x\<rparr>"
| "set_job_field (JcGraphError x) j = j\<lparr>ij_graph_error := x\<rparr>"
| "set_job_field (JcPhaseDurations x) j = j\<lparr>ij_phase_durations := x\<rparr>"
| "set_job_field (JcCurrentFile x) j = j\<lparr>ij_current_file := x\<rparr>"
| "set_job_field (JcCurrentConversation x) j = j\<lparr>ij_current_conversation := x\<rparr>"
| "set_job_field (JcStartedAt x) j = j\<lparr>ij_started_at := x\<rparr>"
| "set_job_field (JcFinishedAt x) j = j\<lparr>ij_completed_at := x\<rparr>"
| "set_job_field (JcCreatedAt x) j = j\<lparr>ij_created_at := x\<rparr>"
| "set_job_field (JcUpdatedAt x) j = j\<lparr>ij_updated_at := x\<rparr>"

text \<open>\<open>changes.get(...)\<close>.\<close>

fun given_started :: "job_col list \<Rightarrow> instant option option" where
  "given_started [] = None"
| "given_started (JcStartedAt x # cs) = Some x"
| "given_started (_ # cs) = given_started cs"

fun given_finished :: "job_col list \<Rightarrow> instant option option" where
  "given_finished [] = None"
| "given_finished (JcFinishedAt x # cs) = Some x"
| "given_finished (_ # cs) = given_finished cs"

definition status_after :: "job_col list \<Rightarrow> import_job \<Rightarrow> job_status" where
  "status_after changes job = (case given_status changes of None \<Rightarrow> ij_status job | Some s \<Rightarrow> s)"

text \<open>A job starts when it leaves the queue and is complete when it ends.\<close>

definition started_after :: "job_col list \<Rightarrow> import_job \<Rightarrow> instant \<Rightarrow> instant option" where
  "started_after changes job now =
    (let started = (case given_started changes of None \<Rightarrow> ij_started_at job | Some t \<Rightarrow> t)
     in if started = None \<and> status_after changes job \<notin> {JQueued, JCancelled} then Some now else started)"

definition completed_after :: "job_col list \<Rightarrow> import_job \<Rightarrow> instant \<Rightarrow> instant option" where
  "completed_after changes job now =
    (let completed = (case given_finished changes of None \<Rightarrow> ij_completed_at job | Some t \<Rightarrow> t)
     in if status_after changes job \<in> set terminal_job_statuses then Some (case completed of None \<Rightarrow> now | Some t \<Rightarrow> t)
        else completed)"

definition update_values :: "job_col list \<Rightarrow> import_job \<Rightarrow> instant \<Rightarrow> job_col list" where
  "update_values changes job now =
    changes @ [JcUpdatedAt now]
    @ (if started_after changes job now \<noteq> None \<and> given_started changes = None then [JcStartedAt (started_after changes job now)] else [])
    @ (if completed_after changes job now \<noteq> None then [JcFinishedAt (completed_after changes job now)] else [])"

definition changed_job :: "job_col list \<Rightarrow> instant \<Rightarrow> import_job \<Rightarrow> import_job" where
  "changed_job changes now job =
    (fold set_job_field changes job)
      \<lparr>ij_started_at := started_after changes job now, ij_completed_at := completed_after changes job now, ij_updated_at := now\<rparr>"

text \<open>A write through the repository: \<open>w\<close> is its call; the cached job changes only when it has found the row.\<close>

definition write_through ::
  "job_store \<Rightarrow> pystr \<Rightarrow> (import_db \<Rightarrow> import_job \<Rightarrow> job_row option repo_result) \<Rightarrow> (import_job \<Rightarrow> import_job)
   \<Rightarrow> import_job option store_result" where
  "write_through st jid w f =
    (case map_of (st_jobs st) jid of
       None \<Rightarrow> Inr (st, None)
     | Some job \<Rightarrow>
         let keep = (\<lambda>st'. st'\<lparr>st_jobs := AList.update jid (f job) (st_jobs st')\<rparr>)
         in case st_repo st of
              None \<Rightarrow> Inr (keep st, Some (f job))
            | Some d \<Rightarrow> bind_err (w d job) (\<lambda>(d', row).
                let st' = st\<lparr>st_repo := Some d'\<rparr>
                in if row = None then Inr (st', None) else Inr (keep st', Some (f job))))"

definition update ::
  "job_store \<Rightarrow> pystr \<Rightarrow> pystr option \<Rightarrow> job_col list \<Rightarrow> instant \<Rightarrow> instant \<Rightarrow> import_job option store_result" where
  "update st jid owner changes now clock =
    write_through st jid (\<lambda>d job. update_job d jid owner (update_values changes job now) clock) (changed_job changes now)"

definition add_count :: "job_counter \<Rightarrow> int \<Rightarrow> import_job \<Rightarrow> import_job" where
  "add_count c n j = j\<lparr>ij_count := (ij_count j)(c := ij_count j c + n)\<rparr>"

definition incremented_job :: "(job_counter \<times> int) list \<Rightarrow> instant \<Rightarrow> import_job \<Rightarrow> import_job" where
  "incremented_job deltas now job =
    (fold (\<lambda>(c, n). add_count c n) deltas job)\<lparr>ij_updated_at := now\<rparr>"

definition increment ::
  "job_store \<Rightarrow> pystr \<Rightarrow> pystr option \<Rightarrow> (job_counter \<times> int) list \<Rightarrow> instant \<Rightarrow> instant \<Rightarrow> import_job option store_result" where
  "increment st jid owner deltas now clock =
    write_through st jid (\<lambda>d job. increment_job d jid owner deltas clock) (incremented_job deltas now)"

text \<open>Seconds are added to what a phase already took; negative ones are dropped.\<close>

definition add_durations :: "(pystr \<times> rat) list \<Rightarrow> (pystr \<times> rat) list \<Rightarrow> (pystr \<times> rat) list" where
  "add_durations valid durations =
    fold (\<lambda>(p, x) ds. AList.update p ((case map_of ds p of None \<Rightarrow> 0 | Some y \<Rightarrow> y) + x) ds) valid durations"

definition record_phases ::
  "job_store \<Rightarrow> pystr \<Rightarrow> pystr option \<Rightarrow> (pystr \<times> rat) list \<Rightarrow> instant \<Rightarrow> instant \<Rightarrow> import_job option store_result" where
  "record_phases st jid owner durations now clock =
    (let valid = filter (\<lambda>(_, x). x \<ge> 0) durations
     in if valid = [] then Inr (st, None)
        else write_through st jid
               (\<lambda>d job. update_job d jid owner [JcPhaseDurations (add_durations valid (ij_phase_durations job)), JcUpdatedAt now] clock)
               (\<lambda>job. job\<lparr>ij_phase_durations := add_durations valid (ij_phase_durations job), ij_updated_at := now\<rparr>))"

definition record_phase ::
  "job_store \<Rightarrow> pystr \<Rightarrow> pystr option \<Rightarrow> pystr \<Rightarrow> rat \<Rightarrow> instant \<Rightarrow> instant \<Rightarrow> import_job option store_result" where
  "record_phase st jid owner phase seconds now clock = record_phases st jid owner [(phase, seconds)] now clock"

definition record_chunk_duration :: "job_store \<Rightarrow> pystr \<Rightarrow> rat \<Rightarrow> instant \<Rightarrow> job_store" where
  "record_chunk_duration st jid seconds now =
    (if seconds < 0 then st
     else case map_of (st_jobs st) jid of
            None \<Rightarrow> st
          | Some job \<Rightarrow> st\<lparr>st_jobs := AList.update jid
              (job\<lparr>ij_chunk_durations := ij_chunk_durations job @ [seconds], ij_updated_at := now\<rparr>) (st_jobs st)\<rparr>)"

section \<open>Errors, cancellation, lists\<close>

record error_args =
  ea_source :: pystr
  ea_message :: pystr
  ea_type :: pystr
  ea_retryable :: bool
  ea_attempt :: "int option"
  ea_import_key :: "pystr option"
  ea_code :: "pystr option"
  ea_details :: "(pystr \<times> json) list"

text \<open>A text that is there and not empty.\<close>

definition nonempty :: "pystr option \<Rightarrow> pystr option" where
  "nonempty x = (case x of None \<Rightarrow> None | Some s \<Rightarrow> if s = [] then None else Some s)"

definition error_details :: "error_args \<Rightarrow> (pystr \<times> json) list" where
  "error_details a =
    (case nonempty (ea_import_key a) of None \<Rightarrow> ea_details a | Some k \<Rightarrow> AList.update (U ''import_key'') (JStr k) (ea_details a))"

definition repository_error :: "import_db \<Rightarrow> pystr \<Rightarrow> import_job \<Rightarrow> error_args \<Rightarrow> error_values" where
  "repository_error d jid job a =
    \<lparr>ev_id = None,
     ev_chunk_id = (case nonempty (ea_import_key a) of None \<Rightarrow> None | Some k \<Rightarrow> map_option c_id (get_chunk d jid k)),
     ev_phase = Some (ij_phase job), ev_error_type = Some (take 255 (ea_type a)),
     ev_error_code = map_option (take 128) (nonempty (ea_code a)), ev_attempt = ea_attempt a,
     ev_retryable = Some (ea_retryable a), ev_details = JObj (error_details a), ev_created_at = None\<rparr>"

definition cached_error :: "error_args \<Rightarrow> job_error" where
  "cached_error a =
    \<lparr>je_source = take 300 (ea_source a), je_message = take 1000 (ea_message a), je_type = take 80 (ea_type a),
     je_retryable = ea_retryable a, je_attempt = ea_attempt a, je_code = map_option (take 128) (nonempty (ea_code a)),
     je_details = error_details a, je_import_key = map_option (\<lambda>k. JStr (take 64 k)) (nonempty (ea_import_key a))\<rparr>"

definition job_with_error :: "error_args \<Rightarrow> instant \<Rightarrow> import_job \<Rightarrow> import_job" where
  "job_with_error a now job =
    job\<lparr>ij_count := (ij_count job)(ErrorCount := ij_count job ErrorCount + 1),
        ij_errors := (if int (length (ij_errors job)) < max_job_errors then ij_errors job @ [cached_error a] else ij_errors job),
        ij_updated_at := now\<rparr>"

definition add_job_error ::
  "job_store \<Rightarrow> pystr \<Rightarrow> pystr option \<Rightarrow> error_args \<Rightarrow> pystr \<Rightarrow> instant \<Rightarrow> instant \<Rightarrow> import_job option store_result" where
  "add_job_error st jid owner a new_id now clock =
    (case map_of (st_jobs st) jid of
       None \<Rightarrow> Inr (st, None)
     | Some job \<Rightarrow>
         let keep = (\<lambda>st'. (st'\<lparr>st_jobs := AList.update jid (job_with_error a now job) (st_jobs st')\<rparr>, None))
         in case st_repo st of
              None \<Rightarrow> Inr (keep st)
            | Some d \<Rightarrow>
                bind_err (add_error d jid (ea_source a) (ea_message a) owner (repository_error d jid job a) new_id clock)
                  (\<lambda>(d', _). Inr (keep (st\<lparr>st_repo := Some d'\<rparr>))))"

definition request_cancel :: "job_store \<Rightarrow> pystr \<Rightarrow> pystr \<Rightarrow> instant \<Rightarrow> instant \<Rightarrow> job_store \<times> import_job option" where
  "request_cancel st jid pid now clock =
    (case st_repo st of
       Some d \<Rightarrow>
         let (d', row) = request_job_cancel d jid pid cancellable_job_statuses clock; st' = st\<lparr>st_repo := Some d'\<rparr>
         in (case (case row of Some r \<Rightarrow> Some r | None \<Rightarrow> get_job d' jid (Some pid)) of
               None \<Rightarrow> (forget jid st', None)
             | Some r \<Rightarrow> (put_job (job_of_record d' r) st', Some (job_of_record d' r)))
     | None \<Rightarrow>
         (case map_of (st_jobs st) jid of
            None \<Rightarrow> (st, None)
          | Some job \<Rightarrow>
              if ij_project_id job \<noteq> pid then (st, None)
              else if ij_status job \<in> set cancellable_job_statuses
                then let job' = job\<lparr>ij_cancel_requested := True, ij_status := JCancelling, ij_updated_at := now\<rparr>
                     in (st\<lparr>st_jobs := AList.update jid job' (st_jobs st)\<rparr>, Some job')
              else (st, Some job)))"

definition list_of_project :: "job_store \<Rightarrow> pystr \<Rightarrow> int \<Rightarrow> job_store \<times> import_job list" where
  "list_of_project st pid limit =
    (case st_repo st of
       Some d \<Rightarrow> let js = map (job_of_record d) (list_jobs d pid limit) in (fold put_job js st, js)
     | None \<Rightarrow>
         let js = rev (sort_key ij_created_at (rev (filter (\<lambda>j. ij_project_id j = pid) (map snd (st_jobs st)))))
         in (st, if limit < 0 then take (length js - nat (- limit)) js else take (nat limit) js))"

section \<open>Metrics\<close>

text \<open>What \<open>serialize\<close> computes of the durations and the counts, before rounding.\<close>

definition mean :: "rat list \<Rightarrow> rat" where
  "mean xs = (if xs = [] then 0 else sum_list xs / of_nat (length xs))"

definition p95 :: "rat list \<Rightarrow> rat" where
  "p95 xs =
    (if xs = [] then 0
     else sort xs ! nat (min (int (length xs) - 1) (max 0 (\<lceil>of_nat (length xs) * (95 / 100 :: rat)\<rceil> - 1))))"

definition elapsed :: "import_job \<Rightarrow> instant \<Rightarrow> instant" where
  "elapsed job now =
    (let started = (case ij_started_at job of None \<Rightarrow> ij_created_at job | Some t \<Rightarrow> t);
         ended = (if ij_status job \<in> set terminal_job_statuses
                  then (case ij_completed_at job of None \<Rightarrow> ij_updated_at job | Some t \<Rightarrow> t) else now)
     in max 0 (ended - started))"

definition failure_rate :: "import_job \<Rightarrow> rat" where
  "failure_rate job =
    (if ij_count job ProcessedChunks = 0 then 0
     else of_int (ij_count job FailedChunks) / of_int (ij_count job ProcessedChunks))"

text \<open>In chunks per microsecond, and in microseconds.\<close>

definition throughput :: "import_job \<Rightarrow> instant \<Rightarrow> rat" where
  "throughput job now = (if elapsed job now > 0 then of_int (ij_count job ProcessedChunks) / of_int (elapsed job now) else 0)"

definition eta :: "import_job \<Rightarrow> instant \<Rightarrow> rat" where
  "eta job now =
    (let remaining = max 0 (ij_count job TotalChunks - ij_count job ProcessedChunks)
     in if throughput job now > 0 \<and> remaining \<noteq> 0 then of_int remaining / throughput job now else 0)"

definition source_retry_available :: "import_job \<Rightarrow> bool" where
  "source_retry_available job =
    (ij_source_retry_required job \<and> ij_status job \<in> {JCancelled, JCompletedWithErrors, JFailed})"

definition poll_after_ms :: "import_job \<Rightarrow> int option" where
  "poll_after_ms job = (if ij_status job \<in> set terminal_job_statuses then None else Some 3000)"

end
