(* ===== verification/Import_Store_Laws.thy ===== *)
theory Import_Store_Laws
  imports Import_Store
begin

text \<open>
  The store refines the repository: as long as every change of a job goes through it, whatever is
  read from the cache is what a fresh read of the database would give. And the percentile it
  reports is the nearest-rank one.
\<close>

section \<open>What is cached of a row\<close>

text \<open>What a cached job must share with its row, for stating that the cache agrees with the database: all fields but three. The two clocks
  differ, and the texts of the errors and the measured durations are only sampled when a job is loaded.\<close>

definition persisted :: "import_job \<Rightarrow> import_job" where
  "persisted j = j\<lparr>ij_updated_at := 0, ij_errors := [], ij_chunk_durations := []\<rparr>"

definition view :: "job_row \<Rightarrow> import_job" where
  "view r =
    \<lparr>ij_id = j_id r, ij_project_id = j_project_id r, ij_status = j_status r, ij_created_at = j_created_at r,
     ij_updated_at = 0, ij_input_files = j_input_files r, ij_entities = j_entities r,
     ij_source_app = j_source_app r, ij_infer = j_infer r, ij_workspace = j_workspace r,
     ij_source_retry_required = j_source_retry_required r, ij_options_snapshot = j_options r,
     ij_storage_quota_snapshot = j_storage_quota_snapshot r, ij_phase = j_phase r,
     ij_started_at = j_started_at r, ij_completed_at = j_finished_at r, ij_count = counts_of_record r,
     ij_graph_status = j_graph_status r, ij_graph_error = j_graph_error r, ij_current_file = j_current_file r,
     ij_current_conversation = j_current_conversation r, ij_errors = [],
     ij_phase_durations = j_phase_durations r, ij_chunk_durations = [],
     ij_cancel_requested = j_cancel_requested r\<rparr>"

lemma persisted_job_of_record [simp]: "persisted (job_of_record d r) = view r"
  by (simp add: persisted_def job_of_record_def view_def)

definition workers_set :: "job_row \<Rightarrow> bool" where
  "workers_set r \<longleftrightarrow> j_count r WorkerCount \<noteq> 0 \<and> j_count r CurrentConcurrency \<noteq> 0"

lemma counts_of_workers_set: "workers_set r \<Longrightarrow> counts_of_record r = (j_count r)(SplitCount := 0)"
  by (auto simp: workers_set_def counts_of_record_def or_else_def)

lemma view_iff:
  "workers_set r \<Longrightarrow> persisted j = view r \<longleftrightarrow>
    ij_id j = j_id r \<and> ij_project_id j = j_project_id r \<and> ij_status j = j_status r \<and> ij_created_at j = j_created_at r \<and>
    ij_input_files j = j_input_files r \<and> ij_entities j = j_entities r \<and> ij_source_app j = j_source_app r \<and>
    ij_infer j = j_infer r \<and> ij_workspace j = j_workspace r \<and> ij_source_retry_required j = j_source_retry_required r \<and>
    ij_options_snapshot j = j_options r \<and> ij_storage_quota_snapshot j = j_storage_quota_snapshot r \<and>
    ij_phase j = j_phase r \<and> ij_started_at j = j_started_at r \<and> ij_completed_at j = j_finished_at r \<and>
    ij_count j = (j_count r)(SplitCount := 0) \<and> ij_graph_status j = j_graph_status r \<and> ij_graph_error j = j_graph_error r \<and>
    ij_current_file j = j_current_file r \<and> ij_current_conversation j = j_current_conversation r \<and>
    ij_phase_durations j = j_phase_durations r \<and> ij_cancel_requested j = j_cancel_requested r"
  by (cases j) (auto simp: view_def persisted_def counts_of_workers_set)

text \<open>The changes a caller may make: not of the job's identity or times, and never to no workers.\<close>

fun plain_change :: "job_col \<Rightarrow> bool" where
  "plain_change (JcId _) = False"
| "plain_change (JcCreatedAt _) = False"
| "plain_change (JcStartedAt _) = False"
| "plain_change (JcFinishedAt _) = False"
| "plain_change (JcCount c n) = (c \<in> {WorkerCount, CurrentConcurrency} \<longrightarrow> n \<noteq> 0)"
| "plain_change _ = True"

text \<open>One change, of the row and of the cached job.\<close>

lemma set_job_col_view:
  assumes "plain_change c" and "workers_set r" and "persisted j = view r"
  shows "workers_set (set_job_col c r) \<and> persisted (set_job_field c j) = view (set_job_col c r) \<and> j_id (set_job_col c r) = j_id r"
proof -
  have w: "workers_set (set_job_col c r)" using assms(1,2) by (cases c) (auto simp: workers_set_def)
  show ?thesis
    using assms(1,3) w unfolding view_iff [OF w] view_iff [OF assms(2)] by (cases c) (auto simp: fun_upd_twist)
qed

lemma set_job_cols_view:
  assumes "\<forall>c\<in>set cs. plain_change c" and "workers_set r" and "persisted j = view r"
  shows "workers_set (set_job_cols cs r) \<and> persisted (fold set_job_field cs j) = view (set_job_cols cs r) \<and> j_id (set_job_cols cs r) = j_id r"
  using assms
proof (induction cs arbitrary: r j)
  case (Cons c cs)
  with set_job_col_view [of c r j] Cons.IH [of "set_job_col c r" "set_job_field c j"] show ?case
    by (simp add: set_job_cols_def)
qed (simp add: set_job_cols_def)

lemma plain_mutable: "\<forall>c\<in>set cs. plain_change c \<Longrightarrow> mutable_job_cols (cs @ ds) = cs @ mutable_job_cols ds"
proof (induction cs)
  case (Cons c cs)
  then show ?case by (cases c) (auto simp: mutable_job_cols_def)
qed (simp add: mutable_job_cols_def)

lemma plain_given:
  "\<forall>c\<in>set cs. plain_change c \<Longrightarrow> given_started cs = None \<and> given_finished cs = None"
proof (induction cs)
  case (Cons c cs)
  then show ?case by (cases c) auto
qed simp

text \<open>Only the times a store sets by itself follow the changes.\<close>

definition updated_row :: "job_col list \<Rightarrow> import_job \<Rightarrow> instant \<Rightarrow> instant \<Rightarrow> job_row \<Rightarrow> job_row" where
  "updated_row cs j now clock r = (set_job_cols (mutable_job_cols (update_values cs j now)) r)\<lparr>j_updated_at := clock\<rparr>"

lemma updated_row_view:
  assumes "\<forall>c\<in>set cs. plain_change c" and "workers_set r" and "persisted j = view r"
  shows "workers_set (updated_row cs j now clock r) \<and> persisted (changed_job cs now j) = view (updated_row cs j now clock r) \<and>
         j_id (updated_row cs j now clock r) = j_id r"
proof -
  let ?g = "updated_row cs j now clock"
  define r1 where "r1 = set_job_cols cs r"
  define j1 where "j1 = fold set_job_field cs j"
  have r1: "workers_set r1" "persisted j1 = view r1" "j_id r1 = j_id r"
    using set_job_cols_view [OF assms(1-3)] by (simp_all add: r1_def j1_def)
  have kept: "j_started_at r1 = j_started_at r \<and> j_finished_at r1 = j_finished_at r"
    unfolding r1_def using assms(1)
  proof (induction cs arbitrary: r)
    case (Cons c cs)
    then have "j_started_at (set_job_col c r) = j_started_at r \<and> j_finished_at (set_job_col c r) = j_finished_at r"
      by (cases c) auto
    with Cons show ?case by (simp add: set_job_cols_def)
  qed (simp add: set_job_cols_def)
  have j: "ij_started_at j = j_started_at r" "ij_completed_at j = j_finished_at r" using assms(3) view_iff [OF assms(2)] by blast+
  have no: "given_started cs = None" "given_finished cs = None" using plain_given [OF assms(1)] by blast+
  let ?s = "started_after cs j now" and ?c = "completed_after cs j now"
  have times: "?s = None \<Longrightarrow> j_started_at r = None" "?c = None \<Longrightarrow> j_finished_at r = None"
    using j no by (auto simp: started_after_def completed_after_def Let_def split: if_splits)
  have cols: "mutable_job_cols (update_values cs j now) =
      cs @ JcUpdatedAt now # (if ?s \<noteq> None then [JcStartedAt ?s] else []) @ (if ?c \<noteq> None then [JcFinishedAt ?c] else [])"
    unfolding update_values_def plain_mutable [OF assms(1)] by (simp add: mutable_job_cols_def no)
  have "set_job_cols (cs @ xs) r = fold set_job_col xs r1" for xs by (simp add: set_job_cols_def r1_def)
  then have g: "?g r = r1\<lparr>j_started_at := ?s, j_finished_at := ?c, j_updated_at := clock\<rparr>"
    using kept times unfolding updated_row_def cols by (cases r1) auto
  have w: "workers_set (?g r)" using r1(1) by (simp add: g workers_set_def)
  have "changed_job cs now j = j1\<lparr>ij_started_at := ?s, ij_completed_at := ?c, ij_updated_at := now\<rparr>"
    by (simp add: changed_job_def j1_def)
  with r1 w show ?thesis unfolding view_iff [OF w] using view_iff [OF r1(1), of j1] by (simp add: g)
qed

section \<open>A cache of the database\<close>

text \<open>A database whose jobs have ids of their own, and workers; a cache that shows each of its jobs as the
  database has it.\<close>

definition sound_db :: "import_db \<Rightarrow> bool" where
  "sound_db d \<longleftrightarrow> distinct (map j_id (jobs d)) \<and> (\<forall>r\<in>set (jobs d). workers_set r)"

definition mirrors :: "import_db \<Rightarrow> (pystr \<times> import_job) list \<Rightarrow> bool" where
  "mirrors d js \<longleftrightarrow> (\<forall>k job. map_of js k = Some job \<longrightarrow> (\<exists>r. find_job d k = Some r \<and> persisted job = view r))"

definition coherent :: "job_store \<Rightarrow> bool" where
  "coherent st \<longleftrightarrow> (case st_repo st of None \<Rightarrow> True | Some d \<Rightarrow> sound_db d \<and> mirrors d (st_jobs st))"

lemma mirrorsD: "mirrors d js \<Longrightarrow> map_of js k = Some job \<Longrightarrow> \<exists>r. find_job d k = Some r \<and> persisted job = view r"
  by (simp add: mirrors_def)

lemma find_job_SomeD: "find_job d k = Some r \<Longrightarrow> r \<in> set (jobs d) \<and> j_id r = k"
  using first_row_SomeD by (fastforce simp: find_job_def)

lemma find_job_mem: "sound_db d \<Longrightarrow> r \<in> set (jobs d) \<Longrightarrow> find_job d (j_id r) = Some r"
  by (simp add: find_job_def sound_db_def first_row_unique)

lemma first_row_only: "r \<in> set rows \<Longrightarrow> S r \<Longrightarrow> \<forall>x\<in>set rows. S x \<longrightarrow> x = r \<Longrightarrow> first_row S rows = Some r"
proof (induction rows)
  case (Cons a rows)
  show ?case
  proof (cases "S a")
    case True
    then have "a = r" using Cons.prems(3) by (metis list.set_intros(1))
    with True show ?thesis by simp
  next
    case False
    then have "r \<in> set rows" using Cons.prems(1,2) by auto
    with Cons.IH Cons.prems(2,3) have "first_row S rows = Some r" by (metis list.set_intros(2))
    with False show ?thesis by simp
  qed
qed simp

lemma get_job_find:
  assumes "sound_db d"
  shows "get_job d jid pid = (case find_job d jid of None \<Rightarrow> None | Some r \<Rightarrow>
     if (case pid of None \<Rightarrow> True | Some p \<Rightarrow> j_project_id r = p) then Some r else None)"
proof (cases "find_job d jid")
  case None
  then have "get_job d jid pid = None" by (auto simp: get_job_def find_job_def first_row_None_iff)
  with None show ?thesis by simp
next
  case (Some r)
  let ?p = "\<lambda>r. case pid of None \<Rightarrow> True | Some p \<Rightarrow> j_project_id r = p"
  from find_job_SomeD [OF Some] have r: "r \<in> set (jobs d)" "j_id r = jid" by simp_all
  have only: "\<forall>x\<in>set (jobs d). j_id x = jid \<longrightarrow> x = r" using find_job_mem [OF assms] Some by fastforce
  show ?thesis
  proof (cases "?p r")
    case True
    have "get_job d jid pid = Some r" unfolding get_job_def by (rule first_row_only [OF r(1)]) (use r(2) True only in blast)+
    with Some True show ?thesis by simp
  next
    case False
    with only have "get_job d jid pid = None" unfolding get_job_def first_row_None_iff by metis
    with Some False show ?thesis by simp
  qed
qed

lemma mirrors_update: "mirrors d js \<Longrightarrow> find_job d k = Some r \<Longrightarrow> persisted job = view r \<Longrightarrow> mirrors d (AList.update k job js)"
  by (auto simp: mirrors_def update_conv)

lemma mirrors_delete: "mirrors d js \<Longrightarrow> mirrors d (AList.delete k js)"
  by (auto simp: mirrors_def delete_conv' split: if_splits)

lemma mirrors_evict: "mirrors d js \<Longrightarrow> mirrors d (evict n ts js)"
  by (induction n ts js rule: evict.induct) (simp_all add: mirrors_delete)

lemma coherent_put:
  assumes "coherent st" and "st_repo st = Some d" and "find_job d (j_id r) = Some r"
  shows "coherent (put_job (job_of_record d r) st)"
proof -
  have "ij_id (job_of_record d r) = j_id r" by (simp add: job_of_record_def)
  with assms show ?thesis by (auto simp: coherent_def put_job_def intro: mirrors_update)
qed

lemma coherent_forget: "coherent st \<Longrightarrow> coherent (forget k st)"
  by (cases "st_repo st") (simp_all add: coherent_def forget_def mirrors_delete)

text \<open>A change of the one row with the given id, and of the cached job with it.\<close>

definition touches :: "pystr \<Rightarrow> (job_row \<Rightarrow> job_row) \<Rightarrow> import_db \<Rightarrow> import_db \<Rightarrow> bool" where
  "touches jid g d d' \<longleftrightarrow> (\<exists>P. jobs d' = upd_rows P g (jobs d) \<and> (\<forall>r. P r \<longrightarrow> j_id r = jid) \<and> (\<exists>r\<in>set (jobs d). P r))"

lemma touches_find:
  assumes d: "sound_db d" and t: "touches jid g d d'" and r: "find_job d jid = Some r" and g: "j_id (g r) = jid" "workers_set (g r)"
  shows "sound_db d'" and "find_job d' jid = Some (g r)" and "k \<noteq> jid \<Longrightarrow> find_job d' k = find_job d k"
proof -
  from t obtain P q where P: "jobs d' = upd_rows P g (jobs d)" "\<And>r. P r \<Longrightarrow> j_id r = jid" "q \<in> set (jobs d)" "P q"
    unfolding touches_def by blast
  have "q = r" using find_job_mem [OF d P(3)] P(2) [OF P(4)] r by simp
  have only: "x = r" if "x \<in> set (jobs d)" "P x" for x using find_job_mem [OF d that(1)] P(2) [OF that(2)] r by simp
  define h where "h x = (if x = r then g r else x)" for x
  have rows: "jobs d' = map h (jobs d)"
    unfolding P(1) upd_rows_def h_def using only P(4) \<open>q = r\<close> by (intro map_cong refl) metis
  have jr: "j_id r = jid" "r \<in> set (jobs d)" using find_job_SomeD [OF r] by simp_all
  have id: "j_id (h x) = j_id x" for x using jr(1) g(1) by (simp add: h_def)
  have "map j_id (jobs d') = map j_id (jobs d)" by (simp add: rows id)
  moreover have "workers_set x" if "x \<in> set (jobs d')" for x using d g(2) that by (auto simp: h_def sound_db_def rows)
  ultimately show "sound_db d'" using d unfolding sound_db_def by metis
  have one: "first_row (\<lambda>x. j_id x = k) (map h rows) = map_option h (first_row (\<lambda>x. j_id x = k) rows)" for k rows
    by (induction rows) (simp_all add: id)
  then show "find_job d' jid = Some (g r)" using r by (simp add: find_job_def rows h_def)
  assume k: "k \<noteq> jid"
  show "find_job d' k = find_job d k"
  proof (cases "find_job d k")
    case (Some x)
    then have "x \<noteq> r" using find_job_SomeD [OF Some] jr(1) k by auto
    with one [of k "jobs d"] Some show ?thesis by (simp add: find_job_def rows h_def)
  qed (use one [of k "jobs d"] in \<open>simp add: find_job_def rows\<close>)
qed

lemma coherent_touch:
  assumes "coherent st" and "st_repo st = Some d" and "touches jid g d d'" and "map_of (st_jobs st) jid = Some job"
    and "\<And>r. workers_set r \<Longrightarrow> persisted job = view r \<Longrightarrow> j_id (g r) = j_id r \<and> workers_set (g r) \<and> persisted (f job) = view (g r)"
  shows "coherent (st\<lparr>st_repo := Some d', st_jobs := AList.update jid (f job) (st_jobs st)\<rparr>)"
proof -
  from assms(1,2) have d: "sound_db d" "mirrors d (st_jobs st)" by (simp_all add: coherent_def)
  from mirrorsD [OF d(2) assms(4)] obtain r where r: "find_job d jid = Some r" "persisted job = view r" by blast
  then have "workers_set r" "j_id r = jid" using d(1) find_job_SomeD [OF r(1)] by (auto simp: sound_db_def)
  with assms(5) r(2) have g: "j_id (g r) = jid" "workers_set (g r)" "persisted (f job) = view (g r)" by auto
  note new = touches_find [OF d(1) assms(3) r(1) g(1,2)]
  have "mirrors d' (AList.update jid (f job) (st_jobs st))"
    using d(2) new(2,3) g(3) by (auto simp: mirrors_def update_conv)
  with new(1) show ?thesis by (simp add: coherent_def)
qed

lemma coherent_same_jobs:
  "coherent st \<Longrightarrow> st_repo st = Some d \<Longrightarrow> jobs d' = jobs d \<Longrightarrow> coherent (st\<lparr>st_repo := Some d'\<rparr>)"
  by (simp add: coherent_def sound_db_def mirrors_def find_job_def)

section \<open>Every operation keeps it\<close>

definition written :: "pystr \<Rightarrow> (job_row \<Rightarrow> job_row) \<Rightarrow> import_db \<Rightarrow> import_db \<Rightarrow> job_row option \<Rightarrow> bool" where
  "written jid g d d' row \<longleftrightarrow> (row = None \<and> jobs d' = jobs d) \<or> (row \<noteq> None \<and> touches jid g d d')"

lemma write_job_written:
  assumes "write_job d jid w g now = Inr (d', row)" and "\<And>r. j_id (g r) = j_id r"
  shows "written jid g d d' row"
proof -
  obtain ow where u: "update_and_fetch d jid (job_target jid ow now) g = (d', row)"
    using assms(1) by (auto simp: write_job_def err_simps split: option.splits if_splits)
  have id: "job_target jid ow now r \<Longrightarrow> j_id r = jid" for r
    by (auto simp: job_target_def active_lease_conditions_def split: option.splits)
  show ?thesis
  proof (cases "rowcount (job_target jid ow now) (jobs d) = 0")
    case True
    with u show ?thesis by (simp add: update_and_fetch_def written_def)
  next
    case False
    then obtain q where q: "q \<in> set (jobs d)" "job_target jid ow now q" by (auto simp: rowcount_0_iff)
    from u False have d': "d' = d\<lparr>jobs := upd_rows (job_target jid ow now) g (jobs d)\<rparr>" and row: "row = find_job d' jid"
      by (auto simp: update_and_fetch_def Let_def)
    have "g q \<in> set (jobs d')" "j_id (g q) = jid" using q id assms(2) by (auto simp: d' set_upd_rows)
    then have "row \<noteq> None" unfolding row find_job_def first_row_None_iff by blast
    moreover have "touches jid g d d'" unfolding touches_def using q id by (intro exI [of _ "job_target jid ow now"]) (auto simp: d')
    ultimately show ?thesis by (simp add: written_def)
  qed
qed

lemma coherent_write_through:
  assumes "coherent st" and "write_through st jid w f = Inr (st', res)"
    and w: "\<And>d d' job row. w d job = Inr (d', row) \<Longrightarrow> written jid (g job) d d' row"
    and g: "\<And>job r. workers_set r \<Longrightarrow> persisted job = view r \<Longrightarrow>
      j_id (g job r) = j_id r \<and> workers_set (g job r) \<and> persisted (f job) = view (g job r)"
  shows "coherent st'"
proof (cases "map_of (st_jobs st) jid")
  case None
  with assms(1,2) show ?thesis by (simp add: write_through_def)
next
  case (Some job)
  show ?thesis
  proof (cases "st_repo st")
    case None
    with assms(2) Some show ?thesis by (auto simp: write_through_def coherent_def Let_def)
  next
    case repo: (Some d)
    obtain d' row where wd: "w d job = Inr (d', row)"
      and st': "st' = (if row = None then st\<lparr>st_repo := Some d'\<rparr>
        else st\<lparr>st_repo := Some d', st_jobs := AList.update jid (f job) (st_jobs st)\<rparr>)"
      using assms(2) Some repo by (auto simp: write_through_def Let_def err_simps split: if_splits)
    from w [OF wd] show ?thesis
      unfolding st' written_def
      using coherent_same_jobs [OF assms(1) repo] coherent_touch [OF assms(1) repo _ Some g] by auto
  qed
qed

lemma id_mutable [simp]: "j_id (set_job_cols (mutable_job_cols cs) r) = j_id r"
proof (induction cs arbitrary: r)
  case (Cons c cs)
  then show ?case by (cases c) (simp_all add: mutable_job_cols_def set_job_cols_def)
qed (simp add: mutable_job_cols_def set_job_cols_def)

lemma coherent_update:
  assumes "coherent st" and "update st jid owner cs now clock = Inr (st', res)" and "\<forall>c\<in>set cs. plain_change c"
  shows "coherent st'"
proof (rule coherent_write_through [OF assms(1) assms(2) [unfolded update_def], where g = "\<lambda>job. updated_row cs job now clock"])
  fix d d' job row
  assume u: "update_job d jid owner (update_values cs job now) clock = Inr (d', row)"
  have "updated_row cs job now clock = (\<lambda>r. (set_job_cols (mutable_job_cols (update_values cs job now)) r)\<lparr>j_updated_at := clock\<rparr>)"
    by (simp add: updated_row_def fun_eq_iff)
  then show "written jid (updated_row cs job now clock) d d' row"
    using write_job_written [OF u [unfolded update_job_def]] by simp
qed (use updated_row_view [OF assms(3)] in blast)

lemma coherent_increment:
  assumes "coherent st" and "increment st jid owner ds now clock = Inr (st', res)"
    and "\<forall>(c, n)\<in>set ds. c \<notin> {WorkerCount, CurrentConcurrency, SplitCount}"
  shows "coherent st'"
proof -
  have add: "persisted (fold (\<lambda>(c, n). add_count c n) ds job) = view (add_counts ds r) \<and>
      workers_set (add_counts ds r) \<and> j_id (add_counts ds r) = j_id r"
    if "workers_set r" "persisted job = view r" for job r
    using that assms(3)
  proof (induction ds arbitrary: job r)
    case (Cons d ds)
    obtain c n where d: "d = (c, n)" by (cases d)
    let ?r = "r\<lparr>j_count := (j_count r)(c := j_count r c + n)\<rparr>" and ?j = "add_count c n job"
    have c: "c \<noteq> WorkerCount" "c \<noteq> CurrentConcurrency" "c \<noteq> SplitCount" using Cons.prems(3) by (auto simp: d)
    with Cons.prems(1) have w: "workers_set ?r" by (simp add: workers_set_def)
    have "persisted ?j = view ?r" using Cons.prems(2) c unfolding view_iff [OF w] view_iff [OF Cons.prems(1)]
      by (auto simp: add_count_def fun_upd_twist)
    with Cons.IH [OF w] Cons.prems(3) show ?case by (simp add: add_counts_def d)
  qed (simp add: add_counts_def)
  show ?thesis
  proof (rule coherent_write_through [OF assms(1) assms(2) [unfolded increment_def], where g = "\<lambda>job r. (add_counts ds r)\<lparr>j_updated_at := clock\<rparr>"])
    fix d d' row
    assume u: "increment_job d jid owner ds clock = Inr (d', row)"
    have "j_id (add_counts ds r) = j_id r" for r by (induction ds arbitrary: r) (auto simp: add_counts_def)
    then show "written jid (\<lambda>r. (add_counts ds r)\<lparr>j_updated_at := clock\<rparr>) d d' row"
      using write_job_written [OF u [unfolded increment_job_def]] by simp
  next
    fix job r assume r: "workers_set r" "persisted job = view r"
    let ?q = "(add_counts ds r)\<lparr>j_updated_at := clock\<rparr>"
    from add [OF r] have w: "workers_set ?q" "workers_set (add_counts ds r)" by (simp_all add: workers_set_def)
    from add [OF r] w show "j_id ?q = j_id r \<and> workers_set ?q \<and> persisted (incremented_job ds now job) = view ?q"
      unfolding view_iff [OF w(1)] view_iff [OF w(2)] by (simp add: incremented_job_def)
  qed
qed

lemma coherent_record_phases:
  assumes "coherent st" and "record_phases st jid owner ps now clock = Inr (st', res)"
  shows "coherent st'"
proof -
  define valid where "valid = filter (\<lambda>(_, x). x \<ge> 0) ps"
  define add where "add job = add_durations valid (ij_phase_durations job)" for job :: import_job
  let ?g = "\<lambda>job r. (r\<lparr>j_phase_durations := add job, j_updated_at := clock\<rparr>) :: job_row"
  show ?thesis
  proof (cases "valid = []")
    case True
    with assms show ?thesis by (simp add: record_phases_def valid_def Let_def)
  next
    case False
    then have w: "write_through st jid (\<lambda>d job. update_job d jid owner [JcPhaseDurations (add job), JcUpdatedAt now] clock)
        (\<lambda>job. job\<lparr>ij_phase_durations := add job, ij_updated_at := now\<rparr>) = Inr (st', res)"
      using assms(2) unfolding record_phases_def valid_def [symmetric] Let_def add_def by simp
    show ?thesis
    proof (rule coherent_write_through [OF assms(1) w, where g = ?g])
      fix d d' job row
      assume u: "update_job d jid owner [JcPhaseDurations (add job), JcUpdatedAt now] clock = Inr (d', row)"
      have "(\<lambda>r. (set_job_cols (mutable_job_cols [JcPhaseDurations (add job), JcUpdatedAt now]) r)\<lparr>j_updated_at := clock\<rparr>) = ?g job"
        by (simp add: fun_eq_iff set_job_cols_def mutable_job_cols_def)
      with write_job_written [OF u [unfolded update_job_def]] show "written jid (?g job) d d' row" by simp
    next
      fix job r assume r: "workers_set r" "persisted job = view r"
      then have q: "workers_set (?g job r)" by (simp add: workers_set_def)
      show "j_id (?g job r) = j_id r \<and> workers_set (?g job r) \<and>
          persisted (job\<lparr>ij_phase_durations := add job, ij_updated_at := now\<rparr>) = view (?g job r)"
        using r q unfolding view_iff [OF q] view_iff [OF r(1)] by simp
    qed
  qed
qed

lemma coherent_chunk_duration: "coherent st \<Longrightarrow> coherent (record_chunk_duration st jid x now)"
proof (cases "map_of (st_jobs st) jid")
  case (Some job)
  let ?job = "job\<lparr>ij_chunk_durations := ij_chunk_durations job @ [x], ij_updated_at := now\<rparr>"
  assume st: "coherent st"
  have "mirrors d (AList.update jid ?job (st_jobs st))" if m: "mirrors d (st_jobs st)" for d
  proof -
    from mirrorsD [OF m Some] obtain r where "find_job d jid = Some r" "persisted job = view r" by blast
    moreover have "persisted ?job = persisted job" by (simp add: persisted_def)
    ultimately show ?thesis using mirrors_update [OF m] by simp
  qed
  with st Some show ?thesis by (auto simp: record_chunk_duration_def coherent_def split: option.splits)
qed (simp add: record_chunk_duration_def)

lemma coherent_add_error:
  assumes "coherent st" and "add_job_error st jid owner a new_id now clock = Inr (st', res)"
  shows "coherent st'"
proof (cases "map_of (st_jobs st) jid")
  case None
  with assms show ?thesis by (simp add: add_job_error_def)
next
  case (Some job)
  let ?g = "\<lambda>r. r\<lparr>j_count := (j_count r)(ErrorCount := j_count r ErrorCount + 1), j_updated_at := clock\<rparr>"
  show ?thesis
  proof (cases "st_repo st")
    case None
    with assms(2) Some show ?thesis by (auto simp: add_job_error_def coherent_def Let_def)
  next
    case repo: (Some d)
    obtain d' row where e: "add_error d jid (ea_source a) (ea_message a) owner (repository_error d jid job a) new_id clock = Inr (d', row)"
      and st': "st' = st\<lparr>st_repo := Some d', st_jobs := AList.update jid (job_with_error a now job) (st_jobs st)\<rparr>"
      using assms(2) Some repo by (auto simp: add_job_error_def Let_def err_simps)
    from e obtain ow where ow: "normalize_lease_owner owner = Inr ow" by (auto simp: add_error_def err_simps)
    have d': "jobs d' = upd_rows (job_target jid ow clock) ?g (jobs d)"
      and n: "ow \<noteq> None \<Longrightarrow> rowcount (job_target jid ow clock) (jobs d) \<noteq> 0"
      using e ow by (cases ow; auto simp: add_error_def Let_def err_simps fenced_insert_def insert_if_active_lease_def split: if_splits)+
    have sd: "sound_db d" "mirrors d (st_jobs st)" using assms(1) repo by (simp_all add: coherent_def)
    from mirrorsD [OF sd(2) Some] obtain r where "find_job d jid = Some r" by blast
    from find_job_SomeD [OF this] have r: "r \<in> set (jobs d)" "j_id r = jid" by simp_all
    have "\<exists>r\<in>set (jobs d). job_target jid ow clock r"
      using n r by (cases ow) (auto simp: rowcount_0_iff job_target_def)
    then have t: "touches jid ?g d d'"
      unfolding touches_def by (intro exI [of _ "job_target jid ow clock"])
        (auto simp: d' job_target_def active_lease_conditions_def split: option.splits)
    show ?thesis
      unfolding st'
    proof (rule coherent_touch [OF assms(1) repo t Some])
      fix r assume r: "workers_set r" "persisted job = view r"
      then have q: "workers_set (?g r)" by (simp add: workers_set_def)
      show "j_id (?g r) = j_id r \<and> workers_set (?g r) \<and> persisted (job_with_error a now job) = view (?g r)"
        using r q unfolding view_iff [OF q] view_iff [OF r(1)] by (simp add: job_with_error_def fun_upd_twist)
    qed
  qed
qed

lemma coherent_get: "coherent st \<Longrightarrow> coherent (fst (get st jid pid refresh))"
proof -
  assume st: "coherent st"
  show ?thesis
  proof (cases "st_repo st")
    case None
    with st show ?thesis by (simp add: get_def Let_def)
  next
    case (Some d)
    then have d: "sound_db d" using st by (simp add: coherent_def)
    show ?thesis
    proof (cases "get_job d jid pid")
      case None
      with st Some coherent_forget [OF st] show ?thesis by (simp add: get_def Let_def)
    next
      case row: (Some r)
      then have "r \<in> set (jobs d)" using d by (auto simp: get_job_find dest: find_job_SomeD split: option.splits if_splits)
      from coherent_put [OF st Some find_job_mem [OF d this]] st Some row show ?thesis by (simp add: get_def Let_def)
    qed
  qed
qed

lemma coherent_put_jobs:
  "coherent st \<Longrightarrow> st_repo st = Some d \<Longrightarrow> set rs \<subseteq> set (jobs d) \<Longrightarrow> coherent (fold put_job (map (job_of_record d) rs) st)"
proof (induction rs arbitrary: st)
  case (Cons r rs)
  then have "sound_db d" by (simp add: coherent_def)
  with Cons.prems have "coherent (put_job (job_of_record d r) st)" by (intro coherent_put) (auto intro: find_job_mem)
  with Cons show ?case by (simp add: put_job_def)
qed simp

lemma coherent_list: "coherent st \<Longrightarrow> coherent (fst (list_of_project st pid limit))"
proof (cases "st_repo st")
  case (Some d)
  have "set (list_jobs d pid limit) \<subseteq> set (jobs d)" by (auto simp: list_jobs_def dest: in_set_takeD)
  moreover assume "coherent st"
  ultimately show ?thesis using Some by (simp add: list_of_project_def Let_def coherent_put_jobs)
qed (simp add: list_of_project_def Let_def)

lemma coherent_request_cancel: "coherent st \<Longrightarrow> coherent (fst (request_cancel st jid pid now clock))"
proof (cases "st_repo st")
  case None
  assume "coherent st"
  with None show ?thesis by (auto simp: request_cancel_def coherent_def Let_def split: option.split)
next
  case (Some d)
  assume st: "coherent st"
  with Some have sd: "sound_db d" "mirrors d (st_jobs st)" by (simp_all add: coherent_def)
  let ?g = "\<lambda>r. r\<lparr>j_cancel_requested := True, j_status := JCancelling, j_phase := U ''cancelling'', j_updated_at := clock\<rparr>"
  let ?P = "\<lambda>r. j_id r = jid \<and> j_project_id r = pid \<and> j_status r \<in> set (dedup cancellable_job_statuses)"
  obtain d' row where c: "request_job_cancel d jid pid cancellable_job_statuses clock = (d', row)" by fastforce
  show ?thesis
  proof (cases "\<exists>q\<in>set (jobs d). ?P q")
    case False
    then have same: "d' = d" "row = None"
      using c by (auto simp: request_job_cancel_def update_and_fetch_def rowcount_0_iff Let_def split: if_splits)
    have repo: "st\<lparr>st_repo := Some d\<rparr> = st" using Some by simp
    show ?thesis
    proof (cases "get_job d jid (Some pid)")
      case None
      with coherent_forget [OF st] show ?thesis by (simp add: request_cancel_def Some c same repo)
    next
      case row: (Some r)
      then have "r \<in> set (jobs d)" using sd(1) by (auto simp: get_job_find dest: find_job_SomeD split: option.splits if_splits)
      from coherent_put [OF st Some find_job_mem [OF sd(1) this]] row show ?thesis
        by (simp add: request_cancel_def Some c same repo)
    qed
  next
    case True
    then obtain q where q: "q \<in> set (jobs d)" "?P q" by blast
    have find: "find_job d jid = Some q" using find_job_mem [OF sd(1) q(1)] q(2) by simp
    define e where "e = d\<lparr>jobs := upd_rows ?P ?g (jobs d)\<rparr>"
    have "dedup cancellable_job_statuses \<noteq> []" by (simp add: cancellable_job_statuses_def dedup_eq_Nil)
    moreover have "rowcount ?P (jobs d) \<noteq> 0" using True by (auto simp: rowcount_0_iff)
    ultimately have "request_job_cancel d jid pid cancellable_job_statuses clock = (e, find_job e jid)"
      unfolding request_job_cancel_def update_and_fetch_def Let_def e_def by simp
    with c have p: "d' = e \<and> row = find_job e jid" by (metis prod.inject)
    then have de: "d' = e" and row: "row = find_job d' jid" by (simp_all only:)
    note d' = de [unfolded e_def]
    have t: "touches jid ?g d d'" unfolding touches_def using q by (intro exI [of _ ?P]) (auto simp: d')
    have w: "workers_set (?g q)" using sd(1) q(1) by (auto simp: sound_db_def workers_set_def)
    have id: "j_id (?g q) = jid" using q(2) by simp
    note new = touches_find [OF sd(1) t find id w]
    have "ij_id (job_of_record d' (?g q)) = jid" using q(2) by (simp add: job_of_record_def)
    moreover have "mirrors d' (AList.update jid (job_of_record d' (?g q)) (st_jobs st))"
      using sd(2) new(2,3) by (auto simp: mirrors_def update_conv)
    ultimately show ?thesis
      using new(1) by (simp add: request_cancel_def Some c row new(2) coherent_def put_job_def)
  qed
qed

definition created_row :: "create_args \<Rightarrow> import_job \<Rightarrow> pystr \<Rightarrow> instant \<Rightarrow> job_row" where
  "created_row a job nid clock = set_job_cols (prepare_job_values (create_values a job) nid clock) (default_job_row clock)"

lemma created_row_view:
  assumes "ca_workers a \<noteq> 0" and "job = new_job a new_id now"
  shows "workers_set (created_row a job nid clock) \<and> view (created_row a job nid clock) = persisted job \<and>
         j_id (created_row a job nid clock) = ij_id job"
proof -
  note defs = Let_def created_row_def prepare_job_values_def create_values_def set_job_cols_def default_job_row_def
  have w: "workers_set (created_row a job nid clock)"
    using assms(1) unfolding defs by (simp add: workers_set_def split: option.split)
  have "persisted job = view (created_row a job nid clock) \<and> j_id (created_row a job nid clock) = ij_id job"
    unfolding view_iff [OF w] unfolding defs assms(2) new_job_def by (simp add: fun_eq_iff split: option.split)
  with w show ?thesis by simp
qed

lemma map_of_evict: "map_of (evict n ts js) k = Some j \<Longrightarrow> map_of js k = Some j"
  by (induction n ts js rule: evict.induct) (auto simp: delete_conv' split: if_splits)

lemma coherent_create:
  assumes "coherent st" and "create st a new_id now clock = Inr (st', job)" and "ca_workers a \<noteq> 0"
  shows "coherent st'"
proof (cases "st_repo st")
  case None
  with assms(2) show ?thesis by (auto simp: create_def Let_def coherent_def split: option.splits if_splits)
next
  case (Some d)
  define j where "j = new_job a new_id now"
  define r where "r = created_row a j new_id clock"
  have r: "workers_set r" "view r = persisted j" "j_id r = ij_id j"
    using created_row_view [OF assms(3) j_def] by (simp_all add: r_def)
  from assms(1) Some have d: "sound_db d" "mirrors d (st_jobs st)" by (simp_all add: coherent_def)
  obtain d' row where m: "(case ca_max_active a of None \<Rightarrow> create_job d (create_values a j) new_id clock
        | Some n \<Rightarrow> create_job_with_active_limit d n (ca_max_retained a) (create_values a j) new_id clock) = Inr (d', row)"
    and st': "st_repo st' = Some d'" "st_jobs st' = evict (st_max st) (terminal_ids (AList.update (ij_id j) j (st_jobs st))) (AList.update (ij_id j) j (st_jobs st))"
    using assms(2) Some by (auto simp: create_def Let_def j_def [symmetric] err_simps)
  have ins: "insert_job d (prepare_job_values (create_values a j) new_id clock) clock = Inr (d', row)"
    using m by (auto simp: create_job_def create_job_with_active_limit_def Let_def split: option.splits if_splits)
  then have d': "d' = d\<lparr>jobs := jobs d @ [r]\<rparr>" and free: "\<not> job_exists d (j_id r)"
    by (auto simp: insert_job_def Let_def job_conflict_def r_def created_row_def split: if_splits)
  have sound: "sound_db d'" using d(1) r(1) free by (auto simp: sound_db_def d' job_exists_def)
  have old: "find_job d' k = Some q" if "find_job d k = Some q" for k q using that by (simp add: find_job_def d' first_row_append)
  have "find_job d (j_id r) = None" using free by (auto simp: find_job_def first_row_None_iff job_exists_def)
  then have new: "find_job d' (ij_id j) = Some r" using r(3) by (simp add: find_job_def d' first_row_append)
  have "mirrors d' (st_jobs st)" using d(2) old unfolding mirrors_def by metis
  then have "mirrors d' (AList.update (ij_id j) j (st_jobs st))" using mirrors_update [OF _ new] r(2) by simp
  then show ?thesis using sound st' by (auto simp: coherent_def intro: mirrors_evict)
qed

section \<open>Runs\<close>

datatype store_call =
    SCreate create_args pystr instant instant
  | SGet pystr "pystr option" bool
  | SUpdate pystr "pystr option" "job_col list" instant instant
  | SIncrement pystr "pystr option" "(job_counter \<times> int) list" instant instant
  | SPhases pystr "pystr option" "(pystr \<times> rat) list" instant instant
  | SChunkDuration pystr rat instant
  | SError pystr "pystr option" error_args pystr instant instant
  | SCancel pystr pystr instant instant
  | SList pystr int
  | SForget pystr

definition after :: "'a store_result \<Rightarrow> job_store \<Rightarrow> job_store" where
  "after m st = (case m of Inl _ \<Rightarrow> st | Inr (st', _) \<Rightarrow> st')"

fun exec_store_call :: "store_call \<Rightarrow> job_store \<Rightarrow> job_store" where
  "exec_store_call (SCreate a n now clock) st = after (create st a n now clock) st"
| "exec_store_call (SGet jid pid refresh) st = fst (get st jid pid refresh)"
| "exec_store_call (SUpdate jid ow cs now clock) st = after (update st jid ow cs now clock) st"
| "exec_store_call (SIncrement jid ow ds now clock) st = after (increment st jid ow ds now clock) st"
| "exec_store_call (SPhases jid ow ps now clock) st = after (record_phases st jid ow ps now clock) st"
| "exec_store_call (SChunkDuration jid x now) st = record_chunk_duration st jid x now"
| "exec_store_call (SError jid ow a n now clock) st = after (add_job_error st jid ow a n now clock) st"
| "exec_store_call (SCancel jid pid now clock) st = fst (request_cancel st jid pid now clock)"
| "exec_store_call (SList pid limit) st = fst (list_of_project st pid limit)"
| "exec_store_call (SForget jid) st = forget jid st"

text \<open>How the server calls it: jobs are created with workers, changes are plain ones, and the numbers of
  workers are set, never added to.\<close>

fun plain_call :: "store_call \<Rightarrow> bool" where
  "plain_call (SCreate a n now clock) = (ca_workers a \<noteq> 0)"
| "plain_call (SUpdate jid ow cs now clock) = list_all plain_change cs"
| "plain_call (SIncrement jid ow ds now clock) = list_all (\<lambda>(c, n). c \<notin> {WorkerCount, CurrentConcurrency, SplitCount}) ds"
| "plain_call _ = True"

lemma coherent_after: "coherent st \<Longrightarrow> (\<And>st' x. m = Inr (st', x) \<Longrightarrow> coherent st') \<Longrightarrow> coherent (after m st)"
  by (auto simp: after_def split: sum.split)

lemma coherent_call: "coherent st \<Longrightarrow> plain_call c \<Longrightarrow> coherent (exec_store_call c st)"
  by (cases c)
    (auto simp: list_all_iff intro!: coherent_after intro: coherent_create coherent_update coherent_increment coherent_record_phases
      coherent_add_error coherent_get coherent_chunk_duration coherent_request_cancel coherent_list coherent_forget)

lemma coherent_run: "coherent st \<Longrightarrow> list_all plain_call cs \<Longrightarrow> coherent (fold exec_store_call cs st)"
  by (induction cs arbitrary: st) (simp_all add: coherent_call)

text \<open>In a coherent store, reading through the cache is reading the database.\<close>

lemma coherent_reads:
  assumes "coherent st" and "st_repo st = Some d"
  shows "map_option persisted (snd (get st jid pid refresh)) = map_option view (get_job d jid pid)"
proof -
  from assms have d: "sound_db d" "mirrors d (st_jobs st)" by (simp_all add: coherent_def)
  have shown: "belongs pid (job_of_record d r) \<longleftrightarrow> (case pid of None \<Rightarrow> True | Some p \<Rightarrow> j_project_id r = p)" for r
    by (simp add: belongs_def job_of_record_def split: option.split)
  have own: "get_job d jid pid = Some r \<Longrightarrow> belongs pid (job_of_record d r)" for r
    unfolding shown by (auto simp: get_job_find [OF d(1)] split: option.splits if_splits)
  show ?thesis
  proof (cases "refresh \<or> map_of (st_jobs st) jid = None")
    case True
    with assms(2) own show ?thesis by (cases "get_job d jid pid") (auto simp: get_def Let_def)
  next
    case False
    then obtain job where job: "map_of (st_jobs st) jid = Some job" by blast
    from mirrorsD [OF d(2) job] obtain r where r: "find_job d jid = Some r" "persisted job = view r" by blast
    have "ij_project_id (persisted job) = ij_project_id (view r)" using r(2) by simp
    then have "ij_project_id job = j_project_id r" by (simp add: persisted_def view_def)
    with False job r assms(2) show ?thesis by (auto simp: get_def Let_def get_job_find [OF d(1)] belongs_def split: option.splits)
  qed
qed

text \<open>A read with a refresh does not depend on the cache: it gives the job of the row as it is, its errors and durations included.\<close>

lemma refreshed_read:
  assumes "st_repo st = Some d"
  shows "snd (get st jid pid True) = map_option (job_of_record d) (get_job d jid pid)"
proof (cases "get_job d jid pid")
  case (Some r)
  then have "case pid of None \<Rightarrow> True | Some p \<Rightarrow> j_project_id r = p"
    unfolding get_job_def by (auto dest: first_row_SomeD)
  then have "belongs pid (job_of_record d r)" by (simp add: belongs_def job_of_record_def split: option.splits)
  with Some assms show ?thesis by (simp add: get_def Let_def)
qed (simp add: assms get_def Let_def)

text \<open>C5: the cache of jobs refines the repository. Take a server that starts with an empty cache on a
  database whose jobs have distinct ids and workers, and any sequence of calls of the store's ten
  methods as the server makes them (jobs created with workers, changes of fields that the cache has too,
  numbers of workers set and not added to), with or without leases, including those that fail.
  Whoever then reads a job, whether from the cache or with a refresh, gets what a read of the database would
  give: the same job or none, with the same status, phase, counters, options, times of creation, start and
  end, and all other fields but the time of the last update, the sample of error messages and the sample of
  chunk durations, which the cache keeps by itself. And even if the database is then changed behind the
  cache, in whatever way, a read with a refresh gives its job in every field.\<close>
theorem store_refines_repository:
  assumes "st_jobs st = []" and "st_repo st = Some d0"
    and "distinct (map j_id (jobs d0))" and "\<forall>r\<in>set (jobs d0). workers_set r"
    and "list_all plain_call calls" and "st_repo (fold exec_store_call calls st) = Some d"
  shows "map_option persisted (snd (get (fold exec_store_call calls st) jid pid refresh)) = map_option view (get_job d jid pid) \<and>
    snd (get ((fold exec_store_call calls st)\<lparr>st_repo := Some changed\<rparr>) jid pid True) =
      map_option (job_of_record changed) (get_job changed jid pid)"
proof -
  have "coherent st" using assms(1-4) by (simp add: coherent_def sound_db_def mirrors_def)
  from coherent_reads [OF coherent_run [OF this assms(5)] assms(6)] show ?thesis by (simp add: refreshed_read)
qed

definition demo_create :: create_args where
  "demo_create = \<lparr>ca_project_id = U ''p'', ca_input_files = [U ''a.json''], ca_entities = [], ca_source_app = U ''auto'',
     ca_infer = True, ca_workers = 3, ca_options = JObj [], ca_job_id = Some (U ''j''), ca_workspace = None, ca_status = JQueued,
     ca_lease_owner = None, ca_lease_expires_at = None, ca_quota_snapshot = JObj [], ca_max_active = Some 2, ca_max_retained = None\<rparr>"

definition demo_calls :: "store_call list" where
  "demo_calls = [SCreate demo_create [] 1 1, SUpdate (U ''j'') None [JcStatus JImporting, JcPhase (U ''extracting'')] 6 7,
     SIncrement (U ''j'') None [(ProcessedChunks, 2)] 8 9, SUpdate (U ''j'') (Some (U ''someone else'')) [JcStatus JFailed] 10 10]"

definition demo_store :: job_store where
  "demo_store = \<lparr>st_jobs = [], st_max = 100,
     st_repo = Some \<lparr>jobs = [], chunks = [], manifests = [], graph_items = [], job_errors = [], hashes = []\<rparr>\<rparr>"

lemma store_refines_repository_witness:
  "\<exists>d r. st_repo (fold exec_store_call demo_calls demo_store) = Some d \<and> get_job d (U ''j'') None = Some r \<and>
     j_status r = JImporting \<and> j_count r ProcessedChunks = 2 \<and> j_started_at r = Some 6 \<and>
     map_option persisted (snd (get (fold exec_store_call demo_calls demo_store) (U ''j'') None False)) = Some (view r)"
proof -
  have "case st_repo (fold exec_store_call demo_calls demo_store) of None \<Rightarrow> False | Some d \<Rightarrow>
      (case get_job d (U ''j'') None of None \<Rightarrow> False | Some r \<Rightarrow>
         j_status r = JImporting \<and> j_count r ProcessedChunks = 2 \<and> j_started_at r = Some 6)" by code_simp
  then obtain d r where d: "st_repo (fold exec_store_call demo_calls demo_store) = Some d" "get_job d (U ''j'') None = Some r"
    "j_status r = JImporting" "j_count r ProcessedChunks = 2" "j_started_at r = Some 6" by (auto split: option.splits)
  have "list_all plain_call demo_calls" by (simp add: demo_calls_def demo_create_def)
  from store_refines_repository [OF _ _ _ _ this d(1), of _ "U ''j''" None False d] d show ?thesis
    by (simp add: demo_store_def)
qed

section \<open>The percentile\<close>

lemma sorted_rank:
  assumes "sorted xs" and "k < length xs"
  shows "length (filter (\<lambda>x. x < xs ! k) xs) \<le> k" and "k < length (filter (\<lambda>x. x \<le> xs ! k) xs)"
proof -
  have split: "xs = take k xs @ xs ! k # drop (Suc k) xs" by (rule id_take_nth_drop [OF assms(2)])
  have ge: "\<forall>x\<in>set (drop k xs). xs ! k \<le> x" and le: "\<forall>x\<in>set (take (Suc k) xs). x \<le> xs ! k"
    using assms by (auto simp: in_set_conv_nth sorted_iff_nth_mono)
  have "filter (\<lambda>x. x < xs ! k) (drop k xs) = []" using ge by (auto simp: filter_empty_conv)
  then have "filter (\<lambda>x. x < xs ! k) xs = filter (\<lambda>x. x < xs ! k) (take k xs)"
    by (metis append_Nil2 append_take_drop_id filter_append)
  then show "length (filter (\<lambda>x. x < xs ! k) xs) \<le> k" by (metis length_filter_le length_take min.cobounded2 order_trans)
  have "filter (\<lambda>x. x \<le> xs ! k) (take (Suc k) xs) = take (Suc k) xs" using le by (simp add: filter_id_conv)
  then have "length (filter (\<lambda>x. x \<le> xs ! k) xs) = Suc k + length (filter (\<lambda>x. x \<le> xs ! k) (drop (Suc k) xs))"
    using assms(2) by (metis Suc_leI append_take_drop_id filter_append length_append length_take min.absorb2)
  then show "k < length (filter (\<lambda>x. x \<le> xs ! k) xs)" by simp
qed

lemma length_filter_sort: "length (filter P (sort xs)) = length (filter P xs)"
  by (simp add: filter_sort)

text \<open>The reported percentile is the nearest-rank 95th percentile. It is one of the measured durations,
  at least 95 percent of the durations do not exceed it, and fewer than 95 percent lie below it.\<close>
theorem p95_is_nearest_rank:
  assumes "xs \<noteq> []"
  shows "p95 xs \<in> set xs \<and> 95 * length xs \<le> 100 * length (filter (\<lambda>x. x \<le> p95 xs) xs) \<and>
         100 * length (filter (\<lambda>x. x < p95 xs) xs) < 95 * length xs"
proof -
  define c where "c = \<lceil>of_nat (length xs) * (95 / 100 :: rat)\<rceil>"
  have c: "of_nat (length xs) * (95 / 100 :: rat) \<le> of_int c" "of_int c < of_nat (length xs) * (95 / 100 :: rat) + 1"
    using ceiling_correct [of "of_nat (length xs) * (95 / 100 :: rat)"] by (simp_all add: c_def)
  then have "(of_int (95 * int (length xs)) :: rat) \<le> of_int (100 * c)" "(of_int (100 * c) :: rat) < of_int (95 * int (length xs) + 100)"
    by simp_all
  then have i: "95 * int (length xs) \<le> 100 * c" "100 * c < 95 * int (length xs) + 100" by linarith+
  have pos: "0 < length xs" using assms by simp
  define k where "k = nat (c - 1)"
  have "0 < c" and "c - 1 < int (length xs)" using i pos by linarith+
  then have k: "k < length xs" "int k = c - 1" by (auto simp: k_def)
  have p: "p95 xs = sort xs ! k"
  proof -
    have "min (int (length xs) - 1) (max 0 (c - 1)) = c - 1" using \<open>0 < c\<close> \<open>c - 1 < int (length xs)\<close> by simp
    then show ?thesis unfolding p95_def c_def [symmetric] k_def using assms by simp
  qed
  have "p95 xs \<in> set xs" unfolding p using k by (metis length_sort nth_mem set_sort)
  moreover have "length (filter (\<lambda>x. x < p95 xs) xs) \<le> k" "k < length (filter (\<lambda>x. x \<le> p95 xs) xs)"
    using sorted_rank [of "sort xs" k] k by (simp_all add: p length_filter_sort)
  ultimately show ?thesis using i k(2) by auto
qed

lemma p95_is_nearest_rank_witness:
  "p95 [3, 1, 2] = 3 \<and> (3::rat) \<in> set [3, 1, 2] \<and> 95 * 3 \<le> 100 * length (filter (\<lambda>x. x \<le> (3::rat)) [3, 1, 2])"
proof -
  have p: "p95 [3, 1, 2] = 3" by code_simp
  show ?thesis using p95_is_nearest_rank [of "[3, 1, 2]"] unfolding p by simp
qed

end
