(* ===== verification/Import_Archive.thy ===== *)
theory Import_Archive
  imports Import_Runner "HOL-Library.AList" "HOL-Library.Sublist"
begin

unbundle bit_operations_syntax

text \<open>
  Finding the files of an import (server/chat_import.py): which names are accepted, how archives are
  unpacked below a directory of their own, and how the files, the sizes and the refusals are counted.
  A path is the list of its components. What a directory walk, an archive's index and the operating
  system answer is given: the candidates with their sizes and contents, the outcome of reading a
  member, and whether a file can be written. \<open>disk\<close> holds the files written so far and their sizes. The
  name of an archive's directory (an index and a hash) is a parameter.
\<close>

section \<open>Names\<close>

type_synonym path = "pystr list"

definition slash :: int where "slash = 47"

text \<open>The components of a POSIX path: empty ones and single dots disappear.\<close>

fun split_at :: "int \<Rightarrow> pystr \<Rightarrow> pystr \<Rightarrow> pystr list" where
  "split_at d acc [] = [acc]"
| "split_at d acc (c # cs) = (if c = d then acc # split_at d [] cs else split_at d (acc @ [c]) cs)"

definition posix_parts :: "pystr \<Rightarrow> path" where
  "posix_parts s = filter (\<lambda>p. p \<noteq> [] \<and> p \<noteq> U ''.'') (split_at slash [] s)"

definition safe_member_path :: "pystr \<Rightarrow> path option" where
  "safe_member_path name =
    (let s = map (\<lambda>c. if c = 92 then slash else c) name; parts = posix_parts s
     in if (s \<noteq> [] \<and> hd s = slash) \<or> parts = [] \<or> list_ex (\<lambda>p. p \<in> {[], U ''.'', U ''..''}) parts then None
        else if 58 \<in> set (hd parts) then None
        else Some parts)"

definition safe_upload_path :: "pystr \<Rightarrow> path \<Rightarrow> path" where
  "safe_upload_path name fallback = (case safe_member_path name of None \<Rightarrow> fallback | Some parts \<Rightarrow> parts)"

text \<open>\<open>PurePath.suffix\<close> of a file name: from its last dot, unless the name begins or ends there.\<close>

definition file_suffix :: "pystr \<Rightarrow> pystr" where
  "file_suffix name =
    (let tail = rev (takeWhile (\<lambda>c. c \<noteq> 46) (rev name)); stem = length name - length tail - 1
     in if 46 \<in> set name \<and> 0 < stem \<and> tail \<noteq> [] then 46 # tail else [])"

definition supported_suffixes :: "pystr list" where
  "supported_suffixes = map U [''.json'', ''.jsonl'', ''.md'', ''.markdown'', ''.mdx'', ''.txt'']"

definition archive_suffixes :: "pystr list" where
  "archive_suffixes = map U [''.zip'', ''.tar'', ''.tar.gz'', ''.tgz'', ''.tar.bz2'', ''.tbz2'', ''.tar.xz'', ''.txz'']"

definition archive_kind :: "pystr \<Rightarrow> pystr option" where
  "archive_kind name = find (\<lambda>s. suffix s (lower_text name)) archive_suffixes"

definition path_name :: "path \<Rightarrow> pystr" where
  "path_name p = (if p = [] then [] else last p)"

definition supported :: "path \<Rightarrow> bool" where
  "supported p = (lower_text (file_suffix (path_name p)) \<in> set supported_suffixes)"

definition is_supported_input :: "pystr \<Rightarrow> bool" where
  "is_supported_input name = (supported (posix_parts name) \<or> archive_kind name \<noteq> None)"

section \<open>Archives\<close>

text \<open>An archive that is refused: over the limit of bytes or of files, unreadable or not writable (all of
  which the caller survives), or encrypted (\<open>RuntimeError\<close>, which it does not).\<close>

datatype archive_error = ExpandsBeyond int | TooManyFiles int | Unreadable | Encrypted

datatype import_warning =
    UnsafeEntry pystr | OversizedFile pystr | ArchiveLink pystr | CouldNotOpen pystr archive_error

record source_file =
  sf_path :: path
  sf_display :: pystr

record discovery =
  dr_files :: "source_file list"
  dr_skipped :: int
  dr_warnings :: "import_warning list"

definition empty_discovery :: discovery where
  "empty_discovery = \<lparr>dr_files = [], dr_skipped = 0, dr_warnings = []\<rparr>"

definition skip :: "discovery \<Rightarrow> discovery" where
  "skip r = r\<lparr>dr_skipped := dr_skipped r + 1\<rparr>"

definition warn :: "import_warning \<Rightarrow> discovery \<Rightarrow> discovery" where
  "warn w r = r\<lparr>dr_warnings := dr_warnings r @ [w]\<rparr>"

type_synonym disk = "(path \<times> int) list"

record limits =
  lm_file_bytes :: int
  lm_total_bytes :: int
  lm_files :: int

definition default_limits :: limits where
  "default_limits = \<lparr>lm_file_bytes = 100 * 1024 * 1024, lm_total_bytes = 512 * 1024 * 1024, lm_files = 5000\<rparr>"

text \<open>What unpacking has done so far.\<close>

record extraction =
  xt_total :: int
  xt_result :: discovery
  xt_disk :: disk

definition on_result :: "(discovery \<Rightarrow> discovery) \<Rightarrow> extraction \<Rightarrow> extraction" where
  "on_result f x = x\<lparr>xt_result := f (xt_result x)\<rparr>"

text \<open>How reading a member's content ends; \<open>NoContent\<close> is a tar member without data.\<close>

datatype read_outcome = ReadOk | NoContent | ReadFails archive_error

text \<open>What both kinds of archives do with a member of an accepted path. The path is joined to the destination the way it is on
  a POSIX system, where the deployed containers run: a component that names a Windows drive would restart it there.\<close>

definition store_member ::
  "limits \<Rightarrow> (disk \<Rightarrow> path \<Rightarrow> bool) \<Rightarrow> path \<Rightarrow> pystr \<Rightarrow> path \<Rightarrow> int \<Rightarrow> read_outcome \<Rightarrow> extraction
   \<Rightarrow> archive_error option \<times> extraction" where
  "store_member lm writable dest label relative bytes outcome x =
    (let display = label @ U ''!/'' @ join_with [slash] relative; total = xt_total x + bytes; target = dest @ relative
     in if \<not> supported relative then (None, on_result skip x)
        else if bytes > lm_file_bytes lm then (None, on_result (warn (OversizedFile display) \<circ> skip) x)
        else if total > lm_total_bytes lm then (Some (ExpandsBeyond (lm_total_bytes lm)), x\<lparr>xt_total := total\<rparr>)
        else if int (length (dr_files (xt_result x))) \<ge> lm_files lm
          then (Some (TooManyFiles (lm_files lm)), x\<lparr>xt_total := total\<rparr>)
        else case outcome of
               NoContent \<Rightarrow> (None, on_result skip (x\<lparr>xt_total := total\<rparr>))
             | ReadFails e \<Rightarrow> (Some e, x\<lparr>xt_total := total\<rparr>)
             | ReadOk \<Rightarrow>
                 if \<not> writable (xt_disk x) target then (Some Unreadable, x\<lparr>xt_total := total\<rparr>)
                 else (None, on_result (\<lambda>r. r\<lparr>dr_files := dr_files r @ [\<lparr>sf_path = target, sf_display = display\<rparr>]\<rparr>)
                        (x\<lparr>xt_total := total, xt_disk := AList.update target bytes (xt_disk x)\<rparr>)))"

record zip_member =
  zm_filename :: pystr
  zm_external_attr :: int
  zm_file_size :: int
  zm_read :: read_outcome

definition zip_is_dir :: "zip_member \<Rightarrow> bool" where
  "zip_is_dir m = (zm_filename m \<noteq> [] \<and> last (zm_filename m) = slash)"

definition zip_is_link :: "zip_member \<Rightarrow> bool" where
  "zip_is_link m = (drop_bit 16 (zm_external_attr m) AND 61440 = 40960)"

definition zip_step ::
  "limits \<Rightarrow> (disk \<Rightarrow> path \<Rightarrow> bool) \<Rightarrow> path \<Rightarrow> pystr \<Rightarrow> zip_member \<Rightarrow> extraction \<Rightarrow> archive_error option \<times> extraction" where
  "zip_step lm writable dest label m x =
    (if zip_is_dir m then (None, x)
     else case (if zip_is_link m then None else safe_member_path (zm_filename m)) of
            None \<Rightarrow> (None, on_result (warn (UnsafeEntry (zm_filename m)) \<circ> skip) x)
          | Some relative \<Rightarrow> store_member lm writable dest label relative (zm_file_size m) (zm_read m) x)"

datatype tar_kind = TarFile | TarLink | TarOther

record tar_member =
  tm_name :: pystr
  tm_kind :: tar_kind
  tm_size :: int
  tm_read :: read_outcome

definition tar_step ::
  "limits \<Rightarrow> (disk \<Rightarrow> path \<Rightarrow> bool) \<Rightarrow> path \<Rightarrow> pystr \<Rightarrow> tar_member \<Rightarrow> extraction \<Rightarrow> archive_error option \<times> extraction" where
  "tar_step lm writable dest label m x =
    (case tm_kind m of
       TarLink \<Rightarrow> (None, on_result (warn (ArchiveLink (tm_name m)) \<circ> skip) x)
     | TarOther \<Rightarrow> (None, x)
     | TarFile \<Rightarrow>
         (case safe_member_path (tm_name m) of
            None \<Rightarrow> (None, on_result (warn (UnsafeEntry (tm_name m)) \<circ> skip) x)
          | Some relative \<Rightarrow> store_member lm writable dest label relative (tm_size m) (tm_read m) x))"

text \<open>The loop over the members; an exception ends it.\<close>

fun each_member :: "('m \<Rightarrow> extraction \<Rightarrow> archive_error option \<times> extraction) \<Rightarrow> 'm list \<Rightarrow> extraction \<Rightarrow> archive_error option \<times> extraction" where
  "each_member step [] x = (None, x)"
| "each_member step (m # ms) x = (case step m x of (Some e, x') \<Rightarrow> (Some e, x') | (None, x') \<Rightarrow> each_member step ms x')"

definition begin_extraction :: "disk \<Rightarrow> extraction" where
  "begin_extraction d = \<lparr>xt_total = 0, xt_result = empty_discovery, xt_disk = d\<rparr>"

definition extract_zip ::
  "limits \<Rightarrow> (disk \<Rightarrow> path \<Rightarrow> bool) \<Rightarrow> path \<Rightarrow> pystr \<Rightarrow> zip_member list \<Rightarrow> disk \<Rightarrow> archive_error option \<times> extraction" where
  "extract_zip lm writable dest label ms d = each_member (zip_step lm writable dest label) ms (begin_extraction d)"

definition extract_tar ::
  "limits \<Rightarrow> (disk \<Rightarrow> path \<Rightarrow> bool) \<Rightarrow> path \<Rightarrow> pystr \<Rightarrow> tar_member list \<Rightarrow> disk \<Rightarrow> archive_error option \<times> extraction" where
  "extract_tar lm writable dest label ms d = each_member (tar_step lm writable dest label) ms (begin_extraction d)"

section \<open>Discovery\<close>

text \<open>A candidate: an input, or a file of an input directory, with what opening it as an archive gives.\<close>

datatype archive_content = ZipContent "zip_member list" | TarContent "tar_member list" | BadArchive

record candidate =
  cd_path :: path
  cd_is_file :: bool
  cd_display :: pystr
  cd_size :: int
  cd_content :: archive_content

datatype discovery_error = ImportExpandsBeyond int | ImportHoldsBeyond int | ImportTooManyFiles int | ArchiveFailure archive_error

record search =
  sr_result :: discovery
  sr_seen :: "path list"
  sr_expanded :: int
  sr_disk :: disk

definition unpack ::
  "limits \<Rightarrow> (disk \<Rightarrow> path \<Rightarrow> bool) \<Rightarrow> path \<Rightarrow> candidate \<Rightarrow> search \<Rightarrow> archive_error option \<times> extraction" where
  "unpack lm writable dest c s =
    (let rest = lm\<lparr>lm_files := lm_files lm - int (length (dr_files (sr_result s)))\<rparr>;
         zip = (archive_kind (path_name (cd_path c)) = Some (U ''.zip''))
     in case cd_content c of
          ZipContent ms \<Rightarrow> if zip then extract_zip rest writable dest (cd_display c) ms (sr_disk s)
                           else (Some Unreadable, begin_extraction (sr_disk s))
        | TarContent ms \<Rightarrow> if zip then (Some Unreadable, begin_extraction (sr_disk s))
                           else extract_tar rest writable dest (cd_display c) ms (sr_disk s)
        | BadArchive \<Rightarrow> (Some Unreadable, begin_extraction (sr_disk s)))"

definition bytes_on_disk :: "disk \<Rightarrow> source_file list \<Rightarrow> int" where
  "bytes_on_disk d fs = sum_list (map (\<lambda>f. case map_of d (sf_path f) of None \<Rightarrow> 0 | Some n \<Rightarrow> n) fs)"

definition add_archive :: "limits \<Rightarrow> candidate \<Rightarrow> archive_error option \<times> extraction \<Rightarrow> search \<Rightarrow> discovery_error option \<times> search" where
  "add_archive lm c outcome s =
    (let (err, x) = outcome; s1 = s\<lparr>sr_disk := xt_disk x\<rparr>; r = sr_result s; a = xt_result x
     in case err of
          Some Encrypted \<Rightarrow> (Some (ArchiveFailure Encrypted), s1)
        | Some e \<Rightarrow> (None, s1\<lparr>sr_result := warn (CouldNotOpen (cd_display c) e) (skip r)\<rparr>)
        | None \<Rightarrow>
            let expanded = sr_expanded s + bytes_on_disk (xt_disk x) (dr_files a)
            in if expanded > lm_total_bytes lm then (Some (ImportExpandsBeyond (lm_total_bytes lm)), s1\<lparr>sr_expanded := expanded\<rparr>)
               else (None, s1\<lparr>sr_expanded := expanded,
                       sr_result := \<lparr>dr_files = dr_files r @ dr_files a, dr_skipped = dr_skipped r + dr_skipped a,
                                     dr_warnings = dr_warnings r @ dr_warnings a\<rparr>\<rparr>))"

definition add_document :: "limits \<Rightarrow> candidate \<Rightarrow> search \<Rightarrow> discovery_error option \<times> search" where
  "add_document lm c s =
    (let r = sr_result s; expanded = sr_expanded s + cd_size c;
         files = dr_files r @ [\<lparr>sf_path = cd_path c, sf_display = cd_display c\<rparr>]
     in if \<not> supported (cd_path c) then (None, s\<lparr>sr_result := skip r\<rparr>)
        else if cd_size c > lm_file_bytes lm then (None, s\<lparr>sr_result := warn (OversizedFile (cd_display c)) (skip r)\<rparr>)
        else if expanded > lm_total_bytes lm then (Some (ImportHoldsBeyond (lm_total_bytes lm)), s\<lparr>sr_expanded := expanded\<rparr>)
        else if int (length files) > lm_files lm
          then (Some (ImportTooManyFiles (lm_files lm)), s\<lparr>sr_expanded := expanded, sr_result := r\<lparr>dr_files := files\<rparr>\<rparr>)
        else (None, s\<lparr>sr_expanded := expanded, sr_result := r\<lparr>dr_files := files\<rparr>\<rparr>))"

definition visit ::
  "limits \<Rightarrow> (disk \<Rightarrow> path \<Rightarrow> bool) \<Rightarrow> (nat \<Rightarrow> pystr \<Rightarrow> path) \<Rightarrow> nat \<Rightarrow> candidate \<Rightarrow> search \<Rightarrow> discovery_error option \<times> search" where
  "visit lm writable dest i c s =
    (let s1 = s\<lparr>sr_seen := sr_seen s @ [cd_path c]\<rparr>
     in if cd_path c \<in> set (sr_seen s) then (None, s)
        else if \<not> cd_is_file c then (None, s1\<lparr>sr_result := skip (sr_result s)\<rparr>)
        else if archive_kind (path_name (cd_path c)) \<noteq> None
          then add_archive lm c (unpack lm writable (dest i (cd_display c)) c s1) s1
        else add_document lm c s1)"

fun visit_all ::
  "limits \<Rightarrow> (disk \<Rightarrow> path \<Rightarrow> bool) \<Rightarrow> (nat \<Rightarrow> pystr \<Rightarrow> path) \<Rightarrow> nat \<Rightarrow> candidate list \<Rightarrow> search \<Rightarrow> discovery_error option \<times> search" where
  "visit_all lm writable dest i [] s = (None, s)"
| "visit_all lm writable dest i (c # cs) s =
    (case visit lm writable dest i c s of
       (Some e, s') \<Rightarrow> (Some e, s')
     | (None, s') \<Rightarrow> visit_all lm writable dest (Suc i) cs s')"

definition discover_input_files ::
  "limits \<Rightarrow> (disk \<Rightarrow> path \<Rightarrow> bool) \<Rightarrow> (nat \<Rightarrow> pystr \<Rightarrow> path) \<Rightarrow> candidate list \<Rightarrow> disk \<Rightarrow> (discovery_error + discovery) \<times> disk" where
  "discover_input_files lm writable dest cs d =
    (case visit_all lm writable dest 0 cs \<lparr>sr_result = empty_discovery, sr_seen = [], sr_expanded = 0, sr_disk = d\<rparr> of
       (Some e, s) \<Rightarrow> (Inl e, sr_disk s)
     | (None, s) \<Rightarrow> (Inr (sr_result s), sr_disk s))"

end
