(* ===== verification/Import_Archive_Laws.thy ===== *)
theory Import_Archive_Laws
  imports Import_Archive
begin

text \<open>
  Unpacking is confined: whatever names an archive holds, nothing is written outside the directory
  it is given, and not more bytes or files than allowed. Both kinds of archives share one contract,
  the locale \<open>archive_reader\<close>: a member is passed over, or stored under an accepted path.
\<close>

section \<open>Accepted paths\<close>

text \<open>A component that names a file or a directory and cannot leave it.\<close>

definition plain_part :: "pystr \<Rightarrow> bool" where
  "plain_part p \<longleftrightarrow> p \<noteq> [] \<and> p \<noteq> U ''.'' \<and> p \<noteq> U ''..'' \<and> slash \<notin> set p \<and> 92 \<notin> set p"

definition plain_path :: "path \<Rightarrow> bool" where
  "plain_path ps \<longleftrightarrow> ps \<noteq> [] \<and> (\<forall>p\<in>set ps. plain_part p) \<and> 58 \<notin> set (hd ps)"

text \<open>How a POSIX file system walks a path, component by component.\<close>

fun walk :: "path \<Rightarrow> path \<Rightarrow> path" where
  "walk here [] = here"
| "walk here (p # ps) =
    walk (if p = U ''..'' then butlast here else if p = [] \<or> p = U ''.'' then here else here @ [p]) ps"

lemma walk_plain: "\<forall>p\<in>set ps. plain_part p \<Longrightarrow> walk here ps = here @ ps"
  by (induction ps arbitrary: here) (simp_all add: plain_part_def)

lemma split_at_parts: "p \<in> set (split_at d acc s) \<Longrightarrow> d \<notin> set acc \<Longrightarrow> d \<notin> set p \<and> set p \<subseteq> set acc \<union> set s"
  by (induction d acc s rule: split_at.induct) (auto split: if_splits)

lemma safe_member_path_plain:
  assumes "safe_member_path name = Some ps"
  shows "plain_path ps"
proof -
  define s where "s = map (\<lambda>c. if c = 92 then slash else c) name"
  have ps: "ps = posix_parts s" "ps \<noteq> []" "\<not> list_ex (\<lambda>p. p \<in> {[], U ''.'', U ''..''}) ps" "58 \<notin> set (hd ps)"
    using assms unfolding safe_member_path_def Let_def s_def [symmetric] by (auto split: if_splits)
  have "92 \<notin> set s" by (auto simp: s_def slash_def)
  then have "slash \<notin> set p \<and> 92 \<notin> set p" if "p \<in> set ps" for p
    using that split_at_parts [of p slash "[]" s] unfolding ps(1) posix_parts_def by auto
  with ps(2-4) show ?thesis by (auto simp: plain_path_def plain_part_def list_ex_iff)
qed

section \<open>One archive\<close>

definition bytes_below :: "path \<Rightarrow> disk \<Rightarrow> int" where
  "bytes_below dest d = sum_list (map snd (filter (\<lambda>(p, n). prefix dest p) d))"

lemma bytes_below_update:
  assumes "\<forall>(p, n)\<in>set d. prefix dest p \<longrightarrow> 0 \<le> n" and "0 \<le> b"
  shows "bytes_below dest (AList.update k b d) \<le> bytes_below dest d + b"
  using assms by (induction d) (auto simp: bytes_below_def)

lemma update_nonneg:
  "\<forall>(p, n)\<in>set d. prefix dest p \<longrightarrow> 0 \<le> n \<Longrightarrow> 0 \<le> b \<Longrightarrow> \<forall>(p, n)\<in>set (AList.update k b d). prefix dest p \<longrightarrow> 0 \<le> n"
  by (induction d) auto

text \<open>What holds while an archive is unpacked into \<open>dest\<close>, starting from the files \<open>d\<close>.\<close>

definition confined :: "limits \<Rightarrow> path \<Rightarrow> disk \<Rightarrow> extraction \<Rightarrow> bool" where
  "confined lm dest d x \<longleftrightarrow>
     (\<forall>p. map_of (xt_disk x) p \<noteq> map_of d p \<longrightarrow> (\<exists>ps. plain_path ps \<and> p = dest @ ps)) \<and>
     (\<forall>(p, n)\<in>set (xt_disk x). prefix dest p \<longrightarrow> 0 \<le> n) \<and>
     bytes_below dest (xt_disk x) \<le> xt_total x \<and> bytes_below dest (xt_disk x) \<le> max 0 (lm_total_bytes lm) \<and>
     int (length (dr_files (xt_result x))) \<le> max 0 (lm_files lm) \<and>
     (\<forall>f\<in>set (dr_files (xt_result x)). \<exists>ps. plain_path ps \<and> supported ps \<and> sf_path f = dest @ ps)"

lemma confined_begin:
  assumes "\<forall>(p, n)\<in>set d. \<not> prefix dest p"
  shows "confined lm dest d (begin_extraction d)"
proof -
  have "filter (\<lambda>(p, n). prefix dest p) d = []" using assms by (auto simp: filter_empty_conv)
  moreover have "\<forall>(p, n)\<in>set d. prefix dest p \<longrightarrow> 0 \<le> n" using assms by auto
  ultimately show ?thesis by (simp add: confined_def begin_extraction_def empty_discovery_def bytes_below_def)
qed

lemma confined_result:
  "confined lm dest d x \<Longrightarrow> dr_files (f (xt_result x)) = dr_files (xt_result x) \<Longrightarrow> confined lm dest d (on_result f x)"
  by (simp add: confined_def on_result_def)

lemma confined_total: "confined lm dest d x \<Longrightarrow> 0 \<le> b \<Longrightarrow> confined lm dest d (x\<lparr>xt_total := xt_total x + b\<rparr>)"
  by (auto simp: confined_def)

lemma skip_files [simp]: "dr_files (skip r) = dr_files r" "dr_files (warn w r) = dr_files r"
  by (simp_all add: skip_def warn_def)

lemma confined_store:
  assumes x: "confined lm dest d x" and ps: "plain_path ps" and b: "0 \<le> b"
  shows "confined lm dest d (snd (store_member lm writable dest label ps b outcome x))"
proof -
  note t = confined_total [OF x b]
  define y where "y = on_result (\<lambda>r. r\<lparr>dr_files := dr_files r @ [\<lparr>sf_path = dest @ ps, sf_display = label @ U ''!/'' @ join_with [slash] ps\<rparr>]\<rparr>)
      (x\<lparr>xt_total := xt_total x + b, xt_disk := AList.update (dest @ ps) b (xt_disk x)\<rparr>)"
  have y: "confined lm dest d y"
    if "supported ps" and fit: "xt_total x + b \<le> lm_total_bytes lm" and room: "int (length (dr_files (xt_result x))) < lm_files lm"
  proof -
    have nn: "\<forall>(p, n)\<in>set (xt_disk x). prefix dest p \<longrightarrow> 0 \<le> n" and le: "bytes_below dest (xt_disk x) \<le> xt_total x"
      and new: "\<forall>p. map_of (xt_disk x) p \<noteq> map_of d p \<longrightarrow> (\<exists>ps. plain_path ps \<and> p = dest @ ps)"
      and files: "\<forall>f\<in>set (dr_files (xt_result x)). \<exists>ps. plain_path ps \<and> supported ps \<and> sf_path f = dest @ ps"
      using x unfolding confined_def by blast+
    have "bytes_below dest (AList.update (dest @ ps) b (xt_disk x)) \<le> xt_total x + b"
      using bytes_below_update [OF nn b, of "dest @ ps"] le by linarith
    moreover have "\<forall>p. map_of (AList.update (dest @ ps) b (xt_disk x)) p \<noteq> map_of d p \<longrightarrow> (\<exists>ps. plain_path ps \<and> p = dest @ ps)"
      using new ps by (auto simp: update_conv)
    ultimately show ?thesis
      using fit room files ps that(1) update_nonneg [OF nn b, of "dest @ ps"] unfolding confined_def y_def on_result_def by auto
  qed
  show ?thesis
    unfolding store_member_def Let_def y_def [symmetric]
    using x t y by (auto intro!: confined_result split: read_outcome.split)
qed

locale archive_reader =
  fixes lm :: limits and writable :: "disk \<Rightarrow> path \<Rightarrow> bool" and dest :: path and label :: pystr
    and step :: "'m \<Rightarrow> extraction \<Rightarrow> archive_error option \<times> extraction" and ok :: "'m \<Rightarrow> bool"
  assumes passes_or_stores: "ok m \<Longrightarrow>
    (\<exists>f. step m x = (None, on_result f x) \<and> dr_files (f (xt_result x)) = dr_files (xt_result x)) \<or>
    (\<exists>ps b outcome. plain_path ps \<and> 0 \<le> b \<and> step m x = store_member lm writable dest label ps b outcome x)"
begin

lemma loop_keeps:
  assumes pass: "\<And>f x. I x \<Longrightarrow> dr_files (f (xt_result x)) = dr_files (xt_result x) \<Longrightarrow> I (on_result f x)"
    and store: "\<And>ps b outcome x. plain_path ps \<Longrightarrow> 0 \<le> b \<Longrightarrow> I x \<Longrightarrow> I (snd (store_member lm writable dest label ps b outcome x))"
  shows "\<forall>m\<in>set ms. ok m \<Longrightarrow> I x \<Longrightarrow> I (snd (each_member step ms x))"
proof (induction ms arbitrary: x)
  case (Cons m ms)
  obtain e x' where s: "step m x = (e, x')" by fastforce
  have "ok m" and x: "I x" using Cons.prems by simp_all
  have "I x'"
    using passes_or_stores [OF \<open>ok m\<close>, of x]
  proof (elim disjE exE conjE)
    fix f assume "step m x = (None, on_result f x)" "dr_files (f (xt_result x)) = dr_files (xt_result x)"
    with pass [OF x] show "I x'" by (simp add: s)
  next
    fix ps b outcome assume "plain_path ps" "0 \<le> b" "step m x = store_member lm writable dest label ps b outcome x"
    with store [OF _ _ x, of ps b outcome] show "I x'" by (metis s snd_conv)
  qed
  with Cons.IH [of x'] Cons.prems(1) show ?case by (simp add: s split: option.split)
qed simp

end

interpretation zip: archive_reader lm writable dest label "zip_step lm writable dest label" "\<lambda>m. 0 \<le> zm_file_size m"
  for lm writable dest label
proof
  fix m :: zip_member and x assume "0 \<le> zm_file_size m"
  have "x = on_result (\<lambda>r. r) x" by (simp add: on_result_def)
  then have pass: "\<exists>f. (None, x) = (None :: archive_error option, on_result f x) \<and> dr_files (f (xt_result x)) = dr_files (xt_result x)"
    by (metis (no_types))
  show "(\<exists>f. zip_step lm writable dest label m x = (None, on_result f x) \<and> dr_files (f (xt_result x)) = dr_files (xt_result x)) \<or>
    (\<exists>ps b outcome. plain_path ps \<and> 0 \<le> b \<and> zip_step lm writable dest label m x = store_member lm writable dest label ps b outcome x)"
  proof (cases "zip_is_dir m")
    case True
    with pass show ?thesis by (simp add: zip_step_def)
  next
    case False
    show ?thesis
    proof (cases "if zip_is_link m then None else safe_member_path (zm_filename m)")
      case None
      with False show ?thesis by (intro disjI1 exI [of _ "warn (UnsafeEntry (zm_filename m)) \<circ> skip"]) (simp add: zip_step_def)
    next
      case (Some ps)
      then have "plain_path ps" using safe_member_path_plain by (simp split: if_splits)
      with False Some \<open>0 \<le> zm_file_size m\<close> show ?thesis
        by (intro disjI2 exI [of _ ps] exI [of _ "zm_file_size m"] exI [of _ "zm_read m"]) (simp add: zip_step_def)
    qed
  qed
qed

interpretation tar: archive_reader lm writable dest label "tar_step lm writable dest label" "\<lambda>m. 0 \<le> tm_size m"
  for lm writable dest label
proof
  fix m :: tar_member and x assume size: "0 \<le> tm_size m"
  have "x = on_result (\<lambda>r. r) x" by (simp add: on_result_def)
  then have pass: "\<exists>f. (None, x) = (None :: archive_error option, on_result f x) \<and> dr_files (f (xt_result x)) = dr_files (xt_result x)"
    by (metis (no_types))
  show "(\<exists>f. tar_step lm writable dest label m x = (None, on_result f x) \<and> dr_files (f (xt_result x)) = dr_files (xt_result x)) \<or>
    (\<exists>ps b outcome. plain_path ps \<and> 0 \<le> b \<and> tar_step lm writable dest label m x = store_member lm writable dest label ps b outcome x)"
  proof (cases "tm_kind m")
    case TarFile
    show ?thesis
    proof (cases "safe_member_path (tm_name m)")
      case None
      with TarFile show ?thesis by (intro disjI1 exI [of _ "warn (UnsafeEntry (tm_name m)) \<circ> skip"]) (simp add: tar_step_def)
    next
      case (Some ps)
      with TarFile size safe_member_path_plain [OF Some] show ?thesis
        by (intro disjI2 exI [of _ ps] exI [of _ "tm_size m"] exI [of _ "tm_read m"]) (simp add: tar_step_def)
    qed
  next
    case TarLink
    then show ?thesis by (intro disjI1 exI [of _ "warn (ArchiveLink (tm_name m)) \<circ> skip"]) (simp add: tar_step_def)
  qed (use pass in \<open>simp add: tar_step_def\<close>)
qed

text \<open>The sizes an archive's index gives are not negative.\<close>

definition sizes_ok :: "candidate \<Rightarrow> bool" where
  "sizes_ok c = (case cd_content c of ZipContent ms \<Rightarrow> list_all (\<lambda>m. 0 \<le> zm_file_size m) ms
                 | TarContent ms \<Rightarrow> list_all (\<lambda>m. 0 \<le> tm_size m) ms | BadArchive \<Rightarrow> True)"

definition room_left :: "limits \<Rightarrow> search \<Rightarrow> limits" where
  "room_left lm s = lm\<lparr>lm_files := lm_files lm - int (length (dr_files (sr_result s)))\<rparr>"

text \<open>What every member keeps holds after unpacking.\<close>

lemma unpack_keeps:
  assumes "sizes_ok c" and "I (begin_extraction (sr_disk s))"
    and pass: "\<And>f x. I x \<Longrightarrow> dr_files (f (xt_result x)) = dr_files (xt_result x) \<Longrightarrow> I (on_result f x)"
    and store: "\<And>ps b outcome x. plain_path ps \<Longrightarrow> 0 \<le> b \<Longrightarrow> I x \<Longrightarrow>
      I (snd (store_member (room_left lm s) writable dest (cd_display c) ps b outcome x))"
  shows "I (snd (unpack lm writable dest c s))"
proof (cases "cd_content c")
  case (ZipContent ms)
  with assms(1) have "\<forall>m\<in>set ms. 0 \<le> zm_file_size m" by (simp add: sizes_ok_def list_all_iff)
  from zip.loop_keeps [of I, OF pass store this assms(2)] assms(2) ZipContent show ?thesis
    by (simp add: unpack_def extract_zip_def room_left_def [symmetric] Let_def)
next
  case (TarContent ms)
  with assms(1) have "\<forall>m\<in>set ms. 0 \<le> tm_size m" by (simp add: sizes_ok_def list_all_iff)
  from tar.loop_keeps [of I, OF pass store this assms(2)] assms(2) TarContent show ?thesis
    by (simp add: unpack_def extract_tar_def room_left_def [symmetric] Let_def)
qed (use assms(2) in \<open>simp add: unpack_def Let_def\<close>)

text \<open>C28: on a POSIX file system an archive cannot write outside its own directory. Whatever names and sizes its index claims,
  and whether it is unpacked to the end or refused on the way: every file that appears or changes
  lies in the directory given, on a path that a file system walks straight down to it, without
  empty, dot or dot-dot components and without hidden separators; and together these files have at
  most the bytes allowed, none of them unsupported, and not more of them than there is room for.\<close>
theorem archive_stays_inside:
  assumes "sizes_ok c" and "\<forall>(p, n)\<in>set (sr_disk s). \<not> prefix dest p" and "unpack lm writable dest c s = (err, x)"
  shows "(\<forall>p. map_of (xt_disk x) p \<noteq> map_of (sr_disk s) p \<longrightarrow>
            (\<exists>ps. plain_path ps \<and> p = dest @ ps \<and> walk dest ps = p)) \<and>
         bytes_below dest (xt_disk x) \<le> max 0 (lm_total_bytes lm) \<and>
         int (length (dr_files (xt_result x))) \<le> max 0 (lm_files lm - int (length (dr_files (sr_result s)))) \<and>
         (\<forall>f\<in>set (dr_files (xt_result x)). \<exists>ps. plain_path ps \<and> supported ps \<and> sf_path f = dest @ ps)"
proof -
  have "confined (room_left lm s) dest (sr_disk s) (snd (unpack lm writable dest c s))"
    by (rule unpack_keeps [OF assms(1)]) (use confined_begin [OF assms(2)] in \<open>auto intro: confined_result confined_store\<close>)
  with assms(3) have x: "confined (room_left lm s) dest (sr_disk s) x" by simp
  have "walk dest ps = dest @ ps" if "plain_path ps" for ps using that by (simp add: plain_path_def walk_plain)
  with x show ?thesis unfolding confined_def room_left_def by (simp, blast)
qed

section \<open>All candidates\<close>

definition found_ok :: "limits \<Rightarrow> (nat \<Rightarrow> pystr \<Rightarrow> path) \<Rightarrow> candidate list \<Rightarrow> search \<Rightarrow> bool" where
  "found_ok lm dest cs s \<longleftrightarrow> int (length (dr_files (sr_result s))) \<le> lm_files lm \<and>
     (\<forall>f\<in>set (dr_files (sr_result s)).
        (\<exists>c\<in>set cs. sf_path f = cd_path c \<and> supported (cd_path c) \<and> cd_size c \<le> lm_file_bytes lm) \<or>
        (\<exists>i c ps. c \<in> set cs \<and> plain_path ps \<and> supported ps \<and> sf_path f = dest i (cd_display c) @ ps))"

text \<open>The files of an archive, whatever was on the disk before.\<close>

definition kept_inside :: "limits \<Rightarrow> path \<Rightarrow> extraction \<Rightarrow> bool" where
  "kept_inside lm dest x \<longleftrightarrow> int (length (dr_files (xt_result x))) \<le> max 0 (lm_files lm) \<and>
     (\<forall>f\<in>set (dr_files (xt_result x)). \<exists>ps. plain_path ps \<and> supported ps \<and> sf_path f = dest @ ps)"

lemma kept_inside_store:
  "plain_path ps \<Longrightarrow> kept_inside lm dest x \<Longrightarrow> kept_inside lm dest (snd (store_member lm writable dest label ps b outcome x))"
  by (auto simp: kept_inside_def store_member_def Let_def on_result_def split: read_outcome.split)

lemma kept_inside_pass:
  "kept_inside lm dest x \<Longrightarrow> dr_files (f (xt_result x)) = dr_files (xt_result x) \<Longrightarrow> kept_inside lm dest (on_result f x)"
  by (simp add: kept_inside_def on_result_def)

lemma unpack_kept:
  assumes "sizes_ok c" and "unpack lm writable dest c s = (err, x)"
  shows "kept_inside (room_left lm s) dest x"
proof -
  have "kept_inside (room_left lm s) dest (snd (unpack lm writable dest c s))"
    by (rule unpack_keeps [OF assms(1)])
       (simp_all add: kept_inside_store kept_inside_pass, simp add: kept_inside_def begin_extraction_def empty_discovery_def)
  with assms(2) show ?thesis by simp
qed

lemma visit_found:
  assumes "sizes_ok c" and "c \<in> set cs" and "found_ok lm dest cs s" and "visit lm writable dest i c s = (None, s')"
  shows "found_ok lm dest cs s'"
proof -
  define s1 where "s1 = s\<lparr>sr_seen := sr_seen s @ [cd_path c]\<rparr>"
  obtain err x where u: "unpack lm writable (dest i (cd_display c)) c s1 = (err, x)" by fastforce
  from unpack_kept [OF assms(1) u] have x: "int (length (dr_files (xt_result x))) \<le> max 0 (lm_files lm - int (length (dr_files (sr_result s))))"
    "\<forall>f\<in>set (dr_files (xt_result x)). \<exists>ps. plain_path ps \<and> supported ps \<and> sf_path f = dest i (cd_display c) @ ps"
    by (simp_all add: kept_inside_def room_left_def s1_def)
  from assms(3) have s: "int (length (dr_files (sr_result s))) \<le> lm_files lm" by (simp add: found_ok_def)
  have archive: "found_ok lm dest cs s'" if "add_archive lm c (err, x) s1 = (None, s')"
  proof -
    from that have "dr_files (sr_result s') = dr_files (sr_result s) \<or> dr_files (sr_result s') = dr_files (sr_result s) @ dr_files (xt_result x)"
      by (auto simp: add_archive_def Let_def s1_def split: option.splits archive_error.splits if_splits)
    then show ?thesis
    proof
      assume "dr_files (sr_result s') = dr_files (sr_result s) @ dr_files (xt_result x)"
      moreover have "int (length (dr_files (sr_result s)) + length (dr_files (xt_result x))) \<le> lm_files lm" using x(1) s by linarith
      ultimately show ?thesis using assms(2,3) x(2) unfolding found_ok_def by (fastforce simp: ball_Un)
    qed (use assms(3) in \<open>simp add: found_ok_def\<close>)
  qed
  have document: "found_ok lm dest cs s'" if "add_document lm c s1 = (None, s')"
  proof -
    let ?f = "\<lparr>sf_path = cd_path c, sf_display = cd_display c\<rparr>"
    from that have "dr_files (sr_result s') = dr_files (sr_result s) \<or>
        dr_files (sr_result s') = dr_files (sr_result s) @ [?f] \<and> supported (cd_path c) \<and> cd_size c \<le> lm_file_bytes lm \<and>
        int (length (dr_files (sr_result s))) + 1 \<le> lm_files lm"
      by (auto simp: add_document_def Let_def s1_def split: if_splits)
    then show ?thesis
    proof
      assume new: "dr_files (sr_result s') = dr_files (sr_result s) @ [?f] \<and> supported (cd_path c) \<and> cd_size c \<le> lm_file_bytes lm \<and>
        int (length (dr_files (sr_result s))) + 1 \<le> lm_files lm"
      with assms(2) have "\<exists>c\<in>set cs. sf_path ?f = cd_path c \<and> supported (cd_path c) \<and> cd_size c \<le> lm_file_bytes lm" by auto
      with new assms(3) show ?thesis unfolding found_ok_def by (simp add: ball_Un)
    qed (use assms(3) in \<open>simp add: found_ok_def\<close>)
  qed
  show ?thesis
    using assms(3,4) archive document unfolding visit_def Let_def s1_def [symmetric] u
    by (auto simp: found_ok_def s1_def split: if_splits)
qed

text \<open>What an import finds. However many files and archives are handed in, a discovery that succeeds
  has at most the allowed number of files; each of them has a supported type and is either one
  of the inputs, within the size limit, or lies inside the directory its archive was unpacked to.\<close>
theorem discovered_files_admitted:
  assumes "\<forall>c\<in>set cs. sizes_ok c" and "0 \<le> lm_files lm" and "discover_input_files lm writable dest cs d = (Inr r, d')"
  shows "int (length (dr_files r)) \<le> lm_files lm \<and>
     (\<forall>f\<in>set (dr_files r).
        (\<exists>c\<in>set cs. sf_path f = cd_path c \<and> supported (cd_path c) \<and> cd_size c \<le> lm_file_bytes lm) \<or>
        (\<exists>i c ps. c \<in> set cs \<and> plain_path ps \<and> supported ps \<and> sf_path f = dest i (cd_display c) @ ps))"
proof -
  have "found_ok lm dest cs s'" if "visit_all lm writable dest i xs s = (None, s')" "set xs \<subseteq> set cs" "found_ok lm dest cs s" for i xs s s'
    using that
  proof (induction xs arbitrary: i s)
    case (Cons c xs)
    then obtain s1 where v: "visit lm writable dest i c s = (None, s1)" and rest: "visit_all lm writable dest (Suc i) xs s1 = (None, s')"
      by (auto split: prod.splits option.splits)
    from visit_found [OF _ _ Cons.prems(3) v] Cons.prems(2) assms(1) Cons.IH [OF rest] show ?case by auto
  qed simp
  moreover have "found_ok lm dest cs \<lparr>sr_result = empty_discovery, sr_seen = [], sr_expanded = 0, sr_disk = d\<rparr>"
    using assms(2) by (simp add: found_ok_def empty_discovery_def)
  ultimately show ?thesis using assms(3) by (auto simp: discover_input_files_def found_ok_def split: prod.splits option.splits)
qed

section \<open>Examples\<close>

definition hostile_zip :: candidate where
  "hostile_zip = \<lparr>cd_path = [U ''in'', U ''chat.zip''], cd_is_file = True, cd_display = U ''chat.zip'', cd_size = 100,
     cd_content = ZipContent (map (\<lambda>(s, a, n). \<lparr>zm_filename = U s, zm_external_attr = a, zm_file_size = n, zm_read = ReadOk\<rparr>)
       [(''../../etc/cron.json'', 0, 5), (''/etc/cron.json'', 0, 5), (''C:/cron.json'', 0, 5), (''link.json'', 0xA1FF * 65536, 5),
        (''a/./b.json'', 0, 7), (''run.sh'', 0, 5), (''big.json'', 0, 101 * 1024 * 1024)])\<rparr>"

definition fresh_search :: search where
  "fresh_search = \<lparr>sr_result = empty_discovery, sr_seen = [], sr_expanded = 0, sr_disk = [([U ''etc'', U ''cron.json''], 1)]\<rparr>"

definition archive_dir :: "nat \<Rightarrow> pystr \<Rightarrow> path" where
  "archive_dir i label = [U ''tmp'', int i # label]"

lemma archive_stays_inside_witness:
  "case unpack default_limits (\<lambda>_ _. True) (archive_dir 0 (U ''chat.zip'')) hostile_zip fresh_search of (err, x) \<Rightarrow>
     map sf_path (dr_files (xt_result x)) = [archive_dir 0 (U ''chat.zip'') @ [U ''a'', U ''b.json'']] \<and>
     dr_skipped (xt_result x) = 6 \<and> bytes_below (archive_dir 0 (U ''chat.zip'')) (xt_disk x) \<le> 536870912"
proof -
  obtain err x where u: "unpack default_limits (\<lambda>_ _. True) (archive_dir 0 (U ''chat.zip'')) hostile_zip fresh_search = (err, x)"
    by fastforce
  have "case unpack default_limits (\<lambda>_ _. True) (archive_dir 0 (U ''chat.zip'')) hostile_zip fresh_search of (err, x) \<Rightarrow>
     map sf_path (dr_files (xt_result x)) = [archive_dir 0 (U ''chat.zip'') @ [U ''a'', U ''b.json'']] \<and> dr_skipped (xt_result x) = 6"
    by code_simp
  then have x: "map sf_path (dr_files (xt_result x)) = [archive_dir 0 (U ''chat.zip'') @ [U ''a'', U ''b.json'']]" "dr_skipped (xt_result x) = 6"
    by (simp_all add: u)
  have ok: "sizes_ok hostile_zip" by code_simp
  have fresh: "\<forall>(p, n)\<in>set (sr_disk fresh_search). \<not> prefix (archive_dir 0 (U ''chat.zip'')) p" by code_simp
  from archive_stays_inside [OF ok fresh u] have "bytes_below (archive_dir 0 (U ''chat.zip'')) (xt_disk x) \<le> 536870912"
    by (simp add: default_limits_def)
  with x show ?thesis by (simp add: u)
qed

lemma discovered_files_admitted_witness:
  "case discover_input_files default_limits (\<lambda>_ _. True) archive_dir [hostile_zip] [] of
     (Inr r, d) \<Rightarrow> length (dr_files r) = 1 \<and> int (length (dr_files r)) \<le> 5000 | _ \<Rightarrow> False"
proof -
  have "case discover_input_files default_limits (\<lambda>_ _. True) archive_dir [hostile_zip] [] of
     (Inr r, d) \<Rightarrow> length (dr_files r) = 1 | _ \<Rightarrow> False" by code_simp
  then obtain r d where r: "discover_input_files default_limits (\<lambda>_ _. True) archive_dir [hostile_zip] [] = (Inr r, d)"
    "length (dr_files r) = 1" by (auto split: prod.splits sum.splits)
  have ok: "\<forall>c\<in>set [hostile_zip]. sizes_ok c" by code_simp
  from discovered_files_admitted [OF ok _ r(1)] r show ?thesis by (simp add: default_limits_def)
qed

text \<open>An archive that is refused leaves what was unpacked before on the disk, and that is not counted: two
  archives, each refused at its second file, fill the disk beyond the limit for the whole import.\<close>

definition bursting_zip :: "pystr \<Rightarrow> candidate" where
  "bursting_zip name = \<lparr>cd_path = [U ''in'', name], cd_is_file = True, cd_display = name, cd_size = 1,
     cd_content = ZipContent (map (\<lambda>s. \<lparr>zm_filename = U s, zm_external_attr = 0, zm_file_size = 8, zm_read = ReadOk\<rparr>) [''a.json'', ''b.json''])\<rparr>"

lemma refused_archives_not_counted:
  "case discover_input_files \<lparr>lm_file_bytes = 10, lm_total_bytes = 10, lm_files = 5\<rparr> (\<lambda>_ _. True) archive_dir
       [bursting_zip (U ''x.zip''), bursting_zip (U ''y.zip'')] [] of
     (Inr r, d) \<Rightarrow> dr_files r = [] \<and> sum_list (map snd d) = 16 | _ \<Rightarrow> False"
  by code_simp

text \<open>Only the first component is searched for a colon.\<close>

lemma colon_below_accepted: "safe_member_path (U ''a/C:/b.json'') = Some [U ''a'', U ''C:'', U ''b.json'']"
  by code_simp

end
