(* ===== verification/Import_Branch.thy ===== *)
theory Import_Branch
  imports Prelude "HOL-Library.List_Lexorder" "HOL-Library.Product_Lexorder"
begin

text \<open>
  The active branch of a ChatGPT conversation (server/chat_import.py, \<open>chatgpt_active_branch_nodes\<close>). An
  export holds a conversation as a mapping of nodes that name their parents and children, possibly
  by ids other than their keys, possibly wrongly, possibly in a circle; the import follows one
  branch from a tip to the root. Two parts are parameters: \<open>text_of\<close>, the \<open>str(...)\<close> of a JSON value that
  is no string, and \<open>stamp\<close>, the reading of a timestamp.
\<close>

type_synonym node = "(pystr \<times> json) list"
type_synonym nodes = "(pystr \<times> node) list"

definition str_of :: "(json \<Rightarrow> pystr) \<Rightarrow> json \<Rightarrow> pystr" where
  "str_of text_of v = (case v of JStr s \<Rightarrow> s | _ \<Rightarrow> text_of v)"

text \<open>\<open>node.get(name)\<close>, where a missing entry and a null are both \<open>None\<close>.\<close>

definition field :: "string \<Rightarrow> node \<Rightarrow> json option" where
  "field name n = (case map_of n (U name) of None \<Rightarrow> None | Some JNull \<Rightarrow> None | Some v \<Rightarrow> Some v)"

text \<open>The entries that are objects, by their keys.\<close>

definition object_nodes :: "(pystr \<times> json) list \<Rightarrow> nodes" where
  "object_nodes mapping =
    List.map_filter (\<lambda>(k, v). case v of JObj n \<Rightarrow> Some (k, n) | _ \<Rightarrow> None) (sort_key fst mapping)"

text \<open>Every key refers to its node; an id refers to the first node that has it, unless it is a key.\<close>

definition references :: "(json \<Rightarrow> pystr) \<Rightarrow> nodes \<Rightarrow> (pystr \<times> pystr) list" where
  "references text_of ns =
    map (\<lambda>(k, n). (k, k)) ns @ List.map_filter (\<lambda>(k, n). map_option (\<lambda>v. (str_of text_of v, k)) (field ''id'' n)) ns"

definition resolve :: "(json \<Rightarrow> pystr) \<Rightarrow> nodes \<Rightarrow> json option \<Rightarrow> pystr option" where
  "resolve text_of ns ref = (case ref of None \<Rightarrow> None | Some v \<Rightarrow> map_of (references text_of ns) (str_of text_of v))"

definition children_of :: "node \<Rightarrow> json list" where
  "children_of n = (case field ''children'' n of Some (JArr cs) \<Rightarrow> cs | _ \<Rightarrow> [])"

definition child_reference :: "json \<Rightarrow> json option" where
  "child_reference v = (case v of JNull \<Rightarrow> None | _ \<Rightarrow> Some v)"

text \<open>The nodes that list a node among their children.\<close>

definition derived_parents :: "(json \<Rightarrow> pystr) \<Rightarrow> nodes \<Rightarrow> pystr \<Rightarrow> pystr list" where
  "derived_parents text_of ns key =
    concat (map (\<lambda>(k, n). map (\<lambda>_. k) (filter (\<lambda>c. resolve text_of ns (child_reference c) = Some key) (children_of n))) ns)"

definition parent_key :: "(json \<Rightarrow> pystr) \<Rightarrow> nodes \<Rightarrow> pystr \<Rightarrow> pystr option" where
  "parent_key text_of ns key =
    (case map_of ns key of
       None \<Rightarrow> None
     | Some n \<Rightarrow>
         (case resolve text_of ns (field ''parent'' n) of
            Some p \<Rightarrow> Some p
          | None \<Rightarrow> let ps = derived_parents text_of ns key in if ps = [] then None else Some (Min (set ps))))"

text \<open>Upwards from a key until there is no parent or the parent has been seen; root first.\<close>

function climb :: "(pystr \<Rightarrow> pystr option) \<Rightarrow> pystr list \<Rightarrow> pystr list \<Rightarrow> pystr \<Rightarrow> pystr list" where
  "climb parent known seen key =
    (if key \<in> set seen \<or> key \<notin> set known then seen
     else case parent key of None \<Rightarrow> key # seen | Some p \<Rightarrow> climb parent known (key # seen) p)"
  by pat_completeness auto

lemma unseen_less: "key \<in> set known \<Longrightarrow> key \<notin> set seen \<Longrightarrow> card (set known - set (key # seen)) < card (set known - set seen)"
  by (intro psubset_card_mono) auto

termination climb
proof (relation "measure (\<lambda>(parent, known, seen, key). card (set known - set seen))", goal_cases)
  case (2 parent known seen key p)
  then show ?case unfolding in_measure prod.case by (intro unseen_less) simp_all
qed simp

declare climb.simps [simp del]

definition branch_keys :: "(json \<Rightarrow> pystr) \<Rightarrow> nodes \<Rightarrow> pystr \<Rightarrow> pystr list" where
  "branch_keys text_of ns key = climb (parent_key text_of ns) (map fst ns) [] key"

definition branch :: "(json \<Rightarrow> pystr) \<Rightarrow> nodes \<Rightarrow> pystr \<Rightarrow> node list" where
  "branch text_of ns key = List.map_filter (map_of ns) (branch_keys text_of ns key)"

section \<open>Without a current node\<close>

text \<open>The nodes that are nobody's parent; when everything is in a circle, all nodes.\<close>

definition tips :: "(json \<Rightarrow> pystr) \<Rightarrow> nodes \<Rightarrow> pystr list" where
  "tips text_of ns =
    (let keys = map fst ns; parents = List.map_filter (parent_key text_of ns) keys; free = filter (\<lambda>k. k \<notin> set parents) keys
     in if free = [] then sort keys else sort free)"

definition node_timestamp :: "(json \<Rightarrow> pystr option) \<Rightarrow> node \<Rightarrow> pystr" where
  "node_timestamp stamp n =
    (let message = (case field ''message'' n of Some (JObj m) \<Rightarrow> m | _ \<Rightarrow> []);
         raw = (case field ''create_time'' message of None \<Rightarrow> field ''create_time'' n | Some v \<Rightarrow> Some v)
     in case raw of None \<Rightarrow> [] | Some v \<Rightarrow> (case stamp v of None \<Rightarrow> [] | Some t \<Rightarrow> t))"

definition fallback_rank ::
  "(json \<Rightarrow> pystr) \<Rightarrow> (json \<Rightarrow> pystr option) \<Rightarrow> nodes \<Rightarrow> pystr \<Rightarrow> bool \<times> pystr \<times> nat \<times> pystr" where
  "fallback_rank text_of stamp ns key =
    (let b = branch text_of ns key; t = (if b = [] then [] else Max (set (map (node_timestamp stamp) b)))
     in (t \<noteq> [], t, length b, key))"

definition best_tip :: "(json \<Rightarrow> pystr) \<Rightarrow> (json \<Rightarrow> pystr option) \<Rightarrow> nodes \<Rightarrow> pystr" where
  "best_tip text_of stamp ns = snd (snd (snd (Max (set (map (fallback_rank text_of stamp ns) (tips text_of ns))))))"

definition selected_key ::
  "(json \<Rightarrow> pystr) \<Rightarrow> (json \<Rightarrow> pystr option) \<Rightarrow> nodes \<Rightarrow> json option \<Rightarrow> pystr" where
  "selected_key text_of stamp ns current =
    (case resolve text_of ns current of Some k \<Rightarrow> k | None \<Rightarrow> best_tip text_of stamp ns)"

definition chatgpt_active_branch_nodes ::
  "(json \<Rightarrow> pystr) \<Rightarrow> (json \<Rightarrow> pystr option) \<Rightarrow> (pystr \<times> json) list \<Rightarrow> json option \<Rightarrow> node list" where
  "chatgpt_active_branch_nodes text_of stamp mapping current =
    (let ns = object_nodes mapping
     in if ns = [] then [] else branch text_of ns (selected_key text_of stamp ns current))"

section \<open>The branch\<close>

text \<open>A path down from a root: distinct keys, each the parent of the next, and upwards nothing is missing:
  the first key has no parent, or one that is on the path already.\<close>

definition descends :: "(pystr \<Rightarrow> pystr option) \<Rightarrow> pystr list \<Rightarrow> bool" where
  "descends parent ks \<longleftrightarrow> distinct ks \<and> (\<forall>i. Suc i < length ks \<longrightarrow> parent (ks ! Suc i) = Some (ks ! i))"

definition rooted :: "(pystr \<Rightarrow> pystr option) \<Rightarrow> pystr list \<Rightarrow> bool" where
  "rooted parent ks \<longleftrightarrow> (case parent (hd ks) of None \<Rightarrow> True | Some p \<Rightarrow> p \<in> set ks)"

lemma descends_Cons:
  "k \<notin> set ks \<Longrightarrow> descends parent ks \<Longrightarrow> (ks = [] \<or> parent (hd ks) = Some k) \<Longrightarrow> descends parent (k # ks)"
  by (cases ks) (auto simp: descends_def nth_Cons split: nat.split)

lemma climb_path:
  assumes "\<And>k p. parent k = Some p \<Longrightarrow> p \<in> set known"
    and "descends parent seen" and "seen \<noteq> [] \<Longrightarrow> parent (hd seen) = Some key"
    and "set seen \<subseteq> set known" and "key \<in> set known"
  shows "descends parent (climb parent known seen key) \<and> rooted parent (climb parent known seen key) \<and>
         set (climb parent known seen key) \<subseteq> set known \<and> climb parent known seen key \<noteq> [] \<and>
         last (climb parent known seen key) = (if seen = [] then key else last seen)"
  using assms
proof (induction parent known seen key rule: climb.induct)
  case (1 parent known seen key)
  show ?case
  proof (cases "key \<in> set seen")
    case True
    then have "seen \<noteq> []" by auto
    with True "1.prems" show ?thesis by (subst climb.simps)+ (auto simp: rooted_def)
  next
    case new: False
    then have new': "\<not> (key \<in> set seen \<or> key \<notin> set known)" using "1.prems"(5) by simp
    have down: "descends parent (key # seen)" using descends_Cons [OF new "1.prems"(2)] "1.prems"(3) by blast
    show ?thesis
    proof (cases "parent key")
      case None
      have c: "climb parent known seen key = key # seen" using new' None by (subst climb.simps) simp
      show ?thesis unfolding c using down None "1.prems"(4,5) by (simp add: rooted_def)
    next
      case (Some p)
      have c: "climb parent known seen key = climb parent known (key # seen) p" using new' Some by (subst climb.simps) simp
      have "descends parent (climb parent known (key # seen) p) \<and> rooted parent (climb parent known (key # seen) p) \<and>
         set (climb parent known (key # seen) p) \<subseteq> set known \<and> climb parent known (key # seen) p \<noteq> [] \<and>
         last (climb parent known (key # seen) p) = (if key # seen = [] then p else last (key # seen))"
        by (rule "1.IH" [OF new' Some "1.prems"(1) down]) (use Some "1.prems" in auto)
      then show ?thesis unfolding c by simp
    qed
  qed
qed

lemma resolve_known: "resolve text_of ns ref = Some k \<Longrightarrow> k \<in> set (map fst ns)"
  by (auto simp: resolve_def references_def map_filter_set dest!: map_of_SomeD split: option.splits) force+

lemma parent_known: "parent_key text_of ns k = Some p \<Longrightarrow> p \<in> set (map fst ns)"
proof -
  assume p: "parent_key text_of ns k = Some p"
  have "set (derived_parents text_of ns k) \<subseteq> set (map fst ns)" by (force simp: derived_parents_def)
  moreover have "Min (set (derived_parents text_of ns k)) \<in> set (derived_parents text_of ns k)" if "derived_parents text_of ns k \<noteq> []"
    using that by (intro Min_in) auto
  ultimately show ?thesis
    using p by (auto simp: parent_key_def Let_def split: option.splits if_splits dest: resolve_known)
qed

lemma sort_Nil: "sort xs = [] \<longleftrightarrow> xs = []"
  by (metis length_0_conv length_sort)

lemma tips_known: "ns \<noteq> [] \<Longrightarrow> tips text_of ns \<noteq> [] \<and> set (tips text_of ns) \<subseteq> set (map fst ns)"
  by (simp add: tips_def Let_def sort_Nil)

lemma best_tip_max:
  assumes "ns \<noteq> []"
  shows "best_tip text_of stamp ns \<in> set (tips text_of ns) \<and>
    (\<forall>t\<in>set (tips text_of ns). fallback_rank text_of stamp ns t \<le> fallback_rank text_of stamp ns (best_tip text_of stamp ns))"
proof -
  let ?ranks = "set (map (fallback_rank text_of stamp ns) (tips text_of ns))"
  have "Max ?ranks \<in> ?ranks" using tips_known [OF assms, of text_of] by (intro Max_in) auto
  then obtain t where t: "t \<in> set (tips text_of ns)" "Max ?ranks = fallback_rank text_of stamp ns t" by auto
  then have "best_tip text_of stamp ns = t" by (simp add: best_tip_def fallback_rank_def Let_def)
  moreover have "fallback_rank text_of stamp ns u \<le> fallback_rank text_of stamp ns t" if "u \<in> set (tips text_of ns)" for u
    unfolding t(2) [symmetric] using that by (intro Max_ge) auto
  ultimately show ?thesis using t(1) by metis
qed

lemma selected_known:
  assumes "ns \<noteq> []"
  shows "selected_key text_of stamp ns current \<in> set (map fst ns)"
  using best_tip_max [OF assms, of text_of stamp] tips_known [OF assms, of text_of] resolve_known [of text_of ns current]
  by (auto simp: selected_key_def split: option.split)

text \<open>C29: the branch that is imported is one path of the conversation, whatever the export says. Its nodes
  are distinct, each is the parent of the next, it reaches up to a node without a parent (or to
  where the parents close a circle), and it ends in the current node when the export names one,
  otherwise in the tip whose branch has the latest timestamp, then the most nodes, then the last
  key. So the import always ends, and it takes no message twice.\<close>
theorem active_branch_is_a_path:
  assumes "object_nodes mapping \<noteq> []"
  shows "let ns = object_nodes mapping; parent = parent_key text_of ns; rank = fallback_rank text_of stamp ns in
     \<exists>ks. chatgpt_active_branch_nodes text_of stamp mapping current = map (the \<circ> map_of ns) ks \<and> ks \<noteq> [] \<and>
       set ks \<subseteq> set (map fst ns) \<and> descends parent ks \<and> rooted parent ks \<and>
       (case resolve text_of ns current of Some k \<Rightarrow> last ks = k
        | None \<Rightarrow> last ks \<in> set (tips text_of ns) \<and> (\<forall>t\<in>set (tips text_of ns). rank t \<le> rank (last ks)))"
proof -
  define ns where "ns = object_nodes mapping"
  have ne: "ns \<noteq> []" using assms(1) by (simp add: ns_def)
  define key where "key = selected_key text_of stamp ns current"
  define ks where "ks = branch_keys text_of ns key"
  have path: "descends (parent_key text_of ns) ks \<and> rooted (parent_key text_of ns) ks \<and> set ks \<subseteq> set (map fst ns) \<and> ks \<noteq> [] \<and> last ks = key"
    using climb_path [of "parent_key text_of ns" "map fst ns" "[]" key] parent_known [of text_of ns] selected_known [OF ne, of text_of stamp current]
    by (simp add: ks_def branch_keys_def key_def descends_def)
  have "List.map_filter (map_of ns) xs = map (the \<circ> map_of ns) xs" if "set xs \<subseteq> set (map fst ns)" for xs
    using that
  proof (induction xs)
    case (Cons x xs)
    then obtain v where "map_of ns x = Some v" by (metis domD dom_map_of_conv_image_fst list.set_intros(1) list.set_map subset_iff)
    with Cons show ?case by (simp add: List.map_filter_simps)
  qed (simp add: List.map_filter_simps)
  with path have nodes: "chatgpt_active_branch_nodes text_of stamp mapping current = map (the \<circ> map_of ns) ks"
    using ne unfolding chatgpt_active_branch_nodes_def Let_def ns_def [symmetric] branch_def key_def [symmetric] ks_def [symmetric] by simp
  have "case resolve text_of ns current of Some k \<Rightarrow> key = k | None \<Rightarrow> key \<in> set (tips text_of ns) \<and>
      (\<forall>t\<in>set (tips text_of ns). fallback_rank text_of stamp ns t \<le> fallback_rank text_of stamp ns key)"
    using best_tip_max [OF ne, of text_of stamp] by (auto simp: key_def selected_key_def split: option.split)
  then have "case resolve text_of ns current of Some k \<Rightarrow> last ks = k | None \<Rightarrow> last ks \<in> set (tips text_of ns) \<and>
      (\<forall>t\<in>set (tips text_of ns). fallback_rank text_of stamp ns t \<le> fallback_rank text_of stamp ns (last ks))"
    using path by metis
  with nodes path show ?thesis unfolding Let_def ns_def [symmetric] by (intro exI [of _ ks]) (metis (no_types))
qed

definition demo_mapping :: "(pystr \<times> json) list" where
  "demo_mapping = [(U ''b'', JObj [(U ''parent'', JStr (U ''root-id''))]), (U ''a'', JObj [(U ''id'', JStr (U ''root-id''))]),
     (U ''c'', JObj [(U ''parent'', JNull), (U ''create_time'', JInt 5)]),
     (U ''d'', JObj [(U ''parent'', JStr (U ''gone'')), (U ''children'', JArr [JStr (U ''c''), JStr (U ''d'')])])]"

lemma active_branch_is_a_path_witness:
  "object_nodes demo_mapping \<noteq> [] \<and>
   chatgpt_active_branch_nodes (\<lambda>_. []) (\<lambda>_. None) demo_mapping (Some (JStr (U ''b''))) =
     [[(U ''id'', JStr (U ''root-id''))], [(U ''parent'', JStr (U ''root-id''))]] \<and>
   (\<exists>ks. ks \<noteq> [] \<and> last ks = U ''b'' \<and> distinct ks)"
proof -
  have ne: "object_nodes demo_mapping \<noteq> []" by code_simp
  have b: "chatgpt_active_branch_nodes (\<lambda>_. []) (\<lambda>_. None) demo_mapping (Some (JStr (U ''b''))) =
     [[(U ''id'', JStr (U ''root-id''))], [(U ''parent'', JStr (U ''root-id''))]]" by code_simp
  have r: "resolve (\<lambda>_. []) (object_nodes demo_mapping) (Some (JStr (U ''b''))) = Some (U ''b'')" by code_simp
  from active_branch_is_a_path [OF ne, of "\<lambda>_. []" "\<lambda>_. None" "Some (JStr (U ''b''))"] ne b r show ?thesis
    by (auto simp: descends_def Let_def)
qed

text \<open>A node that lists itself as its child, and is nobody else's: the circle ends the climb.\<close>

lemma circle_ends: "chatgpt_active_branch_nodes (\<lambda>_. []) (\<lambda>_. None) demo_mapping (Some (JStr (U ''c''))) =
    [[(U ''parent'', JStr (U ''gone'')), (U ''children'', JArr [JStr (U ''c''), JStr (U ''d'')])],
     [(U ''parent'', JNull), (U ''create_time'', JInt 5)]]"
  by code_simp

end
