(* ===== verification/Import_Parse.thy ===== *)
theory Import_Parse
  imports Import_Runner Import_Branch
begin

text \<open>
  Reading conversations from JSON (server/chat_import.py): the normalization of roles and contents,
  ChatGPT's export, and the generic formats, as one document or one per line. A file is its decoded
  text, the stem of its name and the path it is shown under. Three parts of the standard library
  are parameters: \<open>text_of\<close>, the \<open>str(...)\<close> of a value that is no string; \<open>dumps\<close>, the text of a JSON
  value with sorted keys; and \<open>loads\<close>, which reads one and may fail.
\<close>

section \<open>Conversations\<close>

record conversation =
  cv_id :: pystr
  cv_title :: pystr
  cv_messages :: "chat_message list"
  cv_created :: json
  cv_updated :: json
  cv_source_path :: pystr
  cv_source_app :: pystr
  cv_source_url :: "pystr option"

text \<open>What reading a file may raise: the author of a ChatGPT message is no object, or the text is no JSON.\<close>

datatype parse_error = AuthorNotObject | NotJson

section \<open>Fields of an object\<close>

text \<open>\<open>raw.get(name)\<close>; a missing entry is a null.\<close>

definition entry :: "string \<Rightarrow> node \<Rightarrow> json" where
  "entry name n = (case map_of n (U name) of None \<Rightarrow> JNull | Some v \<Rightarrow> v)"

text \<open>\<open>raw.get(a) or raw.get(b) or ...\<close>\<close>

fun first_entry :: "string list \<Rightarrow> node \<Rightarrow> json" where
  "first_entry [] n = JNull"
| "first_entry [k] n = entry k n"
| "first_entry (k # ks) n = (if json_truthy (entry k n) then entry k n else first_entry ks n)"

definition json_or :: "json \<Rightarrow> json \<Rightarrow> json" where
  "json_or v w = (if json_truthy v then v else w)"

text \<open>\<open>str(value or default)\<close> for a text as the default.\<close>

definition text_or :: "(json \<Rightarrow> pystr) \<Rightarrow> json \<Rightarrow> pystr \<Rightarrow> pystr" where
  "text_or text_of v otherwise = (if json_truthy v then str_of text_of v else otherwise)"

text \<open>The value of the first of several keys the object has.\<close>

fun first_present :: "string list \<Rightarrow> node \<Rightarrow> json option" where
  "first_present [] n = None"
| "first_present (k # ks) n = (case map_of n (U k) of Some v \<Rightarrow> Some v | None \<Rightarrow> first_present ks n)"

fun decimal :: "nat \<Rightarrow> pystr" where
  "decimal n = (if n < 10 then [48 + int n] else decimal (n div 10) @ [48 + int (n mod 10)])"

declare decimal.simps [simp del]

section \<open>Roles and contents\<close>

definition role_map :: "(pystr \<times> pystr) list" where
  "role_map =
    (let assistant = U ''assistant''; user = U ''user''; system = U ''system''
     in [(U ''assistant'', assistant), (U ''ai'', assistant), (U ''bot'', assistant), (U ''chatgpt'', assistant),
         (U ''claude'', assistant), (U ''gemini'', assistant), (U ''model'', assistant), (U ''doubao'', assistant),
         ([0x8C46, 0x5305], assistant), ([0x52A9, 0x624B], assistant), (U ''human'', user), (U ''me'', user),
         (U ''sender'', user), (U ''user'', user), (U ''you'', user), ([0x7528, 0x6237], user), ([0x6211], user),
         (U ''developer'', system), (U ''system'', system), ([0x7CFB, 0x7EDF], system)])"

definition normalize_role :: "(json \<Rightarrow> pystr) \<Rightarrow> json \<Rightarrow> pystr" where
  "normalize_role text_of v =
    (case map_of role_map (lower_text (py_strip (text_or text_of v (U ''user'')))) of None \<Rightarrow> U ''user'' | Some r \<Rightarrow> r)"

lemma entry_size: "map_of kvs k = Some v \<Longrightarrow> size v < size (JObj kvs)"
proof -
  assume "map_of kvs k = Some v"
  then have "size_prod (\<lambda>x. 0) size (k, v) \<le> size_list (size_prod (\<lambda>x. 0) size) kvs"
    by (intro size_list_estimation') (auto dest: map_of_SomeD)
  then show ?thesis by simp
qed

lemma first_present_size: "first_present ks kvs = Some v \<Longrightarrow> size v < size (JObj kvs)"
  by (induction ks) (auto dest: entry_size split: option.splits)

definition newline :: pystr where
  "newline = [10]"

function stringify_content :: "(json \<Rightarrow> pystr) \<Rightarrow> (json \<Rightarrow> pystr) \<Rightarrow> json \<Rightarrow> pystr" where
  "stringify_content text_of dumps v =
    (case v of
       JNull \<Rightarrow> []
     | JStr s \<Rightarrow> py_strip s
     | JArr vs \<Rightarrow> py_strip (join_with newline (filter (\<lambda>p. p \<noteq> []) (map (stringify_content text_of dumps) vs)))
     | JObj n \<Rightarrow>
         (case first_present [''text'', ''content'', ''value'', ''message''] n of
            Some w \<Rightarrow> stringify_content text_of dumps w
          | None \<Rightarrow>
              (case (if entry ''type'' n = JStr (U ''text'') then map_of n (U ''parts'') else None) of
                 Some w \<Rightarrow> stringify_content text_of dumps w
               | None \<Rightarrow> dumps (JObj n)))
     | _ \<Rightarrow> py_strip (text_of v))"
  by pat_completeness auto

termination stringify_content
proof (relation "measure (\<lambda>(text_of, dumps, v). size v)", goal_cases)
  case (2 text_of dumps v vs w)
  then have "size w \<le> size_list size vs" by (intro size_list_estimation') auto
  with 2 show ?case by simp
next
  case (3 text_of dumps v n)
  then show ?case using entry_size [of n "U ''parts''"] by (simp split: if_splits)
next
  case (4 text_of dumps v n w)
  from first_present_size [OF 4(2)] 4(1) show ?case by simp
qed simp

declare stringify_content.simps [simp del]

section \<open>ChatGPT's export\<close>

definition content_from_chatgpt_message :: "(json \<Rightarrow> pystr) \<Rightarrow> (json \<Rightarrow> pystr) \<Rightarrow> node \<Rightarrow> pystr" where
  "content_from_chatgpt_message text_of dumps message =
    (let content = json_or (entry ''content'' message) (JObj [])
     in stringify_content text_of dumps
          (case content of
             JObj n \<Rightarrow> (case first_present [''parts'', ''text''] n of Some v \<Rightarrow> v | None \<Rightarrow> content)
           | _ \<Rightarrow> content))"

text \<open>The message of a node; \<open>None\<close> when the node has none to import.\<close>

definition chatgpt_message ::
  "(json \<Rightarrow> pystr) \<Rightarrow> (json \<Rightarrow> pystr) \<Rightarrow> node \<Rightarrow> parse_error + chat_message option" where
  "chatgpt_message text_of dumps n =
    (case entry ''message'' n of
       JObj message \<Rightarrow>
         (case json_or (entry ''author'' message) (JObj []) of
            JObj author \<Rightarrow>
              (let role = normalize_role text_of (entry ''role'' author);
                   content = content_from_chatgpt_message text_of dumps message
               in if role \<in> {U ''user'', U ''assistant''} \<and> content \<noteq> []
                  then Inr (Some (new_message role content (entry ''create_time'' message) None 0))
                  else Inr None)
          | _ \<Rightarrow> Inl AuthorNotObject)
     | _ \<Rightarrow> Inr None)"

definition somes :: "'a option list \<Rightarrow> 'a list" where
  "somes xs = List.map_filter (\<lambda>x. x) xs"

definition chatgpt_conversation ::
  "(json \<Rightarrow> pystr) \<Rightarrow> (json \<Rightarrow> pystr) \<Rightarrow> (json \<Rightarrow> pystr option) \<Rightarrow> pystr \<Rightarrow> pystr \<Rightarrow> pystr \<Rightarrow> nat \<times> json
   \<Rightarrow> parse_error + conversation option" where
  "chatgpt_conversation text_of dumps stamp stem source_app source_path = (\<lambda>(index, item).
    (case item of
       JObj n \<Rightarrow>
         (case entry ''mapping'' n of
            JObj mapping \<Rightarrow>
              bind_err (collect (map (chatgpt_message text_of dumps)
                  (chatgpt_active_branch_nodes text_of stamp mapping (field ''current_node'' n))))
                (\<lambda>found.
                  let ms = somes found
                  in if ms = [] then Inr None
                     else Inr (Some \<lparr>cv_id = text_or text_of (entry ''id'' n) (U ''chatgpt-'' @ decimal index),
                            cv_title = text_or text_of (entry ''title'' n) stem, cv_messages = ms,
                            cv_created = json_or (entry ''create_time'' n) (cm_created (hd ms)),
                            cv_updated = entry ''update_time'' n, cv_source_path = source_path,
                            cv_source_app = source_app, cv_source_url = None\<rparr>))
          | _ \<Rightarrow> Inr None)
     | _ \<Rightarrow> Inr None))"

definition has_mapping :: "json \<Rightarrow> bool" where
  "has_mapping item = (case item of JObj n \<Rightarrow> map_of n (U ''mapping'') \<noteq> None | _ \<Rightarrow> False)"

definition parse_chatgpt_export ::
  "(json \<Rightarrow> pystr) \<Rightarrow> (json \<Rightarrow> pystr) \<Rightarrow> (json \<Rightarrow> pystr option) \<Rightarrow> json \<Rightarrow> pystr \<Rightarrow> pystr \<Rightarrow> pystr
   \<Rightarrow> parse_error + conversation list" where
  "parse_chatgpt_export text_of dumps stamp data stem source_app source_path =
    (case data of
       JArr items \<Rightarrow>
         if list_ex has_mapping items
         then bind_err (collect (map (chatgpt_conversation text_of dumps stamp stem source_app source_path) (enumerate 0 items)))
                (\<lambda>found. Inr (somes found))
         else Inr []
     | _ \<Rightarrow> Inr [])"

section \<open>Generic formats\<close>

definition message_from_generic :: "(json \<Rightarrow> pystr) \<Rightarrow> (json \<Rightarrow> pystr) \<Rightarrow> json \<Rightarrow> chat_message option" where
  "message_from_generic text_of dumps raw =
    (case raw of
       JStr s \<Rightarrow> let content = py_strip s in if content = [] then None else Some (new_message (U ''user'') content JNull None 0)
     | JObj n \<Rightarrow>
         (let role = normalize_role text_of (first_entry [''role'', ''sender'', ''author'', ''from''] n);
              content = (case first_present [''content'', ''text'', ''message'', ''body'', ''data''] n of
                           None \<Rightarrow> [] | Some v \<Rightarrow> stringify_content text_of dumps v);
              created = first_entry [''created_at'', ''create_time'', ''timestamp'', ''time'', ''date''] n
          in if content = [] then None else Some (new_message role content created None 0))
     | _ \<Rightarrow> None)"

definition conversation_from_generic ::
  "(json \<Rightarrow> pystr) \<Rightarrow> (json \<Rightarrow> pystr) \<Rightarrow> json \<Rightarrow> pystr \<Rightarrow> pystr \<Rightarrow> pystr \<Rightarrow> pystr \<Rightarrow> conversation option" where
  "conversation_from_generic text_of dumps raw stem source_app source_path fallback_id =
    (case raw of
       JObj n \<Rightarrow>
         (case first_entry [''messages'', ''chat_messages'', ''turns'', ''items''] n of
            JArr raw_messages \<Rightarrow>
              (let ms = somes (map (message_from_generic text_of dumps) raw_messages)
               in if ms = [] then None
                  else Some \<lparr>cv_id = text_or text_of (first_entry [''id'', ''uuid'', ''conversation_id''] n) fallback_id,
                             cv_title = text_or text_of (first_entry [''title'', ''name'', ''summary''] n) stem,
                             cv_messages = ms,
                             cv_created = json_or (first_entry [''created_at'', ''create_time'', ''timestamp''] n) (cm_created (hd ms)),
                             cv_updated = first_entry [''updated_at'', ''update_time''] n,
                             cv_source_path = source_path, cv_source_app = source_app, cv_source_url = None\<rparr>)
          | _ \<Rightarrow> None)
     | _ \<Rightarrow> None)"

text \<open>The loop both generic readers have over numbered values: conversations, and the messages that stand alone.\<close>

definition generic_step ::
  "(json \<Rightarrow> pystr) \<Rightarrow> (json \<Rightarrow> pystr) \<Rightarrow> pystr \<Rightarrow> pystr \<Rightarrow> pystr \<Rightarrow> nat \<times> json
   \<Rightarrow> conversation list \<times> chat_message list \<Rightarrow> conversation list \<times> chat_message list" where
  "generic_step text_of dumps stem source_app source_path = (\<lambda>(index, item) (cs, loose).
    (case conversation_from_generic text_of dumps item stem source_app source_path (stem @ U ''-'' @ decimal index) of
       Some c \<Rightarrow> (cs @ [c], loose)
     | None \<Rightarrow> (case message_from_generic text_of dumps item of Some m \<Rightarrow> (cs, loose @ [m]) | None \<Rightarrow> (cs, loose))))"

definition with_loose :: "pystr \<Rightarrow> pystr \<Rightarrow> pystr \<Rightarrow> conversation list \<times> chat_message list \<Rightarrow> conversation list" where
  "with_loose stem source_app source_path = (\<lambda>(cs, loose).
    if loose = [] then cs
    else cs @ [\<lparr>cv_id = stem, cv_title = stem, cv_messages = loose, cv_created = cm_created (hd loose), cv_updated = JNull,
                cv_source_path = source_path, cv_source_app = source_app, cv_source_url = None\<rparr>])"

definition candidates :: "json \<Rightarrow> json list" where
  "candidates data =
    (case data of
       JObj n \<Rightarrow>
         (case (entry ''conversations'' n, entry ''data'' n) of
            (JArr cs, _) \<Rightarrow> cs
          | (_, JArr cs) \<Rightarrow> cs
          | _ \<Rightarrow> [data])
     | JArr items \<Rightarrow> items
     | _ \<Rightarrow> [])"

definition parse_json_data ::
  "(json \<Rightarrow> pystr) \<Rightarrow> (json \<Rightarrow> pystr) \<Rightarrow> (json \<Rightarrow> pystr option) \<Rightarrow> json \<Rightarrow> pystr \<Rightarrow> pystr \<Rightarrow> pystr
   \<Rightarrow> parse_error + conversation list" where
  "parse_json_data text_of dumps stamp data stem source_app source_path =
    bind_err (parse_chatgpt_export text_of dumps stamp data stem source_app source_path)
      (\<lambda>chatgpt.
        if chatgpt \<noteq> [] then Inr chatgpt
        else Inr (with_loose stem source_app source_path
          (fold (generic_step text_of dumps stem source_app source_path) (enumerate 0 (candidates data)) ([], []))))"

text \<open>\<open>str.splitlines\<close>: the line boundaries of Unicode, of which \<open>\r\n\<close> is one.\<close>

definition line_break :: "int \<Rightarrow> bool" where
  "line_break c = (c \<in> {10, 11, 12, 13, 28, 29, 30, 0x85, 0x2028, 0x2029})"

fun split_lines :: "pystr \<Rightarrow> pystr \<Rightarrow> pystr list" where
  "split_lines line [] = (if line = [] then [] else [line])"
| "split_lines line (c # cs) =
    (if \<not> line_break c then split_lines (line @ [c]) cs
     else if c = 13 \<and> cs \<noteq> [] \<and> hd cs = 10 then line # split_lines [] (tl cs)
     else line # split_lines [] cs)"

definition splitlines :: "pystr \<Rightarrow> pystr list" where
  "splitlines s = split_lines [] s"

text \<open>The lines that are not blank, with the numbers they have among all lines.\<close>

definition jsonl_values :: "(pystr \<Rightarrow> json option) \<Rightarrow> pystr \<Rightarrow> parse_error + (nat \<times> json) list" where
  "jsonl_values loads s =
    collect (map (\<lambda>(i, line). case loads line of None \<Rightarrow> Inl NotJson | Some v \<Rightarrow> Inr (i, v))
      (filter (\<lambda>(i, line). py_strip line \<noteq> []) (enumerate 0 (splitlines s))))"

definition parse_jsonl_file ::
  "(json \<Rightarrow> pystr) \<Rightarrow> (json \<Rightarrow> pystr) \<Rightarrow> (pystr \<Rightarrow> json option) \<Rightarrow> pystr \<Rightarrow> pystr \<Rightarrow> pystr \<Rightarrow> pystr
   \<Rightarrow> parse_error + conversation list" where
  "parse_jsonl_file text_of dumps loads content stem source_app source_path =
    bind_err (jsonl_values loads content)
      (\<lambda>values. Inr (with_loose stem source_app source_path
        (fold (generic_step text_of dumps stem source_app source_path) values ([], []))))"

definition parse_json_file ::
  "(json \<Rightarrow> pystr) \<Rightarrow> (json \<Rightarrow> pystr) \<Rightarrow> (json \<Rightarrow> pystr option) \<Rightarrow> (pystr \<Rightarrow> json option) \<Rightarrow> pystr \<Rightarrow> pystr \<Rightarrow> pystr \<Rightarrow> pystr
   \<Rightarrow> parse_error + conversation list" where
  "parse_json_file text_of dumps stamp loads content stem source_app source_path =
    (case loads content of
       None \<Rightarrow> Inl NotJson
     | Some data \<Rightarrow> parse_json_data text_of dumps stamp data stem source_app source_path)"

end
