(* ===== verification/Py_Regex.thy ===== *)
theory Py_Regex
  imports Chat_Text
begin

text \<open>
  Python's regular expressions, as far as the import uses them. An expression is its syntax tree;
  matching lists all ways to match in the order in which the backtracking engine of \<open>re\<close> tries them,
  so that the first one is the match. Repeated bodies never match the empty text here, so the engine's
  rule for empty repetitions is not needed: every repetition consumes. Which characters are
  letters or numbers (\<open>\w\<close>) is a question to the Unicode database, and a parameter of the patterns that ask it.
\<close>

section \<open>Matching\<close>

text \<open>Where a match attempt stands: the text behind, last character first, the text ahead, and the groups,
  the last one set first.\<close>

record scan =
  sc_behind :: pystr
  sc_ahead :: pystr
  sc_groups :: "(nat \<times> pystr) list"

datatype regex =
    Sat "int \<Rightarrow> bool"
  | Nothing
  | Seq regex regex
  | Or regex regex
  | Rep bool nat "nat option" regex
  | Grp nat regex
  | Edge "pystr \<Rightarrow> pystr \<Rightarrow> bool"

definition shorter :: "scan \<Rightarrow> scan \<Rightarrow> bool" where
  "shorter st st' = (length (sc_ahead st') < length (sc_ahead st))"

text \<open>A repetition of a step, greedy or lazy, between a lower and an upper number. The fuel is the length of the
  text ahead, which every repetition shortens.\<close>

fun repeat :: "bool \<Rightarrow> (scan \<Rightarrow> scan list) \<Rightarrow> nat \<Rightarrow> nat \<Rightarrow> nat option \<Rightarrow> scan \<Rightarrow> scan list" where
  "repeat greedy f fuel least most st =
    (let stop = (if least = 0 then [st] else []);
         more = (case fuel of
                   0 \<Rightarrow> []
                 | Suc n \<Rightarrow> if most = Some 0 then []
                            else concat (map (repeat greedy f n (least - 1) (map_option (\<lambda>k. k - 1) most)) (filter (shorter st) (f st))))
     in if greedy then more @ stop else stop @ more)"

declare repeat.simps [simp del]

definition set_group :: "nat \<Rightarrow> scan \<Rightarrow> scan \<Rightarrow> scan" where
  "set_group k st st' =
    st'\<lparr>sc_groups := (k, rev (take (length (sc_behind st') - length (sc_behind st)) (sc_behind st'))) # sc_groups st'\<rparr>"

primrec matches :: "regex \<Rightarrow> scan \<Rightarrow> scan list" where
  "matches (Sat p) st =
    (case sc_ahead st of
       [] \<Rightarrow> []
     | c # cs \<Rightarrow> if p c then [st\<lparr>sc_behind := c # sc_behind st, sc_ahead := cs\<rparr>] else [])"
| "matches Nothing st = [st]"
| "matches (Seq r s) st = concat (map (matches s) (matches r st))"
| "matches (Or r s) st = matches r st @ matches s st"
| "matches (Rep greedy least most r) st = repeat greedy (matches r) (length (sc_ahead st)) least most st"
| "matches (Grp k r) st = map (set_group k st) (matches r st)"
| "matches (Edge p) st = (if p (sc_behind st) (sc_ahead st) then [st] else [])"

definition re_at :: "regex \<Rightarrow> pystr \<Rightarrow> pystr \<Rightarrow> scan option" where
  "re_at r behind ahead =
    (case matches r \<lparr>sc_behind = behind, sc_ahead = ahead, sc_groups = []\<rparr> of [] \<Rightarrow> None | st # _ \<Rightarrow> Some st)"

text \<open>\<open>pattern.match\<close>, \<open>pattern.search\<close> and the groups of a match; a group that took no part is empty here.\<close>

definition re_match :: "regex \<Rightarrow> pystr \<Rightarrow> scan option" where
  "re_match r s = re_at r [] s"

fun re_find :: "regex \<Rightarrow> pystr \<Rightarrow> pystr \<Rightarrow> scan option" where
  "re_find r behind [] = re_at r behind []"
| "re_find r behind (c # cs) = (case re_at r behind (c # cs) of Some st \<Rightarrow> Some st | None \<Rightarrow> re_find r (c # behind) cs)"

definition re_search :: "regex \<Rightarrow> pystr \<Rightarrow> scan option" where
  "re_search r s = re_find r [] s"

definition re_group :: "nat \<Rightarrow> scan \<Rightarrow> pystr" where
  "re_group k st = (case map_of (sc_groups st) k of None \<Rightarrow> [] | Some s \<Rightarrow> s)"

text \<open>\<open>pattern.sub\<close>, for patterns that never match the empty text: after a match the search goes on behind it.\<close>

function re_replace :: "regex \<Rightarrow> (scan \<Rightarrow> pystr) \<Rightarrow> pystr \<Rightarrow> pystr \<Rightarrow> pystr" where
  "re_replace r f behind [] = []"
| "re_replace r f behind (c # cs) =
    (case re_at r behind (c # cs) of
       None \<Rightarrow> c # re_replace r f (c # behind) cs
     | Some st \<Rightarrow>
         if length (sc_ahead st) < length (c # cs) then f st @ re_replace r f (sc_behind st) (sc_ahead st)
         else c # re_replace r f (c # behind) cs)"
  by pat_completeness auto
termination by (relation "measure (\<lambda>(r, f, behind, ahead). length ahead)") auto

definition re_sub :: "regex \<Rightarrow> (scan \<Rightarrow> pystr) \<Rightarrow> pystr \<Rightarrow> pystr" where
  "re_sub r f s = re_replace r f [] s"

section \<open>Building patterns\<close>

fun seqs :: "regex list \<Rightarrow> regex" where
  "seqs [] = Nothing"
| "seqs [r] = r"
| "seqs (r # rs) = Seq r (seqs rs)"

fun ors :: "regex list \<Rightarrow> regex" where
  "ors [] = Sat (\<lambda>_. False)"
| "ors [r] = r"
| "ors (r # rs) = Or r (ors rs)"

definition many :: "(int \<Rightarrow> bool) \<Rightarrow> regex" where "many p = Rep True 0 None (Sat p)"
definition many1 :: "(int \<Rightarrow> bool) \<Rightarrow> regex" where "many1 p = Rep True 1 None (Sat p)"
definition optional :: "regex \<Rightarrow> regex" where "optional r = Rep True 0 (Some 1) r"
definition counted :: "nat \<Rightarrow> nat \<Rightarrow> regex \<Rightarrow> regex" where "counted m n r = Rep True m (Some n) r"
definition at_least :: "nat \<Rightarrow> (int \<Rightarrow> bool) \<Rightarrow> regex" where "at_least m p = Rep True m None (Sat p)"

definition lit :: "string \<Rightarrow> regex" where
  "lit s = seqs (map (\<lambda>c. Sat (\<lambda>d. d = of_char c)) s)"

definition one_of :: "string \<Rightarrow> int \<Rightarrow> bool" where
  "one_of s c = (c \<in> set (U s))"

text \<open>\<open>re.IGNORECASE\<close>: a character that matches a lower-case ASCII letter is that letter, its capital, or one of the
  letters Unicode folds to it.\<close>

definition fold_case :: "int \<Rightarrow> int" where
  "fold_case c =
    (if 65 \<le> c \<and> c \<le> 90 then c + 32
     else if c = 0x130 \<or> c = 0x131 then 105 else if c = 0x17F then 115 else if c = 0x212A then 107 else c)"

definition lit_ci :: "pystr \<Rightarrow> regex" where
  "lit_ci s = seqs (map (\<lambda>p. Sat (\<lambda>c. fold_case c = p)) s)"

definition letter_ci :: "int \<Rightarrow> bool" where
  "letter_ci c = ascii_letter (fold_case c)"

text \<open>\<open>^\<close>, \<open>$\<close>, the former with \<open>re.MULTILINE\<close>, and \<open>\b\<close>. The dot is every character but the newline.\<close>

definition text_start :: regex where
  "text_start = Edge (\<lambda>behind ahead. behind = [])"

definition line_start :: regex where
  "line_start = Edge (\<lambda>behind ahead. behind = [] \<or> hd behind = 10)"

definition text_end :: regex where
  "text_end = Edge (\<lambda>behind ahead. ahead = [] \<or> ahead = [10])"

definition word_char :: "(int \<Rightarrow> bool) \<Rightarrow> int \<Rightarrow> bool" where
  "word_char alnum c = (alnum c \<or> c = 95)"

definition word_edge :: "(int \<Rightarrow> bool) \<Rightarrow> regex" where
  "word_edge alnum =
    Edge (\<lambda>behind ahead. (behind \<noteq> [] \<and> word_char alnum (hd behind)) \<noteq> (ahead \<noteq> [] \<and> word_char alnum (hd ahead)))"

definition any_char :: "int \<Rightarrow> bool" where
  "any_char c = (c \<noteq> 10)"

section \<open>What a match is\<close>

text \<open>A match moves over the text: it takes a part from what is ahead and puts it behind.\<close>

definition moves :: "scan \<Rightarrow> scan \<Rightarrow> bool" where
  "moves st st' \<longleftrightarrow> (\<exists>taken. sc_ahead st = taken @ sc_ahead st' \<and> sc_behind st' = rev taken @ sc_behind st)"

lemma moves_refl [simp]: "moves st st"
  by (simp add: moves_def)

lemma moves_trans: "moves st st' \<Longrightarrow> moves st' st'' \<Longrightarrow> moves st st''"
  by (fastforce simp: moves_def)

lemma moves_set_group [simp]: "moves st (set_group k a st') = moves st st'"
  by (simp add: moves_def set_group_def)

lemma repeat_moves:
  assumes "\<And>st st'. st' \<in> set (f st) \<Longrightarrow> moves st st'" and "st' \<in> set (repeat greedy f fuel least most st)"
  shows "moves st st'"
  using assms(2)
proof (induction fuel arbitrary: least most st)
  case 0
  then show ?case by (auto simp: repeat.simps [of greedy f 0] Let_def split: if_splits)
next
  case (Suc n)
  from Suc.prems consider "st' = st"
    | u l m where "u \<in> set (f st)" "st' \<in> set (repeat greedy f n l m u)"
    by (subst (asm) repeat.simps) (auto simp: Let_def split: if_splits)
  then show ?case
  proof cases
    case 2
    from 2(1) have "moves st u" by (rule assms(1))
    from this Suc.IH [OF 2(2)] show ?thesis by (rule moves_trans)
  qed simp
qed

lemma matches_moves: "st' \<in> set (matches r st) \<Longrightarrow> moves st st'"
proof (induction r arbitrary: st st')
  case (Sat p)
  then show ?case by (auto simp: moves_def split: list.splits if_splits)
next
  case (Seq r s)
  from Seq.prems obtain u where "u \<in> set (matches r st)" "st' \<in> set (matches s u)" by auto
  then show ?case using Seq.IH moves_trans by blast
next
  case (Rep greedy least most r)
  from Rep.prems show ?case
    by (auto intro: repeat_moves [where f = "matches r"] Rep.IH)
qed (auto split: if_splits)

lemma re_at_moves: "re_at r behind ahead = Some st \<Longrightarrow> \<exists>taken. ahead = taken @ sc_ahead st \<and> sc_behind st = rev taken @ behind"
  using matches_moves [of st r "\<lparr>sc_behind = behind, sc_ahead = ahead, sc_groups = []\<rparr>"]
  by (auto simp: re_at_def moves_def split: list.splits)

end
