(* ===== verification/Import_Transcript.thy ===== *)
theory Import_Transcript
  imports Import_Parse Py_Regex
begin

text \<open>
  Reading conversations from Markdown and plain text (server/chat_import.py, \<open>parse_text_file\<close>): the
  patterns that mark a speaker, a title, a source and a time, and the loop over the lines that they
  steer. \<open>alnum\<close> says which characters the Unicode database counts as letters or numbers.
\<close>

section \<open>Patterns\<close>

definition spaces :: regex where "spaces = many is_space"
definition spaces1 :: regex where "spaces1 = many1 is_space"
definition bold :: regex where "bold = optional (Or (lit ''**'') (lit ''__''))"
definition hashes :: regex where "hashes = counted 1 6 (lit ''#'')"
definition quote_mark :: regex where "quote_mark = optional (Seq (lit ''>'') spaces)"
definition colon :: "int \<Rightarrow> bool" where "colon c = (c = 58 \<or> c = 0xFF1A)"
definition opt_colon :: regex where "opt_colon = optional (Sat colon)"
definition rest_of_line :: regex where "rest_of_line = Seq (Grp 2 (many any_char)) text_end"

text \<open>\<open>ROLE_LABEL_PATTERN\<close>: the labels of the role map, longer ones first.\<close>

definition role_labels :: "pystr list" where
  "role_labels = sort_key (\<lambda>s. - int (length s)) (map fst role_map)"

definition role_label :: regex where
  "role_label = Grp 1 (ors (map lit_ci role_labels))"

definition bracket_role_re :: regex where
  "bracket_role_re =
    seqs [text_start, spaces, quote_mark, optional (Seq hashes spaces), bold, spaces, lit ''['', spaces, role_label, spaces,
          lit '']'', spaces, bold, spaces, opt_colon, spaces, rest_of_line]"

definition heading_role_re :: regex where
  "heading_role_re =
    seqs [text_start, spaces, quote_mark, hashes, spaces1, bold, spaces, role_label, spaces, bold, spaces, opt_colon, spaces,
          bold, spaces, rest_of_line]"

definition prefix_role_re :: regex where
  "prefix_role_re =
    seqs [text_start, spaces, quote_mark, optional (Seq (Sat (one_of ''-*+'')) spaces1), bold, spaces, role_label, spaces, bold,
          spaces, Sat colon, spaces, bold, spaces, rest_of_line]"

definition plugin_call :: regex where
  "plugin_call =
    seqs [lit_ci (U ''plugin''), spaces, lit ''('', counted 0 200 (Sat (\<lambda>c. c \<noteq> 13 \<and> c \<noteq> 10 \<and> c \<noteq> 41)), lit '')'']"

definition plugin_role_re :: regex where
  "plugin_role_re =
    seqs [text_start, spaces, quote_mark, hashes, spaces1, bold, spaces, plugin_call, spaces, bold, spaces, opt_colon, spaces,
          rest_of_line]"

definition chatgpt_marker_re :: regex where
  "chatgpt_marker_re =
    seqs [line_start, spaces, hashes, spaces1, bold, spaces, ors [lit_ci (U ''you''), lit_ci (U ''chatgpt''), plugin_call],
          spaces, bold, spaces, opt_colon]"

definition doubao_marker_re :: regex where
  "doubao_marker_re =
    seqs [line_start, spaces, hashes, spaces1, bold, spaces, lit ''['', spaces,
          ors [Seq (Sat (\<lambda>c. c = 0x7528)) (Sat (\<lambda>c. c = 0x6237)), lit_ci (U ''ai'')], spaces, lit '']'']"

text \<open>A date: four digits, then one or two and one or two.\<close>

definition date_digits :: regex where
  "date_digits =
    seqs [counted 4 4 (Sat is_digit), lit ''-'', counted 1 2 (Sat is_digit), lit ''-'', counted 1 2 (Sat is_digit)]"

definition inline_timestamp_re :: regex where
  "inline_timestamp_re =
    seqs [text_start, spaces, lit ''['',
          Grp 1 (Seq date_digits (optional (Seq (Sat (\<lambda>c. c = 84 \<or> is_space c)) (many1 (\<lambda>c. c \<noteq> 93))))),
          lit '']'', spaces, Grp 2 (many1 any_char), text_end]"

definition time_tag_re :: "(int \<Rightarrow> bool) \<Rightarrow> regex" where
  "time_tag_re alnum =
    seqs [lit_ci (U ''<time''), word_edge alnum, many (\<lambda>c. c \<noteq> 62), word_edge alnum, lit_ci (U ''datetime=''),
          Sat (\<lambda>c. c = 34 \<or> c = 39), Grp 1 (many1 (\<lambda>c. c \<noteq> 34 \<and> c \<noteq> 39)), Sat (\<lambda>c. c = 34 \<or> c = 39),
          many (\<lambda>c. c \<noteq> 62), lit ''>'', Rep False 0 None (Sat any_char), lit_ci (U ''</time>'')]"

definition title_re :: regex where
  "title_re =
    seqs [text_start, spaces, lit ''#'', spaces1, Grp 1 (Rep False 1 None (Sat any_char)), spaces, text_end]"

definition source_url_re :: regex where
  "source_url_re =
    seqs [text_start, spaces, lit ''>'', spaces,
          ors [Seq (Sat (\<lambda>c. c = 0x6765)) (Sat (\<lambda>c. c = 0x6E90)), lit_ci (U ''source''), lit_ci (U ''url'')], spaces, Sat colon, spaces,
          Grp 1 (seqs [lit_ci (U ''http''), optional (lit_ci (U ''s'')), lit ''://'',
                       many1 (\<lambda>c. \<not> (is_space c \<or> c \<in> {62, 41, 34, 39}))])]"

definition frontmatter_date_re :: regex where
  "frontmatter_date_re =
    seqs [text_start, spaces,
          Grp 1 (ors (map (\<lambda>k. lit_ci (U k))
            [''created_at'', ''create_time'', ''created'', ''date'', ''timestamp'', ''updated_at'', ''update_time''])),
          spaces, lit '':'', spaces, Grp 2 (Rep False 1 None (Sat any_char)), spaces, text_end]"

definition emphasized_re :: regex where
  "emphasized_re =
    seqs [text_start, Or (lit ''**'') (lit ''__''), Grp 1 (Rep False 0 None (Sat any_char)), Or (lit ''**'') (lit ''__''), text_end]"

definition strip_inline_markdown :: "pystr \<Rightarrow> pystr" where
  "strip_inline_markdown value = py_strip (re_sub emphasized_re (re_group 1) (py_strip value))"

section \<open>Speakers\<close>

fun first_match :: "regex list \<Rightarrow> pystr \<Rightarrow> scan option" where
  "first_match [] s = None"
| "first_match (r # rs) s = (case re_match r s of Some m \<Rightarrow> Some m | None \<Rightarrow> first_match rs s)"

text \<open>The role, the text behind the marker and the time of a line that begins a message.\<close>

definition parse_role_marker :: "pystr \<Rightarrow> (pystr \<times> pystr \<times> pystr option) option" where
  "parse_role_marker line =
    (let (timestamp, candidate) =
           (case re_match inline_timestamp_re line of
              Some m \<Rightarrow> (Some (re_group 1 m), re_group 2 m)
            | None \<Rightarrow> (None, line))
     in case re_match plugin_role_re candidate of
          Some m \<Rightarrow> Some (U ''assistant'', py_strip (re_group 2 m), timestamp)
        | None \<Rightarrow>
            (case first_match [bracket_role_re, heading_role_re, prefix_role_re] candidate of
               Some m \<Rightarrow> Some (normalize_role (\<lambda>_. []) (JStr (re_group 1 m)), py_strip (re_group 2 m), timestamp)
             | None \<Rightarrow> None))"

definition source_names :: "pystr list" where
  "source_names =
    map U [''chatgpt'', ''doubao'', ''openai'', ''claude'', ''gemini'', ''cursor'', ''codex'', ''trae'', ''hermes'', ''qclaw'']"

definition detect_source_app :: "pystr \<Rightarrow> pystr option \<Rightarrow> pystr" where
  "detect_source_app path explicit =
    (case (if explicit = Some [] \<or> explicit = Some (U ''auto'') then None else explicit) of
       Some e \<Rightarrow> lower_text (py_strip e)
     | None \<Rightarrow>
         (case find (\<lambda>name. contains name (lower_text path)) source_names of
            Some name \<Rightarrow> if name = U ''openai'' then U ''chatgpt'' else name
          | None \<Rightarrow> U ''generic''))"

section \<open>The lines of a transcript\<close>

record transcript =
  ts_messages :: "chat_message list"
  ts_role :: "pystr option"
  ts_created :: "pystr option"
  ts_lines :: "pystr list"
  ts_title :: pystr
  ts_url :: "pystr option"
  ts_front_created :: "pystr option"
  ts_front_updated :: "pystr option"
  ts_front :: bool

definition blank :: "pystr \<Rightarrow> bool" where
  "blank line = (py_strip line = [])"

definition rule_line :: "pystr \<Rightarrow> bool" where
  "rule_line line = (py_strip line \<in> {U ''---'', U ''***'', U ''___''})"

text \<open>The end of a message's lines, from the last one: blank lines, and rules with the blank lines around them.\<close>

definition trim_end :: "pystr list \<Rightarrow> pystr list" where
  "trim_end ls = rev (dropWhile (\<lambda>l. blank l \<or> rule_line l) (rev ls))"

definition optional_text :: "pystr option \<Rightarrow> json" where
  "optional_text x = (case x of None \<Rightarrow> JNull | Some s \<Rightarrow> JStr s)"

definition flush :: "transcript \<Rightarrow> transcript" where
  "flush t =
    (let content = py_strip (join_with newline (trim_end (ts_lines t)))
     in t\<lparr>ts_messages := (case ts_role t of
            Some role \<Rightarrow> if role \<noteq> [] \<and> content \<noteq> []
                         then ts_messages t @ [new_message role content (optional_text (ts_created t)) None 0]
                         else ts_messages t
          | None \<Rightarrow> ts_messages t),
          ts_role := None, ts_created := None, ts_lines := []\<rparr>)"

definition front_line :: "pystr \<Rightarrow> transcript \<Rightarrow> transcript" where
  "front_line line t =
    (if py_strip line = U ''---'' then t\<lparr>ts_front := False\<rparr>
     else case re_match frontmatter_date_re line of
            None \<Rightarrow> t
          | Some m \<Rightarrow>
              if take 6 (lower_text (re_group 1 m)) = U ''update'' then t\<lparr>ts_front_updated := Some (re_group 2 m)\<rparr>
              else if ts_front_created t = None then t\<lparr>ts_front_created := Some (re_group 2 m)\<rparr>
              else t)"

definition note_title :: "pystr \<Rightarrow> pystr \<Rightarrow> transcript \<Rightarrow> transcript" where
  "note_title stem line t =
    (if ts_title t = stem
     then case re_match title_re line of
            Some m \<Rightarrow> if parse_role_marker line = None
                      then t\<lparr>ts_title := (let s = strip_inline_markdown (re_group 1 m) in if s = [] then stem else s)\<rparr>
                      else t
          | None \<Rightarrow> t
     else t)"

definition rstrip :: "(int \<Rightarrow> bool) \<Rightarrow> pystr \<Rightarrow> pystr" where
  "rstrip p s = rev (dropWhile p (rev s))"

definition note_url :: "pystr \<Rightarrow> transcript \<Rightarrow> transcript" where
  "note_url line t =
    (if ts_url t = None
     then case re_match source_url_re line of
            Some m \<Rightarrow> t\<lparr>ts_url := Some (rstrip (one_of ''.,'') (re_group 1 m))\<rparr>
          | None \<Rightarrow> t
     else t)"

definition body_line :: "(int \<Rightarrow> bool) \<Rightarrow> pystr \<Rightarrow> pystr \<Rightarrow> transcript \<Rightarrow> transcript" where
  "body_line alnum stem line t =
    (let t1 = note_url line (note_title stem line t)
     in case parse_role_marker line of
          Some (role, rest, created) \<Rightarrow>
            (flush t1)\<lparr>ts_role := Some role, ts_created := created, ts_lines := (if rest = [] then [] else [rest])\<rparr>
        | None \<Rightarrow>
            (case ts_role t1 of
               None \<Rightarrow> t1
             | Some _ \<Rightarrow>
                 (case (if list_all blank (ts_lines t1) then re_search (time_tag_re alnum) line else None) of
                    Some m \<Rightarrow>
                      (let remaining = py_strip (re_sub (time_tag_re alnum) (\<lambda>_. []) line)
                       in t1\<lparr>ts_created := (case ts_created t1 of Some c \<Rightarrow> Some c | None \<Rightarrow> Some (re_group 1 m)),
                             ts_lines := (if remaining = [] then ts_lines t1 else ts_lines t1 @ [remaining])\<rparr>)
                  | None \<Rightarrow> t1\<lparr>ts_lines := ts_lines t1 @ [line]\<rparr>)))"

definition text_line :: "(int \<Rightarrow> bool) \<Rightarrow> pystr \<Rightarrow> nat \<times> pystr \<Rightarrow> transcript \<Rightarrow> transcript" where
  "text_line alnum stem = (\<lambda>(index, line) t.
    if index = 0 \<and> py_strip line = U ''---'' then t\<lparr>ts_front := True\<rparr>
    else if ts_front t then front_line line t
    else body_line alnum stem line t)"

definition empty_transcript :: "pystr \<Rightarrow> transcript" where
  "empty_transcript stem =
    \<lparr>ts_messages = [], ts_role = None, ts_created = None, ts_lines = [], ts_title = stem, ts_url = None,
     ts_front_created = None, ts_front_updated = None, ts_front = False\<rparr>"

definition detected_app :: "bool \<Rightarrow> pystr \<Rightarrow> pystr \<Rightarrow> pystr" where
  "detected_app detect_format content source_app =
    (if \<not> detect_format then source_app
     else if contains (U ''doubao.com/'') content \<or> re_search doubao_marker_re content \<noteq> None then U ''doubao''
     else if re_search chatgpt_marker_re content \<noteq> None then U ''chatgpt''
     else source_app)"

text \<open>The last segment of a URL.\<close>

definition url_id :: "pystr \<Rightarrow> pystr" where
  "url_id url = rev (takeWhile (\<lambda>c. c \<noteq> 47) (rev (rstrip (\<lambda>c. c = 47) url)))"

definition read_lines :: "(int \<Rightarrow> bool) \<Rightarrow> pystr \<Rightarrow> pystr list \<Rightarrow> transcript" where
  "read_lines alnum stem ls = flush (fold (text_line alnum stem) (enumerate 0 ls) (empty_transcript stem))"

definition parse_text_file ::
  "(int \<Rightarrow> bool) \<Rightarrow> pystr \<Rightarrow> pystr \<Rightarrow> pystr \<Rightarrow> pystr \<Rightarrow> bool \<Rightarrow> conversation list" where
  "parse_text_file alnum content stem source_app source_path detect_format =
    (let t = read_lines alnum stem (splitlines content);
         front = optional_text (ts_front_created t);
         ms = (if ts_messages t = [] \<and> py_strip content \<noteq> []
               then [new_message (U ''user'') (py_strip content) front None 0] else ts_messages t)
     in if ms = [] then []
        else [\<lparr>cv_id = (case ts_url t of None \<Rightarrow> stem | Some u \<Rightarrow> if u = [] \<or> url_id u = [] then stem else url_id u),
               cv_title = ts_title t, cv_messages = ms, cv_created = json_or (cm_created (hd ms)) front,
               cv_updated = optional_text (ts_front_updated t), cv_source_path = source_path,
               cv_source_app = detected_app detect_format content source_app, cv_source_url = ts_url t\<rparr>])"

section \<open>Files\<close>

definition automatic :: "pystr option \<Rightarrow> bool" where
  "automatic source_app_arg = (source_app_arg = None \<or> source_app_arg = Some [] \<or> source_app_arg = Some (U ''auto''))"

definition parse_file ::
  "(int \<Rightarrow> bool) \<Rightarrow> (json \<Rightarrow> pystr) \<Rightarrow> (json \<Rightarrow> pystr) \<Rightarrow> (json \<Rightarrow> pystr option) \<Rightarrow> (pystr \<Rightarrow> json option)
   \<Rightarrow> pystr \<Rightarrow> pystr \<Rightarrow> pystr \<Rightarrow> pystr \<Rightarrow> pystr option \<Rightarrow> parse_error + conversation list" where
  "parse_file alnum text_of dumps stamp loads content stem suffix source_path source_app_arg =
    (let source_app = detect_source_app source_path source_app_arg; kind = lower_text suffix
     in bind_err
          (if kind = U ''.json'' then parse_json_file text_of dumps stamp loads content stem source_app source_path
           else if kind = U ''.jsonl'' then parse_jsonl_file text_of dumps loads content stem source_app source_path
           else if kind \<in> set (map U [''.md'', ''.markdown'', ''.mdx'', ''.txt''])
             then Inr (parse_text_file alnum content stem source_app source_path (automatic source_app_arg))
           else Inr [])
          (\<lambda>cs. Inr (if automatic source_app_arg
                     then map (\<lambda>c. case cv_source_url c of
                                     Some url \<Rightarrow> if url = [] then c else c\<lparr>cv_source_app := detect_source_app url None\<rparr>
                                   | None \<Rightarrow> c) cs
                     else cs)))"

end
