(* ===== verification/Import_Parse_Laws.thy ===== *)
theory Import_Parse_Laws
  imports Import_Transcript Chat_Chunks_Laws
begin

text \<open>
  What the parsers guarantee: whatever a file holds, the conversations read from it are well formed,
  and the chunker accepts them; lines of JSON are read as the array of their values would be; and a
  conversation written down with a heading per message is read back message by message.
\<close>

section \<open>Well-formed conversations\<close>

definition role_names :: "pystr list" where
  "role_names = map U [''user'', ''assistant'', ''system'']"

definition message_ok :: "chat_message \<Rightarrow> bool" where
  "message_ok m \<longleftrightarrow> cm_role m \<in> set role_names \<and> cm_content m \<noteq> [] \<and> cm_index m = None \<and> cm_part m = 0"

definition conversation_ok :: "pystr \<Rightarrow> conversation \<Rightarrow> bool" where
  "conversation_ok source_path c \<longleftrightarrow>
     cv_messages c \<noteq> [] \<and> (\<forall>m\<in>set (cv_messages c). message_ok m) \<and> cv_source_path c = source_path"

lemma literal_length: "literal p s = Some t \<Longrightarrow> length s = length p + length t"
  by (induction p s rule: literal.induct) (auto split: if_splits)

lemma uri_rest_shorter: "uri_rest n s = Some r \<Longrightarrow> length r < length s"
proof (induction n s arbitrary: r rule: uri_rest.induct)
  case (2 n s)
  show ?case
  proof (cases "literal (U '';base64,'') s")
    case (Some payload)
    with 2(3) have r: "r = dropWhile payload_char payload" by (auto split: if_splits)
    have "length payload < length s" using literal_length [OF Some] by (simp add: U_def)
    with r show ?thesis by (meson length_dropWhile_le le_less_trans)
  next
    case None
    from None 2(3) obtain c cs d ds where s: "s = c # cs" and dw: "dropWhile param_char cs = d # ds"
      and pos: "run_len param_char cs \<noteq> 0" and c: "c = 59" by (auto split: list.splits if_splits)
    have l1: "length (d # ds) \<le> length cs" using length_dropWhile_le [of param_char cs] by (simp add: dw)
    have l2: "length (dropWhile value_char ds) \<le> length ds" by (rule length_dropWhile_le)
    have plain: "\<not> (c \<noteq> 59 \<or> run_len param_char cs = 0)" using pos c by simp
    show ?thesis
    proof (cases "d = 61")
      case True
      with 2(3) None s dw pos c have short: "1 \<le> run_len value_char ds \<and> run_len value_char ds \<le> 200"
        and "uri_rest n (dropWhile value_char ds) = Some r" by (auto split: if_splits)
      from 2(1) [OF None s plain dw True this] l1 l2 s show ?thesis by simp
    next
      case False
      with 2(3) None s dw pos c have "uri_rest n (d # ds) = Some r" by auto
      from 2(2) [OF None s plain dw False this] l1 s show ?thesis by simp
    qed
  qed
qed simp

lemma data_uri_shorter:
  assumes "data_uri s = Some r"
  shows "length r < length s"
proof -
  from assms obtain t where t: "literal (U ''data:'') s = Some t" by (auto simp: data_uri_def split: option.splits)
  define t1 where "t1 = dropWhile mime_char t"
  define t2 where "t2 = (case t1 of [] \<Rightarrow> [] | c # cs \<Rightarrow> if c = 47 then cs else t1)"
  from assms t have rest: "uri_rest (length s) (dropWhile mime_char t2) = Some r"
    unfolding t2_def t1_def by (simp add: data_uri_def Let_def)
  have "length t2 \<le> length t1" by (auto simp: t2_def split: list.split)
  also have "\<dots> \<le> length t" by (simp add: t1_def length_dropWhile_le)
  also have "\<dots> < length s" using literal_length [OF t] by (simp add: U_def)
  finally show ?thesis using uri_rest_shorter [OF rest] length_dropWhile_le [of mime_char t2] by linarith
qed

lemma strip_uris_nonempty: "s \<noteq> [] \<Longrightarrow> strip_inline_base64_data_uris s \<noteq> []"
proof (cases s)
  case (Cons c cs)
  have "inline_data_placeholder \<noteq> []" by (simp add: inline_data_placeholder_def U_def)
  then show ?thesis using data_uri_shorter [of s] Cons by (auto split: option.split)
qed simp

lemma new_message_ok: "role \<in> set role_names \<Longrightarrow> content \<noteq> [] \<Longrightarrow> message_ok (new_message role content created None 0)"
  by (simp add: message_ok_def new_message_def strip_uris_nonempty)

lemma collect_Inr: "collect xs = Inr ys \<longleftrightarrow> xs = map Inr ys"
  by (induction xs arbitrary: ys) (auto simp: err_simps Cons_eq_map_conv)

lemma set_somes: "set (somes xs) = {x. Some x \<in> set xs}"
  by (auto simp: somes_def map_filter_set)

lemma normalize_role_ok: "normalize_role text_of v \<in> set role_names"
proof -
  have all: "snd ` set role_map \<subseteq> set role_names" and user: "U ''user'' \<in> set role_names" by code_simp+
  have "r \<in> set role_names" if "map_of role_map k = Some r" for k r
    using all map_of_SomeD [OF that] by force
  with user show ?thesis by (auto simp: normalize_role_def split: option.split)
qed

lemma user_assistant_ok: "r \<in> {U ''user'', U ''assistant''} \<Longrightarrow> r \<in> set role_names"
  by (auto simp: role_names_def)

lemma chatgpt_message_ok: "chatgpt_message text_of dumps n = Inr (Some m) \<Longrightarrow> message_ok m"
  by (auto simp: chatgpt_message_def Let_def new_message_ok user_assistant_ok split: json.splits if_splits)

lemma message_from_generic_ok: "message_from_generic text_of dumps raw = Some m \<Longrightarrow> message_ok m"
proof -
  have user: "U ''user'' \<in> set role_names" by code_simp
  assume "message_from_generic text_of dumps raw = Some m"
  then show ?thesis
    by (auto simp: message_from_generic_def Let_def new_message_ok user normalize_role_ok split: json.splits if_splits)
qed

lemma chatgpt_conversation_ok:
  assumes "chatgpt_conversation text_of dumps stamp stem source_app source_path x = Inr (Some c)"
  shows "conversation_ok source_path c"
proof -
  obtain index item where x: "x = (index, item)" by fastforce
  from assms obtain n mapping found where
    found: "collect (map (chatgpt_message text_of dumps) (chatgpt_active_branch_nodes text_of stamp mapping (field ''current_node'' n))) = Inr found"
    and c: "cv_messages c = somes found" "somes found \<noteq> []" "cv_source_path c = source_path"
    by (auto simp: x chatgpt_conversation_def Let_def err_simps split: json.splits if_splits)
  have "message_ok m" if "m \<in> set (somes found)" for m
  proof -
    from that have "Inr (Some m) \<in> set (map (chatgpt_message text_of dumps)
        (chatgpt_active_branch_nodes text_of stamp mapping (field ''current_node'' n)))"
      using found unfolding collect_Inr by (simp add: set_somes)
    then show ?thesis by (auto dest!: sym [of "Inr (Some m)"] intro: chatgpt_message_ok)
  qed
  with c show ?thesis by (simp add: conversation_ok_def)
qed

lemma parse_chatgpt_ok:
  assumes "parse_chatgpt_export text_of dumps stamp data stem source_app source_path = Inr cs" and "c \<in> set cs"
  shows "conversation_ok source_path c"
proof -
  from assms obtain items found where
    found: "collect (map (chatgpt_conversation text_of dumps stamp stem source_app source_path) (enumerate 0 items)) = Inr found"
    and cs: "c \<in> set (somes found)"
    by (auto simp: parse_chatgpt_export_def err_simps split: json.splits if_splits)
  then have "Inr (Some c) \<in> set (map (chatgpt_conversation text_of dumps stamp stem source_app source_path) (enumerate 0 items))"
    unfolding collect_Inr by (simp add: set_somes)
  then show ?thesis by (auto dest!: sym [of "Inr (Some c)"] intro: chatgpt_conversation_ok)
qed

lemma conversation_from_generic_ok:
  assumes "conversation_from_generic text_of dumps raw stem source_app source_path fallback = Some c"
  shows "conversation_ok source_path c"
proof -
  from assms obtain raws where "cv_messages c = somes (map (message_from_generic text_of dumps) raws)"
    and "cv_messages c \<noteq> []" "cv_source_path c = source_path"
    by (auto simp: conversation_from_generic_def Let_def simp del: first_entry.simps split: json.splits if_splits)
  moreover have "message_ok m" if "m \<in> set (somes (map (message_from_generic text_of dumps) raws))" for m
    using that by (auto simp: set_somes dest!: sym [of "Some m"] intro: message_from_generic_ok)
  ultimately show ?thesis by (simp add: conversation_ok_def)
qed

definition pool_wf :: "pystr \<Rightarrow> conversation list \<times> chat_message list \<Rightarrow> bool" where
  "pool_wf source_path p \<longleftrightarrow> (\<forall>c\<in>set (fst p). conversation_ok source_path c) \<and> (\<forall>m\<in>set (snd p). message_ok m)"

lemma generic_step_ok: "pool_wf source_path p \<Longrightarrow> pool_wf source_path (generic_step text_of dumps stem source_app source_path x p)"
proof -
  assume p: "pool_wf source_path p"
  obtain i item where x: "x = (i, item)" by fastforce
  show ?thesis
  proof (cases "conversation_from_generic text_of dumps item stem source_app source_path (stem @ U ''-'' @ decimal i)")
    case (Some c)
    with conversation_from_generic_ok [OF Some] p show ?thesis by (simp add: x generic_step_def pool_wf_def split_def)
  next
    case None
    show ?thesis
    proof (cases "message_from_generic text_of dumps item")
      case (Some m)
      with message_from_generic_ok [OF Some] None p show ?thesis by (simp add: x generic_step_def pool_wf_def split_def)
    qed (use None p in \<open>simp add: x generic_step_def split_def\<close>)
  qed
qed

lemma generic_fold_ok: "pool_wf source_path p \<Longrightarrow> pool_wf source_path (fold (generic_step text_of dumps stem source_app source_path) xs p)"
  by (induction xs arbitrary: p) (simp_all add: generic_step_ok)

lemma with_loose_ok:
  assumes "c \<in> set (with_loose stem source_app source_path
    (fold (generic_step text_of dumps stem source_app source_path) values ([], [])))"
  shows "conversation_ok source_path c"
proof -
  let ?p = "fold (generic_step text_of dumps stem source_app source_path) values ([], [])"
  have "pool_wf source_path ?p" by (rule generic_fold_ok) (simp add: pool_wf_def)
  with assms show ?thesis by (auto simp: with_loose_def split_def pool_wf_def conversation_ok_def split: if_splits)
qed

section \<open>Transcripts\<close>

definition transcript_ok :: "transcript \<Rightarrow> bool" where
  "transcript_ok t \<longleftrightarrow> (\<forall>m\<in>set (ts_messages t). message_ok m) \<and> (case ts_role t of None \<Rightarrow> True | Some r \<Rightarrow> r \<in> set role_names)"

lemma role_marker_ok: "parse_role_marker line = Some (role, rest, created) \<Longrightarrow> role \<in> set role_names"
proof -
  have "U ''assistant'' \<in> set role_names" by code_simp
  moreover assume "parse_role_marker line = Some (role, rest, created)"
  ultimately show ?thesis
    by (auto simp: parse_role_marker_def Let_def normalize_role_ok simp del: first_match.simps split: prod.splits option.splits)
qed

lemma flush_ok: "transcript_ok t \<Longrightarrow> transcript_ok (flush t)"
  by (auto simp: flush_def transcript_ok_def Let_def new_message_ok split: option.splits)

lemma note_sel [simp]:
  "ts_messages (note_title stem line t) = ts_messages t" "ts_role (note_title stem line t) = ts_role t"
  "ts_messages (note_url line t) = ts_messages t" "ts_role (note_url line t) = ts_role t"
  "ts_lines (note_title stem line t) = ts_lines t" "ts_created (note_title stem line t) = ts_created t"
  "ts_lines (note_url line t) = ts_lines t" "ts_created (note_url line t) = ts_created t"
  "ts_front (note_title stem line t) = ts_front t" "ts_front (note_url line t) = ts_front t"
  by (simp_all add: note_title_def note_url_def split: option.split)

lemma front_sel [simp]:
  "ts_messages (front_line line t) = ts_messages t" "ts_role (front_line line t) = ts_role t"
  by (simp_all add: front_line_def split: option.split)

lemma body_line_ok: "transcript_ok t \<Longrightarrow> transcript_ok (body_line alnum stem line t)"
proof -
  assume t: "transcript_ok t"
  let ?t1 = "note_url line (note_title stem line t)"
  have t1: "transcript_ok ?t1" using t by (simp add: transcript_ok_def)
  show ?thesis
  proof (cases "parse_role_marker line")
    case None
    with t1 show ?thesis by (auto simp: body_line_def transcript_ok_def Let_def split: option.splits)
  next
    case (Some marker)
    obtain role rest created where m: "marker = (role, rest, created)" by (cases marker) auto
    have "ts_messages (flush ?t1) = ts_messages (flush ?t1)" ..
    from flush_ok [OF t1] role_marker_ok [OF Some [unfolded m]] show ?thesis
      by (simp add: body_line_def Let_def Some m transcript_ok_def)
  qed
qed

lemma text_line_ok: "transcript_ok t \<Longrightarrow> transcript_ok (text_line alnum stem x t)"
  by (cases x) (auto simp: text_line_def body_line_ok, auto simp: transcript_ok_def)

lemma read_lines_ok: "transcript_ok (read_lines alnum stem ls)"
proof -
  have "transcript_ok (fold (text_line alnum stem) xs t)" if "transcript_ok t" for xs t
    using that by (induction xs arbitrary: t) (simp_all add: text_line_ok)
  moreover have "transcript_ok (empty_transcript stem)" by (simp add: transcript_ok_def empty_transcript_def)
  ultimately show ?thesis unfolding read_lines_def by (blast intro: flush_ok)
qed

lemma parse_text_ok:
  assumes "c \<in> set (parse_text_file alnum content stem source_app source_path detect_format)"
  shows "conversation_ok source_path c"
proof -
  have user: "U ''user'' \<in> set role_names" by code_simp
  have "\<forall>m\<in>set (ts_messages (read_lines alnum stem (splitlines content))). message_ok m"
    using read_lines_ok by (simp add: transcript_ok_def)
  with assms show ?thesis
    by (auto simp: parse_text_file_def Let_def conversation_ok_def new_message_ok [OF user] split: if_splits)
qed

lemma parse_file_ok:
  assumes "parse_file alnum text_of dumps stamp loads content stem suff source_path arg = Inr cs" and "c \<in> set cs"
  shows "conversation_ok source_path c"
proof -
  have app_update: "conversation_ok source_path (d\<lparr>cv_source_app := x\<rparr>) = conversation_ok source_path d" for d x
    by (simp add: conversation_ok_def)
  have json: "conversation_ok source_path d" if "parse_json_data text_of dumps stamp data stem app source_path = Inr ds" "d \<in> set ds"
    for data app ds d using that
    by (auto simp: parse_json_data_def err_simps split: if_splits intro: parse_chatgpt_ok with_loose_ok)
  define app where "app = detect_source_app source_path arg"
  define relabel :: "conversation \<Rightarrow> conversation" where "relabel = (\<lambda>c. case cv_source_url c of
      Some url \<Rightarrow> if url = [] then c else c\<lparr>cv_source_app := detect_source_app url None\<rparr> | None \<Rightarrow> c)"
  from assms(1) obtain ds where
    "(if lower_text suff = U ''.json'' then parse_json_file text_of dumps stamp loads content stem app source_path
      else if lower_text suff = U ''.jsonl'' then parse_jsonl_file text_of dumps loads content stem app source_path
      else if lower_text suff \<in> set (map U [''.md'', ''.markdown'', ''.mdx'', ''.txt''])
        then Inr (parse_text_file alnum content stem app source_path (automatic arg)) else Inr []) = Inr ds"
    and cs: "cs = (if automatic arg then map relabel ds else ds)"
    unfolding parse_file_def Let_def app_def [symmetric] relabel_def [symmetric] bind_err_Inr_iff by blast
  then have "conversation_ok source_path d" if "d \<in> set ds" for d
    using that by (auto simp: parse_json_file_def parse_jsonl_file_def err_simps
        split: if_splits option.splits intro: json with_loose_ok parse_text_ok)
  moreover have "conversation_ok source_path (relabel d) = conversation_ok source_path d" for d
    by (simp add: relabel_def app_update split: option.split)
  ultimately show ?thesis using cs assms(2) by (auto split: if_splits)
qed

section \<open>The chunker accepts them\<close>

text \<open>Messages with the same index have the same role.\<close>

definition one_role :: "chat_message list \<Rightarrow> bool" where
  "one_role ms \<longleftrightarrow> (\<forall>m\<in>set ms. \<forall>m'\<in>set ms. cm_index m \<noteq> None \<longrightarrow> cm_index m = cm_index m' \<longrightarrow> cm_role m = cm_role m')"

lemma one_role_sub:
  assumes "one_role ms" and "\<And>m'. m' \<in> set ms' \<Longrightarrow> \<exists>m\<in>set ms. cm_index m' = cm_index m \<and> cm_role m' = cm_role m"
  shows "one_role ms'"
  using assms unfolding one_role_def by metis

lemma one_role_mono: "one_role ms \<Longrightarrow> set ms' \<subseteq> set ms \<Longrightarrow> one_role ms'"
  by (auto simp: one_role_def)

lemma merge_fragments_total: "one_role (merged @ ms) \<Longrightarrow> \<exists>out. merge_fragments ms merged = Inr out"
proof (induction ms merged rule: merge_fragments.induct)
  case (2 m ms merged)
  let ?new = "new_message (cm_role m) (cm_content m) (cm_created m) (cm_index m) (cm_part m)"
  have same: "cm_index ?new = cm_index m" "cm_role ?new = cm_role m" by (simp_all add: new_message_def)
  have fresh: "one_role ((merged @ [?new]) @ ms)" by (rule one_role_sub [OF "2.prems"]) (auto simp: same)
  show ?case
  proof (cases "cm_index m")
    case None
    from "2.IH"(1) [OF None fresh] None show ?thesis by simp
  next
    case (Some i)
    show ?thesis
    proof (cases "List.find (\<lambda>e. cm_index e = Some i) merged")
      case None
      from "2.IH"(2) [OF Some None fresh] Some None show ?thesis by simp
    next
      case found: (Some e)
      then have e: "e \<in> set merged" "cm_index e = Some i" unfolding find_Some_iff by auto
      with "2.prems" Some have role: "\<not> cm_role e \<noteq> cm_role m" by (auto simp: one_role_def)
      let ?upd = "map (\<lambda>e. if cm_index e = Some i then e\<lparr>cm_content := cm_content e @ cm_content m\<rparr> else e) merged"
      have upd: "\<exists>e\<in>set merged. cm_index u = cm_index e \<and> cm_role u = cm_role e" if "u \<in> set ?upd" for u
      proof -
        from that obtain e where "e \<in> set merged" "u = (if cm_index e = Some i then e\<lparr>cm_content := cm_content e @ cm_content m\<rparr> else e)"
          by auto
        then show ?thesis by (intro bexI [of _ e]) simp_all
      qed
      have "one_role (?upd @ ms)"
      proof (rule one_role_sub [OF "2.prems"])
        fix u assume "u \<in> set (?upd @ ms)"
        then consider "u \<in> set ?upd" | "u \<in> set ms" by auto
        then show "\<exists>v\<in>set (merged @ m # ms). cm_index u = cm_index v \<and> cm_role u = cm_role v"
        proof cases
          case 1
          from upd [OF this] show ?thesis by auto
        qed auto
      qed
      from "2.IH"(3) [OF Some found role this] Some found role show ?thesis by simp
    qed
  qed
qed simp

lemma expanded_one_role:
  assumes "\<forall>m\<in>set ms. cm_index m = None"
  shows "one_role (expanded_messages enc ms limit)"
proof -
  have parts: "cm_index p = cm_index m \<and> cm_role p = cm_role m" if "p \<in> set (split_long_message_tokens enc m l)" for p m l
    using that by (auto simp: split_long_message_tokens_def)
  have "\<exists>i<length ms. m = new_message (cm_role (ms ! i)) (cm_content (ms ! i)) (cm_created (ms ! i)) (Some (int i)) (cm_part (ms ! i))"
    if "m \<in> set (ensure_source_indices ms)" for m
    using that assms by (auto simp: ensure_source_indices_def enumerate_eq_zip set_zip split: option.splits)
  then have indexed: "\<exists>i<length ms. cm_index m = Some (int i) \<and> cm_role m = cm_role (ms ! i)" if "m \<in> set (ensure_source_indices ms)" for m
    using that by (fastforce simp: new_message_def)
  have "\<exists>i<length ms. cm_index p = Some (int i) \<and> cm_role p = cm_role (ms ! i)" if "p \<in> set (expanded_messages enc ms limit)" for p
    using that parts indexed by (fastforce simp: expanded_messages_def)
  then show ?thesis unfolding one_role_def by (metis nat_int option.inject)
qed

lemma chained_turns:
  assumes "chained gs" and "g \<in> set gs"
  shows "set (fst g) \<subseteq> set (concat (map core_turns gs))"
  using assms
proof (induction gs arbitrary: g rule: rev_induct)
  case (snoc h gs)
  have h: "set (fst h) \<subseteq> set (concat (map core_turns (gs @ [h])))"
  proof -
    have "set (fst h) = set (take (snd h) (fst h)) \<union> set (core_turns h)"
      unfolding core_turns_def by (metis append_take_drop_id set_append)
    moreover have "set (take (snd h) (fst h)) \<subseteq> set (concat (map core_turns gs))"
    proof (cases "gs = []")
      case True
      with snoc.prems(1) have "snd h = 0" using chained_snoc [of "[]" h] by simp
      then show ?thesis by simp
    next
      case False
      with snoc.prems(1) have "suffix (take (snd h) (fst h)) (fst (last gs))" by (simp add: chained_snoc)
      then have "set (take (snd h) (fst h)) \<subseteq> set (fst (last gs))" by (rule set_mono_suffix)
      also have "\<dots> \<subseteq> set (concat (map core_turns gs))" using snoc False by (simp add: chained_snoc)
      finally show ?thesis .
    qed
    ultimately show ?thesis by auto
  qed
  have "chained gs" using snoc.prems(1) by (simp add: chained_snoc)
  with h snoc.IH [of g] snoc.prems(2) show ?case by auto
qed simp

text \<open>A date that cannot be read in UTC is the only thing the chunker can fail on, and then a message has it.\<close>

lemma coerce_iso_text_fails: "coerce_iso_text dl s = Inl e \<Longrightarrow> \<exists>x. e = DateOverflow x"
  by (auto simp: coerce_iso_text_def Let_def split: option.splits if_splits)

lemma coerce_iso_datetime_fails: "coerce_iso_datetime dl v = Inl e \<Longrightarrow> \<exists>x. e = DateOverflow x"
  by (auto simp: coerce_iso_datetime_def milliseconds_def bind_err_def coerce_iso_text_fails split: json.splits sum.splits if_splits)

lemma timestamp_seconds_fails: "timestamp_seconds dl v = Inl e \<Longrightarrow> \<exists>x. e = DateOverflow x"
  by (auto simp: timestamp_seconds_def bind_err_def coerce_iso_datetime_fails split: option.splits sum.splits if_splits)

lemma boundary_fails:
  assumes "strong_turn_boundary dl t u gap = Inl e" and "tn_messages t \<noteq> []" and "tn_messages u \<noteq> []"
  shows "\<exists>m\<in>set (tn_messages t) \<union> set (tn_messages u). timestamp_seconds dl (cm_created m) = Inl e"
proof -
  from assms(1) have "timestamp_seconds dl (cm_created (last (tn_messages t))) = Inl e \<or> timestamp_seconds dl (cm_created (hd (tn_messages u))) = Inl e"
    by (auto simp: strong_turn_boundary_def bind_err_def split: sum.splits)
  with assms(2,3) last_in_set hd_in_set show ?thesis by blast
qed

lemma expanded_created:
  assumes "p \<in> set (expanded_messages enc ms limit)"
  shows "\<exists>m\<in>set ms. cm_created p = cm_created m"
proof -
  have "cm_created q = cm_created m" if "q \<in> set (split_long_message_tokens enc m l)" for q m l
    using that by (auto simp: split_long_message_tokens_def copy_message_def new_message_def)
  moreover have "\<exists>m\<in>set ms. cm_created q = cm_created m" if "q \<in> set (ensure_source_indices ms)" for q
    using that by (force simp: ensure_source_indices_def new_message_def enumerate_eq_zip set_zip)
  ultimately show ?thesis using assms by (fastforce simp: expanded_messages_def)
qed

lemma collect_total: "\<forall>x\<in>set xs. \<exists>y. f x = Inr y \<Longrightarrow> \<exists>ys. collect (map f xs) = Inr ys \<and> length ys = length xs"
  by (induction xs) auto

lemma groups_chunk:
  assumes "\<forall>m\<in>set ms. cm_index m = None" and "chained gs" and "set (concat (map core_turns gs)) \<subseteq> set (build_turns enc ms limit)"
  shows "\<exists>cs. collect (map (\<lambda>(ts, leading). chunk_from_turns enc ts leading 0 None None) gs) = Inr cs \<and> length cs = length gs"
proof (rule collect_total, rule ballI)
  fix g assume g: "g \<in> set gs"
  have "set (fst g) \<subseteq> set (build_turns enc ms limit)" using chained_turns [OF assms(2) g] assms(3) by (rule subset_trans)
  then have "set (turns_messages (fst g)) \<subseteq> set (expanded_messages enc ms limit)"
    unfolding build_turns_messages [symmetric] by (auto simp: turns_messages_def)
  then have "one_role ([] @ turns_messages (fst g))"
    unfolding append_Nil by (rule one_role_mono [OF expanded_one_role [OF assms(1)]])
  from merge_fragments_total [OF this]
  show "\<exists>y. (case g of (ts, leading) \<Rightarrow> chunk_from_turns enc ts leading 0 None None) = Inr y"
    by (auto simp: split_def chunk_from_turns_def Let_def)
qed

lemma turns_created:
  assumes "t \<in> set (build_turns enc ms limit)" and "m \<in> set (tn_messages t)"
  shows "\<exists>m'\<in>set ms. cm_created m = cm_created m'"
proof -
  have "m \<in> set (expanded_messages enc ms limit)"
    unfolding build_turns_messages [symmetric] using assms by (auto simp: turns_messages_def)
  then show ?thesis by (rule expanded_created)
qed

lemma turns_exist: "ms \<noteq> [] \<Longrightarrow> build_turns enc ms limit \<noteq> []"
proof
  assume ms: "ms \<noteq> []" and none: "build_turns enc ms limit = []"
  obtain m where m: "m \<in> set (ensure_source_indices ms)" using ms by (cases ms) (auto simp: ensure_source_indices_def)
  have "split_long_message_tokens enc m l \<noteq> []" for l
    using split_long_message_index [of enc m l] by auto
  with m have "expanded_messages enc ms limit \<noteq> []" unfolding expanded_messages_def by auto
  with build_turns_messages [of enc ms limit] none show False by (simp add: turns_messages_def)
qed

lemma chunks_total:
  assumes "\<forall>m\<in>set ms. cm_index m = None" and "ms \<noteq> []" and "0 \<le> io_overlap_turns op"
  shows "case adaptive_chunk_messages enc dl ms op of
      Inl e \<Rightarrow> (\<exists>s. e = DateOverflow s) \<and> (\<exists>m\<in>set ms. timestamp_seconds dl (cm_created m) = Inl e)
    | Inr chunks \<Rightarrow> chunks \<noteq> []"
proof (cases "plan_chunks (strong_turn_boundary dl) op (build_turns enc ms (io_max_tokens op))")
  let ?ts = "build_turns enc ms (io_max_tokens op)"
  case (Inl x)
  obtain gs e where x: "x = (gs, e)" by force
  from plan_chunks_fails [OF assms(3) Inl [unfolded x]]
  obtain t u where gs: "chained gs" "set (concat (map core_turns gs)) \<subseteq> set ?ts" and tu: "t \<in> set ?ts" "u \<in> set ?ts"
    and e: "strong_turn_boundary dl t u (io_gap_minutes op) = Inl e" by (auto simp: gave_up_def)
  have "tn_messages v \<noteq> []" if "v \<in> set ?ts" for v using build_turns_ok that by (auto simp: turn_ok_def)
  from boundary_fails [OF e this [OF tu(1)] this [OF tu(2)]]
  obtain p v where "v \<in> set ?ts" "p \<in> set (tn_messages v)" and p: "timestamp_seconds dl (cm_created p) = Inl e" using tu by blast
  then have "\<exists>m\<in>set ms. timestamp_seconds dl (cm_created m) = Inl e" using turns_created by metis
  moreover have "\<exists>s. e = DateOverflow s" using p by (rule timestamp_seconds_fails)
  moreover have "adaptive_chunk_messages enc dl ms op = Inl e"
    using groups_chunk [OF assms(1) gs] Inl by (auto simp: adaptive_chunk_messages_def Let_def x)
  ultimately show ?thesis by simp
next
  case (Inr gs)
  with plan_chunks_ok [of op False _ _ gs] assms(3)
  have plan: "concat (map core_turns gs) = build_turns enc ms (io_max_tokens op) \<and> chained gs" by simp
  have "gs \<noteq> []" using plan turns_exist [OF assms(2), of enc "io_max_tokens op"] by auto
  with groups_chunk [OF assms(1), of gs enc "io_max_tokens op"] plan Inr show ?thesis by (auto simp: adaptive_chunk_messages_def Let_def)
qed

text \<open>C30: whatever a file holds, what is read from it can be imported unless a date stops it. If a parser returns at all, every
  conversation has at least one message, every message has one of the three roles and a text, no
  message has a number of its own yet, and the chunker either turns the conversation into at least one
  chunk, or raises because the time of one of its messages overflows when it is read; it never finds a contradiction.\<close>
theorem parsed_conversations_chunk:
  assumes "parse_file alnum text_of dumps stamp loads content stem suff source_path arg = Inr cs"
    and "c \<in> set cs" and "0 \<le> io_overlap_turns op"
  shows "conversation_ok source_path c \<and>
    (case adaptive_chunk_messages enc dl (cv_messages c) op of
       Inl e \<Rightarrow> (\<exists>s. e = DateOverflow s) \<and> (\<exists>m\<in>set (cv_messages c). timestamp_seconds dl (cm_created m) = Inl e)
     | Inr chunks \<Rightarrow> chunks \<noteq> [])"
proof -
  have ok: "conversation_ok source_path c" by (rule parse_file_ok [OF assms(1,2)])
  then have "\<forall>m\<in>set (cv_messages c). cm_index m = None" and "cv_messages c \<noteq> []"
    by (simp_all add: conversation_ok_def message_ok_def)
  from ok chunks_total [OF this assms(3)] show ?thesis by blast
qed

definition demo_alnum :: "int \<Rightarrow> bool" where
  "demo_alnum c = (ascii_letter c \<or> ascii_digit c)"

definition demo_transcript :: pystr where
  "demo_transcript =
    join_with newline (map U [''# Trip'', [], ''## You'', ''Where do I live?'', [], ''## ChatGPT'', ''In Rome.'', ''---''])"

lemma parsed_conversations_chunk_witness:
  "\<exists>c. parse_file demo_alnum (\<lambda>_. []) (\<lambda>_. []) (\<lambda>_. None) (\<lambda>_. None) demo_transcript (U ''trip'') (U ''.md'') (U ''trip.md'') None = Inr [c] \<and>
     cv_title c = U ''Trip'' \<and> cv_source_app c = U ''chatgpt'' \<and>
     map (\<lambda>m. (cm_role m, cm_content m)) (cv_messages c) =
       [(U ''user'', U ''Where do I live?''), (U ''assistant'', U ''In Rome.'')] \<and>
     conversation_ok (U ''trip.md'') c"
proof -
  have "case parse_file demo_alnum (\<lambda>_. []) (\<lambda>_. []) (\<lambda>_. None) (\<lambda>_. None) demo_transcript (U ''trip'') (U ''.md'') (U ''trip.md'') None of
     Inr [c] \<Rightarrow> cv_title c = U ''Trip'' \<and> cv_source_app c = U ''chatgpt'' \<and>
       map (\<lambda>m. (cm_role m, cm_content m)) (cv_messages c) =
         [(U ''user'', U ''Where do I live?''), (U ''assistant'', U ''In Rome.'')]
   | _ \<Rightarrow> False" by code_simp
  then obtain c where c: "parse_file demo_alnum (\<lambda>_. []) (\<lambda>_. []) (\<lambda>_. None) (\<lambda>_. None) demo_transcript (U ''trip'') (U ''.md'') (U ''trip.md'') None = Inr [c]"
    and facts: "cv_title c = U ''Trip'' \<and> cv_source_app c = U ''chatgpt'' \<and>
       map (\<lambda>m. (cm_role m, cm_content m)) (cv_messages c) =
         [(U ''user'', U ''Where do I live?''), (U ''assistant'', U ''In Rome.'')]"
    by (auto split: sum.splits list.splits)
  have "0 \<le> io_overlap_turns demo_options" by (simp add: demo_options_def)
  from parsed_conversations_chunk [OF c _ this, of c] c facts show ?thesis by auto
qed

section \<open>Lines of JSON\<close>

text \<open>A file of JSON lines is read as the JSON array of its values is. Each line, as Python's \<open>splitlines\<close> cuts the
  file, must be a JSON value, none may be blank, and none of the values may have the \<open>mapping\<close> of a ChatGPT export. The
  conversations then agree in everything, the numbers in the ids of conversations without one included.\<close>
theorem jsonl_reads_as_array:
  assumes "map loads (splitlines content) = map Some vs" and "\<forall>l\<in>set (splitlines content). py_strip l \<noteq> []"
    and "\<not> list_ex has_mapping vs"
  shows "parse_jsonl_file text_of dumps loads content stem source_app source_path =
         parse_json_data text_of dumps stamp (JArr vs) stem source_app source_path"
proof -
  let ?ls = "splitlines content"
  have "filter (\<lambda>(i, line). py_strip line \<noteq> []) (enumerate 0 ?ls) = enumerate 0 ?ls"
    using assms(2) by (intro filter_True) (auto simp: enumerate_eq_zip dest: set_zip_rightD)
  moreover have "map (\<lambda>(i, line). case loads line of None \<Rightarrow> Inl NotJson | Some v \<Rightarrow> Inr (i, v)) (enumerate n ls) =
      map Inr (enumerate n us)" if "map loads ls = map Some us" for n ls us
    using that by (induction ls us arbitrary: n rule: list_induct2') auto
  from this [OF assms(1), of 0] have "collect (map (\<lambda>(i, line). case loads line of None \<Rightarrow> Inl NotJson | Some v \<Rightarrow> Inr (i, v))
      (enumerate 0 ?ls)) = Inr (enumerate 0 vs)" unfolding collect_Inr .
  ultimately have "jsonl_values loads content = Inr (enumerate 0 vs)" by (simp add: jsonl_values_def)
  then show ?thesis
    using assms(3) by (simp add: parse_jsonl_file_def parse_json_data_def parse_chatgpt_export_def candidates_def)
qed

definition demo_loads :: "pystr \<Rightarrow> json option" where
  "demo_loads s =
    (if s = U ''1'' then Some (JStr (U ''Hello''))
     else if s = U ''2'' then Some (JObj [(U ''messages'', JArr [JObj [(U ''sender'', JStr (U ''AI'')), (U ''text'', JStr (U ''Hi''))]])])
     else None)"

lemma jsonl_reads_as_array_witness:
  "parse_jsonl_file (\<lambda>_. []) (\<lambda>_. []) demo_loads (U ''1'' @ newline @ U ''2'') (U ''chat'') (U ''generic'') (U ''chat.jsonl'') =
   parse_json_data (\<lambda>_. []) (\<lambda>_. []) (\<lambda>_. None)
     (JArr [JStr (U ''Hello''), JObj [(U ''messages'', JArr [JObj [(U ''sender'', JStr (U ''AI'')), (U ''text'', JStr (U ''Hi''))]])]])
     (U ''chat'') (U ''generic'') (U ''chat.jsonl'')"
  by (rule jsonl_reads_as_array; code_simp)

text \<open>Only JSON text is split into lines by \<open>
\<close> alone: a text that holds U+2028 inside a string, which
  JSON allows, is one line of JSON but two lines for \<open>splitlines\<close>.\<close>

lemma separator_splits_a_line: "splitlines (U ''{a'' @ [0x2028] @ U ''b}'') = [U ''{a'', U ''b}'']"
  by code_simp

text \<open>A message without content is read as a message of two braces: \<open>dumps\<close> of an empty object.\<close>

lemma empty_content_is_read:
  "content_from_chatgpt_message (\<lambda>_. []) (\<lambda>v. if v = JObj [] then U ''{}'' else []) [(U ''content'', JNull)] = U ''{}''"
  by code_simp

text \<open>A heading inside a message whose first letters are a role's name begins a new message, in that role
  and without these letters.\<close>

lemma heading_word_cut:
  "parse_role_marker (U ''## Method and results'') = Some (U ''user'', U ''thod and results'', None)"
  "parse_role_marker (U ''### Airlines'') = Some (U ''assistant'', U ''rlines'', None)"
  by code_simp+

end
