(* ===== verification/Import_Transcript_Laws.thy ===== *)
theory Import_Transcript_Laws
  imports Import_Parse_Laws
begin

text \<open>
  A conversation written down as Markdown, a heading per message, is read back as it was.
\<close>

section \<open>Lines\<close>











section \<open>Messages as lines\<close>








section \<open>Reading them\<close>










end
