(* ===== verification/Concurrency.thy ===== *)
theory Concurrency
  imports Prelude
begin

text \<open>
  The adaptive limit on concurrent provider calls (\<open>AdaptiveConcurrency\<close> of
  server/chat_import.py). The controller's methods are functions on its fields, each given the
  clock readings it makes; floats are rationals. The workers of a job are put around it as a step
  relation: one round of the waiting loop, a call that ends, the recording of its outcome, the end
  of a worker's back-off, and time passing. Whether an error is a pressure error is an argument.
\<close>

section \<open>The controller\<close>

record concurrency =
  cc_target :: int
  cc_current :: int
  cc_active :: int
  cc_failures :: int
  cc_streak :: int
  cc_cooldown_until :: rat
  cc_generation :: int
  cc_base :: rat
  cc_max :: rat
  cc_jitter :: rat

definition new_controller :: "int \<Rightarrow> rat \<Rightarrow> rat \<Rightarrow> rat \<Rightarrow> concurrency" where
  "new_controller target base longest jitter =
    (let n = max 1 (min target 4); b = max 0 base
     in \<lparr>cc_target = n, cc_current = n, cc_active = 0, cc_failures = 0, cc_streak = 0,
         cc_cooldown_until = 0, cc_generation = 0, cc_base = b, cc_max = max b longest, cc_jitter = max 0 jitter\<rparr>)"

text \<open>One round of the loop in \<open>acquire\<close>: cancelled, admitted, or told to wait (for at most so long).\<close>

datatype poll_result = PollCancelled | PollAdmitted | PollWait rat

definition acquire_poll :: "bool \<Rightarrow> rat \<Rightarrow> concurrency \<Rightarrow> poll_result \<times> concurrency" where
  "acquire_poll cancelled now c =
    (if cancelled then (PollCancelled, c)
     else
       let remaining = max 0 (cc_cooldown_until c - now)
       in if cc_active c < cc_current c \<and> remaining \<le> 0 then (PollAdmitted, c\<lparr>cc_active := cc_active c + 1\<rparr>)
          else (PollWait (if remaining \<noteq> 0 then min (1 / 10) remaining else 1 / 10), c))"

definition release :: "concurrency \<Rightarrow> concurrency" where
  "release c = c\<lparr>cc_active := max 0 (cc_active c - 1)\<rparr>"

definition penalty :: "concurrency \<Rightarrow> int \<Rightarrow> rat" where
  "penalty c failures = min (cc_max c) (cc_base c * 2 ^ nat (min 6 (failures - 1)))"

definition record_failure :: "bool \<Rightarrow> rat \<Rightarrow> concurrency \<Rightarrow> int option \<times> concurrency" where
  "record_failure pressure now c =
    (let n = cc_failures c + 1; c1 = c\<lparr>cc_failures := n, cc_streak := 0\<rparr>
     in if pressure \<or> n \<ge> 2
        then
          let c2 = c1\<lparr>cc_current := max 1 (cc_current c - 1)\<rparr>; candidate = now + penalty c n
          in if candidate \<ge> cc_cooldown_until c
             then (Some (cc_generation c + 1),
                   c2\<lparr>cc_cooldown_until := candidate, cc_generation := cc_generation c + 1\<rparr>)
             else (None, c2)
        else (None, c1))"

definition record_pressure :: "rat \<Rightarrow> concurrency \<Rightarrow> int option \<times> concurrency" where
  "record_pressure now c = record_failure True now c"

definition cooldown_seconds :: "rat \<Rightarrow> concurrency \<Rightarrow> rat" where
  "cooldown_seconds now c = max 0 (cc_cooldown_until c - now)"

definition complete_backoff :: "int option \<Rightarrow> rat \<Rightarrow> concurrency \<Rightarrow> concurrency" where
  "complete_backoff token now c =
    (case token of
       None \<Rightarrow> c
     | Some t \<Rightarrow> if t = cc_generation c then c\<lparr>cc_cooldown_until := min (cc_cooldown_until c) now\<rparr> else c)"

definition record_success :: "rat \<Rightarrow> concurrency \<Rightarrow> concurrency" where
  "record_success now c =
    (let c1 = c\<lparr>cc_failures := 0, cc_streak := cc_streak c + 1\<rparr>
     in if cc_current c < cc_target c \<and> cc_streak c + 1 \<ge> max 4 (cc_current c * 2) \<and> now \<ge> cc_cooldown_until c
        then c1\<lparr>cc_current := cc_current c + 1, cc_streak := 0\<rparr>
        else c1)"

definition backoff_seconds :: "int \<Rightarrow> rat \<Rightarrow> concurrency \<Rightarrow> rat" where
  "backoff_seconds failed_attempt random c =
    (let base = min (cc_max c) (cc_base c * 2 ^ nat (max 0 failed_attempt))
     in base + base * cc_jitter c * random)"

lemmas controller_defs =
  acquire_poll_def release_def record_failure_def record_pressure_def complete_backoff_def record_success_def

section \<open>The workers around it\<close>

text \<open>The workers inside a provider call, and the monotonic clock.\<close>

record 'w pool =
  po_ctl :: concurrency
  po_running :: "'w list"
  po_now :: rat

datatype 'w pool_event =
    Poll 'w bool
  | CallEnds 'w
  | Failed bool
  | Succeeded
  | BackoffDone "int option"
  | TimePasses rat

fun pool_step :: "'w pool_event \<Rightarrow> 'w pool \<Rightarrow> 'w pool option" where
  "pool_step (Poll w cancelled) p =
    (if w \<in> set (po_running p) then None
     else case acquire_poll cancelled (po_now p) (po_ctl p) of
            (PollAdmitted, c) \<Rightarrow> Some (p\<lparr>po_ctl := c, po_running := w # po_running p\<rparr>)
          | (_, c) \<Rightarrow> Some (p\<lparr>po_ctl := c\<rparr>))"
| "pool_step (CallEnds w) p =
    (if w \<in> set (po_running p)
     then Some (p\<lparr>po_ctl := release (po_ctl p), po_running := remove1 w (po_running p)\<rparr>) else None)"
| "pool_step (Failed pressure) p = Some (p\<lparr>po_ctl := snd (record_failure pressure (po_now p) (po_ctl p))\<rparr>)"
| "pool_step Succeeded p = Some (p\<lparr>po_ctl := record_success (po_now p) (po_ctl p)\<rparr>)"
| "pool_step (BackoffDone token) p = Some (p\<lparr>po_ctl := complete_backoff token (po_now p) (po_ctl p)\<rparr>)"
| "pool_step (TimePasses dt) p = (if 0 \<le> dt then Some (p\<lparr>po_now := po_now p + dt\<rparr>) else None)"

inductive pool_reachable :: "'w pool \<Rightarrow> 'w pool \<Rightarrow> bool" for start where
  here: "pool_reachable start start"
| step: "pool_reachable start p \<Longrightarrow> pool_step e p = Some p' \<Longrightarrow> pool_reachable start p'"

definition new_pool :: "int \<Rightarrow> rat \<Rightarrow> rat \<Rightarrow> rat \<Rightarrow> rat \<Rightarrow> 'w pool" where
  "new_pool target base longest jitter now = \<lparr>po_ctl = new_controller target base longest jitter, po_running = [], po_now = now\<rparr>"

section \<open>The invariant\<close>

definition ctl_ok :: "rat \<Rightarrow> concurrency \<Rightarrow> bool" where
  "ctl_ok now c \<longleftrightarrow>
     1 \<le> cc_current c \<and> cc_current c \<le> cc_target c \<and> cc_target c \<le> 4 \<and>
     0 \<le> cc_active c \<and> cc_active c \<le> cc_target c \<and> 0 \<le> cc_failures c \<and> 0 \<le> cc_streak c \<and>
     0 \<le> cc_base c \<and> cc_base c \<le> cc_max c \<and> 0 \<le> cc_jitter c \<and>
     cc_cooldown_until c \<le> max 0 (now + cc_max c)"

definition pool_ok :: "'w pool \<Rightarrow> bool" where
  "pool_ok p \<longleftrightarrow> ctl_ok (po_now p) (po_ctl p) \<and> distinct (po_running p) \<and>
                 cc_active (po_ctl p) = int (length (po_running p))"

lemma penalty_bounds: "ctl_ok now c \<Longrightarrow> 0 \<le> penalty c n \<and> penalty c n \<le> cc_max c"
  by (auto simp: penalty_def ctl_ok_def min_def)

lemma ctl_ok_new: "ctl_ok now (new_controller target base longest jitter)"
  by (auto simp: ctl_ok_def new_controller_def Let_def)

lemma ctl_ok_poll: "ctl_ok now c \<Longrightarrow> ctl_ok now (snd (acquire_poll cancelled now c))"
  by (auto simp: ctl_ok_def acquire_poll_def Let_def)

lemma ctl_ok_release: "ctl_ok now c \<Longrightarrow> ctl_ok now (release c)"
  by (auto simp: ctl_ok_def release_def)

lemma ctl_ok_failure: "ctl_ok now c \<Longrightarrow> ctl_ok now (snd (record_failure pressure now c))"
  using penalty_bounds [of now c "cc_failures c + 1"]
  by (auto simp: ctl_ok_def record_failure_def Let_def)

lemma ctl_ok_success: "ctl_ok now c \<Longrightarrow> ctl_ok now (record_success t c)"
  by (auto simp: ctl_ok_def record_success_def Let_def)

lemma ctl_ok_backoff: "ctl_ok now c \<Longrightarrow> ctl_ok now (complete_backoff token now c)"
  by (auto simp: ctl_ok_def complete_backoff_def min_def max_def split: option.splits)

lemma ctl_ok_later: "ctl_ok now c \<Longrightarrow> now \<le> now' \<Longrightarrow> ctl_ok now' c"
  by (auto simp: ctl_ok_def max_def split: if_splits)

lemmas ctl_ok_intros = ctl_ok_new ctl_ok_poll ctl_ok_release ctl_ok_failure ctl_ok_success ctl_ok_backoff

lemma active_failure [simp]: "cc_active (snd (record_failure pressure now c)) = cc_active c"
  by (simp add: record_failure_def Let_def)

lemma active_success [simp]: "cc_active (record_success now c) = cc_active c"
  by (simp add: record_success_def Let_def)

lemma active_backoff [simp]: "cc_active (complete_backoff token now c) = cc_active c"
  by (simp add: complete_backoff_def split: option.split)

lemma acquire_poll_cases:
  obtains "acquire_poll cancelled now c = (PollAdmitted, c\<lparr>cc_active := cc_active c + 1\<rparr>)"
          "\<not> cancelled" "cc_active c < cc_current c" "cc_cooldown_until c \<le> now"
  | r where "acquire_poll cancelled now c = (r, c)" "r \<noteq> PollAdmitted"
            "cancelled \<or> cc_current c \<le> cc_active c \<or> now < cc_cooldown_until c"
proof (cases "cancelled \<or> cc_current c \<le> cc_active c \<or> now < cc_cooldown_until c")
  case True
  then have "snd (acquire_poll cancelled now c) = c \<and> fst (acquire_poll cancelled now c) \<noteq> PollAdmitted"
    by (auto simp: acquire_poll_def Let_def)
  with True that(2) [of "fst (acquire_poll cancelled now c)"] show ?thesis by (metis prod.collapse)
next
  case False
  then show ?thesis using that(1) by (simp add: acquire_poll_def Let_def)
qed

lemma pool_ok_step:
  assumes "pool_ok p" and "pool_step e p = Some p'"
  shows "pool_ok p'"
proof (cases e)
  case (Poll w cancelled)
  with assms show ?thesis
    using ctl_ok_poll [of "po_now p" "po_ctl p" cancelled]
    by (cases rule: acquire_poll_cases [of cancelled "po_now p" "po_ctl p"])
      (auto simp: pool_ok_def split: if_splits poll_result.splits)
next
  case (CallEnds w)
  with assms have w: "w \<in> set (po_running p)"
    and p': "p' = p\<lparr>po_ctl := release (po_ctl p), po_running := remove1 w (po_running p)\<rparr>"
    by (auto split: if_splits)
  from w have "0 < length (po_running p)" by auto
  with assms(1) w show ?thesis
    by (auto simp: pool_ok_def p' ctl_ok_release length_remove1) (simp add: release_def of_nat_diff Suc_leI)
next
  case (TimePasses dt)
  with assms show ?thesis by (auto simp: pool_ok_def ctl_ok_later split: if_splits)
qed (use assms in \<open>auto simp: pool_ok_def intro: ctl_ok_intros\<close>)

lemma pool_ok_new: "pool_ok (new_pool target base longest jitter now)"
  by (simp add: pool_ok_def new_pool_def ctl_ok_new) (simp add: new_controller_def Let_def)

lemma reachable_pool_ok: "pool_reachable start p \<Longrightarrow> pool_ok start \<Longrightarrow> pool_ok p"
  by (induction rule: pool_reachable.induct) (auto intro: pool_ok_step)

text \<open>The fields nothing changes.\<close>

definition ctl_config :: "concurrency \<Rightarrow> int \<times> rat \<times> rat \<times> rat" where
  "ctl_config c = (cc_target c, cc_base c, cc_max c, cc_jitter c)"

lemma ctl_config_simps [simp]:
  "ctl_config (snd (acquire_poll cancelled now c)) = ctl_config c"
  "ctl_config (release c) = ctl_config c"
  "ctl_config (snd (record_failure pressure now c)) = ctl_config c"
  "ctl_config (record_success now c) = ctl_config c"
  "ctl_config (complete_backoff token now c) = ctl_config c"
  by (auto simp: ctl_config_def controller_defs Let_def split: option.splits)

lemma pool_step_config: "pool_step e p = Some p' \<Longrightarrow> ctl_config (po_ctl p') = ctl_config (po_ctl p)"
proof (cases e)
  case (Poll w cancelled)
  assume "pool_step e p = Some p'"
  with Poll show ?thesis
    using ctl_config_simps(1) [of cancelled "po_now p" "po_ctl p"]
    by (cases "acquire_poll cancelled (po_now p) (po_ctl p)") (auto split: if_splits poll_result.splits)
qed (auto split: if_splits)

lemma reachable_config: "pool_reachable start p \<Longrightarrow> ctl_config (po_ctl p) = ctl_config (po_ctl start)"
  by (induction rule: pool_reachable.induct) (auto dest: pool_step_config)

section \<open>What the limit guarantees\<close>

lemma reachable_new_pool:
  assumes "pool_reachable (new_pool target base longest jitter start) p"
  shows "pool_ok p" and "cc_target (po_ctl p) = max 1 (min target 4)"
    and "cc_max (po_ctl p) = max (max 0 base) longest"
proof -
  show "pool_ok p" by (rule reachable_pool_ok [OF assms pool_ok_new])
  from reachable_config [OF assms]
  show "cc_target (po_ctl p) = max 1 (min target 4)" and "cc_max (po_ctl p) = max (max 0 base) longest"
    by (simp_all add: ctl_config_def new_pool_def new_controller_def Let_def)
qed

text \<open>C24: however the workers of a job interleave, the provider never sees more calls at once than the
  configured number, and never more than four, while the controller always leaves room for at
  least one; the count it keeps is exactly the number of calls in flight.\<close>
theorem concurrency_limit_kept:
  assumes "pool_reachable (new_pool target base longest jitter start) p"
  shows "int (length (po_running p)) \<le> max 1 (min target 4) \<and> distinct (po_running p) \<and>
         cc_active (po_ctl p) = int (length (po_running p)) \<and>
         1 \<le> cc_current (po_ctl p) \<and> cc_current (po_ctl p) \<le> max 1 (min target 4)"
  using reachable_new_pool [OF assms] by (auto simp: pool_ok_def ctl_ok_def)

text \<open>The limiter cannot starve a job. Whatever failures came before, once no call is in flight a
  worker that is not cancelled is admitted as soon as the longest configured back-off has
  passed without a new failure.\<close>
theorem concurrency_never_stuck:
  assumes "pool_reachable (new_pool target base longest jitter start) p" and "po_running p = []"
    and "0 \<le> start" and "start \<le> po_now p" and "po_now p + max (max 0 base) longest \<le> now"
  shows "\<exists>c. acquire_poll False now (po_ctl p) = (PollAdmitted, c)"
proof -
  note ok = reachable_new_pool [OF assms(1)]
  then have "cc_active (po_ctl p) < cc_current (po_ctl p)" using assms(2) by (simp add: pool_ok_def ctl_ok_def)
  moreover have "cc_cooldown_until (po_ctl p) \<le> now"
  proof -
    have "0 \<le> max (max 0 base) longest" by simp
    with assms(3-5) ok(1,3) show ?thesis by (auto simp: pool_ok_def ctl_ok_def max_def split: if_splits)
  qed
  ultimately show ?thesis by (simp add: acquire_poll_def)
qed

text \<open>Recovery: successes without a failure in between.\<close>

fun successes :: "nat \<Rightarrow> rat \<Rightarrow> concurrency \<Rightarrow> concurrency" where
  "successes 0 now c = c"
| "successes (Suc n) now c = successes n now (record_success now c)"

lemma successes_add: "successes (m + n) now c = successes n now (successes m now c)"
  by (induction m arbitrary: c) simp_all

lemma record_success_keeps [simp]:
  "cc_target (record_success now c) = cc_target c"
  "cc_cooldown_until (record_success now c) = cc_cooldown_until c"
  by (simp_all add: record_success_def Let_def)

lemma successes_keep [simp]:
  "cc_target (successes n now c) = cc_target c"
  "cc_cooldown_until (successes n now c) = cc_cooldown_until c"
  by (induction n arbitrary: c) simp_all

lemma successes_stay:
  "cc_current c = cc_target c \<Longrightarrow> cc_current (successes n now c) = cc_target c"
  by (induction n arbitrary: c) (simp_all add: record_success_def Let_def)

text \<open>A streak of at most six opens one more slot, so every success pays off one unit of this debt.\<close>

definition recovery_debt :: "concurrency \<Rightarrow> int" where
  "recovery_debt c = (if cc_current c < cc_target c then 6 * (cc_target c - cc_current c) - min (cc_streak c) 5 else 0)"

lemma recovery_debt_success:
  assumes "cc_target c \<le> 4" and "1 \<le> cc_current c" and "cc_current c < cc_target c" and "0 \<le> cc_streak c"
    and "cc_cooldown_until c \<le> now"
  shows "recovery_debt (record_success now c) \<le> recovery_debt c - 1 \<and> cc_current c \<le> cc_current (record_success now c) \<and>
         cc_current (record_success now c) \<le> cc_target c \<and> 0 \<le> cc_streak (record_success now c)"
  using assms by (auto simp: recovery_debt_def record_success_def Let_def)

lemma successes_reach:
  assumes "cc_target c \<le> 4" and "1 \<le> cc_current c" and "cc_current c \<le> cc_target c" and "0 \<le> cc_streak c"
    and "cc_cooldown_until c \<le> now" and "recovery_debt c \<le> int n"
  shows "cc_current (successes n now c) = cc_target c"
  using assms
proof (induction n arbitrary: c)
  case 0
  then show ?case by (auto simp: recovery_debt_def split: if_splits)
next
  case (Suc n)
  show ?case
  proof (cases "cc_current c < cc_target c")
    case True
    note s = recovery_debt_success [OF Suc.prems(1,2) True Suc.prems(4,5)]
    with Suc.prems have "cc_current (successes n now (record_success now c)) = cc_target (record_success now c)"
      by (intro Suc.IH) auto
    then show ?thesis by simp
  next
    case False
    with Suc.prems(3) show ?thesis using successes_stay [of c "Suc n" now] by simp
  qed
qed

text \<open>The limit recovers. From any state a job can be in, once the cool-down is over, at most
  eighteen successful chunks in a row bring the number of slots back to the configured one, and
  further successes keep it there.\<close>
theorem concurrency_recovers:
  assumes "pool_reachable (new_pool target base longest jitter start) p"
    and "cc_cooldown_until (po_ctl p) \<le> now" and "18 \<le> n"
  shows "cc_current (successes n now (po_ctl p)) = max 1 (min target 4)"
proof -
  note ok = reachable_new_pool [OF assms(1)]
  then have "ctl_ok (po_now p) (po_ctl p)" by (simp add: pool_ok_def)
  then have "recovery_debt (po_ctl p) \<le> int n" and "cc_target (po_ctl p) \<le> 4" and "1 \<le> cc_current (po_ctl p)"
    and "cc_current (po_ctl p) \<le> cc_target (po_ctl p)" and "0 \<le> cc_streak (po_ctl p)"
    using assms(3) by (auto simp: ctl_ok_def recovery_debt_def)
  with successes_reach [OF _ _ _ _ assms(2)] ok(2) show ?thesis by simp
qed

text \<open>A pool after two failures of a worker.\<close>

definition demo_pool :: "nat pool" where
  "demo_pool = (new_pool 3 1 30 (35 / 100) 5)
     \<lparr>po_ctl := snd (record_failure True 5 (snd (record_failure True 5 (new_controller 3 1 30 (35 / 100)))))\<rparr>"

lemma demo_pool_reachable: "pool_reachable (new_pool 3 1 30 (35 / 100) 5) demo_pool"
proof -
  let ?s = "new_pool 3 1 30 (35 / 100) 5 :: nat pool"
  have "pool_reachable ?s (?s\<lparr>po_ctl := snd (record_failure True 5 (new_controller 3 1 30 (35 / 100)))\<rparr>)"
    by (rule pool_reachable.step [OF pool_reachable.here, where e = "Failed True"]) (simp add: new_pool_def)
  then show ?thesis
    by (rule pool_reachable.step [where e = "Failed True"]) (simp add: new_pool_def demo_pool_def)
qed

lemma demo_pool_state:
  "po_running demo_pool = [] \<and> po_now demo_pool = 5 \<and> cc_current (po_ctl demo_pool) = 1 \<and>
   cc_cooldown_until (po_ctl demo_pool) = 7"
  by code_simp

lemma concurrency_limit_kept_witness:
  "cc_current (po_ctl demo_pool) = 1 \<and> int (length (po_running demo_pool)) \<le> max 1 (min 3 4)"
  using concurrency_limit_kept [OF demo_pool_reachable] demo_pool_state by simp

lemma concurrency_never_stuck_witness:
  "\<exists>c. acquire_poll False 35 (po_ctl demo_pool) = (PollAdmitted, c)"
  by (rule concurrency_never_stuck [OF demo_pool_reachable]) (simp_all add: demo_pool_state)

lemma concurrency_recovers_witness: "cc_current (successes 18 7 (po_ctl demo_pool)) = 3"
  using concurrency_recovers [OF demo_pool_reachable, of 7 18] demo_pool_state by simp

end
