(* ===== verification/Import_Errors.thy ===== *)
theory Import_Errors
  imports Import_Runner Import_Redact Import_Payload Import_Store
begin

text \<open>
  What an import records of an exception (server/chat_import.py): a message fit to be shown, and a
  code with details for diagnosis, both taken from the chain of causes.
\<close>

section \<open>Messages\<close>

definition class_name :: "exn_link \<Rightarrow> pystr" where
  "class_name x = (if ex_classes x = [] then [] else hd (ex_classes x))"

definition safe_error_message :: "(int \<Rightarrow> bool) \<Rightarrow> exn \<Rightarrow> pystr" where
  "safe_error_message alnum e =
    (let message = (case e of [] \<Rightarrow> [] | x # _ \<Rightarrow> if py_strip (ex_text x) = [] then class_name x else py_strip (ex_text x))
     in take 1000 (py_strip (re_sub (many1 is_space) (\<lambda>_. U '' '') (redact_secrets alnum message))))"

section \<open>Diagnosis\<close>

definition identifier_char :: "int \<Rightarrow> bool" where
  "identifier_char c = (ascii_letter c \<or> ascii_digit c \<or> one_of ''_.-'' c)"

definition diagnostic_identifier :: "pystr \<Rightarrow> pystr option" where
  "diagnostic_identifier s =
    (let t = py_strip s in if t \<noteq> [] \<and> length t \<le> 128 \<and> list_all identifier_char t then Some t else None)"

fun first_identifier :: "pystr list \<Rightarrow> pystr option" where
  "first_identifier [] = None"
| "first_identifier (s # ss) = (case diagnostic_identifier s of Some t \<Rightarrow> Some t | None \<Rightarrow> first_identifier ss)"

definition capital :: "int \<Rightarrow> bool" where
  "capital c = (65 \<le> c \<and> c \<le> 90)"

fun squeeze :: "int \<Rightarrow> pystr \<Rightarrow> pystr" where
  "squeeze k (c # d # s) = (if c = k \<and> d = k then squeeze k (d # s) else c # squeeze k (d # s))"
| "squeeze k s = s"

definition snake_case_identifier :: "pystr \<Rightarrow> pystr" where
  "snake_case_identifier s =
    (let separated = concat (map (\<lambda>(i, c). if i \<noteq> 0 \<and> capital c then [95, c] else [c]) (enumerate 0 s));
         joined = map (\<lambda>c. if c = 45 \<or> c = 46 then 95 else c) separated
     in take 128 (lower_text (strip_chars (\<lambda>c. c = 95) (squeeze 95 joined))))"

definition int_text :: "int \<Rightarrow> pystr" where
  "int_text n = (if n < 0 then 45 # decimal (nat (- n)) else decimal (nat n))"

definition failure_markers :: "(string \<times> string) list" where
  "failure_markers =
    [(''query embedding'', ''query_embedding''), (''memory embedding'', ''memory_embedding''),
     (''entity embedding'', ''entity_embedding''), (''model call'', ''model_call'')]"

definition failure_point :: "exn \<Rightarrow> pystr option \<Rightarrow> pystr option" where
  "failure_point e phase =
    (let outer = lower_text (case e of [] \<Rightarrow> [] | x # _ \<Rightarrow> ex_text x)
     in case List.find (\<lambda>(marker, _). contains (U marker) outer) failure_markers of
          Some (_, point) \<Rightarrow> Some (U point)
        | None \<Rightarrow> phase)"

definition detail :: "string \<Rightarrow> pystr option \<Rightarrow> (pystr \<times> json) list" where
  "detail k x = (case x of None \<Rightarrow> [] | Some s \<Rightarrow> [(U k, JStr s)])"

definition int_detail :: "string \<Rightarrow> int option \<Rightarrow> (pystr \<times> json) list" where
  "int_detail k x = (case x of None \<Rightarrow> [] | Some n \<Rightarrow> [(U k, JInt n)])"

fun first_some :: "'a option list \<Rightarrow> 'a option" where
  "first_some [] = None"
| "first_some (Some x # xs) = Some x"
| "first_some (None # xs) = first_some xs"

text \<open>The root of the chain is its last exception.\<close>

definition import_error_diagnostics :: "exn \<Rightarrow> pystr \<times> (pystr \<times> json) list" where
  "import_error_diagnostics e =
    (let root_module = (if e = [] then [] else ex_module (last e));
         root_class = (if e = [] then [] else class_name (last e));
         reason = first_identifier (map ex_reason e);
         phase = first_identifier (map ex_subphase e);
         provider = first_identifier (concat (map ex_codes e));
         status = status_code e;
         sqlite_code = (if e = [] then None else ex_sqlite_code (last e));
         sqlite_name = (if e = [] then None else diagnostic_identifier (ex_sqlite_name (last e)));
         point = failure_point e phase;
         snake = snake_case_identifier root_class;
         code = first_some [reason, provider, map_option lower_text sqlite_name,
                            map_option (\<lambda>n. U ''http_'' @ int_text n) status, point,
                            if snake = [] then None else Some snake]
     in (take 128 (case code of None \<Rightarrow> U ''import_error'' | Some c \<Rightarrow> c),
         [(U ''root_exception_module'', JStr (take 255 root_module)), (U ''root_exception_type'', JStr (take 255 root_class))]
         @ detail ''operation_phase'' phase @ detail ''failure_point'' point @ detail ''validation_reason'' reason
         @ int_detail ''status_code'' status @ detail ''provider_error_code'' provider
         @ int_detail ''sqlite_errorcode'' sqlite_code @ detail ''sqlite_errorname'' sqlite_name))"

section \<open>The exceptions of a run\<close>

text \<open>How the exceptions a run raises itself look to a handler.\<close>

fun exn_of :: "run_exn \<Rightarrow> exn" where
  "exn_of LeaseLost = builtin_exn [''ImportLeaseLost'', ''RuntimeError'', ''Exception''] (U ''Memory import lease lost.'')"
| "exn_of (Raised e) = e"
| "exn_of (RunError s) = builtin_exn [''RuntimeError'', ''Exception''] s"
| "exn_of (SplitError (RoleConflict i)) =
    builtin_exn [''ValueError'', ''Exception''] (U ''source_index '' @ int_text i @ U '' is assigned to multiple roles'')"
| "exn_of (SplitError (DateOverflow s)) = builtin_exn [''OverflowError'', ''ArithmeticError'', ''Exception''] s"

definition plain_error :: "pystr \<Rightarrow> pystr \<Rightarrow> error_args" where
  "plain_error source message =
    \<lparr>ea_source = source, ea_message = message, ea_type = U ''import_error'', ea_retryable = False, ea_attempt = None,
     ea_import_key = None, ea_code = None, ea_details = []\<rparr>"

text \<open>\<open>details.setdefault(k, v)\<close>.\<close>

definition set_default :: "string \<Rightarrow> pystr \<Rightarrow> (pystr \<times> json) list \<Rightarrow> (pystr \<times> json) list" where
  "set_default k v details = (if U k \<in> set (map fst details) then details else details @ [(U k, JStr v)])"

definition job_exception :: "(int \<Rightarrow> bool) \<Rightarrow> pystr \<Rightarrow> run_exn \<Rightarrow> pystr option \<Rightarrow> error_args" where
  "job_exception alnum source x operation_phase =
    (let (code, details) = import_error_diagnostics (exn_of x)
     in (plain_error source (safe_error_message alnum (exn_of x)))
          \<lparr>ea_code := Some code,
           ea_details := (case nonempty operation_phase of
              None \<Rightarrow> details
            | Some p \<Rightarrow> set_default ''failure_point'' p (set_default ''operation_phase'' p details))\<rparr>)"

section \<open>What is kept is bounded\<close>

lemma py_strip_subset: "set (py_strip s) \<subseteq> set s"
  by (auto simp: py_strip_def dest!: set_dropWhileD)

lemma in_lang_many1: "p c \<Longrightarrow> in_lang (many1 p) [c]"
  using reps_chars [of p "[c]"] by (auto simp: many1_def)

lemma solid_many1: "solid (many1 p)"
  unfolding solid_def
proof (intro allI impI)
  fix st st' assume "st' \<in> set (matches (many1 p) st)"
  then have *: "st' \<in> set (repeat True (matches (Sat p)) (length (sc_ahead st)) 1 None st)" by (simp add: many1_def)
  show "shorter st st'"
  proof (cases "length (sc_ahead st)")
    case 0
    with * show ?thesis by (simp add: repeat.simps)
  next
    case (Suc n)
    with * obtain u where u: "shorter st u" "st' \<in> set (repeat True (matches (Sat p)) n 0 None u)"
      by (subst (asm) repeat.simps) (auto simp del: matches.simps)
    have "moves u st'" by (rule repeat_moves [OF matches_moves u(2)])
    with u(1) show ?thesis by (auto simp: shorter_def moves_def)
  qed
qed

text \<open>What an expression that takes every single character of a kind leaves of that kind is what it puts in.\<close>

lemma replaced_all:
  assumes "solid r" and "\<And>c. p c \<Longrightarrow> in_lang r [c]" and "p c"
  shows "c \<in> set (re_replace r (\<lambda>_. t) behind s) \<Longrightarrow> c \<in> set t"
proof (induction "length s" arbitrary: behind s rule: less_induct)
  case less
  show ?case
  proof (cases s)
    case (Cons d u)
    let ?st = "\<lparr>sc_behind = behind, sc_ahead = s, sc_groups = []\<rparr>"
    show ?thesis
    proof (cases "re_at r behind s")
      case None
      have "\<not> p d"
      proof
        assume "p d"
        then have "moved [d] ?st \<in> set (matches r ?st)" using assms(2) Cons by (intro matches_complete) auto
        with None show False by (auto simp: re_at_def split: list.splits)
      qed
      with less Cons None assms(3) show ?thesis by auto
    next
      case (Some st)
      then have "st \<in> set (matches r ?st)" by (auto simp: re_at_def split: list.splits)
      with assms(1) have "shorter ?st st" by (simp add: solid_def)
      then have "length (sc_ahead st) < length s" by (simp add: shorter_def)
      with less Cons Some show ?thesis by auto
    qed
  qed (use less.prems in simp)
qed

lemma first_identifier_some: "first_identifier ss = Some t \<Longrightarrow> t \<noteq> []"
  by (induction ss) (auto simp: diagnostic_identifier_def Let_def split: if_splits option.splits)

lemma first_some_nonempty: "first_some xs = Some (t :: pystr) \<Longrightarrow> (\<And>s. Some s \<in> set xs \<Longrightarrow> s \<noteq> []) \<Longrightarrow> t \<noteq> []"
  by (induction xs rule: first_some.induct) auto

lemma failure_point_some: "(\<And>s. phase = Some s \<Longrightarrow> s \<noteq> []) \<Longrightarrow> failure_point e phase = Some t \<Longrightarrow> t \<noteq> []"
  by (auto simp: failure_point_def Let_def failure_markers_def U_def split: option.splits if_splits)

lemma lower_text_empty: "lower_text s = [] \<longleftrightarrow> s = []"
  by (cases s) (simp_all add: lower_text_def)

text \<open>What is kept of an exception is fit for a log and for its columns: the message is one line of at most 1000
  characters, without blanks but single spaces inside; the code is there and has at most 128.\<close>

theorem kept_error_bounded:
  "length (safe_error_message alnum e) \<le> 1000 \<and>
   (\<forall>c\<in>set (safe_error_message alnum e). is_space c \<longrightarrow> c = 32) \<and>
   fst (import_error_diagnostics e) \<noteq> [] \<and> length (fst (import_error_diagnostics e)) \<le> 128"
proof -
  have "c = 32" if c: "c \<in> set (safe_error_message alnum e)" "is_space c" for c
  proof -
    from c(1) obtain m where "c \<in> set (re_sub (many1 is_space) (\<lambda>_. U '' '') m)"
      unfolding safe_error_message_def Let_def by (meson in_set_takeD py_strip_subset subsetD)
    then have "c \<in> set (U '' '')"
      unfolding re_sub_def using replaced_all [of "many1 is_space" is_space c, OF solid_many1 in_lang_many1 c(2)] by blast
    then show ?thesis by (simp add: U_def)
  qed
  moreover have "fst (import_error_diagnostics e) \<noteq> []"
  proof -
    have phase: "first_identifier (map ex_subphase e) = Some s \<Longrightarrow> s \<noteq> []" for s by (rule first_identifier_some)
    have sqlite: "s \<noteq> []" if "Some s = map_option lower_text (if e = [] then None else diagnostic_identifier (ex_sqlite_name (last e)))" for s
      using that by (auto simp: diagnostic_identifier_def Let_def lower_text_empty split: if_splits)
    define codes where "codes = [first_identifier (map ex_reason e), first_identifier (concat (map ex_codes e)),
      map_option lower_text (if e = [] then None else diagnostic_identifier (ex_sqlite_name (last e))),
      map_option (\<lambda>n. U ''http_'' @ int_text n) (status_code e), failure_point e (first_identifier (map ex_subphase e)),
      if snake_case_identifier (if e = [] then [] else class_name (last e)) = [] then None
      else Some (snake_case_identifier (if e = [] then [] else class_name (last e)))]"
    have http: "U ''http_'' \<noteq> []" by (simp add: U_def)
    have "s \<noteq> []" if "Some s \<in> set codes" for s
    proof -
      from that consider "Some s = first_identifier (map ex_reason e)" | "Some s = first_identifier (concat (map ex_codes e))"
        | "Some s = map_option lower_text (if e = [] then None else diagnostic_identifier (ex_sqlite_name (last e)))"
        | "Some s = map_option (\<lambda>n. U ''http_'' @ int_text n) (status_code e)"
        | "Some s = failure_point e (first_identifier (map ex_subphase e))"
        | "s = snake_case_identifier (if e = [] then [] else class_name (last e))" "s \<noteq> []"
        unfolding codes_def list.set insert_iff empty_iff by (metis option.distinct(1) option.inject)
      then show ?thesis
      proof cases
        case 4
        with http show ?thesis by (cases "status_code e") auto
      next
        case 5
        from failure_point_some [OF phase this [symmetric]] show ?thesis .
      qed (use sqlite first_identifier_some in metis)+
    qed
    then have "first_some codes = Some t \<Longrightarrow> t \<noteq> []" for t using first_some_nonempty by blast
    moreover have "fst (import_error_diagnostics e) = take 128 (case first_some codes of None \<Rightarrow> U ''import_error'' | Some c \<Rightarrow> c)"
      by (simp only: import_error_diagnostics_def Let_def codes_def fst_conv)
    ultimately show ?thesis by (auto simp: U_def split: option.split)
  qed
  moreover have "length (fst (import_error_diagnostics e)) \<le> 128"
    by (simp only: import_error_diagnostics_def Let_def fst_conv length_take min.cobounded2)
  ultimately show ?thesis by (simp add: safe_error_message_def Let_def)
qed

end
