(* ===== verification/Import_Job.thy ===== *)
theory Import_Job
  imports Import_Errors Import_Resume Import_Transcript Import_Archive
begin

text \<open>
  A whole import (server/chat_import.py, \<open>run_import_job\<close>): discovering the files, reading them, preparing
  the chunks, the workers, the graph, and how the job ends. The job is known through the
  operations of the job store, which may fail; they, the hooks and the reading of a file are
  functions on an arbitrary world, as for the worker. The workers are taken one after
  the other: the first empties the queue or dies of an exception, the next goes on with what is left.
  What a worker counts while it processes a chunk is written to the job when it is done with the chunk.
\<close>

section \<open>The environment\<close>

text \<open>What the run uses of the libraries, and where archives are unpacked to.\<close>

record job_lib =
  jl_alnum :: "int \<Rightarrow> bool"
  jl_text_of :: "json \<Rightarrow> pystr"
  jl_dumps :: "json \<Rightarrow> pystr"
  jl_stamp :: "json \<Rightarrow> pystr option"
  jl_loads :: "pystr \<Rightarrow> json option"
  jl_hash :: "json \<Rightarrow> pystr"
  jl_encoder :: "encoder option"
  jl_dates :: date_lib
  jl_snapshot :: "import_options \<Rightarrow> json"
  jl_parse_exn :: "parse_error \<Rightarrow> exn"
  jl_archive_text :: "archive_error \<Rightarrow> pystr"
  jl_writable :: "disk \<Rightarrow> path \<Rightarrow> bool"
  jl_destination :: "nat \<Rightarrow> pystr \<Rightarrow> path"

text \<open>\<open>jn_update\<close> says whether the job was there to be changed. \<open>jn_phase\<close> measures and records how long a
  phase took.\<close>

record 'w job_env =
  jn_worker :: "'w env"
  jn_get :: "'w \<Rightarrow> import_job option \<times> 'w"
  jn_update :: "job_col list \<Rightarrow> 'w \<Rightarrow> (run_exn + bool) \<times> 'w"
  jn_increment :: "(job_counter \<times> int) list \<Rightarrow> 'w \<Rightarrow> (run_exn + unit) \<times> 'w"
  jn_error :: "error_args \<Rightarrow> 'w \<Rightarrow> (run_exn + unit) \<times> 'w"
  jn_phase :: "pystr \<Rightarrow> 'w \<Rightarrow> (run_exn + unit) \<times> 'w"
  jn_inputs :: "candidate list"
  jn_disk :: disk
  jn_read :: "path \<Rightarrow> 'w \<Rightarrow> (run_exn + pystr) \<times> 'w"
  jn_statuses :: "('w \<Rightarrow> (run_exn + (pystr \<times> pystr) list) \<times> 'w) option"
  jn_existing :: "(pystr list \<Rightarrow> 'w \<Rightarrow> (run_exn + pystr list) \<times> 'w) option"
  jn_sync :: "('w \<Rightarrow> (run_exn + pystr option) \<times> 'w) option"
  jn_finalize :: "(bool \<Rightarrow> 'w \<Rightarrow> (run_exn + unit) \<times> 'w) option"

section \<open>Steps\<close>

text \<open>The run's own variables, and the changes it has written to the job.\<close>

record 'w job_run =
  jr_runner :: "'w runner"
  jr_parse_failed :: bool
  jr_writes :: "job_col list list"
  jr_removed :: bool

text \<open>How a piece of the run ends: it goes on with a result, the function returns, or an exception is raised.
  \<open>NoFuel\<close> is no end of the program: the for the splits was not enough.\<close>

datatype 'a step = Go 'a | Leave | Throw run_exn | NoFuel

type_synonym ('w, 'a) act = "'w job_run \<Rightarrow> 'a step \<times> 'w job_run"

definition go :: "'a \<Rightarrow> ('w, 'a) act" where
  "go x s = (Go x, s)"

definition leave :: "('w, 'a) act" where
  "leave s = (Leave, s)"

definition throw :: "run_exn \<Rightarrow> ('w, 'a) act" where
  "throw e s = (Throw e, s)"

definition and_then :: "('w, 'a) act \<Rightarrow> ('a \<Rightarrow> ('w, 'b) act) \<Rightarrow> ('w, 'b) act" where
  "and_then m f s =
    (case m s of
       (Go x, s') \<Rightarrow> f x s'
     | (Leave, s') \<Rightarrow> (Leave, s')
     | (Throw e, s') \<Rightarrow> (Throw e, s')
     | (NoFuel, s') \<Rightarrow> (NoFuel, s'))"

definition try_except :: "('w, 'a) act \<Rightarrow> (run_exn \<Rightarrow> ('w, 'a) act) \<Rightarrow> ('w, 'a) act" where
  "try_except m h s = (case m s of (Throw e, s') \<Rightarrow> h e s' | (x, s') \<Rightarrow> (x, s'))"

definition try_finally :: "('w, 'a) act \<Rightarrow> ('w, unit) act \<Rightarrow> ('w, 'a) act" where
  "try_finally m f s =
    (case m s of (x, s') \<Rightarrow>
       (case f s' of
          (Go _, s'') \<Rightarrow> (x, s'')
        | (Leave, s'') \<Rightarrow> (Leave, s'')
        | (Throw e, s'') \<Rightarrow> (Throw e, s'')
        | (NoFuel, s'') \<Rightarrow> (NoFuel, s'')))"

text \<open>An operation on the worker's state, and one of the world that may raise an exception.\<close>

definition on_runner :: "('w runner \<Rightarrow> 'a \<times> 'w runner) \<Rightarrow> ('w, 'a) act" where
  "on_runner q s = (let (x, r) = q (jr_runner s) in (Go x, s\<lparr>jr_runner := r\<rparr>))"

definition calls :: "('w \<Rightarrow> (run_exn + 'a) \<times> 'w) \<Rightarrow> ('w, 'a) act" where
  "calls q s =
    (let (x, w) = q (rn_world (jr_runner s)); s' = s\<lparr>jr_runner := (jr_runner s)\<lparr>rn_world := w\<rparr>\<rparr>
     in case x of Inl e \<Rightarrow> (Throw e, s') | Inr y \<Rightarrow> (Go y, s'))"

definition current_job :: "'w job_env \<Rightarrow> ('w, import_job option) act" where
  "current_job en = on_runner (\<lambda>r. let (job, w) = jn_get en (rn_world r) in (job, r\<lparr>rn_world := w\<rparr>))"

definition job_stopped :: "'w job_env \<Rightarrow> 'w \<Rightarrow> bool \<times> 'w" where
  "job_stopped en w =
    (let (job, w') = jn_get en w
     in case job of
          None \<Rightarrow> (True, w')
        | Some j \<Rightarrow> if ij_cancel_requested j then (True, w') else en_external (jn_worker en) w')"

definition worker_env :: "'w job_env \<Rightarrow> 'w env" where
  "worker_env en = (jn_worker en)\<lparr>en_cancelled := job_stopped en\<rparr>"

text \<open>\<open>cancelled\<close> and \<open>externally_cancelled\<close>.\<close>

definition stopped :: "'w job_env \<Rightarrow> ('w, bool) act" where
  "stopped en = on_runner (ask_cancelled (worker_env en))"

definition taken_away :: "'w job_env \<Rightarrow> ('w, bool) act" where
  "taken_away en = on_runner (ask_external (worker_env en))"

definition raise_fence :: "('w, unit) act" where
  "raise_fence s = (Go (), s\<lparr>jr_runner := (jr_runner s)\<lparr>rn_fence_lost := True\<rparr>\<rparr>)"

definition note_write :: "job_col list \<Rightarrow> bool \<Rightarrow> ('w, unit) act" where
  "note_write changes found s = (Go (), if found then s\<lparr>jr_writes := jr_writes s @ [changes]\<rparr> else s)"

definition note_parse_failure :: "('w, unit) act" where
  "note_parse_failure s = (Go (), s\<lparr>jr_parse_failed := True\<rparr>)"

definition write_changes :: "'w job_env \<Rightarrow> job_col list \<Rightarrow> ('w, unit) act" where
  "write_changes en changes = and_then (calls (jn_update en changes)) (note_write changes)"

definition mark_job_cancelled :: "'w job_env \<Rightarrow> job_col list \<Rightarrow> ('w, unit) act" where
  "mark_job_cancelled en changes =
    and_then (taken_away en) (\<lambda>t.
      if t then go () else write_changes en (JcStatus JCancelled # changes @ [JcSourceRetryRequired True]))"

definition stop_job :: "'w job_env \<Rightarrow> job_col list \<Rightarrow> ('w, 'a) act" where
  "stop_job en changes = and_then (mark_job_cancelled en changes) (\<lambda>_. leave)"

fun each :: "('x \<Rightarrow> ('w, unit) act) \<Rightarrow> 'x list \<Rightarrow> ('w, unit) act" where
  "each f [] = go ()"
| "each f (x # xs) = and_then (f x) (\<lambda>_. each f xs)"

definition job_error_at :: "'w job_env \<Rightarrow> pystr \<Rightarrow> string \<Rightarrow> string \<Rightarrow> ('w, unit) act" where
  "job_error_at en source message error_type =
    calls (jn_error en ((plain_error source (U message))\<lparr>ea_type := U error_type, ea_retryable := True\<rparr>))"

section \<open>Discovery\<close>

definition discovery_exn :: "job_lib \<Rightarrow> discovery_error \<Rightarrow> exn" where
  "discovery_exn lib e =
    (case e of
       ImportExpandsBeyond n \<Rightarrow> builtin_exn [''ValueError'', ''Exception'']
         (U ''Import expands beyond '' @ int_text (n div (1024 * 1024)) @ U '' MB.'')
     | ImportHoldsBeyond n \<Rightarrow> builtin_exn [''ValueError'', ''Exception'']
         (U ''Import contains more than '' @ int_text (n div (1024 * 1024)) @ U '' MB of documents.'')
     | ImportTooManyFiles n \<Rightarrow> builtin_exn [''ValueError'', ''Exception'']
         (U ''Import contains more than '' @ int_text n @ U '' supported files.'')
     | ArchiveFailure x \<Rightarrow> builtin_exn [''RuntimeError'', ''Exception''] (jl_archive_text lib x))"

definition warning_text :: "job_lib \<Rightarrow> import_warning \<Rightarrow> pystr" where
  "warning_text lib w =
    (case w of
       UnsafeEntry name \<Rightarrow> U ''Skipped unsafe archive entry: '' @ name
     | OversizedFile name \<Rightarrow> U ''Skipped oversized file: '' @ name
     | ArchiveLink name \<Rightarrow> U ''Skipped archive link: '' @ name
     | CouldNotOpen name e \<Rightarrow> U ''Could not open '' @ name @ U '': '' @ jl_archive_text lib e)"

text \<open>The check before every stage: the job may be gone or cancelled.\<close>

definition unless_stopped :: "'w job_env \<Rightarrow> job_col list \<Rightarrow> (import_job \<Rightarrow> ('w, 'a) act) \<Rightarrow> ('w, 'a) act" where
  "unless_stopped en changes f =
    and_then (current_job en) (\<lambda>job. case job of
      None \<Rightarrow> stop_job en changes
    | Some j \<Rightarrow> and_then (stopped en) (\<lambda>c. if c then stop_job en changes else f j))"

definition discover :: "'w job_env \<Rightarrow> job_lib \<Rightarrow> ('w, source_file list) act" where
  "discover en lib =
    and_then (write_changes en [JcStatus JDiscovering, JcPhase (U ''parsing'')]) (\<lambda>_.
      case fst (discover_input_files default_limits (jl_writable lib) (jl_destination lib) (jn_inputs en) (jn_disk en)) of
        Inl e \<Rightarrow> throw (Raised (discovery_exn lib e))
      | Inr d \<Rightarrow>
          unless_stopped en [] (\<lambda>job.
            and_then (write_changes en [JcCount DiscoveredFiles (int (length (dr_files d))),
                                     JcCount SkippedFiles (ij_count job SkippedFiles + dr_skipped d)]) (\<lambda>_.
            and_then (each (\<lambda>w. calls (jn_error en (plain_error (U ''discovery'') (warning_text lib w)))) (dr_warnings d)) (\<lambda>_.
            if dr_files d = []
            then throw (Raised (builtin_exn [''ValueError'', ''Exception''] (U ''No supported chat history files were found.'')))
            else go (dr_files d)))))"

section \<open>Reading\<close>

definition file_stem :: "pystr \<Rightarrow> pystr" where
  "file_stem name = take (length name - length (file_suffix name)) name"

definition parse_source ::
  "'w job_env \<Rightarrow> job_lib \<Rightarrow> import_options \<Rightarrow> source_file \<Rightarrow> ('w, conversation list) act" where
  "parse_source en lib op f =
    and_then (calls (jn_read en (sf_path f))) (\<lambda>content.
      let name = path_name (sf_path f)
      in case parse_file (jl_alnum lib) (jl_text_of lib) (jl_dumps lib) (jl_stamp lib) (jl_loads lib) content
                (file_stem name) (file_suffix name) (sf_display f) (Some (io_source_app op)) of
           Inl e \<Rightarrow> throw (Raised (jl_parse_exn lib e))
         | Inr [] \<Rightarrow>
             and_then note_parse_failure (\<lambda>_. and_then (calls (jn_increment en [(SkippedFiles, 1)])) (\<lambda>_.
               and_then (job_error_at en (sf_display f) ''No conversations were found in this file.'' ''no_conversations'') (\<lambda>_.
               go [])))
         | Inr cs \<Rightarrow> go cs)"

definition parse_failed ::
  "'w job_env \<Rightarrow> job_lib \<Rightarrow> source_file \<Rightarrow> run_exn \<Rightarrow> ('w, conversation list) act" where
  "parse_failed en lib f x =
    and_then (taken_away en) (\<lambda>t.
      if t then go []
      else and_then note_parse_failure (\<lambda>_. and_then (calls (jn_increment en [(SkippedFiles, 1)])) (\<lambda>_.
        and_then (calls (jn_error en ((job_exception (jl_alnum lib) (sf_display f) x (Some (U ''parsing'')))
                    \<lparr>ea_type := U ''parse_error'', ea_retryable := True\<rparr>))) (\<lambda>_. go []))))"

definition read_file ::
  "'w job_env \<Rightarrow> job_lib \<Rightarrow> import_options \<Rightarrow> source_file \<Rightarrow> ('w, conversation list) act" where
  "read_file en lib op f =
    unless_stopped en [JcCurrentFile None, JcCurrentConversation None] (\<lambda>_.
      and_then (write_changes en [JcCurrentFile (Some (sf_display f))]) (\<lambda>_.
      and_then
        (try_finally (try_except (parse_source en lib op f) (parse_failed en lib f))
          (and_then (taken_away en) (\<lambda>t. if t then go () else calls (jn_increment en [(ParsedFiles, 1)])))) (\<lambda>cs.
      and_then (taken_away en) (\<lambda>t. if t then leave else go cs))))"

fun read_files ::
  "'w job_env \<Rightarrow> job_lib \<Rightarrow> import_options \<Rightarrow> source_file list \<Rightarrow> ('w, conversation list) act" where
  "read_files en lib op [] = go []"
| "read_files en lib op (f # fs) =
    and_then (read_file en lib op f) (\<lambda>cs. and_then (read_files en lib op fs) (\<lambda>ds. go (cs @ ds)))"

section \<open>Preparing the chunks\<close>

definition chunk_key_of :: "job_lib \<Rightarrow> import_options \<Rightarrow> conversation \<times> message_chunk \<Rightarrow> pystr" where
  "chunk_key_of lib op = (\<lambda>(c, k). payload_key (jl_hash lib) c (Part k) op)"

type_synonym prepared = "(conversation \<times> message_chunk list) list"

definition first_chunks :: "job_lib \<Rightarrow> import_options \<Rightarrow> conversation list \<Rightarrow> chunk_error + prepared" where
  "first_chunks lib op cs =
    collect (map (\<lambda>c. bind_err (adaptive_chunk_messages (jl_encoder lib) (jl_dates lib) (cv_messages c) op) (\<lambda>ks. Inr (c, ks))) cs)"

fun expand_conversations ::
  "job_lib \<Rightarrow> import_options \<Rightarrow> (pystr \<times> pystr) list \<Rightarrow> prepared \<Rightarrow> run_exn + prepared \<times> pystr list" where
  "expand_conversations lib op statuses [] = Inr ([], [])"
| "expand_conversations lib op statuses ((c, ks) # rest) =
    bind_err (if ks \<noteq> [] \<and> statuses \<noteq> []
              then expand_persisted_split_chunks (\<lambda>k. chunk_key_of lib op (c, k)) (jl_encoder lib) statuses ks
              else Inr (ks, [])) (\<lambda>(leaves, marked).
      bind_err (expand_conversations lib op statuses rest) (\<lambda>(ps, marks).
        Inr ((if leaves = [] then ps else (c, leaves) # ps), marked @ marks)))"

text \<open>\<open>missing\<close> says that the options' snapshot had no version of the keys.\<close>

definition prepare ::
  "'w job_env \<Rightarrow> job_lib \<Rightarrow> bool \<Rightarrow> import_options \<Rightarrow> conversation list
   \<Rightarrow> ('w, import_options \<times> prepared \<times> pystr list) act" where
  "prepare en lib missing op cs =
    and_then (case jn_statuses en of None \<Rightarrow> go [] | Some f \<Rightarrow> calls f) (\<lambda>statuses.
      case first_chunks lib op cs of
        Inl e \<Rightarrow> throw (SplitError e)
      | Inr initial \<Rightarrow>
          (case resolve_missing_import_key_schema_version (chunk_key_of lib) missing op
                  (concat (map (\<lambda>(c, ks). map (Pair c) ks) initial)) statuses of
             Inl e \<Rightarrow> throw e
           | Inr (changed, op') \<Rightarrow>
               and_then (if changed then write_changes en [JcOptions (jl_snapshot lib op')] else go ()) (\<lambda>_.
               case expand_conversations lib op' statuses initial of
                 Inl e \<Rightarrow> throw e
               | Inr (prepared, superseded) \<Rightarrow> go (op', prepared, superseded))))"

definition chunk_count :: "prepared \<Rightarrow> int" where
  "chunk_count ps = int (length (concat (map snd ps)))"

definition announce :: "'w job_env \<Rightarrow> conversation list \<Rightarrow> prepared \<Rightarrow> ('w, unit) act" where
  "announce en cs ps =
    and_then (taken_away en) (\<lambda>t. if t then leave else
      and_then (write_changes en [JcStatus JImporting, JcPhase (U ''extracting''), JcCount TotalConversations (int (length cs)),
                  JcCount TotalChunks (chunk_count ps), JcCount TotalTokens (sum_list (map ck_tokens (concat (map snd ps)))),
                  JcCurrentFile None]) (\<lambda>_.
      calls (jn_phase en (U ''parsing''))))"

definition call_finalize :: "'w job_env \<Rightarrow> bool \<Rightarrow> ('w, unit) act" where
  "call_finalize en required = (case jn_finalize en of None \<Rightarrow> go () | Some f \<Rightarrow> calls (f required))"

definition parse_failures :: "('w, bool) act" where
  "parse_failures s = (Go (jr_parse_failed s), s)"

text \<open>Without any chunk the job is over.\<close>

definition end_empty :: "'w job_env \<Rightarrow> ('w, unit) act" where
  "end_empty en =
    and_then parse_failures (\<lambda>failed.
    and_then (if failed then go ()
              else and_then note_parse_failure (\<lambda>_. job_error_at en (U ''parsing'')
                     ''The selected files did not contain any importable messages.'' ''no_conversations'')) (\<lambda>_.
    and_then (call_finalize en True) (\<lambda>_.
    and_then (write_changes en [JcStatus JCompletedWithErrors, JcPhase (U ''completed''), JcGraphStatus GSkipped,
                JcSourceRetryRequired True, JcCurrentFile None, JcCurrentConversation None, JcCount ActiveWorkers 0]) (\<lambda>_.
    leave))))"

section \<open>The payloads' keys\<close>

type_synonym key_table = "((pystr \<times> pystr \<times> nat) \<times> pystr) list"

text \<open>The payloads of the prepared chunks, by the path and the id of the conversation and the chunk's place; a
  later entry replaces an earlier one. Only their keys matter here.\<close>

definition conversation_keys :: "job_lib \<Rightarrow> import_options \<Rightarrow> conversation \<times> message_chunk list \<Rightarrow> run_exn + key_table" where
  "conversation_keys lib op = (\<lambda>(c, ks).
    collect (map (\<lambda>(i, k).
      case build_payload (jl_encoder lib) (jl_alnum lib) (jl_hash lib) (jl_stamp lib) c (Part k) (int i) (int (length ks)) op of
        None \<Rightarrow> Inl (Raised (builtin_exn [''IndexError'', ''LookupError'', ''Exception''] (U ''list index out of range'')))
      | Some _ \<Rightarrow> Inr ((cv_source_path c, cv_id c, i), chunk_key_of lib op (c, k))) (enumerate 0 ks)))"

definition key_table_of :: "job_lib \<Rightarrow> import_options \<Rightarrow> prepared \<Rightarrow> run_exn + key_table" where
  "key_table_of lib op ps = bind_err (collect (map (conversation_keys lib op) ps)) (\<lambda>ts. Inr (concat ts))"

definition initial_key :: "key_table \<Rightarrow> conversation \<Rightarrow> nat \<Rightarrow> pystr option" where
  "initial_key table c i = map_of (rev table) (cv_source_path c, cv_id c, i)"

definition load_existing :: "'w job_env \<Rightarrow> import_options \<Rightarrow> key_table \<Rightarrow> pystr list \<Rightarrow> ('w, pystr list) act" where
  "load_existing en op table superseded =
    (let all_keys = dedup (map snd table)
     in and_then (case (if io_skip_duplicates op then jn_existing en else None) of
                    None \<Rightarrow> go [] | Some f \<Rightarrow> calls (f all_keys)) (\<lambda>existing.
        and_then (calls (jn_phase en (U ''deduplication''))) (\<lambda>_.
        go (existing @ filter (\<lambda>k. k \<in> set all_keys) superseded))))"

section \<open>The workers\<close>

definition chunk_env ::
  "'w job_env \<Rightarrow> job_lib \<Rightarrow> import_options \<Rightarrow> key_table \<Rightarrow> pystr list \<Rightarrow> conversation \<Rightarrow> nat \<Rightarrow> message_chunk \<Rightarrow> 'w env" where
  "chunk_env en lib op table existing c i k =
    (worker_env en)
      \<lparr>en_key := (\<lambda>x. case (if x = k then initial_key table c i else None) of
                        Some key \<Rightarrow> key | None \<Rightarrow> chunk_key_of lib op (c, x)),
       en_existing := existing,
       en_duplicate := (if jn_existing en = None then en_duplicate (jn_worker en) else None)\<rparr>"

text \<open>The fuel is what may still be split, and one.\<close>

definition run_chunk ::
  "'w env \<Rightarrow> job_lib \<Rightarrow> import_options \<Rightarrow> message_chunk \<Rightarrow> ('w, unit) act" where
  "run_chunk en lib op k s =
    (case process_chunk (Suc (nat (io_max_split_depth op - ck_depth k))) en (jl_encoder lib) op k (jr_runner s) of
       None \<Rightarrow> (NoFuel, s)
     | Some (Inl e, r) \<Rightarrow> (Throw e, s\<lparr>jr_runner := r\<rparr>)
     | Some (Inr _, r) \<Rightarrow> (Go (), s\<lparr>jr_runner := r\<rparr>))"

definition counted_between :: "'w runner \<Rightarrow> 'w runner \<Rightarrow> (job_counter \<times> int) list" where
  "counted_between r r' =
    filter (\<lambda>(_, n). n \<noteq> 0)
      [(TotalChunks, rn_total r' - rn_total r), (ProcessedChunks, rn_processed r' - rn_processed r),
       (ImportedChunks, rn_imported r' - rn_imported r), (SkippedChunks, rn_skipped r' - rn_skipped r),
       (FailedChunks, rn_failed r' - rn_failed r), (RetriedChunks, rn_retried r' - rn_retried r),
       (RetryCount, rn_retried r' - rn_retried r), (SplitChunks, rn_split r' - rn_split r),
       (MemoriesCreated, rn_memories r' - rn_memories r), (ErrorCount, rn_errors r' - rn_errors r)]"

definition write_counts :: "'w job_env \<Rightarrow> 'w runner \<Rightarrow> ('w, unit) act" where
  "write_counts en r s =
    (let deltas = counted_between r (jr_runner s) in if deltas = [] then (Go (), s) else calls (jn_increment en deltas) s)"

definition settle_chunk ::
  "'w job_env \<Rightarrow> job_lib \<Rightarrow> import_options \<Rightarrow> key_table \<Rightarrow> pystr list \<Rightarrow> conversation \<Rightarrow> nat \<times> message_chunk
   \<Rightarrow> ('w, unit) act" where
  "settle_chunk en lib op table existing c = (\<lambda>(i, k) s.
    try_finally (run_chunk (chunk_env en lib op table existing c i k) lib op k) (write_counts en (jr_runner s)) s)"

text \<open>The chunks of a conversation, each after a check; the \<open>return\<close> is the worker's.\<close>

definition serve_conversation ::
  "'w job_env \<Rightarrow> job_lib \<Rightarrow> import_options \<Rightarrow> key_table \<Rightarrow> pystr list \<Rightarrow> conversation \<times> message_chunk list
   \<Rightarrow> ('w, unit) act" where
  "serve_conversation en lib op table existing = (\<lambda>(c, ks).
    and_then (write_changes en [JcCurrentFile (Some (cv_source_path c)), JcCurrentConversation (Some (cv_title c)),
                JcPhase (U ''extracting'')]) (\<lambda>_.
    each (\<lambda>ik. and_then (stopped en) (\<lambda>c'. if c' then leave else settle_chunk en lib op table existing c ik))
      (enumerate 0 ks)))"

definition fence_if_lost :: "run_exn \<Rightarrow> ('w, 'a) act" where
  "fence_if_lost e = (if e = LeaseLost then and_then raise_fence (\<lambda>_. throw e) else throw e)"

text \<open>A worker takes groups from the queue until it is empty, it is told to stop, or an exception ends it. The
  groups it has not taken are left.\<close>

fun worker ::
  "('w, bool) act \<Rightarrow> ('g \<Rightarrow> ('w, unit) act) \<Rightarrow> 'g list \<Rightarrow> 'w job_run \<Rightarrow> (unit step \<times> 'w job_run) \<times> 'g list" where
  "worker stop serve [] s = ((Go (), snd (stop s)), [])"
| "worker stop serve (g # gs) s =
    (case stop s of
       (Go False, s1) \<Rightarrow>
         (case try_except (serve g) fence_if_lost s1 of
            (Go _, s2) \<Rightarrow> worker stop serve gs s2
          | (Leave, s2) \<Rightarrow> ((Go (), s2), gs)
          | (x, s2) \<Rightarrow> ((x, s2), gs))
     | (_, s1) \<Rightarrow> ((Go (), s1), g # gs))"

text \<open>The exception of the first worker that died is raised when all are done.\<close>

fun run_workers ::
  "nat \<Rightarrow> ('w, bool) act \<Rightarrow> ('g \<Rightarrow> ('w, unit) act) \<Rightarrow> 'g list \<Rightarrow> run_exn option \<Rightarrow> ('w, unit) act" where
  "run_workers 0 stop serve gs died s = (case died of None \<Rightarrow> (Go (), s) | Some e \<Rightarrow> (Throw e, s))"
| "run_workers (Suc n) stop serve gs died s =
    (case worker stop serve gs s of
       ((NoFuel, s1), _) \<Rightarrow> (NoFuel, s1)
     | ((Throw e, s1), rest) \<Rightarrow> run_workers n stop serve rest (if died = None then Some e else died) s1
     | ((_, s1), rest) \<Rightarrow> run_workers n stop serve rest died s1)"

text \<open>Conversations with the same id stay together, in the order of their first.\<close>

definition conversation_groups :: "prepared \<Rightarrow> prepared list" where
  "conversation_groups ps = map (\<lambda>i. filter (\<lambda>p. cv_id (fst p) = i) ps) (dedup (map (cv_id \<circ> fst) ps))"

definition import_chunks ::
  "'w job_env \<Rightarrow> job_lib \<Rightarrow> import_options \<Rightarrow> prepared \<Rightarrow> pystr list \<Rightarrow> ('w, unit) act" where
  "import_chunks en lib op ps superseded =
    (case key_table_of lib op ps of
       Inl e \<Rightarrow> throw e
     | Inr table \<Rightarrow>
         and_then (load_existing en op table superseded) (\<lambda>existing.
           run_workers (nat (io_workers op)) (stopped en)
             (each (serve_conversation en lib op table existing)) (conversation_groups ps) None))"

section \<open>The graph, and the end\<close>

definition graph_result :: "pystr option \<Rightarrow> graph_status" where
  "graph_result x =
    (if x = Some (U ''disabled'') then GDisabled else if x = Some (U ''skipped'') then GSkipped else GCompleted)"

definition graph_failed :: "'w job_env \<Rightarrow> job_lib \<Rightarrow> run_exn \<Rightarrow> ('w, unit) act" where
  "graph_failed en lib x =
    (if x = LeaseLost then fence_if_lost x
     else and_then (write_changes en [JcGraphStatus GFailed, JcGraphError (Some (safe_error_message (jl_alnum lib) (exn_of x)))]) (\<lambda>_.
          calls (jn_error en ((job_exception (jl_alnum lib) (U ''graph_sync'') x (Some (U ''graph_sync'')))
                   \<lparr>ea_type := U ''graph_sync_error'', ea_retryable := True\<rparr>))))"

definition sync_graph :: "'w job_env \<Rightarrow> job_lib \<Rightarrow> ('w \<Rightarrow> (run_exn + pystr option) \<times> 'w) \<Rightarrow> ('w, unit) act" where
  "sync_graph en lib f =
    and_then (write_changes en [JcStatus JSyncingGraph, JcPhase (U ''graph_sync''), JcGraphStatus GSyncing]) (\<lambda>_.
    and_then (calls (jn_increment en [(GraphAttempts, 1)])) (\<lambda>_.
    try_finally
      (try_except
        (and_then (calls f) (\<lambda>x. write_changes en [JcGraphStatus (graph_result x), JcGraphError None]))
        (graph_failed en lib))
      (calls (jn_phase en (U ''neo4j'')))))"

definition graph_stage :: "'w job_env \<Rightarrow> job_lib \<Rightarrow> ('w, unit) act" where
  "graph_stage en lib =
    and_then (current_job en) (\<lambda>job.
      case job of
        None \<Rightarrow> go ()
      | Some j \<Rightarrow>
          (case (if ij_count j ImportedChunks \<noteq> 0 then jn_sync en else None) of
             Some f \<Rightarrow> sync_graph en lib f
           | None \<Rightarrow> write_changes en [JcGraphStatus (if jn_sync en = None then GDisabled else GSkipped), JcGraphError None]))"

definition check_cancelled :: "'w job_env \<Rightarrow> ('w, unit) act" where
  "check_cancelled en =
    and_then (stopped en) (\<lambda>c.
      if c then stop_job en [JcPhase (U ''cancelled''), JcCurrentFile None, JcCurrentConversation None, JcCount ActiveWorkers 0]
      else go ())"

definition source_retry_required :: "bool \<Rightarrow> import_job option \<Rightarrow> bool" where
  "source_retry_required failed job =
    (failed \<or> (case job of None \<Rightarrow> False | Some j \<Rightarrow> ij_count j FailedChunks \<noteq> 0))"

definition final_status :: "bool \<Rightarrow> import_job option \<Rightarrow> job_status" where
  "final_status failed job =
    (if failed \<or> (case job of None \<Rightarrow> False | Some j \<Rightarrow> ij_count j FailedChunks \<noteq> 0 \<or> ij_graph_status j = GFailed)
     then JCompletedWithErrors else JCompleted)"

definition finish_job :: "'w job_env \<Rightarrow> ('w, unit) act" where
  "finish_job en =
    and_then (current_job en) (\<lambda>job. and_then parse_failures (\<lambda>failed.
      and_then (call_finalize en (source_retry_required failed job)) (\<lambda>_.
      write_changes en [JcStatus (final_status failed job), JcPhase (U ''completed''),
        JcSourceRetryRequired (source_retry_required failed job), JcCurrentFile None, JcCurrentConversation None,
        JcCount ActiveWorkers 0])))"

definition start_job :: "'w job_env \<Rightarrow> ('w, unit) act" where
  "start_job en =
    and_then (current_job en) (\<lambda>job.
      if job = None then leave else and_then (stopped en) (\<lambda>c. if c then stop_job en [] else go ()))"

definition import_body ::
  "'w job_env \<Rightarrow> job_lib \<Rightarrow> bool \<Rightarrow> import_options \<Rightarrow> ('w, unit) act" where
  "import_body en lib missing op =
    and_then (start_job en) (\<lambda>_.
    and_then (discover en lib) (\<lambda>files.
    and_then (write_changes en [JcStatus JParsing]) (\<lambda>_.
    and_then (read_files en lib op files) (\<lambda>cs.
    and_then (prepare en lib missing op cs) (\<lambda>(op', ps, superseded).
    and_then (announce en cs ps) (\<lambda>_.
    and_then (if ps = [] then end_empty en else go ()) (\<lambda>_.
    and_then (import_chunks en lib op' ps superseded) (\<lambda>_.
    and_then (check_cancelled en) (\<lambda>_.
    and_then (graph_stage en lib) (\<lambda>_.
    and_then (check_cancelled en) (\<lambda>_.
    finish_job en)))))))))))"

definition import_failed :: "'w job_env \<Rightarrow> job_lib \<Rightarrow> run_exn \<Rightarrow> ('w, unit) act" where
  "import_failed en lib x =
    (if x = LeaseLost then fence_if_lost x
     else and_then (taken_away en) (\<lambda>t.
       if t then go ()
       else and_then (current_job en) (\<lambda>job.
         and_then (calls (jn_error en (job_exception (jl_alnum lib) (U ''import'') x
                     (Some (case job of None \<Rightarrow> U ''import'' | Some j \<Rightarrow> ij_phase j))))) (\<lambda>_.
         write_changes en [JcStatus JFailed, JcPhase (U ''failed''), JcSourceRetryRequired True,
           JcCurrentFile None, JcCurrentConversation None]))))"

text \<open>The \<open>finally\<close> removes the uploaded files unless they are to be kept.\<close>

definition run_import_job ::
  "'w job_env \<Rightarrow> job_lib \<Rightarrow> bool \<Rightarrow> bool \<Rightarrow> import_options \<Rightarrow> ('w, unit) act" where
  "run_import_job en lib retain missing op =
    try_finally (try_except (import_body en lib missing op) (import_failed en lib))
      (\<lambda>s. (Go (), s\<lparr>jr_removed := \<not> retain\<rparr>))"

end
