(* ===== verification/Import_Job_Laws.thy ===== *)
theory Import_Job_Laws
  imports Import_Job
begin

text \<open>
  What a run guarantees about the job it runs: the statuses it writes go forward, and end the job at most
  once.
\<close>

section \<open>What a run writes\<close>

definition written_statuses :: "'w job_run \<Rightarrow> job_status list" where
  "written_statuses s = List.map_filter given_status (jr_writes s)"

text \<open>The order of the stages; an ended job is at the last.\<close>

fun stage :: "job_status \<Rightarrow> nat" where
  "stage JDiscovering = 1"
| "stage JParsing = 2"
| "stage JImporting = 3"
| "stage JSyncingGraph = 4"
| "stage JCancelled = 5"
| "stage JCompleted = 5"
| "stage JCompletedWithErrors = 5"
| "stage JFailed = 5"
| "stage _ = 0"

lemma terminal_stage: "st \<in> set terminal_job_statuses \<longleftrightarrow> stage st = 5"
  by (cases st) (simp_all add: terminal_job_statuses_def)

text \<open>Steps that write no status.\<close>

definition quiet :: "('w, 'a) act \<Rightarrow> bool" where
  "quiet m \<longleftrightarrow> (\<forall>s. written_statuses (snd (m s)) = written_statuses s)"

named_theorems quiet_rules \<open>steps that write no status\<close>

lemma quietD: "quiet m \<Longrightarrow> m s = (x, s') \<Longrightarrow> written_statuses s' = written_statuses s"
  unfolding quiet_def by (metis snd_conv)

lemma written_simps [simp]:
  "written_statuses (s\<lparr>jr_runner := r\<rparr>) = written_statuses s"
  "written_statuses (s\<lparr>jr_parse_failed := b\<rparr>) = written_statuses s"
  "written_statuses (s\<lparr>jr_removed := b\<rparr>) = written_statuses s"
  "written_statuses (s\<lparr>jr_writes := jr_writes s @ [changes]\<rparr>) =
     written_statuses s @ (case given_status changes of None \<Rightarrow> [] | Some st \<Rightarrow> [st])"
  by (simp_all add: written_statuses_def List.map_filter_def split: option.split)

lemma quiet_basic [quiet_rules]:
  "quiet (go x)" "quiet leave" "quiet (throw e)" "quiet (on_runner q)" "quiet raise_fence" "quiet note_parse_failure" "quiet parse_failures"
  by (simp_all add: quiet_def go_def leave_def throw_def on_runner_def raise_fence_def note_parse_failure_def parse_failures_def
      Let_def split_def)

lemma quiet_calls [quiet_rules]: "quiet (calls q)"
  by (simp add: quiet_def calls_def Let_def split_def split: sum.split)

lemma quiet_and_then [quiet_rules]: "quiet m \<Longrightarrow> (\<And>x. quiet (f x)) \<Longrightarrow> quiet (and_then m f)"
  by (auto simp: quiet_def and_then_def split: prod.split step.split) (metis snd_conv)+

lemma quiet_try_except [quiet_rules]: "quiet m \<Longrightarrow> (\<And>e. quiet (h e)) \<Longrightarrow> quiet (try_except m h)"
  by (auto simp: quiet_def try_except_def split: prod.split step.split) (metis snd_conv)+

lemma quiet_try_finally [quiet_rules]: "quiet m \<Longrightarrow> quiet f \<Longrightarrow> quiet (try_finally m f)"
  by (auto simp: quiet_def try_finally_def split: prod.split step.split) (metis snd_conv)+

lemma quiet_if [quiet_rules]: "quiet m \<Longrightarrow> quiet n \<Longrightarrow> quiet (if b then m else n)"
  by simp

lemma quiet_option [quiet_rules]: "quiet m \<Longrightarrow> (\<And>x. quiet (f x)) \<Longrightarrow> quiet (case x of None \<Rightarrow> m | Some y \<Rightarrow> f y)"
  by (cases x) simp_all

lemma quiet_sum [quiet_rules]: "(\<And>x. quiet (m x)) \<Longrightarrow> (\<And>x. quiet (f x)) \<Longrightarrow> quiet (case x of Inl y \<Rightarrow> m y | Inr y \<Rightarrow> f y)"
  by (cases x) simp_all

lemma quiet_list [quiet_rules]: "quiet m \<Longrightarrow> (\<And>y ys. quiet (f y ys)) \<Longrightarrow> quiet (case xs of [] \<Rightarrow> m | y # ys \<Rightarrow> f y ys)"
  by (cases xs) simp_all

lemma quiet_prod [quiet_rules]: "(\<And>x y. quiet (f x y)) \<Longrightarrow> quiet (case p of (x, y) \<Rightarrow> f x y)"
  by (cases p) simp

lemma quiet_asks [quiet_rules]: "quiet (current_job en)" "quiet (stopped en)" "quiet (taken_away en)" "quiet (job_error_at en s m t)"
  "quiet (call_finalize en b)"
  unfolding current_job_def stopped_def taken_away_def job_error_at_def call_finalize_def by (intro quiet_rules)+

lemma quiet_update [quiet_rules]: "given_status changes = None \<Longrightarrow> quiet (write_changes en changes)"
  unfolding write_changes_def by (intro quiet_rules) (simp add: quiet_def note_write_def)

lemma quiet_each [quiet_rules]: "(\<And>x. quiet (f x)) \<Longrightarrow> quiet (each f xs)"
  by (induction xs) (auto intro!: quiet_rules)

lemma quiet_fence [quiet_rules]: "quiet (fence_if_lost e)"
  unfolding fence_if_lost_def by (intro quiet_rules)

lemma quiet_parse [quiet_rules]: "quiet (parse_source en lib op f)" "quiet (parse_failed en lib f x)"
  unfolding parse_source_def parse_failed_def Let_def by (intro quiet_rules)+

lemma quiet_prepare [quiet_rules]: "quiet (prepare en lib missing op cs)"
  unfolding prepare_def by (intro quiet_rules given_status.simps) simp

lemma quiet_load [quiet_rules]: "quiet (load_existing en op table superseded)"
  unfolding load_existing_def Let_def by (intro quiet_rules)

lemma quiet_run_chunk [quiet_rules]: "quiet (run_chunk en lib op k)"
  by (simp add: quiet_def run_chunk_def split: option.split prod.split sum.split)

lemma quiet_write_counts [quiet_rules]: "quiet (write_counts en r)"
proof -
  have "quiet (calls q)" for q by (rule quiet_calls)
  then show ?thesis unfolding quiet_def write_counts_def Let_def by simp blast
qed

lemma quiet_settle [quiet_rules]: "quiet (settle_chunk en lib op table existing c ik)"
proof -
  obtain i k where ik: "ik = (i, k)" by fastforce
  have "quiet (try_finally (run_chunk e lib op k) (write_counts en r))" for e r by (intro quiet_rules)
  then show ?thesis by (simp add: quiet_def settle_chunk_def ik)
qed

lemma quiet_serve [quiet_rules]: "quiet (serve_conversation en lib op table existing p)"
  unfolding serve_conversation_def by (intro quiet_rules) simp

lemma quiet_worker:
  assumes "quiet stop" and "\<And>g. quiet (serve g)"
  shows "written_statuses (snd (fst (worker stop serve gs s))) = written_statuses s"
proof (induction gs arbitrary: s)
  case Nil
  show ?case using assms(1) by (simp add: quiet_def)
next
  case (Cons g gs)
  have quiet: "quiet (try_except (serve g) fence_if_lost)" by (intro quiet_rules assms(2))
  obtain x s1 where s1: "stop s = (x, s1)" by fastforce
  obtain y s2 where s2: "try_except (serve g) fence_if_lost s1 = (y, s2)" by fastforce
  from quietD [OF assms(1) s1] quietD [OF quiet s2] Cons.IH [of s2] show ?case
    by (auto simp: s1 s2 split: step.split bool.split)
qed

lemma quiet_run_workers [quiet_rules]:
  assumes "quiet stop" and "\<And>g. quiet (serve g)"
  shows "quiet (run_workers n stop serve gs died)"
proof (induction n arbitrary: gs died)
  case 0
  show ?case by (simp add: quiet_def split: option.split)
next
  case (Suc n)
  show ?case
    unfolding quiet_def
  proof
    fix s
    obtain x s1 rest where w: "worker stop serve gs s = ((x, s1), rest)" by (metis prod.exhaust)
    have "written_statuses s1 = written_statuses s" using quiet_worker [of stop serve gs s] assms by (simp add: w)
    with Suc show "written_statuses (snd (run_workers (Suc n) stop serve gs died s)) = written_statuses s"
      by (simp add: w quiet_def split: step.split)
  qed
qed

lemma quiet_import_chunks [quiet_rules]: "quiet (import_chunks en lib op ps superseded)"
  unfolding import_chunks_def by (intro quiet_rules)

lemma quiet_graph_failed [quiet_rules]: "quiet (graph_failed en lib x)"
  unfolding graph_failed_def by (intro quiet_rules) simp

section \<open>Forward\<close>

definition below :: "nat \<Rightarrow> 'w job_run \<Rightarrow> bool" where
  "below k s \<longleftrightarrow> sorted_wrt (<) (map stage (written_statuses s)) \<and> (\<forall>st\<in>set (written_statuses s). stage st < k)"

text \<open>\<open>forward k k' m\<close>: when all statuses so far were before stage \<open>k\<close>, those that \<open>m\<close> writes come in their
  order, and when it goes on they are before \<open>k'\<close>; when it raises an exception, the job has not ended.\<close>

definition forward :: "nat \<Rightarrow> nat \<Rightarrow> ('w, 'a) act \<Rightarrow> bool" where
  "forward k k' m \<longleftrightarrow>
     (\<forall>s. below k s \<longrightarrow>
        (case m s of
           (Go _, s') \<Rightarrow> below k' s'
         | (Leave, s') \<Rightarrow> below 6 s'
         | (Throw _, s') \<Rightarrow> below 5 s'
         | (NoFuel, s') \<Rightarrow> below 6 s'))"

lemma below_mono: "below j s \<Longrightarrow> j \<le> k \<Longrightarrow> below k s"
  by (auto simp: below_def)

lemma forward_mono: "forward k j m \<Longrightarrow> j \<le> k' \<Longrightarrow> forward k k' m"
  by (auto simp: forward_def split: step.splits prod.splits intro: below_mono) (metis below_mono)

lemma forward_and_then:
  fixes m :: "('w, 'a) act"
  assumes "forward k j m" and "\<And>x. forward j k' (f x)"
  shows "forward k k' (and_then m f)"
  unfolding forward_def
proof (intro allI impI)
  fix s :: "'w job_run" assume "below k s"
  with assms(1) have m: "case m s of (Go _, s') \<Rightarrow> below j s' | (Leave, s') \<Rightarrow> below 6 s' | (Throw _, s') \<Rightarrow> below 5 s'
      | (NoFuel, s') \<Rightarrow> below 6 s'" by (simp add: forward_def)
  obtain y s1 where y: "m s = (y, s1)" by fastforce
  show "case and_then m f s of (Go _, s') \<Rightarrow> below k' s' | (Leave, s') \<Rightarrow> below 6 s' | (Throw _, s') \<Rightarrow> below 5 s'
      | (NoFuel, s') \<Rightarrow> below 6 s'"
    using m assms(2) by (cases y) (simp_all add: and_then_def y forward_def)
qed

lemma forward_quiet: "quiet (m :: ('w, 'a) act) \<Longrightarrow> k \<le> 5 \<Longrightarrow> forward k k m"
  unfolding forward_def
proof (intro allI impI)
  fix s :: "'w job_run" assume "quiet m" and k: "k \<le> 5" and s: "below k s"
  obtain y s1 where y: "m s = (y, s1)" by fastforce
  with \<open>quiet m\<close> s have "below k s1" by (simp add: below_def quietD)
  then show "case m s of (Go _, s') \<Rightarrow> below k s' | (Leave, s') \<Rightarrow> below 6 s' | (Throw _, s') \<Rightarrow> below 5 s' | (NoFuel, s') \<Rightarrow> below 6 s'"
    using k by (cases y) (auto simp: y intro: below_mono)
qed

lemma forward_leave: "k \<le> 6 \<Longrightarrow> forward k k' leave"
  by (auto simp: forward_def leave_def intro: below_mono)

lemma forward_go: "forward k k (go x)"
  by (simp add: forward_def go_def)

lemma forward_update:
  fixes en :: "'w job_env"
  assumes "given_status changes = Some st" and "k \<le> stage st" and "k \<le> 5"
  shows "forward k (Suc (stage st)) (write_changes en changes)"
  unfolding forward_def write_changes_def
proof (intro allI impI)
  fix s :: "'w job_run" assume s: "below k s"
  obtain x s1 where c: "calls (jn_update en changes) s = (x, s1)" by fastforce
  have w: "written_statuses s1 = written_statuses s" by (rule quietD [OF quiet_calls c])
  with s have s1: "below k s1" by (simp add: below_def)
  have wrote: "below (Suc (stage st)) (s1\<lparr>jr_writes := jr_writes s1 @ [changes]\<rparr>)"
    using s1 assms(1,2) by (fastforce simp: below_def sorted_wrt_append)
  have no: "x \<noteq> Leave" "x \<noteq> NoFuel" using c by (auto simp: calls_def Let_def split: prod.splits sum.splits)
  show "case and_then (calls (jn_update en changes)) (note_write changes) s of (Go _, s') \<Rightarrow> below (Suc (stage st)) s'
      | (Leave, s') \<Rightarrow> below 6 s' | (Throw _, s') \<Rightarrow> below 5 s' | (NoFuel, s') \<Rightarrow> below 6 s'"
    using s1 assms(2,3) wrote no by (cases x) (auto simp: and_then_def c note_write_def intro: below_mono)
qed

lemma forward_stop: "k \<le> 5 \<Longrightarrow> given_status changes = None \<Longrightarrow> forward k k' (stop_job en changes)"
proof -
  assume k: "k \<le> 5"
  have "forward k 6 (write_changes en (JcStatus JCancelled # changes @ [JcSourceRetryRequired True]))"
    using forward_update [of _ JCancelled k en] k by simp
  moreover have "forward k 6 (go ())" by (rule forward_mono [OF forward_go]) (use k in simp)
  moreover have "forward k k (taken_away en)" by (rule forward_quiet [OF quiet_asks(3) k])
  ultimately have "forward k 6 (mark_job_cancelled en changes)"
    unfolding mark_job_cancelled_def by (intro forward_and_then [of k k]) (auto split: if_split)
  then show ?thesis unfolding stop_job_def by (rule forward_and_then) (simp add: forward_leave)
qed

lemma forward_unless_stopped:
  assumes "k \<le> 5" and "given_status changes = None" and "\<And>j. forward k k' (f j)"
  shows "forward k k' (unless_stopped en changes f)"
  unfolding unless_stopped_def
proof (rule forward_and_then [OF forward_quiet [OF quiet_asks(1) assms(1)]])
  fix job show "forward k k' (case job of None \<Rightarrow> stop_job en changes | Some j \<Rightarrow> and_then (stopped en) (\<lambda>c. if c then stop_job en changes else f j))"
    using assms forward_stop [OF assms(1,2), of k' en]
    by (cases job) (auto intro!: forward_and_then [OF forward_quiet [OF quiet_asks(2) assms(1)]])
qed

lemma forward_discover: "forward 1 2 (discover en lib)"
proof -
  have rest: "forward 2 2 (unless_stopped en [] (\<lambda>job. and_then (write_changes en [JcCount DiscoveredFiles n,
                                     JcCount SkippedFiles (ij_count job SkippedFiles + m)]) (\<lambda>_.
            and_then (each (\<lambda>w. calls (jn_error en (plain_error (U ''discovery'') (warning_text lib w)))) ws) (\<lambda>_.
            if fs = [] then throw e else go fs))))" for n m ws fs e
    by (rule forward_unless_stopped) (auto intro!: forward_quiet quiet_rules)
  have "forward 1 2 (write_changes en [JcStatus JDiscovering, JcPhase (U ''parsing'')])"
    using forward_update [of _ JDiscovering 1 en] by (simp add: numeral_2_eq_2)
  then show ?thesis
    unfolding discover_def
  proof (rule forward_and_then)
    fix u
    show "forward 2 2 (case fst (discover_input_files default_limits (jl_writable lib) (jl_destination lib) (jn_inputs en) (jn_disk en)) of
        Inl e \<Rightarrow> throw (Raised (discovery_exn lib e))
      | Inr d \<Rightarrow> unless_stopped en [] (\<lambda>job. and_then (write_changes en [JcCount DiscoveredFiles (int (length (dr_files d))),
                                     JcCount SkippedFiles (ij_count job SkippedFiles + dr_skipped d)]) (\<lambda>_.
            and_then (each (\<lambda>w. calls (jn_error en (plain_error (U ''discovery'') (warning_text lib w)))) (dr_warnings d)) (\<lambda>_.
            if dr_files d = []
            then throw (Raised (builtin_exn [''ValueError'', ''Exception''] (U ''No supported chat history files were found.'')))
            else go (dr_files d)))))"
      by (cases "fst (discover_input_files default_limits (jl_writable lib) (jl_destination lib) (jn_inputs en) (jn_disk en))")
         (simp_all only: sum.case rest, rule forward_quiet [OF quiet_basic(3)], simp)
  qed
qed

lemma forward_read_file: "forward 3 3 (read_file en lib op f)"
proof -
  have "quiet (and_then (write_changes en [JcCurrentFile (Some (sf_display f))]) (\<lambda>_. and_then
      (try_finally (try_except (parse_source en lib op f) (parse_failed en lib f))
        (and_then (taken_away en) (\<lambda>t. if t then go () else calls (jn_increment en [(ParsedFiles, 1)]))))
      (\<lambda>cs. and_then (taken_away en) (\<lambda>t. if t then leave else go cs))))"
    by (intro quiet_rules) simp
  then show ?thesis unfolding read_file_def by (intro forward_unless_stopped forward_quiet) auto
qed

lemma forward_read_files: "forward 3 3 (read_files en lib op fs)"
  by (induction fs) (auto intro!: forward_and_then forward_go forward_read_file)

lemma forward_announce: "forward 3 4 (announce en cs ps)"
proof -
  have up: "forward 3 4 (write_changes en (JcStatus JImporting # changes))" for changes
    using forward_update [of _ JImporting 3 en] by (simp add: numeral_eq_Suc)
  show ?thesis
    unfolding announce_def
    by (rule forward_and_then [OF forward_quiet [OF quiet_asks(3)]])
       (auto intro!: forward_and_then [OF up] forward_quiet quiet_rules forward_leave split: if_split)
qed

lemma forward_end_empty: "forward 4 k (end_empty en)"
proof -
  have up: "forward 4 6 (write_changes en (JcStatus JCompletedWithErrors # changes))" for changes
    using forward_update [of _ JCompletedWithErrors 4 en] by simp
  have over: "forward 4 k (and_then (write_changes en (JcStatus JCompletedWithErrors # changes)) (\<lambda>_. leave))" for changes
    by (rule forward_and_then [OF up]) (simp add: forward_leave)
  show ?thesis
    unfolding end_empty_def
    by (rule forward_and_then [OF forward_quiet [OF quiet_basic(7)]], simp, rule forward_and_then [OF forward_quiet], intro quiet_rules,
        simp, rule forward_and_then [OF forward_quiet [OF quiet_asks(5)]], simp, rule over)
qed

lemma forward_graph: "forward 4 5 (graph_stage en lib)"
proof -
  have up: "forward 4 5 (write_changes en (JcStatus JSyncingGraph # changes))" for changes
    using forward_update [of _ JSyncingGraph 4 en] by (simp add: numeral_eq_Suc)
  have "forward 5 5 (and_then (calls (jn_increment en [(GraphAttempts, 1)])) (\<lambda>_. try_finally
      (try_except (and_then (calls f) (\<lambda>x. write_changes en [JcGraphStatus (graph_result x), JcGraphError None])) (graph_failed en lib))
      (calls (jn_phase en (U ''neo4j'')))))" for f
    by (intro forward_quiet quiet_rules) simp_all
  then have "forward 4 5 (sync_graph en lib f)" for f unfolding sync_graph_def by (rule forward_and_then [OF up])
  moreover have "forward 4 5 (go ())" "forward 4 5 (write_changes en [JcGraphStatus g, JcGraphError None])" for g
    by (auto intro!: forward_mono [OF forward_quiet [of _ 4]] quiet_rules)
  ultimately show ?thesis
    unfolding graph_stage_def
    by (intro forward_and_then [OF forward_quiet [OF quiet_asks(1)]]) (auto split: option.split)
qed

lemma forward_check: "k \<le> 5 \<Longrightarrow> forward k k (check_cancelled en)"
  unfolding check_cancelled_def
  by (rule forward_and_then [OF forward_quiet [OF quiet_asks(2)]]) (auto intro!: forward_stop forward_go)

lemma forward_finish: "forward 5 6 (finish_job en)"
proof -
  have "given_status (JcStatus (final_status b job) # changes) = Some (final_status b job)" "stage (final_status b job) = 5" for b job changes
    by (simp_all add: final_status_def)
  then have up: "forward 5 6 (write_changes en (JcStatus (final_status b job) # changes))" for b job changes
    using forward_update [of "JcStatus (final_status b job) # changes" "final_status b job" 5 en] by simp
  show ?thesis
    unfolding finish_job_def by (intro forward_and_then [OF forward_quiet] up quiet_rules) simp_all
qed

lemma forward_start: "forward 1 1 (start_job en)"
  unfolding start_job_def
  by (rule forward_and_then [OF forward_quiet [OF quiet_asks(1)]])
     (auto intro!: forward_leave forward_stop forward_go forward_and_then [OF forward_quiet [OF quiet_asks(2)]])

lemma forward_body: "forward 1 6 (import_body en lib missing op)"
proof -
  have parsing: "forward 2 3 (write_changes en [JcStatus JParsing])"
    using forward_update [of "[JcStatus JParsing]" JParsing 2 en] by (simp add: numeral_eq_Suc)
  have prepare: "forward 3 3 (prepare en lib missing op cs)" for cs by (intro forward_quiet quiet_rules) simp
  have chunks: "forward 4 4 (import_chunks en lib op' ps superseded)" for op' ps superseded
    by (intro forward_quiet quiet_rules) simp
  have empty: "forward 4 4 (if ps = [] then end_empty en else go ())" for ps :: prepared
    by (simp add: forward_end_empty forward_go)
  show ?thesis
    unfolding import_body_def split_def
    by (intro forward_and_then [OF forward_start] forward_and_then [OF forward_discover] forward_and_then [OF parsing]
        forward_and_then [OF forward_read_files] forward_and_then [OF prepare] forward_and_then [OF forward_announce]
        forward_and_then [OF empty] forward_and_then [OF chunks] forward_and_then [OF forward_check [of 4]]
        forward_and_then [OF forward_graph] forward_and_then [OF forward_check [of 5]] forward_finish) simp_all
qed

lemma forward_failed: "forward 5 6 (import_failed en lib x)"
proof -
  have up: "forward 5 6 (write_changes en (JcStatus JFailed # changes))" for changes
    using forward_update [of _ JFailed 5 en] by simp
  have "forward 5 6 (go ())" "forward 5 6 (fence_if_lost x)"
    by (auto intro!: forward_mono [OF forward_quiet [of _ 5]] quiet_rules)
  with up show ?thesis
    unfolding import_failed_def
    by (auto intro!: forward_and_then [OF forward_quiet] quiet_rules)
qed

text \<open>C13: a run ends its job at most once. Whatever the store, the hooks, the provider and the other processes do: the
  statuses a run writes to its job come in the order of the stages, discovering, parsing,
  importing, syncing the graph, end; so at most one of them is an end, and it is the last. And a
  run that ends by raising an exception, as when a hook reports outside of the parsing that the lease is lost, has
  written none. Whether a run that returns still held the lease is not part of the claim.\<close>
theorem run_ends_job_once:
  assumes "run_import_job en lib retain missing op s = (x, s')" and "jr_writes s = []"
  shows "sorted_wrt (<) (map stage (written_statuses s')) \<and>
         (\<forall>e st. x = Throw e \<longrightarrow> st \<in> set (written_statuses s') \<longrightarrow> st \<notin> set terminal_job_statuses)"
proof -
  have start: "below 1 s" using assms(2) by (simp add: below_def written_statuses_def List.map_filter_simps)
  obtain y s1 where b: "import_body en lib missing op s = (y, s1)" by fastforce
  have body: "case (y, s1) of (Go _, s') \<Rightarrow> below 6 s' | (Leave, s') \<Rightarrow> below 6 s' | (Throw _, s') \<Rightarrow> below 5 s' | (NoFuel, s') \<Rightarrow> below 6 s'"
    using forward_body [unfolded forward_def, rule_format, OF start, of en lib missing op] by (simp only: b)
  obtain z s2 where t: "try_except (import_body en lib missing op) (import_failed en lib) s = (z, s2)" by fastforce
  have "below 6 s2 \<and> ((\<exists>e. z = Throw e) \<longrightarrow> below 5 s2)"
  proof (cases y)
    case (Throw e)
    with t have "import_failed en lib e s1 = (z, s2)" by (simp add: try_except_def b)
    moreover have "below 5 s1" using body Throw by simp
    ultimately have "case (z, s2) of (Go _, s') \<Rightarrow> below 6 s' | (Leave, s') \<Rightarrow> below 6 s' | (Throw _, s') \<Rightarrow> below 5 s' | (NoFuel, s') \<Rightarrow> below 6 s'"
      using forward_failed [unfolded forward_def, rule_format, of s1 en lib e] by simp
    then show ?thesis by (cases z) (auto intro: below_mono)
  next
    case (Go u)
    with t have "z = Go u" "s2 = s1" by (simp_all add: try_except_def b)
    with body Go show ?thesis by simp
  next
    case Leave
    with t have "z = Leave" "s2 = s1" by (simp_all add: try_except_def b)
    with body Leave show ?thesis by simp
  next
    case NoFuel
    with t have "z = NoFuel" "s2 = s1" by (simp_all add: try_except_def b)
    with body NoFuel show ?thesis by simp
  qed
  moreover have "(x, s') = (z, s2\<lparr>jr_removed := \<not> retain\<rparr>)"
    using assms(1) by (simp only: run_import_job_def try_finally_def t prod.case step.case)
  then have "x = z" "written_statuses s' = written_statuses s2" by simp_all
  ultimately have order: "sorted_wrt (<) (map stage (written_statuses s'))" "z = Throw e \<Longrightarrow> st \<in> set (written_statuses s') \<Longrightarrow> stage st < 5" for e st
    by (simp_all add: below_def)
  from order(2) \<open>x = z\<close> show ?thesis unfolding terminal_stage by (intro conjI order(1) allI impI) fastforce
qed

section \<open>Conversations with the same id\<close>

text \<open>Payloads are found again by path and id: of two conversations of a file that have the same id, the
  first is sent under the key, and so with the payload, of the second.\<close>

lemma same_id_shares_payload:
  assumes "key_table_of lib op [(c, [k]), (c', [k'])] = Inr table"
    and "cv_source_path c = cv_source_path c'" and "cv_id c = cv_id c'"
  shows "initial_key table c 0 = Some (chunk_key_of lib op (c', k'))"
  using assms by (auto simp: key_table_of_def conversation_keys_def initial_key_def split: option.splits)

end
