(* ===== verification/Import_Host.thy ===== *)
theory Import_Host
  imports Import_Job_Laws Import_Runner_Laws
begin

text \<open>
  The job store as the host of a run: the operations \<open>run_import_job\<close> uses of it, on the store of
  \<open>Import_Store\<close>, and what a run needs of its host to bring the job to an end. That is an interface: it
  is stated as a locale, and the store provides it.
\<close>

section \<open>What a run needs\<close>

text \<open>In a world where \<open>P\<close> holds the job can be found and changed, and is not taken away; every call keeps
  \<open>P\<close>; \<open>Q st\<close> says that the job's status is \<open>st\<close>. The hooks may fail as they like. Claims do not report
  splits: those on record have been followed when the chunks were prepared.\<close>

locale job_host =
  fixes P :: "'w \<Rightarrow> bool" and Q :: "job_status \<Rightarrow> 'w \<Rightarrow> bool" and en :: "'w job_env"
  assumes found: "P w \<Longrightarrow> \<exists>j w'. jn_get en w = (Some j, w') \<and> P w'"
    and changed: "P w \<Longrightarrow> \<exists>w'. jn_update en changes w = (Inr True, w') \<and> P w' \<and>
          (\<forall>st. given_status changes = Some st \<longrightarrow> given_status (tl changes) = None \<longrightarrow> Q st w')"
    and counted: "P w \<Longrightarrow> \<exists>w'. jn_increment en deltas w = (Inr (), w') \<and> P w'"
    and noted: "P w \<Longrightarrow> \<exists>w'. jn_error en a w = (Inr (), w') \<and> P w'"
    and timed: "P w \<Longrightarrow> \<exists>w'. jn_phase en p w = (Inr (), w') \<and> P w'"
    and present: "P w \<Longrightarrow> \<exists>w'. en_external (jn_worker en) w = (False, w') \<and> P w'"
    and keep_read: "P w \<Longrightarrow> P (snd (jn_read en path w))"
    and keep_statuses: "jn_statuses en = Some f0 \<Longrightarrow> P w \<Longrightarrow> P (snd (f0 w))"
    and keep_existing: "jn_existing en = Some f1 \<Longrightarrow> P w \<Longrightarrow> P (snd (f1 ks w))"
    and keep_sync: "jn_sync en = Some f2 \<Longrightarrow> P w \<Longrightarrow> P (snd (f2 w))"
    and keep_finalize: "jn_finalize en = Some f3 \<Longrightarrow> P w \<Longrightarrow> P (snd (f3 b w))"
    and keep_waits: "P w \<Longrightarrow> P (snd (en_sleep (jn_worker en) w))" "P w \<Longrightarrow> P (snd (en_acquire (jn_worker en) w))"
    and keep_store: "P w \<Longrightarrow> P (snd (en_store (jn_worker en) key n w))"
    and keep_claim: "en_claim (jn_worker en) = Some f4 \<Longrightarrow> P w \<Longrightarrow> P (snd (f4 key n w))"
    and keep_update: "en_update (jn_worker en) = Some f5 \<Longrightarrow> P w \<Longrightarrow> P (snd (f5 key st w))"
    and keep_duplicate: "en_duplicate (jn_worker en) = Some f6 \<Longrightarrow> P w \<Longrightarrow> P (snd (f6 key w))"
    and no_split: "en_claim (jn_worker en) = Some f7 \<Longrightarrow> fst (f7 key n w) \<noteq> Inr (U ''split'')"
begin

definition at_host :: "'w job_run \<Rightarrow> bool" where
  "at_host s \<longleftrightarrow> P (rn_world (jr_runner s))"

definition ended :: "'w job_run \<Rightarrow> bool" where
  "ended s \<longleftrightarrow> written_statuses s \<noteq> [] \<and> last (written_statuses s) \<in> set terminal_job_statuses \<and>
     Q (last (written_statuses s)) (rn_world (jr_runner s))"

definition over :: "'w job_run \<Rightarrow> bool" where
  "over s \<longleftrightarrow> rn_fence_lost (jr_runner s) \<or> ended s"

text \<open>\<open>holds L m\<close>: \<open>m\<close> stays at the host, has enough fuel, and where it leaves, \<open>L\<close> holds.\<close>

definition fine :: "('w job_run \<Rightarrow> bool) \<Rightarrow> 'a step \<times> 'w job_run \<Rightarrow> bool" where
  "fine L r = (case r of (Go _, s) \<Rightarrow> at_host s | (Leave, s) \<Rightarrow> L s | (Throw _, s) \<Rightarrow> at_host s | (NoFuel, s) \<Rightarrow> False)"

lemma fine_simps [simp]:
  "fine L (Go x, s) = at_host s" "fine L (Leave, s) = L s" "fine L (Throw e, s) = at_host s" "fine L (NoFuel, s) = False"
  by (simp_all add: fine_def)

definition holds :: "('w job_run \<Rightarrow> bool) \<Rightarrow> ('w, 'a) act \<Rightarrow> bool" where
  "holds L m \<longleftrightarrow> (\<forall>s. at_host s \<longrightarrow> fine L (m s))"

abbreviation kept :: "('w, 'a) act \<Rightarrow> bool" where
  "kept \<equiv> holds (\<lambda>_. False)"

lemma holdsD: "holds L m \<Longrightarrow> at_host s \<Longrightarrow> m s = (y, s1) \<Longrightarrow> fine L (y, s1)"
  unfolding holds_def by metis

lemma fine_mono: "fine (\<lambda>_. False) r \<Longrightarrow> fine L r"
  by (auto simp: fine_def split: prod.splits step.splits)

lemma holds_mono: "kept m \<Longrightarrow> holds L m"
  by (simp add: holds_def fine_mono)

lemma holds_and_then:
  assumes "holds L m" and "\<And>x. holds L (f x)"
  shows "holds L (and_then m f)"
  unfolding holds_def
proof (intro allI impI)
  fix s assume s: "at_host s"
  obtain y s1 where y: "m s = (y, s1)" by fastforce
  from holdsD [OF assms(1) s y] assms(2) show "fine L (and_then m f s)"
    by (cases y) (simp_all add: and_then_def y holds_def)
qed

lemma kept_try_except:
  assumes "kept m" and "\<And>e. kept (h e)"
  shows "kept (try_except m h)"
  unfolding holds_def
proof (intro allI impI)
  fix s assume s: "at_host s"
  obtain y s1 where y: "m s = (y, s1)" by fastforce
  from holdsD [OF assms(1) s y] assms(2) show "fine (\<lambda>_. False) (try_except m h s)"
    by (cases y) (simp_all add: try_except_def y holds_def)
qed

lemma kept_try_finally:
  assumes "kept m" and "kept f"
  shows "kept (try_finally m f)"
  unfolding holds_def
proof (intro allI impI)
  fix s assume s: "at_host s"
  obtain y s1 where y: "m s = (y, s1)" by fastforce
  obtain z s2 where z: "f s1 = (z, s2)" by fastforce
  note m = holdsD [OF assms(1) s y]
  then have "at_host s1" by (cases y) simp_all
  from holdsD [OF assms(2) this z] m show "fine (\<lambda>_. False) (try_finally m f s)"
    by (cases y; cases z) (simp_all add: try_finally_def y z)
qed

lemma holds_basic: "holds L (go x)" "holds L (throw e)" "holds L note_parse_failure" "holds L parse_failures" "holds L raise_fence"
  by (simp_all add: holds_def at_host_def go_def throw_def note_parse_failure_def parse_failures_def raise_fence_def)

lemma holds_runner: "(\<And>r. P (rn_world r) \<Longrightarrow> P (rn_world (snd (q r)))) \<Longrightarrow> holds L (on_runner q)"
  by (simp add: holds_def at_host_def on_runner_def Let_def split_def)

lemma holds_calls: "(\<And>w. P w \<Longrightarrow> P (snd (q w))) \<Longrightarrow> holds L (calls q)"
  by (simp add: holds_def at_host_def calls_def Let_def split_def split: sum.split)

lemma holds_if: "holds L m \<Longrightarrow> holds L n \<Longrightarrow> holds L (if b then m else n)"
  by simp

lemma holds_option: "(x = None \<Longrightarrow> holds L m) \<Longrightarrow> (\<And>y. x = Some y \<Longrightarrow> holds L (f y)) \<Longrightarrow> holds L (case x of None \<Rightarrow> m | Some y \<Rightarrow> f y)"
  by (cases x) simp_all

lemma holds_sum: "(\<And>y. holds L (m y)) \<Longrightarrow> (\<And>y. holds L (f y)) \<Longrightarrow> holds L (case x of Inl y \<Rightarrow> m y | Inr y \<Rightarrow> f y)"
  by (cases x) simp_all

lemma holds_list: "holds L m \<Longrightarrow> (\<And>y ys. holds L (f y ys)) \<Longrightarrow> holds L (case xs of [] \<Rightarrow> m | y # ys \<Rightarrow> f y ys)"
  by (cases xs) simp_all

lemma holds_prod: "(\<And>x y. holds L (f x y)) \<Longrightarrow> holds L (case p of (x, y) \<Rightarrow> f x y)"
  by (cases p) simp

lemma holds_each: "(\<And>x. holds L (f x)) \<Longrightarrow> holds L (each f xs)"
  by (induction xs) (auto intro: holds_and_then holds_basic)

lemma keeps_host:
  "P w \<Longrightarrow> P (snd (jn_get en w))" "P w \<Longrightarrow> P (snd (jn_update en changes w))" "P w \<Longrightarrow> P (snd (jn_increment en deltas w))"
  "P w \<Longrightarrow> P (snd (jn_error en a w))" "P w \<Longrightarrow> P (snd (jn_phase en p w))" "P w \<Longrightarrow> P (snd (en_external (jn_worker en) w))"
  using found [of w] changed [of w changes] counted [of w deltas] noted [of w a] timed [of w p] present [of w] by auto

lemma keeps_stopped: "P w \<Longrightarrow> P (snd (job_stopped en w))"
  using keeps_host(1) [of w] keeps_host(6) by (auto simp: job_stopped_def Let_def split: prod.split option.split)

lemma external_env [simp]: "en_external (worker_env en) = en_external (jn_worker en)" "en_cancelled (worker_env en) = job_stopped en"
  by (simp_all add: worker_env_def)

lemma holds_asks: "holds L (current_job en)" "holds L (stopped en)" "holds L (taken_away en)"
  "holds L (job_error_at en source message t)" "holds L (call_finalize en b)"
proof -
  show "holds L (current_job en)"
    unfolding current_job_def by (rule holds_runner) (simp add: split_def Let_def keeps_host)
  show "holds L (stopped en)"
    unfolding stopped_def by (rule holds_runner) (simp add: ask_cancelled_def ask_def Let_def split_def keeps_stopped)
  show "holds L (taken_away en)"
    unfolding taken_away_def by (rule holds_runner) (simp add: ask_external_def ask_def Let_def split_def keeps_host)
  show "holds L (job_error_at en source message t)"
    unfolding job_error_at_def by (rule holds_calls) (rule keeps_host)
  show "holds L (call_finalize en b)"
    unfolding call_finalize_def by (rule holds_option holds_basic holds_calls keep_finalize | assumption)+
qed

text \<open>Being told that the job is taken away means that the lease is lost.\<close>

lemma taken_away_at: "at_host s \<Longrightarrow> \<exists>t s'. taken_away en s = (Go t, s') \<and> at_host s' \<and> written_statuses s' = written_statuses s \<and>
    t = rn_fence_lost (jr_runner s) \<and> rn_fence_lost (jr_runner s') = rn_fence_lost (jr_runner s)"
  using present [of "rn_world (jr_runner s)"]
  by (auto simp: taken_away_def on_runner_def ask_external_def ask_def Let_def at_host_def)

lemma write_at: "at_host s \<Longrightarrow> \<exists>s'. write_changes en changes s = (Go (), s') \<and> at_host s' \<and>
    (\<forall>st. given_status changes = Some st \<longrightarrow> written_statuses s' = written_statuses s @ [st] \<and>
       (given_status (tl changes) = None \<longrightarrow> Q st (rn_world (jr_runner s'))))"
proof -
  assume "at_host s"
  then obtain w where w: "jn_update en changes (rn_world (jr_runner s)) = (Inr True, w)" "P w"
    and q: "\<And>st. given_status changes = Some st \<Longrightarrow> given_status (tl changes) = None \<Longrightarrow> Q st w"
    using changed [of "rn_world (jr_runner s)" changes] by (auto simp: at_host_def)
  let ?s = "s\<lparr>jr_runner := (jr_runner s)\<lparr>rn_world := w\<rparr>\<rparr>"
  have "write_changes en changes s = (Go (), ?s\<lparr>jr_writes := jr_writes ?s @ [changes]\<rparr>)"
    by (simp add: write_changes_def and_then_def calls_def note_write_def w)
  moreover have "written_statuses (?s\<lparr>jr_writes := jr_writes ?s @ [changes]\<rparr>) = written_statuses s @ [st]"
    if "given_status changes = Some st" for st
    using written_simps(4) [of ?s changes] that by (simp only: written_simps(1) option.case)
  ultimately show ?thesis using w(2) q by (auto simp: at_host_def)
qed

lemma holds_write: "holds L (write_changes en changes)"
  unfolding holds_def
proof (intro allI impI)
  fix s assume "at_host s"
  then obtain s' where "write_changes en changes s = (Go (), s')" "at_host s'" using write_at by blast
  then show "fine L (write_changes en changes s)" by simp
qed

lemma holds_host_calls: "holds L (calls (jn_increment en deltas))" "holds L (calls (jn_error en a))" "holds L (calls (jn_phase en p))"
  "holds L (calls (jn_read en path))"
  by (intro holds_calls keeps_host keep_read; assumption)+

lemmas holds_rules =
  holds_and_then holds_if holds_option holds_sum holds_list holds_prod holds_basic holds_asks holds_write holds_host_calls holds_each

lemma holds_fence: "holds L (fence_if_lost e)"
  unfolding fence_if_lost_def by (intro holds_rules)

lemma kept_parse: "kept (parse_source en lib op f)" "kept (parse_failed en lib f x)"
  unfolding parse_source_def parse_failed_def Let_def by (intro holds_rules)+

section \<open>The workers\<close>

lemma chunk_env_sel [simp]:
  "en_cancelled (chunk_env en lib op table existing c i k) = job_stopped en"
  "en_external (chunk_env en lib op table existing c i k) = en_external (jn_worker en)"
  "en_sleep (chunk_env en lib op table existing c i k) = en_sleep (jn_worker en)"
  "en_acquire (chunk_env en lib op table existing c i k) = en_acquire (jn_worker en)"
  "en_store (chunk_env en lib op table existing c i k) = en_store (jn_worker en)"
  "en_claim (chunk_env en lib op table existing c i k) = en_claim (jn_worker en)"
  "en_update (chunk_env en lib op table existing c i k) = en_update (jn_worker en)"
  by (simp_all add: chunk_env_def worker_env_def)

lemma chunk_env_duplicate: "en_duplicate (chunk_env en lib op table existing c i k) = Some d \<Longrightarrow> en_duplicate (jn_worker en) = Some d"
  by (simp add: chunk_env_def split: if_splits)

lemma chunk_keeps: "runner_relation (\<lambda>r r'. P (rn_world r) \<longrightarrow> P (rn_world r')) (\<lambda>w w'. P w \<longrightarrow> P w') (chunk_env en lib op table existing c i k)"
  by unfold_locales
     (auto simp: counter_defs keeps_stopped keeps_host keep_waits keep_store dest: keep_claim keep_update chunk_env_duplicate intro: keep_duplicate)

lemma kept_chunk: "kept (run_chunk (chunk_env en lib op table existing c i k) lib op k)"
  unfolding holds_def
proof (intro allI impI)
  fix s assume s: "at_host s"
  let ?en = "chunk_env en lib op table existing c i k" and ?d = "nat (io_max_split_depth op - ck_depth k)"
  have "splits_within_depth ?en op" using no_split by (simp add: splits_within_depth_def)
  then have "ends_within (store_budget (nat (io_max_attempts op)) ?d) (jr_runner s) (process_chunk (Suc ?d) ?en (jl_encoder lib) op k (jr_runner s))"
    by (rule process_chunk_ends) simp_all
  then obtain res r where r: "process_chunk (Suc ?d) ?en (jl_encoder lib) op k (jr_runner s) = Some (res, r)"
    by (auto simp: ends_within_def simp del: process_chunk.simps split: option.splits)
  have "P (rn_world r)" using runner_relation.process_chunk_R [OF chunk_keeps r] s by (simp add: at_host_def)
  with r show "fine (\<lambda>_. False) (run_chunk ?en lib op k s)"
    by (cases res) (simp_all add: run_chunk_def at_host_def del: process_chunk.simps)
qed

lemma kept_counts: "kept (write_counts en r)"
  using holds_host_calls(1) by (auto simp: holds_def write_counts_def Let_def)

lemma kept_settle: "kept (settle_chunk en lib op table existing c ik)"
proof -
  obtain i k where ik: "ik = (i, k)" by fastforce
  have "kept (try_finally (run_chunk (chunk_env en lib op table existing c i k) lib op k) (write_counts en r))" for r
    by (intro kept_try_finally kept_chunk kept_counts)
  then show ?thesis by (simp add: holds_def settle_chunk_def ik)
qed

lemma holds_leave: "holds at_host leave"
  by (simp add: holds_def leave_def)

lemma holds_serve: "holds at_host (serve_conversation en lib op table existing p)"
  unfolding serve_conversation_def
  by (intro holds_rules holds_leave holds_mono [OF kept_settle])

lemma worker_at:
  assumes stop: "kept stop" and serve: "\<And>g. holds at_host (serve g)" and "at_host s"
  shows "fine (\<lambda>_. False) (fst (worker stop serve gs s))"
  using assms(3)
proof (induction gs arbitrary: s)
  case Nil
  obtain x s1 where "stop s = (x, s1)" by fastforce
  with holdsD [OF stop Nil this] show ?case by (cases x) simp_all
next
  case (Cons g gs)
  obtain x s1 where s1: "stop s = (x, s1)" by fastforce
  note x = holdsD [OF stop Cons.prems s1]
  obtain y s2 where y: "serve g s1 = (y, s2)" by fastforce
  obtain z s3 where z: "try_except (serve g) fence_if_lost s1 = (z, s3)" by fastforce
  have "fine at_host (z, s3)" if "at_host s1"
    using holdsD [OF serve that y] z holdsD [OF holds_fence [of at_host]] by (cases y) (auto simp: try_except_def y)
  with x Cons.IH [of s3] show ?case by (cases x; cases z) (auto simp: s1 z split: bool.split)
qed

lemma kept_workers:
  assumes "kept stop" and "\<And>g. holds at_host (serve g)"
  shows "kept (run_workers n stop serve gs died)"
proof (induction n arbitrary: gs died)
  case 0
  show ?case by (simp add: holds_def split: option.split)
next
  case (Suc n)
  show ?case
    unfolding holds_def
  proof (intro allI impI)
    fix s assume s: "at_host s"
    obtain x s1 rest where w: "worker stop serve gs s = ((x, s1), rest)" by (metis prod.exhaust)
    from worker_at [of stop serve s gs] assms s Suc show "fine (\<lambda>_. False) (run_workers (Suc n) stop serve gs died s)"
      by (cases x) (simp_all add: w holds_def)
  qed
qed

lemma kept_import: "kept (import_chunks en lib op ps superseded)"
proof -
  have "kept (load_existing en op table superseded)" for table
    unfolding load_existing_def Let_def
    by (intro holds_rules holds_calls) (auto split: if_splits intro: keep_existing)
  moreover have "holds at_host (each (serve_conversation en lib op table existing) g)" for table existing g
    by (intro holds_each holds_serve)
  ultimately show ?thesis
    unfolding import_chunks_def by (intro holds_rules kept_workers holds_serve) auto
qed

section \<open>The end\<close>

text \<open>\<open>closes m\<close>: when \<open>m\<close> goes on or leaves, the job is over for this run.\<close>

definition closes :: "('w, 'a) act \<Rightarrow> bool" where
  "closes m \<longleftrightarrow> (\<forall>s. at_host s \<longrightarrow>
     (case m s of (Go _, s') \<Rightarrow> over s' | (Leave, s') \<Rightarrow> over s' | (Throw _, s') \<Rightarrow> at_host s' | (NoFuel, s') \<Rightarrow> False))"

lemma closes_and_then:
  assumes "holds over m" and "\<And>x. closes (f x)"
  shows "closes (and_then m f)"
  unfolding closes_def
proof (intro allI impI)
  fix s assume s: "at_host s"
  obtain y s1 where y: "m s = (y, s1)" by fastforce
  from holdsD [OF assms(1) s y] assms(2)
  show "case and_then m f s of (Go _, s') \<Rightarrow> over s' | (Leave, s') \<Rightarrow> over s' | (Throw _, s') \<Rightarrow> at_host s' | (NoFuel, s') \<Rightarrow> False"
    by (cases y) (simp_all add: and_then_def y closes_def)
qed

lemma write_ends:
  assumes "at_host s" and "given_status changes = Some st" and "st \<in> set terminal_job_statuses" and "given_status (tl changes) = None"
  shows "\<exists>s'. write_changes en changes s = (Go (), s') \<and> ended s'"
  using write_at [OF assms(1), of changes] assms(2-) by (auto simp: ended_def)

lemma closes_write:
  assumes "given_status changes = Some st" and "st \<in> set terminal_job_statuses" and "given_status (tl changes) = None"
  shows "closes (write_changes en changes)"
  unfolding closes_def
proof (intro allI impI)
  fix s assume "at_host s"
  from write_ends [OF this assms]
  show "case write_changes en changes s of (Go _, s') \<Rightarrow> over s' | (Leave, s') \<Rightarrow> over s' | (Throw _, s') \<Rightarrow> at_host s' | (NoFuel, s') \<Rightarrow> False"
    by (auto simp: over_def)
qed

lemma leaves_over:
  assumes "given_status changes = Some st" and "st \<in> set terminal_job_statuses" and "given_status (tl changes) = None"
  shows "holds over (and_then (write_changes en changes) (\<lambda>_. leave))"
  unfolding holds_def
proof (intro allI impI)
  fix s assume "at_host s"
  from write_ends [OF this assms] show "fine over (and_then (write_changes en changes) (\<lambda>_. leave) s)"
    by (auto simp: and_then_def leave_def over_def)
qed

text \<open>What is done unless the job has been taken away.\<close>

lemma holds_taken:
  assumes "\<And>s. at_host s \<Longrightarrow> rn_fence_lost (jr_runner s) \<Longrightarrow> fine L (m s)" and "holds L n"
  shows "holds L (and_then (taken_away en) (\<lambda>t. if t then m else n))"
  unfolding holds_def
proof (intro allI impI)
  fix s assume "at_host s"
  from taken_away_at [OF this] obtain t s' where "taken_away en s = (Go t, s')" "at_host s'" "t \<longleftrightarrow> rn_fence_lost (jr_runner s')" by auto
  with assms show "fine L (and_then (taken_away en) (\<lambda>t. if t then m else n) s)"
    by (cases t) (simp_all add: and_then_def holds_def)
qed

lemma leaves_lost: "at_host s \<Longrightarrow> rn_fence_lost (jr_runner s) \<Longrightarrow> fine over (leave s)"
  by (simp add: leave_def over_def)

lemma given_status_append: "given_status (xs @ ys) = (case given_status xs of None \<Rightarrow> given_status ys | Some st \<Rightarrow> Some st)"
  by (induction xs rule: given_status.induct) simp_all

lemma stop_job_unfold: "stop_job en changes = and_then (taken_away en) (\<lambda>t. if t then leave
    else and_then (write_changes en (JcStatus JCancelled # changes @ [JcSourceRetryRequired True])) (\<lambda>_. leave))"
  by (rule ext) (auto simp: stop_job_def mark_job_cancelled_def and_then_def go_def split: prod.split step.split)

lemma holds_stop: "given_status changes = None \<Longrightarrow> holds over (stop_job en changes)"
  unfolding stop_job_unfold
  by (rule holds_taken [OF leaves_lost leaves_over [of _ JCancelled]]) (simp_all add: terminal_job_statuses_def given_status_append)

lemma holds_unless_stopped: "given_status changes = None \<Longrightarrow> (\<And>j. holds over (f j)) \<Longrightarrow> holds over (unless_stopped en changes f)"
  unfolding unless_stopped_def by (intro holds_rules holds_stop)

lemma leaves: "holds over m \<Longrightarrow> holds over (and_then (taken_away en) (\<lambda>t. if t then leave else m))"
  by (rule holds_taken [OF leaves_lost])

lemma holds_read_file: "holds over (read_file en lib op f)"
proof -
  have "kept (and_then (taken_away en) (\<lambda>t. if t then go () else calls (jn_increment en [(ParsedFiles, 1)])))"
    by (intro holds_rules)
  then have "holds over (try_finally (try_except (parse_source en lib op f) (parse_failed en lib f))
      (and_then (taken_away en) (\<lambda>t. if t then go () else calls (jn_increment en [(ParsedFiles, 1)]))))"
    by (intro holds_mono [OF kept_try_finally] kept_try_except kept_parse)
  then show ?thesis
    unfolding read_file_def by (intro holds_unless_stopped holds_and_then holds_write leaves holds_basic) simp_all
qed

lemma holds_read_files: "holds over (read_files en lib op fs)"
  by (induction fs) (auto intro!: holds_and_then holds_basic holds_read_file)

lemma holds_discover: "holds over (discover en lib)"
  unfolding discover_def by (intro holds_rules holds_unless_stopped) simp_all

lemma holds_prepare: "holds over (prepare en lib missing op cs)"
proof -
  have "holds over (case jn_statuses en of None \<Rightarrow> go [] | Some f \<Rightarrow> calls f)"
    by (intro holds_rules holds_calls) (rule keep_statuses)
  then show ?thesis unfolding prepare_def by (intro holds_and_then holds_sum holds_prod holds_if holds_basic holds_write)
qed

lemma holds_announce: "holds over (announce en cs ps)"
  unfolding announce_def by (intro leaves holds_rules)

lemma holds_end_empty: "holds over (end_empty en)"
proof -
  have "JCompletedWithErrors \<in> set terminal_job_statuses" by (simp add: terminal_job_statuses_def)
  then have finish: "holds over (and_then (write_changes en (JcStatus JCompletedWithErrors # changes)) (\<lambda>_. leave))"
    if "given_status changes = None" for changes
    using that by (intro leaves_over) simp_all
  show ?thesis
    unfolding end_empty_def by (intro holds_and_then [of _ parse_failures] holds_and_then [of _ "if _ then _ else _"]
        holds_and_then [of _ "call_finalize en True"] holds_if holds_basic holds_asks holds_and_then [of _ note_parse_failure] finish) simp
qed

lemma holds_graph: "holds over (graph_stage en lib)"
proof -
  have failed: "kept (graph_failed en lib x)" for x
    unfolding graph_failed_def by (intro holds_rules holds_fence)
  have "holds over (sync_graph en lib f)" if "jn_sync en = Some f" for f
    unfolding sync_graph_def
    by (intro holds_and_then holds_write holds_host_calls holds_mono [OF kept_try_finally] kept_try_except failed holds_calls keep_sync [OF that])
  then show ?thesis
    unfolding graph_stage_def by (intro holds_rules) (auto split: if_splits)
qed

lemma holds_check: "holds over (check_cancelled en)"
  unfolding check_cancelled_def by (intro holds_rules holds_stop) simp

lemma holds_start: "holds over (start_job en)"
proof -
  have "fine over (start_job en s)" if host: "at_host s" for s
  proof -
    obtain j w where g: "jn_get en (rn_world (jr_runner s)) = (Some j, w)" "P w"
      using found [of "rn_world (jr_runner s)"] host by (auto simp: at_host_def)
    let ?s = "s\<lparr>jr_runner := (jr_runner s)\<lparr>rn_world := w\<rparr>\<rparr>"
    have "current_job en s = (Go (Some j), ?s)" by (simp add: current_job_def on_runner_def g)
    then have "start_job en s = and_then (stopped en) (\<lambda>c. if c then stop_job en [] else go ()) ?s"
      by (simp add: start_job_def and_then_def)
    moreover have "holds over (and_then (stopped en) (\<lambda>c. if c then stop_job en [] else go ()))"
      by (intro holds_rules holds_stop) simp
    ultimately show ?thesis using g(2) by (simp add: holds_def at_host_def)
  qed
  then show ?thesis by (simp add: holds_def)
qed

lemma closes_finish: "closes (finish_job en)"
proof -
  have "final_status b job \<in> set terminal_job_statuses" for b job by (simp add: final_status_def terminal_job_statuses_def)
  then have "closes (write_changes en (JcStatus (final_status b job) # changes))" if "given_status changes = None" for b job changes
    using that by (intro closes_write) simp_all
  then show ?thesis
    unfolding finish_job_def by (intro closes_and_then holds_asks holds_basic) simp
qed

lemma closes_body: "closes (import_body en lib missing op)"
  unfolding import_body_def split_def
  by (intro closes_and_then holds_start holds_discover holds_write holds_read_files holds_prepare holds_announce holds_if holds_end_empty
      holds_basic holds_mono [OF kept_import] holds_check holds_graph closes_finish)

lemma failed_at:
  assumes "at_host s"
  shows "\<exists>y s'. import_failed en lib x s = (y, s') \<and> over s' \<and> (y = Go () \<or> y = Throw LeaseLost \<and> rn_fence_lost (jr_runner s'))"
proof (cases "x = LeaseLost")
  case True
  then show ?thesis by (simp add: import_failed_def fence_if_lost_def and_then_def raise_fence_def throw_def over_def)
next
  case False
  obtain t s1 where t: "taken_away en s = (Go t, s1)" and s1: "at_host s1" "t \<longleftrightarrow> rn_fence_lost (jr_runner s1)"
    using taken_away_at [OF assms] by auto
  show ?thesis
  proof (cases t)
    case True
    with False t s1 show ?thesis by (simp add: import_failed_def and_then_def go_def over_def)
  next
    case no: False
    obtain j w where g: "jn_get en (rn_world (jr_runner s1)) = (Some j, w)" "P w"
      using found [of "rn_world (jr_runner s1)"] s1(1) by (auto simp: at_host_def)
    let ?s = "s1\<lparr>jr_runner := (jr_runner s1)\<lparr>rn_world := w\<rparr>\<rparr>"
    let ?a = "job_exception (jl_alnum lib) (U ''import'') x (Some (ij_phase j))"
    obtain w' where n: "jn_error en ?a w = (Inr (), w')" "P w'" using noted g(2) by blast
    let ?s' = "?s\<lparr>jr_runner := (jr_runner ?s)\<lparr>rn_world := w'\<rparr>\<rparr>"
    let ?c = "[JcStatus JFailed, JcPhase (U ''failed''), JcSourceRetryRequired True, JcCurrentFile None, JcCurrentConversation None]"
    have "at_host ?s'" using n(2) by (simp add: at_host_def)
    then obtain s2 where s2: "write_changes en ?c ?s' = (Go (), s2)" "ended s2"
      using write_ends [of ?s' ?c JFailed] by (auto simp: terminal_job_statuses_def)
    have "current_job en s1 = (Go (Some j), ?s)" by (simp add: current_job_def on_runner_def g)
    moreover have "calls (jn_error en ?a) ?s = (Go (), ?s')" by (simp add: calls_def n)
    ultimately have "import_failed en lib x s = (Go (), s2)"
      using False no t s2(1) by (simp add: import_failed_def and_then_def)
    with s2(2) show ?thesis by (simp add: over_def)
  qed
qed

text \<open>A run ends its job, or loses the lease.\<close>

lemma run_over:
  assumes "at_host s"
  shows "\<exists>y s'. run_import_job en lib retain missing op s = (y, s') \<and> over s' \<and>
           (y = Go () \<or> y = Leave \<or> y = Throw LeaseLost \<and> rn_fence_lost (jr_runner s'))"
proof -
  obtain y s1 where b: "import_body en lib missing op s = (y, s1)" by fastforce
  have "closes (import_body en lib missing op)" by (rule closes_body)
  then have y: "case y of Go _ \<Rightarrow> over s1 | Leave \<Rightarrow> over s1 | Throw _ \<Rightarrow> at_host s1 | NoFuel \<Rightarrow> False"
    unfolding closes_def using assms b by (cases y) (metis (no_types, lifting) prod.case step.case)+
  have tried: "\<exists>y s'. try_except (import_body en lib missing op) (import_failed en lib) s = (y, s') \<and> over s' \<and>
      (y = Go () \<or> y = Leave \<or> y = Throw LeaseLost \<and> rn_fence_lost (jr_runner s'))"
  proof (cases y)
    case (Throw e)
    with y failed_at [of s1 lib e] show ?thesis by (auto simp: try_except_def b)
  qed (use y in \<open>simp_all add: try_except_def b\<close>)
  have "over (s'\<lparr>jr_removed := r\<rparr>) = over s'" for s' :: "'w job_run" and r by (simp add: over_def ended_def)
  moreover obtain z s2 where "try_except (import_body en lib missing op) (import_failed en lib) s = (z, s2)" "over s2"
    "z = Go () \<or> z = Leave \<or> z = Throw LeaseLost \<and> rn_fence_lost (jr_runner s2)" using tried by blast
  ultimately show ?thesis
    by (intro exI [of _ z] exI [of _ "s2\<lparr>jr_removed := \<not> retain\<rparr>"]) (simp add: run_import_job_def try_finally_def)
qed

end

section \<open>The store provides it\<close>

text \<open>The job store with a clock, and what the hooks know of.\<close>

record 'x desk =
  dk_store :: job_store
  dk_clock :: instant
  dk_rest :: 'x

fun repo_exn :: "repo_error \<Rightarrow> run_exn" where
  "repo_exn (ImportLeaseLost jid owner) = LeaseLost"
| "repo_exn (ValueError s) = Raised (builtin_exn [''ValueError'', ''Exception''] s)"
| "repo_exn (ImportActiveJobLimitExceeded pid n m) = RunError (U ''The project already has active memory imports.'')"
| "repo_exn (ImportWorkspaceBudgetExceeded n m k) = RunError (U ''The workspace budget is exceeded.'')"
| "repo_exn IntegrityError = Raised (builtin_exn [''IntegrityError'', ''Exception''] [])"

definition desk_call :: "(job_store \<Rightarrow> instant \<Rightarrow> 'a store_result) \<Rightarrow> 'x desk \<Rightarrow> (run_exn + 'a) \<times> 'x desk" where
  "desk_call f w =
    (let w' = w\<lparr>dk_clock := dk_clock w + 1\<rparr>
     in case f (dk_store w) (dk_clock w) of
          Inl e \<Rightarrow> (Inl (repo_exn e), w')
        | Inr (st, y) \<Rightarrow> (Inr y, w'\<lparr>dk_store := st\<rparr>))"

definition forget_result :: "(run_exn + 'a) \<times> 'w \<Rightarrow> (run_exn + unit) \<times> 'w" where
  "forget_result = apfst (map_sum id (\<lambda>_. ()))"

text \<open>A call of a hook. Meanwhile the job's cancellation may have been requested.\<close>

definition hook_call ::
  "pystr \<Rightarrow> pystr \<Rightarrow> ('x \<Rightarrow> bool) \<Rightarrow> ('x \<Rightarrow> 'a \<times> 'x) \<Rightarrow> 'x desk \<Rightarrow> 'a \<times> 'x desk" where
  "hook_call jid pid cancels q w =
    (let (y, x) = q (dk_rest w); w' = w\<lparr>dk_rest := x\<rparr>
     in (y, if cancels x then w'\<lparr>dk_store := fst (request_cancel (dk_store w) jid pid (dk_clock w) (dk_clock w))\<rparr> else w'))"

text \<open>A run in the server's own process, on its store: there are no leases and no claims.\<close>

definition in_process ::
  "pystr \<Rightarrow> pystr \<Rightarrow> ('x \<Rightarrow> bool) \<Rightarrow> (instant \<Rightarrow> pystr) \<Rightarrow> (pystr \<Rightarrow> rat) \<Rightarrow> 'x job_env \<Rightarrow> 'x desk job_env" where
  "in_process jid pid cancels new_id took base =
    (let b = jn_worker base
     in \<lparr>jn_worker = \<lparr>en_key = en_key b, en_cancelled = Pair False, en_external = Pair False,
           en_sleep = hook_call jid pid cancels (en_sleep b), en_existing = en_existing b, en_claim = None,
           en_update = map_option (\<lambda>f key st. hook_call jid pid cancels (f key st)) (en_update b),
           en_duplicate = map_option (\<lambda>f key. hook_call jid pid cancels (f key)) (en_duplicate b),
           en_acquire = hook_call jid pid cancels (en_acquire b),
           en_store = (\<lambda>key n. hook_call jid pid cancels (en_store b key n))\<rparr>,
         jn_get = (\<lambda>w. let (st, job) = get (dk_store w) jid None False in (job, w\<lparr>dk_store := st\<rparr>)),
         jn_update = (\<lambda>changes w. apfst (map_sum id (\<lambda>job. job \<noteq> None)) (desk_call (\<lambda>st t. update st jid None changes t t) w)),
         jn_increment = (\<lambda>deltas w. forget_result (desk_call (\<lambda>st t. increment st jid None deltas t t) w)),
         jn_error = (\<lambda>a w. forget_result (desk_call (\<lambda>st t. add_job_error st jid None a (new_id t) t t) w)),
         jn_phase = (\<lambda>p w. forget_result (desk_call (\<lambda>st t. record_phase st jid None p (took p) t t) w)),
         jn_inputs = jn_inputs base, jn_disk = jn_disk base,
         jn_read = (\<lambda>path. hook_call jid pid cancels (jn_read base path)),
         jn_statuses = map_option (hook_call jid pid cancels) (jn_statuses base),
         jn_existing = map_option (\<lambda>f ks. hook_call jid pid cancels (f ks)) (jn_existing base),
         jn_sync = map_option (hook_call jid pid cancels) (jn_sync base),
         jn_finalize = map_option (\<lambda>f b. hook_call jid pid cancels (f b)) (jn_finalize base)\<rparr>)"

definition job_at_hand :: "pystr \<Rightarrow> 'x desk \<Rightarrow> bool" where
  "job_at_hand jid w \<longleftrightarrow> st_repo (dk_store w) = None \<and> map_of (st_jobs (dk_store w)) jid \<noteq> None"

definition has_status :: "pystr \<Rightarrow> job_status \<Rightarrow> 'x desk \<Rightarrow> bool" where
  "has_status jid st w \<longleftrightarrow> (\<exists>j. map_of (st_jobs (dk_store w)) jid = Some j \<and> ij_status j = st)"

lemma write_through_at:
  assumes "st_repo st = None" and "map_of (st_jobs st) jid = Some job"
  shows "write_through st jid w f = Inr (st\<lparr>st_jobs := AList.update jid (f job) (st_jobs st)\<rparr>, Some (f job))"
  using assms by (simp add: write_through_def)

lemma cached_update: "map_of (AList.update jid x js) k = (if k = jid then Some x else map_of js k)"
  by (simp add: update_conv')

lemma fold_status: "given_status changes = None \<Longrightarrow> ij_status (fold set_job_field changes j) = ij_status j"
proof (induction changes arbitrary: j)
  case (Cons c cs)
  then show ?case by (cases c) simp_all
qed simp

lemma changed_status:
  assumes "given_status changes = Some st" and "given_status (tl changes) = None"
  shows "ij_status (changed_job changes now j) = st"
  using assms by (cases changes; cases "hd changes") (simp_all add: changed_job_def fold_status)

lemma request_cancel_at:
  "st_repo st = None \<Longrightarrow> map_of (st_jobs st) jid \<noteq> None \<Longrightarrow>
   st_repo (fst (request_cancel st jid pid now clock)) = None \<and> map_of (st_jobs (fst (request_cancel st jid pid now clock))) jid \<noteq> None"
  by (auto simp: request_cancel_def Let_def cached_update split: option.split)

lemma hook_keeps: "job_at_hand jid w \<Longrightarrow> job_at_hand jid (snd (hook_call jid pid cancels q w))"
  using request_cancel_at [of "dk_store w" jid pid "dk_clock w" "dk_clock w"]
  by (auto simp: job_at_hand_def hook_call_def Let_def split_def)

lemma desk_call_at:
  assumes "f (dk_store w) (dk_clock w) = Inr (st, y)"
  shows "desk_call f w = (Inr y, w\<lparr>dk_clock := dk_clock w + 1, dk_store := st\<rparr>)"
  using assms by (simp add: desk_call_def)

lemma in_process_host: "job_host (job_at_hand jid) (has_status jid) (in_process jid pid cancels new_id took base)"
proof (unfold_locales, goal_cases)
  case (1 w)
  then show ?case by (auto simp: in_process_def Let_def get_def job_at_hand_def belongs_def)
next
  case (2 w changes)
  then obtain job where job: "st_repo (dk_store w) = None" "map_of (st_jobs (dk_store w)) jid = Some job"
    by (auto simp: job_at_hand_def)
  let ?t = "dk_clock w"
  have "update (dk_store w) jid None changes ?t ?t =
      Inr ((dk_store w)\<lparr>st_jobs := AList.update jid (changed_job changes ?t job) (st_jobs (dk_store w))\<rparr>, Some (changed_job changes ?t job))"
    unfolding update_def by (rule write_through_at [OF job])
  note desk_call_at [where f = "\<lambda>st t. update st jid None changes t t", OF this]
  then show ?case
    using job changed_status [of changes] by (auto simp: in_process_def Let_def job_at_hand_def has_status_def cached_update)
next
  case (3 w deltas)
  then obtain job where job: "st_repo (dk_store w) = None" "map_of (st_jobs (dk_store w)) jid = Some job"
    by (auto simp: job_at_hand_def)
  then show ?case
    by (auto simp: in_process_def Let_def job_at_hand_def desk_call_def forget_result_def increment_def write_through_at cached_update)
next
  case (4 w a)
  then obtain job where job: "st_repo (dk_store w) = None" "map_of (st_jobs (dk_store w)) jid = Some job"
    by (auto simp: job_at_hand_def)
  then show ?case
    by (auto simp: in_process_def Let_def job_at_hand_def desk_call_def forget_result_def add_job_error_def cached_update)
next
  case (5 w p)
  then obtain job where job: "st_repo (dk_store w) = None" "map_of (st_jobs (dk_store w)) jid = Some job"
    by (auto simp: job_at_hand_def)
  then show ?case
    by (auto simp: in_process_def Let_def job_at_hand_def desk_call_def forget_result_def record_phase_def record_phases_def
        write_through_at cached_update)
qed (auto simp: in_process_def Let_def hook_keeps)

interpretation own: job_host "job_at_hand jid" "has_status jid" "in_process jid pid cancels new_id took base"
  for jid pid cancels new_id took base
  by (rule in_process_host)

text \<open>A run in the server's own process, with a job store that has no repository behind it, always comes to an end that shows. Whatever the files, the hooks
  and the provider do, and whenever cancellation is requested: the run returns, and then the job's
  status in the store is the one it wrote last, which is an end; unless a hook has reported that
  the lease is lost.\<close>
theorem stored_run_ends:
  assumes "st_repo (dk_store (rn_world (jr_runner s))) = None" and "map_of (st_jobs (dk_store (rn_world (jr_runner s)))) jid \<noteq> None"
  shows "\<exists>y s'. run_import_job (in_process jid pid cancels new_id took base) lib retain missing op s = (y, s') \<and>
           (rn_fence_lost (jr_runner s') \<or>
            (y = Go () \<or> y = Leave) \<and> written_statuses s' \<noteq> [] \<and> last (written_statuses s') \<in> set terminal_job_statuses \<and>
            (\<exists>j. map_of (st_jobs (dk_store (rn_world (jr_runner s')))) jid = Some j \<and> ij_status j = last (written_statuses s')))"
proof -
  have "own.at_host jid s" using assms by (simp add: own.at_host_def job_at_hand_def)
  from own.run_over [OF this] show ?thesis by (fastforce simp: own.over_def own.ended_def has_status_def)
qed

section \<open>A run\<close>

text \<open>One file with one conversation, and a provider that finds a memory in every chunk, or refuses it.\<close>

definition demo_lib :: job_lib where
  "demo_lib = \<lparr>jl_alnum = basic_alnum, jl_text_of = (\<lambda>_. []), jl_dumps = (\<lambda>_. []), jl_stamp = (\<lambda>_. None),
     jl_loads = (\<lambda>_. Some (JObj [(U ''id'', JStr (U ''1'')), (U ''messages'', JArr [JObj [(U ''role'', JStr (U ''user'')), (U ''content'', JStr (U ''Hi''))]])])),
     jl_hash = (\<lambda>_. U ''key''), jl_encoder = None, jl_dates = demo_dates, jl_snapshot = (\<lambda>_. JNull),
     jl_parse_exn = (\<lambda>_. builtin_exn [''ValueError''] []), jl_archive_text = (\<lambda>_. []), jl_writable = (\<lambda>_ _. True),
     jl_destination = (\<lambda>_ _. [])\<rparr>"

definition demo_base :: "store_outcome \<Rightarrow> unit job_env" where
  "demo_base answer =
    \<lparr>jn_worker = \<lparr>en_key = (\<lambda>_. []), en_cancelled = Pair False, en_external = Pair False, en_sleep = Pair True, en_existing = [],
       en_claim = None, en_update = None, en_duplicate = None, en_acquire = Pair True, en_store = (\<lambda>_ _ w. (answer, w))\<rparr>,
     jn_get = Pair None, jn_update = (\<lambda>_. Pair (Inr True)), jn_increment = (\<lambda>_. Pair (Inr ())), jn_error = (\<lambda>_. Pair (Inr ())),
     jn_phase = (\<lambda>_. Pair (Inr ())),
     jn_inputs = [\<lparr>cd_path = [U ''chat.json''], cd_is_file = True, cd_display = U ''chat.json'', cd_size = 10, cd_content = BadArchive\<rparr>],
     jn_disk = [], jn_read = (\<lambda>_. Pair (Inr [])), jn_statuses = None, jn_existing = None, jn_sync = None, jn_finalize = None\<rparr>"

definition demo_args :: create_args where
  "demo_args = \<lparr>ca_project_id = U ''p'', ca_input_files = [U ''chat.json''], ca_entities = [], ca_source_app = U ''auto'', ca_infer = True,
     ca_workers = 1, ca_options = JNull, ca_job_id = Some (U ''j''), ca_workspace = None, ca_status = JQueued, ca_lease_owner = None,
     ca_lease_expires_at = None, ca_quota_snapshot = JNull, ca_max_active = None, ca_max_retained = None\<rparr>"

definition demo_desk :: "unit desk job_run" where
  "demo_desk =
    \<lparr>jr_runner = \<lparr>rn_world = \<lparr>dk_store = \<lparr>st_jobs = [(U ''j'', new_job demo_args [] 0)], st_max = 10, st_repo = None\<rparr>, dk_clock = 1, dk_rest = ()\<rparr>,
       rn_fence_lost = False, rn_total = 0, rn_processed = 0, rn_imported = 0, rn_skipped = 0, rn_failed = 0, rn_retried = 0, rn_split = 0,
       rn_memories = 0, rn_errors = 0, rn_stores = [], rn_reports = []\<rparr>,
     jr_parse_failed = False, jr_writes = [], jr_removed = False\<rparr>"

definition demo_import_run :: "store_outcome \<Rightarrow> unit step \<times> unit desk job_run" where
  "demo_import_run answer =
    run_import_job (in_process (U ''j'') (U ''p'') (\<lambda>_. False) (\<lambda>_. []) (\<lambda>_. 1) (demo_base answer)) demo_lib False False ((demo_import ''ann'')\<lparr>io_redact := False\<rparr>) demo_desk"

definition demo_outcome :: "store_outcome \<Rightarrow> job_status list \<times> bool \<times> (int \<times> int \<times> bool) option" where
  "demo_outcome answer =
    (case demo_import_run answer of (_, s) \<Rightarrow>
       (written_statuses s, rn_fence_lost (jr_runner s),
        map_option (\<lambda>j. (ij_count j ImportedChunks, ij_count j FailedChunks, ij_source_retry_required j))
          (map_of (st_jobs (dk_store (rn_world (jr_runner s)))) (U ''j''))))"

lemma demo_completes:
  "demo_outcome (Stored 1 False) = ([JDiscovering, JParsing, JImporting, JCompleted], False, Some (1, 0, False))"
  by code_simp

lemma demo_written:
  "written_statuses (snd (demo_import_run (Stored 1 False))) = [JDiscovering, JParsing, JImporting, JCompleted]"
  "\<not> rn_fence_lost (jr_runner (snd (demo_import_run (Stored 1 False))))"
  using demo_completes by (simp_all add: demo_outcome_def split_def)

lemma run_ends_job_once_witness:
  "written_statuses (snd (demo_import_run (Stored 1 False))) = [JDiscovering, JParsing, JImporting, JCompleted] \<and>
   sorted_wrt (<) (map stage (written_statuses (snd (demo_import_run (Stored 1 False)))))"
proof -
  have "jr_writes demo_desk = []" by (simp add: demo_desk_def)
  note run_ends_job_once [OF prod.collapse [symmetric] this]
  from this [of "in_process (U ''j'') (U ''p'') (\<lambda>_. False) (\<lambda>_. []) (\<lambda>_. 1) (demo_base (Stored 1 False))" demo_lib False False
    "(demo_import ''ann'')\<lparr>io_redact := False\<rparr>"]
  show ?thesis using demo_written(1) by (simp add: demo_import_run_def)
qed

lemma stored_run_ends_witness:
  "fst (demo_import_run (Stored 1 False)) \<in> {Go (), Leave} \<and>
   has_status (U ''j'') JCompleted (rn_world (jr_runner (snd (demo_import_run (Stored 1 False)))))"
proof -
  have "st_repo (dk_store (rn_world (jr_runner demo_desk))) = None" "map_of (st_jobs (dk_store (rn_world (jr_runner demo_desk)))) (U ''j'') \<noteq> None"
    by (simp_all add: demo_desk_def)
  from stored_run_ends [OF this, of "U ''p''" "\<lambda>_. False" "\<lambda>_. []" "\<lambda>_. 1" "demo_base (Stored 1 False)" demo_lib False False
    "(demo_import ''ann'')\<lparr>io_redact := False\<rparr>"]
  obtain y s' where "demo_import_run (Stored 1 False) = (y, s')" and
    e: "rn_fence_lost (jr_runner s') \<or> (y = Go () \<or> y = Leave) \<and> written_statuses s' \<noteq> [] \<and> last (written_statuses s') \<in> set terminal_job_statuses \<and>
      (\<exists>j. map_of (st_jobs (dk_store (rn_world (jr_runner s')))) (U ''j'') = Some j \<and> ij_status j = last (written_statuses s'))"
    unfolding demo_import_run_def by blast
  with demo_written show ?thesis by (auto simp: has_status_def)
qed

end
