(* ===== verification/Mem_Scope.thy ===== *)
theory Mem_Scope
  imports Import_Payload
begin

text \<open>
  The scope of a memory (mem0/memory/main.py): the identifiers an operation is given, the metadata and
  filters made of them, the text a scope is known by, and the identity of a memory's text. \<open>text_of\<close>
  is \<open>str(...)\<close> of a value that is no string, \<open>nfkc\<close> the Unicode normalization, \<open>md5\<close> and
  \<open>uuid5\<close> the digests of the standard library.
\<close>

section \<open>Identifiers\<close>

datatype scope_error =
    BlankId string
  | SpacedId string
  | NoTextId string
  | NoSession
  | ThresholdRange
  | NegativeTopK
  | BlankQuery
  | UnscopedFilters
  | UnsupportedOperator pystr
  | NeedsList string
  | NoCondition

definition validate_entity_id :: "string \<Rightarrow> json \<Rightarrow> scope_error + pystr option" where
  "validate_entity_id name v =
    (case v of
       JNull \<Rightarrow> Inr None
     | JStr s \<Rightarrow>
         (if py_strip s = [] then Inl (BlankId name)
          else if list_ex is_space (py_strip s) then Inl (SpacedId name)
          else Inr (Some (py_strip s)))
     | _ \<Rightarrow> Inl (NoTextId name))"

text \<open>\<open>threshold\<close> is a number here; \<open>None\<close> stands for no value.\<close>

definition validate_search_params :: "rat option \<Rightarrow> int option \<Rightarrow> scope_error + unit" where
  "validate_search_params threshold top_k =
    (case threshold of
       Some t \<Rightarrow> if t < 0 \<or> 1 < t then Inl ThresholdRange
                 else (case top_k of Some k \<Rightarrow> if k < 0 then Inl NegativeTopK else Inr () | None \<Rightarrow> Inr ())
     | None \<Rightarrow> (case top_k of Some k \<Rightarrow> if k < 0 then Inl NegativeTopK else Inr () | None \<Rightarrow> Inr ()))"

definition validate_search_query :: "pystr \<Rightarrow> scope_error + pystr" where
  "validate_search_query q = (if py_strip q = [] then Inl BlankQuery else Inr (py_strip q))"

section \<open>Filters and metadata\<close>

record session_args =
  sa_user :: "pystr option"
  sa_agent :: "pystr option"
  sa_app :: "pystr option"
  sa_run :: "pystr option"
  sa_actor :: "pystr option"

text \<open>The identifiers in force: the application and the project may come with the metadata.\<close>

definition session_ids :: "session_args \<Rightarrow> node \<Rightarrow> (string \<times> json) list" where
  "session_ids a md =
    [(''user_id'', opt_str (sa_user a)), (''agent_id'', opt_str (sa_agent a)),
     (''app_id'', json_or (opt_str (sa_app a)) (entry ''app_id'' md)), (''run_id'', opt_str (sa_run a)),
     (''project_id'', entry ''project_id'' md)]"

fun validate_ids :: "(string \<times> json) list \<Rightarrow> scope_error + (string \<times> pystr option) list" where
  "validate_ids [] = Inr []"
| "validate_ids ((name, v) # ids) =
    bind_err (validate_entity_id name v) (\<lambda>x. bind_err (validate_ids ids) (\<lambda>xs. Inr ((name, x) # xs)))"

definition put_ids :: "(string \<times> pystr option) list \<Rightarrow> node \<Rightarrow> node" where
  "put_ids ids n = fold (\<lambda>(name, x). put_text name x) ids n"

definition put_actor :: "pystr option \<Rightarrow> node \<Rightarrow> node" where
  "put_actor actor n =
    (let who = json_or (opt_str actor) (entry ''actor_id'' n) in if json_truthy who then put ''actor_id'' who n else n)"

definition session_given :: "(string \<times> pystr option) list \<Rightarrow> bool" where
  "session_given ids = list_ex (\<lambda>(name, x). name \<noteq> ''project_id'' \<and> x \<noteq> None) ids"

definition build_filters_and_metadata :: "session_args \<Rightarrow> node \<Rightarrow> node \<Rightarrow> scope_error + node \<times> node" where
  "build_filters_and_metadata a md fl =
    bind_err (validate_ids (session_ids a md)) (\<lambda>ids.
      if session_given ids then Inr (put_ids ids md, put_actor (sa_actor a) (put_ids ids fl)) else Inl NoSession)"

section \<open>The scope as a text\<close>

definition session_scope_keys :: "string list" where
  "session_scope_keys = [''agent_id'', ''app_id'', ''project_id'', ''run_id'', ''user_id'']"

definition scope_part :: "(json \<Rightarrow> pystr) \<Rightarrow> node \<Rightarrow> string \<Rightarrow> pystr option" where
  "scope_part text_of fl key =
    (if json_truthy (entry key fl) then Some (U key @ U ''='' @ str_of text_of (entry key fl)) else None)"

definition build_session_scope :: "(json \<Rightarrow> pystr) \<Rightarrow> node \<Rightarrow> pystr" where
  "build_session_scope text_of fl = join_with (U ''&'') (List.map_filter (scope_part text_of fl) session_scope_keys)"

text \<open>The filters that are the scope: what of it is set.\<close>

definition scope_filters :: "node \<Rightarrow> node" where
  "scope_filters fl = filter (\<lambda>(k, v). k \<in> set (map U session_scope_keys) \<and> json_truthy v) fl"

definition entity_keys :: "string list" where
  "entity_keys = [''user_id'', ''agent_id'', ''run_id'']"

definition entity_filters :: "node \<Rightarrow> node" where
  "entity_filters fl = filter (\<lambda>(k, v). k \<in> set (map U entity_keys) \<and> json_truthy v) fl"

definition entity_collection_name :: "pystr \<Rightarrow> pystr \<Rightarrow> pystr" where
  "entity_collection_name provider collection =
    collection @ (if provider = U ''s3_vectors'' then U ''-'' else U ''_'') @ U ''entities''"

section \<open>The identity of a text\<close>

text \<open>\<open>text.split()\<close>: the longest runs without white space.\<close>

function py_split :: "pystr \<Rightarrow> pystr list" where
  "py_split s =
    (let t = dropWhile is_space s
     in if t = [] then [] else takeWhile (\<lambda>c. \<not> is_space c) t # py_split (dropWhile (\<lambda>c. \<not> is_space c) t))"
  by pat_completeness auto
termination
proof (relation "measure length", goal_cases)
  case (2 s t)
  then have "t \<noteq> []" "\<not> is_space (hd t)" using hd_dropWhile [of is_space s] by auto
  then have "length (dropWhile (\<lambda>c. \<not> is_space c) t) < length t"
    by (cases t) (auto simp: le_imp_less_Suc length_dropWhile_le)
  also have "length t \<le> length s" using 2 by (simp add: length_dropWhile_le)
  finally show ?case by simp
qed simp

declare py_split.simps [simp del]

definition ignorable_codes :: "int list" where
  "ignorable_codes = [0xAD, 0x200B, 0x2060, 0xFEFF]"

definition normalize_memory_text :: "(pystr \<Rightarrow> pystr) \<Rightarrow> pystr \<Rightarrow> pystr" where
  "normalize_memory_text nfkc data =
    join_with (U '' '') (py_split (filter (\<lambda>c. \<not> List.member ignorable_codes c) (nfkc data)))"

definition memory_content_hash :: "(pystr \<Rightarrow> pystr) \<Rightarrow> (pystr \<Rightarrow> pystr) \<Rightarrow> pystr \<Rightarrow> pystr" where
  "memory_content_hash nfkc md5 data = md5 (normalize_memory_text nfkc data)"

definition memory_id_for_hash :: "(json \<Rightarrow> pystr) \<Rightarrow> (pystr \<Rightarrow> pystr) \<Rightarrow> node \<Rightarrow> pystr \<Rightarrow> pystr" where
  "memory_id_for_hash text_of uuid5 fl memory_hash = uuid5 (build_session_scope text_of fl @ [0] @ memory_hash)"

definition normalize_entity_text :: "pystr \<Rightarrow> pystr" where
  "normalize_entity_text s = join_with (U '' '') (py_split (lower_text (py_strip s)))"

section \<open>Lemmas\<close>

lemma U_inject [simp]: "U a = U b \<longleftrightarrow> a = b"
  by (auto simp: U_def inj_map_eq_map inj_def)

lemma map_of_put: "map_of (put k v n) = (map_of n)(U k \<mapsto> v)"
  by (simp add: put_def update_conv')

lemma entry_put_opt:
  "entry j (put_text k x n) = (case x of None \<Rightarrow> entry j n | Some s \<Rightarrow> if s \<noteq> [] \<and> j = k then JStr s else entry j n)"
  by (auto simp: put_text_def entry_put split: option.splits)

lemma map_of_put_text_other: "k \<noteq> U j \<Longrightarrow> map_of (put_text j x n) k = map_of n k"
  by (auto simp: put_text_def map_of_put split: option.splits)

lemma put_ids_simps [simp]:
  "put_ids [] n = n"
  "put_ids ((k, x) # ids) n = put_ids ids (put_text k x n)"
  by (simp_all add: put_ids_def)

lemma put_ids_other: "k \<notin> U ` fst ` set ids \<Longrightarrow> map_of (put_ids ids n) k = map_of n k"
  by (induction ids arbitrary: n) (auto simp: map_of_put_text_other)

lemma entry_put_ids_other: "k \<notin> fst ` set ids \<Longrightarrow> entry k (put_ids ids n) = entry k n"
  using put_ids_other [of "U k" ids n] by (simp add: entry_def image_iff)

lemma validated:
  assumes "validate_entity_id name v = Inr x"
  obtains "v = JNull" "x = None"
  | s where "v = JStr s" "x = Some (py_strip s)" "py_strip s \<noteq> []" "\<forall>c\<in>set (py_strip s). \<not> is_space c"
  using assms by (auto simp: validate_entity_id_def list_ex_iff split: json.splits if_splits)

lemma validate_ids_names: "validate_ids ids = Inr xs \<Longrightarrow> map fst xs = map fst ids"
  by (induction ids arbitrary: xs) (auto simp: err_simps)

lemma put_validated_ids:
  assumes "validate_ids ids = Inr xs" and "distinct (map fst ids)" and "(k, v) \<in> set ids"
  shows "(v = JNull \<and> entry k (put_ids xs n) = entry k n) \<or>
    (\<exists>s. v = JStr s \<and> entry k (put_ids xs n) = JStr (py_strip s) \<and> py_strip s \<noteq> [] \<and> (\<forall>c\<in>set (py_strip s). \<not> is_space c))"
  using assms
proof (induction ids arbitrary: xs n)
  case (Cons i ids)
  obtain k' v' where i: "i = (k', v')" by force
  from Cons.prems(1) obtain x ys where x: "validate_entity_id k' v' = Inr x" and ys: "validate_ids ids = Inr ys"
    and xs: "xs = (k', x) # ys" by (auto simp: i err_simps)
  show ?case
  proof (cases "k' = k")
    case True
    with Cons.prems have v: "v' = v" by (auto simp: i image_iff)
    have "k \<notin> fst ` set ids" using Cons.prems(2) True by (simp add: i)
    then have "k \<notin> fst ` set ys" using validate_ids_names [OF ys] by (metis list.set_map)
    then have "entry k (put_ids xs n) = entry k (put_text k x n)" by (simp add: xs True entry_put_ids_other)
    then show ?thesis using x unfolding v by (elim validated) (auto simp: entry_put_opt)
  next
    case False
    with Cons.prems(3) have mem: "(k, v) \<in> set ids" by (auto simp: i)
    from Cons.prems(2) have "distinct (map fst ids)" by simp
    from Cons.IH [OF ys this mem, of "put_text k' x n"] False show ?thesis
      by (simp add: xs entry_put_opt split: option.splits)
  qed
qed simp


text \<open>A text that is put together from parts can be taken apart at the separator, when no part contains it.\<close>

lemma join_with_Cons: "join_with sep (p # ps) = p @ (if ps = [] then [] else sep @ join_with sep ps)"
  by (cases ps) auto

lemma join_parts_eq:
  assumes "join_with [c] ps = join_with [c] qs" and "\<forall>p\<in>set ps. p \<noteq> [] \<and> c \<notin> set p" and "\<forall>q\<in>set qs. q \<noteq> [] \<and> c \<notin> set q"
  shows "ps = qs"
  using assms
proof (induction ps arbitrary: qs)
  case Nil
  then show ?case by (cases qs) (auto simp: join_with_Cons)
next
  case (Cons p ps)
  then obtain q qs' where qs: "qs = q # qs'" by (cases qs) (auto simp: join_with_Cons)
  have cut: "takeWhile (\<lambda>x. x \<noteq> c) (join_with [c] (r # rs)) = r" if "c \<notin> set r" for r rs
    using that by (induction r) (auto simp: join_with_Cons)
  have "p = q" using cut [of p ps] cut [of q qs'] Cons.prems by (simp add: qs)
  with Cons.prems have "(if ps = [] then [] else c # join_with [c] ps) = (if qs' = [] then [] else c # join_with [c] qs')"
    by (simp add: qs join_with_Cons split: if_splits)
  then have "join_with [c] ps = join_with [c] qs'" by (auto split: if_splits)
  with Cons.IH Cons.prems show ?case by (simp add: qs \<open>p = q\<close>)
qed

lemma U_code [simp]: "c \<notin> of_char ` set k \<Longrightarrow> c \<notin> set (U k)"
  by (simp add: U_def)

lemma keyed_parts_eq:
  assumes "List.map_filter f ks = List.map_filter g ks" and "distinct ks"
    and "\<And>k p. k \<in> set ks \<Longrightarrow> f k = Some p \<or> g k = Some p \<Longrightarrow> name p = k" and "k \<in> set ks"
  shows "f k = g k"
  using assms
proof (induction ks)
  case (Cons j ks)
  have other: "p \<notin> set (List.map_filter h ks)" if "h = f \<or> h = g" "f j = Some p \<or> g j = Some p" for h p
  proof
    assume "p \<in> set (List.map_filter h ks)"
    then obtain i where "i \<in> set ks" "h i = Some p" by (auto simp: map_filter_set)
    with that(1) Cons.prems(3) [of i p] have "name p = i" by auto
    moreover from that(2) Cons.prems(3) [of j p] have "name p = j" by auto
    ultimately show False using \<open>i \<in> set ks\<close> Cons.prems(2) by auto
  qed
  have "f j = g j \<and> List.map_filter f ks = List.map_filter g ks"
  proof -
    consider p where "f j = Some p" "g j = None" | p where "f j = None" "g j = Some p"
      | "f j = None" "g j = None" | p q where "f j = Some p" "g j = Some q" by (cases "f j"; cases "g j") auto
    then show ?thesis
    proof cases
    case (1 p)
    with Cons.prems(1) have "p \<in> set (List.map_filter g ks)"
      by (simp add: List.map_filter_simps) (metis list.set_intros(1))
    with other [of g p] 1 show ?thesis by simp
  next
    case (2 p)
    with Cons.prems(1) have "p \<in> set (List.map_filter f ks)"
      by (simp add: List.map_filter_simps)
    with other [of f p] 2 show ?thesis by simp
    qed (use Cons.prems(1) in \<open>simp_all add: List.map_filter_simps\<close>)
  qed
  with Cons show ?case by auto
qed simp

definition plain_value :: "json \<Rightarrow> bool" where
  "plain_value v = (case v of JNull \<Rightarrow> True | JStr s \<Rightarrow> 38 \<notin> set s | _ \<Rightarrow> False)"

definition set_value :: "json \<Rightarrow> json option" where
  "set_value v = (if json_truthy v then Some v else None)"

lemma scope_part_name:
  "k \<in> set session_scope_keys \<Longrightarrow> scope_part text_of fl k = Some p \<Longrightarrow> takeWhile (\<lambda>c. c \<noteq> 61) p = U k"
  by (auto simp: scope_part_def session_scope_keys_def U_def split: if_splits)

lemma scope_part_by_given:
  "scope_part text_of fl k = (case set_value (entry k fl) of None \<Rightarrow> None | Some v \<Rightarrow> Some (U k @ U ''='' @ str_of text_of v))"
  by (simp add: scope_part_def set_value_def)

lemma scope_part_given:
  assumes "scope_part text_of f k = scope_part text_of g k" and "plain_value (entry k f)" and "plain_value (entry k g)"
  shows "set_value (entry k f) = set_value (entry k g)"
  using assms
  by (auto simp: scope_part_def set_value_def plain_value_def str_of_def split: if_splits json.splits)

lemma plain_scope_part:
  "k \<in> set session_scope_keys \<Longrightarrow> plain_value (entry k f) \<Longrightarrow> scope_part text_of f k = Some p \<Longrightarrow> p \<noteq> [] \<and> 38 \<notin> set p"
  by (auto simp: scope_part_def session_scope_keys_def U_def plain_value_def str_of_def split: if_splits json.splits)

lemma given_ids:
  "validate_ids ids = Inr xs \<Longrightarrow> session_given xs \<Longrightarrow> \<exists>k v s. (k, v) \<in> set ids \<and> k \<noteq> ''project_id'' \<and> v = JStr s"
proof (induction ids arbitrary: xs)
  case (Cons i ids)
  obtain k v where i: "i = (k, v)" by force
  with Cons.prems obtain x ys where x: "validate_entity_id k v = Inr x" and ys: "validate_ids ids = Inr ys"
    and xs: "xs = (k, x) # ys" by (auto simp: err_simps)
  show ?case
  proof (cases "k \<noteq> ''project_id'' \<and> x \<noteq> None")
    case True
    from x show ?thesis by (rule validated) (use True in \<open>auto simp: i\<close>)
  next
    case False
    with Cons.prems(2) have "session_given ys" by (auto simp: xs session_given_def)
    with Cons.IH ys show ?thesis by (auto simp: i)
  qed
qed (simp add: session_given_def)

definition scope_parts :: "(json \<Rightarrow> pystr) \<Rightarrow> node \<Rightarrow> pystr list" where
  "scope_parts text_of fl = List.map_filter (scope_part text_of fl) session_scope_keys"

lemma build_session_scope_parts: "build_session_scope text_of fl = join_with [38] (scope_parts text_of fl)"
  by (simp add: build_session_scope_def scope_parts_def U_def)

lemma scope_parts_plain:
  "\<forall>k\<in>set session_scope_keys. plain_value (entry k fl) \<Longrightarrow> \<forall>p\<in>set (scope_parts text_of fl). p \<noteq> [] \<and> 38 \<notin> set p"
  unfolding scope_parts_def map_filter_set using plain_scope_part by blast

lemma scope_parts_eq:
  assumes "scope_parts text_of f = scope_parts text_of g" and k: "k \<in> set session_scope_keys"
  shows "scope_part text_of f k = scope_part text_of g k"
proof (rule keyed_parts_eq [OF assms(1) [unfolded scope_parts_def] _ _ k, where name = "\<lambda>p. the_inv U (takeWhile (\<lambda>c. c \<noteq> 61) p)"])
  show "distinct session_scope_keys" by (simp add: session_scope_keys_def)
next
  fix j p assume "j \<in> set session_scope_keys" "scope_part text_of f j = Some p \<or> scope_part text_of g j = Some p"
  then have "takeWhile (\<lambda>c. c \<noteq> 61) p = U j" using scope_part_name by blast
  then show "the_inv U (takeWhile (\<lambda>c. c \<noteq> 61) p) = j" by (simp add: the_inv_f_f inj_def)
qed

lemma map_filter_agree: "\<forall>x\<in>set xs. f x = g x \<Longrightarrow> List.map_filter f xs = List.map_filter g xs"
  by (induction xs) (auto simp: List.map_filter_simps split: option.splits)

section \<open>Properties\<close>

text \<open>C37: The metadata and the filters of an operation carry exactly the identifiers it was given, trimmed and without white
  space, whatever the caller's own filters say; nothing else of the filters changes but the actor, and an operation
  without a user, agent, application or run is refused.\<close>

theorem filters_carry_the_scope:
  assumes "build_filters_and_metadata a md fl = Inr (md', fl')"
  shows "(\<forall>(k, v)\<in>set (session_ids a md).
      (v = JNull \<and> entry k fl' = entry k fl \<and> entry k md' = entry k md) \<or>
      (\<exists>s. v = JStr s \<and> entry k fl' = JStr (py_strip s) \<and> entry k md' = JStr (py_strip s) \<and>
           py_strip s \<noteq> [] \<and> (\<forall>c\<in>set (py_strip s). \<not> is_space c)))
    \<and> (\<exists>k v s. (k, v) \<in> set (session_ids a md) \<and> k \<noteq> ''project_id'' \<and> v = JStr s)
    \<and> (\<forall>k. k \<notin> U ` fst ` set (session_ids a md) \<longrightarrow> map_of md' k = map_of md k \<and>
         (k \<noteq> U ''actor_id'' \<longrightarrow> map_of fl' k = map_of fl k))"
proof -
  let ?ids = "session_ids a md"
  obtain xs where xs: "validate_ids ?ids = Inr xs" and given: "session_given xs"
    and md': "md' = put_ids xs md" and fl': "fl' = put_actor (sa_actor a) (put_ids xs fl)"
    using assms by (auto simp: build_filters_and_metadata_def err_simps split: if_splits)
  have d: "distinct (map fst ?ids)" by (simp add: session_ids_def)
  have names: "fst ` set xs = fst ` set ?ids" using validate_ids_names [OF xs] by (metis list.set_map)
  have actor: "map_of (put_actor w n) k = map_of n k" if "k \<noteq> U ''actor_id''" for w n k
    using that by (simp add: put_actor_def Let_def map_of_put)
  have same: "entry k (put_actor w n) = entry k n" if "k \<in> fst ` set ?ids" for w n k
  proof -
    from that have "U k \<noteq> U ''actor_id''" by (auto simp: session_ids_def)
    then show ?thesis by (simp add: entry_def actor)
  qed
  have 1: "(v = JNull \<and> entry k fl' = entry k fl \<and> entry k md' = entry k md) \<or>
      (\<exists>s. v = JStr s \<and> entry k fl' = JStr (py_strip s) \<and> entry k md' = JStr (py_strip s) \<and>
           py_strip s \<noteq> [] \<and> (\<forall>c\<in>set (py_strip s). \<not> is_space c))" if m: "(k, v) \<in> set ?ids" for k v
  proof -
    from m have "k \<in> fst ` set ?ids" by force
    then have "entry k fl' = entry k (put_ids xs fl)" unfolding fl' by (rule same)
    then show ?thesis
      using put_validated_ids [OF xs d m, of fl] put_validated_ids [OF xs d m, of md] unfolding md' by auto
  qed
  have 2: "\<exists>k v s. (k, v) \<in> set ?ids \<and> k \<noteq> ''project_id'' \<and> v = JStr s"
    using given_ids [OF xs given] by blast
  have 3: "map_of md' k = map_of md k \<and> (k \<noteq> U ''actor_id'' \<longrightarrow> map_of fl' k = map_of fl k)" if "k \<notin> U ` fst ` set ?ids" for k
    using that unfolding names [symmetric] by (simp add: md' fl' actor put_ids_other)
  from 1 2 3 show ?thesis by (intro conjI allI impI ballI) auto
qed

definition example_session :: session_args where
  "example_session = \<lparr>sa_user = Some (U '' u1 ''), sa_agent = None, sa_app = None, sa_run = Some (U ''r1''), sa_actor = None\<rparr>"

lemma filters_carry_the_scope_witness:
  "case build_filters_and_metadata example_session [] [(U ''user_id'', JStr (U ''someone else''))] of
     Inl e \<Rightarrow> False
   | Inr (md, fl) \<Rightarrow> entry ''user_id'' fl = JStr (U ''u1'') \<and> entry ''agent_id'' fl = JNull"
proof -
  let ?fl = "[(U ''user_id'', JStr (U ''someone else''))]"
  have "case build_filters_and_metadata example_session [] ?fl of Inl e \<Rightarrow> False | Inr r \<Rightarrow> True" by code_simp
  then obtain md fl where r: "build_filters_and_metadata example_session [] ?fl = Inr (md, fl)" by (auto split: sum.splits)
  have ids: "session_ids example_session [] =
      [(''user_id'', JStr (U '' u1 '')), (''agent_id'', JNull), (''app_id'', JNull), (''run_id'', JStr (U ''r1'')), (''project_id'', JNull)]"
    by (simp add: session_ids_def example_session_def opt_str_def json_or_def entry_def)
  have "py_strip (U '' u1 '') = U ''u1''" by code_simp
  moreover have "entry ''agent_id'' ?fl = JNull" by code_simp
  ultimately show ?thesis using filters_carry_the_scope [OF r] by (simp add: r ids)
qed

text \<open>C38: The text of a scope tells the identifiers, for identifiers that are texts without an ampersand: two filters
  have the same text exactly when they set the same identifiers to the same values. Locks, the last messages and the ids
  of memories go by that text.\<close>

theorem scope_text_identifies:
  assumes "\<forall>k\<in>set session_scope_keys. plain_value (entry k f) \<and> plain_value (entry k g)"
  shows "build_session_scope text_of f = build_session_scope text_of g \<longleftrightarrow>
    (\<forall>k\<in>set session_scope_keys. set_value (entry k f) = set_value (entry k g))"
proof
  from assms have plain: "\<forall>k\<in>set session_scope_keys. plain_value (entry k f)"
    "\<forall>k\<in>set session_scope_keys. plain_value (entry k g)" by simp_all
  assume "build_session_scope text_of f = build_session_scope text_of g"
  then have eq: "scope_parts text_of f = scope_parts text_of g"
    unfolding build_session_scope_parts by (rule join_parts_eq [OF _ plain [THEN scope_parts_plain]])
  show "\<forall>k\<in>set session_scope_keys. set_value (entry k f) = set_value (entry k g)"
  proof
    fix k assume k: "k \<in> set session_scope_keys"
    with plain show "set_value (entry k f) = set_value (entry k g)" by (intro scope_part_given [OF scope_parts_eq [OF eq k]]) simp_all
  qed
next
  assume "\<forall>k\<in>set session_scope_keys. set_value (entry k f) = set_value (entry k g)"
  then have "\<forall>k\<in>set session_scope_keys. scope_part text_of f k = scope_part text_of g k"
    by (simp add: scope_part_by_given)
  then show "build_session_scope text_of f = build_session_scope text_of g"
    by (simp add: build_session_scope_parts scope_parts_def map_filter_agree [of _ "scope_part text_of f" "scope_part text_of g"])
qed

lemma scope_text_identifies_witness:
  "build_session_scope (\<lambda>_. []) [(U ''user_id'', JStr (U ''u1''))] \<noteq>
   build_session_scope (\<lambda>_. []) [(U ''user_id'', JStr (U ''u1'')), (U ''run_id'', JStr (U ''r1''))]"
proof -
  have "\<forall>k\<in>set session_scope_keys.
      plain_value (entry k [(U ''user_id'', JStr (U ''u1''))]) \<and>
      plain_value (entry k [(U ''user_id'', JStr (U ''u1'')), (U ''run_id'', JStr (U ''r1''))])" by code_simp
  from scope_text_identifies [OF this] show ?thesis
    by (simp add: session_scope_keys_def entry_def set_value_def U_def)
qed

text \<open>An identifier with an ampersand can look like two.\<close>

lemma scope_texts_collide:
  "build_session_scope text_of [(U ''agent_id'', JStr (U ''x&user_id=y''))] =
   build_session_scope text_of [(U ''agent_id'', JStr (U ''x'')), (U ''user_id'', JStr (U ''y''))]"
  by (simp add: build_session_scope_def session_scope_keys_def scope_part_def entry_def str_of_def U_def List.map_filter_simps)

text \<open>A text split at its white space and put together again stays.\<close>

lemma py_split_words: "w \<in> set (py_split s) \<Longrightarrow> w \<noteq> [] \<and> (\<forall>c\<in>set w. \<not> is_space c)"
proof (induction s rule: py_split.induct)
  case (1 s)
  let ?t = "dropWhile is_space s"
  from 1(2) have "?t \<noteq> []" by (subst (asm) py_split.simps) (simp add: Let_def split: if_splits)
  then have hd: "\<not> is_space (hd ?t)" by (rule hd_dropWhile)
  show ?case
  proof (cases "w = takeWhile (\<lambda>c. \<not> is_space c) ?t")
    case True
    with \<open>?t \<noteq> []\<close> hd show ?thesis by (cases ?t) (auto dest: set_takeWhileD)
  next
    case False
    with 1(2) \<open>?t \<noteq> []\<close> have "w \<in> set (py_split (dropWhile (\<lambda>c. \<not> is_space c) ?t))"
      by (subst (asm) py_split.simps) (simp add: Let_def split: if_splits)
    with 1(1) [OF refl \<open>?t \<noteq> []\<close>] show ?thesis by blast
  qed
qed

lemma py_split_join:
  "\<forall>w\<in>set ws. w \<noteq> [] \<and> (\<forall>c\<in>set w. \<not> is_space c) \<Longrightarrow> py_split (join_with [32] ws) = ws"
proof (induction ws)
  case Nil
  then show ?case by (simp add: py_split.simps)
next
  case (Cons w ws)
  from Cons.prems have w: "w \<noteq> []" "\<not> is_space (hd w)" by (cases w; simp)+
  have sp: "is_space 32" by (simp add: is_space_def space_codes_def)
  let ?rest = "if ws = [] then [] else [32] @ join_with [32] ws"
  have drop: "dropWhile is_space (w @ ?rest) = w @ ?rest" using w by (cases w) auto
  have "takeWhile (\<lambda>c. \<not> is_space c) (w @ ?rest) = w" "dropWhile (\<lambda>c. \<not> is_space c) (w @ ?rest) = ?rest"
    using Cons.prems sp by (auto simp: takeWhile_append2 dropWhile_append2)
  then have "py_split (w @ ?rest) = w # py_split ?rest" using w by (subst py_split.simps) (simp add: drop Let_def)
  moreover have "py_split ?rest = ws"
  proof (cases "ws = []")
    case False
    have "py_split (32 # x) = py_split x" for x
      by (subst (1 2) py_split.simps) (simp add: sp)
    with False Cons show ?thesis by simp
  qed (simp add: py_split.simps)
  ultimately show ?case by (simp add: join_with_Cons)
qed

lemma split_join_split: "py_split (join_with [32] (py_split s)) = py_split s"
  using py_split_join py_split_words by blast

end
