(* ===== verification/Mem_Filter.thy ===== *)
theory Mem_Filter
  imports Mem_Scope
begin

text \<open>
  The filters of a search (mem0/memory/main.py: \<open>search\<close>, \<open>_process_metadata_filters\<close>) and of the request it
  serves (server/main.py: \<open>search_memories\<close>). Filters are an object; conditions on a field are values or objects
  of operators, and AND, OR and NOT hold lists of objects of conditions.
\<close>

section \<open>Conditions\<close>

definition filter_operators :: "pystr list" where
  "filter_operators =
    map U [''eq'', ''ne'', ''gt'', ''gte'', ''lt'', ''lte'', ''in'', ''nin'', ''contains'', ''icontains'']"

definition process_condition :: "pystr \<Rightarrow> json \<Rightarrow> scope_error + node" where
  "process_condition key condition =
    (case condition of
       JObj ops \<Rightarrow>
         (case find (\<lambda>(op, v). op \<notin> set filter_operators) ops of
            Some (op, v) \<Rightarrow> Inl (UnsupportedOperator op)
          | None \<Rightarrow> Inr (if ops = [] then [] else [(key, JObj ops)]))
     | _ \<Rightarrow> Inr [(key, condition)])"

text \<open>\<open>target.update(source)\<close>, and the merge that updates the operators of a field both have.\<close>

definition object_update :: "node \<Rightarrow> node \<Rightarrow> node" where
  "object_update target source = fold (\<lambda>(k, v). AList.update k v) source target"

definition merge_entry :: "pystr \<times> json \<Rightarrow> node \<Rightarrow> node" where
  "merge_entry kv target =
    (case (map_of target (fst kv), snd kv) of
       (Some (JObj old), JObj new) \<Rightarrow> AList.update (fst kv) (JObj (object_update old new)) target
     | _ \<Rightarrow> AList.update (fst kv) (snd kv) target)"

definition merge_filters :: "node \<Rightarrow> node \<Rightarrow> node" where
  "merge_filters target source = fold merge_entry source target"

fun merge_conditions :: "node \<Rightarrow> node \<Rightarrow> scope_error + node" where
  "merge_conditions target [] = Inr target"
| "merge_conditions target ((k, c) # kcs) =
    bind_err (process_condition k c) (\<lambda>s. merge_conditions (merge_filters target s) kcs)"

text \<open>An element of a list of conditions that is no object has no \<open>items\<close>.\<close>

definition conditions_of :: "json \<Rightarrow> scope_error + node" where
  "conditions_of v = (case v of JObj n \<Rightarrow> Inr n | _ \<Rightarrow> Inl NoCondition)"

fun merge_all :: "node \<Rightarrow> json list \<Rightarrow> scope_error + node" where
  "merge_all target [] = Inr target"
| "merge_all target (v # vs) =
    bind_err (conditions_of v) (\<lambda>n. bind_err (merge_conditions target n) (\<lambda>t. merge_all t vs))"

fun condition_groups :: "json list \<Rightarrow> scope_error + json list" where
  "condition_groups [] = Inr []"
| "condition_groups (v # vs) =
    bind_err (conditions_of v) (\<lambda>n. bind_err (merge_conditions [] n) (\<lambda>g.
      bind_err (condition_groups vs) (\<lambda>gs. Inr (JObj g # gs))))"

definition process_entry :: "pystr \<times> json \<Rightarrow> node \<Rightarrow> scope_error + node" where
  "process_entry kv processed =
    (if fst kv = U ''AND'' then
       (case snd kv of JArr vs \<Rightarrow> merge_all processed vs | _ \<Rightarrow> Inl (NeedsList ''AND''))
     else if fst kv = U ''OR'' then
       (case snd kv of
          JArr (v # vs) \<Rightarrow> bind_err (condition_groups (v # vs)) (\<lambda>gs. Inr (put ''$or'' (JArr gs) processed))
        | _ \<Rightarrow> Inl (NeedsList ''OR''))
     else if fst kv = U ''NOT'' then
       (case snd kv of
          JArr (v # vs) \<Rightarrow> bind_err (condition_groups (v # vs)) (\<lambda>gs. Inr (put ''$not'' (JArr gs) processed))
        | _ \<Rightarrow> Inl (NeedsList ''NOT''))
     else bind_err (process_condition (fst kv) (snd kv)) (\<lambda>s. Inr (merge_filters processed s)))"

fun process_entries :: "node \<Rightarrow> node \<Rightarrow> scope_error + node" where
  "process_entries processed [] = Inr processed"
| "process_entries processed (kv # kvs) = bind_err (process_entry kv processed) (\<lambda>p. process_entries p kvs)"

definition process_metadata_filters :: "node \<Rightarrow> scope_error + node" where
  "process_metadata_filters fl = process_entries [] fl"

definition logical_keys :: "pystr list" where
  "logical_keys = map U [''AND'', ''OR'', ''NOT'']"

definition is_object :: "json \<Rightarrow> bool" where
  "is_object v = (case v of JObj n \<Rightarrow> True | _ \<Rightarrow> False)"

definition operator_keys :: "json \<Rightarrow> pystr list" where
  "operator_keys v = (case v of JObj ops \<Rightarrow> map fst ops | _ \<Rightarrow> [])"

definition has_advanced_operators :: "node \<Rightarrow> bool" where
  "has_advanced_operators fl =
    list_ex (\<lambda>(k, v). k \<in> set logical_keys \<or> list_ex (\<lambda>op. op \<in> set filter_operators) (operator_keys v) \<or>
      v = JStr (U ''*'')) fl"

section \<open>The filters of a search\<close>

text \<open>The identifiers among the filters are trimmed; one that is null stays, as a null.\<close>

fun trim_ids :: "string list \<Rightarrow> node \<Rightarrow> scope_error + node" where
  "trim_ids [] fl = Inr fl"
| "trim_ids (k # ks) fl =
    (case map_of fl (U k) of
       None \<Rightarrow> trim_ids ks fl
     | Some v \<Rightarrow> bind_err (validate_entity_id k v) (\<lambda>x. trim_ids ks (put k (opt_str x) fl)))"

definition scoped_filters :: "node \<Rightarrow> scope_error + node" where
  "scoped_filters fl =
    bind_err (trim_ids entity_keys fl) (\<lambda>f.
      if list_ex (\<lambda>k. map_of f (U k) \<noteq> None) entity_keys then Inr f else Inl UnscopedFilters)"

text \<open>What stays when the processed filters are put in.\<close>

definition plain_filters :: "node \<Rightarrow> node" where
  "plain_filters fl =
    filter (\<lambda>(k, v). k \<notin> set logical_keys \<and> (k \<in> set (map U entity_keys) \<or> \<not> is_object v)) fl"

definition effective_filters :: "node \<Rightarrow> scope_error + node" where
  "effective_filters fl =
    bind_err (scoped_filters fl) (\<lambda>f.
      if has_advanced_operators f
      then bind_err (process_metadata_filters f) (\<lambda>p. Inr (object_update (plain_filters f) p))
      else Inr f)"

section \<open>The request\<close>

record search_request =
  sr_query :: pystr
  sr_user :: "pystr option"
  sr_run :: "pystr option"
  sr_agent :: "pystr option"
  sr_app :: "pystr option"
  sr_filters :: node
  sr_top_k :: "int option"
  sr_threshold :: "rat option"

definition request_filters :: "pystr \<Rightarrow> search_request \<Rightarrow> node" where
  "request_filters project rq =
    put_ids [(''user_id'', sr_user rq), (''run_id'', sr_run rq), (''agent_id'', sr_agent rq), (''app_id'', sr_app rq)]
      (put ''project_id'' (JStr project) (sr_filters rq))"

definition request_top_k :: "search_request \<Rightarrow> int" where
  "request_top_k rq = (case sr_top_k rq of None \<Rightarrow> 10 | Some k \<Rightarrow> k)"

text \<open>What the memory is asked: the checks of \<open>search\<close>, the query, the number of results and the filters. Where the
  request has no threshold, \<open>search\<close> has its default.\<close>

definition search_call :: "pystr \<Rightarrow> search_request \<Rightarrow> scope_error + pystr \<times> int \<times> rat \<times> node" where
  "search_call project rq =
    (let threshold = (case sr_threshold rq of None \<Rightarrow> 1 / 10 | Some t \<Rightarrow> t)
     in bind_err (validate_search_params (Some threshold) (Some (request_top_k rq))) (\<lambda>_.
        bind_err (validate_search_query (sr_query rq)) (\<lambda>q.
        bind_err (effective_filters (request_filters project rq)) (\<lambda>f.
          Inr (q, request_top_k rq, threshold, f)))))"

section \<open>Lemmas\<close>

lemma map_of_update: "map_of (AList.update k v n) = (map_of n)(k \<mapsto> v)"
  by (simp add: update_conv')

lemma map_of_object_update: "distinct (map fst m) \<Longrightarrow> map_of (object_update n m) = map_of n ++ map_of m"
proof (induction m arbitrary: n)
  case (Cons kv m)
  obtain k v where kv: "kv = (k, v)" by force
  from Cons.prems have "k \<notin> fst ` set m" by (simp add: kv)
  then have "k \<notin> dom (map_of m)" by (simp add: dom_map_of_conv_image_fst)
  with Cons show ?case by (auto simp: kv object_update_def map_of_update map_add_def fun_eq_iff split: option.splits)
qed (simp add: object_update_def)

lemma merge_entry_other: "k \<noteq> fst kv \<Longrightarrow> map_of (merge_entry kv n) k = map_of n k"
  by (simp add: merge_entry_def map_of_update split: option.splits json.splits)

lemma merge_entry_text: "map_of (merge_entry (k, JStr s) n) k = Some (JStr s)"
  by (simp add: merge_entry_def map_of_update split: option.splits json.splits)

lemma merge_condition_other:
  "process_condition j c = Inr s \<Longrightarrow> k \<noteq> j \<Longrightarrow> map_of (merge_filters n s) k = map_of n k"
  by (auto simp: process_condition_def merge_filters_def merge_entry_other split: json.splits option.splits if_splits)

lemma process_entry_other:
  assumes "process_entry (j, v) n = Inr m" and "j \<noteq> U ''AND''" and "k \<noteq> j" and "k \<noteq> U ''$or''" and "k \<noteq> U ''$not''"
  shows "map_of m k = map_of n k"
  using assms
  by (auto simp: process_entry_def err_simps map_of_put merge_condition_other split: if_splits json.splits list.splits)

lemma process_entries_other:
  assumes "process_entries n fl = Inr m" and "U ''AND'' \<notin> fst ` set fl" and "k \<notin> fst ` set fl"
    and "k \<noteq> U ''$or''" and "k \<noteq> U ''$not''"
  shows "map_of m k = map_of n k"
  using assms
proof (induction fl arbitrary: n)
  case (Cons kv fl)
  obtain j v where kv: "kv = (j, v)" by force
  from Cons.prems(1) obtain p where p: "process_entry (j, v) n = Inr p" and rest: "process_entries p fl = Inr m"
    by (auto simp: kv err_simps)
  from p have "map_of p k = map_of n k" by (rule process_entry_other) (use Cons.prems in \<open>auto simp: kv\<close>)
  with Cons.IH [OF rest] Cons.prems show ?case by simp
qed simp

lemma process_entries_text:
  assumes "process_entries n fl = Inr m" and "U ''AND'' \<notin> fst ` set fl" and "distinct (map fst fl)"
    and "(k, JStr s) \<in> set fl" and "k \<notin> set (map U [''OR'', ''NOT'', ''$or'', ''$not''])"
  shows "map_of m k = Some (JStr s)"
  using assms
proof (induction fl arbitrary: n)
  case (Cons kv fl)
  obtain j v where kv: "kv = (j, v)" by force
  from Cons.prems(1) obtain p where p: "process_entry (j, v) n = Inr p" and rest: "process_entries p fl = Inr m"
    by (auto simp: kv err_simps)
  show ?case
  proof (cases "(k, JStr s) \<in> set fl")
    case True
    with Cons.IH [OF rest] Cons.prems show ?thesis by simp
  next
    case False
    with Cons.prems have j: "j = k" "v = JStr s" by (auto simp: kv)
    with p Cons.prems have "p = merge_entry (k, JStr s) n"
      by (auto simp: kv process_entry_def process_condition_def merge_filters_def)
    then have "map_of p k = Some (JStr s)" by (simp add: merge_entry_text)
    moreover have "map_of m k = map_of p k"
      using Cons.prems by (intro process_entries_other [OF rest]) (auto simp: kv j)
    ultimately show ?thesis by simp
  qed
qed simp

lemma distinct_put [simp]: "distinct (map fst n) \<Longrightarrow> distinct (map fst (put k v n))"
  by (simp add: put_def distinct_update)

lemma keys_put: "fst ` set (put k v n) = insert (U k) (fst ` set n)"
proof -
  have "dom (map_of (put k v n)) = insert (U k) (dom (map_of n))" by (auto simp: map_of_put)
  then show ?thesis by (simp add: dom_map_of_conv_image_fst)
qed

lemma distinct_merge_entry: "distinct (map fst n) \<Longrightarrow> distinct (map fst (merge_entry kv n))"
  by (simp add: merge_entry_def distinct_update split: option.splits json.splits)

lemma distinct_merge_filters: "distinct (map fst n) \<Longrightarrow> distinct (map fst (merge_filters n s))"
  by (induction s arbitrary: n) (simp_all add: merge_filters_def distinct_merge_entry)

lemma distinct_merge_conditions:
  "merge_conditions n kcs = Inr m \<Longrightarrow> distinct (map fst n) \<Longrightarrow> distinct (map fst m)"
  by (induction n kcs rule: merge_conditions.induct) (auto simp: err_simps distinct_merge_filters)

lemma distinct_merge_all: "merge_all n vs = Inr m \<Longrightarrow> distinct (map fst n) \<Longrightarrow> distinct (map fst m)"
  by (induction n vs rule: merge_all.induct) (auto simp: err_simps intro: distinct_merge_conditions)

lemma distinct_process_entry: "process_entry kv n = Inr m \<Longrightarrow> distinct (map fst n) \<Longrightarrow> distinct (map fst m)"
  by (auto simp: process_entry_def err_simps distinct_merge_filters split: if_splits json.splits list.splits
      dest: distinct_merge_all)

lemma distinct_process_entries: "process_entries n fl = Inr m \<Longrightarrow> distinct (map fst n) \<Longrightarrow> distinct (map fst m)"
  by (induction n fl rule: process_entries.induct) (auto simp: err_simps intro: distinct_process_entry)

lemma trim_ids_keys:
  "trim_ids ks fl = Inr f \<Longrightarrow> fst ` set f = fst ` set fl \<and> (distinct (map fst fl) \<longrightarrow> distinct (map fst f)) \<and>
    (\<forall>k. k \<notin> U ` set ks \<longrightarrow> map_of f k = map_of fl k)"
proof (induction ks fl rule: trim_ids.induct)
  case (2 k ks fl)
  show ?case
  proof (cases "map_of fl (U k)")
    case None
    with 2 show ?thesis by simp
  next
    case (Some v)
    with 2(3) obtain x where x: "validate_entity_id k v = Inr x" "trim_ids ks (put k (opt_str x) fl) = Inr f"
      by (auto simp: err_simps)
    from Some have "U k \<in> fst ` set fl" by (force dest: map_of_SomeD)
    with 2(2) [OF Some] x show ?thesis by (auto simp: keys_put map_of_put)
  qed
qed simp

lemma keys_put_text: "fst ` set (put_text k x n) \<subseteq> insert (U k) (fst ` set n)"
  by (auto simp: put_text_def keys_put split: option.splits)

lemma keys_put_ids: "fst ` set (put_ids ids n) \<subseteq> U ` fst ` set ids \<union> fst ` set n"
proof (induction ids arbitrary: n)
  case (Cons i ids)
  obtain k x where i: "i = (k, x)" by force
  from Cons [of "put_text k x n"] keys_put_text [of k x n] show ?case by (simp add: i) blast
qed simp

lemma distinct_put_ids: "distinct (map fst n) \<Longrightarrow> distinct (map fst (put_ids ids n))"
proof (induction ids arbitrary: n)
  case (Cons i ids)
  then show ?case by (cases i) (simp add: put_text_def split: option.splits)
qed simp

definition reserved_keys :: "pystr list" where
  "reserved_keys = logical_keys @ map U entity_keys @ [U ''$or'', U ''$not'']"

lemma effective_filters_text:
  assumes "effective_filters fl = Inr f" and "distinct (map fst fl)" and "U ''AND'' \<notin> fst ` set fl"
    and "k \<notin> set reserved_keys" and "map_of fl k = Some (JStr s)"
  shows "map_of f k = Some (JStr s)"
proof -
  obtain g where g: "trim_ids entity_keys fl = Inr g"
    and f: "(if has_advanced_operators g then bind_err (process_metadata_filters g) (\<lambda>p. Inr (object_update (plain_filters g) p))
             else Inr g) = Inr f"
    using assms(1) by (auto simp: effective_filters_def scoped_filters_def err_simps split: if_splits)
  from trim_ids_keys [OF g] assms have keys: "U ''AND'' \<notin> fst ` set g" and d: "distinct (map fst g)"
    and mk: "map_of g k = Some (JStr s)" by (auto simp: reserved_keys_def)
  show ?thesis
  proof (cases "has_advanced_operators g")
    case False
    with f mk show ?thesis by simp
  next
    case True
    with f obtain p where p: "process_entries [] g = Inr p" and f': "f = object_update (plain_filters g) p"
      by (auto simp: process_metadata_filters_def err_simps)
    have "map_of p k = Some (JStr s)"
      using assms(4) by (intro process_entries_text [OF p keys d map_of_SomeD [OF mk]]) (auto simp: reserved_keys_def logical_keys_def)
    then show ?thesis using distinct_process_entries [OF p] by (simp add: f' map_of_object_update)
  qed
qed

lemma request_filters_project:
  "map_of (request_filters project rq) (U ''project_id'') = Some (JStr project)"
  unfolding request_filters_def by (subst put_ids_other) (auto simp: map_of_put)

text \<open>A search request whose filters have no AND is asked within its own project: whatever project the filters name
  and however OR, NOT and operators are used, the filters of the search say the project of the request.\<close>

lemma search_call_project:
  assumes "search_call project rq = Inr (q, k, t, f)" and "distinct (map fst (sr_filters rq))"
    and "U ''AND'' \<notin> fst ` set (sr_filters rq)"
  shows "map_of f (U ''project_id'') = Some (JStr project)"
proof -
  have "effective_filters (request_filters project rq) = Inr f"
    using assms(1) by (auto simp: search_call_def Let_def err_simps)
  moreover have "distinct (map fst (request_filters project rq))"
    using assms(2) by (simp add: request_filters_def distinct_put_ids del: put_ids_simps)
  moreover have "U ''AND'' \<notin> fst ` set (request_filters project rq)"
  proof
    assume "U ''AND'' \<in> fst ` set (request_filters project rq)"
    from subsetD [OF keys_put_ids this [unfolded request_filters_def]] assms(3) show False by (simp add: keys_put)
  qed
  ultimately show ?thesis
    by (rule effective_filters_text) (simp_all add: reserved_keys_def logical_keys_def entity_keys_def request_filters_project)
qed

definition example_search :: "node \<Rightarrow> search_request" where
  "example_search fl =
    \<lparr>sr_query = U ''where do I live'', sr_user = Some (U ''u1''), sr_run = None, sr_agent = None, sr_app = None,
     sr_filters = fl, sr_top_k = None, sr_threshold = None\<rparr>"

text \<open>The conditions of an AND are merged into the filters, over what is there: with the project named first, a request of
  one project is asked in another.\<close>

lemma and_leaves_the_project:
  "map_sum (\<lambda>e. ()) (\<lambda>(q, k, t, f). entry ''project_id'' f)
     (search_call (U ''p1'') (example_search [(U ''project_id'', JStr (U ''p1'')), (U ''AND'', JArr [JObj [(U ''project_id'', JStr (U ''p2''))]])]))
   = Inr (JStr (U ''p2''))"
  by code_simp

text \<open>Of two conditions of an AND on the same field only the later one is kept.\<close>

lemma and_forgets_conditions:
  "process_metadata_filters [(U ''AND'', JArr [JObj [(U ''tag'', JStr (U ''a''))], JObj [(U ''tag'', JStr (U ''b''))]])]
   = Inr [(U ''tag'', JStr (U ''b''))]"
  by code_simp

end
