(* ===== verification/Pg_Filter.thy ===== *)
theory Pg_Filter
  imports Mem_Filter
begin

text \<open>
  The filters of the PostgreSQL store (mem0/vector_stores/pgvector.py): the conditions \<open>_build_filter_conditions\<close>
  translates them to, and what those conditions say of a payload in SQL's three-valued logic, where
  \<open>None\<close> is the unknown that a missing field gives. \<open>text_of\<close> is Python's \<open>str(...)\<close>, \<open>float_of\<close> its \<open>float(...)\<close>,
  which may fail; \<open>json_text\<close> is the text PostgreSQL gives to a number, an array or an object, \<open>fold\<close> its case folding and
  \<open>numeric\<close> its comparison of a text with a number. A text that is no number makes such a statement fail, which is left out.
\<close>

section \<open>Conditions\<close>

datatype sql_cond =
    TextIs pystr pystr
  | TextIsNot pystr pystr
  | NumberIs pystr pystr rat
  | TextIn pystr "pystr list"
  | TextNotIn pystr "pystr list"
  | TextLike bool pystr pystr
  | HasKey pystr
  | AnyGroup "sql_cond list list"
  | NoGroup "sql_cond list list"

datatype filter_error = BadOperator pystr | NotIterable | NotObject | NotNumber

text \<open>\<open>for v in value\<close>: lists, the keys of objects, the characters of texts.\<close>

definition items_of :: "json \<Rightarrow> filter_error + json list" where
  "items_of v =
    (case v of
       JArr vs \<Rightarrow> Inr vs
     | JObj n \<Rightarrow> Inr (map (JStr \<circ> fst) n)
     | JStr s \<Rightarrow> Inr (map (\<lambda>c. JStr [c]) s)
     | _ \<Rightarrow> Inl NotIterable)"

text \<open>The characters \<open>LIKE\<close> gives a meaning to, with a backslash before.\<close>

definition escape_like :: "pystr \<Rightarrow> pystr" where
  "escape_like s = concat (map (\<lambda>c. if c = 92 \<or> c = 37 \<or> c = 95 then [92, c] else [c]) s)"

definition numeric_operators :: "pystr list" where
  "numeric_operators = map U [''gt'', ''gte'', ''lt'', ''lte'']"

definition operator_cond :: "(json \<Rightarrow> pystr) \<Rightarrow> (json \<Rightarrow> rat option) \<Rightarrow> pystr \<Rightarrow> pystr \<times> json \<Rightarrow> filter_error + sql_cond" where
  "operator_cond text_of float_of key op =
    (if fst op \<notin> set filter_operators then Inl (BadOperator (fst op))
     else if fst op = U ''in'' then bind_err (items_of (snd op)) (\<lambda>vs. Inr (TextIn key (map (str_of text_of) vs)))
     else if fst op = U ''nin'' then bind_err (items_of (snd op)) (\<lambda>vs. Inr (TextNotIn key (map (str_of text_of) vs)))
     else if fst op = U ''contains'' \<or> fst op = U ''icontains'' then
       Inr (TextLike (fst op = U ''icontains'') key (U ''%'' @ escape_like (str_of text_of (snd op)) @ U ''%''))
     else if fst op \<in> set numeric_operators then
       (case float_of (snd op) of None \<Rightarrow> Inl NotNumber | Some x \<Rightarrow> Inr (NumberIs (fst op) key x))
     else if fst op = U ''ne'' then Inr (TextIsNot key (str_of text_of (snd op)))
     else Inr (TextIs key (str_of text_of (snd op))))"

fun operator_conds :: "(json \<Rightarrow> pystr) \<Rightarrow> (json \<Rightarrow> rat option) \<Rightarrow> pystr \<Rightarrow> node \<Rightarrow> filter_error + sql_cond list" where
  "operator_conds text_of float_of key [] = Inr []"
| "operator_conds text_of float_of key (op # ops) =
    bind_err (operator_cond text_of float_of key op) (\<lambda>c.
      bind_err (operator_conds text_of float_of key ops) (\<lambda>cs. Inr (c # cs)))"

definition bool_text :: "bool \<Rightarrow> pystr" where
  "bool_text b = (if b then U ''true'' else U ''false'')"

definition field_conds :: "(json \<Rightarrow> pystr) \<Rightarrow> (json \<Rightarrow> rat option) \<Rightarrow> pystr \<Rightarrow> json \<Rightarrow> filter_error + sql_cond list" where
  "field_conds text_of float_of key v =
    (if v = JStr (U ''*'') then Inr [HasKey key]
     else case v of
       JObj ops \<Rightarrow> operator_conds text_of float_of key ops
     | JArr vs \<Rightarrow> Inr [TextIn key (map (str_of text_of) vs)]
     | JBool b \<Rightarrow> Inr [TextIs key (bool_text b)]
     | _ \<Rightarrow> Inr [TextIs key (str_of text_of v)])"

text \<open>\<open>_build_filter_conditions\<close> of any value, of the entries of an object and of the groups of a logical operator. A
  value that counts as false has no conditions, and a group without conditions is left out.\<close>

function (sequential) value_conds :: "(json \<Rightarrow> pystr) \<Rightarrow> (json \<Rightarrow> rat option) \<Rightarrow> json \<Rightarrow> filter_error + sql_cond list"
  and entry_conds :: "(json \<Rightarrow> pystr) \<Rightarrow> (json \<Rightarrow> rat option) \<Rightarrow> node \<Rightarrow> filter_error + sql_cond list"
  and group_conds :: "(json \<Rightarrow> pystr) \<Rightarrow> (json \<Rightarrow> rat option) \<Rightarrow> json list \<Rightarrow> filter_error + sql_cond list list"
  where
  "value_conds text_of float_of (JObj n) = entry_conds text_of float_of n"
| "value_conds text_of float_of v = (if json_truthy v then Inl NotObject else Inr [])"
| "entry_conds text_of float_of [] = Inr []"
| "entry_conds text_of float_of ((k, v) # kvs) =
    bind_err
      (if k = U ''$or'' then
         bind_err (case v of JArr vs \<Rightarrow> group_conds text_of float_of vs
                           | _ \<Rightarrow> bind_err (items_of v) (\<lambda>vs. if vs = [] then Inr [] else Inl NotObject))
           (\<lambda>gs. Inr (if gs = [] then [] else [AnyGroup gs]))
       else if k = U ''$not'' then
         bind_err (case v of JArr vs \<Rightarrow> group_conds text_of float_of vs
                           | _ \<Rightarrow> bind_err (items_of v) (\<lambda>vs. if vs = [] then Inr [] else Inl NotObject))
           (\<lambda>gs. Inr (if gs = [] then [] else [NoGroup gs]))
       else field_conds text_of float_of k v)
      (\<lambda>cs. bind_err (entry_conds text_of float_of kvs) (\<lambda>ds. Inr (cs @ ds)))"
| "group_conds text_of float_of [] = Inr []"
| "group_conds text_of float_of (v # vs) =
    bind_err (value_conds text_of float_of v) (\<lambda>cs.
      bind_err (group_conds text_of float_of vs) (\<lambda>gs. Inr (if cs = [] then gs else cs # gs)))"
  by pat_completeness auto

termination
  by (relation "measure (case_sum (\<lambda>(t, f, v). size v)
        (case_sum (\<lambda>(t, f, n). size_list (size_prod (\<lambda>_. 0) size) n) (\<lambda>(t, f, vs). size_list size vs)))") auto

definition build_filter_conditions :: "(json \<Rightarrow> pystr) \<Rightarrow> (json \<Rightarrow> rat option) \<Rightarrow> node \<Rightarrow> filter_error + sql_cond list" where
  "build_filter_conditions text_of float_of fl = entry_conds text_of float_of fl"

section \<open>Meaning\<close>

text \<open>\<open>LIKE\<close> with the backslash as escape character.\<close>

fun like :: "pystr \<Rightarrow> pystr \<Rightarrow> bool" where
  "like [] s = (s = [])"
| "like (p # ps) s =
    (if p = 37 then (case s of [] \<Rightarrow> like ps [] | c # cs \<Rightarrow> like ps s \<or> like (p # ps) cs)
     else if p = 95 then (case s of [] \<Rightarrow> False | c # cs \<Rightarrow> like ps cs)
     else if p = 92 \<and> ps \<noteq> [] then (case s of [] \<Rightarrow> False | c # cs \<Rightarrow> c = hd ps \<and> like (tl ps) cs)
     else (case s of [] \<Rightarrow> False | c # cs \<Rightarrow> c = p \<and> like ps cs))"

text \<open>\<open>payload->>key\<close>\<close>

definition payload_text :: "(json \<Rightarrow> pystr) \<Rightarrow> node \<Rightarrow> pystr \<Rightarrow> pystr option" where
  "payload_text json_text n key =
    (case map_of n key of
       None \<Rightarrow> None
     | Some JNull \<Rightarrow> None
     | Some (JStr s) \<Rightarrow> Some s
     | Some (JBool b) \<Rightarrow> Some (bool_text b)
     | Some v \<Rightarrow> Some (json_text v))"

definition sql_and :: "bool option list \<Rightarrow> bool option" where
  "sql_and xs = (if Some False \<in> set xs then Some False else if None \<in> set xs then None else Some True)"

definition sql_or :: "bool option list \<Rightarrow> bool option" where
  "sql_or xs = (if Some True \<in> set xs then Some True else if None \<in> set xs then None else Some False)"

record database =
  db_text :: "json \<Rightarrow> pystr"
  db_fold :: "pystr \<Rightarrow> pystr"
  db_numeric :: "pystr \<Rightarrow> pystr \<Rightarrow> rat \<Rightarrow> bool"

fun cond_value :: "database \<Rightarrow> node \<Rightarrow> sql_cond \<Rightarrow> bool option" where
  "cond_value pg n (TextIs k s) = map_option (\<lambda>t. t = s) (payload_text (db_text pg) n k)"
| "cond_value pg n (TextIsNot k s) = map_option (\<lambda>t. t \<noteq> s) (payload_text (db_text pg) n k)"
| "cond_value pg n (NumberIs op k x) = map_option (\<lambda>t. db_numeric pg op t x) (payload_text (db_text pg) n k)"
| "cond_value pg n (TextIn k ss) = map_option (\<lambda>t. t \<in> set ss) (payload_text (db_text pg) n k)"
| "cond_value pg n (TextNotIn k ss) = map_option (\<lambda>t. t \<notin> set ss) (payload_text (db_text pg) n k)"
| "cond_value pg n (TextLike folded k p) =
    map_option (\<lambda>t. if folded then like (db_fold pg p) (db_fold pg t) else like p t) (payload_text (db_text pg) n k)"
| "cond_value pg n (HasKey k) = Some (map_of n k \<noteq> None)"
| "cond_value pg n (AnyGroup gs) = sql_or (map (\<lambda>g. sql_and (map (cond_value pg n) g)) gs)"
| "cond_value pg n (NoGroup gs) = map_option Not (sql_or (map (\<lambda>g. sql_and (map (cond_value pg n) g)) gs))"

text \<open>A row is taken when the conjunction of the conditions is true, not when it is unknown.\<close>

definition satisfies :: "database \<Rightarrow> sql_cond list \<Rightarrow> node \<Rightarrow> bool" where
  "satisfies pg cs n \<longleftrightarrow> sql_and (map (cond_value pg n) cs) = Some True"

section \<open>Lemmas\<close>

lemma sql_and_true [simp]: "sql_and xs = Some True \<longleftrightarrow> (\<forall>x\<in>set xs. x = Some True)"
  by (auto simp: sql_and_def) (metis (full_types) not_None_eq)

lemma sql_and_true_sym [simp]: "Some True = sql_and xs \<longleftrightarrow> (\<forall>x\<in>set xs. x = Some True)"
  by (metis sql_and_true)

lemma sql_or_true [simp]: "sql_or xs = Some True \<longleftrightarrow> Some True \<in> set xs"
  by (auto simp: sql_or_def)

lemma sql_or_false [simp]: "sql_or xs = Some False \<longleftrightarrow> (\<forall>x\<in>set xs. x = Some False)"
  by (auto simp: sql_or_def) (metis (full_types) not_None_eq)

lemma satisfies_Nil [simp]: "satisfies pg [] n"
  by (simp add: satisfies_def)

lemma satisfies_Cons [simp]: "satisfies pg (c # cs) n \<longleftrightarrow> cond_value pg n c = Some True \<and> satisfies pg cs n"
  by (auto simp: satisfies_def)

lemma satisfies_append [simp]: "satisfies pg (cs @ ds) n \<longleftrightarrow> satisfies pg cs n \<and> satisfies pg ds n"
  by (auto simp: satisfies_def)

lemma any_group_true: "cond_value pg n (AnyGroup gs) = Some True \<longleftrightarrow> (\<exists>g\<in>set gs. satisfies pg g n)"
  by (auto simp: satisfies_def image_iff)

lemma entry_conds_member:
  assumes "entry_conds text_of float_of fl = Inr cs" and "(k, JStr s) \<in> set fl" and "k \<noteq> U ''$or''" and "k \<noteq> U ''$not''"
    and "s \<noteq> U ''*''"
  shows "TextIs k s \<in> set cs"
  using assms
proof (induction fl arbitrary: cs)
  case (Cons kv fl)
  obtain j v where kv: "kv = (j, v)" by force
  from Cons.prems(1) obtain as bs where bs: "entry_conds text_of float_of fl = Inr bs" and cs: "cs = as @ bs"
    and as: "j \<noteq> U ''$or'' \<Longrightarrow> j \<noteq> U ''$not'' \<Longrightarrow> field_conds text_of float_of j v = Inr as"
    by (cases "j = U ''$or'' \<or> j = U ''$not''") (auto simp: kv err_simps)
  from Cons.prems(2) consider "(k, JStr s) \<in> set fl" | "j = k" "v = JStr s" by (auto simp: kv)
  then show ?case
  proof cases
    case 1
    with Cons.IH [OF bs] Cons.prems cs show ?thesis by simp
  next
    case 2
    with as Cons.prems cs show ?thesis by (auto simp: field_conds_def str_of_def)
  qed
qed simp

text \<open>What is between two percent signs, escaped, is matched as it is.\<close>

lemma like_escaped: "like (escape_like s @ p) t \<longleftrightarrow> (\<exists>u. t = s @ u \<and> like p u)"
proof (induction s arbitrary: t)
  case (Cons c s)
  show ?case
  proof (cases t)
    case Nil
    then show ?thesis by (simp add: escape_like_def)
  next
    case (Cons d t')
    with Cons.IH [of t'] show ?thesis by (auto simp: escape_like_def)
  qed
qed (simp add: escape_like_def)

lemma like_percent: "like (37 # p) t \<longleftrightarrow> (\<exists>u v. t = u @ v \<and> like p v)"
proof (induction t)
  case (Cons c t)
  have "(\<exists>u v. c # t = u @ v \<and> like p v) \<longleftrightarrow> like p (c # t) \<or> (\<exists>u v. t = u @ v \<and> like p v)"
    by (metis append_Cons append_Nil neq_Nil_conv list.inject)
  with Cons show ?case by simp
qed simp

lemma like_anything: "like [37] t"
  by (induction t) auto

section \<open>Properties\<close>

text \<open>The conditions \<open>contains\<close> and \<open>icontains\<close> mean what they say: whatever per cent signs, underscores and backslashes the
  searched text has, \<open>contains\<close> takes exactly the payloads whose field contains it.\<close>

theorem contains_means_containing:
  assumes "operator_conds text_of float_of key [(U ''contains'', v)] = Inr cs"
  shows "satisfies pg cs n \<longleftrightarrow> (\<exists>t u w. payload_text (db_text pg) n key = Some t \<and> t = u @ str_of text_of v @ w)"
proof -
  have cs: "cs = [TextLike False key (37 # escape_like (str_of text_of v) @ [37])]"
    using assms by (simp add: operator_cond_def filter_operators_def numeric_operators_def U_def)
  have "like (37 # escape_like s @ [37]) t \<longleftrightarrow> (\<exists>u w. t = u @ s @ w)" for s t
    by (simp only: like_percent like_escaped) (auto simp: like_anything)
  then show ?thesis by (auto simp: cs simp del: like.simps)
qed

text \<open>A truth value in an operator or a list is compared with Python's \<open>True\<close>, which no payload has: \<open>eq\<close> never holds for it.\<close>

lemma operator_on_truth_value:
  assumes "text_of (JBool True) = U ''True''" and "map_of n (U ''done'') = Some (JBool True)"
    and "operator_conds text_of float_of (U ''done'') [(U ''eq'', JBool True)] = Inr cs"
  shows "\<not> satisfies pg cs n"
proof -
  have "cs = [TextIs (U ''done'') (U ''True'')]"
    using assms(1,3) by (simp add: operator_cond_def filter_operators_def numeric_operators_def str_of_def U_def)
  then show ?thesis using assms(2) by (simp add: payload_text_def bool_text_def)
qed

definition example_database :: database where
  "example_database = \<lparr>db_text = (\<lambda>_. []), db_fold = (\<lambda>s. s), db_numeric = (\<lambda>op t x. False)\<rparr>"

lemma contains_means_containing_witness:
  "\<exists>cs. operator_conds (\<lambda>_. []) (\<lambda>_. None) (U ''note'') [(U ''contains'', JStr (U ''50%''))] = Inr cs \<and>
    satisfies example_database cs [(U ''note'', JStr (U ''at 50% off''))] \<and>
    \<not> satisfies example_database cs [(U ''note'', JStr (U ''at 500 off''))]"
proof -
  let ?cs = "[TextLike False (U ''note'') (U ''%50'' @ [92] @ U ''%%'')]"
  have cs: "operator_conds (\<lambda>_. []) (\<lambda>_. None) (U ''note'') [(U ''contains'', JStr (U ''50%''))] = Inr ?cs" by code_simp
  have "satisfies example_database ?cs [(U ''note'', JStr (U ''at 50% off''))]"
  proof (subst contains_means_containing [OF cs], intro exI conjI)
    show "payload_text (db_text example_database) [(U ''note'', JStr (U ''at 50% off''))] (U ''note'') = Some (U ''at 50% off'')"
      by (simp add: payload_text_def)
    show "U ''at 50% off'' = U ''at '' @ str_of (\<lambda>_. []) (JStr (U ''50%'')) @ U '' off''" by code_simp
  qed
  moreover have "\<not> satisfies example_database ?cs [(U ''note'', JStr (U ''at 500 off''))]" by code_simp
  ultimately show ?thesis using cs by blast
qed

end
