(* ===== verification/Pg_Store.thy ===== *)
theory Pg_Store
  imports Pg_Filter "HOL-Library.Multiset"
begin

text \<open>
  The PostgreSQL store of memories (mem0/vector_stores/pgvector.py, class PGVector): a table of rows with an id, a
  vector that may be missing and a payload. What the database decides is a record of functions: the order in
  which a query without an order visits the rows, the distance of vectors, the full-text rank, and which statements
  fail, the connection being lost for instance. A failed operation is \<open>None\<close> and changes nothing.
\<close>

section \<open>The table\<close>

record 'v pg_row =
  pr_id :: pystr
  pr_vector :: "'v option"
  pr_payload :: node

type_synonym 'v pg_table = "'v pg_row list"

datatype pg_call =
    GetCall pystr
  | InsertCall "pystr list"
  | UpdateCall pystr
  | DeleteCall pystr
  | ListCall node
  | SearchCall node

record 'v server =
  sv_db :: database
  sv_text_of :: "json \<Rightarrow> pystr"
  sv_float_of :: "json \<Rightarrow> rat option"
  sv_place :: "'v pg_table \<Rightarrow> pystr \<Rightarrow> nat"
  sv_distance :: "'v \<Rightarrow> 'v \<Rightarrow> rat"
  sv_rank :: "pystr \<Rightarrow> pystr \<Rightarrow> rat option"
  sv_order :: "pystr list \<Rightarrow> pystr list"
  sv_fails :: "'v pg_table \<Rightarrow> pg_call \<Rightarrow> bool"

definition row_of :: "pystr \<times> 'v option \<times> node \<Rightarrow> 'v pg_row" where
  "row_of d = \<lparr>pr_id = fst d, pr_vector = fst (snd d), pr_payload = snd (snd d)\<rparr>"

text \<open>The id is the table's key: a statement with an id that is there, or twice, inserts nothing.\<close>

definition pg_insert :: "'v server \<Rightarrow> 'v pg_table \<Rightarrow> (pystr \<times> 'v option \<times> node) list \<Rightarrow> 'v pg_table option" where
  "pg_insert sv t ds =
    (if sv_fails sv t (InsertCall (map fst ds)) \<or> \<not> distinct (map pr_id t @ map fst ds) then None
     else Some (t @ map row_of ds))"

definition pg_get :: "'v server \<Rightarrow> 'v pg_table \<Rightarrow> pystr \<Rightarrow> node option option" where
  "pg_get sv t i =
    (if sv_fails sv t (GetCall i) then None else Some (map_option pr_payload (first_row (\<lambda>r. pr_id r = i) t)))"

definition pg_delete :: "'v server \<Rightarrow> 'v pg_table \<Rightarrow> pystr \<Rightarrow> 'v pg_table option" where
  "pg_delete sv t i = (if sv_fails sv t (DeleteCall i) then None else Some (filter (\<lambda>r. pr_id r \<noteq> i) t))"

text \<open>A row whose new text has no vector yet loses the vector of the old text.\<close>

definition pending :: "node \<Rightarrow> bool" where
  "pending n \<longleftrightarrow> entry ''embedding_status'' n = JStr (U ''pending'')"

definition pg_update :: "'v server \<Rightarrow> 'v pg_table \<Rightarrow> pystr \<Rightarrow> 'v option \<Rightarrow> node \<Rightarrow> 'v pg_table option" where
  "pg_update sv t i v p =
    (if sv_fails sv t (UpdateCall i) then None
     else Some (upd_rows (\<lambda>r. pr_id r = i)
       (\<lambda>r. r\<lparr>pr_vector := (if v \<noteq> None then v else if pending p then None else pr_vector r), pr_payload := p\<rparr>) t))"

text \<open>\<open>atomic_payload_list_union\<close> for a key that is an identifier: the texts of the field's array and the new ones, each once.\<close>

definition text_elements :: "(json \<Rightarrow> pystr) \<Rightarrow> json \<Rightarrow> pystr list" where
  "text_elements json_text v =
    (case v of JArr vs \<Rightarrow> List.map_filter (\<lambda>w. payload_text json_text [([], w)] []) vs | _ \<Rightarrow> [])"

definition unite_list :: "'v server \<Rightarrow> string \<Rightarrow> pystr list \<Rightarrow> node \<Rightarrow> node" where
  "unite_list sv key values p =
    put key (JArr (map JStr (sv_order sv (dedup (filter (\<lambda>s. s \<noteq> [])
      (text_elements (db_text (sv_db sv)) (entry key p) @ values)))))) p"

definition atomic_payload_list_union ::
  "'v server \<Rightarrow> 'v pg_table \<Rightarrow> pystr \<Rightarrow> string \<Rightarrow> pystr list \<Rightarrow> ('v pg_table \<times> bool) option" where
  "atomic_payload_list_union sv t i key values =
    (if filter (\<lambda>s. s \<noteq> []) values = [] then Some (t, True)
     else if sv_fails sv t (UpdateCall i) then None
     else Some (upd_rows (\<lambda>r. pr_id r = i) (\<lambda>r. r\<lparr>pr_payload := unite_list sv key values (pr_payload r)\<rparr>) t,
                rowcount (\<lambda>r. pr_id r = i) t \<noteq> 0))"

section \<open>Queries\<close>

text \<open>Without an order the rows come in whatever places the database visits them.\<close>

definition visited :: "'v server \<Rightarrow> 'v pg_table \<Rightarrow> 'v pg_table" where
  "visited sv t = sort_key (\<lambda>r. sv_place sv t (pr_id r)) t"

text \<open>A filter that cannot be translated raises.\<close>

definition pg_where :: "'v server \<Rightarrow> 'v pg_table \<Rightarrow> node \<Rightarrow> 'v pg_table option" where
  "pg_where sv t fl =
    (case build_filter_conditions (sv_text_of sv) (sv_float_of sv) fl of
       Inl e \<Rightarrow> None
     | Inr cs \<Rightarrow> Some (filter (\<lambda>r. satisfies (sv_db sv) cs (pr_payload r)) (visited sv t)))"

definition pg_list :: "'v server \<Rightarrow> 'v pg_table \<Rightarrow> node \<Rightarrow> nat \<Rightarrow> (pystr \<times> node) list option" where
  "pg_list sv t fl top_k =
    (if sv_fails sv t (ListCall fl) then None
     else map_option (\<lambda>rs. take top_k (map (\<lambda>r. (pr_id r, pr_payload r)) rs)) (pg_where sv t fl))"

record hit =
  ht_id :: pystr
  ht_score :: rat
  ht_payload :: node

definition distance_of :: "'v server \<Rightarrow> 'v \<Rightarrow> 'v pg_row \<Rightarrow> rat" where
  "distance_of sv q r = (case pr_vector r of None \<Rightarrow> 0 | Some v \<Rightarrow> sv_distance sv q v)"

definition pg_search :: "'v server \<Rightarrow> 'v pg_table \<Rightarrow> 'v \<Rightarrow> nat \<Rightarrow> node \<Rightarrow> hit list option" where
  "pg_search sv t q top_k fl =
    (if sv_fails sv t (SearchCall fl) then None
     else map_option (\<lambda>rs.
         map (\<lambda>r. \<lparr>ht_id = pr_id r, ht_score = max 0 (1 - distance_of sv q r), ht_payload = pr_payload r\<rparr>)
           (take top_k (sort_key (distance_of sv q) (filter (\<lambda>r. pr_vector r \<noteq> None) rs))))
       (pg_where sv t fl))"

definition rank_of :: "'v server \<Rightarrow> pystr \<Rightarrow> 'v pg_row \<Rightarrow> rat option" where
  "rank_of sv q r =
    (case payload_text (db_text (sv_db sv)) (pr_payload r) (U ''text_lemmatized'') of None \<Rightarrow> None | Some t \<Rightarrow> sv_rank sv q t)"

definition pg_keyword_search :: "'v server \<Rightarrow> 'v pg_table \<Rightarrow> pystr \<Rightarrow> nat \<Rightarrow> node \<Rightarrow> hit list option" where
  "pg_keyword_search sv t q top_k fl =
    (if sv_fails sv t (SearchCall fl) then None
     else map_option (\<lambda>rs. take top_k (sort_key (\<lambda>h. - ht_score h)
         (List.map_filter (\<lambda>r. map_option (\<lambda>x. \<lparr>ht_id = pr_id r, ht_score = x, ht_payload = pr_payload r\<rparr>) (rank_of sv q r)) rs)))
       (pg_where sv t fl))"

definition existing_payload_values :: "'v server \<Rightarrow> 'v pg_table \<Rightarrow> string \<Rightarrow> pystr list \<Rightarrow> node \<Rightarrow> pystr list option" where
  "existing_payload_values sv t key values fl =
    (if values = [] then Some []
     else if sv_fails sv t (ListCall fl) then None
     else map_option (\<lambda>rs. dedup (filter (\<lambda>s. s \<in> set values)
         (List.map_filter (\<lambda>r. payload_text (db_text (sv_db sv)) (pr_payload r) (U key)) rs)))
       (pg_where sv t fl))"

text \<open>The memory of a text in a conversation; of several the last one counts.\<close>

definition existing_memory_hashes :: "'v server \<Rightarrow> 'v pg_table \<Rightarrow> node \<Rightarrow> ((pystr \<times> pystr) \<Rightarrow> pystr option) option" where
  "existing_memory_hashes sv t fl =
    (if sv_fails sv t (ListCall fl) then None
     else map_option (\<lambda>rs. map_of (rev (List.map_filter (\<lambda>r.
         case (payload_text (db_text (sv_db sv)) (pr_payload r) (U ''conversation_id''),
               payload_text (db_text (sv_db sv)) (pr_payload r) (U ''hash'')) of
           (Some c, Some h) \<Rightarrow> Some ((c, h), pr_id r) | _ \<Rightarrow> None) rs)))
       (pg_where sv t fl))"

section \<open>The store as the memory sees it\<close>

text \<open>The methods of a vector store, each one the operation on its state.\<close>

record ('s, 'v) store_ops =
  so_get :: "'s \<Rightarrow> pystr \<Rightarrow> node option option"
  so_insert :: "'s \<Rightarrow> (pystr \<times> 'v option \<times> node) list \<Rightarrow> 's option"
  so_update :: "'s \<Rightarrow> pystr \<Rightarrow> 'v option \<Rightarrow> node \<Rightarrow> 's option"
  so_delete :: "'s \<Rightarrow> pystr \<Rightarrow> 's option"
  so_list :: "'s \<Rightarrow> node \<Rightarrow> nat \<Rightarrow> (pystr \<times> node) list option"
  so_search :: "'s \<Rightarrow> 'v \<Rightarrow> nat \<Rightarrow> node \<Rightarrow> hit list option"
  so_lexical_only :: bool

definition pg_ops :: "'v server \<Rightarrow> ('v pg_table, 'v) store_ops" where
  "pg_ops sv =
    \<lparr>so_get = pg_get sv, so_insert = pg_insert sv, so_update = pg_update sv, so_delete = pg_delete sv,
     so_list = pg_list sv, so_search = pg_search sv, so_lexical_only = True\<rparr>"

text \<open>What the memory relies on: an operation that succeeds acts on the map from ids to payloads, and a listing that is shorter
  than its limit is complete.\<close>

locale vector_store =
  fixes ops :: "('s, 'v) store_ops"
    and rows :: "'s \<Rightarrow> pystr \<Rightarrow> node option"
    and sound :: "'s \<Rightarrow> bool"
    and takes :: "node \<Rightarrow> node \<Rightarrow> bool"
  assumes get: "sound s \<Longrightarrow> so_get ops s i = Some r \<Longrightarrow> r = rows s i"
    and insert: "sound s \<Longrightarrow> so_insert ops s ds = Some s' \<Longrightarrow>
      sound s' \<and> rows s' = rows s ++ map_of (map (\<lambda>(i, v, p). (i, p)) ds) \<and> (\<forall>i\<in>fst ` set ds. rows s i = None)"
    and update: "sound s \<Longrightarrow> so_update ops s i v p = Some s' \<Longrightarrow>
      sound s' \<and> rows s' = (if rows s i = None then rows s else (rows s)(i \<mapsto> p))"
    and delete: "sound s \<Longrightarrow> so_delete ops s i = Some s' \<Longrightarrow> sound s' \<and> rows s' = (rows s)(i := None)"
    and list: "sound s \<Longrightarrow> so_list ops s fl k = Some rs \<Longrightarrow>
      distinct (map fst rs) \<and> (\<forall>(i, p)\<in>set rs. rows s i = Some p \<and> takes fl p) \<and>
      (length rs < k \<longrightarrow> (\<forall>i p. rows s i = Some p \<longrightarrow> takes fl p \<longrightarrow> (i, p) \<in> set rs))"
    and search: "sound s \<Longrightarrow> so_search ops s q k fl = Some hs \<Longrightarrow>
      (\<forall>h\<in>set hs. rows s (ht_id h) = Some (ht_payload h) \<and> takes fl (ht_payload h)) \<and> length hs \<le> k"

definition pg_rows :: "'v pg_table \<Rightarrow> pystr \<Rightarrow> node option" where
  "pg_rows t = map_of (map (\<lambda>r. (pr_id r, pr_payload r)) t)"

definition pg_sound :: "'v pg_table \<Rightarrow> bool" where
  "pg_sound t \<longleftrightarrow> distinct (map pr_id t)"

definition pg_takes :: "'v server \<Rightarrow> node \<Rightarrow> node \<Rightarrow> bool" where
  "pg_takes sv fl n =
    (case build_filter_conditions (sv_text_of sv) (sv_float_of sv) fl of
       Inl e \<Rightarrow> False | Inr cs \<Rightarrow> satisfies (sv_db sv) cs n)"

lemma pg_rows_Some: "pg_sound t \<Longrightarrow> pg_rows t i = Some p \<longleftrightarrow> (\<exists>r\<in>set t. pr_id r = i \<and> pr_payload r = p)"
  by (force simp: pg_rows_def pg_sound_def map_of_eq_Some_iff comp_def)

lemma pg_rows_first: "pg_rows t i = map_option pr_payload (first_row (\<lambda>r. pr_id r = i) t)"
  by (induction t) (auto simp: pg_rows_def)

lemma pg_rows_upd:
  "\<lbrakk>\<And>r. pr_id (f r) = pr_id r; \<And>r. pr_payload (f r) = g (pr_payload r)\<rbrakk> \<Longrightarrow>
   pg_rows (upd_rows (\<lambda>r. pr_id r = i) f t) j = (if j = i then map_option g (pg_rows t j) else pg_rows t j)"
  by (induction t) (auto simp: pg_rows_def upd_rows_def)

lemma pg_rows_filter: "pg_rows (filter (\<lambda>r. pr_id r \<noteq> i) t) = (pg_rows t)(i := None)"
  by (induction t) (auto simp: pg_rows_def fun_eq_iff)

lemma pg_sound_upd: "(\<And>r. pr_id (f r) = pr_id r) \<Longrightarrow> pg_sound (upd_rows P f t) = pg_sound t"
  by (simp add: pg_sound_def map_upd_rows)

lemma pg_where_rows:
  assumes "pg_where sv t fl = Some rs"
  shows "set rs = {r \<in> set t. pg_takes sv fl (pr_payload r)}" and "pg_sound t \<Longrightarrow> pg_sound rs"
proof -
  obtain cs where cs: "build_filter_conditions (sv_text_of sv) (sv_float_of sv) fl = Inr cs"
    and rs: "rs = filter (\<lambda>r. satisfies (sv_db sv) cs (pr_payload r)) (visited sv t)"
    using assms by (auto simp: pg_where_def split: sum.splits)
  have m: "mset (visited sv t) = mset t" by (simp add: visited_def)
  then have "set (visited sv t) = set t" by (rule mset_eq_setD)
  then show "set rs = {r \<in> set t. pg_takes sv fl (pr_payload r)}" by (auto simp: rs pg_takes_def cs)
  from m have "mset (map pr_id (visited sv t)) = mset (map pr_id t)" by simp
  then have "distinct (map pr_id (visited sv t)) = distinct (map pr_id t)" by (rule mset_eq_imp_distinct_iff)
  then show "pg_sound t \<Longrightarrow> pg_sound rs" by (simp add: pg_sound_def rs distinct_map_filter)
qed

lemma pg_get_rows: "pg_get sv t i = Some r \<Longrightarrow> r = pg_rows t i"
  by (auto simp: pg_get_def pg_rows_first split: if_splits)

lemma pg_rows_None: "pg_rows t i = None \<longleftrightarrow> i \<notin> pr_id ` set t"
  by (induction t) (auto simp: pg_rows_def)

lemma pg_rows_append:
  assumes "\<And>i. i \<in> pr_id ` set u \<Longrightarrow> pg_rows t i = None"
  shows "pg_rows (t @ u) = pg_rows t ++ pg_rows u"
proof -
  have "dom (pg_rows u) \<inter> dom (pg_rows t) = {}"
  proof (rule equals0I)
    fix i assume "i \<in> dom (pg_rows u) \<inter> dom (pg_rows t)"
    then have u: "i \<in> dom (pg_rows u)" and t: "i \<in> dom (pg_rows t)" by (simp_all only: Int_iff)
    from u have "i \<in> pr_id ` set u" using pg_rows_None [of u i] by (simp add: domIff)
    from assms [OF this] t show False by (simp add: domIff)
  qed
  then have "pg_rows u ++ pg_rows t = pg_rows t ++ pg_rows u" by (rule map_add_comm)
  moreover have "pg_rows (t @ u) = pg_rows u ++ pg_rows t" unfolding pg_rows_def map_append map_of_append ..
  ultimately show ?thesis by (rule trans [rotated])
qed

lemma pg_rows_row_of: "pg_rows (map row_of ds) = map_of (map (\<lambda>(i, v, p). (i, p)) ds)"
proof -
  have "map (\<lambda>r. (pr_id r, pr_payload r)) (map row_of ds) = map (\<lambda>(i, v, p). (i, p)) ds"
    by (induction ds) (auto simp: row_of_def)
  then show ?thesis by (simp only: pg_rows_def)
qed

lemma row_of_ids [simp]: "map (pr_id \<circ> row_of) ds = map fst ds" "pr_id ` row_of ` set ds = fst ` set ds"
  by (simp_all add: row_of_def image_image)

lemma pg_insert_rows:
  assumes "pg_insert sv t ds = Some t'"
  shows "pg_sound t' \<and> pg_rows t' = pg_rows t ++ map_of (map (\<lambda>(i, v, p). (i, p)) ds) \<and> (\<forall>i\<in>fst ` set ds. pg_rows t i = None)"
proof -
  have t': "t' = t @ map row_of ds" and d: "distinct (map pr_id t @ map fst ds)"
    using assms by (auto simp: pg_insert_def split: if_splits)
  from d have fresh: "\<forall>i\<in>fst ` set ds. pg_rows t i = None" unfolding pg_rows_None by auto
  then have "pg_rows t' = pg_rows t ++ pg_rows (map row_of ds)" unfolding t' by (intro pg_rows_append) (simp only: set_map row_of_ids)
  moreover have "pg_sound t'" using d by (simp add: t' pg_sound_def)
  ultimately show ?thesis using fresh by (simp add: pg_rows_row_of)
qed

lemma pg_update_rows:
  assumes "pg_update sv t i v p = Some t'"
  shows "pg_sound t' = pg_sound t \<and> pg_rows t' = (if pg_rows t i = None then pg_rows t else (pg_rows t)(i \<mapsto> p))"
proof -
  have t': "t' = upd_rows (\<lambda>r. pr_id r = i)
       (\<lambda>r. r\<lparr>pr_vector := (if v \<noteq> None then v else if pending p then None else pr_vector r), pr_payload := p\<rparr>) t"
    using assms by (simp add: pg_update_def split: if_splits)
  have "pg_rows t' j = (if j = i then map_option (\<lambda>_. p) (pg_rows t j) else pg_rows t j)" for j
    unfolding t' by (rule pg_rows_upd) simp_all
  then have "pg_rows t' = (if pg_rows t i = None then pg_rows t else (pg_rows t)(i \<mapsto> p))" by (auto simp: fun_eq_iff)
  moreover have "pg_sound t' = pg_sound t" unfolding t' by (rule pg_sound_upd) simp
  ultimately show ?thesis by simp
qed

lemma pg_delete_rows:
  "pg_delete sv t i = Some t' \<Longrightarrow> pg_sound t \<Longrightarrow> pg_sound t' \<and> pg_rows t' = (pg_rows t)(i := None)"
  by (auto simp: pg_delete_def pg_rows_filter pg_sound_def distinct_map_filter split: if_splits)

lemma pg_list_rows:
  assumes "pg_list sv t fl k = Some ps" and "pg_sound t"
  shows "distinct (map fst ps)" and "\<forall>(i, p)\<in>set ps. pg_rows t i = Some p \<and> pg_takes sv fl p"
    and "length ps < k \<Longrightarrow> pg_rows t i = Some p \<Longrightarrow> pg_takes sv fl p \<Longrightarrow> (i, p) \<in> set ps"
proof -
  obtain ws where ws: "pg_where sv t fl = Some ws" and ps: "ps = take k (map (\<lambda>r. (pr_id r, pr_payload r)) ws)"
    using assms(1) by (auto simp: pg_list_def split: if_splits)
  note set_ws = pg_where_rows(1) [OF ws]
  have d: "distinct (map pr_id ws)" using pg_where_rows(2) [OF ws] assms(2) by (simp add: pg_sound_def)
  have "map fst ps = take k (map pr_id ws)" by (simp add: ps take_map comp_def)
  with d show "distinct (map fst ps)" by (simp add: distinct_take)
  show "\<forall>(i, p)\<in>set ps. pg_rows t i = Some p \<and> pg_takes sv fl p"
  proof clarify
    fix i p assume "(i, p) \<in> set ps"
    then obtain r where "r \<in> set ws" "i = pr_id r" "p = pr_payload r" by (auto simp: ps dest!: in_set_takeD)
    then show "pg_rows t i = Some p \<and> pg_takes sv fl p" using set_ws assms(2) by (auto simp: pg_rows_Some)
  qed
  assume "length ps < k" "pg_rows t i = Some p" "pg_takes sv fl p"
  moreover from this(1) have "ps = map (\<lambda>r. (pr_id r, pr_payload r)) ws" by (simp add: ps)
  ultimately show "(i, p) \<in> set ps" using set_ws assms(2) by (auto simp: pg_rows_Some)
qed

lemma pg_search_rows:
  assumes "pg_search sv t q k fl = Some hs" and "pg_sound t"
  shows "\<forall>h\<in>set hs. pg_rows t (ht_id h) = Some (ht_payload h) \<and> pg_takes sv fl (ht_payload h)" and "length hs \<le> k"
proof -
  obtain ws where ws: "pg_where sv t fl = Some ws" and hs: "hs =
      map (\<lambda>r. \<lparr>ht_id = pr_id r, ht_score = max 0 (1 - distance_of sv q r), ht_payload = pr_payload r\<rparr>)
           (take k (sort_key (distance_of sv q) (filter (\<lambda>r. pr_vector r \<noteq> None) ws)))"
    using assms(1) by (auto simp: pg_search_def split: if_splits)
  show "\<forall>h\<in>set hs. pg_rows t (ht_id h) = Some (ht_payload h) \<and> pg_takes sv fl (ht_payload h)"
  proof
    fix h assume "h \<in> set hs"
    then obtain r where "r \<in> set ws" "ht_id h = pr_id r" "ht_payload h = pr_payload r" by (auto simp: hs dest!: in_set_takeD)
    then show "pg_rows t (ht_id h) = Some (ht_payload h) \<and> pg_takes sv fl (ht_payload h)"
      using pg_where_rows(1) [OF ws] assms(2) by (auto simp: pg_rows_Some)
  qed
  show "length hs \<le> k" by (simp add: hs)
qed

lemma pg_ops_sel [simp]:
  "so_get (pg_ops sv) = pg_get sv" "so_insert (pg_ops sv) = pg_insert sv" "so_update (pg_ops sv) = pg_update sv"
  "so_delete (pg_ops sv) = pg_delete sv" "so_list (pg_ops sv) = pg_list sv" "so_search (pg_ops sv) = pg_search sv"
  "so_lexical_only (pg_ops sv) = True"
  by (simp_all add: pg_ops_def)

interpretation pg: vector_store "pg_ops sv" pg_rows pg_sound "pg_takes sv" for sv :: "'v server"
  by unfold_locales
    (simp_all add: pg_get_rows pg_insert_rows pg_update_rows pg_delete_rows pg_list_rows pg_search_rows)

lemma takes_text:
  assumes "pg_takes sv fl n" and "map_of fl k = Some (JStr s)" and "k \<noteq> U ''$or''" and "k \<noteq> U ''$not''" and "s \<noteq> U ''*''"
  shows "payload_text (db_text (sv_db sv)) n k = Some s"
proof -
  obtain cs where cs: "entry_conds (sv_text_of sv) (sv_float_of sv) fl = Inr cs" and sat: "satisfies (sv_db sv) cs n"
    using assms(1) by (auto simp: pg_takes_def build_filter_conditions_def split: sum.splits)
  from entry_conds_member [OF cs map_of_SomeD [OF assms(2)] assms(3-5)] have "TextIs k s \<in> set cs" .
  with sat have "cond_value (sv_db sv) n (TextIs k s) = Some True" by (auto simp: satisfies_def)
  then show ?thesis by auto
qed

section \<open>Properties\<close>

text \<open>No search finds a memory of another project: whatever filters a request brings, as long as they have no AND, every
  memory the store returns for it has the project of the request in its payload.\<close>

theorem search_finds_own_project:
  assumes "search_call project rq = Inr (q, k, t, f)" and "distinct (map fst (sr_filters rq))"
    and "U ''AND'' \<notin> fst ` set (sr_filters rq)" and "project \<noteq> U ''*''"
    and "pg_sound tb" and "pg_search sv tb v n f = Some hs" and "h \<in> set hs"
  shows "payload_text (db_text (sv_db sv)) (ht_payload h) (U ''project_id'') = Some project \<and>
    pg_rows tb (ht_id h) = Some (ht_payload h)"
proof -
  have "so_search (pg_ops sv) tb v n f = Some hs" using assms(6) by simp
  from pg.search [OF assms(5) this] assms(7)
  have h: "pg_rows tb (ht_id h) = Some (ht_payload h)" "pg_takes sv f (ht_payload h)" by simp_all
  have "map_of f (U ''project_id'') = Some (JStr project)" by (rule search_call_project [OF assms(1-3)])
  with h show ?thesis using assms(4) by (auto intro: takes_text)
qed

definition example_server :: "rat server" where
  "example_server =
    \<lparr>sv_db = example_database, sv_text_of = (\<lambda>_. []), sv_float_of = (\<lambda>_. None), sv_place = (\<lambda>t i. 0),
     sv_distance = (\<lambda>x y. \<bar>x - y\<bar>), sv_rank = (\<lambda>_ _. None), sv_order = (\<lambda>ss. ss), sv_fails = (\<lambda>t c. False)\<rparr>"

definition example_table :: "rat pg_table" where
  "example_table =
    [\<lparr>pr_id = U ''m1'', pr_vector = Some 1, pr_payload = [(U ''project_id'', JStr (U ''p2'')), (U ''user_id'', JStr (U ''u1''))]\<rparr>,
     \<lparr>pr_id = U ''m2'', pr_vector = Some 1, pr_payload = [(U ''project_id'', JStr (U ''p1'')), (U ''user_id'', JStr (U ''u1''))]\<rparr>]"

definition found_in :: "pystr \<Rightarrow> search_request \<Rightarrow> hit list" where
  "found_in project rq =
    (case search_call project rq of
       Inl e \<Rightarrow> []
     | Inr (q, k, t, f) \<Rightarrow> (case pg_search example_server example_table 1 (nat k) f of None \<Rightarrow> [] | Some hs \<Rightarrow> hs))"

lemma search_finds_own_project_witness:
  "length (found_in (U ''p1'') (example_search [(U ''project_id'', JStr (U ''p2''))])) = 1 \<and>
   list_all (\<lambda>h. payload_text (db_text (sv_db example_server)) (ht_payload h) (U ''project_id'') = Some (U ''p1''))
     (found_in (U ''p1'') (example_search [(U ''project_id'', JStr (U ''p2''))]))"
proof
  let ?rq = "example_search [(U ''project_id'', JStr (U ''p2''))]"
  show "length (found_in (U ''p1'') ?rq) = 1" by code_simp
  then obtain q k t f hs where r: "search_call (U ''p1'') ?rq = Inr (q, k, t, f)"
    and hs: "pg_search example_server example_table 1 (nat k) f = Some hs" and found: "found_in (U ''p1'') ?rq = hs"
    by (auto simp: found_in_def split: sum.splits option.splits)
  have sound: "pg_sound example_table" by code_simp
  have star: "U ''p1'' \<noteq> U ''*''" by simp
  show "list_all (\<lambda>h. payload_text (db_text (sv_db example_server)) (ht_payload h) (U ''project_id'') = Some (U ''p1'')) (found_in (U ''p1'') ?rq)"
    unfolding found list_all_iff by (intro ballI conjunct1 [OF search_finds_own_project [OF r _ _ star sound hs]]) (simp_all add: example_search_def)
qed

text \<open>With an AND the memory of the other project is found.\<close>

lemma and_finds_other_project:
  "map ht_id (found_in (U ''p1'') (example_search [(U ''project_id'', JStr (U ''p1'')), (U ''AND'', JArr [JObj [(U ''project_id'', JStr (U ''p2''))]])]))
   = [U ''m1'']"
  by code_simp

end
