(* ===== verification/Mem_History.thy ===== *)
theory Mem_History
  imports Mem_Scope "HOL-Library.List_Lexorder"
begin

text \<open>
  The local database of the memory (mem0/memory/storage.py, class SQLiteManager): the history of the memories and
  the last messages of each scope. A method that raises has rolled its transaction back: it is \<open>None\<close>, and the
  database stays as it was. Values are bound as they come; a list or an object cannot be bound. In an order by time rows of the same
  time may stand either way: \<open>place\<close> says where SQLite puts them. \<open>moment\<close> is its \<open>DATETIME(...)\<close>.
\<close>

section \<open>Tables\<close>

record history_row =
  hr_id :: pystr
  hr_memory :: json
  hr_old :: json
  hr_new :: json
  hr_event :: json
  hr_created :: json
  hr_updated :: json
  hr_deleted :: int
  hr_actor :: json
  hr_role :: json
  hr_project :: json

record message_row =
  mr_id :: pystr
  mr_scope :: pystr
  mr_role :: json
  mr_content :: json
  mr_name :: json
  mr_created :: pystr

record history_db =
  hd_history :: "history_row list"
  hd_messages :: "message_row list"

definition bindable :: "json \<Rightarrow> bool" where
  "bindable v = (case v of JArr _ \<Rightarrow> False | JObj _ \<Rightarrow> False | _ \<Rightarrow> True)"

definition history_bindable :: "history_row \<Rightarrow> bool" where
  "history_bindable r =
    list_all bindable [hr_memory r, hr_old r, hr_new r, hr_event r, hr_created r, hr_updated r, hr_actor r, hr_role r, hr_project r]"

section \<open>History\<close>

definition insert_history :: "history_row \<Rightarrow> history_row list \<Rightarrow> history_row list option" where
  "insert_history r hs =
    (if history_bindable r \<and> \<not> list_ex (\<lambda>h. hr_id h = hr_id r) hs then Some (hs @ [r]) else None)"

definition add_history :: "history_db \<Rightarrow> history_row \<Rightarrow> history_db option" where
  "add_history d r = map_option (\<lambda>hs. d\<lparr>hd_history := hs\<rparr>) (insert_history r (hd_history d))"

text \<open>Equality in SQL is never true of a null.\<close>

definition sql_same :: "json \<Rightarrow> json \<Rightarrow> bool" where
  "sql_same v w \<longleftrightarrow> v \<noteq> JNull \<and> v = w"

definition same_event :: "history_row \<Rightarrow> history_row \<Rightarrow> bool" where
  "same_event h r \<longleftrightarrow> sql_same (hr_memory h) (hr_memory r) \<and> sql_same (hr_event h) (hr_event r) \<and> hr_deleted h = hr_deleted r"

definition insert_or_ignore_history :: "history_row \<Rightarrow> history_row list \<Rightarrow> history_row list option" where
  "insert_or_ignore_history r hs =
    (if \<not> history_bindable r then None
     else Some (if list_ex (\<lambda>h. same_event h r \<or> hr_id h = hr_id r) hs then hs else hs @ [r]))"

fun insert_each :: "('r \<Rightarrow> 'r list \<Rightarrow> 'r list option) \<Rightarrow> 'r list \<Rightarrow> 'r list \<Rightarrow> 'r list option" where
  "insert_each ins [] hs = Some hs"
| "insert_each ins (r # rs) hs = (case ins r hs of None \<Rightarrow> None | Some hs' \<Rightarrow> insert_each ins rs hs')"

definition batch_add_history :: "bool \<Rightarrow> history_db \<Rightarrow> history_row list \<Rightarrow> history_db option" where
  "batch_add_history deduplicate d rs =
    map_option (\<lambda>hs. d\<lparr>hd_history := hs\<rparr>)
      (insert_each (if deduplicate then insert_or_ignore_history else insert_history) rs (hd_history d))"

definition null_first :: "json \<Rightarrow> pystr list" where
  "null_first v = (case v of JStr s \<Rightarrow> [s] | _ \<Rightarrow> [])"

definition get_history :: "(pystr \<Rightarrow> nat) \<Rightarrow> (json \<Rightarrow> int list) \<Rightarrow> history_db \<Rightarrow> pystr \<Rightarrow> history_row list" where
  "get_history place moment d memory_id =
    sort_key (\<lambda>r. null_first (hr_created r)) (sort_key (\<lambda>r. moment (hr_updated r)) (sort_key (\<lambda>r. place (hr_id r))
      (filter (\<lambda>r. sql_same (hr_memory r) (JStr memory_id)) (hd_history d))))"

section \<open>Messages\<close>

definition message_bindable :: "message_row \<Rightarrow> bool" where
  "message_bindable r = list_all bindable [mr_role r, mr_content r, mr_name r]"

definition insert_message :: "bool \<Rightarrow> message_row \<Rightarrow> message_row list \<Rightarrow> message_row list option" where
  "insert_message ignore r ms =
    (if \<not> message_bindable r then None
     else if list_ex (\<lambda>m. mr_id m = mr_id r) ms then (if ignore then Some ms else None)
     else Some (ms @ [r]))"

definition message_of :: "pystr \<Rightarrow> pystr \<Rightarrow> pystr \<Rightarrow> node \<Rightarrow> message_row" where
  "message_of scope time i m =
    \<lparr>mr_id = i, mr_scope = scope, mr_role = entry ''role'' m, mr_content = entry ''content'' m, mr_name = entry ''name'' m,
     mr_created = time\<rparr>"

definition newest_first :: "(pystr \<Rightarrow> nat) \<Rightarrow> message_row list \<Rightarrow> message_row list" where
  "newest_first place ms = rev (sort_key mr_created (sort_key (\<lambda>m. place (mr_id m)) ms))"

definition of_scope :: "pystr \<Rightarrow> message_row list \<Rightarrow> message_row list" where
  "of_scope scope ms = filter (\<lambda>m. mr_scope m = scope) ms"

definition evict_messages :: "(pystr \<Rightarrow> nat) \<Rightarrow> pystr \<Rightarrow> message_row list \<Rightarrow> message_row list" where
  "evict_messages place scope ms =
    (let kept = map mr_id (take 10 (newest_first place (of_scope scope ms)))
     in filter (\<lambda>m. \<not> (mr_scope m = scope \<and> mr_id m \<notin> set kept)) ms)"

text \<open>\<open>fresh\<close> are the random ids, used when no ids are given.\<close>

definition save_messages ::
  "(pystr \<Rightarrow> nat) \<Rightarrow> pystr \<Rightarrow> pystr list \<Rightarrow> history_db \<Rightarrow> node list \<Rightarrow> pystr \<Rightarrow> pystr list option \<Rightarrow> history_db option" where
  "save_messages place time fresh d messages scope message_ids =
    (if messages = [] then Some d
     else if (case message_ids of None \<Rightarrow> False | Some ids \<Rightarrow> length ids \<noteq> length messages) then None
     else
       let ids = (case message_ids of None \<Rightarrow> fresh | Some ids \<Rightarrow> ids)
       in map_option (\<lambda>ms. d\<lparr>hd_messages := evict_messages place scope ms\<rparr>)
            (insert_each (insert_message (message_ids \<noteq> None)) (map2 (message_of scope time) ids messages) (hd_messages d)))"

definition get_last_messages :: "(pystr \<Rightarrow> nat) \<Rightarrow> history_db \<Rightarrow> pystr \<Rightarrow> nat \<Rightarrow> message_row list" where
  "get_last_messages place d scope limit =
    sort_key mr_created (sort_key (\<lambda>m. place (mr_id m)) (take limit (newest_first place (of_scope scope (hd_messages d)))))"

section \<open>Projects\<close>

text \<open>\<open>instr(text, part) > 0\<close>\<close>

definition contains_text :: "pystr \<Rightarrow> pystr \<Rightarrow> bool" where
  "contains_text s p = list_ex (\<lambda>i. take (length p) (drop i s) = p) [0..<Suc (length s)]"

definition project_component :: "pystr \<Rightarrow> pystr" where
  "project_component project = U ''&project_id='' @ project @ U ''&''"

definition in_project :: "pystr \<Rightarrow> pystr \<Rightarrow> bool" where
  "in_project project scope = contains_text (U ''&'' @ scope @ U ''&'') (project_component project)"

text \<open>\<open>None\<close> is the \<open>ValueError\<close> of a missing project; the numbers are those of the rows deleted.\<close>

definition delete_project_data :: "history_db \<Rightarrow> pystr \<Rightarrow> pystr list \<Rightarrow> (history_db \<times> nat \<times> nat) option" where
  "delete_project_data d project_id memory_ids =
    (let project = py_strip project_id; ids = dedup (filter (\<lambda>s. s \<noteq> []) memory_ids);
         gone = (\<lambda>r. hr_project r = JStr project \<or> hr_memory r \<in> JStr ` set ids)
     in if project = [] then None
        else Some (\<lparr>hd_history = filter (\<lambda>r. \<not> gone r) (hd_history d),
                    hd_messages = filter (\<lambda>m. \<not> in_project project (mr_scope m)) (hd_messages d)\<rparr>,
                   rowcount gone (hd_history d), rowcount (\<lambda>m. in_project project (mr_scope m)) (hd_messages d)))"

definition empty_history_db :: history_db where
  "empty_history_db = \<lparr>hd_history = [], hd_messages = []\<rparr>"

section \<open>Lemmas\<close>

lemma insert_each_invariant:
  assumes "insert_each ins rs hs = Some hs'" and "P hs"
    and "\<And>r gs gs'. r \<in> set rs \<Longrightarrow> P gs \<Longrightarrow> ins r gs = Some gs' \<Longrightarrow> P gs'"
  shows "P hs'"
  using assms by (induction ins rs hs rule: insert_each.induct) (auto split: option.splits)

lemma contains_text_iff: "contains_text s p \<longleftrightarrow> (\<exists>u v. s = u @ p @ v)"
proof
  assume "contains_text s p"
  then obtain i where "take (length p) (drop i s) = p" by (auto simp: contains_text_def list_ex_iff)
  then have "s = take i s @ p @ drop (length p) (drop i s)" by (metis append_take_drop_id)
  then show "\<exists>u v. s = u @ p @ v" by blast
next
  assume "\<exists>u v. s = u @ p @ v"
  then obtain u v where "s = u @ p @ v" by blast
  then have "take (length p) (drop (length u) s) = p" "length u < Suc (length s)" by simp_all
  then show "contains_text s p" unfolding contains_text_def list_ex_iff by (intro bexI [of _ "length u"]) (simp_all del: upt_Suc)
qed

lemma takeWhile_cut: "c \<notin> set q \<Longrightarrow> takeWhile (\<lambda>x. x \<noteq> c) (q @ c # r) = q"
  by (induction q) auto

text \<open>Between two separators stands a part or several, never a piece of one.\<close>

lemma part_between_separators:
  assumes "c \<notin> set p" and "p \<noteq> []" and "\<forall>q\<in>set ps. c \<notin> set q"
  shows "(\<exists>u v. c # join_with [c] ps @ [c] = u @ (c # p @ [c]) @ v) \<longleftrightarrow> p \<in> set ps"
  using assms(3)
proof (induction ps)
  case Nil
  have "u = []" if "[c, c] = u @ (c # p @ [c]) @ v" for u v
  proof -
    from that have "length [c, c] = length u + length p + 2 + length v" by simp
    with assms(2) show ?thesis by (cases p) auto
  qed
  moreover have "[c, c] \<noteq> c # p @ c # v" for v using assms(1,2) by (cases p) auto
  ultimately show ?case by fastforce
next
  case (Cons q ps)
  let ?rest = "if ps = [] then [c] else c # join_with [c] ps @ [c]"
  have whole: "c # join_with [c] (q # ps) @ [c] = c # q @ ?rest" by (simp add: join_with_Cons)
  have rest: "(\<exists>u v. ?rest = u @ (c # p @ [c]) @ v) \<longleftrightarrow> p \<in> set ps"
  proof (cases "ps = []")
    case True
    have "[c] \<noteq> u @ (c # p @ [c]) @ v" for u v
    proof
      assume "[c] = u @ (c # p @ [c]) @ v"
      then have "length [c] = length (u @ (c # p @ [c]) @ v)" by (rule arg_cong)
      then show False by simp
    qed
    with True show ?thesis by simp
  next
    case False
    with Cons show ?thesis by simp
  qed
  have at_start: "(\<exists>v. c # q @ ?rest = (c # p @ [c]) @ v) \<longleftrightarrow> p = q"
  proof
    assume "\<exists>v. c # q @ ?rest = (c # p @ [c]) @ v"
    then obtain v where "q @ ?rest = p @ c # v" by auto
    moreover have "takeWhile (\<lambda>x. x \<noteq> c) (q @ ?rest) = q" using Cons.prems by (simp add: takeWhile_cut)
    moreover have "takeWhile (\<lambda>x. x \<noteq> c) (p @ c # v) = p" using assms(1) by (simp add: takeWhile_cut)
    ultimately show "p = q" by simp
  next
    assume "p = q"
    then show "\<exists>v. c # q @ ?rest = (c # p @ [c]) @ v" by (auto intro!: exI [of _ "tl ?rest"])
  qed
  have later: "(\<exists>x u v. c # q @ ?rest = (x # u) @ (c # p @ [c]) @ v) \<longleftrightarrow> (\<exists>u v. ?rest = u @ (c # p @ [c]) @ v)"
  proof
    assume "\<exists>x u v. c # q @ ?rest = (x # u) @ (c # p @ [c]) @ v"
    then obtain u v where eq: "q @ ?rest = u @ c # p @ [c] @ v" by auto
    have "length q \<le> length u"
    proof (rule ccontr)
      assume less: "\<not> length q \<le> length u"
      then have "(q @ ?rest) ! length u = q ! length u" by (simp add: nth_append)
      also have "(q @ ?rest) ! length u = c" by (simp only: eq) simp
      finally show False using less Cons.prems nth_mem [of "length u" q] by auto
    qed
    with eq have "?rest = drop (length q) u @ c # p @ [c] @ v"
      by (auto simp: append_eq_append_conv_if)
    then show "\<exists>u v. ?rest = u @ (c # p @ [c]) @ v" by auto
  next
    assume "\<exists>u v. ?rest = u @ (c # p @ [c]) @ v"
    then obtain u v where "?rest = u @ (c # p @ [c]) @ v" by blast
    then have "c # q @ ?rest = (c # q @ u) @ (c # p @ [c]) @ v" by simp
    then show "\<exists>x u v. c # q @ ?rest = (x # u) @ (c # p @ [c]) @ v" by blast
  qed
  have "(\<exists>u v. c # q @ ?rest = u @ (c # p @ [c]) @ v) \<longleftrightarrow>
      (\<exists>v. c # q @ ?rest = (c # p @ [c]) @ v) \<or> (\<exists>x u v. c # q @ ?rest = (x # u) @ (c # p @ [c]) @ v)"
    by (metis append_Nil neq_Nil_conv)
  then show ?case unfolding whole at_start later rest by auto
qed

definition message_ids_distinct :: "history_db \<Rightarrow> bool" where
  "message_ids_distinct d \<longleftrightarrow> distinct (map mr_id (hd_messages d))"

lemma insert_message_distinct:
  "insert_message ignore r ms = Some ms' \<Longrightarrow> distinct (map mr_id ms) \<Longrightarrow> distinct (map mr_id ms')"
  by (auto simp: insert_message_def list_ex_iff split: if_splits) blast

lemma insert_message_other:
  "insert_message ignore r ms = Some ms' \<Longrightarrow> mr_scope r = scope \<Longrightarrow> s \<noteq> scope \<Longrightarrow> of_scope s ms' = of_scope s ms"
  by (auto simp: insert_message_def of_scope_def split: if_splits)

lemma evict_other: "s \<noteq> scope \<Longrightarrow> of_scope s (evict_messages place scope ms) = of_scope s ms"
  by (auto simp: evict_messages_def of_scope_def Let_def intro: filter_cong)

lemma set_newest_first [simp]: "set (newest_first place ms) = set ms"
  by (simp add: newest_first_def)

lemma evict_scope:
  "of_scope scope (evict_messages place scope ms) =
   filter (\<lambda>m. mr_id m \<in> mr_id ` set (take 10 (newest_first place (of_scope scope ms)))) (of_scope scope ms)"
  by (simp add: evict_messages_def of_scope_def Let_def) (rule filter_cong, auto)

lemma evict_bound:
  assumes "distinct (map mr_id ms)"
  shows "length (of_scope scope (evict_messages place scope ms)) \<le> 10"
proof -
  let ?kept = "take 10 (newest_first place (of_scope scope ms))" and ?left = "of_scope scope (evict_messages place scope ms)"
  have "distinct (map mr_id (of_scope scope ms))" using assms by (simp add: of_scope_def distinct_map_filter)
  then have "distinct (map mr_id ?left)" unfolding evict_scope by (rule distinct_map_filter)
  then have "length ?left = card (mr_id ` set ?left)" by (metis distinct_card length_map list.set_map)
  also have "\<dots> \<le> card (mr_id ` set ?kept)" unfolding evict_scope by (intro card_mono) auto
  also have "\<dots> \<le> card (set ?kept)" by (intro card_image_le) simp
  also have "\<dots> \<le> length ?kept" by (rule card_length)
  also have "\<dots> \<le> 10" by simp
  finally show ?thesis .
qed

lemma evict_newest:
  assumes "distinct (map mr_id ms)" and "m \<in> set (of_scope scope (evict_messages place scope ms))"
    and "g \<in> set (of_scope scope ms)" and "g \<notin> set (evict_messages place scope ms)"
  shows "mr_created g \<le> mr_created m"
proof -
  let ?sorted = "newest_first place (of_scope scope ms)"
  have d: "inj_on mr_id (set ms)" using assms(1) by (simp add: distinct_map)
  have scope: "set (of_scope scope ms) \<subseteq> set ms" by (auto simp: of_scope_def)
  from assms(2) obtain k where k: "k \<in> set (take 10 ?sorted)" "mr_id k = mr_id m" and m: "m \<in> set (of_scope scope ms)"
    unfolding evict_scope by auto
  from k(1) have "k \<in> set ms" using scope by (auto dest!: in_set_takeD)
  with k(2) m d scope have "k = m" by (auto dest: inj_onD)
  with k have kept: "m \<in> set (take 10 ?sorted)" by simp
  have "g \<notin> set (take 10 ?sorted)"
    using assms(3,4) by (auto simp: evict_messages_def Let_def of_scope_def)
  moreover have "g \<in> set (take 10 ?sorted @ drop 10 ?sorted)" using assms(3) by simp
  ultimately have dropped: "g \<in> set (drop 10 ?sorted)" by (simp only: set_append Un_iff) simp
  have "sorted_wrt (\<lambda>x y. mr_created y \<le> mr_created x) (rev (sort_key mr_created xs))" for xs :: "message_row list"
    unfolding sorted_wrt_rev using sorted_sort_key [of mr_created xs] by (simp add: sorted_map)
  then have "sorted_wrt (\<lambda>x y. mr_created y \<le> mr_created x) (take 10 ?sorted @ drop 10 ?sorted)"
    by (simp add: newest_first_def)
  with kept dropped show ?thesis unfolding sorted_wrt_append by blast
qed

lemma deleted_count: "rowcount P xs = length xs - length (filter (\<lambda>x. \<not> P x) xs)"
  using sum_length_filter_compl [of P xs] by (simp add: rowcount_def)

section \<open>Properties\<close>

text \<open>C39: Deleting a project's data deletes, as long as no identifier of the scope has an ampersand, exactly the messages of the scopes that have
  the project, however its name resembles another project's or another identifier; and exactly the entries of the history that
  have the project or one of the ids given. The numbers returned are those of the rows that went.\<close>

theorem project_messages_deleted:
  assumes "delete_project_data d project_id ids = Some (d', n, k)" and "38 \<notin> set project_id"
    and "\<forall>key\<in>set session_scope_keys. plain_value (entry key fl)" and "m \<in> set (hd_messages d)"
    and "mr_scope m = build_session_scope text_of fl"
  shows "(m \<in> set (hd_messages d') \<longleftrightarrow> entry ''project_id'' fl \<noteq> JStr (py_strip project_id)) \<and>
    (\<forall>r. r \<in> set (hd_history d') \<longleftrightarrow> r \<in> set (hd_history d) \<and> hr_project r \<noteq> JStr (py_strip project_id) \<and>
       (\<forall>i\<in>set ids. i \<noteq> [] \<longrightarrow> hr_memory r \<noteq> JStr i)) \<and>
    n = length (hd_history d) - length (hd_history d') \<and> k = length (hd_messages d) - length (hd_messages d')"
proof -
  let ?p = "py_strip project_id"
  let ?part = "U ''project_id='' @ ?p"
  have p: "?p \<noteq> []" and d': "m \<in> set (hd_messages d') \<longleftrightarrow> \<not> in_project ?p (mr_scope m)"
    using assms(1,4) by (auto simp: delete_project_data_def Let_def split: if_splits)
  have amp: "38 \<notin> set ?part"
    using assms(2) by (auto simp: py_strip_def U_def dest!: set_dropWhileD)
  have "in_project ?p (mr_scope m) \<longleftrightarrow> (\<exists>u v. 38 # join_with [38] (scope_parts text_of fl) @ [38] = u @ (38 # ?part @ [38]) @ v)"
    by (simp add: in_project_def contains_text_iff project_component_def assms(5) build_session_scope_parts U_def)
  also have "\<dots> \<longleftrightarrow> ?part \<in> set (scope_parts text_of fl)"
    by (rule part_between_separators) (use amp scope_parts_plain [OF assms(3)] in \<open>auto simp: U_def\<close>)
  also have "\<dots> \<longleftrightarrow> entry ''project_id'' fl = JStr ?p"
  proof
    assume "?part \<in> set (scope_parts text_of fl)"
    then obtain key where key: "key \<in> set session_scope_keys" "scope_part text_of fl key = Some ?part"
      by (auto simp: scope_parts_def map_filter_set)
    with scope_part_name [OF key] have "U key = U ''project_id''" by (simp add: U_def)
    then have "key = ''project_id''" by simp
    moreover have "plain_value (entry key fl)" using key assms(3) by blast
    ultimately show "entry ''project_id'' fl = JStr ?p"
      using key(2) by (auto simp: scope_part_def plain_value_def str_of_def U_def split: if_splits json.splits)
  next
    assume "entry ''project_id'' fl = JStr ?p"
    then have "scope_part text_of fl ''project_id'' = Some ?part"
      using p by (simp add: scope_part_def str_of_def U_def)
    then show "?part \<in> set (scope_parts text_of fl)"
      unfolding scope_parts_def map_filter_set
      by (intro CollectI bexI [of _ "''project_id''"]) (simp_all add: session_scope_keys_def)
  qed
  finally have "m \<in> set (hd_messages d') \<longleftrightarrow> entry ''project_id'' fl \<noteq> JStr ?p" using d' by simp
  moreover have "\<forall>r. r \<in> set (hd_history d') \<longleftrightarrow> r \<in> set (hd_history d) \<and> hr_project r \<noteq> JStr ?p \<and>
       (\<forall>i\<in>set ids. i \<noteq> [] \<longrightarrow> hr_memory r \<noteq> JStr i)"
    using assms(1) by (auto simp: delete_project_data_def Let_def split: if_splits)
  moreover have "n = length (hd_history d) - length (hd_history d')" "k = length (hd_messages d) - length (hd_messages d')"
    using assms(1) by (auto simp: delete_project_data_def Let_def deleted_count split: if_splits)
  ultimately show ?thesis by blast
qed

text \<open>Saving messages keeps at most ten of their scope, none older than one it drops, and the messages of other scopes and the
  history as they are.\<close>

theorem saved_messages_bounded:
  assumes "save_messages place time fresh d messages scope message_ids = Some d'" and "messages \<noteq> []"
    and "message_ids_distinct d"
  shows "length (of_scope scope (hd_messages d')) \<le> 10 \<and> message_ids_distinct d' \<and> hd_history d' = hd_history d \<and>
    (\<forall>s. s \<noteq> scope \<longrightarrow> of_scope s (hd_messages d') = of_scope s (hd_messages d)) \<and>
    (\<forall>m g. m \<in> set (of_scope scope (hd_messages d')) \<longrightarrow> g \<in> set (of_scope scope (hd_messages d)) \<longrightarrow>
       g \<notin> set (hd_messages d') \<longrightarrow> mr_created g \<le> mr_created m)"
proof -
  obtain ignore rs ms where ms: "insert_each (insert_message ignore) rs (hd_messages d) = Some ms"
    and d': "d' = d\<lparr>hd_messages := evict_messages place scope ms\<rparr>" and rs: "\<forall>r\<in>set rs. mr_scope r = scope"
    using assms(1,2) by (fastforce simp: save_messages_def Let_def message_of_def split: if_splits option.splits)
  have distinct: "distinct (map mr_id ms)"
    by (rule insert_each_invariant [OF ms])
      (use assms(3) in \<open>auto simp: message_ids_distinct_def intro: insert_message_distinct\<close>)
  have other: "of_scope s ms = of_scope s (hd_messages d)" if "s \<noteq> scope" for s
    by (rule insert_each_invariant [OF ms, where P = "\<lambda>x. of_scope s x = of_scope s (hd_messages d)"])
      (use that rs in \<open>auto dest: insert_message_other\<close>)
  have more: "set (hd_messages d) \<subseteq> set ms"
    by (rule insert_each_invariant [OF ms]) (auto simp: insert_message_def split: if_splits)
  have "mr_created g \<le> mr_created m" if "m \<in> set (of_scope scope (evict_messages place scope ms))"
    "g \<in> set (of_scope scope (hd_messages d))" "g \<notin> set (evict_messages place scope ms)" for m g
  proof (rule evict_newest [OF distinct that(1) _ that(3)])
    show "g \<in> set (of_scope scope ms)" using that(2) more by (auto simp: of_scope_def)
  qed
  moreover have "message_ids_distinct d'"
    using distinct by (simp add: message_ids_distinct_def d' evict_messages_def Let_def distinct_map_filter)
  ultimately show ?thesis using evict_bound [OF distinct, of scope place] other by (simp add: d' evict_other)
qed

definition example_scope :: "string \<Rightarrow> pystr" where
  "example_scope project = build_session_scope (\<lambda>_. []) [(U ''user_id'', JStr (U ''u1'')), (U ''project_id'', JStr (U project))]"

definition example_history :: history_db where
  "example_history =
    \<lparr>hd_history = [],
     hd_messages = [message_of (example_scope ''p1'') (U ''2026'') (U ''a'') [], message_of (example_scope ''p10'') (U ''2026'') (U ''b'') []]\<rparr>"

lemma project_messages_deleted_witness:
  "case delete_project_data example_history (U ''p1'') [] of
     None \<Rightarrow> False
   | Some (d, n, k) \<Rightarrow> k = 1 \<and> message_of (example_scope ''p10'') (U ''2026'') (U ''b'') [] \<in> set (hd_messages d)"
proof -
  let ?m = "message_of (example_scope ''p10'') (U ''2026'') (U ''b'') []"
  let ?fl = "[(U ''user_id'', JStr (U ''u1'')), (U ''project_id'', JStr (U ''p10''))]"
  have "map_option (snd \<circ> snd) (delete_project_data example_history (U ''p1'') []) = Some 1" by code_simp
  then obtain d n where r: "delete_project_data example_history (U ''p1'') [] = Some (d, n, 1)" by auto
  have plain: "\<forall>key\<in>set session_scope_keys. plain_value (entry key ?fl)" by code_simp
  have amp: "38 \<notin> set (U ''p1'')" by (simp add: U_def)
  have "?m \<in> set (hd_messages example_history)" by (simp add: example_history_def)
  moreover have "mr_scope ?m = build_session_scope (\<lambda>_. []) ?fl" by (simp add: message_of_def example_scope_def)
  moreover have "entry ''project_id'' ?fl \<noteq> JStr (py_strip (U ''p1''))" by code_simp
  ultimately have "?m \<in> set (hd_messages d)" using project_messages_deleted [OF r amp plain] by blast
  then show ?thesis by (simp add: r)
qed

lemma saved_messages_bounded_witness:
  "case save_messages (\<lambda>_. 0) (U ''2027'') (map (\<lambda>i. [int i]) [0..<12]) example_history (replicate 12 []) (example_scope ''p1'') None of
     None \<Rightarrow> False
   | Some d \<Rightarrow> length (of_scope (example_scope ''p1'') (hd_messages d)) = 10 \<and> message_ids_distinct d"
proof -
  let ?r = "save_messages (\<lambda>_. 0) (U ''2027'') (map (\<lambda>i. [int i]) [0..<12]) example_history (replicate 12 []) (example_scope ''p1'') None"
  have "map_option (\<lambda>d. length (of_scope (example_scope ''p1'') (hd_messages d))) ?r = Some 10" by code_simp
  then obtain d where r: "?r = Some d" and n: "length (of_scope (example_scope ''p1'') (hd_messages d)) = 10" by auto
  have "message_ids_distinct example_history" by code_simp
  from saved_messages_bounded [OF r _ this] show ?thesis unfolding r using n by simp
qed

text \<open>A user whose name has an ampersand can lose its messages with another project.\<close>

lemma ampersand_messages_deleted:
  "in_project (U ''p1'') (build_session_scope (\<lambda>_. []) [(U ''project_id'', JStr (U ''p2'')), (U ''user_id'', JStr (U ''x&project_id=p1''))])"
  by code_simp

text \<open>A record of the import that is written again, after a failure for instance, is there once.\<close>

lemma repeated_history_once:
  assumes "insert_or_ignore_history r hs = Some hs'" and "hr_memory r \<noteq> JNull" and "hr_event r \<noteq> JNull"
  shows "\<exists>h\<in>set hs'. same_event h r \<or> hr_id h = hr_id r" and "insert_or_ignore_history r hs' = Some hs'"
  using assms by (auto simp: insert_or_ignore_history_def list_ex_iff same_event_def sql_same_def split: if_splits)

end
