(* ===== verification/Mem_Engine.thy ===== *)
theory Mem_Engine
  imports Pg_Store Mem_History
begin

text \<open>
  One memory (mem0/memory/main.py): \<open>_create_memory\<close>, \<open>_update_memory\<close>, \<open>_delete_memory\<close> and the links from
  entities to memories. The vector store and the store of entities are given by their operations, so that all
  of this holds of any store; an operation that fails raises. A method that raises has changed what it changed before: the
  result carries the state with the error. The embedding model, the digests, the lemmatizer, the extraction of entities, the clock
  and random ids are given by the environment.
\<close>

section \<open>State\<close>

record ('s, 'e) memory =
  me_store :: 's
  me_entities :: 'e
  me_entities_open :: bool
  me_db :: history_db
  me_drawn :: nat

record ('s, 'e, 'v) memory_env =
  en_store :: "('s, 'v) store_ops"
  en_entity :: "('e, 'v) store_ops"
  en_union :: "('e \<Rightarrow> pystr \<Rightarrow> string \<Rightarrow> pystr list \<Rightarrow> ('e \<times> bool) option) option"
  en_embed :: "pystr \<Rightarrow> 'v option"
  en_nfkc :: "pystr \<Rightarrow> pystr"
  en_md5 :: "pystr \<Rightarrow> pystr"
  en_lemmatize :: "pystr \<Rightarrow> pystr"
  en_extract :: "pystr \<Rightarrow> (pystr \<times> pystr) list option"
  en_utc :: "json \<Rightarrow> json"
  en_text_of :: "json \<Rightarrow> pystr"
  en_random :: "nat \<Rightarrow> pystr"
  en_now :: pystr

datatype memory_error = StoreFailed | NotFound | NoContent | EmbeddingFailed | HistoryFailed

type_synonym ('s, 'e, 'a) outcome = "('s, 'e) memory \<times> (memory_error + 'a)"

definition drawn :: "('s, 'e, 'v) memory_env \<Rightarrow> ('s, 'e) memory \<Rightarrow> pystr \<times> ('s, 'e) memory" where
  "drawn en m = (en_random en (me_drawn m), m\<lparr>me_drawn := Suc (me_drawn m)\<rparr>)"

section \<open>Payloads\<close>

definition content_hash :: "('s, 'e, 'v) memory_env \<Rightarrow> pystr \<Rightarrow> pystr" where
  "content_hash en data = memory_content_hash (en_nfkc en) (en_md5 en) data"

definition derived_text_payload :: "('s, 'e, 'v) memory_env \<Rightarrow> pystr \<Rightarrow> node \<Rightarrow> node" where
  "derived_text_payload en data n =
    put ''text_lemmatized'' (JStr (en_lemmatize en data))
      (put ''hash'' (JStr (content_hash en data)) (put ''data'' (JStr data) n))"

definition without :: "string \<Rightarrow> node \<Rightarrow> node" where
  "without k n = AList.delete (U k) n"

definition has_key :: "string \<Rightarrow> node \<Rightarrow> bool" where
  "has_key k n \<longleftrightarrow> map_of n (U k) \<noteq> None"

definition stored_memory_matches_hash :: "('s, 'e, 'v) memory_env \<Rightarrow> node option \<Rightarrow> pystr \<Rightarrow> bool" where
  "stored_memory_matches_hash en row h =
    (case row of
       None \<Rightarrow> False
     | Some p \<Rightarrow> text_or (en_text_of en) (entry ''hash'' p) [] = h \<or>
         (case entry ''data'' p of JStr s \<Rightarrow> content_hash en s = h | _ \<Rightarrow> False))"

definition mark_embedding_pending :: "node \<Rightarrow> node" where
  "mark_embedding_pending n = put ''embedding_status'' (JStr (U ''pending'')) n"

definition history_entry :: "pystr \<Rightarrow> pystr \<Rightarrow> json \<Rightarrow> json \<Rightarrow> string \<Rightarrow> json \<Rightarrow> json \<Rightarrow> int \<Rightarrow> node \<Rightarrow> history_row" where
  "history_entry i memory_id old new event created updated deleted p =
    \<lparr>hr_id = i, hr_memory = JStr memory_id, hr_old = old, hr_new = new, hr_event = JStr (U event), hr_created = created,
     hr_updated = updated, hr_deleted = deleted, hr_actor = entry ''actor_id'' p, hr_role = entry ''role'' p,
     hr_project = entry ''project_id'' p\<rparr>"

definition record_history ::
  "('s, 'e, 'v) memory_env \<Rightarrow> (pystr \<Rightarrow> history_row) \<Rightarrow> 'a \<Rightarrow> ('s, 'e) memory \<Rightarrow> ('s, 'e, 'a) outcome" where
  "record_history en row result m =
    (let (i, m1) = drawn en m
     in case add_history (me_db m1) (row i) of
          None \<Rightarrow> (m1, Inl HistoryFailed)
        | Some d \<Rightarrow> (m1\<lparr>me_db := d\<rparr>, Inr result))"

section \<open>Creating\<close>

definition new_payload :: "('s, 'e, 'v) memory_env \<Rightarrow> pystr \<Rightarrow> node \<Rightarrow> node" where
  "new_payload en data md =
    (let n = derived_text_payload en data (without ''_allowed_categories'' md);
         n1 = (if has_key ''created_at'' n then n else put ''created_at'' (JStr (en_now en)) n)
     in put ''updated_at'' (entry ''created_at'' n1) n1)"

text \<open>\<open>known\<close> are the embeddings the caller has, where a missing vector stands for a text that could not be embedded.
  The result is no id when the memory is there already.\<close>

definition create_memory ::
  "('s, 'e, 'v) memory_env \<Rightarrow> pystr \<Rightarrow> (pystr \<times> 'v option) list \<Rightarrow> node \<Rightarrow> pystr option \<Rightarrow> bool \<Rightarrow> ('s, 'e) memory
   \<Rightarrow> ('s, 'e, pystr option) outcome" where
  "create_memory en data known md memory_id skip_if_exists m =
    (case (case map_of known data of Some v \<Rightarrow> Some v | None \<Rightarrow> map_option Some (en_embed en data)) of
       None \<Rightarrow> (m, Inl EmbeddingFailed)
     | Some v \<Rightarrow>
         let (i, m1) = (case memory_id of Some i \<Rightarrow> (i, m) | None \<Rightarrow> drawn en m);
             p = new_payload en data md;
             there = (\<lambda>row. stored_memory_matches_hash en row (content_hash en data));
             looked = (if skip_if_exists then so_get (en_store en) (me_store m1) i else Some None)
         in case looked of
              None \<Rightarrow> (m1, Inl StoreFailed)
            | Some row \<Rightarrow>
                if skip_if_exists \<and> there row then (m1, Inr None)
                else
                  case so_insert (en_store en) (me_store m1) [(i, v, p)] of
                    None \<Rightarrow>
                      (case (if skip_if_exists then so_get (en_store en) (me_store m1) i else Some None) of
                         None \<Rightarrow> (m1, Inl StoreFailed)
                       | Some row2 \<Rightarrow> if skip_if_exists \<and> there row2 then (m1, Inr None) else (m1, Inl StoreFailed))
                  | Some s \<Rightarrow>
                      record_history en (\<lambda>h. history_entry h i JNull (JStr data) ''ADD'' (entry ''created_at'' p) (entry ''updated_at'' p) 0 p)
                        (Some i) (m1\<lparr>me_store := s\<rparr>))"

section \<open>Entities\<close>

definition linked_ids :: "node \<Rightarrow> json" where
  "linked_ids p = (case map_of p (U ''linked_memory_ids'') of None \<Rightarrow> JArr [] | Some v \<Rightarrow> v)"

definition link_texts :: "json list \<Rightarrow> pystr list" where
  "link_texts vs = List.map_filter (\<lambda>v. case v of JStr s \<Rightarrow> if s = [] then None else Some s | _ \<Rightarrow> None) vs"

text \<open>What every operation on the entities has in common: what fails is reported and leaves the entities as they are.\<close>

definition existing_entities_by_text :: "('s, 'e, 'v) memory_env \<Rightarrow> 'e \<Rightarrow> node \<Rightarrow> (pystr \<times> pystr \<times> node) list option" where
  "existing_entities_by_text en e fl =
    map_option (\<lambda>rs. List.map_filter (\<lambda>(i, p). case entry ''data'' p of
        JStr s \<Rightarrow> if normalize_entity_text s = [] then None else Some (normalize_entity_text s, i, p)
      | _ \<Rightarrow> None) rs)
      (so_list (en_entity en) e fl 10000)"

text \<open>\<open>None\<close> is an exception, a false result an entity that has disappeared.\<close>

definition union_entity_linked_memory_ids ::
  "('s, 'e, 'v) memory_env \<Rightarrow> 'e \<Rightarrow> pystr \<Rightarrow> node \<Rightarrow> pystr list \<Rightarrow> ('e \<times> bool) option" where
  "union_entity_linked_memory_ids en e i p memory_ids =
    (let new_ids = sort (dedup (filter (\<lambda>s. s \<noteq> []) memory_ids))
     in if new_ids = [] then Some (e, True)
        else case en_union en of
          Some unite \<Rightarrow> unite e i ''linked_memory_ids'' new_ids
        | None \<Rightarrow>
            (case items_of (linked_ids p) of
               Inl x \<Rightarrow> None
             | Inr vs \<Rightarrow>
                 let old = link_texts vs
                 in if set new_ids \<subseteq> set old then Some (e, True)
                    else map_option (\<lambda>e'. (e', True))
                      (so_update (en_entity en) e i None
                        (put ''linked_memory_ids'' (JArr (map JStr (sort (dedup (old @ new_ids))))) p))))"

definition entity_payload :: "pystr \<Rightarrow> pystr \<Rightarrow> pystr list \<Rightarrow> node \<Rightarrow> node" where
  "entity_payload entity_text entity_type memory_ids fl =
    object_update [(U ''data'', JStr entity_text), (U ''entity_type'', JStr entity_type),
                   (U ''linked_memory_ids'', JArr (map JStr memory_ids))] fl"

text \<open>\<open>exact_match or semantic_match\<close>: the first entity of the same text, or the nearest one when it is near enough.\<close>

definition entity_match :: "pystr \<Rightarrow> (pystr \<times> pystr \<times> node) list \<Rightarrow> hit list \<Rightarrow> (pystr \<times> node) option" where
  "entity_match key exact near =
    (case map_of exact key of
       Some ip \<Rightarrow> Some ip
     | None \<Rightarrow> (case near of
         [] \<Rightarrow> None
       | h # _ \<Rightarrow> if ht_score h \<ge> 95 / 100 then Some (ht_id h, ht_payload h) else None))"

definition upsert_entity ::
  "('s, 'e, 'v) memory_env \<Rightarrow> pystr \<Rightarrow> pystr \<Rightarrow> pystr \<Rightarrow> node \<Rightarrow> ('s, 'e) memory \<Rightarrow> ('s, 'e) memory" where
  "upsert_entity en entity_text entity_type memory_id fl m =
    (case en_embed en entity_text of
       None \<Rightarrow> m
     | Some v \<Rightarrow>
         let m0 = m\<lparr>me_entities_open := True\<rparr>; e = me_entities m; sf = entity_filters fl;
             key = normalize_entity_text entity_text;
             exact = (case existing_entities_by_text en e sf of None \<Rightarrow> [] | Some xs \<Rightarrow> xs);
             near = (if map_of exact key = None then so_search (en_entity en) e v 1 sf else Some [])
         in case near of
              None \<Rightarrow> m0
            | Some hs \<Rightarrow>
                (case entity_match key exact hs of
                   Some (i, p) \<Rightarrow>
                     (case union_entity_linked_memory_ids en e i p [memory_id] of
                        None \<Rightarrow> m0 | Some (e', updated) \<Rightarrow> m0\<lparr>me_entities := e'\<rparr>)
                 | None \<Rightarrow>
                     let (i, m1) = drawn en m0
                     in case so_insert (en_entity en) e [(i, Some v, entity_payload entity_text entity_type [memory_id] sf)] of
                          None \<Rightarrow> m1 | Some e' \<Rightarrow> m1\<lparr>me_entities := e'\<rparr>))"

fun distinct_entities :: "pystr list \<Rightarrow> (pystr \<times> pystr) list \<Rightarrow> (pystr \<times> pystr) list" where
  "distinct_entities seen [] = []"
| "distinct_entities seen ((kind, name) # es) =
    (let key = normalize_entity_text name
     in if key = [] \<or> key \<in> set seen then distinct_entities seen es
        else (kind, name) # distinct_entities (key # seen) es)"

definition link_entities_for_memory ::
  "('s, 'e, 'v) memory_env \<Rightarrow> pystr \<Rightarrow> pystr \<Rightarrow> node \<Rightarrow> ('s, 'e) memory \<Rightarrow> ('s, 'e) memory" where
  "link_entities_for_memory en memory_id data fl m =
    (case en_extract en data of
       None \<Rightarrow> m
     | Some es \<Rightarrow> fold (\<lambda>(kind, name). upsert_entity en name kind memory_id fl) (distinct_entities [] es) m)"

text \<open>Taking a memory away from one entity: an entity without links goes, another one is embedded again and updated.\<close>

definition unlink_entity :: "('s, 'e, 'v) memory_env \<Rightarrow> pystr \<Rightarrow> pystr \<times> node \<Rightarrow> 'e \<Rightarrow> 'e" where
  "unlink_entity en memory_id row e =
    (case linked_ids (snd row) of
       JArr vs \<Rightarrow>
         if JStr memory_id \<notin> set vs then e
         else
           let remaining = filter (\<lambda>v. v \<noteq> JStr memory_id) vs
           in if remaining = [] then (case so_delete (en_entity en) e (fst row) of None \<Rightarrow> e | Some e' \<Rightarrow> e')
              else case entry ''data'' (snd row) of
                JStr s \<Rightarrow>
                  if s = [] then e
                  else (case en_embed en s of
                    None \<Rightarrow> e
                  | Some v \<Rightarrow>
                      (case so_update (en_entity en) e (fst row) (Some v)
                              (put ''linked_memory_ids'' (JArr remaining) (snd row)) of
                         None \<Rightarrow> e | Some e' \<Rightarrow> e'))
              | _ \<Rightarrow> e
     | _ \<Rightarrow> e)"

definition remove_memory_from_entity_store ::
  "('s, 'e, 'v) memory_env \<Rightarrow> pystr \<Rightarrow> node \<Rightarrow> ('s, 'e) memory \<Rightarrow> ('s, 'e) memory" where
  "remove_memory_from_entity_store en memory_id fl m =
    (if \<not> me_entities_open m then m
     else case so_list (en_entity en) (me_entities m) (entity_filters fl) 10000 of
       None \<Rightarrow> m
     | Some rs \<Rightarrow> m\<lparr>me_entities := fold (unlink_entity en memory_id) rs (me_entities m)\<rparr>)"

section \<open>Updating\<close>

text \<open>\<open>{k: payload[k] for k in (...) if payload.get(k)}\<close>\<close>

definition session_filters :: "node \<Rightarrow> node" where
  "session_filters p = List.map_filter (\<lambda>k. if json_truthy (entry k p) then Some (U k, entry k p) else None) entity_keys"

definition updated_payload :: "('s, 'e, 'v) memory_env \<Rightarrow> node \<Rightarrow> pystr \<Rightarrow> node \<Rightarrow> node" where
  "updated_payload en old data md =
    (let n = derived_text_payload en data (without ''_allowed_categories'' (object_update old md));
         n1 = put ''updated_at'' (JStr (en_now en)) (put ''created_at'' (entry ''created_at'' old) n)
     in if has_key ''actor_id'' old then put ''actor_id'' (entry ''actor_id'' old) n1 else n1)"

definition embedding_state :: "'v option \<Rightarrow> bool \<Rightarrow> node \<Rightarrow> node \<Rightarrow> node" where
  "embedding_state v text_changed old n =
    (if v \<noteq> None then without ''embedding_status'' n
     else if text_changed \<or> pending old then mark_embedding_pending n
     else without ''embedding_status'' n)"

text \<open>The vector to be stored: one the caller has, a new one for a new text, none otherwise.\<close>

definition update_embedding ::
  "('s, 'e, 'v) memory_env \<Rightarrow> (pystr \<times> 'v option) list \<Rightarrow> pystr \<Rightarrow> bool \<Rightarrow> 'v option option" where
  "update_embedding en known data text_changed =
    (case map_of known data of
       Some v \<Rightarrow> Some v
     | None \<Rightarrow>
         if text_changed then
           (case en_embed en data of Some v \<Rightarrow> Some (Some v) | None \<Rightarrow> if so_lexical_only (en_store en) then Some None else None)
         else Some None)"

text \<open>The part of \<open>_update_memory\<close> behind its checks.\<close>

definition write_update ::
  "('s, 'e, 'v) memory_env \<Rightarrow> pystr \<Rightarrow> node \<Rightarrow> pystr \<Rightarrow> bool \<Rightarrow> (pystr \<times> 'v option) list \<Rightarrow> node \<Rightarrow> ('s, 'e) memory
   \<Rightarrow> ('s, 'e, pystr) outcome" where
  "write_update en memory_id old s changed known md m =
    (case update_embedding en known s changed of
       None \<Rightarrow> (m, Inl EmbeddingFailed)
     | Some v \<Rightarrow>
         let p = embedding_state v changed old (updated_payload en old s md)
         in (case so_update (en_store en) (me_store m) memory_id v p of
               None \<Rightarrow> (m, Inl StoreFailed)
             | Some s' \<Rightarrow>
                 (case record_history en (\<lambda>h. history_entry h memory_id (entry ''data'' old) (JStr s) ''UPDATE''
                          (entry ''created_at'' p) (entry ''updated_at'' p) 0 p) memory_id (m\<lparr>me_store := s'\<rparr>) of
                    (m1, Inl e) \<Rightarrow> (m1, Inl e)
                  | (m1, Inr i) \<Rightarrow>
                      (if changed
                       then link_entities_for_memory en memory_id s (session_filters p)
                              (remove_memory_from_entity_store en memory_id (session_filters p) m1)
                       else m1, Inr i))))"

definition update_memory ::
  "('s, 'e, 'v) memory_env \<Rightarrow> pystr \<Rightarrow> pystr option \<Rightarrow> (pystr \<times> 'v option) list \<Rightarrow> node \<Rightarrow> ('s, 'e) memory
   \<Rightarrow> ('s, 'e, pystr) outcome" where
  "update_memory en memory_id data known md m =
    (case so_get (en_store en) (me_store m) memory_id of
       None \<Rightarrow> (m, Inl StoreFailed)
     | Some None \<Rightarrow> (m, Inl NotFound)
     | Some (Some old) \<Rightarrow>
         (case (case data of Some s \<Rightarrow> JStr s | None \<Rightarrow> entry ''data'' old) of
            JStr s \<Rightarrow> write_update en memory_id old s (JStr s \<noteq> entry ''data'' old) known md m
          | _ \<Rightarrow> (m, Inl NoContent)))"

section \<open>Deleting\<close>

text \<open>\<open>None\<close> as the known memory makes it be looked up.\<close>

definition delete_memory ::
  "('s, 'e, 'v) memory_env \<Rightarrow> pystr \<Rightarrow> node option \<Rightarrow> ('s, 'e) memory \<Rightarrow> ('s, 'e, pystr) outcome" where
  "delete_memory en memory_id existing m =
    (case (case existing of Some p \<Rightarrow> Some (Some p) | None \<Rightarrow> so_get (en_store en) (me_store m) memory_id) of
       None \<Rightarrow> (m, Inl StoreFailed)
     | Some None \<Rightarrow> (m, Inl NotFound)
     | Some (Some p) \<Rightarrow>
         (case so_delete (en_store en) (me_store m) memory_id of
            None \<Rightarrow> (m, Inl StoreFailed)
          | Some s' \<Rightarrow>
              (case record_history en (\<lambda>h. history_entry h memory_id (if has_key ''data'' p then entry ''data'' p else JStr []) JNull ''DELETE''
                       (en_utc en (entry ''created_at'' p)) (JStr (en_now en)) 1 p) memory_id (m\<lparr>me_store := s'\<rparr>) of
                 (m1, Inl e) \<Rightarrow> (m1, Inl e)
               | (m1, Inr i) \<Rightarrow> (remove_memory_from_entity_store en memory_id (session_filters p) m1, Inr i))))"

text \<open>\<open>delete\<close>: the memory is looked up first.\<close>

definition delete_one :: "('s, 'e, 'v) memory_env \<Rightarrow> pystr \<Rightarrow> ('s, 'e) memory \<Rightarrow> ('s, 'e, pystr) outcome" where
  "delete_one en memory_id m =
    (case so_get (en_store en) (me_store m) memory_id of
       None \<Rightarrow> (m, Inl StoreFailed)
     | Some None \<Rightarrow> (m, Inl NotFound)
     | Some (Some p) \<Rightarrow> delete_memory en memory_id (Some p) m)"

fun delete_each :: "('s, 'e, 'v) memory_env \<Rightarrow> pystr list \<Rightarrow> ('s, 'e) memory \<Rightarrow> ('s, 'e, unit) outcome" where
  "delete_each en [] m = (m, Inr ())"
| "delete_each en (i # is) m =
    (case delete_memory en i None m of (m1, Inl e) \<Rightarrow> (m1, Inl e) | (m1, Inr _) \<Rightarrow> delete_each en is m1)"

text \<open>\<open>delete_all\<close> deletes what the store lists without being told how much; \<open>list_default\<close> is the store's own limit, a hundred for
  PostgreSQL. The identifiers are validated.\<close>

definition delete_all_memories :: "('s, 'e, 'v) memory_env \<Rightarrow> nat \<Rightarrow> (string \<times> pystr option) list \<Rightarrow> ('s, 'e) memory
   \<Rightarrow> ('s, 'e) memory \<times> (memory_error + scope_error option)" where
  "delete_all_memories en list_default ids m =
    (case validate_ids (map (\<lambda>(k, x). (k, opt_str x)) ids) of
       Inl e \<Rightarrow> (m, Inr (Some e))
     | Inr xs \<Rightarrow>
         if put_ids xs [] = [] then (m, Inr (Some NoSession))
         else case so_list (en_store en) (me_store m) (put_ids xs []) list_default of
           None \<Rightarrow> (m, Inl StoreFailed)
         | Some rs \<Rightarrow> (case delete_each en (map fst rs) m of (m1, Inl e) \<Rightarrow> (m1, Inl e) | (m1, Inr _) \<Rightarrow> (m1, Inr None)))"

end
