(* ===== verification/Mem_Extract.thy ===== *)
theory Mem_Extract
  imports Mem_History
begin

text \<open>
  What is taken from a model's answer when a chunk is imported (mem0/memory/main.py, and the reading of answers in
  mem0/memory/utils.py): the answer is parsed, each memory is checked against the messages it cites, and two models may be asked.
  \<open>loads\<close> is \<open>json.loads\<close>, with the message of its error; \<open>alnum\<close> says which characters are letters or digits.
\<close>

section \<open>Reading an answer\<close>

definition code_block_re :: regex where
  "code_block_re =
    seqs [text_start, lit ''```'', many (\<lambda>c. ascii_letter c \<or> ascii_digit c), Sat (\<lambda>c. c = 10),
      Grp 1 (Rep False 0 None (Sat (\<lambda>_. True))), Sat (\<lambda>c. c = 10), lit ''```'', text_end]"

definition think_re :: regex where
  "think_re = seqs [lit ''<think>'', Rep False 0 None (Sat (\<lambda>_. True)), lit ''</think>'']"

definition remove_code_blocks :: "pystr \<Rightarrow> pystr" where
  "remove_code_blocks content =
    (let s = py_strip content
     in py_strip (re_sub think_re (\<lambda>_. []) (case re_match code_block_re s of None \<Rightarrow> s | Some st \<Rightarrow> py_strip (re_group 1 st))))"

definition fence_re :: regex where
  "fence_re =
    seqs [lit ''```'', optional (lit ''json''), many is_space, Grp 1 (Rep False 0 None (Sat (\<lambda>_. True))), many is_space, lit ''```'']"

text \<open>From the first opening brace to the last closing one.\<close>

definition braces :: "pystr \<Rightarrow> pystr" where
  "braces s =
    (let t = dropWhile (\<lambda>c. c \<noteq> 123) s; u = rev (dropWhile (\<lambda>c. c \<noteq> 125) (rev t))
     in if u = [] then s else u)"

definition extract_json :: "pystr \<Rightarrow> pystr" where
  "extract_json text_in =
    (let s = py_strip text_in in case re_search fence_re s of None \<Rightarrow> braces s | Some st \<Rightarrow> re_group 1 st)"

text \<open>An error has a reason and the texts and status codes of the exceptions it comes from, itself first; one that is no
  refusal of the answer escapes as a \<open>TypeError\<close>.\<close>

type_synonym chain = "(int list \<times> pystr) list"

datatype failure = Refused string chain | Unhashable

datatype answer_error = EmptyAnswer | InvalidJson nat pystr | NoJsonObject | NoMemoryField | NoMemoryList | NoMemoryText nat

definition memory_list :: "json \<Rightarrow> answer_error + node list" where
  "memory_list v =
    (case v of
       JObj n \<Rightarrow>
         (case map_of n (U ''memory'') of
            None \<Rightarrow> Inl NoMemoryField
          | Some (JArr vs) \<Rightarrow>
              (case find (\<lambda>(i, w). case w of JObj obj \<Rightarrow> (case entry ''text'' obj of JStr _ \<Rightarrow> False | _ \<Rightarrow> True) | _ \<Rightarrow> True)
                      (enumerate 0 vs) of
                 Some (i, w) \<Rightarrow> Inl (NoMemoryText i)
               | None \<Rightarrow> Inr (map (\<lambda>w. case w of JObj obj \<Rightarrow> obj | _ \<Rightarrow> []) vs))
          | Some _ \<Rightarrow> Inl NoMemoryList)
     | _ \<Rightarrow> Inl NoJsonObject)"

definition parse_extraction_response :: "(pystr \<Rightarrow> pystr + json) \<Rightarrow> json \<Rightarrow> answer_error + node list" where
  "parse_extraction_response loads r =
    (case r of
       JObj n \<Rightarrow> memory_list r
     | JStr s \<Rightarrow>
         (if py_strip s = [] then Inl EmptyAnswer
          else let cleaned = remove_code_blocks s
               in case loads cleaned of
                    Inr v \<Rightarrow> memory_list v
                  | Inl _ \<Rightarrow> (case loads (extract_json cleaned) of
                      Inr v \<Rightarrow> memory_list v | Inl e \<Rightarrow> Inl (InvalidJson (length cleaned) e)))
     | _ \<Rightarrow> Inl EmptyAnswer)"

definition answer_error_text :: "answer_error \<Rightarrow> pystr" where
  "answer_error_text e =
    (case e of
       EmptyAnswer \<Rightarrow> U ''LLM extraction returned an empty response.''
     | InvalidJson n d \<Rightarrow> U ''LLM extraction returned invalid JSON ('' @ decimal n @ U '' characters).''
     | NoJsonObject \<Rightarrow> U ''LLM extraction response must be a JSON object.''
     | NoMemoryField \<Rightarrow> U ''LLM extraction response is missing the 'memory' field.''
     | NoMemoryList \<Rightarrow> U ''LLM extraction response field 'memory' must be a list.''
     | NoMemoryText i \<Rightarrow> U ''LLM extraction memory at index '' @ decimal i @ U '' must contain string field 'text'.'')"

text \<open>The reason is read off the error's text.\<close>

definition answer_reason :: "answer_error \<Rightarrow> string" where
  "answer_reason e =
    (case e of EmptyAnswer \<Rightarrow> ''empty_response'' | InvalidJson n d \<Rightarrow> ''invalid_json'' | NoJsonObject \<Rightarrow> ''invalid_json'' | _ \<Rightarrow> ''invalid_schema'')"

definition answer_failure :: "answer_error \<Rightarrow> failure" where
  "answer_failure e =
    Refused (answer_reason e)
      ([([], U ''Import extraction failed validation: '' @ U (answer_reason e)), ([], answer_error_text e)]
       @ (case e of InvalidJson n d \<Rightarrow> [([], d)] | _ \<Rightarrow> []))"

definition at_index :: "string \<Rightarrow> nat \<Rightarrow> string \<Rightarrow> failure" where
  "at_index reason i what = Refused reason [([], U ''Import extraction memory at index '' @ decimal i @ U '' '' @ U what)]"

section \<open>Messages\<close>

record extraction_source =
  sm_role :: pystr
  sm_content :: pystr
  sm_index :: int

datatype source_error = NoMessages | NoMapping nat | BadIndex nat | DuplicateIndex int | BadRole nat | BadContent nat

fun normalize_sources :: "bool \<Rightarrow> nat \<Rightarrow> int list \<Rightarrow> json list \<Rightarrow> source_error + extraction_source list" where
  "normalize_sources supplied position seen [] = Inr []"
| "normalize_sources supplied position seen (v # vs) =
    (case v of
       JObj n \<Rightarrow>
         (case (if entry ''source_index'' n = JNull \<and> \<not> supplied then JInt (int position) else entry ''source_index'' n) of
            JInt i \<Rightarrow>
              (if i < 0 then Inl (BadIndex position)
               else if i \<in> set seen then Inl (DuplicateIndex i)
               else case (entry ''role'' n, entry ''content'' n) of
                 (JStr r, JStr c) \<Rightarrow>
                   (if py_strip r = [] then Inl (BadRole position)
                    else if py_strip c = [] then Inl (BadContent position)
                    else bind_err (normalize_sources supplied (Suc position) (i # seen) vs)
                      (\<lambda>ms. Inr (\<lparr>sm_role = py_strip r, sm_content = c, sm_index = i\<rparr> # ms)))
               | (JStr r, _) \<Rightarrow> Inl (if py_strip r = [] then BadRole position else BadContent position)
               | _ \<Rightarrow> Inl (BadRole position))
          | _ \<Rightarrow> Inl (BadIndex position))
     | _ \<Rightarrow> Inl (NoMapping position))"

text \<open>The messages of the context, where it has any, or those of the call.\<close>

definition normalize_operation_source_messages :: "json list option \<Rightarrow> json list \<Rightarrow> source_error + extraction_source list" where
  "normalize_operation_source_messages supplied messages =
    (let raw = (case supplied of None \<Rightarrow> messages | Some vs \<Rightarrow> vs)
     in if raw = [] then Inl NoMessages else normalize_sources (supplied \<noteq> None) 0 [] raw)"

text \<open>\<open>None\<close> is the \<open>ValueError\<close> of an index no message has.\<close>

definition operation_core_source_indices :: "int list option \<Rightarrow> extraction_source list \<Rightarrow> (int list \<times> bool) option" where
  "operation_core_source_indices configured ms =
    (let available = map sm_index ms
     in case configured of
          None \<Rightarrow> Some (available, False)
        | Some cs \<Rightarrow>
            if list_ex (\<lambda>i. i \<notin> set available) cs then None
            else let core = filter (\<lambda>i. i \<in> set cs) available in Some (core, length core < length available))"

text \<open>The patterns of an obvious fact, in English and in Chinese.\<close>

definition lit_any :: "string list \<Rightarrow> regex" where
  "lit_any ss = ors (map (\<lambda>s. lit_ci (U s)) ss)"

definition obvious_fact_patterns :: "(int \<Rightarrow> bool) \<Rightarrow> regex list" where
  "obvious_fact_patterns alnum =
    (let codes = (\<lambda>cs. seqs (map (\<lambda>c. Sat (\<lambda>d. d = c)) cs))
     in [seqs [word_edge alnum,
           ors [lit_any [''i am'', ''i'' @ [CHR 0x27] @ ''m'', ''i live'', ''i work'', ''i prefer'', ''i like'', ''i love'', ''i hate'', ''i have'',
                         ''i own'', ''i plan'', ''i intend'', ''i will''],
                seqs [lit_ci (U ''my ''), lit_any [''name'', ''favorite'', ''favourite'', ''job'', ''role'', ''home'', ''birthday''], lit_ci (U '' is'')]],
           word_edge alnum],
         ors [codes [0x6211, 0x53EB], codes [0x6211, 0x662F], codes [0x6211, 0x4F4F, 0x5728],
              seqs [codes [0x6211, 0x5728], Rep True 1 None (Sat any_char), codes [0x5DE5, 0x4F5C]],
              codes [0x6211, 0x559C, 0x6B22], codes [0x6211, 0x7231], codes [0x6211, 0x8BA8, 0x538C], codes [0x6211, 0x6709],
              codes [0x6211, 0x8BA1, 0x5212], codes [0x6211, 0x6253, 0x7B97],
              seqs [codes [0x6211, 0x7684], Rep True 1 None (Sat any_char), codes [0x662F]]],
         seqs [word_edge alnum,
           ors [lit_any [''i recommend'', ''you should''], seqs [lit_ci (U ''the plan ''), lit_any [''is'', ''includes'']]],
           word_edge alnum],
         ors [codes [0x6211, 0x5EFA, 0x8BAE], codes [0x5EFA, 0x8BAE, 0x4F60], codes [0x8BA1, 0x5212, 0x5305, 0x62EC]]])"

definition has_obvious_fact :: "(int \<Rightarrow> bool) \<Rightarrow> extraction_source list \<Rightarrow> bool" where
  "has_obvious_fact alnum ms =
    list_ex (\<lambda>m. sm_role m \<noteq> U ''system'' \<and> list_ex (\<lambda>r. re_search r (sm_content m) \<noteq> None) (obvious_fact_patterns alnum)) ms"

section \<open>Checking memories\<close>

record extraction_options =
  xo_require :: bool
  xo_min_confidence :: rat
  xo_core :: "int list option"
  xo_force :: bool
  xo_force_reason :: "string option"
  xo_audit :: bool
  xo_more_complete :: bool
  xo_obvious :: bool
  xo_primary_label :: pystr
  xo_fallback_label :: pystr

definition filled :: "json \<Rightarrow> bool" where
  "filled v = (case v of JStr s \<Rightarrow> s \<noteq> [] | JArr vs \<Rightarrow> vs \<noteq> [] | JObj n \<Rightarrow> n \<noteq> [] | _ \<Rightarrow> False)"

definition is_conflicted_memory :: "node \<Rightarrow> bool" where
  "is_conflicted_memory n \<longleftrightarrow>
    list_ex (\<lambda>k. entry k n = JBool True \<or> filled (entry k n)) [''conflict'', ''has_conflict'', ''conflicting'', ''conflict_detected''] \<or>
    filled (entry ''conflicts'' n)"

definition number_of :: "json \<Rightarrow> rat option" where
  "number_of v = (case v of JInt i \<Rightarrow> Some (of_int i) | JFloat x \<Rightarrow> Some x | _ \<Rightarrow> None)"

definition ints_of :: "json list \<Rightarrow> int list option" where
  "ints_of vs =
    (if list_all (\<lambda>v. case v of JInt _ \<Rightarrow> True | _ \<Rightarrow> False) vs
     then Some (map (\<lambda>v. case v of JInt i \<Rightarrow> i | _ \<Rightarrow> 0) vs) else None)"

definition field_failure :: "nat \<Rightarrow> node \<Rightarrow> failure option" where
  "field_failure i n =
    (if (case entry ''text'' n of JStr s \<Rightarrow> py_strip s = [] | _ \<Rightarrow> True) then
       Some (at_index ''invalid_schema'' i ''has an invalid text field.'')
     else if (case map_of n (U ''id'') of None \<Rightarrow> False | Some (JStr _) \<Rightarrow> False | _ \<Rightarrow> True) then
       Some (at_index ''invalid_schema'' i ''has an invalid id field.'')
     else case map_of n (U ''attributed_to'') of
       Some (JArr _) \<Rightarrow> Some Unhashable
     | Some (JObj _) \<Rightarrow> Some Unhashable
     | who \<Rightarrow>
         if (case who of None \<Rightarrow> False | Some v \<Rightarrow> v \<noteq> JStr (U ''user'') \<and> v \<noteq> JStr (U ''assistant'')) then
           Some (at_index ''invalid_schema'' i ''has an invalid attributed_to field.'')
         else if (case map_of n (U ''linked_memory_ids'') of
                    None \<Rightarrow> False
                  | Some (JArr vs) \<Rightarrow> list_ex (\<lambda>v. case v of JStr _ \<Rightarrow> False | _ \<Rightarrow> True) vs
                  | _ \<Rightarrow> True) then
           Some (at_index ''invalid_schema'' i ''has invalid linked_memory_ids.'')
         else if is_conflicted_memory n then Some (at_index ''conflict'' i ''contains unresolved conflict.'')
         else None)"

definition checked_confidence :: "extraction_options \<Rightarrow> nat \<Rightarrow> node \<Rightarrow> failure + rat" where
  "checked_confidence xo i n =
    (case number_of (entry ''confidence'' n) of
       None \<Rightarrow> Inl (at_index ''invalid_schema'' i ''is missing numeric confidence.'')
     | Some x \<Rightarrow>
         if x < 0 \<or> 1 < x then Inl (at_index ''invalid_schema'' i ''has confidence outside 0.0 through 1.0.'')
         else if x < xo_min_confidence xo then Inl (at_index ''low_confidence'' i ''is below the confidence threshold.'')
         else Inr x)"

definition usable :: "extraction_source \<Rightarrow> bool" where
  "usable m \<longleftrightarrow> sm_role m \<noteq> U ''system'' \<and> py_strip (sm_content m) \<noteq> []"

definition checked_sources :: "extraction_options \<Rightarrow> extraction_source list \<Rightarrow> nat \<Rightarrow> node \<Rightarrow> failure + int list" where
  "checked_sources xo ms i n =
    (case (if entry ''source_message_indices'' n = JNull \<and> \<not> xo_require xo then JArr [] else entry ''source_message_indices'' n) of
       JArr vs \<Rightarrow>
         (if xo_require xo \<and> vs = [] then Inl (at_index ''missing_evidence'' i ''is missing source evidence.'')
          else case ints_of vs of
            None \<Rightarrow> Inl (at_index ''invalid_schema'' i ''has non-integer source indices.'')
          | Some is \<Rightarrow>
              if \<not> distinct is then Inl (at_index ''invalid_schema'' i ''has duplicate source indices.'')
              else if list_ex (\<lambda>j. j \<notin> sm_index ` set ms) is then
                Inl (at_index ''source_index_out_of_range'' i ''cites an unavailable source index.'')
              else if is \<noteq> [] \<and> \<not> list_ex (\<lambda>j. list_ex (\<lambda>m. sm_index m = j \<and> usable m) ms) is then
                Inl (at_index ''missing_evidence'' i ''cites no usable evidence.'')
              else Inr is)
     | _ \<Rightarrow> Inl (at_index ''missing_evidence'' i ''is missing source evidence.''))"

text \<open>A memory that cites the overlap only is \<open>None\<close>.\<close>

definition check_memory :: "extraction_options \<Rightarrow> extraction_source list \<Rightarrow> int list \<times> bool \<Rightarrow> nat \<Rightarrow> node \<Rightarrow> failure + node option" where
  "check_memory xo ms core i n =
    (case field_failure i n of
       Some f \<Rightarrow> Inl f
     | None \<Rightarrow>
         bind_err (checked_confidence xo i n) (\<lambda>x. bind_err (checked_sources xo ms i n) (\<lambda>is.
           if snd core \<and> set (fst core) \<inter> set is = {} then Inr None
           else Inr (Some (put ''source_message_indices'' (JArr (map JInt is)) (put ''confidence'' (JFloat x)
             (put ''text'' (case entry ''text'' n of JStr s \<Rightarrow> JStr (py_strip s) | v \<Rightarrow> v) n)))))))"

fun check_memories :: "extraction_options \<Rightarrow> extraction_source list \<Rightarrow> int list \<times> bool \<Rightarrow> nat \<Rightarrow> node list \<Rightarrow> failure + node option list" where
  "check_memories xo ms core i [] = Inr []"
| "check_memories xo ms core i (n # ns) =
    bind_err (check_memory xo ms core i n) (\<lambda>x. bind_err (check_memories xo ms core (Suc i) ns) (\<lambda>xs. Inr (x # xs)))"

definition first_none :: "'a option list \<Rightarrow> nat" where
  "first_none xs = length (takeWhile (\<lambda>x. x \<noteq> None) xs)"

definition validate_import_extraction ::
  "(pystr \<Rightarrow> pystr + json) \<Rightarrow> extraction_options \<Rightarrow> extraction_source list \<Rightarrow> int list \<times> bool \<Rightarrow> json \<Rightarrow> failure + node list" where
  "validate_import_extraction loads xo ms core response =
    (case parse_extraction_response loads response of
       Inl e \<Rightarrow> Inl (answer_failure e)
     | Inr ns \<Rightarrow>
         bind_err (check_memories xo ms core 0 ns) (\<lambda>xs.
           let kept = List.map_filter (\<lambda>x. x) xs
           in if None \<in> set xs \<and> kept = [] then Inl (at_index ''missing_core_evidence'' (first_none xs) ''cites only overlap evidence.'')
              else Inr kept))"

section \<open>Choosing between the models\<close>

text \<open>What a model does when it is asked; an exception comes with the chain of its causes.\<close>

datatype answer = NoModel | ModelRaises chain | Answers json

definition is_provider_pressure_exception :: "chain \<Rightarrow> bool" where
  "is_provider_pressure_exception c \<longleftrightarrow>
    list_ex (\<lambda>(codes, s). list_ex (\<lambda>k. k \<in> {408, 429, 502, 503, 504}) codes) c \<or>
    list_ex (\<lambda>marker. contains_text (join_with (U '' | '') (map (lower_text \<circ> snd) (filter (\<lambda>l. py_strip (snd l) \<noteq> []) c))) (U marker))
      [''429'', ''rate limit'', ''too many requests'', ''timed out'', ''timeout'']"

definition run_import_extraction_model ::
  "(pystr \<Rightarrow> pystr + json) \<Rightarrow> extraction_options \<Rightarrow> extraction_source list \<Rightarrow> int list \<times> bool \<Rightarrow> answer \<Rightarrow> failure + node list" where
  "run_import_extraction_model loads xo ms core model =
    (case model of
       NoModel \<Rightarrow> Inl (Refused ''model_unavailable'' [([], U ''Import extraction model is unavailable.'')])
     | ModelRaises c \<Rightarrow> Inl (Refused ''model_error'' (([], U ''Import extraction model call failed.'') # c))
     | Answers r \<Rightarrow> validate_import_extraction loads xo ms core r)"

definition run_model ::
  "(pystr \<Rightarrow> pystr + json) \<Rightarrow> (int \<Rightarrow> bool) \<Rightarrow> extraction_options \<Rightarrow> extraction_source list \<Rightarrow> int list \<times> bool \<Rightarrow> answer \<Rightarrow> failure + node list" where
  "run_model loads alnum xo ms core model =
    bind_err (run_import_extraction_model loads xo ms core model) (\<lambda>ns.
      if xo_obvious xo \<and> has_obvious_fact alnum ms \<and> ns = [] then
        Inl (Refused ''empty_obvious_fact'' [([], U ''Import extraction returned no memories despite an obvious fact.'')])
      else Inr ns)"

definition cited_ints :: "node \<Rightarrow> int list" where
  "cited_ints n = (case entry ''source_message_indices'' n of
     JArr vs \<Rightarrow> List.map_filter (\<lambda>v. case v of JInt i \<Rightarrow> Some i | _ \<Rightarrow> None) vs | _ \<Rightarrow> [])"

definition extraction_quality :: "node list \<Rightarrow> nat \<times> nat \<times> rat" where
  "extraction_quality ns =
    (length (dedup (concat (map cited_ints ns))), length ns,
     sum_list (map (\<lambda>n. case number_of (entry ''confidence'' n) of Some x \<Rightarrow> x | None \<Rightarrow> 0) ns))"

definition better :: "nat \<times> nat \<times> rat \<Rightarrow> nat \<times> nat \<times> rat \<Rightarrow> bool" where
  "better q r \<longleftrightarrow>
    (case (q, r) of ((a, b, c), (a', b', c')) \<Rightarrow> a' < a \<or> a = a' \<and> (b' < b \<or> b = b' \<and> c' < c))"

definition audit_summary :: "node list \<Rightarrow> json" where
  "audit_summary ns =
    (case extraction_quality ns of (coverage, count, total_confidence) \<Rightarrow>
       JObj [(U ''memory_count'', JInt (int count)), (U ''source_coverage'', JInt (int coverage)),
             (U ''average_confidence'', JFloat (if count = 0 then 0 else total_confidence / of_nat count))])"

record extraction_report =
  er_model :: "pystr option"
  er_reason :: "string option"
  er_audit :: "string option"
  er_metadata :: node
  er_pressure :: bool

definition reset_results :: extraction_report where
  "reset_results = \<lparr>er_model = None, er_reason = None, er_audit = None, er_metadata = [], er_pressure = False\<rparr>"

datatype extraction_error = ModelFailed failure | ExtractionError string

definition flag :: "string \<Rightarrow> bool \<Rightarrow> pystr \<times> json" where "flag k b = (U k, JBool b)"
definition remark :: "string \<Rightarrow> string \<Rightarrow> pystr \<times> json" where "remark k s = (U k, JStr (U s))"

definition forced_extraction ::
  "(answer \<Rightarrow> failure + node list) \<Rightarrow> extraction_options \<Rightarrow> answer option \<Rightarrow> extraction_report \<times> (extraction_error + node list)" where
  "forced_extraction run xo fallback =
    (case fallback of
       None \<Rightarrow> (reset_results, Inl (ExtractionError ''force_fallback requires fallback_llm in MemoryOperationContext.''))
     | Some fb \<Rightarrow>
         let r = reset_results\<lparr>er_model := Some (xo_fallback_label xo),
               er_reason := Some (case xo_force_reason xo of None \<Rightarrow> ''forced_fallback'' | Some w \<Rightarrow> if w = [] then ''forced_fallback'' else w)\<rparr>
         in case run fb of
              Inl f \<Rightarrow> (r, Inl (ModelFailed f))
            | Inr ns \<Rightarrow>
                (if xo_audit xo
                 then r\<lparr>er_audit := Some ''forced_fallback'', er_metadata := [flag ''primary_valid'' False, flag ''fallback_valid'' True,
                   (U ''fallback'', audit_summary ns), (U ''selected_model'', JStr (xo_fallback_label xo))]\<rparr>
                 else r, Inr ns))"

text \<open>The primary model's answer was refused.\<close>

definition fallback_extraction ::
  "(answer \<Rightarrow> failure + node list) \<Rightarrow> extraction_options \<Rightarrow> answer option \<Rightarrow> string \<Rightarrow> chain
   \<Rightarrow> extraction_report \<times> (extraction_error + node list)" where
  "fallback_extraction run xo fallback reason c =
    (let r = reset_results\<lparr>er_model := Some (xo_primary_label xo), er_reason := Some (''primary_'' @ reason),
               er_pressure := is_provider_pressure_exception c\<rparr>
     in case fallback of
          None \<Rightarrow> (r, Inl (ModelFailed (Refused reason c)))
        | Some fb \<Rightarrow>
            let r1 = r\<lparr>er_model := Some (xo_fallback_label xo)\<rparr>
            in case run fb of
                 Inl Unhashable \<Rightarrow> (r1, Inl (ModelFailed Unhashable))
               | Inl (Refused reason2 c2) \<Rightarrow>
                   (if xo_audit xo
                    then r1\<lparr>er_audit := Some ''fallback_invalid'', er_metadata := [flag ''primary_valid'' False, flag ''fallback_valid'' False,
                      remark ''primary_failure'' reason, remark ''fallback_failure'' reason2, (U ''selected_model'', JNull)]\<rparr>
                    else r1, Inl (ExtractionError ''Fallback import extraction failed validation.''))
               | Inr ns \<Rightarrow>
                   (if xo_audit xo
                    then r1\<lparr>er_audit := Some ''primary_invalid_fallback_selected'', er_metadata := [flag ''primary_valid'' False,
                      flag ''fallback_valid'' True, remark ''primary_failure'' reason, (U ''fallback'', audit_summary ns),
                      (U ''selected_model'', JStr (xo_fallback_label xo))]\<rparr>
                    else r1, Inr ns))"

text \<open>The primary model's answer is valid, and is compared with the other's.\<close>

definition audited_extraction ::
  "(answer \<Rightarrow> failure + node list) \<Rightarrow> extraction_options \<Rightarrow> answer option \<Rightarrow> node list \<Rightarrow> extraction_report \<times> (extraction_error + node list)" where
  "audited_extraction run xo fallback ns =
    (let r = reset_results\<lparr>er_model := Some (xo_primary_label xo)\<rparr>
     in case fallback of
          None \<Rightarrow> (r, Inl (ExtractionError ''audit requires fallback_llm in MemoryOperationContext.''))
        | Some fb \<Rightarrow>
            (case run fb of
               Inl Unhashable \<Rightarrow> (r, Inl (ModelFailed Unhashable))
             | Inl (Refused reason c) \<Rightarrow>
                 (r\<lparr>er_pressure := is_provider_pressure_exception c, er_audit := Some ''fallback_invalid'',
                    er_metadata := [flag ''primary_valid'' True, flag ''fallback_valid'' False, (U ''primary'', audit_summary ns),
                      remark ''fallback_failure'' reason, (U ''selected_model'', JStr (xo_primary_label xo))]\<rparr>, Inr ns)
             | Inr fs \<Rightarrow>
                 let more = better (extraction_quality fs) (extraction_quality ns); taken = xo_more_complete xo \<and> more;
                     r1 = r\<lparr>er_metadata := [flag ''primary_valid'' True, flag ''fallback_valid'' True, (U ''primary'', audit_summary ns),
                       (U ''fallback'', audit_summary fs), flag ''fallback_more_complete'' more,
                       (U ''selected_model'', JStr (if taken then xo_fallback_label xo else xo_primary_label xo))]\<rparr>
                 in if taken then
                      (r1\<lparr>er_model := Some (xo_fallback_label xo), er_reason := Some ''audit_more_complete'',
                          er_audit := Some ''fallback_selected''\<rparr>, Inr fs)
                    else (r1\<lparr>er_audit := Some (if more then ''fallback_more_complete_not_selected'' else ''primary_kept'')\<rparr>, Inr ns)))"

definition extract_import_memories ::
  "(answer \<Rightarrow> failure + node list) \<Rightarrow> extraction_options \<Rightarrow> answer \<Rightarrow> answer option \<Rightarrow> extraction_report \<times> (extraction_error + node list)" where
  "extract_import_memories run xo primary fallback =
    (if xo_force xo then forced_extraction run xo fallback
     else case run primary of
       Inl Unhashable \<Rightarrow> (reset_results, Inl (ModelFailed Unhashable))
     | Inl (Refused reason c) \<Rightarrow> fallback_extraction run xo fallback reason c
     | Inr ns \<Rightarrow>
         if xo_audit xo then audited_extraction run xo fallback ns
         else (reset_results\<lparr>er_model := Some (xo_primary_label xo)\<rparr>, Inr ns))"

section \<open>Lemmas\<close>

lemma ints_of_Some: "ints_of vs = Some cs \<longleftrightarrow> vs = map JInt cs"
proof
  assume "ints_of vs = Some cs"
  then have all: "list_all (\<lambda>v. case v of JInt _ \<Rightarrow> True | _ \<Rightarrow> False) vs"
    and cs: "cs = map (\<lambda>v. case v of JInt i \<Rightarrow> i | _ \<Rightarrow> 0) vs" by (auto simp: ints_of_def split: if_splits)
  from all show "vs = map JInt cs" unfolding cs by (induction vs) (auto split: json.splits)
next
  assume "vs = map JInt cs"
  then show "ints_of vs = Some cs" by (auto simp: ints_of_def list_all_iff comp_def)
qed

definition grounded :: "extraction_options \<Rightarrow> extraction_source list \<Rightarrow> int list \<times> bool \<Rightarrow> node \<Rightarrow> bool" where
  "grounded xo ms core n \<longleftrightarrow>
    (\<exists>s x cs. entry ''text'' n = JStr s \<and> py_strip s = s \<and> s \<noteq> [] \<and>
      entry ''confidence'' n = JFloat x \<and> xo_min_confidence xo \<le> x \<and> 0 \<le> x \<and> x \<le> 1 \<and>
      entry ''source_message_indices'' n = JArr (map JInt cs) \<and> distinct cs \<and> set cs \<subseteq> sm_index ` set ms \<and>
      (xo_require xo \<longrightarrow> cs \<noteq> []) \<and> (cs \<noteq> [] \<longrightarrow> (\<exists>m\<in>set ms. sm_index m \<in> set cs \<and> usable m)) \<and>
      (snd core \<longrightarrow> set (fst core) \<inter> set cs \<noteq> {}) \<and> \<not> is_conflicted_memory n)"

lemma checked_confidence_ok: "checked_confidence xo i n = Inr x \<Longrightarrow> xo_min_confidence xo \<le> x \<and> 0 \<le> x \<and> x \<le> 1"
  by (auto simp: checked_confidence_def split: option.splits if_splits)

lemma checked_sources_ok:
  assumes "checked_sources xo ms i n = Inr cs"
  shows "distinct cs \<and> set cs \<subseteq> sm_index ` set ms \<and> (xo_require xo \<longrightarrow> cs \<noteq> []) \<and>
    (cs \<noteq> [] \<longrightarrow> (\<exists>m\<in>set ms. sm_index m \<in> set cs \<and> usable m))"
  using assms by (auto simp: checked_sources_def list_ex_iff ints_of_Some split: json.splits if_splits option.splits)

lemma field_ok: 
  assumes "field_failure i n = None"
  shows "(\<exists>s. entry ''text'' n = JStr s \<and> py_strip s \<noteq> []) \<and> \<not> is_conflicted_memory n"
proof -
  have "\<exists>s. entry ''text'' n = JStr s \<and> py_strip s \<noteq> []"
    using assms by (cases "entry ''text'' n") (simp_all add: field_failure_def split: if_split_asm)
  moreover have "is_conflicted_memory n \<Longrightarrow> field_failure i n \<noteq> None"
    by (simp add: field_failure_def split: option.split json.split)
  ultimately show ?thesis using assms by blast
qed

lemma is_conflicted_put:
  "is_conflicted_memory (put ''text'' v n) = is_conflicted_memory n"
  "is_conflicted_memory (put ''confidence'' v n) = is_conflicted_memory n"
  "is_conflicted_memory (put ''source_message_indices'' v n) = is_conflicted_memory n"
  by (simp_all add: is_conflicted_memory_def entry_put)

lemma check_memory_grounded:
  assumes "check_memory xo ms core i n = Inr (Some p)"
  shows "grounded xo ms core p"
proof -
  obtain x cs where f: "field_failure i n = None" and x: "checked_confidence xo i n = Inr x"
    and cs: "checked_sources xo ms i n = Inr cs" and over: "snd core \<Longrightarrow> set (fst core) \<inter> set cs \<noteq> {}"
    and p: "p = put ''source_message_indices'' (JArr (map JInt cs)) (put ''confidence'' (JFloat x)
             (put ''text'' (case entry ''text'' n of JStr s \<Rightarrow> JStr (py_strip s) | v \<Rightarrow> v) n))"
    using assms by (auto simp: check_memory_def err_simps split: option.splits if_splits)
  obtain s where s: "entry ''text'' n = JStr s" "py_strip s \<noteq> []" and ok: "\<not> is_conflicted_memory n" using field_ok [OF f] by blast
  show ?thesis unfolding grounded_def
    by (rule exI [of _ "py_strip s"], rule exI [of _ x], rule exI [of _ "cs"])
      (use checked_confidence_ok [OF x] checked_sources_ok [OF cs] over ok s in \<open>simp add: p entry_put is_conflicted_put\<close>)
qed

lemma check_memories_grounded:
  "check_memories xo ms core i ns = Inr xs \<Longrightarrow> Some p \<in> set xs \<Longrightarrow> grounded xo ms core p"
  by (induction xo ms core i ns arbitrary: xs rule: check_memories.induct) (auto simp: err_simps dest: check_memory_grounded)

section \<open>Properties\<close>

text \<open>C12: Whatever a model answers, the memories taken from it are well formed and grounded: each has a text and a confidence of at least
  what is asked for, cites distinct messages that are there, one of them usable, and, where the chunk repeats earlier messages,
  one that is the chunk's own.\<close>

theorem accepted_memories_grounded:
  assumes "run_model loads alnum xo ms core model = Inr ns" and "n \<in> set ns"
  shows "grounded xo ms core n"
proof -
  obtain r where "validate_import_extraction loads xo ms core r = Inr ns"
    using assms(1)
    by (auto simp: run_model_def run_import_extraction_model_def err_simps split: answer.splits if_splits)
  then obtain i ps xs where "check_memories xo ms core i ps = Inr xs" and "ns = List.map_filter (\<lambda>x. x) xs"
    by (auto simp: validate_import_extraction_def err_simps Let_def split: sum.splits if_splits)
  with assms(2) show ?thesis by (auto simp: map_filter_set dest: check_memories_grounded)
qed


section \<open>Examples\<close>

definition example_sources :: "extraction_source list" where
  "example_sources =
    [\<lparr>sm_role = U ''user'', sm_content = U ''I like tea'', sm_index = 3\<rparr>, \<lparr>sm_role = U ''assistant'', sm_content = U ''Noted'', sm_index = 4\<rparr>]"

definition example_extraction :: extraction_options where
  "example_extraction =
    \<lparr>xo_require = True, xo_min_confidence = 1 / 2, xo_core = Some [4], xo_force = False, xo_force_reason = None, xo_audit = False,
     xo_more_complete = False, xo_obvious = False, xo_primary_label = U ''primary'', xo_fallback_label = U ''fallback''\<rparr>"

definition example_answer :: "int list \<Rightarrow> answer" where
  "example_answer cited =
    Answers (JObj [(U ''memory'', JArr [JObj [(U ''text'', JStr (U '' Likes tea'')), (U ''confidence'', JInt 1),
      (U ''source_message_indices'', JArr (map JInt cited))]])])"

definition example_run :: "answer \<Rightarrow> failure + node list" where
  "example_run = run_model (\<lambda>_. Inl []) (\<lambda>_. True) example_extraction example_sources ([4], True)"

lemma accepted_memories_grounded_witness:
  "case example_run (example_answer [3, 4]) of
     Inl f \<Rightarrow> False | Inr ns \<Rightarrow> length ns = 1 \<and> list_all (grounded example_extraction example_sources ([4], True)) ns"
proof -
  have "map_sum (\<lambda>f. ()) length (example_run (example_answer [3, 4])) = Inr 1" by code_simp
  then obtain ns where r: "example_run (example_answer [3, 4]) = Inr ns" and n: "length ns = 1"
    by (cases "example_run (example_answer [3, 4])") auto
  from accepted_memories_grounded [OF r [unfolded example_run_def]] n show ?thesis by (simp add: r list_all_iff)
qed



section \<open>What the code does not do\<close>

text \<open>A memory attributed to a list or an object is no refused answer: the error escapes, and the fallback is not asked.\<close>

lemma unhashable_attribution_escapes:
  "run primary = Inl Unhashable \<Longrightarrow> \<not> xo_force xo \<Longrightarrow>
   snd (extract_import_memories run xo primary fallback) = Inl (ModelFailed Unhashable)"
  by (simp add: extract_import_memories_def)

text \<open>An answer of 429 characters that is no JSON counts as pressure of the provider.\<close>

lemma length_taken_for_pressure:
  "(case answer_failure (InvalidJson 429 []) of Refused reason c \<Rightarrow> is_provider_pressure_exception c | Unhashable \<Rightarrow> False)"
  by code_simp

end
