(* ===== verification/Mem_Import.thy ===== *)
theory Mem_Import
  imports Mem_Engine Mem_Extract
begin

text \<open>
  Adding the memories of an imported chunk (mem0/memory/main.py: \<open>_add_to_vector_store_with_operation_context\<close> and what it calls).
  The context of the operation has its callbacks: the guard that raises once the worker has lost its lease, the claim of a
  memory's hash, the check of the capacity and the choice of ids. What the guard answers may change from call to call, so it is a
  function of the number of calls before; so is the claim. What the two models answer is a function of the memories found. The timing of the phases and the wording
  of the prompt are left out.
\<close>

section \<open>Categories\<close>

definition item_text :: "(json \<Rightarrow> pystr) \<Rightarrow> json \<Rightarrow> pystr" where
  "item_text text_of v = text_or text_of v []"

definition category_match_key :: "(json \<Rightarrow> pystr) \<Rightarrow> json \<Rightarrow> pystr" where
  "category_match_key text_of v =
    join_with (U '' '') (py_split (lower_text (map (\<lambda>c. if c = 95 \<or> c = 45 then 32 else c) (item_text text_of v))))"

fun distinct_categories :: "(pystr \<Rightarrow> pystr) \<Rightarrow> pystr list \<Rightarrow> pystr list \<Rightarrow> pystr list" where
  "distinct_categories canon seen [] = []"
| "distinct_categories canon seen (s # ss) =
    (let c = (if s = [] then [] else canon s)
     in if c = [] \<or> c \<in> set seen then distinct_categories canon seen ss
        else c # distinct_categories canon (c # seen) ss)"

definition normalize_memory_categories :: "(json \<Rightarrow> pystr) \<Rightarrow> json \<Rightarrow> json list \<Rightarrow> pystr list" where
  "normalize_memory_categories text_of v allowed =
    (case v of
       JNull \<Rightarrow> []
     | JBool _ \<Rightarrow> []
     | _ \<Rightarrow>
         let raw = (case v of JArr vs \<Rightarrow> vs | _ \<Rightarrow> [v]);
             table = rev (map (\<lambda>w. (category_match_key text_of w, py_strip (str_of text_of w)))
               (filter (\<lambda>w. py_strip (item_text text_of w) \<noteq> []) allowed));
             canon = (if allowed = [] then (\<lambda>s. s)
               else (\<lambda>s. case map_of table (category_match_key text_of (JStr s)) of None \<Rightarrow> [] | Some c \<Rightarrow> c))
         in distinct_categories canon [] (map (\<lambda>w. py_strip (item_text text_of w)) raw))"

definition own_categories :: "(json \<Rightarrow> pystr) \<Rightarrow> node \<Rightarrow> json list \<Rightarrow> pystr list" where
  "own_categories text_of n allowed =
    normalize_memory_categories text_of (json_or (entry ''categories'' n) (entry ''category'' n)) allowed"

definition allowed_categories :: "(json \<Rightarrow> pystr) \<Rightarrow> node \<Rightarrow> json list" where
  "allowed_categories text_of md = map JStr (normalize_memory_categories text_of (entry ''_allowed_categories'' md) [])"

section \<open>The operation\<close>

record 'v import_context =
  ic_options :: extraction_options
  ic_sources :: "json list option"
  ic_strict :: bool
  ic_guard :: "nat \<Rightarrow> bool"
  ic_claim :: "(nat \<Rightarrow> pystr \<Rightarrow> bool option) option"
  ic_room :: "nat \<Rightarrow> bool"
  ic_id :: "(pystr \<Rightarrow> json) option"
  ic_ask :: "hit list \<Rightarrow> answer \<times> answer option"
  ic_loads :: "pystr \<Rightarrow> pystr + json"
  ic_dumps :: "json \<Rightarrow> pystr"
  ic_alnum :: "int \<Rightarrow> bool"
  ic_uuid5 :: "pystr \<Rightarrow> pystr"
  ic_sha256 :: "pystr \<Rightarrow> pystr"
  ic_parse :: "json list \<Rightarrow> pystr"
  ic_embed_batch :: "pystr list \<Rightarrow> 'v option list option"
  ic_extract_batch :: "pystr list \<Rightarrow> (pystr \<times> pystr) list list option"
  ic_place :: "pystr \<Rightarrow> nat"

datatype import_error =
    LostLease
  | BadSources source_error
  | UnknownCore
  | NoExtraction extraction_error
  | NoVectors
  | NoStore
  | NoEntities
  | NoHistory
  | NoRoom
  | BadClaim
  | BadId

text \<open>The state of the memory, how often the guard and the claim were called, and the hashes claimed, which the caller gives back after a failure.\<close>

record ('s, 'e) import_state =
  is_memory :: "('s, 'e) memory"
  is_guards :: nat
  is_claims :: nat
  is_claimed :: "pystr list"

type_synonym ('s, 'e, 'a) import_outcome = "('s, 'e) import_state \<times> (import_error + 'a)"

definition and_next :: "('s, 'e, 'a) import_outcome \<Rightarrow> ('a \<Rightarrow> ('s, 'e) import_state \<Rightarrow> ('s, 'e, 'b) import_outcome) \<Rightarrow> ('s, 'e, 'b) import_outcome" where
  "and_next r f = (case r of (st, Inl e) \<Rightarrow> (st, Inl e) | (st, Inr x) \<Rightarrow> f x st)"

definition guard :: "'v import_context \<Rightarrow> ('s, 'e) import_state \<Rightarrow> ('s, 'e, unit) import_outcome" where
  "guard ic st =
    (st\<lparr>is_guards := Suc (is_guards st)\<rparr>, if ic_guard ic (is_guards st) then Inr () else Inl LostLease)"

definition raise_if :: "bool \<Rightarrow> import_error \<Rightarrow> ('s, 'e) import_state \<Rightarrow> ('s, 'e, unit) import_outcome" where
  "raise_if c e st = (st, if c then Inl e else Inr ())"

section \<open>Selecting\<close>

text \<open>An extracted memory is taken unless its hash is among those of the memories found, was taken before, or is claimed by someone else.\<close>

definition memory_text :: "node \<Rightarrow> pystr" where
  "memory_text n = text_entry ''text'' n"

definition claim_hash :: "'v import_context \<Rightarrow> pystr \<Rightarrow> ('s, 'e) import_state \<Rightarrow> ('s, 'e, bool) import_outcome" where
  "claim_hash ic h st =
    (case ic_claim ic of
       None \<Rightarrow> (st, Inr True)
     | Some claim \<Rightarrow>
         and_next (guard ic st) (\<lambda>_ st1.
           let st2 = st1\<lparr>is_claims := Suc (is_claims st1)\<rparr>
           in case claim (is_claims st1) h of
                None \<Rightarrow> (st2, Inl BadClaim)
              | Some True \<Rightarrow> (st2\<lparr>is_claimed := is_claimed st2 @ [h]\<rparr>, Inr True)
              | Some False \<Rightarrow> (st2, Inr False)))"

fun select_memories ::
  "'v import_context \<Rightarrow> (pystr \<Rightarrow> pystr) \<Rightarrow> pystr list \<Rightarrow> node list \<Rightarrow> ('s, 'e) import_state
   \<Rightarrow> ('s, 'e, (node \<times> pystr) list) import_outcome" where
  "select_memories ic md5 seen [] st = (st, Inr [])"
| "select_memories ic md5 seen (n # ns) st =
    (let h = md5 (memory_text n)
     in if h \<in> set seen then select_memories ic md5 seen ns st
        else and_next (claim_hash ic h st) (\<lambda>mine st1.
          and_next (select_memories ic md5 (h # seen) ns st1) (\<lambda>rest st2.
            (st2, Inr (if mine then (n, h) # rest else rest)))))"

definition found_hashes :: "(json \<Rightarrow> pystr) \<Rightarrow> hit list \<Rightarrow> pystr list" where
  "found_hashes text_of hs =
    List.map_filter (\<lambda>h. case entry ''hash'' (ht_payload h) of JStr s \<Rightarrow> if s = [] then None else Some s | _ \<Rightarrow> None) hs"

section \<open>Records\<close>

type_synonym 'v memory_record = "pystr \<times> pystr \<times> 'v \<times> node"

definition link_names :: "hit list \<Rightarrow> json \<Rightarrow> json" where
  "link_names hs v =
    (case v of JStr s \<Rightarrow> (case map_of (map (\<lambda>(i, h). (decimal i, ht_id h)) (enumerate 0 hs)) s of Some i \<Rightarrow> JStr i | None \<Rightarrow> v) | _ \<Rightarrow> v)"

definition record_payload ::
  "('s, 'e, 'v) memory_env \<Rightarrow> hit list \<Rightarrow> node \<Rightarrow> node \<Rightarrow> pystr \<Rightarrow> node" where
  "record_payload en hs md n h =
    (let p0 = put ''confidence'' (entry ''confidence'' n) (put ''source_message_indices'' (entry ''source_message_indices'' n)
            (put ''hash'' (JStr h) (put ''text_lemmatized'' (JStr (en_lemmatize en (memory_text n)))
              (put ''data'' (JStr (memory_text n)) (without ''_allowed_categories'' md)))));
         p1 = (if has_key ''created_at'' p0 then p0 else put ''created_at'' (JStr (en_now en)) p0);
         p2 = put ''updated_at'' (entry ''created_at'' p1) p1;
         p3 = (if json_truthy (entry ''attributed_to'' n) then put ''attributed_to'' (entry ''attributed_to'' n) p2 else p2);
         p4 = (case entry ''linked_memory_ids'' n of
                 JArr (v # vs) \<Rightarrow> put ''linked_memory_ids'' (JArr (map (link_names hs) (v # vs))) p3 | _ \<Rightarrow> p3);
         cs = own_categories (en_text_of en) n (allowed_categories (en_text_of en) md)
     in if cs = [] then p4 else put ''categories'' (JArr (map JStr cs)) p4)"

definition record_id :: "'v import_context \<Rightarrow> ('s, 'e, 'v) memory_env \<Rightarrow> pystr \<Rightarrow> ('s, 'e) import_state \<Rightarrow> ('s, 'e, pystr) import_outcome" where
  "record_id ic en h st =
    (case ic_id ic of
       None \<Rightarrow> (case drawn en (is_memory st) of (i, m) \<Rightarrow> (st\<lparr>is_memory := m\<rparr>, Inr i))
     | Some f \<Rightarrow> (case f h of JStr s \<Rightarrow> (st, if py_strip s = [] then Inl BadId else Inr (py_strip s)) | _ \<Rightarrow> (st, Inl BadId)))"

fun build_records ::
  "'v import_context \<Rightarrow> ('s, 'e, 'v) memory_env \<Rightarrow> hit list \<Rightarrow> node \<Rightarrow> pystr list \<Rightarrow> ((node \<times> pystr) \<times> 'v) list \<Rightarrow> ('s, 'e) import_state
   \<Rightarrow> ('s, 'e, 'v memory_record list) import_outcome" where
  "build_records ic en hs md used [] st = (st, Inr [])"
| "build_records ic en hs md used (((n, h), v) # rest) st =
    and_next (record_id ic en h st) (\<lambda>i st1.
      if i \<in> set used then (st1, Inl BadId)
      else and_next (build_records ic en hs md (i # used) rest st1) (\<lambda>rs st2.
        (st2, Inr ((i, memory_text n, v, record_payload en hs md n h) # rs))))"

text \<open>All vectors at once, or one by one; a single missing one is an error.\<close>

definition import_vectors :: "'v import_context \<Rightarrow> ('s, 'e, 'v) memory_env \<Rightarrow> pystr list \<Rightarrow> 'v list option" where
  "import_vectors ic en ss =
    (let vs = (case ic_embed_batch ic ss of Some vs \<Rightarrow> vs | None \<Rightarrow> map (en_embed en) ss)
     in if length vs \<noteq> length ss \<or> None \<in> set vs then None else Some (map the vs))"

section \<open>Writing\<close>

definition insert_records :: "('s, 'e, 'v) memory_env \<Rightarrow> 'v memory_record list \<Rightarrow> 's \<Rightarrow> 's option" where
  "insert_records en rs s = so_insert (en_store en) s (map (\<lambda>(i, d, v, p). (i, Some v, p)) rs)"

fun insert_one_by_one ::
  "'v import_context \<Rightarrow> ('s, 'e, 'v) memory_env \<Rightarrow> 'v memory_record list \<Rightarrow> ('s, 'e) import_state \<Rightarrow> ('s, 'e) import_state \<times> 'v memory_record list" where
  "insert_one_by_one ic en [] st = (st, [])"
| "insert_one_by_one ic en (r # rs) st =
    (case guard ic st of
       (st1, Inl e) \<Rightarrow> insert_one_by_one ic en rs st1
     | (st1, Inr _) \<Rightarrow>
         (case insert_records en [r] (me_store (is_memory st1)) of
            None \<Rightarrow> insert_one_by_one ic en rs st1
          | Some s \<Rightarrow> (case insert_one_by_one ic en rs (st1\<lparr>is_memory := (is_memory st1)\<lparr>me_store := s\<rparr>\<rparr>) of
              (st2, kept) \<Rightarrow> (st2, r # kept))))"

text \<open>The guard is inside the \<open>try\<close>: without the strict mode its exception too leads to the records being tried one by one.\<close>

definition persist_records ::
  "'v import_context \<Rightarrow> ('s, 'e, 'v) memory_env \<Rightarrow> 'v memory_record list \<Rightarrow> ('s, 'e) import_state \<Rightarrow> ('s, 'e, 'v memory_record list) import_outcome" where
  "persist_records ic en rs st =
    (let (st1, g) = guard ic st
     in case g of
          Inl e \<Rightarrow> if ic_strict ic then (st1, Inl e)
                   else (case insert_one_by_one ic en rs st1 of (st2, kept) \<Rightarrow> (st2, Inr kept))
        | Inr _ \<Rightarrow>
            (case insert_records en rs (me_store (is_memory st1)) of
               Some s \<Rightarrow> (st1\<lparr>is_memory := (is_memory st1)\<lparr>me_store := s\<rparr>\<rparr>, Inr rs)
             | None \<Rightarrow> if ic_strict ic then (st1, Inl NoStore)
                       else (case insert_one_by_one ic en rs st1 of (st2, kept) \<Rightarrow> (st2, Inr kept))))"

definition import_history_row :: "'v import_context \<Rightarrow> 'v memory_record \<Rightarrow> history_row" where
  "import_history_row ic r =
    (case r of (i, d, v, p) \<Rightarrow>
      \<lparr>hr_id = ic_uuid5 ic (U ''mem0:import-history:add:'' @ i), hr_memory = JStr i, hr_old = JNull, hr_new = JStr d, hr_event = JStr (U ''ADD''),
       hr_created = entry ''created_at'' p, hr_updated = JNull, hr_deleted = 0, hr_actor = JNull, hr_role = JNull,
       hr_project = entry ''project_id'' p\<rparr>)"

definition text_field :: "('s, 'e, 'v) memory_env \<Rightarrow> string \<Rightarrow> node \<Rightarrow> pystr" where
  "text_field en k md = text_or (en_text_of en) (entry k md) []"

text \<open>The ids of the messages: by their place in the conversation, their text and, for equal ones, their number; or, without a
  conversation, by the key of the import.\<close>

definition message_fingerprint :: "'v import_context \<Rightarrow> extraction_source \<Rightarrow> pystr" where
  "message_fingerprint ic m =
    ic_sha256 ic (ic_dumps ic (JObj [(U ''content'', JStr (sm_content m)), (U ''role'', JStr (py_strip (sm_role m)))]))"

fun import_message_ids_from ::
  "'v import_context \<Rightarrow> ('s, 'e, 'v) memory_env \<Rightarrow> node \<Rightarrow> pystr \<Rightarrow> nat \<Rightarrow> (int \<times> pystr) list \<Rightarrow> extraction_source list \<Rightarrow> pystr list" where
  "import_message_ids_from ic en md scope position seen [] = []"
| "import_message_ids_from ic en md scope position seen (m # ms) =
    (let conversation = text_field en ''conversation_id'' md; fp = message_fingerprint ic m;
         occurrence = length (filter (\<lambda>k. k = (sm_index m, fp)) seen);
         name = (if conversation \<noteq> [] then
             U ''mem0:import-message:v2:'' @ ic_dumps ic (JObj
               [(U ''conversation_id'', JStr conversation), (U ''message_fingerprint'', JStr fp), (U ''occurrence'', JInt (int occurrence)),
                (U ''project_id'', JStr (text_field en ''project_id'' md)), (U ''source_app'', JStr (text_field en ''source_app'' md)),
                (U ''source_index'', JInt (sm_index m)), (U ''source_path'', JStr (text_field en ''source_path'' md))])
           else U ''mem0:import-message:'' @ scope @ U '':'' @ text_field en ''import_key'' md @ U '':'' @ decimal position)
     in ic_uuid5 ic name # import_message_ids_from ic en md scope (Suc position) ((sm_index m, fp) # seen) ms)"

definition import_message_ids ::
  "'v import_context \<Rightarrow> ('s, 'e, 'v) memory_env \<Rightarrow> node \<Rightarrow> pystr \<Rightarrow> extraction_source list \<Rightarrow> pystr list option" where
  "import_message_ids ic en md scope ms =
    (if text_field en ''import_key'' md = [] then None else Some (import_message_ids_from ic en md scope 0 [] ms))"

definition source_node :: "extraction_source \<Rightarrow> node" where
  "source_node m = [(U ''role'', JStr (sm_role m)), (U ''content'', JStr (sm_content m)), (U ''source_index'', JInt (sm_index m))]"

definition save_import_messages ::
  "'v import_context \<Rightarrow> ('s, 'e, 'v) memory_env \<Rightarrow> node \<Rightarrow> pystr \<Rightarrow> extraction_source list \<Rightarrow> ('s, 'e) import_state \<Rightarrow> ('s, 'e, unit) import_outcome" where
  "save_import_messages ic en md scope ms st =
    and_next (guard ic st) (\<lambda>_ st1.
      let m = is_memory st1; fresh = map (\<lambda>i. en_random en (me_drawn m + i)) [0..<length ms];
          m1 = m\<lparr>me_drawn := me_drawn m + length ms\<rparr>
      in case save_messages (ic_place ic) (en_now en) fresh (me_db m) (map source_node ms) scope (import_message_ids ic en md scope ms) of
           None \<Rightarrow> (st1\<lparr>is_memory := m1\<rparr>, Inl NoHistory)
         | Some d \<Rightarrow> (st1\<lparr>is_memory := m1\<lparr>me_db := d\<rparr>\<rparr>, Inr ()))"

section \<open>Entities\<close>

text \<open>The entities of all texts, each key once, in the order in which they come up, with the memories they occur in.\<close>

definition add_entity :: "pystr \<Rightarrow> pystr \<times> pystr \<Rightarrow> (pystr \<times> pystr \<times> pystr \<times> pystr list) list \<Rightarrow> (pystr \<times> pystr \<times> pystr \<times> pystr list) list" where
  "add_entity memory_id e found =
    (let key = normalize_entity_text (snd e)
     in if key = [] then found
        else if key \<in> fst ` set found then
          map (\<lambda>(k, kind, name, ids). if k = key then (k, kind, name, if memory_id \<in> set ids then ids else ids @ [memory_id]) else (k, kind, name, ids)) found
        else found @ [(key, fst e, snd e, [memory_id])])"

definition global_entities :: "'v memory_record list \<Rightarrow> (pystr \<times> pystr) list list \<Rightarrow> (pystr \<times> pystr \<times> pystr \<times> pystr list) list" where
  "global_entities rs ess = fold (\<lambda>(r, es) found. fold (add_entity (fst r)) es found) (zip rs ess) []"

text \<open>The guard is called before the write, so not where there is nothing to write.\<close>

definition union_writes :: "('s, 'e, 'v) memory_env \<Rightarrow> node \<Rightarrow> pystr list \<Rightarrow> bool" where
  "union_writes en p ids =
    (filter (\<lambda>s. s \<noteq> []) ids \<noteq> [] \<and>
     (en_union en \<noteq> None \<or>
      (case items_of (linked_ids p) of Inl x \<Rightarrow> False | Inr vs \<Rightarrow> \<not> set (filter (\<lambda>s. s \<noteq> []) ids) \<subseteq> set (link_texts vs))))"

definition unite_entity ::
  "'v import_context \<Rightarrow> ('s, 'e, 'v) memory_env \<Rightarrow> pystr \<Rightarrow> node \<Rightarrow> pystr list \<Rightarrow> ('s, 'e) import_state \<Rightarrow> ('s, 'e, unit) import_outcome" where
  "unite_entity ic en i p ids st =
    and_next (if union_writes en p ids then guard ic st else (st, Inr ())) (\<lambda>_ st1.
      if union_writes en p ids then
        (case union_entity_linked_memory_ids en (me_entities (is_memory st1)) i p ids of
           None \<Rightarrow> (st1, Inl NoEntities)
         | Some (e, updated) \<Rightarrow>
             (st1\<lparr>is_memory := (is_memory st1)\<lparr>me_entities := e\<rparr>\<rparr>, if updated then Inr () else Inl NoEntities))
      else (st1, if union_entity_linked_memory_ids en (me_entities (is_memory st1)) i p ids = None then Inl NoEntities else Inr ()))"

type_synonym 'v found_entity = "(pystr \<times> pystr \<times> pystr \<times> pystr list) \<times> 'v"

fun link_matches ::
  "'v import_context \<Rightarrow> ('s, 'e, 'v) memory_env \<Rightarrow> (pystr \<times> pystr \<times> node) list \<Rightarrow> ('v found_entity \<times> hit list) list
   \<Rightarrow> ('s, 'e) import_state \<Rightarrow> ('s, 'e, 'v found_entity list) import_outcome" where
  "link_matches ic en exact [] st = (st, Inr [])"
| "link_matches ic en exact ((((key, kind, name, ids), v), near) # rest) st =
    (case entity_match key exact near of
       None \<Rightarrow> and_next (link_matches ic en exact rest st) (\<lambda>new st1. (st1, Inr (((key, kind, name, ids), v) # new)))
     | Some (i, p) \<Rightarrow> and_next (unite_entity ic en i p ids st) (\<lambda>_ st1. link_matches ic en exact rest st1))"

text \<open>\<open>search_batch\<close> searches for one after the other.\<close>

fun search_batch :: "('e, 'v) store_ops \<Rightarrow> 'e \<Rightarrow> node \<Rightarrow> 'v list \<Rightarrow> hit list list option" where
  "search_batch ops e fl [] = Some []"
| "search_batch ops e fl (v # vs) =
    (case so_search ops e v 1 fl of
       None \<Rightarrow> None
     | Some hs \<Rightarrow> (case search_batch ops e fl vs of None \<Rightarrow> None | Some hss \<Rightarrow> Some (hs # hss)))"

definition new_entity :: "'v import_context \<Rightarrow> node \<Rightarrow> 'v found_entity \<Rightarrow> pystr \<times> 'v option \<times> node" where
  "new_entity ic fl f =
    (case f of ((key, kind, name, ids), v) \<Rightarrow>
      (ic_uuid5 ic (U ''mem0:import-entity:'' @ ic_dumps ic (JObj fl) @ U '':'' @ key), Some v, entity_payload name kind (sort ids) fl))"

definition insert_entities ::
  "'v import_context \<Rightarrow> ('s, 'e, 'v) memory_env \<Rightarrow> node \<Rightarrow> 'v found_entity list \<Rightarrow> ('s, 'e) import_state \<Rightarrow> ('s, 'e, unit) import_outcome" where
  "insert_entities ic en fl new st =
    (if new = [] then (st, Inr ())
     else and_next (guard ic st) (\<lambda>_ st1.
       case so_insert (en_entity en) (me_entities (is_memory st1)) (map (new_entity ic fl) new) of
         None \<Rightarrow> (st1, Inl NoEntities)
       | Some e \<Rightarrow> (st1\<lparr>is_memory := (is_memory st1)\<lparr>me_entities := e\<rparr>\<rparr>, Inr ())))"

definition process_import_entities ::
  "'v import_context \<Rightarrow> ('s, 'e, 'v) memory_env \<Rightarrow> node \<Rightarrow> 'v memory_record list \<Rightarrow> ('s, 'e) import_state \<Rightarrow> ('s, 'e, unit) import_outcome" where
  "process_import_entities ic en fl rs st =
    (case ic_extract_batch ic (map (\<lambda>(i, d, v, p). d) rs) of
       None \<Rightarrow> (st, Inl NoEntities)
     | Some ess \<Rightarrow>
         if length ess \<noteq> length rs then (st, Inl NoEntities)
         else
           let found = global_entities rs ess
           in if found = [] then (st, Inr ())
              else case import_vectors ic en (map (\<lambda>(k, kind, name, ids). name) found) of
                None \<Rightarrow> (st, Inl NoVectors)
              | Some vs \<Rightarrow>
                  let st1 = st\<lparr>is_memory := (is_memory st)\<lparr>me_entities_open := True\<rparr>\<rparr>; e = me_entities (is_memory st1)
                  in case (existing_entities_by_text en e fl, search_batch (en_entity en) e fl vs) of
                       (Some exact, Some near) \<Rightarrow>
                         and_next (link_matches ic en exact (zip (zip found vs) near) st1) (\<lambda>new st2. insert_entities ic en fl new st2)
                     | _ \<Rightarrow> (st1, Inl NoEntities))"

section \<open>The whole operation\<close>

definition import_history ::
  "'v import_context \<Rightarrow> 'v memory_record list \<Rightarrow> ('s, 'e) import_state \<Rightarrow> ('s, 'e, unit) import_outcome" where
  "import_history ic rs st =
    and_next (guard ic st) (\<lambda>_ st1.
      case batch_add_history True (me_db (is_memory st1)) (map (import_history_row ic) rs) of
        None \<Rightarrow> (st1, Inl NoHistory)
      | Some d \<Rightarrow> (st1\<lparr>is_memory := (is_memory st1)\<lparr>me_db := d\<rparr>\<rparr>, Inr ()))"

definition complete_import_side_effects ::
  "'v import_context \<Rightarrow> ('s, 'e, 'v) memory_env \<Rightarrow> node \<Rightarrow> node \<Rightarrow> extraction_source list \<Rightarrow> 'v memory_record list
   \<Rightarrow> ('s, 'e) import_state \<Rightarrow> ('s, 'e, unit) import_outcome" where
  "complete_import_side_effects ic en fl md ms rs st =
    and_next (import_history ic rs st) (\<lambda>_ st1.
    and_next (process_import_entities ic en (scope_filters fl) rs st1) (\<lambda>_ st2.
      save_import_messages ic en md (build_session_scope (en_text_of en) fl) ms st2))"

text \<open>From the memories the models gave to the records stored.\<close>

definition store_extracted ::
  "'v import_context \<Rightarrow> ('s, 'e, 'v) memory_env \<Rightarrow> node \<Rightarrow> node \<Rightarrow> extraction_source list \<Rightarrow> hit list \<Rightarrow> node list
   \<Rightarrow> ('s, 'e) import_state \<Rightarrow> ('s, 'e, 'v memory_record list) import_outcome" where
  "store_extracted ic en fl md ms hs ns st =
    (let scope = build_session_scope (en_text_of en) fl
     in and_next (select_memories ic (en_md5 en) (found_hashes (en_text_of en) hs) ns st) (\<lambda>chosen st1.
        if chosen = [] then and_next (save_import_messages ic en md scope ms st1) (\<lambda>_ st2. (st2, Inr []))
        else and_next (raise_if (\<not> ic_room ic (length chosen)) NoRoom st1) (\<lambda>_ st2.
          case import_vectors ic en (map (memory_text \<circ> fst) chosen) of
            None \<Rightarrow> (st2, Inl NoVectors)
          | Some vs \<Rightarrow>
              and_next (build_records ic en hs md [] (zip chosen vs) st2) (\<lambda>rs st3.
              and_next (persist_records ic en rs st3) (\<lambda>kept st4.
                if kept = [] then and_next (save_import_messages ic en md scope ms st4) (\<lambda>_ st5. (st5, Inr []))
                else and_next (complete_import_side_effects ic en fl md ms kept st4) (\<lambda>_ st5. (st5, Inr kept)))))))"

definition add_with_operation_context ::
  "'v import_context \<Rightarrow> ('s, 'e, 'v) memory_env \<Rightarrow> json list \<Rightarrow> node \<Rightarrow> node \<Rightarrow> ('s, 'e) memory \<Rightarrow> ('s, 'e, 'v memory_record list) import_outcome" where
  "add_with_operation_context ic en messages md fl m =
    (let st = \<lparr>is_memory = m, is_guards = 0, is_claims = 0, is_claimed = []\<rparr>
     in case normalize_operation_source_messages (ic_sources ic) messages of
          Inl e \<Rightarrow> (st, Inl (BadSources e))
        | Inr ms \<Rightarrow>
            (case operation_core_source_indices (xo_core (ic_options ic)) ms of
               None \<Rightarrow> (st, Inl UnknownCore)
             | Some core \<Rightarrow>
                 (case en_embed en (ic_parse ic messages) of
                    None \<Rightarrow> (st, Inl NoVectors)
                  | Some q \<Rightarrow>
                      (case so_search (en_store en) (me_store m) q 10 (scope_filters fl) of
                         None \<Rightarrow> (st, Inl NoStore)
                       | Some hs \<Rightarrow>
                           (case snd (extract_import_memories (run_model (ic_loads ic) (ic_alnum ic) (ic_options ic) ms core)
                                       (ic_options ic) (fst (ic_ask ic hs)) (snd (ic_ask ic hs))) of
                              Inl e \<Rightarrow> (st, Inl (NoExtraction e))
                            | Inr ns \<Rightarrow> store_extracted ic en fl md ms hs ns st)))))"

text \<open>\<open>_format_added_memory\<close>\<close>

definition format_added_memory :: "('s, 'e, 'v) memory_env \<Rightarrow> 'w memory_record \<Rightarrow> node" where
  "format_added_memory en r =
    (case r of (i, d, v, p) \<Rightarrow>
      let n0 = [(U ''id'', JStr i), (U ''memory'', JStr d), (U ''event'', JStr (U ''ADD''))]; cs = own_categories (en_text_of en) p [];
          n1 = (if cs = [] then n0 else put ''categories'' (JArr (map JStr cs)) n0);
          n2 = (case entry ''source_message_indices'' p of JArr vs \<Rightarrow> put ''source_message_indices'' (JArr vs) n1 | _ \<Rightarrow> n1)
      in case number_of (entry ''confidence'' p) of None \<Rightarrow> n2 | Some x \<Rightarrow> put ''confidence'' (JFloat x) n2)"

end
