(* ===== verification/Mem_Engine_Laws.thy ===== *)
theory Mem_Engine_Laws
  imports Mem_Engine
begin

text \<open>
  What holds of the memory over any vector store that keeps its contract, and so over PostgreSQL's: the history tells
  what is stored, an update keeps a memory's origin, what is deleted is unlinked.
\<close>

section \<open>The history follows the store\<close>

definition last_entry :: "history_db \<Rightarrow> pystr \<Rightarrow> history_row option" where
  "last_entry d i = find (\<lambda>r. hr_memory r = JStr i) (rev (hd_history d))"

definition entry_agrees :: "node option \<Rightarrow> history_row option \<Rightarrow> bool" where
  "entry_agrees row e =
    (case row of
       Some p \<Rightarrow> (case e of None \<Rightarrow> False | Some r \<Rightarrow> hr_new r = entry ''data'' p \<and> hr_deleted r = 0)
     | None \<Rightarrow> (case e of None \<Rightarrow> True | Some r \<Rightarrow> hr_new r = JNull \<and> hr_deleted r = 1))"

definition history_follows :: "(pystr \<Rightarrow> node option) \<Rightarrow> history_db \<Rightarrow> bool" where
  "history_follows rows d \<longleftrightarrow> (\<forall>i. entry_agrees (rows i) (last_entry d i))"

lemma last_entry_append:
  "last_entry (d\<lparr>hd_history := hd_history d @ [r]\<rparr>) i = (if hr_memory r = JStr i then Some r else last_entry d i)"
  by (simp add: last_entry_def)

lemma record_history_cases:
  assumes "record_history en row x m = (m', y)"
  obtains (recorded) h where "y = Inr x" "hr_id (row h) = h \<Longrightarrow> True"
      "m' = m\<lparr>me_drawn := Suc (me_drawn m), me_db := (me_db m)\<lparr>hd_history := hd_history (me_db m) @ [row h]\<rparr>\<rparr>"
  | (failed) "y = Inl HistoryFailed" "m' = m\<lparr>me_drawn := Suc (me_drawn m)\<rparr>"
  using assms
  by (auto simp: record_history_def drawn_def add_history_def insert_history_def split: option.splits if_splits)

lemma history_entry_sel [simp]:
  "hr_memory (history_entry h i a b ev c u dl p) = JStr i" "hr_new (history_entry h i a b ev c u dl p) = b"
  "hr_deleted (history_entry h i a b ev c u dl p) = dl" "hr_old (history_entry h i a b ev c u dl p) = a"
  "hr_id (history_entry h i a b ev c u dl p) = h"
  by (simp_all add: history_entry_def)

lemma history_follows_append:
  assumes "history_follows rows d" and "hr_memory r = JStr i" and "entry_agrees v (Some r)"
  shows "history_follows (rows(i := v)) (d\<lparr>hd_history := hd_history d @ [r]\<rparr>)"
  using assms by (auto simp: history_follows_def last_entry_append)

lemma map_of_without: "map_of (without k n) = (map_of n)(U k := None)"
  by (simp add: without_def delete_conv')

lemma entry_without: "entry j (without k n) = (if j = k then JNull else entry j n)"
  by (simp add: entry_def map_of_without)

lemma entry_derived:
  "entry ''data'' (derived_text_payload en s n) = JStr s"
  "entry ''hash'' (derived_text_payload en s n) = JStr (content_hash en s)"
  "k \<notin> {''data'', ''hash'', ''text_lemmatized''} \<Longrightarrow> entry k (derived_text_payload en s n) = entry k n"
  by (auto simp: derived_text_payload_def entry_put)

lemma entry_new_payload:
  "entry ''data'' (new_payload en s md) = JStr s"
  "entry ''hash'' (new_payload en s md) = JStr (content_hash en s)"
  by (simp_all add: new_payload_def Let_def entry_put entry_derived)

lemma entry_updated_payload:
  "entry ''data'' (updated_payload en old s md) = JStr s"
  "entry ''hash'' (updated_payload en old s md) = JStr (content_hash en s)"
  "entry ''created_at'' (updated_payload en old s md) = entry ''created_at'' old"
  "has_key ''actor_id'' old \<Longrightarrow> entry ''actor_id'' (updated_payload en old s md) = entry ''actor_id'' old"
  by (simp_all add: updated_payload_def Let_def entry_put entry_derived)

lemma entry_embedding_state:
  "k \<noteq> ''embedding_status'' \<Longrightarrow> entry k (embedding_state v c old n) = entry k n"
  by (simp add: embedding_state_def mark_embedding_pending_def entry_without entry_put)

lemma unlink_keeps [simp]:
  "me_store (remove_memory_from_entity_store en i fl m) = me_store m"
  "me_db (remove_memory_from_entity_store en i fl m) = me_db m"
  by (auto simp: remove_memory_from_entity_store_def split: option.splits)

lemma upsert_keeps: "me_store (upsert_entity en name kind i fl m) = me_store m \<and> me_db (upsert_entity en name kind i fl m) = me_db m"
  by (auto simp: upsert_entity_def Let_def drawn_def split: option.splits)

lemma link_keeps [simp]:
  "me_store (link_entities_for_memory en i s fl m) = me_store m"
  "me_db (link_entities_for_memory en i s fl m) = me_db m"
proof -
  have "me_store (fold (\<lambda>(kind, name). upsert_entity en name kind i fl) es m) = me_store m \<and>
      me_db (fold (\<lambda>(kind, name). upsert_entity en name kind i fl) es m) = me_db m" for es
    by (induction es arbitrary: m) (auto simp: upsert_keeps)
  then show "me_store (link_entities_for_memory en i s fl m) = me_store m"
    "me_db (link_entities_for_memory en i s fl m) = me_db m"
    by (auto simp: link_entities_for_memory_def split: option.splits)
qed

section \<open>Sequences of operations\<close>

datatype 'v memory_call =
    Create pystr "(pystr \<times> 'v option) list" node "pystr option" bool
  | Update pystr "pystr option" "(pystr \<times> 'v option) list" node
  | Delete pystr

definition memory_step :: "('s, 'e, 'v) memory_env \<Rightarrow> 'v memory_call \<Rightarrow> ('s, 'e) memory \<Rightarrow> ('s, 'e, unit) outcome" where
  "memory_step en c m =
    (case c of
       Create data known md i skip \<Rightarrow>
         (case create_memory en data known md i skip m of (m', Inl e) \<Rightarrow> (m', Inl e) | (m', Inr _) \<Rightarrow> (m', Inr ()))
     | Update i data known md \<Rightarrow>
         (case update_memory en i data known md m of (m', Inl e) \<Rightarrow> (m', Inl e) | (m', Inr _) \<Rightarrow> (m', Inr ()))
     | Delete i \<Rightarrow>
         (case delete_one en i m of (m', Inl e) \<Rightarrow> (m', Inl e) | (m', Inr _) \<Rightarrow> (m', Inr ())))"

text \<open>The state after a sequence of calls, whatever each of them returns, and the errors on the way.\<close>

fun memory_run :: "('s, 'e, 'v) memory_env \<Rightarrow> 'v memory_call list \<Rightarrow> ('s, 'e) memory \<Rightarrow> ('s, 'e) memory \<times> memory_error list" where
  "memory_run en [] m = (m, [])"
| "memory_run en (c # cs) m =
    (case memory_step en c m of
       (m1, r) \<Rightarrow> (case memory_run en cs m1 of (m2, es) \<Rightarrow> (m2, (case r of Inl e \<Rightarrow> e # es | Inr _ \<Rightarrow> es))))"

definition consistent :: "('s \<Rightarrow> pystr \<Rightarrow> node option) \<Rightarrow> ('s \<Rightarrow> bool) \<Rightarrow> ('s, 'e) memory \<Rightarrow> bool" where
  "consistent rows sound m \<longleftrightarrow> sound (me_store m) \<and> history_follows (rows (me_store m)) (me_db m)"

context vector_store
begin

lemma consistent_frame:
  "me_store m' = me_store m \<Longrightarrow> me_db m' = me_db m \<Longrightarrow> consistent rows sound m' = consistent rows sound m"
  by (simp add: consistent_def)

lemma recorded_consistent:
  assumes "record_history en row x (m\<lparr>me_store := s'\<rparr>) = (m', y)" and "y \<noteq> Inl HistoryFailed"
    and "consistent rows sound m" and "sound s'" and "rows s' = (rows (me_store m))(i := v)"
    and "\<And>h. hr_memory (row h) = JStr i" and "\<And>h. entry_agrees v (Some (row h))"
  shows "consistent rows sound m'"
  using assms(1)
proof (cases rule: record_history_cases)
  case (recorded h)
  then show ?thesis
    using history_follows_append [of "rows (me_store m)" "me_db m" "row h" i v] assms(3-7)
    by (simp add: consistent_def)
qed (use assms(2) in simp)

lemma create_consistent:
  assumes "en_store en = ops" and "create_memory en data known md i skip m = (m', r)" and "r \<noteq> Inl HistoryFailed" and "consistent rows sound m"
  shows "consistent rows sound m'"
proof -
  obtain j m1 where j: "(case i of Some j \<Rightarrow> (j, m) | None \<Rightarrow> drawn en m) = (j, m1)" by force
  then have m1: "consistent rows sound m1" using assms(4) by (auto simp: drawn_def consistent_def split: option.splits)
  have ins: "consistent rows sound m'" if "so_insert ops (me_store m1) [(j, v, new_payload en data md)] = Some s"
    "record_history en (\<lambda>h. history_entry h j JNull (JStr data) ''ADD'' (entry ''created_at'' p) (entry ''updated_at'' p) 0 p)
       (Some j) (m1\<lparr>me_store := s\<rparr>) = (m', r)" for s v p
  proof (rule recorded_consistent [OF that(2) assms(3) m1])
    from insert [OF _ that(1)] m1 have s: "sound s" "rows s = rows (me_store m1) ++ map_of [(j, new_payload en data md)]"
      by (auto simp: consistent_def)
    then show "sound s" by simp
    from s show "rows s = (rows (me_store m1))(j := Some (new_payload en data md))" by simp
  qed (simp_all add: entry_agrees_def entry_new_payload)
  show ?thesis
    using assms(2) m1 assms(4)
    by (auto simp: create_memory_def Let_def j assms(1) split: option.splits if_splits intro: ins)
qed

lemma write_update_consistent:
  assumes "en_store en = ops" and "write_update en i old s changed known md m = (m', r)" and "r \<noteq> Inl HistoryFailed"
    and "consistent rows sound m" and "rows (me_store m) i = Some old"
  shows "consistent rows sound m'"
proof (cases "m' = m")
  case False
  let ?p = "\<lambda>v. embedding_state v changed old (updated_payload en old s md)"
  from False assms(2) obtain v s' m1 y where upd: "so_update ops (me_store m) i v (?p v) = Some s'"
    and row: "record_history en (\<lambda>h. history_entry h i (entry ''data'' old) (JStr s) ''UPDATE''
         (entry ''created_at'' (?p v)) (entry ''updated_at'' (?p v)) 0 (?p v)) i (m\<lparr>me_store := s'\<rparr>) = (m1, y)"
    and m': "me_store m' = me_store m1" "me_db m' = me_db m1" and y: "y = r"
    by (auto simp: write_update_def assms(1) Let_def split: option.splits prod.splits sum.splits if_splits)
  have "consistent rows sound m1"
  proof (rule recorded_consistent [OF row])
    show "sound s'" using update [OF _ upd] assms(4) by (simp add: consistent_def)
    show "rows s' = (rows (me_store m))(i := Some (?p v))" using update [OF _ upd] assms(4,5) by (simp add: consistent_def)
  qed (use assms(3,4) y in \<open>simp_all add: entry_agrees_def entry_embedding_state entry_updated_payload\<close>)
  then show ?thesis using consistent_frame [OF m'] by simp
qed (use assms(4) in simp)

lemma update_consistent:
  assumes "en_store en = ops" and "update_memory en i data known md m = (m', r)" and "r \<noteq> Inl HistoryFailed" and "consistent rows sound m"
  shows "consistent rows sound m'"
proof (cases "m' = m")
  case False
  with assms(2) obtain old s c where got: "so_get ops (me_store m) i = Some (Some old)"
    and w: "write_update en i old s c known md m = (m', r)"
    by (auto simp: update_memory_def assms(1) split: option.splits json.splits)
  show ?thesis
  proof (rule write_update_consistent [OF assms(1) w assms(3,4)])
    show "rows (me_store m) i = Some old" using get [OF _ got] assms(4) by (simp add: consistent_def)
  qed
qed (use assms(4) in simp)

lemma delete_consistent:
  assumes "en_store en = ops" and "delete_memory en i ex m = (m', r)" and "r \<noteq> Inl HistoryFailed" and "consistent rows sound m"
  shows "consistent rows sound m'"
proof (cases "m' = m")
  case False
  with assms(2) obtain p s' m1 y where del: "so_delete ops (me_store m) i = Some s'"
    and row: "record_history en (\<lambda>h. history_entry h i (if has_key ''data'' p then entry ''data'' p else JStr []) JNull ''DELETE''
         (en_utc en (entry ''created_at'' p)) (JStr (en_now en)) 1 p) i (m\<lparr>me_store := s'\<rparr>) = (m1, y)"
    and m': "me_store m' = me_store m1" "me_db m' = me_db m1" and y: "y = r"
    by (auto simp: delete_memory_def assms(1) split: option.splits prod.splits sum.splits)
  have "consistent rows sound m1"
  proof (rule recorded_consistent [OF row])
    show "sound s'" using delete [OF _ del] assms(4) by (simp add: consistent_def)
    show "rows s' = (rows (me_store m))(i := None)" using delete [OF _ del] assms(4) by (simp add: consistent_def)
  qed (use assms(3,4) y in \<open>simp_all add: entry_agrees_def\<close>)
  then show ?thesis using consistent_frame [OF m'] by simp
qed (use assms(4) in simp)

lemma delete_one_consistent:
  assumes "en_store en = ops" and "delete_one en i m = (m', r)" and "r \<noteq> Inl HistoryFailed" and "consistent rows sound m"
  shows "consistent rows sound m'"
  using assms by (auto simp: delete_one_def split: option.splits intro: delete_consistent)

lemma step_consistent:
  "en_store en = ops \<Longrightarrow> memory_step en c m = (m', r) \<Longrightarrow> r \<noteq> Inl HistoryFailed \<Longrightarrow> consistent rows sound m \<Longrightarrow> consistent rows sound m'"
  by (auto simp: memory_step_def split: memory_call.splits prod.splits sum.splits
      intro: create_consistent update_consistent delete_one_consistent)

lemma run_consistent:
  assumes "en_store en = ops" and "memory_run en cs m = (m', es)" and "HistoryFailed \<notin> set es" and "consistent rows sound m"
  shows "consistent rows sound m'"
  using assms(2-4)
proof (induction cs arbitrary: m es)
  case (Cons c cs)
  obtain m1 r where step: "memory_step en c m = (m1, r)" by force
  obtain fs where rest: "memory_run en cs m1 = (m', fs)" and es: "es = (case r of Inl e \<Rightarrow> e # fs | Inr _ \<Rightarrow> fs)"
    using Cons.prems(1) by (auto simp: step split: prod.splits)
  from Cons.prems(2) have "r \<noteq> Inl HistoryFailed" "HistoryFailed \<notin> set fs" by (auto simp: es split: sum.splits)
  with Cons.IH [OF rest] step_consistent [OF assms(1) step] Cons.prems(3) show ?case by blast
qed simp

lemma update_exact:
  assumes "en_store en = ops" and "update_memory en i data known md m = (m', Inr j)" and "sound (me_store m)"
  shows "\<exists>old s p r. rows (me_store m) i = Some old \<and> rows (me_store m') = (rows (me_store m))(i \<mapsto> p) \<and>
    JStr s = (case data of Some s \<Rightarrow> JStr s | None \<Rightarrow> entry ''data'' old) \<and>
    entry ''data'' p = JStr s \<and> entry ''hash'' p = JStr (content_hash en s) \<and>
    entry ''created_at'' p = entry ''created_at'' old \<and>
    (has_key ''actor_id'' old \<longrightarrow> entry ''actor_id'' p = entry ''actor_id'' old) \<and>
    last_entry (me_db m') i = Some r \<and> hr_old r = entry ''data'' old \<and> hr_new r = JStr s"
proof -
  obtain old s c where got: "so_get ops (me_store m) i = Some (Some old)"
    and s: "JStr s = (case data of Some s \<Rightarrow> JStr s | None \<Rightarrow> entry ''data'' old)"
    and w: "write_update en i old s c known md m = (m', Inr j)"
    using assms(2) by (auto simp: update_memory_def assms(1) split: option.splits json.splits)
  let ?p = "\<lambda>v. embedding_state v c old (updated_payload en old s md)"
  obtain v s' m1 where upd: "so_update ops (me_store m) i v (?p v) = Some s'"
    and row: "record_history en (\<lambda>h. history_entry h i (entry ''data'' old) (JStr s) ''UPDATE''
         (entry ''created_at'' (?p v)) (entry ''updated_at'' (?p v)) 0 (?p v)) i (m\<lparr>me_store := s'\<rparr>) = (m1, Inr j)"
    and m': "me_store m' = me_store m1" "me_db m' = me_db m1"
    using w by (auto simp: write_update_def assms(1) Let_def split: option.splits prod.splits sum.splits if_splits)
  have old: "rows (me_store m) i = Some old" using get [OF assms(3) got] by simp
  from row obtain h where m1: "m1 = (m\<lparr>me_store := s'\<rparr>)\<lparr>me_drawn := Suc (me_drawn m),
      me_db := (me_db m)\<lparr>hd_history := hd_history (me_db m) @ [history_entry h i (entry ''data'' old) (JStr s) ''UPDATE''
         (entry ''created_at'' (?p v)) (entry ''updated_at'' (?p v)) 0 (?p v)]\<rparr>\<rparr>"
    by (cases rule: record_history_cases) auto
  have "rows (me_store m') = (rows (me_store m))(i \<mapsto> ?p v)"
    using update [OF assms(3) upd] old by (simp add: m' m1)
  moreover have "last_entry (me_db m') i = Some (history_entry h i (entry ''data'' old) (JStr s) ''UPDATE''
         (entry ''created_at'' (?p v)) (entry ''updated_at'' (?p v)) 0 (?p v))"
    by (simp add: m' m1 last_entry_append)
  ultimately show ?thesis using old s
    by (intro exI [of _ old] exI [of _ s] exI [of _ "?p v"]) (simp add: entry_embedding_state entry_updated_payload)
qed

end

section \<open>Taking a memory away from the entities\<close>

text \<open>What becomes of an entity: it goes when the memory was all it was linked to.\<close>

definition unlinked :: "pystr \<Rightarrow> node \<Rightarrow> node option" where
  "unlinked i p =
    (case linked_ids p of
       JArr vs \<Rightarrow>
         if JStr i \<notin> set vs then Some p
         else if filter (\<lambda>v. v \<noteq> JStr i) vs = [] then None
         else Some (put ''linked_memory_ids'' (JArr (filter (\<lambda>v. v \<noteq> JStr i) vs)) p)
     | _ \<Rightarrow> Some p)"

definition named_entity :: "node \<Rightarrow> bool" where
  "named_entity p = (case entry ''data'' p of JStr s \<Rightarrow> s \<noteq> [] | _ \<Rightarrow> False)"

lemma unlinked_not_linked:
  "unlinked i p = Some q \<Longrightarrow> linked_ids q = JArr vs \<Longrightarrow> JStr i \<notin> set vs"
  by (auto simp: unlinked_def linked_ids_def map_of_put split: json.splits if_splits)

definition never_fails :: "('s, 'v) store_ops \<Rightarrow> bool" where
  "never_fails ops \<longleftrightarrow> (\<forall>s i v p. so_update ops s i v p \<noteq> None) \<and> (\<forall>s i. so_delete ops s i \<noteq> None)"

context vector_store
begin

lemma unlink_rows:
  assumes "en_entity en = ops" and "never_fails ops" and "\<And>s. en_embed en s \<noteq> None" and "sound e" and "rows e k = Some p"
    and "named_entity p"
  shows "sound (unlink_entity en i (k, p) e) \<and> rows (unlink_entity en i (k, p) e) = (rows e)(k := unlinked i p)"
proof -
  have up: "\<exists>e'. so_update ops e k v q = Some e' \<and> sound e' \<and> rows e' = (rows e)(k \<mapsto> q)" for v q
  proof -
    from assms(2) have "so_update ops e k v q \<noteq> None" by (simp add: never_fails_def del: not_None_eq)
    then obtain e' where e': "so_update ops e k v q = Some e'" by blast
    with update [OF assms(4) e'] assms(5) show ?thesis by simp
  qed
  have del: "\<exists>e'. so_delete ops e k = Some e' \<and> sound e' \<and> rows e' = (rows e)(k := None)"
  proof -
    from assms(2) have "so_delete ops e k \<noteq> None" by (simp add: never_fails_def del: not_None_eq)
    then obtain e' where e': "so_delete ops e k = Some e'" by blast
    with delete [OF assms(4) e'] show ?thesis by simp
  qed
  obtain s where s: "entry ''data'' p = JStr s" "s \<noteq> []" using assms(6) by (auto simp: named_entity_def split: json.splits)
  obtain v where v: "en_embed en s = Some v" using assms(3) by blast
  have same: "(rows e)(k := Some p) = rows e" using assms(5) by auto
  show ?thesis
  proof (cases "linked_ids p")
    case (JArr vs)
    let ?left = "filter (\<lambda>v. v \<noteq> JStr i) vs"
    consider "JStr i \<notin> set vs" | "JStr i \<in> set vs" "?left = []" | "JStr i \<in> set vs" "?left \<noteq> []" by blast
    then show ?thesis
    proof cases
      case 1
      with JArr same assms(4) show ?thesis by (simp add: unlink_entity_def unlinked_def)
    next
      case 2
      with JArr del show ?thesis by (auto simp: unlink_entity_def unlinked_def assms(1))
    next
      case 3
      from up [of "Some v" "put ''linked_memory_ids'' (JArr ?left) p"] 3 JArr s v show ?thesis
        by (auto simp: unlink_entity_def unlinked_def assms(1) Let_def)
    qed
  qed (use same assms(4) in \<open>simp_all add: unlink_entity_def unlinked_def\<close>)
qed

lemma unlink_all_rows:
  assumes "en_entity en = ops" and "never_fails ops" and "\<And>s. en_embed en s \<noteq> None" and "sound e"
    and "distinct (map fst rs)" and "\<forall>(k, p)\<in>set rs. rows e k = Some p \<and> named_entity p"
  shows "sound (fold (unlink_entity en i) rs e) \<and>
    rows (fold (unlink_entity en i) rs e) = (\<lambda>k. case map_of rs k of None \<Rightarrow> rows e k | Some p \<Rightarrow> unlinked i p)"
  using assms(4-6)
proof (induction rs arbitrary: e)
  case (Cons r rs)
  obtain k p where r: "r = (k, p)" by force
  let ?e = "unlink_entity en i (k, p) e"
  from unlink_rows [OF assms(1-3) Cons.prems(1)] Cons.prems(3)
  have e: "sound ?e" "rows ?e = (rows e)(k := unlinked i p)" by (simp_all add: r)
  have k: "k \<notin> fst ` set rs" using Cons.prems(2) by (simp add: r)
  then have "map_of rs k = None" by (simp add: map_of_eq_None_iff)
  moreover have "\<forall>(l, q)\<in>set rs. rows ?e l = Some q \<and> named_entity q"
    using Cons.prems(3) k by (force simp: e)
  ultimately show ?case using Cons.IH [OF e(1)] Cons.prems(2) by (auto simp: r e fun_eq_iff split: option.splits)
qed simp

lemma remove_exact:
  assumes "en_entity en = ops" and "never_fails ops" and "\<And>s. en_embed en s \<noteq> None" and "sound (me_entities m)"
    and "me_entities_open m" and "so_list ops (me_entities m) (entity_filters fl) 10000 = Some rs" and "length rs < 10000"
    and "\<forall>k p. rows (me_entities m) k = Some p \<longrightarrow> named_entity p"
  shows "rows (me_entities (remove_memory_from_entity_store en i fl m)) =
    (\<lambda>k. case rows (me_entities m) k of None \<Rightarrow> None
       | Some p \<Rightarrow> if takes (entity_filters fl) p then unlinked i p else Some p)"
proof -
  have l: "distinct (map fst rs)" "\<forall>(k, p)\<in>set rs. rows (me_entities m) k = Some p \<and> takes (entity_filters fl) p"
    "\<And>k p. rows (me_entities m) k = Some p \<Longrightarrow> takes (entity_filters fl) p \<Longrightarrow> (k, p) \<in> set rs"
    using list [OF assms(4,6)] assms(7) by auto
  have named: "\<forall>(k, p)\<in>set rs. rows (me_entities m) k = Some p \<and> named_entity p" using l(2) assms(8) by auto
  have "map_of rs k = (case rows (me_entities m) k of None \<Rightarrow> None
      | Some p \<Rightarrow> if takes (entity_filters fl) p then Some p else None)" for k
  proof (cases "map_of rs k")
    case None
    then show ?thesis using l(3) by (auto simp: map_of_eq_None_iff image_iff split: option.splits) (metis fst_conv)
  next
    case (Some p)
    with l(2) show ?thesis by (auto dest!: map_of_SomeD)
  qed
  moreover have "me_entities (remove_memory_from_entity_store en i fl m) = fold (unlink_entity en i) rs (me_entities m)"
    using assms(1,5,6) by (simp add: remove_memory_from_entity_store_def)
  ultimately show ?thesis
    using unlink_all_rows [OF assms(1-4) l(1) named, of i] by (auto simp: fun_eq_iff split: option.splits)
qed

end

lemma pg_never_fails: "sv_fails sv = (\<lambda>t c. False) \<Longrightarrow> never_fails (pg_ops sv)"
  by (simp add: never_fails_def pg_update_def pg_delete_def)

section \<open>Properties\<close>

text \<open>The history follows the store: after any sequence of creations, updates and deletions, succeeding or not, on a store that
  began empty, a stored memory's last entry has its present text, and the last entry of any other memory is its
  deletion. The one thing that breaks this is an entry that could not be written behind a change of the store.\<close>

theorem history_follows_store:
  assumes "en_store en = pg_ops sv" and "me_store m = []" and "hd_history (me_db m) = []"
    and "memory_run en cs m = (m', es)" and "HistoryFailed \<notin> set es"
  shows "history_follows (pg_rows (me_store m')) (me_db m')"
proof -
  have "consistent pg_rows pg_sound m"
    using assms(2,3) by (simp add: consistent_def pg_sound_def history_follows_def pg_rows_def last_entry_def entry_agrees_def)
  from pg.run_consistent [OF assms(1,4,5) this] show ?thesis by (simp add: consistent_def)
qed

text \<open>C36: An update that succeeds changes one memory: its text is the given one or stays, its hash is the hash of the text, its time
  of creation and its actor are those it had, whatever metadata is given, and the history records the text before
  and after.\<close>

theorem update_keeps_origin:
  assumes "en_store en = pg_ops sv" and "update_memory en i data known md m = (m', Inr j)" and "pg_sound (me_store m)"
  shows "\<exists>old s p r. pg_rows (me_store m) i = Some old \<and> pg_rows (me_store m') = (pg_rows (me_store m))(i \<mapsto> p) \<and>
    JStr s = (case data of Some s \<Rightarrow> JStr s | None \<Rightarrow> entry ''data'' old) \<and>
    entry ''data'' p = JStr s \<and> entry ''hash'' p = JStr (content_hash en s) \<and>
    entry ''created_at'' p = entry ''created_at'' old \<and>
    (has_key ''actor_id'' old \<longrightarrow> entry ''actor_id'' p = entry ''actor_id'' old) \<and>
    last_entry (me_db m') i = Some r \<and> hr_old r = entry ''data'' old \<and> hr_new r = JStr s"
  using assms by (rule pg.update_exact)

text \<open>C11: A deleted memory is unlinked exactly, in a process that has opened the entity store, as long as no call of that store fails, every text
  has an embedding, all entities have a name and fewer than the 10000 entities of the scope that are listed exist: the memory goes from
  the store, every entity of its scope loses the link to it, an entity linked to nothing else goes, and all other entities and links stay.\<close>

theorem deleted_memory_unlinked:
  assumes "en_store en = pg_ops sv" and "en_entity en = pg_ops ev" and "sv_fails ev = (\<lambda>t c. False)"
    and "\<And>s. en_embed en s \<noteq> None" and "pg_sound (me_store m)" and "pg_sound (me_entities m)" and "me_entities_open m"
    and "\<forall>k p. pg_rows (me_entities m) k = Some p \<longrightarrow> named_entity p"
    and "delete_memory en i None m = (m', Inr j)" and "pg_rows (me_store m) i = Some q"
    and "pg_list ev (me_entities m) (entity_filters (session_filters q)) 10000 = Some rs" and "length rs < 10000"
  shows "pg_rows (me_store m') = (pg_rows (me_store m))(i := None) \<and>
    pg_rows (me_entities m') = (\<lambda>k. case pg_rows (me_entities m) k of None \<Rightarrow> None
       | Some p \<Rightarrow> if pg_takes ev (entity_filters (session_filters q)) p then unlinked i p else Some p)"
proof -
  have got: "so_get (pg_ops sv) (me_store m) i = Some (Some q)"
    using assms(1,9,10) pg_get_rows [of sv "me_store m" i] by (auto simp: delete_memory_def split: option.splits)
  with assms(1,9) obtain s' m1 h where del: "pg_delete sv (me_store m) i = Some s'"
    and row: "record_history en h i (m\<lparr>me_store := s'\<rparr>) = (m1, Inr j)"
    and m': "m' = remove_memory_from_entity_store en i (session_filters q) m1"
    by (auto simp: delete_memory_def split: option.splits prod.splits sum.splits)
  from row have m1: "me_store m1 = s'" "me_entities m1 = me_entities m" "me_entities_open m1 = me_entities_open m"
    by (cases rule: record_history_cases; simp)+
  have "pg_rows (me_store m') = (pg_rows (me_store m))(i := None)"
    using pg_delete_rows [OF del assms(5)] by (simp add: m' m1)
  moreover have "pg_rows (me_entities m') = (\<lambda>k. case pg_rows (me_entities m) k of None \<Rightarrow> None
       | Some p \<Rightarrow> if pg_takes ev (entity_filters (session_filters q)) p then unlinked i p else Some p)"
    unfolding m' using assms pg_never_fails [OF assms(3)]
    by (subst pg.remove_exact [OF assms(2)]) (simp_all add: m1)
  ultimately show ?thesis by simp
qed

section \<open>Examples\<close>

definition example_env :: "(rat pg_table, rat pg_table, rat) memory_env" where
  "example_env =
    \<lparr>en_store = pg_ops example_server, en_entity = pg_ops example_server, en_union = None, en_embed = (\<lambda>s. Some 1),
     en_nfkc = (\<lambda>s. s), en_md5 = (\<lambda>s. s), en_lemmatize = (\<lambda>s. s), en_extract = (\<lambda>s. Some [(U ''NAME'', s)]), en_utc = (\<lambda>v. v),
     en_text_of = (\<lambda>_. []), en_random = (\<lambda>n. [int n]), en_now = U ''2026''\<rparr>"

definition empty_memory :: "(rat pg_table, rat pg_table) memory" where
  "empty_memory = \<lparr>me_store = [], me_entities = [], me_entities_open = True, me_db = empty_history_db, me_drawn = 0\<rparr>"

definition user_meta :: "string \<Rightarrow> node" where
  "user_meta u = [(U ''user_id'', JStr (U u))]"

definition example_calls :: "rat memory_call list" where
  "example_calls =
    [Create (U ''tea'') [] (user_meta ''u1'') (Some (U ''m1'')) True, Create (U ''cats'') [] (user_meta ''u1'') (Some (U ''m2'')) True,
     Update (U ''m1'') (Some (U ''milk'')) [] [(U ''created_at'', JNull)], Delete (U ''m2''), Delete (U ''m3'')]"

definition example_outcome :: "memory_error list \<times> json option" where
  "example_outcome =
    (case memory_run example_env example_calls empty_memory of
       (m, es) \<Rightarrow> (es, map_option hr_new (last_entry (me_db m) (U ''m1''))))"

lemma example_outcome_eval: "example_outcome = ([NotFound], Some (JStr (U ''milk'')))"
  by code_simp

lemma history_follows_store_witness:
  "\<exists>m. memory_run example_env example_calls empty_memory = (m, [NotFound]) \<and>
    history_follows (pg_rows (me_store m)) (me_db m) \<and>
    map_option hr_new (last_entry (me_db m) (U ''m1'')) = Some (JStr (U ''milk''))"
proof -
  obtain m where r: "memory_run example_env example_calls empty_memory = (m, [NotFound])"
    and milk: "map_option hr_new (last_entry (me_db m) (U ''m1'')) = Some (JStr (U ''milk''))"
    using example_outcome_eval by (auto simp: example_outcome_def split: prod.splits)
  have store: "en_store example_env = pg_ops example_server" by (simp add: example_env_def)
  have "me_store empty_memory = []" "hd_history (me_db empty_memory) = []" by (simp_all add: empty_memory_def empty_history_db_def)
  from history_follows_store [OF store this r] r milk show ?thesis by auto
qed

definition stored_memory :: "(rat pg_table, rat pg_table) memory" where
  "stored_memory =
    \<lparr>me_store = [\<lparr>pr_id = U ''m1'', pr_vector = Some 1,
        pr_payload = [(U ''data'', JStr (U ''tea'')), (U ''created_at'', JStr (U ''2025'')), (U ''user_id'', JStr (U ''u1''))]\<rparr>],
     me_entities =
       [\<lparr>pr_id = U ''e1'', pr_vector = Some 1, pr_payload = [(U ''data'', JStr (U ''Tea'')), (U ''user_id'', JStr (U ''u1'')),
           (U ''linked_memory_ids'', JArr [JStr (U ''m1'')])]\<rparr>,
        \<lparr>pr_id = U ''e2'', pr_vector = Some 1, pr_payload = [(U ''data'', JStr (U ''Cup'')), (U ''user_id'', JStr (U ''u1'')),
           (U ''linked_memory_ids'', JArr [JStr (U ''m0''), JStr (U ''m1'')])]\<rparr>],
     me_entities_open = True, me_db = empty_history_db, me_drawn = 0\<rparr>"

definition quiet_env :: "(rat pg_table, rat pg_table, rat) memory_env" where
  "quiet_env = example_env\<lparr>en_extract := (\<lambda>s. None)\<rparr>"

definition succeeds :: "('s, 'e, pystr) outcome \<Rightarrow> pystr option" where
  "succeeds r = (case snd r of Inl e \<Rightarrow> None | Inr i \<Rightarrow> Some i)"

lemma succeeds_outcome: "succeeds r = Some i \<Longrightarrow> r = (fst r, Inr i)"
  by (cases r) (auto simp: succeeds_def split: sum.splits)

lemma stored_memory_sel:
  "pg_sound (me_store stored_memory)" "pg_sound (me_entities stored_memory)" "me_entities_open stored_memory"
  "pg_rows (me_store stored_memory) (U ''m1'') =
    Some [(U ''data'', JStr (U ''tea'')), (U ''created_at'', JStr (U ''2025'')), (U ''user_id'', JStr (U ''u1''))]"
  by (simp_all add: stored_memory_def pg_sound_def pg_rows_def)

lemma update_keeps_origin_witness:
  "\<exists>m p. update_memory quiet_env (U ''m1'') (Some (U ''milk'')) [] [(U ''created_at'', JStr (U ''1999''))] stored_memory = (m, Inr (U ''m1'')) \<and>
    pg_rows (me_store m) (U ''m1'') = Some p \<and> entry ''created_at'' p = JStr (U ''2025'') \<and> entry ''data'' p = JStr (U ''milk'')"
proof -
  let ?r = "update_memory quiet_env (U ''m1'') (Some (U ''milk'')) [] [(U ''created_at'', JStr (U ''1999''))] stored_memory"
  have "succeeds ?r = Some (U ''m1'')" by code_simp
  then have r: "?r = (fst ?r, Inr (U ''m1''))" by (rule succeeds_outcome)
  have store: "en_store quiet_env = pg_ops example_server" by (simp add: quiet_env_def example_env_def)
  have "entry ''created_at'' [(U ''data'', JStr (U ''tea'')), (U ''created_at'', JStr (U ''2025'')), (U ''user_id'', JStr (U ''u1''))]
      = JStr (U ''2025'')" by (simp add: entry_def)
  with update_keeps_origin [OF store r stored_memory_sel(1)] r show ?thesis
    by (auto simp: stored_memory_sel fun_upd_apply)
qed

lemma deleted_memory_unlinked_witness:
  "\<exists>m. delete_memory quiet_env (U ''m1'') None stored_memory = (m, Inr (U ''m1'')) \<and>
    pg_rows (me_store m) (U ''m1'') = None \<and> pg_rows (me_entities m) (U ''e1'') = None"
proof -
  let ?r = "delete_memory quiet_env (U ''m1'') None stored_memory"
  let ?q = "[(U ''data'', JStr (U ''tea'')), (U ''created_at'', JStr (U ''2025'')), (U ''user_id'', JStr (U ''u1''))]"
  let ?fl = "entity_filters (session_filters ?q)"
  let ?e1 = "[(U ''data'', JStr (U ''Tea'')), (U ''user_id'', JStr (U ''u1'')), (U ''linked_memory_ids'', JArr [JStr (U ''m1'')])]"
  have "succeeds ?r = Some (U ''m1'')" by code_simp
  then have r: "?r = (fst ?r, Inr (U ''m1''))" by (rule succeeds_outcome)
  have store: "en_store quiet_env = pg_ops example_server" "en_entity quiet_env = pg_ops example_server"
    and quiet: "sv_fails example_server = (\<lambda>t c. False)" and embeds: "\<And>s. en_embed quiet_env s \<noteq> None"
    by (simp_all add: quiet_env_def example_env_def example_server_def)
  have named: "\<forall>k p. pg_rows (me_entities stored_memory) k = Some p \<longrightarrow> named_entity p"
    by (auto simp: stored_memory_def pg_rows_def named_entity_def entry_def U_def split: if_splits)
  have "map_option length (pg_list example_server (me_entities stored_memory) ?fl 10000) = Some 2" by code_simp
  then obtain rs where rs: "pg_list example_server (me_entities stored_memory) ?fl 10000 = Some rs" "length rs < 10000" by auto
  note d = deleted_memory_unlinked [OF store quiet embeds stored_memory_sel(1-3) named r stored_memory_sel(4) rs]
  have "pg_rows (me_entities stored_memory) (U ''e1'') = Some ?e1" by (simp add: stored_memory_def pg_rows_def)
  moreover have "pg_takes example_server ?fl ?e1" by code_simp
  moreover have "unlinked (U ''m1'') ?e1 = None" by (simp add: unlinked_def linked_ids_def)
  ultimately show ?thesis using d r by auto
qed

section \<open>What the code does not do\<close>

text \<open>Before the entities were used in a process, a deletion leaves their links.\<close>

lemma unopened_entities_keep_links:
  "\<not> me_entities_open m \<Longrightarrow> delete_memory en i ex m = (m', r) \<Longrightarrow> me_entities m' = me_entities m"
proof -
  assume closed: "\<not> me_entities_open m" and d: "delete_memory en i ex m = (m', r)"
  have "me_entities m1 = me_entities m \<and> me_entities_open m1 = me_entities_open m"
    if "record_history en row x (m\<lparr>me_store := s\<rparr>) = (m1, y)" for row s m1 y and x :: pystr
    using that by (cases rule: record_history_cases) auto
  with closed d show ?thesis
    by (auto simp: delete_memory_def remove_memory_from_entity_store_def split: option.splits prod.splits sum.splits)
qed

text \<open>Deleting everything of a scope deletes no more than the store lists by default, and says it has.\<close>

lemma delete_all_stops_early:
  "(case delete_all_memories quiet_env 1 [(''user_id'', Some (U ''u1''))]
      (stored_memory\<lparr>me_store := me_store stored_memory @
        [\<lparr>pr_id = U ''m2'', pr_vector = Some 1, pr_payload = [(U ''data'', JStr (U ''cats'')), (U ''user_id'', JStr (U ''u1''))]\<rparr>]\<rparr>)
    of (m, r) \<Rightarrow> (map pr_id (me_store m), r)) = ([U ''m2''], Inr None)"
  by code_simp

text \<open>An update that moves a memory to another user leaves the links of its old text with the first user.\<close>

lemma moved_memory_stays_linked:
  "(case update_memory quiet_env (U ''m1'') (Some (U ''milk'')) [] [(U ''user_id'', JStr (U ''u2''))] stored_memory
    of (m, r) \<Rightarrow> (map (\<lambda>e. linked_ids (pr_payload e)) (me_entities m), entry ''user_id'' (pr_payload (hd (me_store m)))))
   = ([JArr [JStr (U ''m1'')], JArr [JStr (U ''m0''), JStr (U ''m1'')]], JStr (U ''u2''))"
  by code_simp

end
