(* ===== verification/Mem_Import_Laws.thy ===== *)
theory Mem_Import_Laws
  imports Mem_Import Mem_Engine_Laws "HOL-Library.Sublist"
begin

text \<open>
  What holds of the import of a chunk's memories: a worker that has lost its lease changes nothing, and what the operation returns
  is what it has stored, with its history.
\<close>

section \<open>What every step of the operation keeps\<close>

text \<open>The state outside of what the guard protects.\<close>

definition same_data :: "('s, 'e) import_state \<Rightarrow> ('s, 'e) import_state \<Rightarrow> bool" where
  "same_data st st' \<longleftrightarrow>
    me_store (is_memory st') = me_store (is_memory st) \<and> me_entities (is_memory st') = me_entities (is_memory st) \<and>
    me_db (is_memory st') = me_db (is_memory st) \<and> is_claimed st' = is_claimed st"

text \<open>A relation of the states before and after a step. It has to hold where nothing is written, where the guard answers, and of
  any change that directly follows a granted call of the guard; then it holds of the whole operation.\<close>

locale guarded_change =
  fixes ic :: "'v import_context" and before_after :: "('s, 'e) import_state \<Rightarrow> ('s, 'e) import_state \<Rightarrow> bool"
  assumes chain: "before_after st st' \<Longrightarrow> before_after st' st'' \<Longrightarrow> before_after st st''"
    and idle: "same_data st st' \<Longrightarrow> is_guards st' = is_guards st \<Longrightarrow> before_after st st'"
    and denied: "\<not> ic_guard ic (is_guards st) \<Longrightarrow> same_data st st' \<Longrightarrow> is_guards st' = Suc (is_guards st) \<Longrightarrow> before_after st st'"
    and granted: "ic_guard ic (is_guards st) \<Longrightarrow> is_guards st' = Suc (is_guards st) \<Longrightarrow> before_after st st'"
begin

lemma unchanged [simp]: "before_after st st"
  by (rule idle) (simp_all add: same_data_def)

lemma next_step:
  assumes "before_after st (fst r)" and "\<And>x. snd r = Inr x \<Longrightarrow> before_after (fst r) (fst (f x (fst r)))"
  shows "before_after st (fst (and_next r f))"
  using assms by (auto simp: and_next_def split: prod.splits sum.splits intro: chain)

lemma after_guard:
  assumes "\<And>st1. ic_guard ic (is_guards st) \<Longrightarrow> is_guards st1 = Suc (is_guards st) \<Longrightarrow>
      is_guards (fst (f () st1)) = Suc (is_guards st)"
  shows "before_after st (fst (and_next (guard ic st) f))"
proof (cases "ic_guard ic (is_guards st)")
  case True
  with assms [of "st\<lparr>is_guards := Suc (is_guards st)\<rparr>"] show ?thesis by (simp add: guard_def and_next_def granted)
qed (simp add: guard_def and_next_def denied same_data_def)

lemma guard_step: "before_after st (fst (guard ic st))"
  by (cases "ic_guard ic (is_guards st)") (simp_all add: guard_def granted denied same_data_def)

lemma claim_step: "before_after st (fst (claim_hash ic h st))"
  by (auto simp: claim_hash_def Let_def split: option.splits bool.splits intro!: after_guard)

lemma select_step: "before_after st (fst (select_memories ic md5 seen ns st))"
  by (induction ns arbitrary: seen st) (auto simp: Let_def intro!: next_step claim_step)

lemma build_step: "before_after st (fst (build_records ic en hs md used ds st))"
proof (induction ds arbitrary: used st)
  case (Cons d ds)
  obtain n h v where d: "d = ((n, h), v)" by (metis prod.exhaust)
  have "before_after st (fst (record_id ic en h st))"
    by (rule idle) (auto simp: record_id_def drawn_def same_data_def split: option.splits json.splits)
  with Cons show ?case by (auto simp: d intro!: next_step split: if_splits)
qed simp

lemma one_by_one_step: "before_after st (fst (insert_one_by_one ic en rs st))"
proof (induction rs arbitrary: st)
  case (Cons r rs)
  obtain st1 g where g: "guard ic st = (st1, g)" by force
  have step: "before_after st st1" using guard_step [of st] by (simp add: g)
  show ?case
  proof (cases g)
    case (Inr x)
    then have ok: "ic_guard ic (is_guards st)" "is_guards st1 = Suc (is_guards st)" using g by (auto simp: guard_def split: if_splits)
    then have "before_after st (st1\<lparr>is_memory := m\<rparr>)" for m by (simp add: granted)
    then have "before_after st (fst (insert_one_by_one ic en rs (st1\<lparr>is_memory := m\<rparr>)))" for m by (rule chain [OF _ Cons])
    moreover have "before_after st (fst (insert_one_by_one ic en rs st1))" by (rule chain [OF step Cons])
    ultimately show ?thesis by (simp add: g Inr split: option.splits prod.splits) (metis fst_conv)
  qed (use Cons [of st1] step in \<open>auto simp: g intro: chain\<close>)
qed simp

lemma persist_step: "before_after st (fst (persist_records ic en rs st))"
proof -
  obtain st1 g where g: "guard ic st = (st1, g)" by force
  have step: "before_after st st1" using guard_step [of st] by (simp add: g)
  have rest: "before_after st (fst (insert_one_by_one ic en rs st1))" by (rule chain [OF step one_by_one_step])
  have "g = Inr x \<Longrightarrow> before_after st (st1\<lparr>is_memory := m\<rparr>)" for x m
    using g by (auto simp: guard_def split: if_splits intro: granted)
  with step rest show ?thesis
    by (auto simp: persist_records_def g split: sum.splits option.splits prod.splits)
qed

lemma messages_step: "before_after st (fst (save_import_messages ic en md scope ms st))"
  unfolding save_import_messages_def by (rule after_guard) (auto simp: Let_def split: option.splits)

lemma history_step: "before_after st (fst (import_history ic rs st))"
  unfolding import_history_def by (rule after_guard) (auto split: option.splits)

lemma unite_step: "before_after st (fst (unite_entity ic en i p ids st))"
proof (cases "union_writes en p ids")
  case True
  then have "unite_entity ic en i p ids st = and_next (guard ic st) (\<lambda>_ st1.
      case union_entity_linked_memory_ids en (me_entities (is_memory st1)) i p ids of
           None \<Rightarrow> (st1, Inl NoEntities)
         | Some (e, updated) \<Rightarrow>
             (st1\<lparr>is_memory := (is_memory st1)\<lparr>me_entities := e\<rparr>\<rparr>, if updated then Inr () else Inl NoEntities))"
    by (simp add: unite_entity_def)
  then show ?thesis by (auto intro!: after_guard split: option.splits prod.splits)
qed (simp add: unite_entity_def and_next_def)

lemma matches_step: "before_after st (fst (link_matches ic en exact fs st))"
proof (induction fs arbitrary: st)
  case (Cons f fs)
  obtain key kind name ids v near where f: "f = (((key, kind, name, ids), v), near)" by (metis prod.exhaust)
  show ?case by (auto simp: f split: option.splits intro!: next_step unite_step Cons)
qed simp

lemma new_entities_step: "before_after st (fst (insert_entities ic en fl new st))"
  by (auto simp: insert_entities_def intro!: after_guard split: option.splits)

lemma entities_step: "before_after st (fst (process_import_entities ic en fl rs st))"
proof -
  let ?st = "st\<lparr>is_memory := (is_memory st)\<lparr>me_entities_open := True\<rparr>\<rparr>"
  have open_step: "before_after st ?st" by (rule idle) (simp_all add: same_data_def)
  have "before_after ?st (fst (and_next (link_matches ic en exact fs ?st) (insert_entities ic en fl)))" for exact fs
    by (rule next_step, rule matches_step, rule new_entities_step)
  then have "before_after st (fst (and_next (link_matches ic en exact fs ?st) (insert_entities ic en fl)))" for exact fs
    by (rule chain [OF open_step])
  with open_step show ?thesis by (simp add: process_import_entities_def Let_def split: option.splits)
qed

lemma effects_step: "before_after st (fst (complete_import_side_effects ic en fl md ms rs st))"
  unfolding complete_import_side_effects_def
  by (rule next_step, rule history_step, rule next_step, rule entities_step, rule messages_step)

lemma store_step: "before_after st (fst (store_extracted ic en fl md ms hs ns st))"
  by (auto simp: store_extracted_def Let_def raise_if_def split: option.splits
      intro!: next_step select_step build_step persist_step effects_step messages_step)

lemma operation_step:
  "before_after \<lparr>is_memory = m, is_guards = 0, is_claims = 0, is_claimed = []\<rparr> (fst (add_with_operation_context ic en messages md fl m))"
  by (auto simp: add_with_operation_context_def Let_def store_step split: sum.splits option.splits)

end

text \<open>While every further call of the guard is refused, nothing changes.\<close>

definition refused_is_idle :: "'v import_context \<Rightarrow> ('s, 'e) import_state \<Rightarrow> ('s, 'e) import_state \<Rightarrow> bool" where
  "refused_is_idle ic st st' \<longleftrightarrow>
    is_guards st \<le> is_guards st' \<and> ((\<forall>k\<ge>is_guards st. \<not> ic_guard ic k) \<longrightarrow> same_data st st')"

interpretation refused: guarded_change ic "refused_is_idle ic" for ic :: "'v import_context"
  by unfold_locales (auto simp: refused_is_idle_def same_data_def)

section \<open>What is stored\<close>

lemma and_next_Inr:
  "and_next r f = (st, Inr y) \<longleftrightarrow> (\<exists>st1 x. r = (st1, Inr x) \<and> f x st1 = (st, Inr y))"
  by (cases r; cases "snd r") (auto simp: and_next_def)

lemma guard_memory: "guard ic st = (st1, x) \<Longrightarrow> is_memory st1 = is_memory st"
  by (auto simp: guard_def)

lemma claim_memory: "claim_hash ic h st = (st1, x) \<Longrightarrow> is_memory st1 = is_memory st"
  by (auto simp: claim_hash_def guard_def and_next_def Let_def split: option.splits bool.splits prod.splits sum.splits if_splits)

lemma select_result:
  assumes "select_memories ic md5 seen ns st = (st', Inr chosen)"
  shows "is_memory st' = is_memory st \<and> distinct (map snd chosen) \<and> snd ` set chosen \<inter> set seen = {} \<and>
    (\<forall>(n, h)\<in>set chosen. n \<in> set ns \<and> h = md5 (memory_text n))"
  using assms
proof (induction ns arbitrary: seen st chosen)
  case (Cons n ns)
  let ?h = "md5 (memory_text n)"
  show ?case
  proof (cases "?h \<in> set seen")
    case False
    with Cons.prems obtain mine st1 rest where c: "claim_hash ic ?h st = (st1, Inr mine)"
      and r: "select_memories ic md5 (?h # seen) ns st1 = (st', Inr rest)" and ch: "chosen = (if mine then (n, ?h) # rest else rest)"
      by (auto simp: Let_def and_next_Inr)
    from Cons.IH [OF r] claim_memory [OF c] False show ?thesis by (auto simp: ch)
  next
    case True
    with Cons.prems have "select_memories ic md5 seen ns st = (st', Inr chosen)" by simp
    from Cons.IH [OF this] show ?thesis by auto
  qed
qed simp

lemma record_id_rows:
  "record_id ic en h st = (st1, x) \<Longrightarrow> me_store (is_memory st1) = me_store (is_memory st) \<and> me_db (is_memory st1) = me_db (is_memory st)"
  by (auto simp: record_id_def drawn_def split: option.splits json.splits if_splits)

lemma entry_unlinked:
  fixes x :: json
  assumes "\<And>v w. entry k (put ''linked_memory_ids'' v w) = entry k w"
  shows "entry k (case x of JArr (v # vs) \<Rightarrow> put ''linked_memory_ids'' (f v vs) p | _ \<Rightarrow> p) = entry k p"
  using assms by (cases x rule: json.exhaust; simp split: list.split)

lemma record_payload_entries:
  "entry ''data'' (record_payload en hs md n h) = JStr (memory_text n)"
  "entry ''hash'' (record_payload en hs md n h) = JStr h"
  by (simp_all add: record_payload_def Let_def entry_put entry_unlinked if_distrib [where f="entry _"] cong: if_cong)

text \<open>What a record built from a memory and its hash is.\<close>

definition record_of :: "node \<times> pystr \<Rightarrow> 'v memory_record \<Rightarrow> bool" where
  "record_of nh r \<longleftrightarrow>
    (case r of (i, d, v, p) \<Rightarrow> d = memory_text (fst nh) \<and> entry ''data'' p = JStr d \<and> entry ''hash'' p = JStr (snd nh))"

lemma build_result:
  assumes "build_records ic en hs md used ds st = (st', Inr rs)"
  shows "me_store (is_memory st') = me_store (is_memory st) \<and> me_db (is_memory st') = me_db (is_memory st) \<and>
    distinct (map fst rs) \<and> fst ` set rs \<inter> set used = {} \<and> list_all2 record_of (map fst ds) rs"
  using assms
proof (induction ds arbitrary: used st rs)
  case (Cons d ds)
  obtain n h v where d: "d = ((n, h), v)" by (metis prod.exhaust)
  from Cons.prems obtain i st1 rest where i: "record_id ic en h st = (st1, Inr i)" "i \<notin> set used"
    and r: "build_records ic en hs md (i # used) ds st1 = (st', Inr rest)"
    and rs: "rs = (i, memory_text n, v, record_payload en hs md n h) # rest"
    by (auto simp: d and_next_Inr split: if_splits)
  from Cons.IH [OF r] record_id_rows [OF i(1)] i(2) show ?case
    by (auto simp: d rs record_of_def record_payload_entries)
qed simp

definition payloads :: "'v memory_record list \<Rightarrow> (pystr \<times> node) list" where
  "payloads rs = map (\<lambda>(i, d, v, p). (i, p)) rs"

lemma payloads_simps [simp]: "payloads [] = []" "payloads ((i, d, v, p) # rs) = (i, p) # payloads rs"
  "map fst (payloads rs) = map fst rs" "fst ` set (payloads rs) = fst ` set rs"
  by (auto simp: payloads_def case_prod_beta image_image)

lemma dom_payloads: "dom (map_of (payloads rs)) = fst ` set rs"
  by (simp add: dom_map_of_conv_image_fst)

context vector_store
begin

definition adds :: "'v memory_record list \<Rightarrow> ('s, 'e) import_state \<Rightarrow> ('s, 'e) import_state \<Rightarrow> bool" where
  "adds rs st st' \<longleftrightarrow>
    sound (me_store (is_memory st')) \<and> rows (me_store (is_memory st')) = rows (me_store (is_memory st)) ++ map_of (payloads rs) \<and>
    (\<forall>i\<in>fst ` set rs. rows (me_store (is_memory st)) i = None) \<and> me_db (is_memory st') = me_db (is_memory st)"

lemma insert_adds:
  assumes "en_store en = ops" and "sound (me_store (is_memory st))" and "insert_records en rs (me_store (is_memory st)) = Some s"
  shows "adds rs st (st\<lparr>is_memory := (is_memory st)\<lparr>me_store := s\<rparr>\<rparr>)"
proof -
  have p: "map (\<lambda>(i, v, p). (i, p)) (map (\<lambda>(i, d, v, p). (i, Some v, p)) rs) = payloads rs"
    by (auto simp: payloads_def)
  have "fst ` set (map (\<lambda>(i, d, v, p). (i, Some v, p)) rs) = fst ` set rs" by (auto simp: image_image case_prod_beta)
  with insert [OF assms(2), of "map (\<lambda>(i, d, v, p). (i, Some v, p)) rs" s] assms(1,3) show ?thesis
    by (simp only: adds_def insert_records_def p) simp
qed

lemma one_by_one_adds:
  assumes "en_store en = ops" and "sound (me_store (is_memory st))" and "distinct (map fst rs)"
    and "insert_one_by_one ic en rs st = (st', kept)"
  shows "adds kept st st' \<and> subseq kept rs"
  using assms(2-4)
proof (induction rs arbitrary: st kept)
  case (Cons r rs)
  obtain st1 g where g: "guard ic st = (st1, g)" by force
  note m = guard_memory [OF g]
  have skip: ?case if "insert_one_by_one ic en rs st1 = (st', kept)"
    using Cons.IH [OF _ _ that] Cons.prems(1,2) by (auto simp: m adds_def intro: list_emb.intros)
  show ?case
  proof (cases "\<exists>x s. g = Inr x \<and> insert_records en [r] (me_store (is_memory st1)) = Some s")
    case True
    then obtain x s where s: "g = Inr x" "insert_records en [r] (me_store (is_memory st1)) = Some s" by blast
    let ?st = "st1\<lparr>is_memory := (is_memory st1)\<lparr>me_store := s\<rparr>\<rparr>"
    obtain rest where rest: "insert_one_by_one ic en rs ?st = (st', rest)" and kept: "kept = r # rest"
      using Cons.prems(3) by (auto simp: g s split: prod.splits)
    have one: "adds [r] st1 ?st" by (rule insert_adds [OF assms(1) _ s(2)]) (simp add: m Cons.prems(1))
    then have "sound (me_store (is_memory ?st))" by (simp add: adds_def)
    from Cons.IH [OF this _ rest] Cons.prems(2) have more: "adds rest ?st st'" "subseq rest rs" by simp_all
    obtain i d v p where r: "r = (i, d, v, p)" by (metis prod.exhaust)
    have i: "i \<notin> fst ` set rest" using more(2) Cons.prems(2) by (auto simp: r dest: list_emb_set)
    have "rows (me_store (is_memory st1)) ++ map_of [(i, p)] ++ map_of (payloads rest) =
        rows (me_store (is_memory st1)) ++ map_of (payloads kept)"
    proof -
      have "map_of (payloads rest) i = None" using i by (simp add: map_of_eq_None_iff)
      then show ?thesis by (auto simp: kept r map_add_def fun_eq_iff split: option.splits)
    qed
    moreover have "rows (me_store (is_memory st)) j = None" if "j \<in> fst ` set rest" for j
    proof -
      from more(1) have "\<forall>k\<in>fst ` set rest. rows (me_store (is_memory ?st)) k = None" unfolding adds_def by (elim conjE)
      from bspec [OF this that] have "rows (me_store (is_memory ?st)) j = None" .
      with one that i show ?thesis by (auto simp: adds_def r m split: if_splits)
    qed
    ultimately show ?thesis using one more by (simp add: adds_def kept r m)
  next
    case False
    then have "insert_one_by_one ic en rs st1 = (st', kept)" using Cons.prems(3) by (auto simp: g split: sum.splits option.splits)
    then show ?thesis by (rule skip)
  qed
qed (simp add: adds_def)

lemma persist_adds:
  assumes "en_store en = ops" and "sound (me_store (is_memory st))" and "distinct (map fst rs)"
    and "persist_records ic en rs st = (st', Inr kept)"
  shows "adds kept st st' \<and> subseq kept rs"
proof -
  obtain st1 g where g: "guard ic st = (st1, g)" by force
  have m: "is_memory st1 = is_memory st" by (rule guard_memory [OF g])
  have lifted: "adds ks st1 u \<Longrightarrow> adds ks st u" for ks u by (simp add: adds_def m)
  have all: "adds ks st (st1\<lparr>is_memory := (is_memory st1)\<lparr>me_store := s\<rparr>\<rparr>)"
    if "insert_records en ks (me_store (is_memory st1)) = Some s" for ks s
    by (rule lifted, rule insert_adds [OF assms(1) _ that]) (simp add: m assms(2))
  have each: ?thesis if "insert_one_by_one ic en rs st1 = (st', kept)"
    using one_by_one_adds [OF assms(1) _ assms(3) that] assms(2) by (auto simp: m intro: lifted)
  show ?thesis
    using assms(4) by (auto simp: persist_records_def g split: sum.splits option.splits if_splits prod.splits dest: each intro: all)
qed

end

section \<open>The side effects\<close>

definition same_store :: "('s, 'e) import_state \<Rightarrow> ('s, 'e) import_state \<Rightarrow> bool" where
  "same_store st st' \<longleftrightarrow>
    me_store (is_memory st') = me_store (is_memory st) \<and> hd_history (me_db (is_memory st')) = hd_history (me_db (is_memory st))"

lemma save_messages_history: "save_messages place now fresh d ms scope ids = Some d' \<Longrightarrow> hd_history d' = hd_history d"
  by (auto simp: save_messages_def Let_def split: option.splits if_splits)

lemma messages_same_store: "save_import_messages ic en md scope ms st = (st', x) \<Longrightarrow> same_store st st'"
  by (auto simp: save_import_messages_def and_next_def guard_def Let_def same_store_def dest!: save_messages_history
      split: prod.splits sum.splits option.splits if_splits)

lemma unite_same_store: "unite_entity ic en i p ids st = (st', x) \<Longrightarrow> same_store st st'"
  by (auto simp: unite_entity_def and_next_def guard_def same_store_def split: prod.splits sum.splits option.splits if_splits)

lemma matches_same_store: "link_matches ic en exact fs st = (st', Inr new) \<Longrightarrow> same_store st st'"
proof (induction fs arbitrary: st new)
  case (Cons f fs)
  obtain key kind name ids v near where f: "f = (((key, kind, name, ids), v), near)" by (metis prod.exhaust)
  from Cons show ?case
    by (force simp: f and_next_Inr same_store_def split: option.splits dest: unite_same_store)
qed (simp add: same_store_def)

lemma entities_same_store: "process_import_entities ic en fl rs st = (st', Inr u) \<Longrightarrow> same_store st st'"
  by (auto simp: process_import_entities_def insert_entities_def guard_def and_next_Inr Let_def same_store_def
      dest!: matches_same_store split: option.splits if_splits)

lemma insert_each_keeps:
  "insert_each insert_or_ignore_history rs hs = Some hs' \<Longrightarrow>
   set hs \<subseteq> set hs' \<and> (\<forall>r\<in>set rs. \<exists>h\<in>set hs'. same_event h r \<or> hr_id h = hr_id r)"
proof (induction rs arbitrary: hs)
  case (Cons r rs)
  then obtain hs1 where one: "insert_or_ignore_history r hs = Some hs1" and rest: "insert_each insert_or_ignore_history rs hs1 = Some hs'"
    by (auto split: option.splits)
  have "set hs \<subseteq> set hs1" "\<exists>h\<in>set hs1. same_event h r \<or> hr_id h = hr_id r"
    using one by (auto simp: insert_or_ignore_history_def list_ex_iff split: if_splits)
  with Cons.IH [OF rest] show ?case by auto
qed simp

text \<open>The history has an entry of the addition of a record.\<close>

definition addition_recorded :: "'v import_context \<Rightarrow> history_db \<Rightarrow> 'v memory_record \<Rightarrow> bool" where
  "addition_recorded ic d r \<longleftrightarrow>
    list_ex (\<lambda>h. same_event h (import_history_row ic r) \<or> hr_id h = hr_id (import_history_row ic r)) (hd_history d)"

lemma effects_recorded:
  assumes "complete_import_side_effects ic en fl md ms rs st = (st', Inr u)"
  shows "me_store (is_memory st') = me_store (is_memory st) \<and> (\<forall>r\<in>set rs. addition_recorded ic (me_db (is_memory st')) r)"
proof -
  obtain st1 st2 where h: "import_history ic rs st = (st1, Inr ())"
    and e: "process_import_entities ic en (scope_filters fl) rs st1 = (st2, Inr ())"
    and s: "save_import_messages ic en md (build_session_scope (en_text_of en) fl) ms st2 = (st', Inr u)"
    using assms by (auto simp: complete_import_side_effects_def and_next_Inr)
  from h have "me_store (is_memory st1) = me_store (is_memory st)" "\<forall>r\<in>set rs. addition_recorded ic (me_db (is_memory st1)) r"
    by (auto simp: import_history_def and_next_Inr guard_def batch_add_history_def addition_recorded_def list_ex_iff
        dest!: insert_each_keeps split: option.splits if_splits)
  with entities_same_store [OF e] messages_same_store [OF s] show ?thesis
    by (simp add: same_store_def addition_recorded_def)
qed

lemma subseq_distinct_map: "subseq xs ys \<Longrightarrow> distinct (map f ys) \<Longrightarrow> distinct (map f xs)"
  by (induction rule: list_emb.induct) (auto dest: list_emb_set)

definition record_hash :: "'v memory_record \<Rightarrow> json" where
  "record_hash r = (case r of (i, d, v, p) \<Rightarrow> entry ''hash'' p)"

lemma records_hashes: "list_all2 record_of chosen rs \<Longrightarrow> map record_hash rs = map (\<lambda>nh. JStr (snd nh)) chosen"
  by (induction rule: list_all2_induct) (auto simp: record_of_def record_hash_def split: prod.splits)

lemma records_texts:
  "list_all2 record_of chosen rs \<Longrightarrow> \<forall>(n, h)\<in>set chosen. h = md5 (memory_text n) \<Longrightarrow>
   (i, d, v, p) \<in> set rs \<Longrightarrow> entry ''data'' p = JStr d \<and> entry ''hash'' p = JStr (md5 d)"
  by (induction rule: list_all2_induct) (auto simp: record_of_def)

text \<open>What a returned list of records stands for in the memory after the operation.\<close>

definition stores_exactly ::
  "('s \<Rightarrow> pystr \<Rightarrow> node option) \<Rightarrow> 'v import_context \<Rightarrow> ('s, 'e, 'v) memory_env \<Rightarrow> ('s, 'e) memory \<Rightarrow> ('s, 'e) memory \<Rightarrow> 'v memory_record list \<Rightarrow> bool" where
  "stores_exactly rows ic en m m' rs \<longleftrightarrow>
    rows (me_store m') = rows (me_store m) ++ map_of (payloads rs) \<and> distinct (map fst rs) \<and> distinct (map record_hash rs) \<and>
    (\<forall>(i, d, v, p)\<in>set rs. rows (me_store m) i = None \<and> entry ''data'' p = JStr d \<and> entry ''hash'' p = JStr (en_md5 en d) \<and>
      addition_recorded ic (me_db m') (i, d, v, p))"

lemma import_vectors_length: "import_vectors ic en ss = Some vs \<Longrightarrow> length vs = length ss"
  by (auto simp: import_vectors_def Let_def split: if_splits option.splits)

lemma stores_nothing:
  "rows (me_store m') = rows (me_store m) \<Longrightarrow> stores_exactly rows ic en m m' []"
  by (simp add: stores_exactly_def)

context vector_store
begin

lemma store_extracted_exact:
  assumes "en_store en = ops" and "sound (me_store (is_memory st))" and "store_extracted ic en fl md ms hs ns st = (st', Inr rs)"
  shows "stores_exactly rows ic en (is_memory st) (is_memory st') rs"
proof -
  let ?scope = "build_session_scope (en_text_of en) fl"
  obtain chosen st1 where sel: "select_memories ic (en_md5 en) (found_hashes (en_text_of en) hs) ns st = (st1, Inr chosen)"
    and rest: "chosen = [] \<and> (\<exists>u. save_import_messages ic en md ?scope ms st1 = (st', Inr u) \<and> rs = []) \<or>
      chosen \<noteq> [] \<and> (\<exists>vs built st3 kept st4. import_vectors ic en (map (memory_text \<circ> fst) chosen) = Some vs \<and>
        build_records ic en hs md [] (zip chosen vs) st1 = (st3, Inr built) \<and> persist_records ic en built st3 = (st4, Inr kept) \<and>
        (kept = [] \<and> (\<exists>u. save_import_messages ic en md ?scope ms st4 = (st', Inr u) \<and> rs = []) \<or>
         kept \<noteq> [] \<and> rs = kept \<and> (\<exists>u. complete_import_side_effects ic en fl md ms kept st4 = (st', Inr u))))"
    using assms(3) by (auto simp: store_extracted_def Let_def and_next_Inr raise_if_def split: if_splits option.splits)
  note s = select_result [OF sel]
  from rest show ?thesis
  proof (elim disjE conjE exE)
    fix u assume "save_import_messages ic en md ?scope ms st1 = (st', Inr u)" "rs = []"
    with s messages_same_store [OF this(1)] show ?thesis by (simp add: same_store_def stores_nothing)
  next
    fix vs built st3 kept st4
    assume vs: "import_vectors ic en (map (memory_text \<circ> fst) chosen) = Some vs"
      and b: "build_records ic en hs md [] (zip chosen vs) st1 = (st3, Inr built)" and p: "persist_records ic en built st3 = (st4, Inr kept)"
    have chosen: "map fst (zip chosen vs) = chosen" using import_vectors_length [OF vs] by simp
    note bt = build_result [OF b, unfolded chosen]
    have sound3: "sound (me_store (is_memory st3))" using bt s assms(2) by simp
    have "distinct (map fst built)" using bt by simp
    note ad = persist_adds [OF assms(1) sound3 this p]
    have ids: "distinct (map fst kept)" using ad bt by (auto intro: subseq_distinct_map)
    have "distinct (map (\<lambda>nh. JStr (snd nh)) chosen)" using s by (simp add: distinct_map inj_on_def)
    with records_hashes bt have "distinct (map record_hash built)" by metis
    then have hashes: "distinct (map record_hash kept)" using ad by (auto intro: subseq_distinct_map)
    have texts: "entry ''data'' q = JStr d \<and> entry ''hash'' q = JStr (en_md5 en d)" if "(i, d, v, q) \<in> set kept" for i d v q
      using records_texts [of chosen built "en_md5 en" i d v q] bt s ad that by (auto dest: list_emb_set)
    have same: "me_store (is_memory st3) = me_store (is_memory st)" using bt s by simp
    {
      fix u assume "save_import_messages ic en md ?scope ms st4 = (st', Inr u)" "kept = []" "rs = []"
      with ad same messages_same_store [OF this(1)] show ?thesis by (simp add: adds_def same_store_def stores_nothing)
    next
      fix u assume "rs = kept" "complete_import_side_effects ic en fl md ms kept st4 = (st', Inr u)"
      with effects_recorded ad same ids hashes texts show ?thesis by (fastforce simp: stores_exactly_def adds_def)
    }
  qed
qed

lemma operation_exact:
  assumes "en_store en = ops" and "sound (me_store m)" and "add_with_operation_context ic en messages md fl m = (st, Inr rs)"
  shows "stores_exactly rows ic en m (is_memory st) rs"
  using assms(3) store_extracted_exact [OF assms(1), of "\<lparr>is_memory = m, is_guards = 0, is_claims = 0, is_claimed = []\<rparr>"] assms(2)
  by (auto simp: add_with_operation_context_def Let_def split: sum.splits option.splits)

end

section \<open>Properties\<close>

text \<open>C7: A worker whose lease is lost before the models have answered changes nothing: with every call of the guard refused, no memory, entity,
  history row or message is written and no hash is claimed, strict or not, whatever the models answer.\<close>

theorem lost_lease_writes_nothing:
  assumes "\<forall>k. \<not> ic_guard ic k" and "add_with_operation_context ic en messages md fl m = (st, r)"
  shows "me_store (is_memory st) = me_store m \<and> me_entities (is_memory st) = me_entities m \<and> me_db (is_memory st) = me_db m \<and>
    is_claimed st = []"
  using refused.operation_step [of ic m en messages md fl] assms by (simp add: refused_is_idle_def same_data_def)

text \<open>C8: What the import of a chunk returns is what it has stored: the memories before and, under ids that were free, exactly the records
  returned, each with its text, the digest of its text as its hash, no hash twice, and an entry of its addition in the history.\<close>

theorem import_stores_what_it_returns:
  assumes "en_store en = pg_ops sv" and "pg_sound (me_store m)" and "add_with_operation_context ic en messages md fl m = (st, Inr rs)"
  shows "stores_exactly pg_rows ic en m (is_memory st) rs"
  using pg.operation_exact [OF assms] .

section \<open>Examples\<close>

definition source_json :: "string \<Rightarrow> string \<Rightarrow> int \<Rightarrow> json" where
  "source_json role content k = JObj [(U ''role'', JStr (U role)), (U ''content'', JStr (U content)), (U ''source_index'', JInt k)]"

text \<open>The guard is granted before its \<open>k\<close>-th call.\<close>

definition example_context :: "nat \<Rightarrow> rat import_context" where
  "example_context k =
    \<lparr>ic_options = example_extraction, ic_sources = Some [source_json ''user'' ''I like tea'' 3, source_json ''assistant'' ''Noted'' 4],
     ic_strict = True, ic_guard = (\<lambda>j. j < k), ic_claim = Some (\<lambda>j h. Some True), ic_room = (\<lambda>n. True), ic_id = Some JStr,
     ic_ask = (\<lambda>hs. (example_answer [3, 4], None)), ic_loads = (\<lambda>s. Inl []), ic_dumps = (\<lambda>v. []), ic_alnum = (\<lambda>c. True),
     ic_uuid5 = (\<lambda>s. s), ic_sha256 = (\<lambda>s. s), ic_parse = (\<lambda>ms. U ''q''), ic_embed_batch = (\<lambda>ss. Some (map (\<lambda>s. Some 1) ss)),
     ic_extract_batch = (\<lambda>ss. Some (map (\<lambda>s. [(U ''NAME'', s)]) ss)), ic_place = (\<lambda>i. 0)\<rparr>"

definition example_import :: "nat \<Rightarrow> (rat pg_table, rat pg_table, rat memory_record list) import_outcome" where
  "example_import k = add_with_operation_context (example_context k) example_env [] (user_meta ''u1'') (user_meta ''u1'') empty_memory"

definition import_summary :: "nat \<Rightarrow> pystr list option \<times> nat \<times> nat \<times> nat \<times> nat" where
  "import_summary k =
    (case example_import k of
       (st, r) \<Rightarrow> ((case r of Inl e \<Rightarrow> None | Inr rs \<Rightarrow> Some (map fst rs)), is_guards st, length (me_store (is_memory st)),
         length (me_entities (is_memory st)), length (hd_messages (me_db (is_memory st)))))"

lemma import_summary_eval:
  "import_summary 5 = (Some [U ''Likes tea''], 5, 1, 1, 2)" "import_summary 0 = (None, 1, 0, 0, 0)"
  by code_simp+

lemma lost_lease_writes_nothing_witness:
  "(\<exists>e. snd (example_import 0) = Inl e) \<and> me_store (is_memory (fst (example_import 0))) = [] \<and>
   snd (example_import 5) \<noteq> snd (example_import 0)"
proof -
  have denied: "\<forall>k. \<not> ic_guard (example_context 0) k" by (simp add: example_context_def)
  obtain st r where e: "example_import 0 = (st, r)" by force
  note kept = lost_lease_writes_nothing [OF denied e [unfolded example_import_def]]
  obtain x where "r = Inl x" using import_summary_eval(2) by (cases r) (auto simp: import_summary_def e)
  moreover obtain y where "snd (example_import 5) = Inr y"
    using import_summary_eval(1) by (auto simp: import_summary_def split: prod.splits sum.splits)
  ultimately show ?thesis using kept by (simp add: e empty_memory_def)
qed

lemma import_stores_what_it_returns_witness:
  "\<exists>st r. example_import 5 = (st, Inr [r]) \<and> stores_exactly pg_rows (example_context 5) example_env empty_memory (is_memory st) [r] \<and>
    fst r = U ''Likes tea''"
proof -
  obtain st rs where e: "example_import 5 = (st, Inr rs)" and ids: "map fst rs = [U ''Likes tea'']"
    using import_summary_eval(1) by (auto simp: import_summary_def split: prod.splits sum.splits)
  then obtain r where rs: "rs = [r]" "fst r = U ''Likes tea''" by auto
  have store: "en_store example_env = pg_ops example_server" by (simp add: example_env_def)
  have sound: "pg_sound (me_store empty_memory)" by (simp add: empty_memory_def pg_sound_def)
  from import_stores_what_it_returns [OF store sound e [unfolded example_import_def]] show ?thesis using e rs by blast
qed

end
