(* ===== verification/Mem_Search.thy ===== *)
theory Mem_Search
  imports Mem_Engine Scoring
begin

text \<open>
  Finding memories (mem0/memory/main.py): \<open>get\<close>, \<open>get_all\<close> and \<open>_search_vector_store\<close> with its keyword scores, entity boosts,
  the lexical search of memories without an embedding, and the merging of what both find. \<open>casefold\<close> is the case folding of
  the NFKC form, \<open>day_of\<close> reads an ISO date, \<open>sigmoid\<close> is \<open>normalize_bm25\<close> in doubles; the keyword search of the
  store is one more of its operations. Scores are rationals. Telemetry and notices are left out, and so is a reranker.
\<close>

section \<open>Lexical scores\<close>

definition cjk_char :: "int \<Rightarrow> bool" where
  "cjk_char c \<longleftrightarrow> 0x3400 \<le> c \<and> c \<le> 0x9FFF"

text \<open>\<open>[a-z0-9]\<close> and \<open>[a-z0-9_+#.-]\<close> where case is ignored: two letters outside of ASCII count as an s and a k, one as an i.\<close>

definition word_start :: "int \<Rightarrow> bool" where
  "word_start c \<longleftrightarrow> (97 \<le> c \<and> c \<le> 122) \<or> (65 \<le> c \<and> c \<le> 90) \<or> (48 \<le> c \<and> c \<le> 57) \<or> c \<in> {0x130, 0x131, 0x17F, 0x212A}"

definition word_body :: "int \<Rightarrow> bool" where
  "word_body c \<longleftrightarrow> word_start c \<or> c \<in> {95, 43, 35, 46, 45}"

definition query_noise :: "int \<Rightarrow> bool" where
  "query_noise c \<longleftrightarrow> is_space c \<or>
    c \<in> {0x3000, 0x3001, 0x3002, 0xFF0C, 0xFF01, 0xFF1F, 63, 33, 44, 58, 59, 0xFF1B}"

text \<open>\<open>findall\<close> of a character of one kind followed by as many as there are of another, which the first kind is part of.\<close>

function runs_of :: "(int \<Rightarrow> bool) \<Rightarrow> (int \<Rightarrow> bool) \<Rightarrow> pystr \<Rightarrow> pystr list" where
  "runs_of first_char tail_char s =
    (case dropWhile (\<lambda>c. \<not> first_char c) s of
       [] \<Rightarrow> []
     | c # cs \<Rightarrow> (c # takeWhile tail_char cs) # runs_of first_char tail_char (dropWhile tail_char cs))"
  by pat_completeness auto
termination
proof (relation "measure (\<lambda>(f, g, s). length s)", goal_cases)
  case (2 first_char tail_char s c cs)
  have "length (dropWhile tail_char cs) \<le> length cs" by (rule length_dropWhile_le)
  also have "length cs < length (dropWhile (\<lambda>c. \<not> first_char c) s)" by (simp add: 2)
  also have "\<dots> \<le> length s" by (rule length_dropWhile_le)
  finally show ?case by simp
qed simp

declare runs_of.simps [simp del]

definition grams :: "nat \<Rightarrow> pystr \<Rightarrow> pystr list" where
  "grams width run = (if width \<le> length run then map (\<lambda>i. take width (drop i run)) [0..<length run - width + 1] else [])"

definition lexical_terms :: "(pystr \<Rightarrow> pystr) \<Rightarrow> pystr \<Rightarrow> pystr list" where
  "lexical_terms casefold s =
    (let n = casefold s
     in dedup (concat (map (\<lambda>run. concat (map (\<lambda>w. grams w run) [2, 3, 4])) (runs_of cjk_char cjk_char n)) @
               filter (\<lambda>w. 2 \<le> length w) (runs_of word_start word_body n)))"

definition term_weight :: "pystr \<Rightarrow> rat" where
  "term_weight t = (if t \<noteq> [] \<and> list_all cjk_char t then of_nat (length t ^ 2) else 3)"

definition sum_rat :: "rat list \<Rightarrow> rat" where
  "sum_rat xs = foldr (+) xs 0"

definition score_variant :: "(pystr \<Rightarrow> pystr) \<Rightarrow> pystr \<Rightarrow> pystr \<Rightarrow> rat" where
  "score_variant casefold data variant =
    (let q = py_strip (casefold variant); terms = lexical_terms casefold q; there = lexical_terms casefold data;
         total_weight = sum_rat (map term_weight terms);
         matched = sum_rat (map term_weight (filter (\<lambda>t. t \<in> set there) terms));
         score = (if total_weight = 0 then 0 else matched / total_weight);
         compact_query = filter (\<lambda>c. \<not> query_noise c) q;
         compact_text = filter (\<lambda>c. \<not> query_noise c) (casefold data)
     in if q = [] \<or> terms = [] \<or> there = [] then 0
        else min 1 (if 2 \<le> length compact_query \<and> contains_text compact_text compact_query then max score (98 / 100) else score))"

definition lexical_score :: "(pystr \<Rightarrow> pystr) \<Rightarrow> pystr \<Rightarrow> json \<Rightarrow> rat" where
  "lexical_score casefold query v =
    (case v of
       JStr data \<Rightarrow>
         if py_strip data = [] then 0
         else
           let first_line = (case splitlines query of [] \<Rightarrow> query | line # ls \<Rightarrow> line)
           in max (score_variant casefold data query) (score_variant casefold data first_line * (85 / 100))
     | _ \<Rightarrow> 0)"

section \<open>Items\<close>

definition promoted_payload_keys :: "string list" where
  "promoted_payload_keys =
    [''user_id'', ''agent_id'', ''run_id'', ''actor_id'', ''role'', ''attributed_to'', ''expiration_date'', ''categories'']"

definition core_and_promoted_keys :: "string list" where
  "core_and_promoted_keys =
    [''data'', ''hash'', ''created_at'', ''updated_at'', ''id'', ''text_lemmatized'', ''attributed_to''] @ promoted_payload_keys"

definition text_or_null :: "json \<Rightarrow> bool" where
  "text_or_null v = (case v of JNull \<Rightarrow> True | JStr s \<Rightarrow> True | _ \<Rightarrow> False)"

text \<open>\<open>MemoryItem(...).model_dump()\<close> with the promoted keys and the rest as metadata. \<open>None\<close> is the error the model raises when
  a field has the wrong type. \<open>score\<close> is what the field of the score has; without it the field is left out.\<close>

definition memory_item :: "json option \<Rightarrow> pystr \<Rightarrow> node \<Rightarrow> node option" where
  "memory_item score i p =
    (let data = (if has_key ''data'' p then entry ''data'' p else JStr []);
         item = [(U ''id'', JStr i), (U ''memory'', data), (U ''hash'', entry ''hash'' p), (U ''metadata'', JNull)] @
           (case score of None \<Rightarrow> [] | Some x \<Rightarrow> [(U ''score'', x)]) @
           [(U ''created_at'', entry ''created_at'' p), (U ''updated_at'', entry ''updated_at'' p)];
         promoted = fold (\<lambda>k n. if has_key k p then put k (entry k p) n else n) promoted_payload_keys item;
         extra = filter (\<lambda>(k, v). k \<notin> set (map U core_and_promoted_keys)) p
     in case data of
          JStr s \<Rightarrow>
            if list_all (\<lambda>k. text_or_null (entry k p)) [''hash'', ''created_at'', ''updated_at'']
            then Some (if extra = [] then promoted else put ''metadata'' (JObj extra) promoted) else None
        | _ \<Rightarrow> None)"

definition item_score :: "node \<Rightarrow> rat" where
  "item_score n = (case entry ''score'' n of JFloat x \<Rightarrow> x | _ \<Rightarrow> 0)"

definition payload_is_expired :: "(json \<Rightarrow> pystr) \<Rightarrow> (pystr \<Rightarrow> int option) \<Rightarrow> int \<Rightarrow> node \<Rightarrow> bool" where
  "payload_is_expired text_of day_of today p =
    (json_truthy (entry ''expiration_date'' p) \<and>
     (case day_of (str_of text_of (entry ''expiration_date'' p)) of None \<Rightarrow> False | Some d \<Rightarrow> d < today))"

section \<open>Environment\<close>

record ('s, 'e, 'v) search_env =
  se_fold :: "pystr \<Rightarrow> pystr"
  se_day :: "pystr \<Rightarrow> int option"
  se_today :: int
  se_sigmoid :: "rat \<Rightarrow> rat \<Rightarrow> rat \<Rightarrow> rat"
  se_keyword :: "'s \<Rightarrow> pystr \<Rightarrow> nat \<Rightarrow> node \<Rightarrow> hit list option"
  se_embed_batch :: "pystr list \<Rightarrow> 'v list option"

datatype search_error = SearchFailed | BadItem | BadEntities

definition hidden :: "('s, 'e, 'v) memory_env \<Rightarrow> ('s, 'e, 'v) search_env \<Rightarrow> bool \<Rightarrow> node \<Rightarrow> bool" where
  "hidden en se show_expired p = (\<not> show_expired \<and> payload_is_expired (en_text_of en) (se_day se) (se_today se) p)"

text \<open>The items of what was found, or the error of the first that cannot be one.\<close>

fun all_items :: "('a \<Rightarrow> node option option) \<Rightarrow> 'a list \<Rightarrow> search_error + node list" where
  "all_items f [] = Inr []"
| "all_items f (x # xs) =
    (case f x of
       None \<Rightarrow> all_items f xs
     | Some None \<Rightarrow> Inl BadItem
     | Some (Some n) \<Rightarrow> bind_err (all_items f xs) (\<lambda>ns. Inr (n # ns)))"

section \<open>Without an embedding\<close>

type_synonym lexical_row = "pystr \<times> rat \<times> node"

definition score_rows ::
  "('s, 'e, 'v) memory_env \<Rightarrow> ('s, 'e, 'v) search_env \<Rightarrow> pystr \<Rightarrow> rat \<Rightarrow> bool \<Rightarrow> (pystr \<times> node) list \<Rightarrow> lexical_row list" where
  "score_rows en se query threshold show_expired rows =
    List.map_filter (\<lambda>(i, p).
        let score = lexical_score (se_fold se) query (if has_key ''data'' p then entry ''data'' p else JStr [])
        in if hidden en se show_expired p \<or> score < max threshold 0 then None else Some (i, score, p)) rows"

definition rank_rows :: "('s, 'e, 'v) memory_env \<Rightarrow> lexical_row list \<Rightarrow> lexical_row list" where
  "rank_rows en rows =
    sort_key (\<lambda>(i, score, p). - score)
      (sort_key (\<lambda>(i, score, p). text_or (en_text_of en) (entry ''updated_at'' p) []) (sort_key (\<lambda>(i, score, p). i) rows))"

definition lexical_item :: "bool \<Rightarrow> string \<Rightarrow> lexical_row \<Rightarrow> node option option" where
  "lexical_item explain reason row =
    (case row of (i, score, p) \<Rightarrow>
      if \<not> json_truthy (entry ''data'' p) then None
      else Some (map_option (\<lambda>n. if explain
             then put ''score_details'' (JObj [(U ''retrieval'', JStr (U ''lexical_fallback'')), (U ''reason'', JStr (U reason))]) n
             else n) (memory_item (Some (JFloat score)) i p)))"

definition lexical_results_from_rows ::
  "('s, 'e, 'v) memory_env \<Rightarrow> ('s, 'e, 'v) search_env \<Rightarrow> (pystr \<times> node) list \<Rightarrow> pystr \<Rightarrow> nat \<Rightarrow> rat \<Rightarrow> bool \<Rightarrow> bool \<Rightarrow> string
   \<Rightarrow> search_error + node list" where
  "lexical_results_from_rows en se rows query limit threshold explain show_expired reason =
    all_items (lexical_item explain reason) (take limit (rank_rows en (score_rows en se query threshold show_expired rows)))"

definition search_without_embedding ::
  "('s, 'e, 'v) memory_env \<Rightarrow> ('s, 'e, 'v) search_env \<Rightarrow> 's \<Rightarrow> pystr \<Rightarrow> node \<Rightarrow> nat \<Rightarrow> rat \<Rightarrow> bool \<Rightarrow> bool \<Rightarrow> string
   \<Rightarrow> search_error + node list" where
  "search_without_embedding en se s query fl limit threshold explain show_expired reason =
    (case so_list (en_store en) s fl 100000 of
       None \<Rightarrow> Inl SearchFailed
     | Some rows \<Rightarrow> lexical_results_from_rows en se rows query limit threshold explain show_expired reason)"

text \<open>The filters of the search for memories whose embedding is missing; none where the request asks for others.\<close>

definition pending_filters :: "node \<Rightarrow> node option" where
  "pending_filters fl =
    (if entry ''embedding_status'' fl \<in> {JNull, JStr (U ''pending'')} then Some (put ''embedding_status'' (JStr (U ''pending'')) fl) else None)"

definition hit_rows :: "hit list \<Rightarrow> (pystr \<times> node) list" where
  "hit_rows hs = map (\<lambda>h. (ht_id h, ht_payload h)) hs"

definition search_pending_embeddings ::
  "('s, 'e, 'v) memory_env \<Rightarrow> ('s, 'e, 'v) search_env \<Rightarrow> 's \<Rightarrow> pystr \<Rightarrow> node \<Rightarrow> nat \<Rightarrow> rat \<Rightarrow> bool \<Rightarrow> bool \<Rightarrow> search_error + node list" where
  "search_pending_embeddings en se s query fl limit threshold explain show_expired =
    (if \<not> so_lexical_only (en_store en) then Inr []
     else case pending_filters fl of
       None \<Rightarrow> Inr []
     | Some pf \<Rightarrow>
         (case (if list_ex cjk_char query then None else se_keyword se s (en_lemmatize en query) (max (limit * 4) 60) pf) of
            Some hs \<Rightarrow> lexical_results_from_rows en se (hit_rows hs) query limit threshold explain show_expired ''embedding_pending''
          | None \<Rightarrow>
              (case search_without_embedding en se s query pf limit threshold explain show_expired ''embedding_pending'' of
                 Inl e \<Rightarrow> Inr [] | Inr ns \<Rightarrow> Inr ns)))"

section \<open>Merging\<close>

definition merge_item :: "node \<Rightarrow> (pystr \<times> node) list \<Rightarrow> (pystr \<times> node) list" where
  "merge_item n by_id =
    (case entry ''id'' n of
       JStr i \<Rightarrow>
         if i = [] then by_id
         else (case map_of by_id i of
                 None \<Rightarrow> by_id @ [(i, n)]
               | Some old \<Rightarrow> if item_score n > item_score old then AList.update i n by_id else by_id)
     | _ \<Rightarrow> by_id)"

definition merge_memory_search_results :: "node list \<Rightarrow> node list \<Rightarrow> nat \<Rightarrow> node list" where
  "merge_memory_search_results primary supplemental limit =
    take limit (sort_key (\<lambda>n. - item_score n) (map snd (fold merge_item (primary @ supplemental) [])))"

section \<open>Entity boosts\<close>

definition entity_boost :: "hit \<Rightarrow> rat" where
  "entity_boost h =
    (case linked_ids (ht_payload h) of
       JArr vs \<Rightarrow> ht_score h * entity_boost_weight * (1 / (1 + (1 / 1000) * of_nat ((max (length vs) 1 - 1) ^ 2)))
     | _ \<Rightarrow> 0)"

definition raise_boost :: "(json \<Rightarrow> pystr) \<Rightarrow> rat \<Rightarrow> json \<Rightarrow> (pystr \<times> rat) list \<Rightarrow> (pystr \<times> rat) list" where
  "raise_boost text_of boost v bs =
    (if json_truthy v then AList.update (str_of text_of v) (max (get_score bs (str_of text_of v)) boost) bs else bs)"

definition boost_match :: "(json \<Rightarrow> pystr) \<Rightarrow> hit \<Rightarrow> (pystr \<times> rat) list \<Rightarrow> (pystr \<times> rat) list" where
  "boost_match text_of h bs =
    (if ht_score h < 1 / 2 then bs
     else case linked_ids (ht_payload h) of JArr vs \<Rightarrow> fold (raise_boost text_of (entity_boost h)) vs bs | _ \<Rightarrow> bs)"

text \<open>Whether the entity store is opened, and the boosts. The searches run in threads; their order does not matter, since a memory has its
  greatest boost.\<close>

definition compute_entity_boosts ::
  "('s, 'e, 'v) memory_env \<Rightarrow> ('s, 'e, 'v) search_env \<Rightarrow> 'e \<Rightarrow> (pystr \<times> pystr) list \<Rightarrow> node \<Rightarrow> bool \<times> (pystr \<times> rat) list" where
  "compute_entity_boosts en se e query_entities fl =
    (let names = map snd (distinct_entities [] (take 8 query_entities))
     in if names = [] then (False, [])
        else case se_embed_batch se names of
          None \<Rightarrow> (False, [])
        | Some vs \<Rightarrow>
            if length vs \<noteq> length names then (False, [])
            else (True, fold (\<lambda>v bs. case so_search (en_entity en) e v 500 (entity_filters fl) of
                                None \<Rightarrow> bs | Some hs \<Rightarrow> fold (boost_match (en_text_of en)) hs bs) vs []))"

section \<open>Searching\<close>

definition keyword_scores ::
  "('s, 'e, 'v) memory_env \<Rightarrow> ('s, 'e, 'v) search_env \<Rightarrow> pystr \<Rightarrow> hit list option \<Rightarrow> (pystr \<times> rat) list" where
  "keyword_scores en se query found =
    (case found of
       None \<Rightarrow> []
     | Some hs \<Rightarrow>
         (case get_bm25_params (en_lemmatize en) query (Some (en_lemmatize en query)) of
            (midpoint, steepness) \<Rightarrow>
              fold (\<lambda>h bs. if 0 < ht_score h then AList.update (ht_id h) (se_sigmoid se (ht_score h) midpoint steepness) bs else bs) hs []))"

definition candidate_of :: "hit \<Rightarrow> node candidate" where
  "candidate_of h = \<lparr>cd_id = Some (ht_id h), cd_score = Some (ht_score h), cd_payload = Some (ht_payload h)\<rparr>"

definition details_json :: "score_details \<Rightarrow> json" where
  "details_json d =
    JObj [(U ''semantic_score'', JFloat (sd_semantic d)), (U ''bm25_score'', JFloat (sd_bm25 d)), (U ''entity_boost'', JFloat (sd_entity d)),
      (U ''raw_score'', JFloat (sd_raw d)), (U ''max_possible_score'', JFloat (sd_max d)), (U ''final_score'', JFloat (sd_final d)),
      (U ''threshold'', JFloat (sd_threshold d))]"

definition scored_item :: "node scored \<Rightarrow> node option option" where
  "scored_item x =
    (case sc_payload x of
       None \<Rightarrow> None
     | Some p \<Rightarrow>
         if \<not> json_truthy (entry ''data'' p) then None
         else Some (map_option (\<lambda>n. case sc_details x of None \<Rightarrow> n | Some d \<Rightarrow> put ''score_details'' (details_json d) n)
                (memory_item (Some (JFloat (sc_score x))) (sc_id x) p)))"

definition dense_results ::
  "('s, 'e, 'v) memory_env \<Rightarrow> ('s, 'e, 'v) search_env \<Rightarrow> hit list \<Rightarrow> (pystr \<times> rat) list \<Rightarrow> (pystr \<times> rat) list \<Rightarrow> nat \<Rightarrow> rat \<Rightarrow> bool \<Rightarrow> bool
   \<Rightarrow> search_error + node list" where
  "dense_results en se hs bm25 boosts limit threshold explain show_expired =
    all_items scored_item
      (score_and_rank (map candidate_of (filter (\<lambda>h. \<not> hidden en se show_expired (ht_payload h)) hs)) bm25 boosts threshold (int limit) explain)"

definition search_vector_store ::
  "('s, 'e, 'v) memory_env \<Rightarrow> ('s, 'e, 'v) search_env \<Rightarrow> pystr \<Rightarrow> node \<Rightarrow> nat \<Rightarrow> rat \<Rightarrow> bool \<Rightarrow> bool \<Rightarrow> ('s, 'e) memory
   \<Rightarrow> ('s, 'e) memory \<times> (search_error + node list)" where
  "search_vector_store en se query fl limit threshold explain show_expired m =
    (case en_embed en query of
       None \<Rightarrow> (m, search_without_embedding en se (me_store m) query fl limit threshold explain show_expired ''embedding_unavailable'')
     | Some v \<Rightarrow>
         (case en_extract en query of
            None \<Rightarrow> (m, Inl BadEntities)
          | Some es \<Rightarrow>
              (case so_search (en_store en) (me_store m) v (max (limit * 4) 60) fl of
                 None \<Rightarrow> (m, Inl SearchFailed)
               | Some hs \<Rightarrow>
                   (case (keyword_scores en se query (se_keyword se (me_store m) (en_lemmatize en query) (max (limit * 4) 60) fl),
                          compute_entity_boosts en se (me_entities m) es fl) of
                      (bm25, opened, boosts) \<Rightarrow>
                        (if opened then m\<lparr>me_entities_open := True\<rparr> else m,
                         bind_err (dense_results en se hs bm25 boosts limit threshold explain show_expired) (\<lambda>found.
                         bind_err (search_pending_embeddings en se (me_store m) query fl limit threshold explain show_expired) (\<lambda>more.
                           Inr (merge_memory_search_results found more limit))))))))"

section \<open>Reading and listing\<close>

definition get_memory :: "('s, 'e, 'v) memory_env \<Rightarrow> pystr \<Rightarrow> ('s, 'e) memory \<Rightarrow> search_error + node option" where
  "get_memory en i m =
    (case so_get (en_store en) (me_store m) i of
       None \<Rightarrow> Inl SearchFailed
     | Some None \<Rightarrow> Inr None
     | Some (Some p) \<Rightarrow> (case memory_item (Some JNull) i p of None \<Rightarrow> Inl BadItem | Some n \<Rightarrow> Inr (Some n)))"

text \<open>The loop ends when it has as many as asked for, but looks only after one is added.\<close>

fun list_items :: "(node \<Rightarrow> bool) \<Rightarrow> nat \<Rightarrow> nat \<Rightarrow> (pystr \<times> node) list \<Rightarrow> search_error + node list" where
  "list_items hide so_far output_limit [] = Inr []"
| "list_items hide so_far output_limit ((i, p) # rows) =
    (if hide p then list_items hide so_far output_limit rows
     else case memory_item None i p of
       None \<Rightarrow> Inl BadItem
     | Some n \<Rightarrow>
         if output_limit \<le> Suc so_far then Inr [n]
         else bind_err (list_items hide (Suc so_far) output_limit rows) (\<lambda>ns. Inr (n # ns)))"

definition get_all :: "('s, 'e, 'v) memory_env \<Rightarrow> ('s, 'e, 'v) search_env \<Rightarrow> node \<Rightarrow> int \<Rightarrow> bool \<Rightarrow> ('s, 'e) memory \<Rightarrow> scope_error + (search_error + node list)" where
  "get_all en se fl top_k show_expired m =
    bind_err (validate_search_params None (Some top_k)) (\<lambda>_. bind_err (scoped_filters fl) (\<lambda>f.
      let limit = nat top_k
      in Inr (case so_list (en_store en) (me_store m) f (if show_expired then limit else max (limit * 4) 60) of
                None \<Rightarrow> Inl SearchFailed
              | Some rows \<Rightarrow> list_items (hidden en se show_expired) 0 limit rows)))"

end
