(* ===== verification/Mem_Search_Laws.thy ===== *)
theory Mem_Search_Laws
  imports Mem_Search Mem_Engine_Laws
begin

text \<open>
  What holds of finding memories: lexical scores and entity boosts stay in their range, and what a search answers are stored
  memories of the project asked for, each once, best first, none expired.
\<close>

section \<open>Scores\<close>

lemma sum_rat_Cons [simp]: "sum_rat [] = 0" "sum_rat (x # xs) = x + sum_rat xs"
  by (simp_all add: sum_rat_def)

lemma sum_rat_nonneg: "\<forall>x\<in>set xs. 0 \<le> f x \<Longrightarrow> 0 \<le> sum_rat (map f xs)"
  by (induction xs) auto

lemma sum_rat_filter: "\<forall>x\<in>set xs. 0 \<le> f x \<Longrightarrow> sum_rat (map f (filter P xs)) \<le> sum_rat (map f xs)"
  by (induction xs) (auto intro: add_increasing)

lemma term_weight_nonneg: "0 \<le> term_weight t"
  by (simp add: term_weight_def)

lemma score_variant_bounds: "0 \<le> score_variant casefold data v \<and> score_variant casefold data v \<le> 1"
proof -
  let ?total = "\<lambda>ts. sum_rat (map term_weight ts)"
  have "0 \<le> (if ?total ts = 0 then 0 else ?total (filter P ts) / ?total ts)" for ts P
    by (simp add: sum_rat_nonneg term_weight_nonneg)
  then show ?thesis by (auto simp: score_variant_def Let_def min_def max_def)
qed

lemma lexical_score_bounds: "0 \<le> lexical_score casefold query v \<and> lexical_score casefold query v \<le> 1"
proof -
  have "score_variant casefold d w * (85 / 100) \<le> 1" for d w
    using score_variant_bounds [of casefold d w] by linarith
  then show ?thesis using score_variant_bounds by (auto simp: lexical_score_def Let_def le_max_iff_disj split: json.splits list.splits)
qed

lemma lexical_score_phrase:
  assumes "\<not> query_noise (hd (py_strip data))" and "py_strip data \<noteq> []" and "lexical_terms casefold (py_strip (casefold query)) \<noteq> []"
    and "lexical_terms casefold data \<noteq> []"
    and "2 \<le> length (filter (\<lambda>c. \<not> query_noise c) (py_strip (casefold query)))"
    and "contains_text (filter (\<lambda>c. \<not> query_noise c) (casefold data)) (filter (\<lambda>c. \<not> query_noise c) (py_strip (casefold query)))"
  shows "98 / 100 \<le> lexical_score casefold query (JStr data)"
proof -
  have "py_strip (casefold query) \<noteq> []" using assms(5) by auto
  then have "98 / 100 \<le> score_variant casefold data query"
    using assms by (simp add: score_variant_def Let_def)
  then show ?thesis using assms(2) by (simp add: lexical_score_def Let_def le_max_iff_disj)
qed

definition boosts_fit :: "(pystr \<times> rat) list \<Rightarrow> bool" where
  "boosts_fit bs \<longleftrightarrow> (\<forall>x\<in>snd ` set bs. 0 \<le> x \<and> x \<le> entity_boost_weight)"

lemma entity_boost_fits: "0 \<le> ht_score h \<Longrightarrow> ht_score h \<le> 1 \<Longrightarrow> 0 \<le> entity_boost h \<and> entity_boost h \<le> entity_boost_weight"
proof -
  assume s: "0 \<le> ht_score h" "ht_score h \<le> 1"
  have "0 \<le> ht_score h * (1 / 2) * (1 / (1 + 1 / 1000 * of_nat n)) \<and> ht_score h * (1 / 2) * (1 / (1 + 1 / 1000 * of_nat n)) \<le> 1 / 2" for n :: nat
  proof -
    let ?w = "1 / (1 + 1 / 1000 * of_nat n) :: rat"
    have w: "0 \<le> ?w" "?w \<le> 1" by (simp_all add: add_nonneg_nonneg)
    have "ht_score h * (1 / 2) * ?w \<le> ht_score h * (1 / 2)" by (rule mult_right_le_one_le) (use s w in auto)
    moreover have "0 \<le> ht_score h * (1 / 2) * ?w" using s w by simp
    ultimately show ?thesis using s by linarith
  qed
  note fits = this
  show ?thesis
  proof (cases "linked_ids (ht_payload h)")
    case (JArr vs)
    from fits [of "(max (length vs) 1 - 1) ^ 2"] show ?thesis by (simp only: entity_boost_def JArr json.case entity_boost_weight_def)
  qed (simp_all add: entity_boost_def entity_boost_weight_def)
qed

lemma boosts_fit_update: "boosts_fit bs \<Longrightarrow> 0 \<le> x \<Longrightarrow> x \<le> entity_boost_weight \<Longrightarrow> boosts_fit (AList.update i x bs)"
proof -
  assume "boosts_fit bs" "0 \<le> x" "x \<le> entity_boost_weight"
  moreover have "snd ` set (AList.update i x bs) \<subseteq> insert x (snd ` set bs)" by (induction bs) auto
  ultimately show ?thesis unfolding boosts_fit_def by blast
qed

lemma get_score_fits: "boosts_fit bs \<Longrightarrow> 0 \<le> get_score bs i \<and> get_score bs i \<le> entity_boost_weight"
  by (auto simp: boosts_fit_def get_score_def entity_boost_weight_def split: option.splits dest!: map_of_SomeD)

lemma boost_match_fits:
  assumes "boosts_fit bs" and "ht_score h \<le> 1"
  shows "boosts_fit (boost_match text_of h bs)"
proof (cases "ht_score h < 1 / 2")
  case False
  then have "0 \<le> ht_score h" by simp
  from entity_boost_fits [OF this assms(2)] have b: "0 \<le> entity_boost h" "entity_boost h \<le> entity_boost_weight" by simp_all
  have "boosts_fit cs \<Longrightarrow> boosts_fit (fold (raise_boost text_of (entity_boost h)) vs cs)" for vs cs
  proof (induction vs arbitrary: cs)
    case (Cons v vs)
    have "boosts_fit (raise_boost text_of (entity_boost h) v cs)"
      using Cons.prems get_score_fits [OF Cons.prems] b by (auto simp: raise_boost_def max_def intro: boosts_fit_update)
    with Cons.IH show ?case by simp
  qed simp
  with assms(1) False show ?thesis by (simp add: boost_match_def split: json.splits)
qed (use assms in \<open>simp add: boost_match_def\<close>)

lemma boosts_fit_search:
  assumes "\<And>v hs h. so_search (en_entity en) e v 500 (entity_filters fl) = Some hs \<Longrightarrow> h \<in> set hs \<Longrightarrow> ht_score h \<le> 1"
  shows "boosts_fit (snd (compute_entity_boosts en se e es fl))"
proof -
  have hits: "boosts_fit bs \<Longrightarrow> \<forall>h\<in>set hs. ht_score h \<le> 1 \<Longrightarrow> boosts_fit (fold (boost_match text_of) hs bs)" for hs bs text_of
    by (induction hs arbitrary: bs) (simp_all add: boost_match_fits)
  have "boosts_fit bs \<Longrightarrow> boosts_fit (fold (\<lambda>v bs. case so_search (en_entity en) e v 500 (entity_filters fl) of
      None \<Rightarrow> bs | Some hs \<Rightarrow> fold (boost_match (en_text_of en)) hs bs) vs bs)" for vs bs
  proof (induction vs arbitrary: bs)
    case (Cons v vs)
    have "boosts_fit (case so_search (en_entity en) e v 500 (entity_filters fl) of None \<Rightarrow> bs | Some hs \<Rightarrow> fold (boost_match (en_text_of en)) hs bs)"
      using Cons.prems assms by (auto split: option.splits intro!: hits)
    with Cons.IH show ?case by simp
  qed simp
  moreover have "boosts_fit []" by (simp add: boosts_fit_def)
  ultimately show ?thesis by (auto simp: compute_entity_boosts_def Let_def split: option.splits)
qed

section \<open>Items\<close>

lemma entry_promoted:
  "j \<notin> set ks \<Longrightarrow> entry j (fold (\<lambda>k n. if has_key k p then put k (entry k p) n else n) ks n) = entry j n"
  by (induction ks arbitrary: n) (auto simp: entry_put)

lemma memory_item_fields:
  assumes "memory_item score i p = Some n"
  shows "entry ''id'' n = JStr i" and "entry ''memory'' n = (if has_key ''data'' p then entry ''data'' p else JStr [])"
    and "score = Some v \<Longrightarrow> entry ''score'' n = v"
proof -
  let ?item = "[(U ''id'', JStr i), (U ''memory'', if has_key ''data'' p then entry ''data'' p else JStr []), (U ''hash'', entry ''hash'' p), (U ''metadata'', JNull)] @
           (case score of None \<Rightarrow> [] | Some x \<Rightarrow> [(U ''score'', x)]) @
           [(U ''created_at'', entry ''created_at'' p), (U ''updated_at'', entry ''updated_at'' p)]"
  let ?all = "fold (\<lambda>k n. if has_key k p then put k (entry k p) n else n) promoted_payload_keys ?item"
  obtain q where n: "n = ?all \<or> n = put ''metadata'' q ?all"
    using assms by (auto simp: memory_item_def Let_def split: json.splits if_splits)
  have "entry j n = entry j ?all" if "j \<noteq> ''metadata''" for j using n that by (auto simp: entry_put)
  moreover have "entry j ?all = entry j ?item" if "j \<in> {''id'', ''memory'', ''score''}" for j
    by (rule entry_promoted) (use that in \<open>auto simp: promoted_payload_keys_def\<close>)
  ultimately have *: "entry j n = entry j ?item" if "j \<in> {''id'', ''memory'', ''score''}" for j using that by auto
  show "entry ''id'' n = JStr i" "entry ''memory'' n = (if has_key ''data'' p then entry ''data'' p else JStr [])"
    using *[of "''id''"] *[of "''memory''"] by (simp_all add: entry_def)
  show "entry ''score'' n = v" if "score = Some v" using *[of "''score''"] that by (simp add: entry_def)
qed

lemma all_items_ok:
  assumes "all_items f xs = Inr ns"
  shows "\<forall>n\<in>set ns. \<exists>x\<in>set xs. f x = Some (Some n)" and "length ns \<le> length xs"
  using assms by (induction f xs arbitrary: ns rule: all_items.induct) (force simp: err_simps split: option.splits)+

text \<open>What holds between any two of the rows, in their order, holds between the items made of them.\<close>

lemma all_items_order:
  assumes "all_items f xs = Inr ns" and "sorted_wrt R xs"
    and "\<And>x y m n. R x y \<Longrightarrow> f x = Some (Some m) \<Longrightarrow> f y = Some (Some n) \<Longrightarrow> Q m n"
  shows "sorted_wrt Q ns"
  using assms(1,2)
proof (induction xs arbitrary: ns)
  case (Cons x xs)
  show ?case
  proof (cases "f x")
    case None
    with Cons show ?thesis by simp
  next
    case (Some r)
    with Cons.prems(1) obtain m ms where m: "f x = Some (Some m)" "all_items f xs = Inr ms" "ns = m # ms"
      by (auto simp: err_simps split: option.splits)
    have "sorted_wrt Q ms" using Cons.IH [OF m(2)] Cons.prems(2) by simp
    moreover have "Q m n" if "n \<in> set ms" for n
    proof -
      obtain y where "y \<in> set xs" "f y = Some (Some n)" using all_items_ok(1) [OF m(2)] \<open>n \<in> set ms\<close> by blast
      moreover from this Cons.prems(2) have "R x y" by simp
      ultimately show ?thesis using assms(3) m(1) by blast
    qed
    ultimately show ?thesis by (simp add: m(3))
  qed
qed simp

section \<open>Merging\<close>

definition keyed :: "(pystr \<times> node) list \<Rightarrow> bool" where
  "keyed by_id \<longleftrightarrow> distinct (map fst by_id) \<and> (\<forall>(i, n)\<in>set by_id. entry ''id'' n = JStr i)"

lemma set_alist_update: "set (AList.update k v xs) \<subseteq> insert (k, v) (set xs)"
  by (induction xs) auto

lemma merge_item_keyed: "keyed by_id \<Longrightarrow> keyed (merge_item n by_id) \<and> snd ` set (merge_item n by_id) \<subseteq> insert n (snd ` set by_id)"
proof (cases "entry ''id'' n")
  case (JStr i)
  assume k: "keyed by_id"
  show ?thesis
  proof (cases "map_of by_id i")
    case None
    then have "i \<notin> fst ` set by_id" by (simp add: map_of_eq_None_iff)
    with None k JStr show ?thesis by (auto simp: merge_item_def keyed_def)
  next
    case (Some old)
    have "keyed (AList.update i n by_id)"
      using k JStr set_alist_update [of i n by_id] unfolding keyed_def by (auto simp: distinct_update)
    moreover have "snd ` set (AList.update i n by_id) \<subseteq> insert n (snd ` set by_id)" using set_alist_update [of i n by_id] by force
    ultimately show ?thesis using k JStr Some by (auto simp: merge_item_def)
  qed
qed (auto simp: merge_item_def)

lemma merge_keyed: "keyed by_id \<Longrightarrow> keyed (fold merge_item ns by_id) \<and> snd ` set (fold merge_item ns by_id) \<subseteq> set ns \<union> snd ` set by_id"
proof (induction ns arbitrary: by_id)
  case (Cons n ns)
  from merge_item_keyed [OF Cons.prems, of n] Cons.IH [of "merge_item n by_id"] show ?case
    unfolding fold_simps list.set by blast
qed simp

lemma merged:
  fixes primary supplemental :: "node list" and k :: nat
  defines "ns \<equiv> merge_memory_search_results primary supplemental k"
  shows "length ns \<le> k" and "distinct (map (entry ''id'') ns)" and "sorted_wrt (\<lambda>a b. item_score b \<le> item_score a) ns"
    and "set ns \<subseteq> set primary \<union> set supplemental"
proof -
  let ?by = "fold merge_item (primary @ supplemental) []" and ?key = "\<lambda>n. - item_score n"
  have "keyed []" by (simp add: keyed_def)
  note m = merge_keyed [OF this, of "primary @ supplemental"]
  show "length ns \<le> k" by (simp add: ns_def merge_memory_search_results_def)
  have "set ns \<subseteq> snd ` set ?by" by (auto simp: ns_def merge_memory_search_results_def dest: in_set_takeD)
  with m show "set ns \<subseteq> set primary \<union> set supplemental" by auto
  have ids: "map (entry ''id'' \<circ> snd) ?by = map (\<lambda>b. JStr (fst b)) ?by" using m by (auto simp: keyed_def)
  have "distinct (map fst ?by)" using m by (simp add: keyed_def)
  then have "distinct (map (entry ''id'') (map snd ?by))" unfolding map_map ids by (simp add: distinct_map inj_on_def)
  moreover have "mset (map (entry ''id'') (sort_key ?key (map snd ?by))) = mset (map (entry ''id'') (map snd ?by))"
    by (simp only: mset_map mset_sort)
  ultimately have "distinct (map (entry ''id'') (sort_key ?key (map snd ?by)))" using mset_eq_imp_distinct_iff by blast
  then show "distinct (map (entry ''id'') ns)" by (simp add: ns_def merge_memory_search_results_def take_map [symmetric] distinct_take)
  have "sorted (map ?key (sort_key ?key (map snd ?by)))" by simp
  then have "sorted_wrt (\<lambda>a b. ?key a \<le> ?key b) (sort_key ?key (map snd ?by))" by (simp add: sorted_wrt_map)
  then show "sorted_wrt (\<lambda>a b. item_score b \<le> item_score a) ns"
    by (simp add: ns_def merge_memory_search_results_def sorted_wrt_take)
qed

section \<open>Searching\<close>

text \<open>A stored memory that a search with these filters may show: \<open>takes\<close> is what a filter lets through in the store.\<close>

definition may_be_shown ::
  "(pystr \<Rightarrow> node option) \<Rightarrow> (node \<Rightarrow> node \<Rightarrow> bool) \<Rightarrow> ('s, 'e, 'v) memory_env \<Rightarrow> ('s, 'e, 'v) search_env \<Rightarrow> bool \<Rightarrow> node \<Rightarrow> pystr \<times> node \<Rightarrow> bool" where
  "may_be_shown rows takes en se show_expired fl ip \<longleftrightarrow>
    rows (fst ip) = Some (snd ip) \<and> \<not> hidden en se show_expired (snd ip) \<and>
    (takes fl (snd ip) \<or> (\<exists>pf. pending_filters fl = Some pf \<and> takes pf (snd ip)))"

definition item_of :: "node \<Rightarrow> pystr \<times> node \<Rightarrow> bool" where
  "item_of n ip \<longleftrightarrow> entry ''id'' n = JStr (fst ip) \<and> entry ''memory'' n = entry ''data'' (snd ip)"

lemma put_details: "item_of (put ''score_details'' v n) ip = item_of n ip"
  by (simp add: item_of_def entry_put)

lemma memory_item_of: "memory_item score i p = Some n \<Longrightarrow> json_truthy (entry ''data'' p) \<Longrightarrow> item_of n (i, p)"
proof -
  assume n: "memory_item score i p = Some n" and data: "json_truthy (entry ''data'' p)"
  from data have "has_key ''data'' p" by (auto simp: has_key_def entry_def split: option.splits)
  with memory_item_fields(1,2) [OF n] show ?thesis by (simp add: item_of_def)
qed

lemma lexical_rows_items:
  assumes "lexical_results_from_rows en se rs query limit threshold explain show_expired reason = Inr ns" and "n \<in> set ns"
  shows "\<exists>ip\<in>set rs. item_of n ip \<and> \<not> hidden en se show_expired (snd ip)"
proof -
  obtain x where x: "x \<in> set (take limit (rank_rows en (score_rows en se query threshold show_expired rs)))" "lexical_item explain reason x = Some (Some n)"
    using all_items_ok(1) [OF assms(1) [unfolded lexical_results_from_rows_def]] assms(2) by blast
  obtain i score p where p: "x = (i, score, p)" by (metis prod.exhaust)
  have "(i, score, p) \<in> set (score_rows en se query threshold show_expired rs)"
    using x(1) by (auto simp: p rank_rows_def dest: in_set_takeD)
  then have "(i, p) \<in> set rs" "\<not> hidden en se show_expired p"
    by (auto simp: score_rows_def map_filter_set Let_def split: if_splits)
  moreover have "item_of n (i, p)"
    using x(2) by (auto simp: p lexical_item_def put_details split: if_splits dest: memory_item_of)
  ultimately show ?thesis by force
qed

lemma dense_items:
  assumes "dense_results en se hs bm25 boosts limit threshold explain show_expired = Inr ns" and "n \<in> set ns"
  shows "\<exists>h\<in>set hs. item_of n (ht_id h, ht_payload h) \<and> \<not> hidden en se show_expired (ht_payload h)"
proof -
  obtain x where x: "x \<in> set (score_and_rank (map candidate_of (filter (\<lambda>h. \<not> hidden en se show_expired (ht_payload h)) hs)) bm25 boosts threshold (int limit) explain)"
    and n: "scored_item x = Some (Some n)"
    using all_items_ok(1) [OF assms(1) [unfolded dense_results_def]] assms(2) by blast
  from x obtain h where h: "h \<in> set hs" "\<not> hidden en se show_expired (ht_payload h)"
    and s: "score_candidate bm25 boosts threshold explain (candidate_of h) = Some x"
    by (auto simp: score_and_rank_def py_prefix_def map_filter_set dest!: in_set_takeD split: if_splits)
  with score_candidateD [OF s] have "sc_id x = ht_id h" "sc_payload x = Some (ht_payload h)" by (simp_all add: candidate_of_def)
  with n have "item_of n (ht_id h, ht_payload h)"
    by (auto simp: scored_item_def put_details split: if_splits option.splits) (erule memory_item_of; assumption)+
  with h show ?thesis by blast
qed

text \<open>Rows of different memories are answered each once, the best first, no more than asked for.\<close>

lemma sorted_wrt_both: "sorted_wrt P xs \<Longrightarrow> sorted_wrt Q xs \<Longrightarrow> sorted_wrt (\<lambda>x y. P x y \<and> Q x y) xs"
  by (induction xs) auto

lemma distinct_ordered: "distinct (map f xs) \<longleftrightarrow> sorted_wrt (\<lambda>x y. f x \<noteq> f y) xs"
  by (induction xs) auto

lemma ranked_rows:
  fixes en se query threshold show_expired rs and k :: nat
  defines "xs \<equiv> take k (rank_rows en (score_rows en se query threshold show_expired rs))"
  assumes "distinct (map fst rs)"
  shows "sorted_wrt (\<lambda>(i, s, p) (j, t, q). i \<noteq> j \<and> t \<le> s) xs" and "length xs \<le> k"
proof -
  let ?scored = "score_rows en se query threshold show_expired rs"
  have "distinct (map fst ?scored)"
    using assms(2) unfolding score_rows_def
    by (induction rs) (force simp: map_filter_simps map_filter_set Let_def split: if_splits)+
  moreover have "mset (rank_rows en ?scored) = mset ?scored" by (simp add: rank_rows_def)
  then have "mset (map fst (rank_rows en ?scored)) = mset (map fst ?scored)" by simp
  ultimately have "distinct (map fst (rank_rows en ?scored))" using mset_eq_imp_distinct_iff by blast
  moreover have "sorted (map (\<lambda>(i, score, p). - score) (rank_rows en ?scored))" by (simp add: rank_rows_def)
  ultimately have "sorted_wrt (\<lambda>x y. fst x \<noteq> fst y \<and> fst (snd y) \<le> fst (snd x)) (rank_rows en ?scored)"
    by (intro sorted_wrt_both) (simp_all add: distinct_ordered sorted_wrt_map split_def)
  then show "sorted_wrt (\<lambda>(i, s, p) (j, t, q). i \<noteq> j \<and> t \<le> s) xs" by (simp add: xs_def sorted_wrt_take split_def)
  show "length xs \<le> k" by (simp add: xs_def)
qed

lemma lexical_rows_shape:
  assumes "lexical_results_from_rows en se rs query limit threshold explain show_expired reason = Inr ns" and "distinct (map fst rs)"
  shows "length ns \<le> limit \<and> distinct (map (entry ''id'') ns) \<and> sorted_wrt (\<lambda>a b. item_score b \<le> item_score a) ns"
proof -
  note items = assms(1) [unfolded lexical_results_from_rows_def]
  note rows = ranked_rows [OF assms(2), of limit en se query threshold show_expired]
  have fields: "entry ''id'' n = JStr i \<and> item_score n = s" if "lexical_item explain reason (i, s, p) = Some (Some n)" for i s p n
    using that by (auto simp: lexical_item_def item_score_def entry_put memory_item_fields split: if_splits)
  have "sorted_wrt (\<lambda>a b. entry ''id'' a \<noteq> entry ''id'' b \<and> item_score b \<le> item_score a) ns"
    by (rule all_items_order [OF items rows(1)]) (auto dest!: fields)
  then have "sorted_wrt (\<lambda>a b. entry ''id'' a \<noteq> entry ''id'' b) ns" "sorted_wrt (\<lambda>a b. item_score b \<le> item_score a) ns"
    by (auto elim: sorted_wrt_mono_rel [rotated])
  with all_items_ok(2) [OF items] rows(2) show ?thesis by (simp add: distinct_ordered)
qed

text \<open>A store with a keyword search, whose hits are rows the filters let through.\<close>

locale searchable_store = vector_store +
  fixes keyword :: "'s \<Rightarrow> pystr \<Rightarrow> nat \<Rightarrow> node \<Rightarrow> hit list option"
  assumes keyword: "sound s \<Longrightarrow> keyword s q k fl = Some hs \<Longrightarrow> \<forall>h\<in>set hs. rows s (ht_id h) = Some (ht_payload h) \<and> takes fl (ht_payload h)"
begin

lemma listed_items:
  assumes "en_store en = ops" and "sound s"
    and "search_without_embedding en se s query fl limit threshold explain show_expired reason = Inr ns" and "n \<in> set ns"
  shows "\<exists>ip. item_of n ip \<and> rows s (fst ip) = Some (snd ip) \<and> \<not> hidden en se show_expired (snd ip) \<and> takes fl (snd ip)"
proof -
  obtain rs where rs: "so_list ops s fl 100000 = Some rs"
    and ns: "lexical_results_from_rows en se rs query limit threshold explain show_expired reason = Inr ns"
    using assms(1,3) by (auto simp: search_without_embedding_def split: option.splits)
  from lexical_rows_items [OF ns assms(4)] list [OF assms(2) rs] show ?thesis by force
qed

lemma pending_items:
  assumes "en_store en = ops" and "se_keyword se = keyword" and "sound s"
    and "search_pending_embeddings en se s query fl limit threshold explain show_expired = Inr ns" and "n \<in> set ns"
  shows "\<exists>ip. item_of n ip \<and> may_be_shown (rows s) takes en se show_expired fl ip"
proof -
  obtain pf where pf: "pending_filters fl = Some pf"
    and cases: "(\<exists>q hs. keyword s q (max (limit * 4) 60) pf = Some hs \<and>
        lexical_results_from_rows en se (hit_rows hs) query limit threshold explain show_expired ''embedding_pending'' = Inr ns) \<or>
      search_without_embedding en se s query pf limit threshold explain show_expired ''embedding_pending'' = Inr ns"
    using assms(2,4,5) by (auto simp: search_pending_embeddings_def split: option.splits if_splits sum.splits)
  from cases show ?thesis
  proof (elim disjE exE conjE)
    fix q hs assume k: "keyword s q (max (limit * 4) 60) pf = Some hs"
      and l: "lexical_results_from_rows en se (hit_rows hs) query limit threshold explain show_expired ''embedding_pending'' = Inr ns"
    from lexical_rows_items [OF l assms(5)] keyword [OF assms(3) k] pf show ?thesis by (force simp: hit_rows_def may_be_shown_def)
  next
    assume "search_without_embedding en se s query pf limit threshold explain show_expired ''embedding_pending'' = Inr ns"
    from listed_items [OF assms(1,3) this assms(5)] pf show ?thesis by (auto simp: may_be_shown_def)
  qed
qed

lemma search_items:
  assumes "en_store en = ops" and "se_keyword se = keyword" and "sound (me_store m)"
    and "search_vector_store en se query fl limit threshold explain show_expired m = (m', Inr ns)" and "n \<in> set ns"
  shows "\<exists>ip. item_of n ip \<and> may_be_shown (rows (me_store m)) takes en se show_expired fl ip"
proof (cases "en_embed en query")
  case None
  then have "search_without_embedding en se (me_store m) query fl limit threshold explain show_expired ''embedding_unavailable'' = Inr ns"
    using assms(4) by (auto simp: search_vector_store_def)
  from listed_items [OF assms(1,3) this assms(5)] show ?thesis by (auto simp: may_be_shown_def)
next
  case (Some v)
  then obtain hs bm25 boosts found more where hs: "so_search ops (me_store m) v (max (limit * 4) 60) fl = Some hs"
    and found: "dense_results en se hs bm25 boosts limit threshold explain show_expired = Inr found"
    and more: "search_pending_embeddings en se (me_store m) query fl limit threshold explain show_expired = Inr more"
    and ns: "ns = merge_memory_search_results found more limit"
    using assms(1,4) by (auto simp: search_vector_store_def err_simps split: option.splits prod.splits)
  from merged(4) [of found more limit] assms(5) have "n \<in> set found \<or> n \<in> set more" by (auto simp: ns)
  then show ?thesis
  proof
    assume "n \<in> set found"
    from dense_items [OF found this] search [OF assms(3) hs] show ?thesis by (force simp: may_be_shown_def)
  next
    assume "n \<in> set more"
    from pending_items [OF assms(1-3) more this] show ?thesis .
  qed
qed

lemma search_shape:
  assumes "en_store en = ops" and "sound (me_store m)"
    and "search_vector_store en se query fl limit threshold explain show_expired m = (m', Inr ns)"
  shows "length ns \<le> limit \<and> distinct (map (entry ''id'') ns) \<and> sorted_wrt (\<lambda>a b. item_score b \<le> item_score a) ns"
proof (cases "en_embed en query")
  case None
  then obtain rs where rs: "so_list ops (me_store m) fl 100000 = Some rs"
    and ns: "lexical_results_from_rows en se rs query limit threshold explain show_expired ''embedding_unavailable'' = Inr ns"
    using assms(1,3) by (auto simp: search_vector_store_def search_without_embedding_def split: option.splits)
  from list [OF assms(2) rs] have "distinct (map fst rs)" by simp
  with ns show ?thesis by (rule lexical_rows_shape)
next
  case (Some v)
  then obtain found more where "ns = merge_memory_search_results found more limit"
    using assms(3) by (auto simp: search_vector_store_def err_simps split: option.splits prod.splits)
  then show ?thesis using merged(1-3) [of found more limit] by simp
qed

end

lemma pg_keyword_rows:
  assumes "pg_keyword_search sv t q k fl = Some hs" and "pg_sound t"
  shows "\<forall>h\<in>set hs. pg_rows t (ht_id h) = Some (ht_payload h) \<and> pg_takes sv fl (ht_payload h)"
proof -
  obtain ws where ws: "pg_where sv t fl = Some ws" and hs: "hs = take k (sort_key (\<lambda>h. - ht_score h)
      (List.map_filter (\<lambda>r. map_option (\<lambda>x. \<lparr>ht_id = pr_id r, ht_score = x, ht_payload = pr_payload r\<rparr>) (rank_of sv q r)) ws))"
    using assms(1) by (auto simp: pg_keyword_search_def split: if_splits)
  show ?thesis
  proof
    fix h assume "h \<in> set hs"
    then obtain r where "r \<in> set ws" "ht_id h = pr_id r" "ht_payload h = pr_payload r" by (auto simp: hs map_filter_set dest!: in_set_takeD)
    then show "pg_rows t (ht_id h) = Some (ht_payload h) \<and> pg_takes sv fl (ht_payload h)"
      using pg_where_rows(1) [OF ws] assms(2) by (auto simp: pg_rows_Some)
  qed
qed

interpretation pgs: searchable_store "pg_ops sv" pg_rows pg_sound "pg_takes sv" "pg_keyword_search sv" for sv :: "'v server"
  by unfold_locales (rule pg_keyword_rows)

lemma pending_project:
  "map_of fl (U ''project_id'') = Some v \<Longrightarrow> pending_filters fl = Some pf \<Longrightarrow> map_of pf (U ''project_id'') = Some v"
  by (auto simp: pending_filters_def map_of_put split: if_splits)

section \<open>Properties\<close>

text \<open>What an answer of a search in a project is: a stored memory of the project that has not expired.\<close>

definition answers ::
  "pystr \<Rightarrow> 'v server \<Rightarrow> ('v pg_table, 'e, 'v) memory_env \<Rightarrow> ('v pg_table, 'e, 'v) search_env \<Rightarrow> bool \<Rightarrow> 'v pg_table \<Rightarrow> node \<Rightarrow> bool" where
  "answers project sv en se show_expired t n \<longleftrightarrow>
    (\<exists>i p. item_of n (i, p) \<and> pg_rows t i = Some p \<and> payload_text (db_text (sv_db sv)) p (U ''project_id'') = Some project \<and>
      \<not> hidden en se show_expired p)"

text \<open>C9: What a search request is answered, with or without an embedding of its query, are stored memories of its own project, none expired
  unless asked for, no more than asked for, each memory once and the best first. The request is for one project (not the administrator's
  \<open>*\<close>) and names every filter once, none of them \<open>AND\<close>.\<close>

theorem search_answers_own_project:
  assumes "search_call project rq = Inr (q, k, t, f)" and "distinct (map fst (sr_filters rq))"
    and "U ''AND'' \<notin> fst ` set (sr_filters rq)" and "project \<noteq> U ''*''"
    and "en_store en = pg_ops sv" and "se_keyword se = pg_keyword_search sv" and "pg_sound (me_store m)"
    and "search_vector_store en se q f (nat k) t explain show_expired m = (m', Inr ns)"
  shows "list_all (answers project sv en se show_expired (me_store m)) ns \<and>
    length ns \<le> nat k \<and> distinct (map (entry ''id'') ns) \<and> sorted_wrt (\<lambda>a b. item_score b \<le> item_score a) ns"
proof
  have f: "map_of f (U ''project_id'') = Some (JStr project)" by (rule search_call_project [OF assms(1-3)])
  have own: "payload_text (db_text (sv_db sv)) p (U ''project_id'') = Some project"
    if "pg_takes sv fl p" "map_of fl (U ''project_id'') = Some (JStr project)" for fl p
    by (rule takes_text [OF that]) (use assms(4) in simp_all)
  show "list_all (answers project sv en se show_expired (me_store m)) ns"
    unfolding list_all_iff
  proof
    fix n assume "n \<in> set ns"
    from pgs.search_items [OF assms(5-8) this] obtain i p where i: "item_of n (i, p)"
      and shown: "may_be_shown (pg_rows (me_store m)) (pg_takes sv) en se show_expired f (i, p)" by auto
    then have "payload_text (db_text (sv_db sv)) p (U ''project_id'') = Some project"
      using own f pending_project [OF f] by (auto simp: may_be_shown_def)
    with i shown show "answers project sv en se show_expired (me_store m) n" by (auto simp: answers_def may_be_shown_def)
  qed
  show "length ns \<le> nat k \<and> distinct (map (entry ''id'') ns) \<and> sorted_wrt (\<lambda>a b. item_score b \<le> item_score a) ns"
    by (rule pgs.search_shape [OF assms(5,7,8)])
qed

text \<open>Lexical scores are between 0 and 1, and a text that has the phrase of the query scores at least 0.98.\<close>

theorem lexical_scores_fit:
  shows "0 \<le> lexical_score casefold query v \<and> lexical_score casefold query v \<le> 1"
  by (rule lexical_score_bounds)

lemma list_items_Cons:
  "list_items hide k limit ((i, p) # rows) = Inr ns \<longleftrightarrow>
    (if hide p then list_items hide k limit rows = Inr ns
     else \<exists>n rest. memory_item None i p = Some n \<and> ns = n # rest \<and>
       (if limit \<le> Suc k then rest = [] else list_items hide (Suc k) limit rows = Inr rest))"
  by (auto simp: err_simps split: option.splits)

declare list_items.simps(2) [simp del]

lemma list_items_length: "list_items hide k limit rows = Inr ns \<Longrightarrow> length ns \<le> max 1 (limit - k)"
proof (induction rows arbitrary: k ns)
  case (Cons row rows)
  obtain i p where row: "row = (i, p)" by force
  show ?case
  proof (cases "hide p \<or> limit \<le> Suc k")
    case True
    with Cons show ?thesis by (auto simp: row list_items_Cons split: if_splits)
  next
    case False
    with Cons.prems obtain n rest where "list_items hide (Suc k) limit rows = Inr rest" "ns = n # rest"
      by (auto simp: row list_items_Cons)
    with Cons.IH [OF this(1)] False show ?thesis by (simp add: max_def split: if_splits) auto
  qed
qed simp

lemma list_items_shown:
  "list_items hide k limit rows = Inr ns \<Longrightarrow> n \<in> set ns \<Longrightarrow> \<exists>i p. (i, p) \<in> set rows \<and> \<not> hide p \<and> memory_item None i p = Some n"
proof (induction rows arbitrary: k ns)
  case (Cons row rows)
  obtain i p where row: "row = (i, p)" by force
  consider "list_items hide k limit rows = Inr ns"
    | rest where "\<not> hide p" "memory_item None i p = Some n" | rest where "list_items hide (Suc k) limit rows = Inr rest" "n \<in> set rest"
    using Cons.prems by (auto simp: row list_items_Cons split: if_splits)
  then show ?case
  proof cases
    case 1
    from Cons.IH [OF this Cons.prems(2)] show ?thesis by auto
  next
    case 3
    from Cons.IH [OF this] show ?thesis by auto
  qed (auto simp: row)
qed simp

text \<open>Where no more can be shown than asked for, all of them are.\<close>

lemma list_items_all:
  "list_items hide k limit rows = Inr ns \<Longrightarrow> length (filter (\<lambda>(i, p). \<not> hide p) rows) + k \<le> limit \<Longrightarrow>
   (i, p) \<in> set rows \<Longrightarrow> \<not> hide p \<Longrightarrow> memory_item None i p = Some n \<Longrightarrow> n \<in> set ns"
proof (induction rows arbitrary: k ns)
  case (Cons row rows)
  obtain j q where row: "row = (j, q)" by force
  show ?case
  proof (cases "hide q")
    case True
    with Cons show ?thesis by (auto simp: row list_items_Cons)
  next
    case False
    with Cons.prems(1) obtain m rest where m: "memory_item None j q = Some m" "ns = m # rest"
      "if limit \<le> Suc k then rest = [] else list_items hide (Suc k) limit rows = Inr rest"
      by (auto simp: row list_items_Cons)
    show ?thesis
    proof (cases "(i, p) = (j, q)")
      case True
      with m Cons.prems(5) show ?thesis by simp
    next
      case other: False
      with Cons.prems(3) have mem: "(i, p) \<in> set rows" by (auto simp: row)
      with Cons.prems(4) have "filter (\<lambda>(i, p). \<not> hide p) rows \<noteq> []" by (auto simp: filter_empty_conv)
      with Cons.prems(2) False have "\<not> limit \<le> Suc k" by (cases "filter (\<lambda>(i, p). \<not> hide p) rows") (auto simp: row)
      with m have "list_items hide (Suc k) limit rows = Inr rest" by simp
      from Cons.IH [OF this _ mem Cons.prems(4,5)] Cons.prems(2) False m(2) show ?thesis by (simp add: row)
    qed
  qed
qed simp

text \<open>C40: Listing a scope gives at most as many memories as asked for, though one where none is asked for, all stored, of the scope and, unless they
  are asked for, not expired; and it gives all of them where the store has fewer rows of the scope than are fetched and no more can be shown
  than asked for.\<close>

theorem get_all_lists_scope:
  assumes "en_store en = pg_ops sv" and "pg_sound (me_store m)"
    and "get_all en se fl top_k show_expired m = Inr (Inr ns)" and "scoped_filters fl = Inr f"
    and "pg_list sv (me_store m) f (if show_expired then nat top_k else max (nat top_k * 4) 60) = Some rows"
  shows "length ns \<le> max 1 (nat top_k) \<and>
    list_all (\<lambda>n. \<exists>i p. memory_item None i p = Some n \<and> pg_rows (me_store m) i = Some p \<and> pg_takes sv f p \<and> \<not> hidden en se show_expired p) ns \<and>
    (length rows < (if show_expired then nat top_k else max (nat top_k * 4) 60) \<and>
     length (filter (\<lambda>(i, p). \<not> hidden en se show_expired p) rows) \<le> nat top_k \<longrightarrow>
       (\<forall>i p n. pg_rows (me_store m) i = Some p \<longrightarrow> pg_takes sv f p \<longrightarrow> \<not> hidden en se show_expired p \<longrightarrow>
         memory_item None i p = Some n \<longrightarrow> n \<in> set ns))"
proof -
  have ns: "list_items (hidden en se show_expired) 0 (nat top_k) rows = Inr ns"
    using assms(1,3-5) by (auto simp: get_all_def err_simps Let_def)
  note rows = pg_list_rows [OF assms(5,2)]
  have shown: "\<exists>i p. memory_item None i p = Some n \<and> pg_rows (me_store m) i = Some p \<and> pg_takes sv f p \<and> \<not> hidden en se show_expired p"
    if "n \<in> set ns" for n
    using list_items_shown [OF ns that] rows(2) by blast
  have complete: "n \<in> set ns"
    if "length rows < (if show_expired then nat top_k else max (nat top_k * 4) 60)"
      "length (filter (\<lambda>(i, p). \<not> hidden en se show_expired p) rows) \<le> nat top_k"
      "pg_rows (me_store m) i = Some p" "pg_takes sv f p" "\<not> hidden en se show_expired p" "memory_item None i p = Some n" for i p n
  proof -
    have "(i, p) \<in> set rows" using rows(3) [OF that(1,3,4)] .
    from list_items_all [OF ns _ this that(5,6)] that(2) show ?thesis by simp
  qed
  show ?thesis using list_items_length [OF ns] shown complete by (simp add: list_all_iff)
qed

section \<open>Examples\<close>

definition ranked_server :: "rat server" where
  "ranked_server = example_server\<lparr>sv_rank := (\<lambda>q t. Some 1)\<rparr>"

definition ranked_env :: "(rat pg_table, rat pg_table, rat) memory_env" where
  "ranked_env = example_env\<lparr>en_store := pg_ops ranked_server\<rparr>"

definition example_find :: "(rat pg_table, rat pg_table, rat) search_env" where
  "example_find =
    \<lparr>se_fold = lower_text, se_day = (\<lambda>s. if s = U ''2020-01-01'' then Some 20 else None), se_today = 25, se_sigmoid = (\<lambda>x m s. 1 / 2),
     se_keyword = pg_keyword_search ranked_server, se_embed_batch = (\<lambda>ss. Some (map (\<lambda>s. 1) ss))\<rparr>"

definition project_row :: "string \<Rightarrow> string \<Rightarrow> string \<Rightarrow> (string \<times> string) list \<Rightarrow> rat option \<Rightarrow> rat pg_row" where
  "project_row i project data extra v =
    \<lparr>pr_id = U i, pr_vector = v,
     pr_payload = [(U ''data'', JStr (U data)), (U ''project_id'', JStr (U project)), (U ''user_id'', JStr (U ''u1''))] @
       map (\<lambda>(k, w). (U k, JStr (U w))) extra\<rparr>"

definition searched_memory :: "(rat pg_table, rat pg_table) memory" where
  "searched_memory = empty_memory\<lparr>me_store :=
    [project_row ''m1'' ''p2'' ''tea'' [] (Some 1), project_row ''m2'' ''p1'' ''tea'' [] (Some 1),
     project_row ''m3'' ''p1'' ''I live in Rome'' [(''embedding_status'', ''pending''), (''text_lemmatized'', ''live rome'')] None,
     project_row ''m4'' ''p1'' ''old'' [(''expiration_date'', ''2020-01-01'')] (Some 1)]\<rparr>"

definition search_ids :: "pystr \<Rightarrow> search_request \<Rightarrow> json list option" where
  "search_ids project rq =
    (case search_call project rq of
       Inl e \<Rightarrow> None
     | Inr (q, k, t, f) \<Rightarrow>
         (case snd (search_vector_store ranked_env example_find q f (nat k) t False False searched_memory) of
            Inl e \<Rightarrow> None | Inr ns \<Rightarrow> Some (map (entry ''id'') ns)))"

definition shown_ids :: "search_error + node list \<Rightarrow> json list option" where
  "shown_ids r = (case r of Inl e \<Rightarrow> None | Inr ns \<Rightarrow> Some (map (entry ''id'') ns))"

lemma search_ids_eval:
  "search_ids (U ''p1'') (example_search [(U ''project_id'', JStr (U ''p2''))]) = Some [JStr (U ''m2''), JStr (U ''m3'')]"
  by code_simp

lemma search_answers_own_project_witness:
  "\<exists>q k t f m ns. search_call (U ''p1'') (example_search [(U ''project_id'', JStr (U ''p2''))]) = Inr (q, k, t, f) \<and>
    search_vector_store ranked_env example_find q f (nat k) t False False searched_memory = (m, Inr ns) \<and>
    map (entry ''id'') ns = [JStr (U ''m2''), JStr (U ''m3'')] \<and>
    list_all (answers (U ''p1'') ranked_server ranked_env example_find False (me_store searched_memory)) ns"
proof -
  let ?rq = "example_search [(U ''project_id'', JStr (U ''p2''))]"
  obtain q k t f where r: "search_call (U ''p1'') ?rq = Inr (q, k, t, f)"
    using search_ids_eval by (cases "search_call (U ''p1'') ?rq") (auto simp: search_ids_def)
  obtain m y where y: "search_vector_store ranked_env example_find q f (nat k) t False False searched_memory = (m, y)" by force
  obtain ns where n: "y = Inr ns" "map (entry ''id'') ns = [JStr (U ''m2''), JStr (U ''m3'')]"
    using search_ids_eval unfolding search_ids_def r sum.case prod.case y snd_conv by (cases y) simp_all
  note ns = y [unfolded n(1)]
  have sound: "pg_sound (me_store searched_memory)" by (simp add: searched_memory_def pg_sound_def project_row_def)
  have env: "en_store ranked_env = pg_ops ranked_server" "se_keyword example_find = pg_keyword_search ranked_server"
    by (simp_all add: ranked_env_def example_find_def)
  have own: "distinct (map fst (sr_filters ?rq))" "U ''AND'' \<notin> fst ` set (sr_filters ?rq)" "U ''p1'' \<noteq> U ''*''"
    by (simp_all add: example_search_def)
  show ?thesis
    by (intro exI conjI, rule r, rule ns, rule n(2), rule conjunct1 [OF search_answers_own_project [OF r own env sound ns]])
qed

definition listing_filters :: node where
  "listing_filters = [(U ''user_id'', JStr (U ''u1'')), (U ''project_id'', JStr (U ''p1''))]"

definition listed_ids :: "int \<Rightarrow> (rat pg_table, rat pg_table) memory \<Rightarrow> json list option" where
  "listed_ids top_k m =
    (case get_all example_env example_find listing_filters top_k False m of Inl e \<Rightarrow> None | Inr r \<Rightarrow> shown_ids r)"

lemma listed_ids_eval: "listed_ids 5 searched_memory = Some [JStr (U ''m2''), JStr (U ''m3'')]"
  by code_simp

lemma listing_scope: "scoped_filters listing_filters = Inr listing_filters"
  by code_simp

lemma get_all_lists_scope_witness:
  "\<exists>ns. get_all example_env example_find listing_filters 5 False searched_memory = Inr (Inr ns) \<and> length ns = 2 \<and>
    list_all (\<lambda>n. \<exists>i p. memory_item None i p = Some n \<and> pg_rows (me_store searched_memory) i = Some p \<and>
      pg_takes example_server listing_filters p \<and> \<not> hidden example_env example_find False p) ns"
proof -
  obtain ns where ns: "get_all example_env example_find listing_filters 5 False searched_memory = Inr (Inr ns)"
    and ids: "map (entry ''id'') ns = [JStr (U ''m2''), JStr (U ''m3'')]"
    using listed_ids_eval by (auto simp: listed_ids_def shown_ids_def split: sum.splits)
  from ids have "length ns = 2" by (metis length_map length_Cons list.size(3) numeral_2_eq_2)
  moreover have store: "en_store example_env = pg_ops example_server" by (simp add: example_env_def)
  moreover have sound: "pg_sound (me_store searched_memory)" by (simp add: searched_memory_def pg_sound_def project_row_def)
  moreover obtain rows where rows: "pg_list example_server (me_store searched_memory) listing_filters (if False then nat 5 else max (nat 5 * 4) 60) = Some rows"
    using ns store listing_scope by (auto simp: get_all_def err_simps Let_def split: option.splits)
  ultimately show ?thesis
    using ns get_all_lists_scope [OF store sound ns listing_scope rows] by auto
qed

section \<open>What the code does not do\<close>

text \<open>Asked for no memory, the listing gives one.\<close>

lemma none_asked_one_listed: "listed_ids 0 searched_memory = Some [JStr (U ''m2'')]"
  by code_simp

text \<open>The store is asked for a limited number of rows before the expired ones are left out: behind that many expired memories, others
  are not listed.\<close>

lemma expired_hide_others:
  "listed_ids 1 (searched_memory\<lparr>me_store := map (\<lambda>i. project_row (replicate i (CHR ''x'')) ''p1'' ''old'' [(''expiration_date'', ''2020-01-01'')] None) [0..<60] @
     [project_row ''m2'' ''p1'' ''tea'' [] (Some 1)]\<rparr>) = Some []"
  by code_simp

text \<open>The threshold is compared with the similarity; once another memory matches the words of the query, the score shown is half of it.\<close>

lemma score_below_threshold:
  "map sc_score (score_and_rank [candidate_of \<lparr>ht_id = U ''m1'', ht_score = 1 / 2, ht_payload = []\<rparr>] [(U ''m2'', 1 / 2)] [] (1 / 2) 10 False) = [1 / 4]"
  by code_simp

end
