(* ===== verification/Mem_Add.thy ===== *)
theory Mem_Add
  imports Mem_Import
begin

text \<open>
  The standard way of adding memories (mem0/memory/main.py: \<open>_add_to_vector_store\<close> without a context, and \<open>add\<close> around it): the messages themselves,
  or what the model extracts from them. The lookup of hashes in one query, which a store may lack or which may fail, is
  given with the environment, as are the model's answer to the memories found and the last messages, and the check of the capacity. The
  calls of one scope come one after the other, by a lock of the scope from a pool of locks. Procedural memories, images and telemetry are
  left out.
\<close>

section \<open>The locks of the scopes\<close>

text \<open>\<open>_KeyedLockPool\<close>: of every key in use its lock, which is the number under which the factory made it, and its leases.\<close>

record lock_pool =
  lp_entries :: "(pystr \<times> nat \<times> int) list"
  lp_made :: nat

definition lease_lock :: "pystr \<Rightarrow> lock_pool \<Rightarrow> lock_pool \<times> nat" where
  "lease_lock key p =
    (case map_of (lp_entries p) key of
       None \<Rightarrow> (\<lparr>lp_entries = AList.update key (lp_made p, 1) (lp_entries p), lp_made = Suc (lp_made p)\<rparr>, lp_made p)
     | Some (l, n) \<Rightarrow> (p\<lparr>lp_entries := AList.update key (l, n + 1) (lp_entries p)\<rparr>, l))"

definition release_lock :: "pystr \<Rightarrow> nat \<Rightarrow> lock_pool \<Rightarrow> lock_pool" where
  "release_lock key lock p =
    (case map_of (lp_entries p) key of
       None \<Rightarrow> p
     | Some (l, n) \<Rightarrow>
         if l \<noteq> lock then p
         else if n - 1 = 0 then p\<lparr>lp_entries := AList.delete key (lp_entries p)\<rparr>
         else p\<lparr>lp_entries := AList.update key (l, n - 1) (lp_entries p)\<rparr>)"

text \<open>Where a thread is in \<open>_add_to_vector_store\<close>, with its scope and the lock it was given.\<close>

datatype add_phase = Outside | Leased pystr nat | Inside pystr nat | Left pystr nat

fun leased_key :: "add_phase \<Rightarrow> (pystr \<times> nat) option" where
  "leased_key Outside = None"
| "leased_key (Leased key l) = Some (key, l)"
| "leased_key (Inside key l) = Some (key, l)"
| "leased_key (Left key l) = Some (key, l)"

text \<open>A lock is one thread's at a time. A thread that is interrupted while it waits gives its lease back too.\<close>

inductive add_thread_step :: "lock_pool \<times> add_phase list \<Rightarrow> lock_pool \<times> add_phase list \<Rightarrow> bool" where
  lease: "i < length ts \<Longrightarrow> ts ! i = Outside \<Longrightarrow> lease_lock key p = (p', l) \<Longrightarrow> add_thread_step (p, ts) (p', ts[i := Leased key l])"
| enter: "i < length ts \<Longrightarrow> ts ! i = Leased key l \<Longrightarrow> list_all (\<lambda>t. case t of Inside k l' \<Rightarrow> l' \<noteq> l | _ \<Rightarrow> True) ts \<Longrightarrow>
    add_thread_step (p, ts) (p, ts[i := Inside key l])"
| leave: "i < length ts \<Longrightarrow> ts ! i = Inside key l \<Longrightarrow> add_thread_step (p, ts) (p, ts[i := Left key l])"
| release: "i < length ts \<Longrightarrow> ts ! i = Leased key l \<or> ts ! i = Left key l \<Longrightarrow>
    add_thread_step (p, ts) (release_lock key l p, ts[i := Outside])"

inductive add_threads_reach :: "nat \<Rightarrow> lock_pool \<times> add_phase list \<Rightarrow> bool" for n where
  start: "add_threads_reach n (\<lparr>lp_entries = [], lp_made = 0\<rparr>, replicate n Outside)"
| further: "add_threads_reach n c \<Longrightarrow> add_thread_step c c' \<Longrightarrow> add_threads_reach n c'"

record ('s, 'v) add_env =
  ae_existing :: "'s \<Rightarrow> pystr list \<Rightarrow> node \<Rightarrow> pystr list option"
  ae_room :: "nat \<Rightarrow> bool"
  ae_parse :: "node list \<Rightarrow> pystr"
  ae_ask :: "hit list \<Rightarrow> message_row list \<Rightarrow> json option"
  ae_loads :: "pystr \<Rightarrow> pystr + json"
  ae_embed_batch :: "pystr list \<Rightarrow> 'v option list option"
  ae_extract_batch :: "pystr list \<Rightarrow> (pystr \<times> pystr) list list option"
  ae_uuid5 :: "pystr \<Rightarrow> pystr"
  ae_place :: "pystr \<Rightarrow> nat"

datatype adding_error =
    BadScope scope_error
  | BadContentPart
  | NotText
  | NoCapacity
  | NoModelAnswer
  | BadModelAnswer answer_error
  | AddFailed memory_error

section \<open>Exact duplicates\<close>

text \<open>\<open>_existing_payload_values\<close> of hashes: the store's own lookup, one listing, or a listing for each.\<close>

definition existing_hashes :: "('s, 'e, 'v) memory_env \<Rightarrow> ('s, 'v) add_env \<Rightarrow> 's \<Rightarrow> pystr list \<Rightarrow> node \<Rightarrow> pystr list" where
  "existing_hashes en ae s values fl =
    (if values = [] then []
     else case ae_existing ae s values fl of
       Some vs \<Rightarrow> filter (\<lambda>v. v \<in> set values) vs
     | None \<Rightarrow>
         let rows = (case so_list (en_store en) s (put ''hash'' (JArr (map JStr values)) fl) (length values) of
               Some rs \<Rightarrow> rs
             | None \<Rightarrow> concat (map (\<lambda>v. case so_list (en_store en) s (put ''hash'' (JStr v) fl) 1 of None \<Rightarrow> [] | Some rs \<Rightarrow> rs) values))
         in List.map_filter (\<lambda>(i, p). if p \<noteq> [] \<and> str_of (en_text_of en) (entry ''hash'' p) \<in> set values
               then Some (str_of (en_text_of en) (entry ''hash'' p)) else None) rows)"

section \<open>Raw messages\<close>

text \<open>\<open>parse_vision_messages\<close> without a model: parts that are no text are left out.\<close>

definition text_part :: "json \<Rightarrow> json option" where
  "text_part v =
    (case v of JObj n \<Rightarrow> if entry ''type'' n = JStr (U ''text'') then Some (entry ''text'' n) else None | _ \<Rightarrow> None)"

definition vision_message :: "node \<Rightarrow> adding_error + node list" where
  "vision_message n =
    (if entry ''role'' n = JStr (U ''system'') then Inr [n]
     else case entry ''content'' n of
       JNull \<Rightarrow> Inr []
     | JArr vs \<Rightarrow>
         let parts = List.map_filter text_part vs
         in if parts = [] then Inr []
            else if list_all (\<lambda>v. case v of JStr s \<Rightarrow> True | _ \<Rightarrow> False) parts
            then Inr [[(U ''role'', entry ''role'' n), (U ''content'', JStr (join_with (U '' '') (map (\<lambda>v. case v of JStr s \<Rightarrow> s | _ \<Rightarrow> []) parts)))]]
            else Inl BadContentPart
     | JObj c \<Rightarrow> if entry ''type'' c = JStr (U ''image_url'') then Inr [] else Inr [n]
     | _ \<Rightarrow> Inr [n])"

fun parse_vision_messages :: "node list \<Rightarrow> adding_error + node list" where
  "parse_vision_messages [] = Inr []"
| "parse_vision_messages (n # ns) =
    bind_err (vision_message n) (\<lambda>xs. bind_err (parse_vision_messages ns) (\<lambda>ys. Inr (xs @ ys)))"

definition raw_candidates :: "node list \<Rightarrow> node list" where
  "raw_candidates messages =
    filter (\<lambda>n. entry ''role'' n \<noteq> JNull \<and> entry ''content'' n \<noteq> JNull \<and> entry ''role'' n \<noteq> JStr (U ''system'')) messages"

definition raw_hashes :: "('s, 'e, 'v) memory_env \<Rightarrow> node list \<Rightarrow> pystr list" where
  "raw_hashes en ns =
    dedup (List.map_filter (\<lambda>n. case entry ''content'' n of JStr s \<Rightarrow> Some (content_hash en s) | _ \<Rightarrow> None) ns)"

fun select_raw :: "('s, 'e, 'v) memory_env \<Rightarrow> pystr list \<Rightarrow> node list \<Rightarrow> adding_error + (node \<times> pystr \<times> pystr) list" where
  "select_raw en seen [] = Inr []"
| "select_raw en seen (n # ns) =
    (case entry ''content'' n of
       JStr s \<Rightarrow>
         let h = content_hash en s
         in if h \<in> set seen then select_raw en seen ns
            else bind_err (select_raw en (h # seen) ns) (\<lambda>rest. Inr ((n, s, h) # rest))
     | _ \<Rightarrow> Inl NotText)"

definition raw_categories :: "('s, 'e, 'v) memory_env \<Rightarrow> node \<Rightarrow> pystr list" where
  "raw_categories en md = own_categories (en_text_of en) (without ''_allowed_categories'' md) (allowed_categories (en_text_of en) md)"

definition raw_metadata :: "('s, 'e, 'v) memory_env \<Rightarrow> node \<Rightarrow> node \<Rightarrow> node" where
  "raw_metadata en md n =
    (let base = without ''_allowed_categories'' md; cs = raw_categories en md;
         p = put ''role'' (entry ''role'' n)
           (if cs = [] then without ''categories'' base else put ''categories'' (JArr (map JStr cs)) base)
     in if json_truthy (entry ''name'' n) then put ''actor_id'' (entry ''name'' n) p else p)"

definition raw_item :: "('s, 'e, 'v) memory_env \<Rightarrow> node \<Rightarrow> pystr \<Rightarrow> pystr \<Rightarrow> node \<Rightarrow> node" where
  "raw_item en md i s n =
    [(U ''id'', JStr i), (U ''memory'', JStr s), (U ''event'', JStr (U ''ADD'')),
     (U ''actor_id'', if json_truthy (entry ''name'' n) then entry ''name'' n else JNull), (U ''role'', entry ''role'' n)] @
    (if raw_categories en md = [] then [] else [(U ''categories'', JArr (map JStr (raw_categories en md)))])"

text \<open>The vector of a text: none, with the text marked, where it cannot be had and the store takes texts without.\<close>

definition optional_vector :: "('s, 'e, 'v) memory_env \<Rightarrow> pystr \<Rightarrow> adding_error + 'v option" where
  "optional_vector en s =
    (case en_embed en s of
       Some v \<Rightarrow> Inr (Some v)
     | None \<Rightarrow> if so_lexical_only (en_store en) then Inr None else Inl (AddFailed EmbeddingFailed))"

fun add_raw_each ::
  "('s, 'e, 'v) memory_env \<Rightarrow> ('s, 'v) add_env \<Rightarrow> node \<Rightarrow> node \<Rightarrow> bool \<Rightarrow> (node \<times> pystr \<times> pystr) list \<Rightarrow> ('s, 'e) memory
   \<Rightarrow> ('s, 'e) memory \<times> (adding_error + node list)" where
  "add_raw_each en ae md fl unavailable [] m = (m, Inr [])"
| "add_raw_each en ae md fl unavailable ((n, s, h) # rest) m =
    (case (if unavailable then Inr None else optional_vector en s) of
       Inl e \<Rightarrow> (m, Inl e)
     | Inr v \<Rightarrow>
         let meta = raw_metadata en md n; i = memory_id_for_hash (en_text_of en) (ae_uuid5 ae) fl h
         in (case create_memory en s [(s, v)] (if v = None then mark_embedding_pending meta else meta) (Some i) True m of
               (m1, Inl e) \<Rightarrow> (m1, Inl (AddFailed e))
             | (m1, Inr created) \<Rightarrow>
                 (case add_raw_each en ae md fl unavailable rest m1 of
                    (m2, Inl e) \<Rightarrow> (m2, Inl e)
                  | (m2, Inr items) \<Rightarrow>
                      (m2, Inr (case created of None \<Rightarrow> items | Some j \<Rightarrow> raw_item en md j s n # items)))))"

definition add_raw ::
  "('s, 'e, 'v) memory_env \<Rightarrow> ('s, 'v) add_env \<Rightarrow> node list \<Rightarrow> node \<Rightarrow> node \<Rightarrow> bool \<Rightarrow> ('s, 'e) memory \<Rightarrow> ('s, 'e) memory \<times> (adding_error + node list)" where
  "add_raw en ae messages md fl unavailable m =
    (let ns = raw_candidates messages; known = existing_hashes en ae (me_store m) (raw_hashes en ns) (scope_filters fl)
     in case select_raw en known ns of
          Inl e \<Rightarrow> (m, Inl e)
        | Inr chosen \<Rightarrow>
            if \<not> ae_room ae (length chosen) then (m, Inl NoCapacity)
            else add_raw_each en ae md fl unavailable chosen m)"

section \<open>What the model extracts\<close>

definition save_plain_messages ::
  "('s, 'e, 'v) memory_env \<Rightarrow> ('s, 'v) add_env \<Rightarrow> node \<Rightarrow> node list \<Rightarrow> 'a \<Rightarrow> ('s, 'e) memory \<Rightarrow> ('s, 'e) memory \<times> (adding_error + 'a)" where
  "save_plain_messages en ae fl messages result m =
    (let fresh = map (\<lambda>i. en_random en (me_drawn m + i)) [0..<length messages]; m1 = m\<lparr>me_drawn := me_drawn m + length messages\<rparr>
     in case save_messages (ae_place ae) (en_now en) fresh (me_db m) messages (build_session_scope (en_text_of en) fl) None of
          None \<Rightarrow> (m1, Inl (AddFailed HistoryFailed))
        | Some d \<Rightarrow> (m1\<lparr>me_db := d\<rparr>, Inr result))"

definition known_hashes :: "('s, 'e, 'v) memory_env \<Rightarrow> ('s, 'v) add_env \<Rightarrow> 's \<Rightarrow> node \<Rightarrow> hit list \<Rightarrow> node list \<Rightarrow> pystr list" where
  "known_hashes en ae s fl hs ns =
    existing_hashes en ae s (dedup (map (\<lambda>n. content_hash en (memory_text n)) (filter (\<lambda>n. memory_text n \<noteq> []) ns))) fl @
    List.map_filter (\<lambda>h. if json_truthy (entry ''hash'' (ht_payload h)) then Some (str_of (en_text_of en) (entry ''hash'' (ht_payload h))) else None) hs @
    List.map_filter (\<lambda>h. case entry ''data'' (ht_payload h) of JStr s \<Rightarrow> Some (content_hash en s) | _ \<Rightarrow> None) hs"

fun select_new :: "('s, 'e, 'v) memory_env \<Rightarrow> pystr list \<Rightarrow> node list \<Rightarrow> (node \<times> pystr) list" where
  "select_new en seen [] = []"
| "select_new en seen (n # ns) =
    (let h = content_hash en (memory_text n)
     in if memory_text n = [] \<or> h \<in> set seen then select_new en seen ns else (n, h) # select_new en (h # seen) ns)"

text \<open>Vectors that the batch lacks are asked for one by one.\<close>

definition batch_vectors :: "('s, 'v) add_env \<Rightarrow> pystr list \<Rightarrow> (pystr \<times> 'v) list" where
  "batch_vectors ae ss =
    (case ae_embed_batch ae ss of
       Some vs \<Rightarrow> List.map_filter (\<lambda>(s, v). map_option (\<lambda>w. (s, w)) v) (zip ss vs)
     | None \<Rightarrow> [])"

fun embed_texts :: "('s, 'e, 'v) memory_env \<Rightarrow> (pystr \<times> 'v) list \<Rightarrow> pystr list \<Rightarrow> adding_error + 'v option list" where
  "embed_texts en known [] = Inr []"
| "embed_texts en known (s # ss) =
    bind_err (case map_of known s of Some v \<Rightarrow> Inr (Some v) | None \<Rightarrow> optional_vector en s) (\<lambda>v.
      bind_err (embed_texts en known ss) (\<lambda>vs. Inr (v # vs)))"

definition added_payload :: "('s, 'e, 'v) memory_env \<Rightarrow> node \<Rightarrow> node \<Rightarrow> pystr \<Rightarrow> 'v option \<Rightarrow> node" where
  "added_payload en md n h v =
    (let p0 = put ''hash'' (JStr h) (put ''text_lemmatized'' (JStr (en_lemmatize en (memory_text n)))
           (put ''data'' (JStr (memory_text n)) (without ''_allowed_categories'' md)));
         p1 = (if has_key ''created_at'' p0 then p0 else put ''created_at'' (JStr (en_now en)) p0);
         p2 = put ''updated_at'' (entry ''created_at'' p1) p1;
         p3 = (if json_truthy (entry ''attributed_to'' n) then put ''attributed_to'' (entry ''attributed_to'' n) p2 else p2);
         cs = own_categories (en_text_of en) n (allowed_categories (en_text_of en) md);
         p4 = (if cs = [] then p3 else put ''categories'' (JArr (map JStr cs)) p3)
     in case v of None \<Rightarrow> mark_embedding_pending p4 | Some w \<Rightarrow> without ''embedding_status'' p4)"

type_synonym 'v added_record = "pystr \<times> pystr \<times> 'v option \<times> node"

definition added_record ::
  "('s, 'e, 'v) memory_env \<Rightarrow> ('s, 'v) add_env \<Rightarrow> node \<Rightarrow> node \<Rightarrow> (node \<times> pystr) \<times> 'v option \<Rightarrow> 'v added_record" where
  "added_record en ae md fl c =
    (case c of ((n, h), v) \<Rightarrow>
      (memory_id_for_hash (en_text_of en) (ae_uuid5 ae) fl h, memory_text n, v, added_payload en md n h v))"

definition insert_added :: "('s, 'e, 'v) memory_env \<Rightarrow> 'v added_record list \<Rightarrow> 's \<Rightarrow> 's option" where
  "insert_added en rs s = so_insert (en_store en) s (map (\<lambda>(i, d, v, p). (i, v, p)) rs)"

fun insert_added_each :: "('s, 'e, 'v) memory_env \<Rightarrow> 'v added_record list \<Rightarrow> 's \<Rightarrow> 's \<times> 'v added_record list" where
  "insert_added_each en [] s = (s, [])"
| "insert_added_each en (r # rs) s =
    (case insert_added en [r] s of
       None \<Rightarrow> insert_added_each en rs s
     | Some s1 \<Rightarrow> (case insert_added_each en rs s1 of (s2, kept) \<Rightarrow> (s2, r # kept)))"

definition persist_added :: "('s, 'e, 'v) memory_env \<Rightarrow> 'v added_record list \<Rightarrow> 's \<Rightarrow> 's \<times> 'v added_record list" where
  "persist_added en rs s = (case insert_added en rs s of Some s1 \<Rightarrow> (s1, rs) | None \<Rightarrow> insert_added_each en rs s)"

definition added_row :: "pystr \<Rightarrow> 'v added_record \<Rightarrow> history_row" where
  "added_row h r =
    (case r of (i, d, v, p) \<Rightarrow>
      \<lparr>hr_id = h, hr_memory = JStr i, hr_old = JNull, hr_new = JStr d, hr_event = JStr (U ''ADD''), hr_created = entry ''created_at'' p,
       hr_updated = JNull, hr_deleted = 0, hr_actor = JNull, hr_role = JNull, hr_project = entry ''project_id'' p\<rparr>)"

text \<open>One transaction, or, where that fails, a row after the other, without those that fail too.\<close>

fun record_added_each :: "('s, 'e, 'v) memory_env \<Rightarrow> 'v added_record list \<Rightarrow> ('s, 'e) memory \<Rightarrow> ('s, 'e) memory" where
  "record_added_each en [] m = m"
| "record_added_each en (r # rs) m =
    (let (h, m1) = drawn en m
     in record_added_each en rs (case add_history (me_db m1) (added_row h r) of None \<Rightarrow> m1 | Some d \<Rightarrow> m1\<lparr>me_db := d\<rparr>))"

definition record_added :: "('s, 'e, 'v) memory_env \<Rightarrow> 'v added_record list \<Rightarrow> ('s, 'e) memory \<Rightarrow> ('s, 'e) memory" where
  "record_added en rs m =
    (let fresh = map (\<lambda>i. en_random en (me_drawn m + i)) [0..<length rs]; m1 = m\<lparr>me_drawn := me_drawn m + length rs\<rparr>
     in case batch_add_history False (me_db m1) (map2 added_row fresh rs) of
          Some d \<Rightarrow> m1\<lparr>me_db := d\<rparr>
        | None \<Rightarrow> record_added_each en rs m1)"

section \<open>Entities\<close>

definition gather_entity :: "pystr \<Rightarrow> pystr \<times> pystr \<Rightarrow> (pystr \<times> pystr \<times> pystr \<times> pystr list) list \<Rightarrow> (pystr \<times> pystr \<times> pystr \<times> pystr list) list" where
  "gather_entity memory_id e found =
    (let key = normalize_entity_text (snd e)
     in if key \<in> fst ` set found then
          map (\<lambda>(k, kind, name, ids). if k = key then (k, kind, name, if memory_id \<in> set ids then ids else ids @ [memory_id]) else (k, kind, name, ids)) found
        else found @ [(key, fst e, snd e, [memory_id])])"

definition padded_vectors :: "('s, 'e, 'v) memory_env \<Rightarrow> ('s, 'v) add_env \<Rightarrow> pystr list \<Rightarrow> 'v option list" where
  "padded_vectors en ae ss =
    (let vs = (case ae_embed_batch ae ss of Some vs \<Rightarrow> vs | None \<Rightarrow> map (en_embed en) ss)
     in take (length ss) vs @ replicate (length ss - length vs) None)"

fun link_found ::
  "('s, 'e, 'v) memory_env \<Rightarrow> (pystr \<times> pystr \<times> node) list \<Rightarrow> ('v found_entity \<times> hit list) list \<Rightarrow> 'e \<Rightarrow> 'e \<times> 'v found_entity list" where
  "link_found en exact [] e = (e, [])"
| "link_found en exact ((((key, kind, name, ids), v), near) # rest) e =
    (case entity_match key exact near of
       Some (i, p) \<Rightarrow> link_found en exact rest (case union_entity_linked_memory_ids en e i p ids of None \<Rightarrow> e | Some (e1, updated) \<Rightarrow> e1)
     | None \<Rightarrow> (case link_found en exact rest e of (e1, new) \<Rightarrow> (e1, ((key, kind, name, ids), v) # new)))"

definition insert_found :: "('s, 'e, 'v) memory_env \<Rightarrow> node \<Rightarrow> 'v found_entity list \<Rightarrow> ('s, 'e) memory \<Rightarrow> ('s, 'e) memory" where
  "insert_found en fl new m =
    (let fresh = map (\<lambda>i. en_random en (me_drawn m + i)) [0..<length new]; m1 = m\<lparr>me_drawn := me_drawn m + length new\<rparr>;
         rows = map2 (\<lambda>i f. case f of ((key, kind, name, ids), v) \<Rightarrow> (i, Some v, entity_payload name kind (sort ids) fl)) fresh new
     in if new = [] then m
        else case so_insert (en_entity en) (me_entities m1) rows of None \<Rightarrow> m1 | Some e \<Rightarrow> m1\<lparr>me_entities := e\<rparr>)"

definition link_added ::
  "('s, 'e, 'v) memory_env \<Rightarrow> ('s, 'v) add_env \<Rightarrow> node \<Rightarrow> 'v added_record list \<Rightarrow> ('s, 'e) memory \<Rightarrow> ('s, 'e) memory" where
  "link_added en ae fl rs m =
    (case ae_extract_batch ae (map (\<lambda>(i, d, v, p). d) rs) of
       None \<Rightarrow> m
     | Some ess \<Rightarrow>
         let found = fold (\<lambda>(r, es) found. fold (gather_entity (fst r)) es found) (zip rs ess) [];
             valid = List.map_filter (\<lambda>(f, v). map_option (\<lambda>w. (f, w)) v) (zip found (padded_vectors en ae (map (\<lambda>(k, kind, name, ids). name) found)))
         in if valid = [] then m
            else
              let m1 = m\<lparr>me_entities_open := True\<rparr>; e = me_entities m;
                  exact = (case existing_entities_by_text en e fl of None \<Rightarrow> [] | Some xs \<Rightarrow> xs)
              in case search_batch (en_entity en) e fl (map snd valid) of
                   None \<Rightarrow> m1
                 | Some near \<Rightarrow>
                     (case link_found en exact (zip valid near) e of (e1, new) \<Rightarrow> insert_found en fl new (m1\<lparr>me_entities := e1\<rparr>)))"

section \<open>The whole\<close>

definition store_new ::
  "('s, 'e, 'v) memory_env \<Rightarrow> ('s, 'v) add_env \<Rightarrow> node list \<Rightarrow> node \<Rightarrow> 'v added_record list \<Rightarrow> ('s, 'e) memory
   \<Rightarrow> ('s, 'e) memory \<times> (adding_error + 'v added_record list)" where
  "store_new en ae messages fl rs m =
    (case persist_added en rs (me_store m) of
       (s, kept) \<Rightarrow>
         let m1 = m\<lparr>me_store := s\<rparr>
         in if kept = [] then save_plain_messages en ae fl messages [] m1
            else save_plain_messages en ae fl messages kept (link_added en ae (scope_filters fl) kept (record_added en kept m1)))"

definition add_extracted ::
  "('s, 'e, 'v) memory_env \<Rightarrow> ('s, 'v) add_env \<Rightarrow> node list \<Rightarrow> node \<Rightarrow> node \<Rightarrow> hit list \<Rightarrow> node list \<Rightarrow> ('s, 'e) memory
   \<Rightarrow> ('s, 'e) memory \<times> (adding_error + 'v added_record list)" where
  "add_extracted en ae messages md fl hs ns m =
    (let chosen = (if ns = [] then [] else select_new en (known_hashes en ae (me_store m) (scope_filters fl) hs ns) ns)
     in if chosen = [] then
          (if \<not> ae_room ae 0 then (m, Inl NoCapacity) else save_plain_messages en ae fl messages [] m)
        else
          let texts = map (memory_text \<circ> fst) chosen
          in case embed_texts en (batch_vectors ae texts) texts of
               Inl e \<Rightarrow> (m, Inl e)
             | Inr vs \<Rightarrow>
                 if \<not> ae_room ae (length chosen) then (m, Inl NoCapacity)
                 else store_new en ae messages fl (map (added_record en ae md fl) (zip chosen vs)) m)"

definition add_inferred ::
  "('s, 'e, 'v) memory_env \<Rightarrow> ('s, 'v) add_env \<Rightarrow> node list \<Rightarrow> node \<Rightarrow> node \<Rightarrow> ('s, 'e) memory \<Rightarrow> ('s, 'e) memory \<times> (adding_error + node list)" where
  "add_inferred en ae messages md fl m =
    (let earlier = get_last_messages (ae_place ae) (me_db m) (build_session_scope (en_text_of en) fl) 10
     in case en_embed en (ae_parse ae messages) of
       None \<Rightarrow>
         if so_lexical_only (en_store en) then add_raw en ae messages md fl True m else (m, Inl (AddFailed EmbeddingFailed))
     | Some q \<Rightarrow>
         (case so_search (en_store en) (me_store m) q 10 (scope_filters fl) of
            None \<Rightarrow> (m, Inl (AddFailed StoreFailed))
          | Some hs \<Rightarrow>
              (case ae_ask ae hs earlier of
                 None \<Rightarrow> (m, Inl NoModelAnswer)
               | Some r \<Rightarrow>
                   (case parse_extraction_response (ae_loads ae) r of
                      Inl e \<Rightarrow> (m, Inl (BadModelAnswer e))
                    | Inr ns \<Rightarrow>
                        (case add_extracted en ae messages md fl hs ns m of
                           (m1, Inl e) \<Rightarrow> (m1, Inl e)
                         | (m1, Inr rs) \<Rightarrow> (m1, Inr (map (format_added_memory en) rs)))))))"

definition add_to_vector_store ::
  "('s, 'e, 'v) memory_env \<Rightarrow> ('s, 'v) add_env \<Rightarrow> node list \<Rightarrow> node \<Rightarrow> node \<Rightarrow> bool \<Rightarrow> ('s, 'e) memory \<Rightarrow> ('s, 'e) memory \<times> (adding_error + node list)" where
  "add_to_vector_store en ae messages md fl infer m =
    (if infer then add_inferred en ae messages md fl m else add_raw en ae messages md fl False m)"

text \<open>\<open>add\<close> of a list of messages; \<open>expires\<close> is a date already in its ISO form.\<close>

definition add_memories ::
  "('s, 'e, 'v) memory_env \<Rightarrow> ('s, 'v) add_env \<Rightarrow> session_args \<Rightarrow> node \<Rightarrow> pystr option \<Rightarrow> node list \<Rightarrow> bool \<Rightarrow> ('s, 'e) memory
   \<Rightarrow> ('s, 'e) memory \<times> (adding_error + node list)" where
  "add_memories en ae who metadata expires messages infer m =
    (case build_filters_and_metadata who metadata [] of
       Inl e \<Rightarrow> (m, Inl (BadScope e))
     | Inr (md, fl) \<Rightarrow>
         (case parse_vision_messages messages of
            Inl e \<Rightarrow> (m, Inl e)
          | Inr ms \<Rightarrow>
              add_to_vector_store en ae ms (case expires of None \<Rightarrow> md | Some d \<Rightarrow> put ''expiration_date'' (JStr d) md) fl infer m))"

end
