(* ===== verification/Mem_Add_Laws.thy ===== *)
theory Mem_Add_Laws
  imports Mem_Add Mem_Import_Laws
begin

text \<open>
  What holds of adding memories: the locks of the scopes exclude each other, an add changes nothing that is stored and answers
  what it has added, what a scope has is not added to it again, and nothing that was to be added is forgotten.
\<close>

section \<open>The locks\<close>




















section \<open>The scopes of an add\<close>








section \<open>What was selected\<close>




section \<open>What the side effects keep\<close>













section \<open>Nothing is forgotten\<close>














section \<open>Properties\<close>






section \<open>Examples\<close>

definition example_add_env :: "(rat pg_table, rat) add_env" where
  "example_add_env =
    \<lparr>ae_existing = (\<lambda>s. existing_payload_values example_server s ''hash''), ae_room = (\<lambda>n. True), ae_parse = (\<lambda>ms. U ''q''),
     ae_ask = (\<lambda>hs ms. Some (JObj [(U ''memory'', JArr [JObj [(U ''text'', JStr (U ''tea''))], JObj [(U ''text'', JStr (U ''cats''))],
        JObj [(U ''text'', JStr (U ''cats''))]])])),
     ae_loads = (\<lambda>s. Inl []), ae_embed_batch = (\<lambda>ss. None), ae_extract_batch = (\<lambda>ss. Some (map (\<lambda>s. [(U ''NAME'', s)]) ss)),
     ae_uuid5 = (\<lambda>s. s), ae_place = (\<lambda>s. 0)\<rparr>"

definition ann :: session_args where
  "ann = \<lparr>sa_user = Some (U ''ann''), sa_agent = None, sa_app = None, sa_run = None, sa_actor = None\<rparr>"

definition said :: "string \<Rightarrow> node" where
  "said s = [(U ''role'', JStr (U ''user'')), (U ''content'', JStr (U s))]"

definition add_said :: "string list \<Rightarrow> bool \<Rightarrow> (rat pg_table, rat pg_table) memory \<Rightarrow> (rat pg_table, rat pg_table) memory \<times> (adding_error + node list)" where
  "add_said ss infer = add_memories example_env example_add_env ann [] None (map said ss) infer"

definition texts_of :: "(rat pg_table, rat pg_table) memory \<Rightarrow> json list" where
  "texts_of m = map (\<lambda>r. entry ''data'' (pr_payload r)) (me_store m)"


definition after_tea :: "(rat pg_table, rat pg_table) memory" where
  "after_tea = fst (add_said [''tea'', ''tea''] False empty_memory)"

lemma after_tea_texts: "texts_of after_tea = [JStr (U ''tea'')]"
  by code_simp










text \<open>After an update has replaced a text, the old text cannot be added to the scope again: the memory that has its id has another text. Said
  as it is, it is an error of the store; inferred, it is lost, and the answer is as if nothing had been found.\<close>

definition tea_became_milk :: "(rat pg_table, rat pg_table) memory" where
  "tea_became_milk = fst (update_memory example_env (pr_id (hd (me_store after_tea))) (Some (U ''milk'')) [] [] after_tea)"

lemma replaced_text_not_added:
  "(case add_said [''tea''] False tea_became_milk of (m, r) \<Rightarrow> (texts_of m, r)) = ([JStr (U ''milk'')], Inl (AddFailed StoreFailed))"
  by code_simp

lemma replaced_text_lost:
  "(case add_memories example_env (example_add_env\<lparr>ae_ask := \<lambda>hs ms. Some (JObj [(U ''memory'', JArr [JObj [(U ''text'', JStr (U ''tea''))]])])\<rparr>)
      ann [] None [said ''hello''] True tea_became_milk of (m, r) \<Rightarrow> (texts_of m, r)) = ([JStr (U ''milk'')], Inr [])"
  by code_simp

end
