(* ===== verification/Spec2Isabelle.thy ===== *)
theory Spec2Isabelle
  imports Import_Laws Workspace_Laws Scoring Import_Quota Import_Runner_Laws Import_Resume Import_Store_Laws Import_Archive_Laws
    Import_Branch Import_Transcript_Laws Import_Payload Concurrency Import_Host Mem_Import_Laws Mem_Search_Laws Mem_Add_Laws
begin

text \<open>
  A verification library for YiQiao, a memory server that imports chat histories: archives of
  exported conversations are uploaded, unpacked, parsed, cut into chunks and handed, chunk by chunk,
  to a language model whose answers become memories. The library models the import from the
  upload's files to the database, with the access control and the quotas around it, the memory
  engine that stores, updates and deletes memories in PostgreSQL and keeps their history, and the
  filters and the ranking by which they are found again. All paths below are under src/.

  \<^bold>\<open>How the parts interact.\<close> A job is a row of the database, reached by every process through
  \<^verbatim>\<open>server/import_repository.py\<close> and kept in front of it by the job store of one process. A worker
  acquires the job's lease, finds the files, parses them, plans the chunks, picks up what earlier
  attempts left, and processes the chunks under an adaptive limit of concurrent calls; each chunk is
  claimed in the database first, so that several workers, or a worker that has lost its lease
  without knowing it, do not import it twice. Roles decide who may start an import in a project;
  quotas decide whether its result may be stored.

  \<^bold>\<open>Theories and code.\<close>
  \<^item> Prelude: Python strings as lists of code points, JSON values, clock readings, and what a SQL
    statement does to a table kept as a list of rows.
  \<^item> Import_Db, Import_Jobs, Import_Chunks, Import_Items: the six import tables of
    \<^verbatim>\<open>server/models.py\<close> as records with their unique keys, and every method of
    \<^verbatim>\<open>ImportRepository\<close> as a transaction: \<open>Inl\<close> of the exception, with the database as before, or \<open>Inr\<close> of
    the new database and the result. Import_Protocol makes the transactions the steps of a relation,
    in which calls of any workers interleave. Import_Invariant, Import_Leases, Import_Claims and
    Import_Laws prove: the keys and foreign keys hold in every reachable database; a live lease
    stays with its holder, and a worker without it changes nothing; a chunk and a memory
    fingerprint are claimed once; limits, budgets and counters are exact.
  \<^item> Import_Store: \<^verbatim>\<open>ImportJob\<close> and \<^verbatim>\<open>ImportJobStore\<close> of \<^verbatim>\<open>server/chat_import.py\<close>, the cache of jobs; its laws say
    that reading a job through it, after calls of the store, is reading the database (a refinement), and that a refresh shows all of it.
  \<^item> Import_Archive, Import_Branch: the discovery of the files, with the unpacking of zip and tar
    archives, and the active branch of a ChatGPT conversation. Its laws: on a POSIX system no file is written
    outside an archive's directory, limits hold, and a branch is one path.
  \<^item> Py_Regex: regular expressions as syntax trees, and matching as the list of all matches in the order in
    which Python's engine tries them. Import_Parse, Import_Transcript: the readers of JSON exports and of
    Markdown, with every pattern of the source as such a tree. Their laws: whatever is read can be
    chunked unless a date overflows; lines of JSON are read as an array; plain texts written as Markdown are read back.
  \<^item> Import_Redact, Import_Payload: \<^verbatim>\<open>redact_secrets\<close>, the keys and \<^verbatim>\<open>build_payload\<close>. No token of a known shape
    survives; a key stands for what is imported and for whom.
  \<^item> Chat_Text, Chat_Chunks: data URIs, token estimates, the splitters, the reading of dates, turns and chunks. Their laws: splitting
    loses no character, chunks partition the turns, a split shares a chunk's messages out.
  \<^item> Concurrency: \<^verbatim>\<open>AdaptiveConcurrency\<close>, one polling round of its waiting loop at a time.
  \<^item> Import_Runner, Import_Resume: \<^verbatim>\<open>process_chunk\<close> of \<^verbatim>\<open>run_import_job\<close> with its claims, attempts, splits and
    counters, and how a retried job finds its place. Their laws: the counters account for every chunk,
    the run ends, permanent failures are not retried, other failures as often as configured.
  \<^item> Import_Errors, Import_Job, Import_Host: what is recorded of an exception, and \<^verbatim>\<open>run_import_job\<close> as a whole,
    written with sequencing, \<^verbatim>\<open>return\<close>, \<^verbatim>\<open>try\<close>, \<^verbatim>\<open>except\<close> and \<^verbatim>\<open>finally\<close> as combinators on its state. Their laws: the
    statuses a run writes go forward and end the job at most once; on a host that finds the job and
    takes its writes a run always ends it, and Import_Store is such a host.
  \<^item> Workspace, Workspace_Ops, Workspace_Laws: \<^verbatim>\<open>server/workspace.py\<close>, roles and the operations on organizations,
    projects and members. Usage, Usage_Laws: \<^verbatim>\<open>server/usage_service.py\<close> and
    \<^verbatim>\<open>server/project_scope.py\<close>. Import_Quota: \<^verbatim>\<open>server/import_quota.py\<close>. Scoring: \<^verbatim>\<open>mem0/utils/scoring.py\<close>.
  \<^item> Mem_Scope, Mem_Filter, Pg_Filter, Pg_Store: the scope of an operation and the text it is known by, the
    filters of a search and of the request it serves, their translation to SQL conditions with
    the three truth values these have, and the class PGVector as operations on a table
    (\<^verbatim>\<open>mem0/memory/main.py\<close>, \<^verbatim>\<open>server/main.py\<close>, \<^verbatim>\<open>mem0/vector_stores/pgvector.py\<close>). A search stays in its project
    unless it has an AND. Mem_History: \<^verbatim>\<open>mem0/memory/storage.py\<close>; the data of a project are deleted exactly.
  \<^item> Mem_Engine, Mem_Engine_Laws: creating, updating and deleting a memory, with its history and the entities that link to it,
    over any store that keeps the contract of Pg_Store; the last row written to the history tells what the store has, an update keeps a memory's
    origin, a deletion leaves no link where the entity store answers. Mem_Extract: what is made of a model's answer, and the choice between two models; what is
    accepted is grounded in the messages. Mem_Import, Mem_Import_Laws: the adding of a chunk's memories; a worker without its
    lease writes nothing, and what is returned is what is stored.
  \<^item> Mem_Search, Mem_Search_Laws: \<^verbatim>\<open>get\<close>, \<^verbatim>\<open>get_all\<close> and \<^verbatim>\<open>_search_vector_store\<close> with lexical scores, keyword scores, entity boosts and
    the merging of what is found. Answers are stored, unexpired memories of the project asked for, each once, best first.
  \<^item> Mem_Add, Mem_Add_Laws: the standard \<^verbatim>\<open>add\<close> of \<^verbatim>\<open>mem0/memory/main.py\<close>, of messages as they are or of what the model extracts
    from them, with its pool of locks. Adds of one scope exclude each other, an add changes nothing stored and answers what it
    added, what its scope has is not added again, and what was to be added is stored when it succeeds.

  \<^bold>\<open>Interfaces.\<close> What several operations share is a locale, proved once and interpreted on the model's own
  definitions: lease-guarded calls, claims, the relation every step of a worker respects, archive readers, the
  host of a run, the contract of a vector store, and what every guarded step of an import does to the memory.

  \<^bold>\<open>Parameters.\<close> Code outside the repository is an argument: the tokenizer, the lemmatizer, SHA-256, fresh
  identifiers, the file system's and the archive libraries' answers, what the date library makes of a single text, the text
  Python gives to a number, NFKC, MD5, UUIDs, the embedding model and the extraction of entities, and what the provider answers. Of PostgreSQL,
  the order of rows without an ORDER BY, the distance of vectors, the full-text rank and which statements fail are arguments. Clocks are arguments too.

  \<^bold>\<open>Bounds and fuel.\<close> Recursion is structural or has a measure wherever the code's loop has one. A
  chunk's processing recurses into the children of its splits and takes fuel above the remaining
  split depth, for which the run is proved to end; \<open>attempts * (2 ^ (depth + 1) - 1)\<close> bounds its
  provider calls; a whole run uses exactly that fuel for each of its chunks. Integers are unbounded, as Python's are; floating-point numbers are rationals or reals.

  \<^bold>\<open>Not modelled.\<close> The HTTP handlers but for the filters of a search, procedural memories, rerankers,
  the asynchronous twin of the memory engine, which repeats it with awaits, the clients of other vector stores, graph
  databases and model providers, authentication, and the benchmark and smoke-test scripts: most of
  it is orchestration of third-party services. Threads are modelled where they
  meet, in the database, the limiter and the quota locks, and one worker's code is sequential.
\<close>

section \<open>The database\<close>

text \<open>C4: the schema holds in every state the repository can reach. Whatever operations are called, with
  whatever arguments, by whomever, the committed database has unique keys and no dangling
  reference.\<close>
theorem reachable_database_wf:
  assumes "repo_reachable d"
  shows "db_wf d"
  using assms by (rule reachable_wf)

lemma run_calls_reachable: "repo_reachable d \<Longrightarrow> repo_reachable (run_calls exec_call cs d)"
proof (induction cs arbitrary: d)
  case (Cons c cs)
  have "repo_reachable (case exec_call c d of Inl _ \<Rightarrow> d | Inr d' \<Rightarrow> d')"
    using Cons.prems by (auto split: sum.split intro: repo_reachable.step repo_step.call)
  then show ?case using Cons.IH by simp
qed simp

lemma reachable_database_wf_witness: "db_wf leased_db \<and> length (jobs leased_db) = 1"
proof
  have "repo_reachable leased_db"
    unfolding leased_db_def by (rule run_calls_reachable) (rule repo_reachable.start)
  then show "db_wf leased_db" by (rule reachable_database_wf)
  show "length (jobs leased_db) = 1" by code_simp
qed

end
